(* ===== verification/Prelude.thy ===== *)
theory Prelude
  imports Main "HOL-Library.Word" "HOL-Library.Monad_Syntax"
begin

text \<open>
  Shared vocabulary of the development: the C integer types, the byte buffers the driver
  reads and writes, the little-endian encodings it puts into frames, and the lemmas about
  them that every component uses.

  A buffer access of the C code is modelled by \<open>buf_read\<close> and \<open>buf_write\<close>, whose result is
  \<open>None\<close> when the access leaves the buffer.  A component function that is built from them
  is therefore \<open>Some\<close> only when it performs no out-of-bounds access, and the lemmas that
  it returns \<open>Some\<close> are memory-safety statements.
\<close>

unbundle bit_operations_syntax

section \<open>Types\<close>

type_synonym u8 = "8 word"
type_synonym u16 = "16 word"
type_synonym u32 = "32 word"
type_synonym u64 = "64 word"
type_synonym bytes = "8 word list"

named_theorems buf_simps \<open>length and access facts about byte buffers\<close>
named_theorems frame_simps \<open>unfolding of the frame constants\<close>

lemma unat_u8_less [simp]: "unat (x :: u8) < 256"
proof -
  have "unat x < 2 ^ LENGTH(8)" by (rule unsigned_less)
  then show ?thesis by simp
qed

section \<open>Bytes of a 32-bit word\<close>

lemma unat_u32_less: "unat (x :: u32) < 4294967296"
proof -
  have "unat x < 2 ^ LENGTH(32)" by (rule unsigned_less)
  then show ?thesis by simp
qed
lemma word_and_255: "x AND 0xff = take_bit 8 (x :: 'a::len word)"
  by (simp add: take_bit_eq_mask mask_numeral)

lemma unat_byte: "unat (drop_bit n (w :: u32) AND 0xff) = unat w div 2 ^ n mod 256"
  unfolding word_and_255 by (simp only: unsigned_take_bit_eq unsigned_drop_bit_eq) 
    (simp add: take_bit_eq_mod drop_bit_eq_div unat_u32_less)

lemma u8_top_bits: "unat (drop_bit 6 (x :: u8)) < 4"
proof -
  have "unat (drop_bit 6 x) = unat x div 2 ^ 6"
    by (simp only: unsigned_drop_bit_eq) (simp add: take_bit_eq_mod drop_bit_eq_div)
  moreover have "unat x div 64 < 4" using unat_u8_less [of x] by (simp add: less_mult_imp_div_less)
  ultimately show ?thesis by simp
qed

lemma and_ff00: "(v :: u32) AND 0xff00 = 0xff00 \<longleftrightarrow> drop_bit 8 v AND 0xff = 0xff"
proof -
  have e: "(0xff00 :: u32) = push_bit 8 (mask 8)" "(0xff :: u32) = mask 8" by (simp_all add: mask_numeral)
  have p: "v AND push_bit 8 (mask 8) = push_bit 8 (drop_bit 8 v AND mask 8)"
    by (rule bit_word_eqI) (auto simp: bit_simps dest: le_Suc_ex)
  have "drop_bit 8 (push_bit 8 (mask 8 :: u32)) = mask 8" by (simp add: mask_numeral)
  then show ?thesis unfolding e using p by (metis drop_bit_and)
qed
lemma key_idx_shift:
  assumes "x < 4"
  shows "drop_bit 6 (push_bit 6 x) = (x :: u8)"
proof -
  have "unat (take_bit 2 x) = unat x"
    using assms by (simp add: unsigned_take_bit_eq take_bit_eq_mod word_less_nat_alt unat_mod_distrib)
  then have "take_bit 2 x = x" by (simp add: word_unat_eq_iff)
  then have "bit x n \<Longrightarrow> n < 2" for n by (metis bit_take_bit_iff)
  then show ?thesis by (intro bit_word_eqI) (fastforce simp: bit_simps)
qed
text \<open>The key byte of TKIP and CCMP: the key index in the two upper bits, the ExtIV flag.\<close>

lemma ext_iv_key_byte:
  assumes "0 \<le> idx" and "idx < 4"
  shows "(push_bit 6 (word_of_int idx) OR 0x20) AND 0x20 \<noteq> (0 :: u8)"
    and "uint (drop_bit 6 (push_bit 6 (word_of_int idx) OR 0x20) :: u8) = idx"
    and "uint (drop_bit 6 (push_bit 6 (word_of_int idx)) :: u8) = idx"
proof -
  have "idx = 0 \<or> idx = 1 \<or> idx = 2 \<or> idx = 3" using assms by auto
  then show "(push_bit 6 (word_of_int idx) OR 0x20) AND 0x20 \<noteq> (0 :: u8)"
    and "uint (drop_bit 6 (push_bit 6 (word_of_int idx) OR 0x20) :: u8) = idx"
    and "uint (drop_bit 6 (push_bit 6 (word_of_int idx)) :: u8) = idx"
    by auto
qed

lemma and_ff00_add: "(v :: u32) AND 0xff00 = 0xff00 \<Longrightarrow> drop_bit 8 (v + 0x100) AND 0xff = 0"
proof -
  assume "v AND 0xff00 = 0xff00"
  then have "drop_bit 8 v AND 0xff = 0xff" by (simp add: and_ff00)
  then have m: "unat v div 256 mod 256 = 255" using unat_byte [of 8 v] by simp
  have s: "unat (v + 0x100) = (unat v + 256) mod 4294967296" by (simp add: unat_word_ariths)
  have "unat (v + 0x100) div 256 mod 256 = 0"
  proof (cases "unat v + 256 < 4294967296")
    case True
    moreover have "(unat v + 256) div 256 = Suc (unat v div 256)" using div_add_self2 [of "256 :: nat" "unat v"] by simp
    ultimately show ?thesis unfolding s using m by (simp add: mod_Suc)
  next
    case False
    then have "unat (v + 0x100) = unat v + 256 - 4294967296"
      unfolding s using unat_u32_less [of v] by (simp add: mod_if)
    then have "unat (v + 0x100) < 256" using unat_u32_less [of v] by linarith
    then show ?thesis by simp
  qed
  then show ?thesis using unat_byte [of 8 "v + 0x100"] by (simp add: unat_eq_zero)
qed

section \<open>Byte buffers\<close>

definition buf_read :: "nat \<Rightarrow> nat \<Rightarrow> bytes \<Rightarrow> bytes option" where
  "buf_read off n xs = (if off + n \<le> length xs then Some (take n (drop off xs)) else None)"

definition buf_byte :: "nat \<Rightarrow> bytes \<Rightarrow> u8 option" where
  "buf_byte off xs = (if off < length xs then Some (xs ! off) else None)"

definition buf_write :: "nat \<Rightarrow> bytes \<Rightarrow> bytes \<Rightarrow> bytes option" where
  "buf_write off ys xs =
     (if off + length ys \<le> length xs
      then Some (take off xs @ ys @ drop (off + length ys) xs) else None)"

text \<open>\<open>memmove(base + dst, base + src, n)\<close> inside one buffer.\<close>

definition buf_move :: "nat \<Rightarrow> nat \<Rightarrow> nat \<Rightarrow> bytes \<Rightarrow> bytes option" where
  "buf_move dst src n xs = buf_read src n xs \<bind> (\<lambda>ys. buf_write dst ys xs)"

lemma buf_read_Some_iff: "buf_read off n xs = Some ys \<longleftrightarrow>
    off + n \<le> length xs \<and> ys = take n (drop off xs)"
  by (auto simp: buf_read_def)

lemma buf_read_ge: "off + n \<le> length xs \<Longrightarrow> buf_read off n xs = Some (take n (drop off xs))"
  by (simp add: buf_read_def)

lemma buf_write_ge: "off + length ys \<le> length xs \<Longrightarrow> buf_write off ys xs = Some (take off xs @ ys @ drop (off + length ys) xs)"
  by (simp add: buf_write_def)

lemma buf_read_len [buf_simps]: "buf_read off n xs = Some ys \<Longrightarrow> length ys = n"
  by (auto simp: buf_read_def split: if_splits)

lemma buf_write_len [buf_simps]: "buf_write off ys xs = Some zs \<Longrightarrow> length zs = length xs"
  by (auto simp: buf_write_def split: if_splits)

lemma buf_move_len [buf_simps]: "buf_move d s n xs = Some zs \<Longrightarrow> length zs = length xs"
  by (auto simp: buf_move_def Option.bind_eq_Some_conv dest: buf_write_len)

text \<open>
  The accesses on a buffer given as a concatenation, which is how the frame lemmas see it:
  a part that starts where a prefix ends.
\<close>

lemma buf_read_append [buf_simps]:
  "length a = off \<Longrightarrow> length b = n \<Longrightarrow> buf_read off n (a @ b @ c) = Some b"
  by (auto simp: buf_read_def)

lemma buf_read_append_end [buf_simps]:
  "length a = off \<Longrightarrow> length b = n \<Longrightarrow> buf_read off n (a @ b) = Some b"
  by (auto simp: buf_read_def)

lemma buf_write_append [buf_simps]:
  "length a = off \<Longrightarrow> length b = length ys \<Longrightarrow>
     buf_write off ys (a @ b @ c) = Some (a @ ys @ c)"
  by (auto simp: buf_write_def)

lemma buf_write_append_end [buf_simps]:
  "length a = off \<Longrightarrow> length b = length ys \<Longrightarrow> buf_write off ys (a @ b) = Some (a @ ys)"
  by (auto simp: buf_write_def)

lemma buf_byte_append [buf_simps]:
  "length a = off \<Longrightarrow> buf_byte off (a @ x # c) = Some x"
  by (auto simp: buf_byte_def nth_append)

text \<open>An access that fits in a prefix of the buffer.\<close>

lemma buf_read_prefix: "buf_read off n a = Some b \<Longrightarrow> buf_read off n (a @ c) = Some b"
  by (auto simp: buf_read_def split: if_splits)

lemma buf_byte_prefix: "buf_byte off a = Some b \<Longrightarrow> buf_byte off (a @ c) = Some b"
  by (auto simp: buf_byte_def nth_append split: if_splits)

text \<open>A computation that succeeds on a prefix succeeds with the same result on the whole.\<close>

lemma bind_prefix:
  "\<lbrakk>x \<bind> f = Some r; \<And>v. x = Some v \<Longrightarrow> y = Some v; \<And>v. f v = Some r \<Longrightarrow> g v = Some r\<rbrakk> \<Longrightarrow>
     y \<bind> g = Some r"
  by (cases x) auto

lemma take_drop_append [simp]: "take n xs @ drop n xs @ ys = xs @ ys"
  by (metis append_assoc append_take_drop_id)

lemma length_4E:
  assumes "length xs = 4"
  obtains a b c d where "xs = [a, b, c, d]"
  using assms by (auto simp: length_Suc_conv eval_nat_numeral)

lemma length_ge_4E:
  assumes "4 \<le> length xs"
  obtains a b c d ys where "xs = a # b # c # d # ys" "length ys = length xs - 4"
proof -
  have "length (take 4 xs) = 4" using assms by simp
  then obtain a b c d where "take 4 xs = [a, b, c, d]" by (rule length_4E)
  then have "xs = a # b # c # d # drop 4 xs" by (metis append_Cons append_Nil append_take_drop_id)
  then show ?thesis by (rule that) simp
qed

section \<open>Exclusive or of byte strings\<close>

definition xor_bytes :: "bytes \<Rightarrow> bytes \<Rightarrow> bytes" where
  "xor_bytes xs ys = map2 (XOR) xs ys"

lemma length_xor_bytes [simp]: "length (xor_bytes xs ys) = min (length xs) (length ys)"
  by (simp add: xor_bytes_def)

lemma xor_bytes_Nil [simp]: "xor_bytes [] ys = []" "xor_bytes xs [] = []"
  by (simp_all add: xor_bytes_def)

lemma xor_bytes_Cons [simp]:
  "xor_bytes (x # xs) (y # ys) = (x XOR y) # xor_bytes xs ys"
  by (simp add: xor_bytes_def)

lemma xor_bytes_cancel [simp]:
  "length xs \<le> length ys \<Longrightarrow> xor_bytes (xor_bytes xs ys) ys = xs"
proof (induction xs arbitrary: ys)
  case (Cons x xs)
  then show ?case by (cases ys) (auto simp: xor.assoc)
qed simp

lemma xor_bytes_append:
  "length a = length c \<Longrightarrow> xor_bytes (a @ b) (c @ d) = xor_bytes a c @ xor_bytes b d"
  by (simp add: xor_bytes_def)

lemma xor_bytes_take_right [simp]: "xor_bytes a (take (length a) b) = xor_bytes a b"
proof (induction a arbitrary: b)
  case (Cons x a)
  then show ?case by (cases b) auto
qed simp

section \<open>Little-endian and big-endian integers\<close>

definition le16 :: "u16 \<Rightarrow> bytes" where
  "le16 v = [ucast v, ucast (drop_bit 8 v)]"

definition le32 :: "u32 \<Rightarrow> bytes" where
  "le32 v = [ucast v, ucast (drop_bit 8 v), ucast (drop_bit 16 v), ucast (drop_bit 24 v)]"

definition get_le16 :: "u8 \<Rightarrow> u8 \<Rightarrow> u16" where
  "get_le16 a b = ucast a OR push_bit 8 (ucast b)"

lemma get_le16_bytes: "get_le16 (ucast v) (ucast (drop_bit 8 v)) = v"
  by (rule bit_word_eqI) (auto simp: get_le16_def bit_simps)

definition get_le32 :: "u8 \<Rightarrow> u8 \<Rightarrow> u8 \<Rightarrow> u8 \<Rightarrow> u32" where
  "get_le32 a b c d = ucast a OR push_bit 8 (ucast b) OR push_bit 16 (ucast c) OR
     push_bit 24 (ucast d)"

lemma length_le16 [simp]: "length (le16 v) = 2"
  by (simp add: le16_def)

lemma length_le32 [simp]: "length (le32 v) = 4"
  by (simp add: le32_def)

lemma get_le32_bytes:
  "get_le32 (ucast v) (ucast (drop_bit 8 v)) (ucast (drop_bit 16 v)) (ucast (drop_bit 24 v)) = v"
proof (rule bit_word_eqI)
  fix n assume n: "n < LENGTH(32)"
  consider "n < 8" | "8 \<le> n \<and> n < 16" | "16 \<le> n \<and> n < 24" | "24 \<le> n" by linarith
  then show "bit (get_le32 (ucast v) (ucast (drop_bit 8 v)) (ucast (drop_bit 16 v))
               (ucast (drop_bit 24 v))) n = bit v n"
    using n by cases (auto simp: get_le32_def bit_simps)
qed

lemma ucast_get_le32:
  "ucast (get_le32 a b c d) = a"
  "ucast (drop_bit 8 (get_le32 a b c d)) = b"
  "ucast (drop_bit 16 (get_le32 a b c d)) = c"
  "ucast (drop_bit 24 (get_le32 a b c d)) = d"
  by (rule bit_word_eqI; auto simp: get_le32_def bit_simps dest: bit_imp_le_length)+

section \<open>Jiffies\<close>

text \<open>\<open>time_after(a, b)\<close>: the signed difference \<open>b - a\<close> of the 64-bit counters is negative.\<close>

definition time_after :: "u64 \<Rightarrow> u64 \<Rightarrow> bool" where
  "time_after a b \<longleftrightarrow> sint (b - a) < 0"

text \<open>A counter at most \<open>2^63 - 1\<close> ticks ahead is after; wrapping around does not matter.\<close>

lemma sint_of_int_u64: "\<lbrakk>- (2 ^ 63) \<le> k; k < 2 ^ 63\<rbrakk> \<Longrightarrow> sint (word_of_int k :: u64) = k"
  using signed_take_bit_int_eq_self [of 63 k] by (simp add: signed_of_int)

lemma time_after_ahead: "\<lbrakk>0 < n; n < 2 ^ 63\<rbrakk> \<Longrightarrow> time_after (a + word_of_nat n) a"
  using sint_of_int_u64 [of "- int n"] by (simp add: time_after_def)

lemma time_after_behind: "n < 2 ^ 63 \<Longrightarrow> \<not> time_after a (a + word_of_nat n)"
  using sint_of_int_u64 [of "int n"] by (simp add: time_after_def)

end
