(* ===== verification/Crypt.thy ===== *)
theory Crypt
  imports Prelude "HOL-Library.Multiset"
begin

text \<open>
  \<open>ieee80211/ieee80211_crypt.c\<close>: the registry of cipher modules and the delayed release of
  cipher contexts.  A context (\<open>ieee80211_crypt_data\<close>) that is taken out of a key slot may
  still be in use by a frame that is being encrypted or decrypted; it waits in
  \<open>crypt_deinit_list\<close> until a timer finds its reference count zero.  Pointers are identities
  (\<open>nat\<close>); the spin locks make every operation atomic.
\<close>

section \<open>The registry\<close>

record ieee80211_crypto_alg =
  alg_ops :: nat
  alg_name :: string

text \<open>\<open>hcrypt\<close> is \<open>NULL\<close> until the module is initialised; \<open>ENOMEM\<close> is 12.\<close>

type_synonym hcrypt = "ieee80211_crypto_alg list option"

definition ieee80211_register_crypto_ops :: "bool \<Rightarrow> ieee80211_crypto_alg \<Rightarrow> hcrypt \<Rightarrow> int \<times> hcrypt" where
  "ieee80211_register_crypto_ops alloc_ok alg h =
     (case h of
        None \<Rightarrow> (- 1, None)
      | Some algs \<Rightarrow> if \<not> alloc_ok then (- 12, h) else (0, Some (alg # algs)))"

text \<open>The loop stops at the first entry with these operations.\<close>

fun alg_unlink :: "nat \<Rightarrow> ieee80211_crypto_alg list \<Rightarrow> (ieee80211_crypto_alg \<times> ieee80211_crypto_alg list) option" where
  "alg_unlink ops [] = None"
| "alg_unlink ops (alg # algs) =
     (if alg_ops alg = ops then Some (alg, algs)
      else map_option (\<lambda>(d, rest). (d, alg # rest)) (alg_unlink ops algs))"

definition ieee80211_unregister_crypto_ops :: "nat \<Rightarrow> hcrypt \<Rightarrow> int \<times> hcrypt" where
  "ieee80211_unregister_crypto_ops ops h =
     (case h of
        None \<Rightarrow> (- 1, None)
      | Some algs \<Rightarrow> (case alg_unlink ops algs of None \<Rightarrow> (- 1, h) | Some (_, rest) \<Rightarrow> (0, Some rest)))"

definition ieee80211_get_crypto_ops :: "string \<Rightarrow> hcrypt \<Rightarrow> nat option" where
  "ieee80211_get_crypto_ops name h =
     (case h of
        None \<Rightarrow> None
      | Some algs \<Rightarrow> map_option alg_ops (find (\<lambda>alg. alg_name alg = name) algs))"

definition ieee80211_crypt_null :: ieee80211_crypto_alg where
  "ieee80211_crypt_null = \<lparr>alg_ops = 0, alg_name = ''NULL''\<rparr>"

definition ieee80211_crypto_init :: "bool \<Rightarrow> bool \<Rightarrow> int \<times> hcrypt" where
  "ieee80211_crypto_init alloc_ok alg_alloc_ok =
     (if \<not> alloc_ok then (- 12, None)
      else let (ret, h) = ieee80211_register_crypto_ops alg_alloc_ok ieee80211_crypt_null (Some [])
           in if ret < 0 then (ret, None) else (ret, h))"

section \<open>Delayed release of contexts\<close>

record ieee80211_crypt_data =
  cd_id :: nat
  cd_ops :: "nat option"
  cd_priv :: nat
  cd_refcnt :: nat

text \<open>What a release does: \<open>ops->deinit(priv)\<close>, \<open>module_put\<close>, \<open>kfree\<close> of the entry.\<close>

datatype crypt_effect = Deinit nat nat | Module_Put nat | Kfree nat

record crypt_state =
  cs_crypt :: "ieee80211_crypt_data option list"
  cs_deinit_list :: "ieee80211_crypt_data list"
  cs_timer :: "nat option"
  cs_jiffies :: nat
  cs_effects :: "crypt_effect list"

definition crypt_release :: "ieee80211_crypt_data \<Rightarrow> crypt_effect list" where
  "crypt_release entry =
     (case cd_ops entry of None \<Rightarrow> [] | Some ops \<Rightarrow> [Deinit ops (cd_priv entry), Module_Put ops]) @
     [Kfree (cd_id entry)]"

text \<open>The loop over the list: the entries that stay, and the effects of the releases.\<close>

fun crypt_deinit_loop ::
  "bool \<Rightarrow> ieee80211_crypt_data list \<Rightarrow> ieee80211_crypt_data list \<times> crypt_effect list" where
  "crypt_deinit_loop force [] = ([], [])"
| "crypt_deinit_loop force (entry # rest) =
     (if cd_refcnt entry \<noteq> 0 \<and> \<not> force
      then (let (keep, eff) = crypt_deinit_loop force rest in (entry # keep, eff))
      else (let (keep, eff) = crypt_deinit_loop force rest in (keep, crypt_release entry @ eff)))"

definition ieee80211_crypt_deinit_entries :: "bool \<Rightarrow> crypt_state \<Rightarrow> crypt_state" where
  "ieee80211_crypt_deinit_entries force s =
     (let (keep, eff) = crypt_deinit_loop force (cs_deinit_list s)
      in s\<lparr>cs_deinit_list := keep, cs_effects := cs_effects s @ eff\<rparr>)"

text \<open>The timer function: it runs with the timer no longer pending.\<close>

definition ieee80211_crypt_deinit_handler :: "nat \<Rightarrow> crypt_state \<Rightarrow> crypt_state" where
  "ieee80211_crypt_deinit_handler HZ s =
     (let s = ieee80211_crypt_deinit_entries False s
      in if cs_deinit_list s \<noteq> [] then s\<lparr>cs_timer := Some (cs_jiffies s + HZ)\<rparr> else s)"

definition ieee80211_crypt_delayed_deinit :: "nat \<Rightarrow> nat \<Rightarrow> crypt_state \<Rightarrow> crypt_state" where
  "ieee80211_crypt_delayed_deinit HZ i s =
     (case cs_crypt s ! i of
        None \<Rightarrow> s
      | Some tmp \<Rightarrow>
          let s = s\<lparr>cs_crypt := (cs_crypt s)[i := None], cs_deinit_list := tmp # cs_deinit_list s\<rparr>
          in if cs_timer s = None then s\<lparr>cs_timer := Some (cs_jiffies s + HZ)\<rparr> else s)"

section \<open>The registry as a stack\<close>

text \<open>The registry finds the operations registered last under a name, and unregistering
  what was just registered restores the registry.\<close>

theorem crypto_registry_stack:
  "ieee80211_register_crypto_ops True alg (Some algs) = (0, Some (alg # algs)) \<and>
   ieee80211_get_crypto_ops name (Some (alg # algs)) =
     (if alg_name alg = name then Some (alg_ops alg) else ieee80211_get_crypto_ops name (Some algs)) \<and>
   ieee80211_unregister_crypto_ops (alg_ops alg) (Some (alg # algs)) = (0, Some algs)"
  by (simp add: ieee80211_register_crypto_ops_def ieee80211_get_crypto_ops_def ieee80211_unregister_crypto_ops_def)

section \<open>The life of a context\<close>

text \<open>
  The environment around the three functions: a context is installed in a free key slot
  (\<open>ieee80211_wx_set_encode\<close>), a frame takes a reference through a slot and drops it later
  (\<open>atomic_inc\<close> and \<open>atomic_dec\<close> in the receive and transmit paths), time passes, and the
  timer fires when it is due.
\<close>

definition crypt_map :: "(ieee80211_crypt_data \<Rightarrow> ieee80211_crypt_data) \<Rightarrow> crypt_state \<Rightarrow> crypt_state" where
  "crypt_map f s = s\<lparr>cs_crypt := map (map_option f) (cs_crypt s), cs_deinit_list := map f (cs_deinit_list s)\<rparr>"

definition slot_ids :: "ieee80211_crypt_data option list \<Rightarrow> nat list" where
  "slot_ids cr = concat (map (\<lambda>x. case x of None \<Rightarrow> [] | Some d \<Rightarrow> [cd_id d]) cr)"

definition freed_ids :: "crypt_effect list \<Rightarrow> nat list" where
  "freed_ids eff = concat (map (\<lambda>e. case e of Kfree k \<Rightarrow> [k] | _ \<Rightarrow> []) eff)"

definition crypt_ids :: "crypt_state \<Rightarrow> nat list" where
  "crypt_ids s = slot_ids (cs_crypt s) @ map cd_id (cs_deinit_list s) @ freed_ids (cs_effects s)"

definition crypt_start :: "nat \<Rightarrow> crypt_state" where
  "crypt_start n = \<lparr>cs_crypt = replicate n None, cs_deinit_list = [], cs_timer = None, cs_jiffies = 0, cs_effects = []\<rparr>"

inductive crypt_step :: "nat \<Rightarrow> crypt_state \<Rightarrow> crypt_state \<Rightarrow> bool" for HZ :: nat where
  install: "\<lbrakk>i < length (cs_crypt s); cs_crypt s ! i = None; cd_refcnt d = 0; cd_id d \<notin> set (crypt_ids s)\<rbrakk> \<Longrightarrow>
     crypt_step HZ s (s\<lparr>cs_crypt := (cs_crypt s)[i := Some d]\<rparr>)"
| remove: "i < length (cs_crypt s) \<Longrightarrow> crypt_step HZ s (ieee80211_crypt_delayed_deinit HZ i s)"
| get: "\<lbrakk>i < length (cs_crypt s); cs_crypt s ! i = Some d\<rbrakk> \<Longrightarrow>
     crypt_step HZ s (crypt_map (\<lambda>e. if cd_id e = cd_id d then e\<lparr>cd_refcnt := cd_refcnt e + 1\<rparr> else e) s)"
| put: "crypt_step HZ s (crypt_map (\<lambda>e. if cd_id e = k then e\<lparr>cd_refcnt := cd_refcnt e - 1\<rparr> else e) s)"
| tick: "crypt_step HZ s (s\<lparr>cs_jiffies := Suc (cs_jiffies s)\<rparr>)"
| fire: "\<lbrakk>cs_timer s = Some t; t \<le> cs_jiffies s\<rbrakk> \<Longrightarrow>
     crypt_step HZ s (ieee80211_crypt_deinit_handler HZ (s\<lparr>cs_timer := None\<rparr>))"

inductive crypt_reach :: "nat \<Rightarrow> nat \<Rightarrow> crypt_state \<Rightarrow> bool" for HZ n :: nat where
  start: "crypt_reach HZ n (crypt_start n)"
| step: "\<lbrakk>crypt_reach HZ n s; crypt_step HZ s s'\<rbrakk> \<Longrightarrow> crypt_reach HZ n s'"

inductive_cases crypt_stepE: "crypt_step HZ s s'"

section \<open>The loop\<close>

lemma crypt_deinit_loop_eq:
  "crypt_deinit_loop force l =
     (filter (\<lambda>e. cd_refcnt e \<noteq> 0 \<and> \<not> force) l,
      concat (map crypt_release (filter (\<lambda>e. \<not> (cd_refcnt e \<noteq> 0 \<and> \<not> force)) l)))"
  by (induction l) auto

lemma freed_ids_append [simp]: "freed_ids (a @ b) = freed_ids a @ freed_ids b"
  by (simp add: freed_ids_def)

lemma freed_ids_release [simp]: "freed_ids (crypt_release e) = [cd_id e]"
  by (cases "cd_ops e") (simp_all add: crypt_release_def freed_ids_def)

lemma freed_ids_releases: "freed_ids (concat (map crypt_release l)) = map cd_id l"
proof (induction l)
  case Nil
  then show ?case by (simp add: freed_ids_def)
qed simp

lemma mset_partition: "mset (filter P l) + mset (filter (\<lambda>x. \<not> P x) l) = mset l"
  by (simp add: mset_filter multiset_partition [symmetric])

lemma deinit_entries_ids: "mset (crypt_ids (ieee80211_crypt_deinit_entries force s)) = mset (crypt_ids s)"
proof -
  let ?P = "\<lambda>e. cd_refcnt e \<noteq> 0 \<and> \<not> force" and ?l = "cs_deinit_list s"
  have "image_mset cd_id (mset ?l) =
      image_mset cd_id (mset (filter ?P ?l)) + image_mset cd_id (mset (filter (\<lambda>e. \<not> ?P e) ?l))"
    by (metis image_mset_union mset_partition)
  then show ?thesis
    by (simp add: ieee80211_crypt_deinit_entries_def crypt_deinit_loop_eq crypt_ids_def freed_ids_releases)
qed

lemma handler_ids: "mset (crypt_ids (ieee80211_crypt_deinit_handler HZ s)) = mset (crypt_ids s)"
proof -
  have "crypt_ids (ieee80211_crypt_deinit_handler HZ s) = crypt_ids (ieee80211_crypt_deinit_entries False s)"
    by (simp add: ieee80211_crypt_deinit_handler_def Let_def crypt_ids_def)
  then show ?thesis by (simp add: deinit_entries_ids)
qed

lemma slot_ids_update:
  assumes "i < length cr"
  shows "mset (slot_ids (cr[i := x])) + mset (slot_ids [cr ! i]) = mset (slot_ids cr) + mset (slot_ids [x])"
proof -
  have "slot_ids cr = slot_ids (take i cr) @ slot_ids [cr ! i] @ slot_ids (drop (Suc i) cr)"
    unfolding slot_ids_def using id_take_nth_drop [OF assms]
    by (metis concat_append map_append append_Cons append_Nil list.simps(9) list.simps(8))
  moreover have "slot_ids (cr[i := x]) = slot_ids (take i cr) @ slot_ids [x] @ slot_ids (drop (Suc i) cr)"
    unfolding slot_ids_def using upd_conv_take_nth_drop [OF assms]
    by (metis concat_append map_append append_Cons append_Nil list.simps(9) list.simps(8))
  ultimately show ?thesis by simp
qed

lemma delayed_deinit_ids:
  assumes "i < length (cs_crypt s)"
  shows "mset (crypt_ids (ieee80211_crypt_delayed_deinit HZ i s)) = mset (crypt_ids s)"
proof (cases "cs_crypt s ! i")
  case (Some d)
  have "mset (slot_ids ((cs_crypt s)[i := None])) + {#cd_id d#} = mset (slot_ids (cs_crypt s))"
    using slot_ids_update [OF assms, of None] Some by (simp add: slot_ids_def)
  then show ?thesis
    using Some by (simp add: ieee80211_crypt_delayed_deinit_def Let_def crypt_ids_def)
qed (simp add: ieee80211_crypt_delayed_deinit_def)

lemma crypt_map_ids: "(\<And>e. cd_id (f e) = cd_id e) \<Longrightarrow> crypt_ids (crypt_map f s) = crypt_ids s"
proof -
  assume f: "\<And>e. cd_id (f e) = cd_id e"
  have "slot_ids (map (map_option f) cr) = slot_ids cr" for cr
    by (induction cr) (auto simp: slot_ids_def f split: option.split)
  then show ?thesis by (simp add: crypt_ids_def crypt_map_def f comp_def)
qed

lemma crypt_step_distinct: "\<lbrakk>crypt_step HZ s s'; distinct (crypt_ids s)\<rbrakk> \<Longrightarrow> distinct (crypt_ids s')"
proof (induction rule: crypt_step.induct)
  case (install i s d)
  have "mset (slot_ids ((cs_crypt s)[i := Some d])) = mset (slot_ids (cs_crypt s)) + {#cd_id d#}"
    using slot_ids_update [OF install(1), of "Some d"] install(2) by (simp add: slot_ids_def)
  then have "mset (crypt_ids (s\<lparr>cs_crypt := (cs_crypt s)[i := Some d]\<rparr>)) = mset (cd_id d # crypt_ids s)"
    by (simp add: crypt_ids_def)
  then show ?case using install by (metis distinct.simps(2) mset_eq_imp_distinct_iff)
next
  case (remove i s)
  then show ?case using delayed_deinit_ids by (metis mset_eq_imp_distinct_iff)
next
  case (fire s t)
  have "crypt_ids (s\<lparr>cs_timer := None\<rparr>) = crypt_ids s" by (simp add: crypt_ids_def)
  then show ?case using fire handler_ids by (metis mset_eq_imp_distinct_iff)
qed (simp_all add: crypt_map_ids, simp_all add: crypt_ids_def)

lemma crypt_step_timer:
  "\<lbrakk>crypt_step HZ s s'; cs_deinit_list s \<noteq> [] \<longrightarrow> cs_timer s \<noteq> None\<rbrakk> \<Longrightarrow>
     cs_deinit_list s' \<noteq> [] \<longrightarrow> cs_timer s' \<noteq> None"
proof (induction rule: crypt_step.induct)
  case (remove i s)
  then show ?case by (auto simp: ieee80211_crypt_delayed_deinit_def Let_def split: option.split)
next
  case (fire s t)
  then show ?case by (simp add: ieee80211_crypt_deinit_handler_def Let_def)
qed (simp_all add: crypt_map_def)

section \<open>Properties\<close>

text \<open>C18: In every reachable state the contexts in the key slots, the contexts waiting to be
  released and the contexts already freed are pairwise different: no context is freed twice,
  and no context that a frame can still reach has been freed.\<close>

theorem crypt_no_double_free:
  "crypt_reach HZ n s \<Longrightarrow> distinct (slot_ids (cs_crypt s) @ map cd_id (cs_deinit_list s) @ freed_ids (cs_effects s))"
proof -
  have i: "slot_ids (replicate n None) = []" for n by (induction n) (auto simp: slot_ids_def)
  assume "crypt_reach HZ n s"
  then have "distinct (crypt_ids s)"
  proof (induction rule: crypt_reach.induct)
    case start
    show ?case by (simp add: crypt_start_def crypt_ids_def freed_ids_def i)
  next
    case (step s s')
    then show ?case by (simp add: crypt_step_distinct)
  qed
  then show ?thesis by (simp add: crypt_ids_def)
qed

text \<open>A context installed in slot 0 and removed again.\<close>

definition crypt_example :: crypt_state where
  "crypt_example = ieee80211_crypt_delayed_deinit 100 0
     ((crypt_start 4)\<lparr>cs_crypt := (cs_crypt (crypt_start 4))[0 := Some \<lparr>cd_id = 1, cd_ops = Some 7, cd_priv = 9, cd_refcnt = 0\<rparr>]\<rparr>)"

lemma crypt_example_reach: "crypt_reach 100 4 crypt_example"
proof -
  have "crypt_reach 100 4 ((crypt_start 4)\<lparr>cs_crypt := (cs_crypt (crypt_start 4))
      [0 := Some \<lparr>cd_id = 1, cd_ops = Some 7, cd_priv = 9, cd_refcnt = 0\<rparr>]\<rparr>)"
    by (rule crypt_reach.step [OF crypt_reach.start crypt_step.install])
      (simp_all add: crypt_start_def crypt_ids_def slot_ids_def freed_ids_def eval_nat_numeral)
  from crypt_reach.step [OF this crypt_step.remove, of 0] show ?thesis
    by (simp add: crypt_example_def crypt_start_def)
qed

theorem crypt_no_double_free_witness:
  "distinct (slot_ids (cs_crypt crypt_example) @ map cd_id (cs_deinit_list crypt_example) @
     freed_ids (cs_effects crypt_example)) \<and> map cd_id (cs_deinit_list crypt_example) = [1]"
  using crypt_no_double_free [OF crypt_example_reach]
  by (simp add: crypt_example_def ieee80211_crypt_delayed_deinit_def crypt_start_def Let_def)

text \<open>The timer releases exactly the waiting contexts that no frame is using, in list order,
  and keeps the others; as long as some context waits, the timer is pending, so that it will
  be looked at again.\<close>

theorem crypt_deinit_when_unused:
  assumes "crypt_reach HZ n s"
  shows "cs_deinit_list (ieee80211_crypt_deinit_handler HZ s) = filter (\<lambda>e. cd_refcnt e \<noteq> 0) (cs_deinit_list s) \<and>
    cs_effects (ieee80211_crypt_deinit_handler HZ s) =
      cs_effects s @ concat (map crypt_release (filter (\<lambda>e. cd_refcnt e = 0) (cs_deinit_list s))) \<and>
    (cs_deinit_list s \<noteq> [] \<longrightarrow> cs_timer s \<noteq> None)"
proof -
  have "cs_deinit_list s \<noteq> [] \<longrightarrow> cs_timer s \<noteq> None"
    using assms by (induction rule: crypt_reach.induct) (auto simp: crypt_start_def dest: crypt_step_timer)
  then show ?thesis
    by (simp add: ieee80211_crypt_deinit_handler_def ieee80211_crypt_deinit_entries_def crypt_deinit_loop_eq Let_def)
qed

theorem crypt_deinit_when_unused_witness:
  "cs_deinit_list (ieee80211_crypt_deinit_handler 100 crypt_example) =
      filter (\<lambda>e. cd_refcnt e \<noteq> 0) (cs_deinit_list crypt_example) \<and>
    cs_effects (ieee80211_crypt_deinit_handler 100 crypt_example) =
      cs_effects crypt_example @ concat (map crypt_release (filter (\<lambda>e. cd_refcnt e = 0) (cs_deinit_list crypt_example))) \<and>
    cs_timer crypt_example \<noteq> None"
proof -
  have "cs_deinit_list crypt_example \<noteq> []"
    by (simp add: crypt_example_def ieee80211_crypt_delayed_deinit_def crypt_start_def Let_def)
  with crypt_deinit_when_unused [OF crypt_example_reach] show ?thesis by blast
qed

end
