(* ===== verification/Skb.thy ===== *)
theory Skb
  imports Prelude
begin

text \<open>
  The socket buffer the whole driver works on.  A buffer is one allocation
  \<open>head .. end\<close> with a window \<open>data .. tail\<close>; it is held here as the three parts the two
  window pointers cut it into.  \<open>skb_push\<close>, \<open>skb_put\<close>, \<open>skb_pull\<close> and \<open>skb_trim\<close> move the
  window without touching a byte (lemma group \<open>skb_window\<close>).  A push or a put that would
  leave the allocation makes the kernel panic (\<open>skb_under_panic\<close>, \<open>skb_over_panic\<close>): its
  result is \<open>None\<close>, as for an out-of-bounds access.
\<close>

record sk_buff =
  skb_head :: bytes
  skb_data :: bytes
  skb_room :: bytes

definition skb_len :: "sk_buff \<Rightarrow> nat" where
  "skb_len skb = length (skb_data skb)"

definition skb_headroom :: "sk_buff \<Rightarrow> nat" where
  "skb_headroom skb = length (skb_head skb)"

definition skb_tailroom :: "sk_buff \<Rightarrow> nat" where
  "skb_tailroom skb = length (skb_room skb)"

definition skb_alloc_bytes :: "sk_buff \<Rightarrow> bytes" where
  "skb_alloc_bytes skb = skb_head skb @ skb_data skb @ skb_room skb"

definition skb_push :: "nat \<Rightarrow> sk_buff \<Rightarrow> sk_buff option" where
  "skb_push n skb =
     (if n \<le> skb_headroom skb
      then Some (skb\<lparr>skb_head := take (skb_headroom skb - n) (skb_head skb),
                     skb_data := drop (skb_headroom skb - n) (skb_head skb) @ skb_data skb\<rparr>)
      else None)"

definition skb_put :: "nat \<Rightarrow> sk_buff \<Rightarrow> sk_buff option" where
  "skb_put n skb =
     (if n \<le> skb_tailroom skb
      then Some (skb\<lparr>skb_data := skb_data skb @ take n (skb_room skb),
                     skb_room := drop n (skb_room skb)\<rparr>)
      else None)"

text \<open>\<open>skb_pull\<close> leaves the buffer alone when fewer than \<open>n\<close> bytes are in the window.\<close>

definition skb_pull :: "nat \<Rightarrow> sk_buff \<Rightarrow> sk_buff" where
  "skb_pull n skb =
     (if n \<le> skb_len skb
      then skb\<lparr>skb_head := skb_head skb @ take n (skb_data skb),
               skb_data := drop n (skb_data skb)\<rparr>
      else skb)"

definition skb_trim :: "nat \<Rightarrow> sk_buff \<Rightarrow> sk_buff" where
  "skb_trim n skb =
     (if n < skb_len skb
      then skb\<lparr>skb_data := take n (skb_data skb),
               skb_room := drop n (skb_data skb) @ skb_room skb\<rparr>
      else skb)"

text \<open>\<open>skb_reserve\<close> is called on an empty buffer: the window moves towards the end.\<close>

definition skb_reserve :: "nat \<Rightarrow> sk_buff \<Rightarrow> sk_buff option" where
  "skb_reserve n skb =
     (if n \<le> skb_tailroom skb
      then Some (skb\<lparr>skb_head := skb_head skb @ take n (skb_data skb @ skb_room skb),
                     skb_data := take (skb_len skb) (drop n (skb_data skb @ skb_room skb)),
                     skb_room := drop (skb_len skb) (drop n (skb_data skb @ skb_room skb))\<rparr>)
      else None)"

definition dev_alloc_skb :: "nat \<Rightarrow> sk_buff" where
  "dev_alloc_skb n = \<lparr>skb_head = replicate 16 0, skb_data = [], skb_room = replicate n 0\<rparr>"

text \<open>Accesses through a pointer into the window.\<close>

definition skb_load :: "nat \<Rightarrow> nat \<Rightarrow> sk_buff \<Rightarrow> bytes option" where
  "skb_load off n skb = buf_read off n (skb_data skb)"

definition skb_store :: "nat \<Rightarrow> bytes \<Rightarrow> sk_buff \<Rightarrow> sk_buff option" where
  "skb_store off ys skb =
     map_option (\<lambda>d. skb\<lparr>skb_data := d\<rparr>) (buf_write off ys (skb_data skb))"

definition skb_move :: "nat \<Rightarrow> nat \<Rightarrow> nat \<Rightarrow> sk_buff \<Rightarrow> sk_buff option" where
  "skb_move dst src n skb =
     map_option (\<lambda>d. skb\<lparr>skb_data := d\<rparr>) (buf_move dst src n (skb_data skb))"

text \<open>
  A read through a pointer that may run past the window: it is in bounds as long as it stays in
  the allocation.
\<close>

definition skb_peek :: "nat \<Rightarrow> nat \<Rightarrow> sk_buff \<Rightarrow> bytes option" where
  "skb_peek off n skb = buf_read off n (skb_data skb @ skb_room skb)"

lemma skb_peek_load: "skb_load off n skb = Some b \<Longrightarrow> skb_peek off n skb = Some b"
  by (simp add: skb_peek_def skb_load_def buf_read_prefix)

section \<open>The window operations keep the allocation\<close>

lemma skb_push_bytes: "skb_push n skb = Some skb' \<Longrightarrow> skb_alloc_bytes skb' = skb_alloc_bytes skb"
  by (auto simp: skb_push_def skb_alloc_bytes_def split: if_splits)

lemma skb_put_bytes: "skb_put n skb = Some skb' \<Longrightarrow> skb_alloc_bytes skb' = skb_alloc_bytes skb"
  by (auto simp: skb_put_def skb_alloc_bytes_def split: if_splits)

lemma skb_pull_bytes: "skb_alloc_bytes (skb_pull n skb) = skb_alloc_bytes skb"
  by (auto simp: skb_pull_def skb_alloc_bytes_def)

lemma skb_trim_bytes: "skb_alloc_bytes (skb_trim n skb) = skb_alloc_bytes skb"
  by (auto simp: skb_trim_def skb_alloc_bytes_def)

lemma skb_reserve_bytes:
  "skb_reserve n skb = Some skb' \<Longrightarrow> skb_alloc_bytes skb' = skb_alloc_bytes skb"
proof -
  assume "skb_reserve n skb = Some skb'"
  moreover have "take n xs @ take m (drop n xs) @ drop m (drop n xs) = (xs :: bytes)" for m xs
    by (simp only: append_take_drop_id)
  ultimately show ?thesis
    by (auto simp: skb_reserve_def skb_alloc_bytes_def simp del: drop_drop take_append drop_append
             split: if_splits)
qed

lemmas skb_window = skb_push_bytes skb_put_bytes skb_pull_bytes skb_trim_bytes skb_reserve_bytes

lemma skb_push_window:
  "skb_push n skb = Some skb' \<Longrightarrow>
     \<exists>h. length h = n \<and> skb_data skb' = h @ skb_data skb \<and>
         skb_head skb = skb_head skb' @ h \<and> skb_room skb' = skb_room skb"
  by (auto simp: skb_push_def skb_headroom_def split: if_splits
           intro!: exI [of _ "drop (length (skb_head skb) - n) (skb_head skb)"])

lemma skb_put_window:
  "skb_put n skb = Some skb' \<Longrightarrow>
     \<exists>t. length t = n \<and> skb_data skb' = skb_data skb @ t \<and>
         skb_head skb' = skb_head skb \<and> skb_room skb = t @ skb_room skb'"
  by (auto simp: skb_put_def skb_tailroom_def split: if_splits
           intro!: exI [of _ "take n (skb_room skb)"])

lemma skb_pull_append:
  "\<lbrakk>skb_data skb = t @ rest; length t = n\<rbrakk> \<Longrightarrow>
     skb_pull n skb = skb\<lparr>skb_head := skb_head skb @ t, skb_data := rest\<rparr>"
  by (auto simp: skb_pull_def skb_len_def)

lemma skb_trim_append:
  "\<lbrakk>skb_data skb = d @ t; length d = n\<rbrakk> \<Longrightarrow>
     skb_trim n skb = skb\<lparr>skb_data := d, skb_room := t @ skb_room skb\<rparr>"
  by (cases "t = []") (auto simp: skb_trim_def skb_len_def)

lemma skb_push_Some: "n \<le> skb_headroom skb \<Longrightarrow> \<exists>skb'. skb_push n skb = Some skb'"
  by (simp add: skb_push_def)

lemma skb_put_Some: "n \<le> skb_tailroom skb \<Longrightarrow> \<exists>skb'. skb_put n skb = Some skb'"
  by (simp add: skb_put_def)

text \<open>Accesses to a frame given by its parts.\<close>

lemma skb_load_at [buf_simps]:
  "\<lbrakk>skb_data skb = a @ b @ c; length a = off; length b = n\<rbrakk> \<Longrightarrow> skb_load off n skb = Some b"
  by (simp add: skb_load_def buf_simps)

lemma skb_load_at_end [buf_simps]:
  "\<lbrakk>skb_data skb = a @ b; length a = off; length b = n\<rbrakk> \<Longrightarrow> skb_load off n skb = Some b"
  by (simp add: skb_load_def buf_simps)

lemma skb_store_at [buf_simps]:
  "\<lbrakk>skb_data skb = a @ b @ c; length a = off; length b = length ys\<rbrakk> \<Longrightarrow>
     skb_store off ys skb = Some (skb\<lparr>skb_data := a @ ys @ c\<rparr>)"
  by (simp add: skb_store_def buf_simps)

lemma skb_store_at_end [buf_simps]:
  "\<lbrakk>skb_data skb = a @ b; length a = off; length b = length ys\<rbrakk> \<Longrightarrow>
     skb_store off ys skb = Some (skb\<lparr>skb_data := a @ ys\<rparr>)"
  by (simp add: skb_store_def buf_simps)

text \<open>\<open>memcpy(skb_put(skb, n), d, n)\<close>\<close>

lemma skb_append:
  assumes "length d \<le> skb_tailroom skb"
  shows "\<exists>skb1 skb2. skb_put (length d) skb = Some skb1 \<and> skb_store (skb_len skb) d skb1 = Some skb2 \<and>
     skb_data skb2 = skb_data skb @ d \<and> skb_tailroom skb2 + length d = skb_tailroom skb \<and>
     skb_head skb2 = skb_head skb"
proof -
  obtain skb1 where p: "skb_put (length d) skb = Some skb1" using assms skb_put_Some by blast
  from skb_put_window [OF p] obtain t where t: "length t = length d" "skb_data skb1 = skb_data skb @ t"
    "skb_head skb1 = skb_head skb" "skb_room skb = t @ skb_room skb1" by auto
  have "skb_store (skb_len skb) d skb1 = Some (skb1\<lparr>skb_data := skb_data skb @ d\<rparr>)"
    using t by (intro skb_store_at_end [where a = "skb_data skb" and b = t]) (auto simp: skb_len_def)
  with p t show ?thesis by (simp add: skb_tailroom_def)
qed

text \<open>\<open>memcpy(skb_push(skb, n), d, n)\<close>\<close>

definition skb_prepend :: "bytes \<Rightarrow> sk_buff \<Rightarrow> sk_buff option" where
  "skb_prepend d skb = skb_push (length d) skb \<bind> skb_store 0 d"

lemma skb_prepend_Some:
  assumes "length d \<le> skb_headroom skb"
  shows "\<exists>skb'. skb_prepend d skb = Some skb' \<and> skb_data skb' = d @ skb_data skb \<and>
     skb_headroom skb' + length d = skb_headroom skb \<and> skb_room skb' = skb_room skb"
proof -
  obtain skb1 where p: "skb_push (length d) skb = Some skb1" using assms skb_push_Some by blast
  from skb_push_window [OF p] obtain h where h: "length h = length d" "skb_data skb1 = h @ skb_data skb"
    "skb_head skb = skb_head skb1 @ h" "skb_room skb1 = skb_room skb" by auto
  have "skb_store 0 d skb1 = Some (skb1\<lparr>skb_data := d @ skb_data skb\<rparr>)"
    using h skb_store_at [of skb1 "[]" h "skb_data skb" 0 d] by simp
  with p h show ?thesis by (simp add: skb_prepend_def skb_headroom_def)
qed

lemma skb_pull_headroom: "skb_headroom skb \<le> skb_headroom (skb_pull n skb)"
  "n \<le> skb_len skb \<Longrightarrow> skb_headroom (skb_pull n skb) = skb_headroom skb + n"
  by (simp_all add: skb_pull_def skb_headroom_def skb_len_def)

lemma skb_peek_Some: "off + n \<le> skb_len skb + skb_tailroom skb \<Longrightarrow> \<exists>b. skb_peek off n skb = Some b \<and> length b = n"
  by (simp add: skb_peek_def buf_read_def skb_len_def skb_tailroom_def)

section \<open>Inserting and removing a prefix behind the header\<close>

text \<open>
  The two buffer idioms of every cipher of the driver: opening an \<open>n\<close>-byte hole between
  the 802.11 header and the body (\<open>skb_push\<close>, then \<open>memmove\<close> of the header), and closing it
  again (\<open>memmove\<close> of the header, then \<open>skb_pull\<close>).
\<close>

lemma skb_open_hole:
  assumes "n \<le> skb_headroom skb" and "hdr_len \<le> skb_len skb"
  obtains skb1 skb2 hole where
    "skb_push n skb = Some skb1" and "skb_move 0 n hdr_len skb1 = Some skb2"
    "length hole = n"
    "skb_data skb2 = take hdr_len (skb_data skb) @ hole @ drop hdr_len (skb_data skb)"
    "skb_room skb2 = skb_room skb" and "skb_head skb = skb_head skb2 @ drop (skb_headroom skb - n) (skb_head skb)"
proof -
  from assms obtain skb1 where p: "skb_push n skb = Some skb1" by (auto dest: skb_push_Some)
  from skb_push_window [OF p] obtain h where h: "length h = n"
    and d: "skb_data skb1 = h @ skb_data skb" and hd: "skb_head skb = skb_head skb1 @ h"
    and r: "skb_room skb1 = skb_room skb" by auto
  define hdr where "hdr = take hdr_len (skb_data skb)"
  define bd where "bd = drop hdr_len (skb_data skb)"
  have sp: "skb_data skb = hdr @ bd" and hl: "length hdr = hdr_len"
    using assms by (auto simp: hdr_def bd_def skb_len_def)
  define hole where "hole = drop hdr_len (h @ hdr)"
  have holel: "length hole = n" using h hl by (simp add: hole_def)
  have "buf_read n hdr_len (skb_data skb1) = Some hdr"
    using h hl by (simp add: d sp buf_simps)
  moreover have "buf_write 0 hdr (skb_data skb1) = Some (hdr @ hole @ bd)"
  proof -
    have "skb_data skb1 = [] @ take hdr_len (h @ hdr) @ hole @ bd"
      unfolding hole_def by (metis append_Nil append_assoc append_take_drop_id d sp)
    moreover have "length (take hdr_len (h @ hdr)) = length hdr" using h hl by simp
    ultimately show ?thesis using buf_write_append [of "[]" 0 "take hdr_len (h @ hdr)" hdr "hole @ bd"]
      by simp
  qed
  ultimately have m: "skb_move 0 n hdr_len skb1 = Some (skb1\<lparr>skb_data := hdr @ hole @ bd\<rparr>)"
    by (simp add: skb_move_def buf_move_def)
  from h hd have h': "h = drop (skb_headroom skb - n) (skb_head skb)"
    by (simp add: skb_headroom_def)
  show ?thesis
    by (rule that [OF p m holel]) (use r hd h' in \<open>auto simp: hdr_def bd_def\<close>)
qed

lemma skb_open_hole_at:
  assumes "n \<le> skb_headroom skb" and "skb_data skb = hdr @ body"
  shows "\<exists>skb1 skb2 hole. skb_push n skb = Some skb1 \<and> skb_move 0 n (length hdr) skb1 = Some skb2 \<and>
     length hole = n \<and> skb_data skb2 = hdr @ hole @ body \<and> skb_room skb2 = skb_room skb"
proof -
  have "length hdr \<le> skb_len skb" using assms(2) by (simp add: skb_len_def)
  from skb_open_hole [OF assms(1) this] show ?thesis using assms(2) by (metis append_eq_conv_conj)
qed

lemma skb_close_hole:
  assumes "skb_data skb = hdr @ hole @ bd"
  shows "map_option (skb_pull (length hole)) (skb_move (length hole) 0 (length hdr) skb) =
     Some (skb\<lparr>skb_head := skb_head skb @ take (length hole) (hdr @ hole),
               skb_data := hdr @ bd\<rparr>)"
proof -
  have r: "buf_read 0 (length hdr) (skb_data skb) = Some hdr"
    using buf_read_append [of "[]" 0 hdr "length hdr" "hole @ bd"] by (simp add: assms)
  have sp: "skb_data skb = take (length hole) (hdr @ hole) @ drop (length hole) (hdr @ hole) @ bd"
    by (metis append_assoc append_take_drop_id assms)
  have "buf_write (length hole) hdr (skb_data skb) = Some (take (length hole) (hdr @ hole) @ hdr @ bd)"
    unfolding sp by (rule buf_write_append) auto
  with r have "skb_move (length hole) 0 (length hdr) skb =
      Some (skb\<lparr>skb_data := take (length hole) (hdr @ hole) @ hdr @ bd\<rparr>)"
    by (simp add: skb_move_def buf_move_def)
  moreover have "skb_pull (length hole) (skb\<lparr>skb_data := take (length hole) (hdr @ hole) @ hdr @ bd\<rparr>) =
      skb\<lparr>skb_head := skb_head skb @ take (length hole) (hdr @ hole), skb_data := hdr @ bd\<rparr>"
    by (subst skb_pull_append [where t = "take (length hole) (hdr @ hole)" and rest = "hdr @ bd"]) auto
  ultimately show ?thesis by (simp only: option.map)
qed

text \<open>The three steps that remove a prefix behind the header and a suffix.\<close>

lemma skb_strip:
  assumes "skb_data skb = hdr @ hole @ bd @ t"
  obtains skb1 where "skb_move (length hole) 0 (length hdr) skb = Some skb1"
    and "skb_data (skb_pull (length hole) skb1) = hdr @ bd @ t"
    and "skb_data (skb_trim (skb_len (skb_pull (length hole) skb1) - length t)
           (skb_pull (length hole) skb1)) = hdr @ bd"
    and "skb_tailroom (skb_trim (skb_len (skb_pull (length hole) skb1) - length t)
           (skb_pull (length hole) skb1)) = skb_tailroom skb + length t"
proof -
  from skb_close_hole [of skb hdr hole "bd @ t"] assms obtain skb1 where
    m: "skb_move (length hole) 0 (length hdr) skb = Some skb1"
    and p: "skb_data (skb_pull (length hole) skb1) = hdr @ bd @ t"
    and r: "skb_room (skb_pull (length hole) skb1) = skb_room skb" by fastforce
  have "skb_trim (skb_len (skb_pull (length hole) skb1) - length t) (skb_pull (length hole) skb1) =
      (skb_pull (length hole) skb1)\<lparr>skb_data := hdr @ bd, skb_room := t @ skb_room skb\<rparr>"
    using p r by (subst skb_trim_append [where d = "hdr @ bd" and t = t]) (auto simp: skb_len_def)
  then show ?thesis using that [OF m p] by (simp add: skb_tailroom_def)
qed

end
