(* ===== verification/Frame.thy ===== *)
theory Frame
  imports Skb
begin

text \<open>
  The 802.11 frame header (\<open>struct ieee80211_hdr\<close> of \<open>ieee80211/ieee80211.h\<close>): frame control,
  duration, three addresses, sequence control, and a fourth address.  The fields are read at
  their byte offsets, little endian; \<open>None\<close> is a read outside the buffer.  Also the small
  predicates on frames the receive path uses.
\<close>

abbreviation FCTL_TODS :: u16 where "FCTL_TODS \<equiv> 0x0100"
abbreviation FCTL_FROMDS :: u16 where "FCTL_FROMDS \<equiv> 0x0200"
abbreviation FCTL_DSTODS :: u16 where "FCTL_DSTODS \<equiv> 0x0300"
abbreviation FCTL_MOREFRAGS :: u16 where "FCTL_MOREFRAGS \<equiv> 0x0400"
abbreviation FCTL_WEP :: u16 where "FCTL_WEP \<equiv> 0x4000"
abbreviation FTYPE_CTL :: u16 where "FTYPE_CTL \<equiv> 0x0004"
abbreviation FTYPE_DATA :: u16 where "FTYPE_DATA \<equiv> 0x0008"

definition WLAN_FC_GET_TYPE :: "u16 \<Rightarrow> u16" where
  "WLAN_FC_GET_TYPE fc = fc AND 0x000c"

definition WLAN_FC_GET_STYPE :: "u16 \<Rightarrow> u16" where
  "WLAN_FC_GET_STYPE fc = fc AND 0x00f0"

definition WLAN_GET_SEQ_FRAG :: "u16 \<Rightarrow> u16" where
  "WLAN_GET_SEQ_FRAG sc = sc AND 0x000f"

definition WLAN_GET_SEQ_SEQ :: "u16 \<Rightarrow> u16" where
  "WLAN_GET_SEQ_SEQ sc = sc AND 0xfff0"

text \<open>A 16-bit little-endian field, and the fields of the header.\<close>

definition buf_le16 :: "nat \<Rightarrow> bytes \<Rightarrow> u16 option" where
  "buf_le16 off d = map_option (\<lambda>b. get_le16 (b ! 0) (b ! 1)) (buf_read off 2 d)"

definition hdr_frame_ctl :: "bytes \<Rightarrow> u16 option" where "hdr_frame_ctl d = buf_le16 0 d"
definition hdr_addr1 :: "bytes \<Rightarrow> bytes option" where "hdr_addr1 d = buf_read 4 6 d"
definition hdr_addr2 :: "bytes \<Rightarrow> bytes option" where "hdr_addr2 d = buf_read 10 6 d"
definition hdr_addr3 :: "bytes \<Rightarrow> bytes option" where "hdr_addr3 d = buf_read 16 6 d"
definition hdr_seq_ctl :: "bytes \<Rightarrow> u16 option" where "hdr_seq_ctl d = buf_le16 22 d"
definition hdr_addr4 :: "bytes \<Rightarrow> bytes option" where "hdr_addr4 d = buf_read 24 6 d"

lemmas hdr_field_defs = hdr_frame_ctl_def hdr_addr1_def hdr_addr2_def hdr_addr3_def hdr_seq_ctl_def
  hdr_addr4_def buf_le16_def

lemma hdr_fields_Some:
  "2 \<le> length d \<Longrightarrow> \<exists>fc. hdr_frame_ctl d = Some fc"
  "10 \<le> length d \<Longrightarrow> \<exists>a. hdr_addr1 d = Some a \<and> length a = 6"
  "16 \<le> length d \<Longrightarrow> \<exists>a. hdr_addr2 d = Some a \<and> length a = 6"
  "22 \<le> length d \<Longrightarrow> \<exists>a. hdr_addr3 d = Some a \<and> length a = 6"
  "24 \<le> length d \<Longrightarrow> \<exists>sc. hdr_seq_ctl d = Some sc"
  "30 \<le> length d \<Longrightarrow> \<exists>a. hdr_addr4 d = Some a \<and> length a = 6"
  by (simp_all add: hdr_field_defs buf_read_def)

text \<open>A header field of a frame whose header is kept is the same.\<close>

lemma buf_read_take: "\<lbrakk>off + n \<le> m; m \<le> length d\<rbrakk> \<Longrightarrow> buf_read off n (take m d @ x) = buf_read off n d"
  by (auto simp: buf_read_def min_def drop_take)

lemma hdr_fields_prefix:
  "hdr_frame_ctl a = Some fc \<Longrightarrow> hdr_frame_ctl (a @ d) = Some fc"
  "hdr_addr1 a = Some x \<Longrightarrow> hdr_addr1 (a @ d) = Some x"
  "hdr_addr2 a = Some x \<Longrightarrow> hdr_addr2 (a @ d) = Some x"
  "hdr_addr3 a = Some x \<Longrightarrow> hdr_addr3 (a @ d) = Some x"
  "hdr_seq_ctl a = Some sc \<Longrightarrow> hdr_seq_ctl (a @ d) = Some sc"
  "hdr_addr4 a = Some x \<Longrightarrow> hdr_addr4 (a @ d) = Some x"
  by (auto simp: hdr_field_defs buf_read_prefix)

section \<open>Header length\<close>

definition ieee80211_get_hdrlen :: "u16 \<Rightarrow> nat" where
  "ieee80211_get_hdrlen fc =
     (if WLAN_FC_GET_TYPE fc = FTYPE_DATA
      then if fc AND FCTL_FROMDS \<noteq> 0 \<and> fc AND FCTL_TODS \<noteq> 0 then 30 else 24
      else if WLAN_FC_GET_TYPE fc = FTYPE_CTL
      then if WLAN_FC_GET_STYPE fc = 0x00c0 \<or> WLAN_FC_GET_STYPE fc = 0x00d0 then 10 else 16
      else 24)"

lemma hdrlen_bounds: "10 \<le> ieee80211_get_hdrlen fc" "ieee80211_get_hdrlen fc \<le> 30"
  by (simp_all add: ieee80211_get_hdrlen_def)

lemma and_flag: "n < LENGTH('a) \<Longrightarrow> (w :: 'a::len word) AND push_bit n 1 \<noteq> 0 \<longleftrightarrow> bit w n"
proof -
  assume n: "n < LENGTH('a)"
  have "bit (w AND push_bit n 1) k \<longleftrightarrow> k = n \<and> bit w n" for k
    using n by (auto simp: bit_simps)
  then show ?thesis by (metis bit_0_eq bot_apply bot_bool_def bit_word_eqI)
qed

lemma and_two_flags:
  assumes "m < LENGTH('a)" and "n < LENGTH('a)"
  shows "(w :: 'a::len word) AND (push_bit m 1 OR push_bit n 1) = push_bit m 1 OR push_bit n 1 \<longleftrightarrow> bit w m \<and> bit w n"
proof
  assume e: "w AND (push_bit m 1 OR push_bit n 1) = push_bit m 1 OR push_bit n 1"
  have "bit (push_bit m 1 OR push_bit n 1 :: 'a word) k \<longleftrightarrow> k = m \<or> k = n" for k
    using assms by (auto simp: bit_simps)
  with e show "bit w m \<and> bit w n" by (metis bit_and_iff)
qed (auto intro!: bit_word_eqI simp: bit_simps)

lemma dstods_iff: "fc AND FCTL_DSTODS = FCTL_DSTODS \<longleftrightarrow> fc AND FCTL_FROMDS \<noteq> 0 \<and> fc AND FCTL_TODS \<noteq> 0"
  using and_two_flags [of 8 9 fc] and_flag [of 8 fc] and_flag [of 9 fc] by simp blast

section \<open>Predicates on frames\<close>

text \<open>An EAPOL frame to this station: unicast, and ethertype \<open>0x888e\<close> behind an LLC header.\<close>

definition ieee80211_is_eapol_frame :: "bytes \<Rightarrow> sk_buff \<Rightarrow> bool option" where
  "ieee80211_is_eapol_frame dev_addr skb =
     (if skb_len skb < 24 then Some False
      else do {
        fc \<leftarrow> hdr_frame_ctl (skb_data skb);
        addr1 \<leftarrow> hdr_addr1 (skb_data skb);
        addr3 \<leftarrow> hdr_addr3 (skb_data skb);
        if (fc AND FCTL_DSTODS = FCTL_TODS \<and> addr1 = dev_addr \<and> addr3 = dev_addr) \<or>
           (fc AND FCTL_DSTODS = FCTL_FROMDS \<and> addr1 = dev_addr)
        then if skb_len skb < 24 + 8 then Some False
             else do {
               et \<leftarrow> skb_load 30 2 skb;
               Some (get_le16 (et ! 1) (et ! 0) = 0x888e)
             }
        else Some False
      })"

lemma is_eapol_frame_Some: "\<exists>b. ieee80211_is_eapol_frame dev_addr skb = Some b"
proof (cases "skb_len skb < 24")
  case False
  then have "24 \<le> length (skb_data skb)" by (simp add: skb_len_def)
  then obtain fc a1 a3 where "hdr_frame_ctl (skb_data skb) = Some fc" "hdr_addr1 (skb_data skb) = Some a1"
    "hdr_addr3 (skb_data skb) = Some a3"
    using hdr_fields_Some [of "skb_data skb"] by auto
  then show ?thesis
    by (auto simp: ieee80211_is_eapol_frame_def skb_load_def buf_read_def skb_len_def)
qed (auto simp: ieee80211_is_eapol_frame_def)

text \<open>A hidden ESSID: empty, one blank, or only zero bytes.  The loop runs from the end.\<close>

fun essid_all_zero :: "bytes \<Rightarrow> nat \<Rightarrow> bool" where
  "essid_all_zero essid 0 = True"
| "essid_all_zero essid (Suc n) = (if essid ! n \<noteq> 0 then False else essid_all_zero essid n)"

definition ieee80211_is_empty_essid :: "bytes \<Rightarrow> nat \<Rightarrow> bool" where
  "ieee80211_is_empty_essid essid essid_len =
     (if essid_len = 1 \<and> essid ! 0 = 32 then True else essid_all_zero essid essid_len)"

lemma essid_all_zero_iff: "essid_all_zero essid n \<longleftrightarrow> (\<forall>i < n. essid ! i = 0)"
  by (induction n) (auto simp: less_Suc_eq)

end
