(* ===== verification/Duplicate.thy ===== *)
theory Duplicate
  imports Frame
begin

text \<open>
  \<open>is_duplicate_packet\<close> of \<open>ieee80211/ieee80211_rx.c\<close>: the filter of retransmitted frames, with
  one record per station in ad hoc mode (a hash table of 31 buckets, new records in front) and
  one for the access point in infrastructure mode.
\<close>

datatype iw_mode = IW_MODE_ADHOC | IW_MODE_INFRA | IW_MODE_MASTER | IW_MODE_MONITOR | IW_MODE_OTHER

record ieee_seq =
  sq_seq_num :: u16
  sq_frag_num :: u16
  sq_packet_time :: u64

record ieee_ibss_seq = ieee_seq +
  sq_mac :: bytes

record dup_state =
  ds_last :: ieee_seq
  ds_ibss :: "ieee_ibss_seq list list"

text \<open>The common tail: the verdict and the record after it.\<close>

definition seq_check :: "u64 \<Rightarrow> u64 \<Rightarrow> u16 \<Rightarrow> u16 \<Rightarrow> ('a ieee_seq_scheme) \<Rightarrow> bool \<times> 'a ieee_seq_scheme" where
  "seq_check HZ jiffies seq frag sq =
     (if sq_seq_num sq = seq \<and> time_after (sq_packet_time sq + 5 * HZ) jiffies
      then if sq_frag_num sq = frag then (True, sq)
           else if (uint (sq_frag_num sq) + 1 \<noteq> uint frag) then (True, sq)
           else (False, sq\<lparr>sq_frag_num := frag, sq_packet_time := jiffies\<rparr>)
      else (False, sq\<lparr>sq_seq_num := seq, sq_frag_num := frag, sq_packet_time := jiffies\<rparr>))"

fun ibss_check :: "u64 \<Rightarrow> u64 \<Rightarrow> u16 \<Rightarrow> u16 \<Rightarrow> bytes \<Rightarrow> ieee_ibss_seq list \<Rightarrow> (bool \<times> ieee_ibss_seq list) option" where
  "ibss_check HZ jiffies seq frag mac [] = None"
| "ibss_check HZ jiffies seq frag mac (entry # rest) =
     (if sq_mac entry = mac
      then (let (dup, entry) = seq_check HZ jiffies seq frag entry in Some (dup, entry # rest))
      else map_option (\<lambda>(dup, rest). (dup, entry # rest)) (ibss_check HZ jiffies seq frag mac rest))"

definition is_duplicate_packet ::
  "u64 \<Rightarrow> u64 \<Rightarrow> bool \<Rightarrow> iw_mode \<Rightarrow> bytes \<Rightarrow> dup_state \<Rightarrow> (bool \<times> dup_state) option" where
  "is_duplicate_packet HZ jiffies alloc_ok iw_mode hdr ds = do {
     sc \<leftarrow> hdr_seq_ctl hdr;
     let seq = WLAN_GET_SEQ_SEQ sc;
     let frag = WLAN_GET_SEQ_FRAG sc;
     case iw_mode of
       IW_MODE_ADHOC \<Rightarrow> do {
         mac \<leftarrow> hdr_addr2 hdr;
         let index = unat (mac ! 5) mod 31;
         Some (case ibss_check HZ jiffies seq frag mac (ds_ibss ds ! index) of
             None \<Rightarrow>
               if \<not> alloc_ok then (False, ds)
               else (False, ds\<lparr>ds_ibss := (ds_ibss ds)[index :=
                       \<lparr>sq_seq_num = seq, sq_frag_num = frag, sq_packet_time = jiffies, sq_mac = mac\<rparr> #
                       ds_ibss ds ! index]\<rparr>)
           | Some (dup, bucket) \<Rightarrow> (dup, ds\<lparr>ds_ibss := (ds_ibss ds)[index := bucket]\<rparr>))
       }
     | IW_MODE_INFRA \<Rightarrow>
         let (dup, sq) = seq_check HZ jiffies seq frag (ds_last ds) in Some (dup, ds\<lparr>ds_last := sq\<rparr>)
     | _ \<Rightarrow> Some (False, ds)
   }"

section \<open>Properties\<close>

text \<open>The retry window: \<open>n\<close> ticks after a record was made.\<close>

lemma retry_window:
  assumes "5 * hz < 2 ^ 62" and "n < 2 ^ 62"
  shows "time_after (t + 5 * word_of_nat hz) (t + word_of_nat n) \<longleftrightarrow> n < 5 * hz"
proof -
  have "t + word_of_nat n - (t + 5 * word_of_nat hz) = (word_of_int (int n - 5 * int hz) :: u64)" by simp
  then show ?thesis
    unfolding time_after_def using sint_of_int_u64 [of "int n - 5 * int hz"] assms by simp linarith
qed

lemma seq_check_again:
  assumes "5 * hz < 2 ^ 62" and "n < 2 ^ 62"
    and "seq_check (word_of_nat hz) t seq frag sq = (False, sq')"
  shows "fst (seq_check (word_of_nat hz) (t + word_of_nat n) seq frag sq') \<longleftrightarrow> n < 5 * hz"
  using assms retry_window [OF assms(1,2), of t]
  by (auto simp: seq_check_def split: if_splits)

lemma ibss_check_again:
  assumes "5 * hz < 2 ^ 62" and "n < 2 ^ 62"
    and "ibss_check (word_of_nat hz) t seq frag mac es = Some (False, es')"
  shows "\<exists>es''. ibss_check (word_of_nat hz) (t + word_of_nat n) seq frag mac es' = Some (n < 5 * hz, es'')"
  using assms(3)
proof (induction es arbitrary: es')
  case (Cons e es)
  show ?case
  proof (cases "sq_mac e = mac")
    case True
    then obtain e' where e': "seq_check (word_of_nat hz) t seq frag e = (False, e')" "es' = e' # es"
      using Cons.prems by (auto split: prod.splits)
    have "sq_mac e' = mac" using e'(1) True by (auto simp: seq_check_def split: if_splits)
    then show ?thesis
      using seq_check_again [OF assms(1,2) e'(1)] e'(2) by (auto split: prod.split)
  next
    case False
    then show ?thesis using Cons by (auto split: prod.splits)
  qed
qed simp

text \<open>A frame that was accepted is a duplicate when it comes again with the same sequence and
  fragment number before the retry time of five seconds is over, and is accepted again after
  that, both in infrastructure mode and, with memory for the station's record, in ad hoc mode.\<close>

theorem duplicate_filter:
  assumes "5 * hz < 2 ^ 62" and "n < 2 ^ 62" and m: "m = IW_MODE_INFRA \<or> m = IW_MODE_ADHOC"
    and len: "length (ds_ibss ds) = 31"
    and first: "is_duplicate_packet (word_of_nat hz) t True m hdr ds = Some (False, ds')"
  shows "\<exists>ds''. is_duplicate_packet (word_of_nat hz) (t + word_of_nat n) ok m hdr ds' = Some (n < 5 * hz, ds'')"
proof -
  obtain sc where sc: "hdr_seq_ctl hdr = Some sc"
    using first by (auto simp: is_duplicate_packet_def Option.bind_eq_Some_conv)
  let ?s = "WLAN_GET_SEQ_SEQ sc" and ?f = "WLAN_GET_SEQ_FRAG sc" and ?HZ = "word_of_nat hz"
  show ?thesis
  proof (cases "m = IW_MODE_INFRA")
    case True
    then obtain sq' where "seq_check ?HZ t ?s ?f (ds_last ds) = (False, sq')" "ds' = ds\<lparr>ds_last := sq'\<rparr>"
      using first sc by (auto simp: is_duplicate_packet_def split: prod.splits)
    then show ?thesis
      using seq_check_again [OF assms(1,2), of t ?s ?f "ds_last ds" sq'] sc True
      by (auto simp: is_duplicate_packet_def split: prod.split)
  next
    case False
    then have m: "m = IW_MODE_ADHOC" using m by simp
    then obtain mac where mac: "hdr_addr2 hdr = Some mac"
      using first sc by (auto simp: is_duplicate_packet_def Let_def Option.bind_eq_Some_conv)
    define i where "i = unat (mac ! 5) mod 31"
    have i: "i < length (ds_ibss ds)" using len by (simp add: i_def)
    show ?thesis
    proof (cases "ibss_check ?HZ t ?s ?f mac (ds_ibss ds ! i)")
      case None
      then have "ds' = ds\<lparr>ds_ibss := (ds_ibss ds)[i := \<lparr>sq_seq_num = ?s, sq_frag_num = ?f, sq_packet_time = t,
          sq_mac = mac\<rparr> # ds_ibss ds ! i]\<rparr>"
        using first sc mac m by (simp add: is_duplicate_packet_def i_def [symmetric] Let_def)
      then show ?thesis
        using i sc mac m retry_window [OF assms(1,2), of t]
        by (simp add: is_duplicate_packet_def i_def [symmetric] Let_def seq_check_def)
    next
      case (Some r)
      then obtain es' where es': "ibss_check ?HZ t ?s ?f mac (ds_ibss ds ! i) = Some (False, es')"
        "ds' = ds\<lparr>ds_ibss := (ds_ibss ds)[i := es']\<rparr>"
        using first sc mac m by (cases r) (auto simp: is_duplicate_packet_def i_def [symmetric] Let_def)
      then show ?thesis
        using ibss_check_again [OF assms(1,2) es'(1)] i sc mac m
        by (auto simp: is_duplicate_packet_def i_def [symmetric] Let_def)
    qed
  qed
qed

definition dup_zero :: dup_state where
  "dup_zero = \<lparr>ds_last = \<lparr>sq_seq_num = 0, sq_frag_num = 0, sq_packet_time = 0\<rparr>, ds_ibss = replicate 31 []\<rparr>"

definition dup_example :: bytes where
  "dup_example = [0x08, 0, 0, 0, 1, 1, 1, 1, 1, 1, 2, 2, 2, 2, 2, 2, 3, 3, 3, 3, 3, 3, 0x50, 0]"

theorem duplicate_filter_witness:
  "\<exists>ds' ds''. is_duplicate_packet (word_of_nat 100) 7 True IW_MODE_ADHOC dup_example dup_zero = Some (False, ds') \<and>
     is_duplicate_packet (word_of_nat 100) (7 + word_of_nat 499) True IW_MODE_ADHOC dup_example ds' =
       Some (499 < 5 * (100 :: nat), ds'')"
proof -
  obtain ds' where d: "is_duplicate_packet (word_of_nat 100) 7 True IW_MODE_ADHOC dup_example dup_zero = Some (False, ds')"
    by (simp add: is_duplicate_packet_def dup_example_def hdr_field_defs buf_read_def dup_zero_def)
  from duplicate_filter [OF _ _ _ _ this, of 499 True] show ?thesis
    using d by (simp add: dup_zero_def)
qed

end
