(* ===== verification/Network.thy ===== *)
theory Network
  imports Frame Duplicate
begin

text \<open>
  Beacons and probe responses in \<open>ieee80211/ieee80211_rx.c\<close>: the parser of information elements
  (\<open>ieee80211_network_init\<close>), the comparison and update of networks, and the table of known
  networks (\<open>ieee80211_process_probe_response\<close>).  The frame is the memory from its first byte to
  the end of the buffer's allocation; \<open>None\<close> is a read past that end.  Fields that the parser
  leaves alone keep the value of the caller's uninitialised structure, the argument
  \<open>network\<close>.  The QoS fields are written nowhere here and not modelled.
\<close>

datatype ieee80211_state = NOLINK | ASSOCIATING | ASSOCIATING_RETRY | ASSOCIATING_AUTHENTICATING |
  ASSOCIATING_AUTHENTICATED | LINKED | LINKED_SCANNING

record ieee80211_rx_stats =
  rs_mac_time :: "u32 \<times> u32"
  rs_signalstrength :: u8
  rs_rssi :: u8
  rs_signal :: u8
  rs_noise :: u8
  rs_rate :: u16
  rs_received_channel :: u8
  rs_control :: u8
  rs_mask :: u8
  rs_freq :: u8
  rs_len :: u16
  rs_nic_type :: u8

record ieee80211_network =
  nw_bssid :: bytes
  nw_channel :: u8
  nw_ssid :: bytes
  nw_ssid_len :: u8
  nw_stats :: ieee80211_rx_stats
  nw_capability :: u16
  nw_rates :: bytes
  nw_rates_len :: u8
  nw_rates_ex :: bytes
  nw_rates_ex_len :: u8
  nw_last_scanned :: u64
  nw_mode :: u8
  nw_flags :: u8
  nw_last_associate :: u32
  nw_time_stamp :: "u32 \<times> u32"
  nw_beacon_interval :: u16
  nw_listen_interval :: u16
  nw_atim_window :: u16
  nw_wpa_ie :: bytes
  nw_wpa_ie_len :: nat
  nw_rsn_ie :: bytes
  nw_rsn_ie_len :: nat
  nw_dtim_period :: u8
  nw_dtim_data :: u8
  nw_last_dtim_sta_time :: "u32 \<times> u32"
  nw_SignalStrength :: u8
  nw_Turbo_Enable :: u8

abbreviation NETWORK_EMPTY_ESSID :: u8 where "NETWORK_EMPTY_ESSID \<equiv> 1"
abbreviation NETWORK_HAS_OFDM :: u8 where "NETWORK_HAS_OFDM \<equiv> 2"
abbreviation NETWORK_HAS_CCK :: u8 where "NETWORK_HAS_CCK \<equiv> 4"
abbreviation BAND_24GHZ :: u8 where "BAND_24GHZ \<equiv> 1"
abbreviation BAND_52GHZ :: u8 where "BAND_52GHZ \<equiv> 2"

section \<open>Rates and signal strength\<close>

definition ieee80211_is_ofdm_rate :: "u8 \<Rightarrow> bool" where
  "ieee80211_is_ofdm_rate rate \<longleftrightarrow>
     rate AND NOT 0x80 \<in> set [0x0C, 0x12, 0x18, 0x24, 0x30, 0x48, 0x60, 0x6C]"

text \<open>The result is computed in an \<open>unsigned char\<close> and returned as an \<open>int\<close>.\<close>

definition TranslateToDbm8187 :: "u8 \<Rightarrow> int" where
  "TranslateToDbm8187 SignalStrengthIndex =
     (let SignalPower = (word_of_int (uint SignalStrengthIndex * 7 div 10) :: u8)
      in uint (SignalPower - 95))"

text \<open>C's division truncates; all dividends are positive here.\<close>

definition ieee80211_SignalStrengthTranslate :: "int \<Rightarrow> int" where
  "ieee80211_SignalStrengthTranslate CurrSS =
     (if CurrSS \<ge> 71 \<and> CurrSS \<le> 100 then 95 + (if (CurrSS - 70) div 6 = 5 then 5 else (CurrSS - 70) div 6 + 1)
      else if CurrSS \<ge> 41 \<and> CurrSS \<le> 70 then 83 + (CurrSS - 40) div 3
      else if CurrSS \<ge> 31 \<and> CurrSS \<le> 40 then 71 + (CurrSS - 30)
      else if CurrSS \<ge> 21 \<and> CurrSS \<le> 30 then 59 + (CurrSS - 20)
      else if CurrSS \<ge> 5 \<and> CurrSS \<le> 20 then 47 + ((CurrSS - 5) * 2) div 3
      else if CurrSS = 4 then 37
      else if CurrSS = 3 then 27
      else if CurrSS = 2 then 18
      else if CurrSS = 1 then 9
      else CurrSS)"

section \<open>The information elements\<close>

text \<open>Each handler gets the frame, the offset of the element and its length.\<close>

definition ie_ssid :: "bytes \<Rightarrow> nat \<Rightarrow> u8 \<Rightarrow> ieee80211_network \<Rightarrow> ieee80211_network option" where
  "ie_ssid buf pos len network = do {
     data \<leftarrow> buf_read (pos + 2) (unat len) buf;
     if ieee80211_is_empty_essid data (unat len)
     then Some (network\<lparr>nw_flags := nw_flags network OR NETWORK_EMPTY_ESSID\<rparr>)
     else let ssid_len = min len 32; n = unat ssid_len
          in Some (network\<lparr>nw_ssid_len := ssid_len,
               nw_ssid := take n data @ replicate (32 - n) 0 @ drop 32 (nw_ssid network)\<rparr>)
   }"

text \<open>One rate's effect on the flags: an OFDM rate, and a basic OFDM rate excludes CCK stations.\<close>

definition rate_flags :: "u8 \<Rightarrow> u8 \<Rightarrow> u8" where
  "rate_flags rate flags =
     (if ieee80211_is_ofdm_rate rate
      then let flags = flags OR NETWORK_HAS_OFDM
           in if rate AND 0x80 \<noteq> 0 then flags AND NOT NETWORK_HAS_CCK else flags
      else flags)"

definition ie_rates :: "bytes \<Rightarrow> nat \<Rightarrow> u8 \<Rightarrow> ieee80211_network \<Rightarrow> ieee80211_network option" where
  "ie_rates buf pos len network = do {
     let rates_len = min len 12;
     rates \<leftarrow> buf_read (pos + 2) (unat rates_len) buf;
     Some (network\<lparr>nw_rates_len := rates_len,
       nw_rates := rates @ drop (unat rates_len) (nw_rates network),
       nw_flags := fold rate_flags rates (nw_flags network)\<rparr>)
   }"

definition ie_rates_ex :: "bytes \<Rightarrow> nat \<Rightarrow> u8 \<Rightarrow> ieee80211_network \<Rightarrow> ieee80211_network option" where
  "ie_rates_ex buf pos len network = do {
     let rates_ex_len = min len 16;
     rates \<leftarrow> buf_read (pos + 2) (unat rates_ex_len) buf;
     Some (network\<lparr>nw_rates_ex_len := rates_ex_len,
       nw_rates_ex := rates @ drop (unat rates_ex_len) (nw_rates_ex network),
       nw_flags := fold rate_flags rates (nw_flags network)\<rparr>)
   }"

definition ie_ds_set :: "u8 \<Rightarrow> bytes \<Rightarrow> nat \<Rightarrow> ieee80211_network \<Rightarrow> ieee80211_network option" where
  "ie_ds_set freq buf pos network =
     (if freq = BAND_24GHZ then map_option (\<lambda>c. network\<lparr>nw_channel := c\<rparr>) (buf_byte (pos + 2) buf)
      else Some network)"

text \<open>The traffic indication map: \<open>state\<close> and \<open>assoc_id\<close> are this station's.\<close>

definition ie_tim :: "ieee80211_state \<Rightarrow> u16 \<Rightarrow> u32 \<times> u32 \<Rightarrow> bytes \<Rightarrow> nat \<Rightarrow> u8 \<Rightarrow> ieee80211_network \<Rightarrow> ieee80211_network option" where
  "ie_tim state assoc_id mac_time buf pos len network =
     (if len < 4 then Some network
      else do {
        data \<leftarrow> buf_read (pos + 2) 3 buf;
        let network = network\<lparr>nw_dtim_period := data ! 1\<rparr>;
        if state \<noteq> LINKED then Some network
        else do {
          let network = network\<lparr>nw_last_dtim_sta_time := mac_time, nw_dtim_data := 1\<rparr>;
          if data ! 0 \<noteq> 0 then Some network
          else do {
            let network = (if data ! 2 AND 1 \<noteq> 0 then network\<lparr>nw_dtim_data := nw_dtim_data network OR 4\<rparr> else network);
            let offset = uint (drop_bit 1 (data ! 2)) * 2;
            let aid = uint assoc_id;
            if aid < 8 * offset \<or> aid > 8 * (offset + uint len - 3) then Some network
            else do {
              let offset = aid div 8 - offset;
              b \<leftarrow> buf_byte (pos + 2 + (3 + nat offset)) buf;
              Some (if b AND push_bit (nat (aid mod 8)) 1 \<noteq> 0
                    then network\<lparr>nw_dtim_data := nw_dtim_data network OR 2\<rparr> else network)
            }
          }
        }
      })"

text \<open>\<open>memcpy(network->wpa_ie, info_element, wpa_ie_len)\<close>: the whole element, cut to 64 bytes.\<close>

definition ie_generic :: "bytes \<Rightarrow> nat \<Rightarrow> u8 \<Rightarrow> ieee80211_network \<Rightarrow> ieee80211_network option" where
  "ie_generic buf pos len network =
     (if len < 4 then Some network
      else do {
        data \<leftarrow> buf_read (pos + 2) 4 buf;
        if data = [0x00, 0x50, 0xf2, 0x01] then do {
          let n = min (unat len + 2) 64;
          ie \<leftarrow> buf_read pos n buf;
          Some (network\<lparr>nw_wpa_ie_len := n, nw_wpa_ie := ie @ drop n (nw_wpa_ie network)\<rparr>)
        }
        else Some network
      })"

definition ie_rsn :: "bytes \<Rightarrow> nat \<Rightarrow> u8 \<Rightarrow> ieee80211_network \<Rightarrow> ieee80211_network option" where
  "ie_rsn buf pos len network = do {
     let n = min (unat len + 2) 64;
     ie \<leftarrow> buf_read pos n buf;
     Some (network\<lparr>nw_rsn_ie_len := n, nw_rsn_ie := ie @ drop n (nw_rsn_ie network)\<rparr>)
   }"

text \<open>What the parser knows about the receiver: link state, association id, reception data.\<close>

record ie_env =
  en_state :: ieee80211_state
  en_assoc_id :: u16
  en_stats :: ieee80211_rx_stats

definition ie_step :: "ie_env \<Rightarrow> bytes \<Rightarrow> nat \<Rightarrow> u8 \<Rightarrow> u8 \<Rightarrow> ieee80211_network \<Rightarrow> ieee80211_network option" where
  "ie_step en buf pos eid len network =
     (if eid = 0 then ie_ssid buf pos len network
      else if eid = 1 then ie_rates buf pos len network
      else if eid = 50 then ie_rates_ex buf pos len network
      else if eid = 3 then ie_ds_set (rs_freq (en_stats en)) buf pos network
      else if eid = 5 then ie_tim (en_state en) (en_assoc_id en) (rs_mac_time (en_stats en)) buf pos len network
      else if eid = 221 then ie_generic buf pos len network
      else if eid = 48 then ie_rsn buf pos len network
      else Some network)"

text \<open>The loop; the flag says whether an element did not fit into what was left.\<close>

function ie_loop :: "ie_env \<Rightarrow> bytes \<Rightarrow> nat \<Rightarrow> nat \<Rightarrow> ieee80211_network \<Rightarrow> (bool \<times> ieee80211_network) option" where
  "ie_loop en buf left pos network =
     (if left < 2 then Some (False, network)
      else (case buf_read pos 2 buf of
          None \<Rightarrow> None
        | Some h \<Rightarrow> let eid = h ! 0; len = h ! 1
            in if 2 + unat len > left then Some (True, network)
               else (case ie_step en buf pos eid len network of
                   None \<Rightarrow> None
                 | Some network \<Rightarrow> ie_loop en buf (left - (2 + unat len)) (pos + (2 + unat len)) network)))"
  by pat_completeness auto
termination by (relation "measure (\<lambda>(en, buf, left, pos, network). left)") auto

declare ie_loop.simps [simp del]

definition buf_le32 :: "nat \<Rightarrow> bytes \<Rightarrow> u32 option" where
  "buf_le32 off d = map_option (\<lambda>b. get_le32 (b ! 0) (b ! 1) (b ! 2) (b ! 3)) (buf_read off 4 d)"

text \<open>\<open>struct ieee80211_probe_response\<close>: time stamp at 24, beacon interval at 32, capability at 34,
  the elements at 36.\<close>

definition network_fixed :: "u64 \<Rightarrow> ieee80211_rx_stats \<Rightarrow> bytes \<Rightarrow> ieee80211_network \<Rightarrow> ieee80211_network option" where
  "network_fixed jiffies stats beacon network = do {
     addr3 \<leftarrow> hdr_addr3 beacon;
     capability \<leftarrow> buf_le16 34 beacon;
     t0 \<leftarrow> buf_le32 24 beacon;
     t1 \<leftarrow> buf_le32 28 beacon;
     beacon_interval \<leftarrow> buf_le16 32 beacon;
     let network = network\<lparr>nw_bssid := addr3, nw_capability := capability, nw_last_scanned := jiffies,
       nw_time_stamp := (t0, t1), nw_beacon_interval := beacon_interval, nw_listen_interval := 0x0A,
       nw_rates_len := 0, nw_rates_ex_len := 0, nw_last_associate := 0, nw_ssid_len := 0, nw_flags := 0,
       nw_atim_window := 0\<rparr>;
     let network = (if rs_freq stats = BAND_52GHZ then network\<lparr>nw_channel := rs_received_channel stats\<rparr>
                    else network\<lparr>nw_flags := nw_flags network OR NETWORK_HAS_CCK\<rparr>);
     Some (network\<lparr>nw_wpa_ie_len := 0, nw_rsn_ie_len := 0\<rparr>)
   }"

definition network_mode :: "ieee80211_rx_stats \<Rightarrow> ieee80211_network \<Rightarrow> u8" where
  "network_mode stats network =
     (if rs_freq stats = BAND_52GHZ then 1
      else (if nw_flags network AND NETWORK_HAS_OFDM \<noteq> 0 then 4 else 0) OR
           (if nw_flags network AND NETWORK_HAS_CCK \<noteq> 0 then 2 else 0))"

text \<open>The result 1 means that the frame is dropped.  \<open>left\<close> is computed in 16 bits.\<close>

definition ieee80211_network_init ::
  "u64 \<Rightarrow> ie_env \<Rightarrow> bytes \<Rightarrow> ieee80211_network \<Rightarrow> (int \<times> ieee80211_network) option" where
  "ieee80211_network_init jiffies en beacon network = do {
     let stats = en_stats en;
     network \<leftarrow> network_fixed jiffies stats beacon network;
     let left = rs_len stats - 36;
     (bad, network) \<leftarrow> ie_loop en beacon (unat left) 36 network;
     if bad then Some (1, network)
     else do {
       let network = network\<lparr>nw_mode := network_mode stats network\<rparr>;
       if nw_mode network = 0 then Some (1, network)
       else do {
         let network = (if ieee80211_is_empty_essid (nw_ssid network) (unat (nw_ssid_len network))
                        then network\<lparr>nw_flags := nw_flags network OR NETWORK_EMPTY_ESSID\<rparr> else network);
         let stats = stats\<lparr>rs_signal := word_of_int (TranslateToDbm8187 (rs_signalstrength stats)),
           rs_noise := word_of_int (TranslateToDbm8187 (100 - rs_signalstrength stats) - 25)\<rparr>;
         Some (0, network\<lparr>nw_stats := stats\<rparr>)
       }
     }
   }"

section \<open>Array sizes and lengths\<close>

text \<open>The arrays have their declared sizes; a description also has its lengths inside them.\<close>

definition network_arrays :: "ieee80211_network \<Rightarrow> bool" where
  "network_arrays n \<longleftrightarrow> length (nw_ssid n) = 33 \<and> length (nw_rates n) = 12 \<and> length (nw_rates_ex n) = 16 \<and>
     length (nw_wpa_ie n) = 64 \<and> length (nw_rsn_ie n) = 64"

definition network_lengths :: "ieee80211_network \<Rightarrow> bool" where
  "network_lengths n \<longleftrightarrow> nw_ssid_len n \<le> 32 \<and> nw_rates_len n \<le> 12 \<and> nw_rates_ex_len n \<le> 16 \<and>
     nw_wpa_ie_len n \<le> 64 \<and> nw_rsn_ie_len n \<le> 64"

lemma network_wf_updates [simp]:
  "network_arrays (n\<lparr>nw_flags := f\<rparr>) = network_arrays n" "network_lengths (n\<lparr>nw_flags := f\<rparr>) = network_lengths n"
  "network_arrays (n\<lparr>nw_mode := x\<rparr>) = network_arrays n" "network_lengths (n\<lparr>nw_mode := x\<rparr>) = network_lengths n"
  "network_arrays (n\<lparr>nw_stats := s\<rparr>) = network_arrays n" "network_lengths (n\<lparr>nw_stats := s\<rparr>) = network_lengths n"
  "network_arrays (n\<lparr>nw_dtim_period := d\<rparr>) = network_arrays n" "network_lengths (n\<lparr>nw_dtim_period := d\<rparr>) = network_lengths n"
  "network_arrays (n\<lparr>nw_dtim_data := d\<rparr>) = network_arrays n" "network_lengths (n\<lparr>nw_dtim_data := d\<rparr>) = network_lengths n"
  "network_arrays (n\<lparr>nw_last_dtim_sta_time := t\<rparr>) = network_arrays n"
  "network_lengths (n\<lparr>nw_last_dtim_sta_time := t\<rparr>) = network_lengths n"
  by (simp_all add: network_arrays_def network_lengths_def)

lemma unat_min_u8: "unat (min (x :: u8) y) = min (unat x) (unat y)"
  by (simp add: min_def word_le_nat_alt)

lemma unat_min_le: "unat (min (x :: u8) y) \<le> unat x" by (simp add: unat_min_u8)

lemma buf_read_len_eq: "buf_read off n xs = Some ys \<Longrightarrow> length ys = n" by (rule buf_read_len)

lemma ie_tim_wf:
  assumes "ie_tim st aid mt buf pos len n = Some n'"
  shows "network_arrays n' = network_arrays n \<and> network_lengths n' = network_lengths n"
proof (cases "len < 4")
  case False
  then obtain d where d: "buf_read (pos + 2) 3 buf = Some d"
    using assms by (auto simp: ie_tim_def Option.bind_eq_Some_conv)
  show ?thesis
  proof (cases "st = LINKED \<and> d ! 0 = 0")
    case True
    then have s: "st = LINKED" "d ! 0 = 0" by simp_all
    show ?thesis
    proof (cases "uint aid < 8 * (uint (drop_bit 1 (d ! 2)) * 2) \<or> uint aid > 8 * (uint (drop_bit 1 (d ! 2)) * 2 + uint len - 3)")
      case True
      then show ?thesis using assms False d s unfolding ie_tim_def Let_def by (cases "d ! 2 AND 1 = 0") auto
    next
      case in_range: False
      then obtain b where "buf_byte (pos + 2 + (3 + nat (uint aid div 8 - uint (drop_bit 1 (d ! 2)) * 2))) buf = Some b"
        using assms False d s unfolding ie_tim_def Let_def by (auto simp: Option.bind_eq_Some_conv)
      then show ?thesis using assms False d s in_range unfolding ie_tim_def Let_def
        by (cases "d ! 2 AND 1 = 0"; cases "b AND push_bit (nat (uint aid mod 8)) 1 = 0") auto
    qed
  qed (use assms False d in \<open>auto simp: ie_tim_def Let_def split: if_split_asm\<close>)
qed (use assms in \<open>simp add: ie_tim_def\<close>)

lemma ie_step_wf:
  assumes "ie_step en buf pos eid len n = Some n'" and "network_arrays n" and "network_lengths n"
  shows "network_arrays n' \<and> network_lengths n'"
proof -
  have ssid: ?thesis if "ie_ssid buf pos len n = Some n'"
    using that assms(2,3) by (auto simp: ie_ssid_def network_arrays_def network_lengths_def Let_def Option.bind_eq_Some_conv unat_min_u8
        dest: buf_read_len_eq split: if_split_asm)
  moreover have ?thesis if "ie_rates buf pos len n = Some n'"
    using that assms(2,3) by (auto simp: ie_rates_def network_arrays_def network_lengths_def Let_def Option.bind_eq_Some_conv unat_min_u8
        dest: buf_read_len_eq)
  moreover have ?thesis if "ie_rates_ex buf pos len n = Some n'"
    using that assms(2,3) by (auto simp: ie_rates_ex_def network_arrays_def network_lengths_def Let_def Option.bind_eq_Some_conv unat_min_u8
        dest: buf_read_len_eq)
  moreover have ?thesis if "ie_ds_set f buf pos n = Some n'" for f
    using that assms(2,3) by (auto simp: ie_ds_set_def network_arrays_def network_lengths_def split: if_split_asm)
  moreover have ?thesis if "ie_tim st aid mt buf pos len n = Some n'" for st aid mt
    using ie_tim_wf [OF that] assms(2,3) by simp
  moreover have ?thesis if "ie_generic buf pos len n = Some n'"
    using that assms(2,3) by (auto simp: ie_generic_def network_arrays_def network_lengths_def Let_def Option.bind_eq_Some_conv
        dest: buf_read_len_eq split: if_split_asm)
  moreover have ?thesis if "ie_rsn buf pos len n = Some n'"
    using that assms(2,3) by (auto simp: ie_rsn_def network_arrays_def network_lengths_def Let_def Option.bind_eq_Some_conv
        dest: buf_read_len_eq)
  ultimately show ?thesis
    using assms by (auto simp: ie_step_def split: if_split_asm)
qed

lemma ie_loop_wf:
  "\<lbrakk>ie_loop en buf left pos n = Some (b, n'); network_arrays n; network_lengths n\<rbrakk> \<Longrightarrow> network_arrays n' \<and> network_lengths n'"
proof (induction en buf left pos n arbitrary: b n' rule: ie_loop.induct)
  case (1 en buf left pos n)
  show ?case
  proof (cases "left < 2")
    case True
    then show ?thesis using 1 by (simp add: ie_loop.simps [of _ _ left])
  next
    case False
    then obtain h where h: "buf_read pos 2 buf = Some h"
      using "1.prems"(1) by (auto simp: ie_loop.simps [of _ _ left] split: option.splits)
    show ?thesis
    proof (cases "2 + unat (h ! 1) > left")
      case True
      then show ?thesis using 1 False h by (simp add: ie_loop.simps [of _ _ left] Let_def)
    next
      case fits: False
      then obtain m where m: "ie_step en buf pos (h ! 0) (h ! 1) n = Some m"
        using "1.prems"(1) False h by (auto simp: ie_loop.simps [of _ _ left] Let_def split: option.splits)
      have "ie_loop en buf (left - (2 + unat (h ! 1))) (pos + (2 + unat (h ! 1))) m = Some (b, n')"
        using "1.prems"(1) False h fits m by (simp add: ie_loop.simps [of _ _ left] Let_def)
      then show ?thesis
        using "1.IH" [OF False h refl refl fits m] ie_step_wf [OF m "1.prems"(2,3)] by blast
    qed
  qed
qed

lemma network_fixed_wf:
  "\<lbrakk>network_fixed j stats beacon n = Some n'; network_arrays n\<rbrakk> \<Longrightarrow> network_arrays n' \<and> network_lengths n'"
  by (auto simp: network_fixed_def network_arrays_def network_lengths_def Let_def Option.bind_eq_Some_conv)

lemma network_init_wf:
  assumes i: "ieee80211_network_init j en beacon stack = Some (r, network)" and a: "network_arrays stack"
  shows "network_arrays network \<and> network_lengths network"
proof -
  obtain n1 where n1: "network_fixed j (en_stats en) beacon stack = Some n1"
    using i by (auto simp: ieee80211_network_init_def Option.bind_eq_Some_conv Let_def)
  obtain b n2 where n2: "ie_loop en beacon (unat (rs_len (en_stats en) - 36)) 36 n1 = Some (b, n2)"
    using i n1 by (auto simp: ieee80211_network_init_def Let_def Option.bind_eq_Some_conv)
  have "network_arrays n2 \<and> network_lengths n2"
    using ie_loop_wf [OF n2] network_fixed_wf [OF n1 a] by blast
  then show ?thesis
    using i n1 n2 by (auto simp: ieee80211_network_init_def Let_def split: if_split_asm)
qed

section \<open>Reads\<close>

lemma buf_read_Some: "off + n \<le> length xs \<Longrightarrow> \<exists>ys. buf_read off n xs = Some ys \<and> length ys = n"
  by (simp add: buf_read_def)

lemma ie_tim_offset:
  assumes "\<not> (aid < 8 * off \<or> aid > 8 * (off + l - 3))"
  shows "0 \<le> aid div 8 - off \<and> aid div 8 - off \<le> l - (3 :: int)"
proof -
  have "(8 * off) div 8 \<le> aid div 8" "aid div 8 \<le> (8 * (off + l - 3)) div 8"
    using assms by (auto intro: zdiv_mono1)
  then show ?thesis by simp
qed

text \<open>An element that ends before the last byte of the buffer is handled inside the buffer.\<close>

lemma ie_step_safe:
  assumes fit: "pos + 2 + unat len < length buf"
  shows "\<exists>n'. ie_step en buf pos eid len n = Some n'"
proof -
  note rd = buf_read_Some [of "pos + 2" _ buf]
  have "\<exists>n'. ie_ssid buf pos len n = Some n'"
  proof -
    obtain ys where "buf_read (pos + 2) (unat len) buf = Some ys" using fit rd [of "unat len"] by auto
    then show ?thesis unfolding ie_ssid_def Let_def by (auto simp del: fun_upd_apply)
  qed
  moreover have "\<exists>n'. ie_rates buf pos len n = Some n'"
  proof -
    obtain ys where "buf_read (pos + 2) (unat (min len 12)) buf = Some ys"
      using fit rd [of "unat (min len 12)"] unat_min_le [of len 12] by fastforce
    then show ?thesis by (simp add: ie_rates_def Let_def)
  qed
  moreover have "\<exists>n'. ie_rates_ex buf pos len n = Some n'"
  proof -
    obtain ys where "buf_read (pos + 2) (unat (min len 16)) buf = Some ys"
      using fit rd [of "unat (min len 16)"] unat_min_le [of len 16] by fastforce
    then show ?thesis by (simp add: ie_rates_ex_def Let_def)
  qed
  moreover have "\<exists>n'. ie_ds_set f buf pos n = Some n'" for f
    using fit by (auto simp: ie_ds_set_def buf_byte_def)
  moreover obtain ie where ie: "buf_read pos (min (unat len + 2) 64) buf = Some ie"
    using fit buf_read_Some [of pos "min (unat len + 2) 64" buf] by fastforce
  then have "\<exists>n'. ie_rsn buf pos len n = Some n'" by (simp add: ie_rsn_def Let_def)
  moreover have "\<exists>n'. ie_generic buf pos len n = Some n'"
  proof (cases "len < 4")
    case False
    then have "4 \<le> unat len" by (simp add: word_less_nat_alt)
    then obtain d where "buf_read (pos + 2) 4 buf = Some d" using fit rd [of 4] by auto
    then show ?thesis unfolding ie_generic_def using False ie by (simp add: Let_def)
  qed (simp add: ie_generic_def)
  moreover have "\<exists>n'. ie_tim st aid mt buf pos len n = Some n'" for st aid mt
  proof (cases "len < 4")
    case False
    then have l4: "4 \<le> unat len" by (simp add: word_less_nat_alt)
    then obtain d where d: "buf_read (pos + 2) 3 buf = Some d" using fit buf_read_Some [of "pos + 2" 3 buf] by auto
    have "\<exists>b. buf_byte (pos + 2 + (3 + nat (uint aid div 8 - off))) buf = Some b"
      if "\<not> (uint aid < 8 * off \<or> uint aid > 8 * (off + uint len - 3))" for off
    proof -
      have "nat (uint aid div 8 - off) \<le> unat len - 3"
      proof -
        have "uint aid div 8 - off \<le> int (unat len) - 3"
          using ie_tim_offset [OF that] unfolding uint_nat by simp
        then show ?thesis by linarith
      qed
      then have "pos + 2 + (3 + nat (uint aid div 8 - off)) < length buf" using fit l4 by linarith
      then show ?thesis unfolding buf_byte_def by simp
    qed
    note b = this [of "uint (drop_bit 1 (d ! 2)) * 2"]
    show ?thesis
    proof (cases "uint aid < 8 * (uint (drop_bit 1 (d ! 2)) * 2) \<or> uint aid > 8 * (uint (drop_bit 1 (d ! 2)) * 2 + uint len - 3)")
      case True
      then show ?thesis unfolding ie_tim_def Let_def using False d by simp
    next
      case in_range: False
      then obtain c where "buf_byte (pos + 2 + (3 + nat (uint aid div 8 - uint (drop_bit 1 (d ! 2)) * 2))) buf = Some c"
        using b by blast
      then show ?thesis unfolding ie_tim_def Let_def using False d in_range by simp
    qed
  qed (simp add: ie_tim_def)
  ultimately show ?thesis by (simp add: ie_step_def)
qed

lemma ie_loop_safe:
  "pos + left < length buf \<Longrightarrow> \<exists>r. ie_loop en buf left pos n = Some r"
proof (induction en buf left pos n rule: ie_loop.induct)
  case (1 en buf left pos n)
  show ?case
  proof (cases "left < 2")
    case True
    then have "ie_loop en buf left pos n = Some (False, n)" by (simp add: ie_loop.simps [of _ _ left])
    then show ?thesis by blast
  next
    case False
    then obtain h where h: "buf_read pos 2 buf = Some h" using 1 buf_read_Some [of pos 2 buf] by auto
    show ?thesis
    proof (cases "2 + unat (h ! 1) > left")
      case True
      then have "ie_loop en buf left pos n = Some (True, n)" using False h by (simp add: ie_loop.simps [of _ _ left] Let_def)
      then show ?thesis by blast
    next
      case fits: False
      then obtain m where m: "ie_step en buf pos (h ! 0) (h ! 1) n = Some m"
        using ie_step_safe [of pos "h ! 1" buf en "h ! 0" n] "1.prems" by auto
      have "\<exists>r. ie_loop en buf (left - (2 + unat (h ! 1))) (pos + (2 + unat (h ! 1))) m = Some r"
        using "1.IH" [OF False h refl refl fits m] "1.prems" fits by simp
      then show ?thesis using False h fits m by (simp add: ie_loop.simps [of _ _ left] Let_def)
    qed
  qed
qed

lemma network_fixed_safe: "36 \<le> length beacon \<Longrightarrow> \<exists>n'. network_fixed j stats beacon n = Some n'"
  by (auto simp: network_fixed_def hdr_field_defs buf_le32_def buf_read_def Let_def)

end
