(* ===== verification/Network_Spec.thy ===== *)
theory Network_Spec
  imports Network
begin

text \<open>
  What beacons and probe responses mean: each information element's effect on a network description
  (\<open>ie_apply\<close>), the printer of such frames (\<open>beacon_bytes\<close>), and the properties of the parser
  of theory Network over them: bounds, refinement, the reads it performs, and what a frame that is
  too short does.
\<close>

section \<open>The elements as a specification\<close>

text \<open>
  What one element means, over its data alone.  The fields that an element does not carry keep
  their value.
\<close>

definition essid_hidden :: "bytes \<Rightarrow> bool" where
  "essid_hidden d \<longleftrightarrow> d = [32] \<or> (\<forall>b \<in> set d. b = 0)"

definition rate_effect :: "bytes \<Rightarrow> u8 \<Rightarrow> u8" where
  "rate_effect rates flags =
     (let ofdm = filter ieee80211_is_ofdm_rate rates
      in if ofdm = [] then flags
         else if \<exists>r \<in> set ofdm. r AND 0x80 \<noteq> 0 then (flags OR NETWORK_HAS_OFDM) AND NOT NETWORK_HAS_CCK
         else flags OR NETWORK_HAS_OFDM)"

text \<open>The station's bit of the virtual bitmap, whose bytes before \<open>offset\<close> and after the last are left out.\<close>

definition tim_offset :: "bytes \<Rightarrow> nat" where
  "tim_offset d = unat (d ! 2) div 2 * 2"

definition tim_has_unicast :: "nat \<Rightarrow> bytes \<Rightarrow> bool" where
  "tim_has_unicast aid d \<longleftrightarrow>
     tim_offset d \<le> aid div 8 \<and> aid div 8 - tim_offset d < length d - 3 \<and>
     bit (d ! (3 + (aid div 8 - tim_offset d))) (aid mod 8)"

definition tim_data :: "nat \<Rightarrow> bytes \<Rightarrow> u8" where
  "tim_data aid d =
     (if d ! 0 \<noteq> 0 then 1
      else (if odd (unat (d ! 2)) then 5 else 1) OR (if tim_has_unicast aid d then 2 else 0))"

definition ie_apply :: "ie_env \<Rightarrow> u8 \<times> bytes \<Rightarrow> ieee80211_network \<Rightarrow> ieee80211_network" where
  "ie_apply en e network = (case e of (eid, d) \<Rightarrow>
     if eid = 0 then
       if essid_hidden d then network\<lparr>nw_flags := nw_flags network OR NETWORK_EMPTY_ESSID\<rparr>
       else network\<lparr>nw_ssid := take 32 (d @ replicate 32 0) @ drop 32 (nw_ssid network),
              nw_ssid_len := word_of_nat (min (length d) 32)\<rparr>
     else if eid = 1 then network\<lparr>nw_rates := take 12 d @ drop (min (length d) 12) (nw_rates network),
              nw_rates_len := word_of_nat (min (length d) 12), nw_flags := rate_effect (take 12 d) (nw_flags network)\<rparr>
     else if eid = 50 then network\<lparr>nw_rates_ex := take 16 d @ drop (min (length d) 16) (nw_rates_ex network),
              nw_rates_ex_len := word_of_nat (min (length d) 16), nw_flags := rate_effect (take 16 d) (nw_flags network)\<rparr>
     else if eid = 3 then if rs_freq (en_stats en) = BAND_24GHZ then network\<lparr>nw_channel := d ! 0\<rparr> else network
     else if eid = 5 \<and> length d \<ge> 4 then
       if en_state en = LINKED
       then network\<lparr>nw_dtim_period := d ! 1, nw_last_dtim_sta_time := rs_mac_time (en_stats en),
              nw_dtim_data := tim_data (unat (en_assoc_id en)) d\<rparr>
       else network\<lparr>nw_dtim_period := d ! 1\<rparr>
     else if eid = 221 \<and> take 4 d = [0x00, 0x50, 0xf2, 0x01] then
       let ie = take 64 (eid # word_of_nat (length d) # d)
       in network\<lparr>nw_wpa_ie := ie @ drop (length ie) (nw_wpa_ie network), nw_wpa_ie_len := length ie\<rparr>
     else if eid = 48 then
       let ie = take 64 (eid # word_of_nat (length d) # d)
       in network\<lparr>nw_rsn_ie := ie @ drop (length ie) (nw_rsn_ie network), nw_rsn_ie_len := length ie\<rparr>
     else network)"

text \<open>
  The elements a correct sender produces: data of at most 255 bytes, a channel in the DS
  element, and a bitmap that does not end just before the station's byte.
\<close>

definition ie_ok :: "nat \<Rightarrow> u8 \<times> bytes \<Rightarrow> bool" where
  "ie_ok aid e \<longleftrightarrow> (case e of (eid, d) \<Rightarrow> length d < 256 \<and> (eid = 3 \<longrightarrow> d \<noteq> []) \<and>
     (eid = 5 \<longrightarrow> aid \<noteq> 8 * (tim_offset d + length d - 3)))"

definition ie_bytes :: "u8 \<times> bytes \<Rightarrow> bytes" where
  "ie_bytes e = fst e # word_of_nat (length (snd e)) # snd e"

lemma essid_hidden_iff: "ieee80211_is_empty_essid d (length d) \<longleftrightarrow> essid_hidden d"
  by (auto simp: ieee80211_is_empty_essid_def essid_hidden_def essid_all_zero_iff all_set_conv_all_nth length_Suc_conv)

lemma rate_flags_fold: "fold rate_flags rates flags = rate_effect rates flags"
proof (induction rates arbitrary: flags)
  case (Cons r rates)
  have c: "((f OR 2) AND NOT 4) OR 2 = (f OR 2) AND NOT (4 :: u8)" for f
    by (rule bit_word_eqI) (auto simp: bit_simps)
  have d: "(((f OR 2) AND NOT 4) OR 2) AND NOT 4 = (f OR 2) AND NOT (4 :: u8)" for f
    by (rule bit_word_eqI) (auto simp: bit_simps)
  note cd = c [simplified] d [simplified]
  show ?case
    unfolding fold_simps(2) comp_def Cons.IH
    by (auto simp: rate_effect_def rate_flags_def Let_def cd filter_empty_conv)
qed (simp add: rate_effect_def)

lemma unat_len: "n < 256 \<Longrightarrow> unat (word_of_nat n :: u8) = n"
  by (simp add: unat_of_nat)

lemma min_of_nat_u8: "\<lbrakk>n < 256; k < 256\<rbrakk> \<Longrightarrow> min (word_of_nat n) (word_of_nat k) = (word_of_nat (min n k) :: u8)"
  by (simp add: min_def word_le_nat_alt unat_len)

lemma buf_read_within: "\<lbrakk>length a = off; n \<le> length d\<rbrakk> \<Longrightarrow> buf_read off n (a @ d @ c) = Some (take n d)"
  by (auto simp: buf_read_def)

lemma ie_rates_spec:
  assumes "length d < 256"
  shows "ie_rates (a @ (eid # word_of_nat (length d) # d) @ c) (length a) (word_of_nat (length d)) n =
     Some (n\<lparr>nw_rates := take 12 d @ drop (min (length d) 12) (nw_rates n),
              nw_rates_len := word_of_nat (min (length d) 12), nw_flags := rate_effect (take 12 d) (nw_flags n)\<rparr>)"
  and "ie_rates_ex (a @ (eid # word_of_nat (length d) # d) @ c) (length a) (word_of_nat (length d)) n =
     Some (n\<lparr>nw_rates_ex := take 16 d @ drop (min (length d) 16) (nw_rates_ex n),
              nw_rates_ex_len := word_of_nat (min (length d) 16), nw_flags := rate_effect (take 16 d) (nw_flags n)\<rparr>)"
proof -
  have m: "min (word_of_nat (length d)) 12 = (word_of_nat (min (length d) 12) :: u8)"
    "min (word_of_nat (length d)) 16 = (word_of_nat (min (length d) 16) :: u8)"
    using min_of_nat_u8 [OF assms, of 12] min_of_nat_u8 [OF assms, of 16] by simp_all
  have b: "buf_read (length a + 2) k (a @ (eid # word_of_nat (length d) # d) @ c) = Some (take k d)" if "k \<le> length d" for k
    using buf_read_within [of "a @ [eid, word_of_nat (length d)]" "length a + 2" k d c] that by simp
  have k: "min (length d) 12 < 256" "min (length d) 16 < 256" "min (length d) k \<le> length d" for k by simp_all
  have t: "take (min (length d) k) d = take k d" for k by (simp add: min_def)
  show "ie_rates (a @ (eid # word_of_nat (length d) # d) @ c) (length a) (word_of_nat (length d)) n =
     Some (n\<lparr>nw_rates := take 12 d @ drop (min (length d) 12) (nw_rates n),
              nw_rates_len := word_of_nat (min (length d) 12), nw_flags := rate_effect (take 12 d) (nw_flags n)\<rparr>)"
    unfolding ie_rates_def Let_def m by (simp only: unat_len k b t rate_flags_fold bind.bind_lunit) simp
  show "ie_rates_ex (a @ (eid # word_of_nat (length d) # d) @ c) (length a) (word_of_nat (length d)) n =
     Some (n\<lparr>nw_rates_ex := take 16 d @ drop (min (length d) 16) (nw_rates_ex n),
              nw_rates_ex_len := word_of_nat (min (length d) 16), nw_flags := rate_effect (take 16 d) (nw_flags n)\<rparr>)"
    unfolding ie_rates_ex_def Let_def m by (simp only: unat_len k b t rate_flags_fold bind.bind_lunit) simp
qed

lemma ie_data_read:
  "k \<le> length d \<Longrightarrow> buf_read (length a + 2) k (a @ (eid # l # d) @ c) = Some (take k d)"
  using buf_read_within [of "a @ [eid, l]" "length a + 2" k d c] by simp

lemma ie_whole_read:
  "k \<le> length d + 2 \<Longrightarrow> buf_read (length a) k (a @ (eid # l # d) @ c) = Some (take k (eid # l # d))"
  using buf_read_within [of a "length a" k "eid # l # d" c] by simp

lemma ie_data_byte: "k < length d \<Longrightarrow> buf_byte (length a + 2 + k) (a @ (eid # l # d) @ c) = Some (d ! k)"
  using nth_append_length_plus [of "a @ [eid, l]" "d @ c" k] by (auto simp: buf_byte_def nth_append)

lemma ie_ssid_spec:
  assumes "length d < 256"
  shows "ie_ssid (a @ (eid # word_of_nat (length d) # d) @ c) (length a) (word_of_nat (length d)) n =
    Some (if essid_hidden d then n\<lparr>nw_flags := nw_flags n OR NETWORK_EMPTY_ESSID\<rparr>
       else n\<lparr>nw_ssid := take 32 (d @ replicate 32 0) @ drop 32 (nw_ssid n),
              nw_ssid_len := word_of_nat (min (length d) 32)\<rparr>)"
proof -
  have m: "min (word_of_nat (length d)) 32 = (word_of_nat (min (length d) 32) :: u8)"
    using min_of_nat_u8 [OF assms, of 32] by simp
  have k: "min (length d) 32 < 256" by simp
  have t: "take (min (length d) 32) d = take 32 d" "32 - min (length d) 32 = 32 - length d"
    by (simp_all add: min_def)
  show ?thesis
    unfolding ie_ssid_def Let_def m
    unfolding unat_len [OF assms] unat_len [OF k] ie_data_read [OF order_refl] bind.bind_lunit take_all [OF order_refl]
      essid_hidden_iff
    by (simp add: t)
qed

lemma ie_rsn_spec:
  assumes "length d < 256"
  shows "ie_rsn (a @ (eid # word_of_nat (length d) # d) @ c) (length a) (word_of_nat (length d)) n =
    (let ie = take 64 (eid # word_of_nat (length d) # d)
     in Some (n\<lparr>nw_rsn_ie := ie @ drop (length ie) (nw_rsn_ie n), nw_rsn_ie_len := length ie\<rparr>))"
proof -
  have k: "min (length d + 2) 64 \<le> length d + 2" by simp
  have t: "take (min (length d + 2) 64) (eid # word_of_nat (length d) # d) = take 64 (eid # word_of_nat (length d) # d)"
    "length (take 64 (eid # word_of_nat (length d) # d)) = min (length d + 2) 64"
    by (simp_all add: min_def)
  show ?thesis
    unfolding ie_rsn_def Let_def unat_len [OF assms] ie_whole_read [OF k] bind.bind_lunit t by simp
qed

lemma ie_generic_spec:
  assumes "length d < 256"
  shows "ie_generic (a @ (eid # word_of_nat (length d) # d) @ c) (length a) (word_of_nat (length d)) n =
    (let ie = take 64 (eid # word_of_nat (length d) # d)
     in Some (if take 4 d = [0x00, 0x50, 0xf2, 0x01]
        then n\<lparr>nw_wpa_ie := ie @ drop (length ie) (nw_wpa_ie n), nw_wpa_ie_len := length ie\<rparr> else n))"
proof (cases "length d < 4")
  case True
  then have "take 4 d \<noteq> [0x00, 0x50, 0xf2, 0x01]" by (auto dest: arg_cong [where f = length])
  then show ?thesis using True assms by (simp add: ie_generic_def word_less_nat_alt unat_len Let_def)
next
  case False
  then have f: "\<not> (word_of_nat (length d) :: u8) < 4" "4 \<le> length d" using assms by (simp_all add: word_less_nat_alt unat_len)
  have k: "min (length d + 2) 64 \<le> length d + 2" by simp
  have t: "take (min (length d + 2) 64) (eid # word_of_nat (length d) # d) = take 64 (eid # word_of_nat (length d) # d)"
    "length (take 64 (eid # word_of_nat (length d) # d)) = min (length d + 2) 64"
    by (simp_all add: min_def)
  show ?thesis
    unfolding ie_generic_def Let_def unat_len [OF assms] ie_whole_read [OF k] ie_data_read [OF f(2)] bind.bind_lunit t
    using f(1) by simp
qed

lemma tim_offset_eq: "uint (drop_bit 1 (x :: u8)) * 2 = int (unat x div 2 * 2)"
  by (simp add: drop_bit_eq_div uint_div zdiv_int)

lemma odd_and_1: "x AND 1 \<noteq> 0 \<longleftrightarrow> odd (unat (x :: u8))"
  using and_flag [of 0 x] bit_unsigned_iff [of x 0, where ?'a = nat] by (simp add: bit_0)

lemma tim_range:
  assumes "4 \<le> l" and "A \<noteq> 8 * (off + l - 3)"
  shows "(int A < 8 * int off \<or> int A > 8 * (int off + int l - 3)) \<longleftrightarrow> \<not> (off \<le> A div 8 \<and> A div 8 - off < l - 3)"
proof -
  obtain m where m: "l = m + 4" using assms(1) by (metis le_add_diff_inverse add.commute)
  obtain q r where q: "A = 8 * q + r" "r < 8" by (metis mod_less_divisor mult_div_mod_eq zero_less_numeral)
  have "A div 8 = q" using q by simp
  with assms(2) q show ?thesis unfolding m by auto
qed

lemma ie_tim_spec:
  assumes l: "length d < 256" and n4: "4 \<le> length d" and ok: "unat aid \<noteq> 8 * (tim_offset d + length d - 3)"
  shows "ie_tim st aid mt (a @ (eid # word_of_nat (length d) # d) @ c) (length a) (word_of_nat (length d)) n =
    Some (if st = LINKED
       then n\<lparr>nw_dtim_period := d ! 1, nw_last_dtim_sta_time := mt, nw_dtim_data := tim_data (unat aid) d\<rparr>
       else n\<lparr>nw_dtim_period := d ! 1\<rparr>)"
proof -
  let ?buf = "a @ (eid # word_of_nat (length d) # d) @ c"
  let ?off = "tim_offset d" and ?A = "unat aid"
  have f: "\<not> (word_of_nat (length d) :: u8) < 4" using l n4 by (simp add: word_less_nat_alt unat_len)
  have r: "buf_read (length a + 2) 3 ?buf = Some (take 3 d)" using n4 by (intro ie_data_read) simp
  have t3: "take 3 d ! 0 = d ! 0" "take 3 d ! 1 = d ! 1" "take 3 d ! 2 = d ! 2" using n4 by simp_all
  have off: "uint (drop_bit 1 (d ! 2)) * 2 = int ?off" by (simp only: tim_offset_eq tim_offset_def)
  have ul: "uint (word_of_nat (length d) :: u8) = int (length d)" using l by (simp add: uint_nat unat_len)
  have ua: "uint aid = int ?A" by simp
  have cond: "(int ?A < 8 * int ?off \<or> int ?A > 8 * (int ?off + int (length d) - 3)) \<longleftrightarrow>
      \<not> (?off \<le> ?A div 8 \<and> ?A div 8 - ?off < length d - 3)"
    using n4 ok by (rule tim_range)
  show ?thesis
  proof (cases "st = LINKED \<and> d ! 0 = 0")
    case False
    then show ?thesis unfolding ie_tim_def Let_def r bind.bind_lunit t3 using f by (auto simp: tim_data_def)
  next
    case True
    show ?thesis
    proof (cases "?off \<le> ?A div 8 \<and> ?A div 8 - ?off < length d - 3")
      case False
      then have u: "\<not> tim_has_unicast ?A d" by (auto simp: tim_has_unicast_def)
      show ?thesis
        unfolding ie_tim_def Let_def r bind.bind_lunit t3 off ul ua using f True cond False u
        by (auto simp: tim_data_def odd_and_1)
    next
      case in_map: True
      let ?k = "?A div 8 - ?off"
      have k: "nat (int ?A div 8 - int ?off) = ?k"
        unfolding zdiv_int [of _ 8, simplified, symmetric] by linarith
      have b: "buf_byte (length a + 2 + (3 + ?k)) ?buf = Some (d ! (3 + ?k))"
        by (rule ie_data_byte) (use in_map in linarith)
      have m: "nat (int ?A mod 8) = ?A mod 8" by (simp add: nat_mod_distrib)
      have u: "tim_has_unicast ?A d \<longleftrightarrow> d ! (3 + ?k) AND push_bit (?A mod 8) 1 \<noteq> 0"
        using in_map and_flag [of "?A mod 8" "d ! (3 + ?k)"] by (simp add: tim_has_unicast_def)
      show ?thesis
        unfolding ie_tim_def Let_def r bind.bind_lunit t3 off ul ua k b m tim_data_def u using f True cond in_map
        by (auto simp: odd_and_1)
    qed
  qed
qed

lemma ie_step_spec:
  assumes ok: "ie_ok (unat (en_assoc_id en)) (eid, d)"
  shows "ie_step en (a @ (eid # word_of_nat (length d) # d) @ c) (length a) eid (word_of_nat (length d)) n =
    Some (ie_apply en (eid, d) n)"
proof -
  have l: "length d < 256" using ok by (simp add: ie_ok_def)
  consider "eid = 0" | "eid = 1" | "eid = 50" | "eid = 3" | "eid = 5" "4 \<le> length d" | "eid = 5" "length d < 4"
    | "eid = 221" | "eid = 48" | "eid \<notin> {0, 1, 50, 3, 5, 221, 48}"
    by (cases "4 \<le> length d") auto
  then show ?thesis
  proof cases
    case 4
    then have "buf_byte (length a + 2) (a @ (eid # word_of_nat (length d) # d) @ c) = Some (d ! 0)"
      using ok by (auto simp: ie_ok_def buf_byte_def nth_append nth_Cons')
    then show ?thesis using 4 by (simp add: ie_step_def ie_apply_def ie_ds_set_def)
  next
    case 5
    then have "unat (en_assoc_id en) \<noteq> 8 * (tim_offset d + length d - 3)" using ok by (simp add: ie_ok_def)
    from ie_tim_spec [OF l 5(2) this] show ?thesis using 5 by (simp add: ie_step_def ie_apply_def)
  next
    case 6
    then show ?thesis using l by (simp add: ie_step_def ie_apply_def ie_tim_def word_less_nat_alt unat_len)
  qed (simp_all add: ie_step_def ie_apply_def ie_ssid_spec ie_rates_spec ie_generic_spec ie_rsn_spec l Let_def del: append_Cons append.append_Cons)
qed

lemma ie_loop_spec:
  assumes "\<forall>e \<in> set es. ie_ok (unat (en_assoc_id en)) e"
  shows "ie_loop en (a @ concat (map ie_bytes es) @ c) (length (concat (map ie_bytes es))) (length a) n =
    Some (False, fold (ie_apply en) es n)"
  using assms
proof (induction es arbitrary: a n)
  case Nil
  then show ?case by (simp add: ie_loop.simps)
next
  case (Cons e es)
  obtain eid d where e: "e = (eid, d)" by (cases e)
  let ?rest = "concat (map ie_bytes es)"
  let ?buf = "a @ (eid # word_of_nat (length d) # d) @ ?rest @ c"
  have ok: "ie_ok (unat (en_assoc_id en)) (eid, d)" using Cons.prems e by simp
  then have l: "length d < 256" by (simp add: ie_ok_def)
  have h: "buf_read (length a) 2 ?buf = Some [eid, word_of_nat (length d)]"
    using ie_whole_read [of 2 d a eid "word_of_nat (length d)" "?rest @ c"] by simp
  have IH: "ie_loop en ?buf (length ?rest) (length a + (2 + length d)) m = Some (False, fold (ie_apply en) es m)" for m
    using Cons.IH [of "a @ eid # word_of_nat (length d) # d" m] Cons.prems by simp
  show ?case
    using h IH ie_step_spec [OF ok, of a "?rest @ c" n]
    by (subst ie_loop.simps) (simp add: e ie_bytes_def Let_def unat_len [OF l])
qed

lemma ie_loop_truncated:
  assumes "2 + unat l > k + 2"
  shows "ie_loop en (a @ [eid, l] @ c) (k + 2) (length a) n = Some (True, n)"
proof -
  have "buf_read (length a) 2 (a @ [eid, l] @ c) = Some [eid, l]" by (simp add: buf_read_def)
  then show ?thesis using assms by (subst ie_loop.simps) (simp add: Let_def)
qed

section \<open>Refinement\<close>

text \<open>The fixed part, over the fields.\<close>

definition network_begin :: "u64 \<Rightarrow> ieee80211_rx_stats \<Rightarrow> bytes \<Rightarrow> u32 \<times> u32 \<Rightarrow> u16 \<Rightarrow> u16 \<Rightarrow> ieee80211_network \<Rightarrow> ieee80211_network" where
  "network_begin jiffies stats bssid ts interval capability network =
     (let network = network\<lparr>nw_bssid := bssid, nw_capability := capability, nw_last_scanned := jiffies,
          nw_time_stamp := ts, nw_beacon_interval := interval, nw_listen_interval := 10, nw_rates_len := 0,
          nw_rates_ex_len := 0, nw_last_associate := 0, nw_ssid_len := 0, nw_flags := 0, nw_atim_window := 0,
          nw_wpa_ie_len := 0, nw_rsn_ie_len := 0\<rparr>
      in if rs_freq stats = BAND_52GHZ then network\<lparr>nw_channel := rs_received_channel stats\<rparr>
         else network\<lparr>nw_flags := NETWORK_HAS_CCK\<rparr>)"

text \<open>A beacon as a station prints it: addresses, fixed part, elements.\<close>

definition beacon_bytes :: "u16 \<Rightarrow> bytes \<Rightarrow> bytes \<Rightarrow> bytes \<Rightarrow> bytes \<Rightarrow> u32 \<times> u32 \<Rightarrow> u16 \<Rightarrow> u16 \<Rightarrow> (u8 \<times> bytes) list \<Rightarrow> bytes" where
  "beacon_bytes fc da sa bssid seq ts interval capability es =
     [ucast fc, ucast (drop_bit 8 fc)] @ [0, 0] @ da @ sa @ bssid @ seq @ le32 (fst ts) @ le32 (snd ts) @
     [ucast interval, ucast (drop_bit 8 interval)] @ [ucast capability, ucast (drop_bit 8 capability)] @ concat (map ie_bytes es)"

lemma network_fixed_spec:
  assumes "length da = 6" and "length sa = 6" and "length bssid = 6" and "length seq = 2"
  shows "network_fixed j stats (beacon_bytes fc da sa bssid seq ts interval capability es @ tail) network =
    Some (network_begin j stats bssid ts interval capability network)"
proof -
  let ?b = "beacon_bytes fc da sa bssid seq ts interval capability es @ tail"
  have f: "buf_read 16 6 ?b = Some bssid" "buf_read 24 4 ?b = Some (le32 (fst ts))" "buf_read 28 4 ?b = Some (le32 (snd ts))"
    "buf_read 32 2 ?b = Some [ucast interval, ucast (drop_bit 8 interval)]"
    "buf_read 34 2 ?b = Some [ucast capability, ucast (drop_bit 8 capability)]"
    using assms by (simp_all add: beacon_bytes_def buf_read_def)
  have t: "get_le32 (le32 v ! 0) (le32 v ! 1) (le32 v ! 2) (le32 v ! 3) = v" for v
    by (simp add: le32_def get_le32_bytes)
  show ?thesis
    by (simp add: network_fixed_def hdr_addr3_def buf_le16_def buf_le32_def f t t [simplified] get_le16_bytes network_begin_def Let_def)
qed

definition network_end :: "ieee80211_rx_stats \<Rightarrow> ieee80211_network \<Rightarrow> ieee80211_network" where
  "network_end stats network =
     network\<lparr>nw_mode := network_mode stats network,
       nw_flags := nw_flags network OR
         (if essid_hidden (take (unat (nw_ssid_len network)) (nw_ssid network)) then NETWORK_EMPTY_ESSID else 0),
       nw_stats := stats\<lparr>rs_signal := word_of_int (TranslateToDbm8187 (rs_signalstrength stats)),
         rs_noise := word_of_int (TranslateToDbm8187 (100 - rs_signalstrength stats) - 25)\<rparr>\<rparr>"

text \<open>At 2.4 GHz the rates always leave one of the two modes.\<close>

lemma flag_bits: "f AND 2 \<noteq> 0 \<longleftrightarrow> bit (f :: u8) 1" "f AND 4 \<noteq> 0 \<longleftrightarrow> bit f 2"
  using and_flag [of 1 f] and_flag [of 2 f] by simp_all

lemma rate_effect_mode:
  assumes "bit f 1 \<or> bit f 2"
  shows "bit (rate_effect rs f) 1 \<or> bit (rate_effect rs f) 2"
proof -
  have "bit (2 :: u8) 1" "\<not> bit (4 :: u8) 1" by (simp_all add: bit_iff_odd)
  then have "bit (f OR 2) 1" "bit ((f OR 2) AND NOT 4) 1" by (simp_all only: bit_or_iff bit_and_iff bit_not_iff) (simp_all add: possible_bit_def)
  then show ?thesis using assms unfolding rate_effect_def Let_def by (simp only: split: if_split) blast
qed

lemma ie_apply_flags:
  "nw_flags (ie_apply en (eid, d) n) \<in> {nw_flags n, nw_flags n OR NETWORK_EMPTY_ESSID,
     rate_effect (take 12 d) (nw_flags n), rate_effect (take 16 d) (nw_flags n)}"
  by (simp add: ie_apply_def Let_def)

lemma ie_apply_mode:
  assumes "bit (nw_flags n) 1 \<or> bit (nw_flags n) 2"
  shows "bit (nw_flags (ie_apply en e n)) 1 \<or> bit (nw_flags (ie_apply en e n)) 2"
proof -
  obtain eid d where e: "e = (eid, d)" by (cases e)
  show ?thesis
    using ie_apply_flags [of en eid d n] rate_effect_mode [OF assms, of "take 12 d"] rate_effect_mode [OF assms, of "take 16 d"]
      assms unfolding e by (auto simp: bit_or_iff)
qed

lemma fold_ie_apply_mode:
  "bit (nw_flags n) 1 \<or> bit (nw_flags n) 2 \<Longrightarrow>
     bit (nw_flags (fold (ie_apply en) es n)) 1 \<or> bit (nw_flags (fold (ie_apply en) es n)) 2"
proof (induction es arbitrary: n)
  case (Cons e es)
  then show ?case using ie_apply_mode [of n en e] by simp
qed simp

lemma network_mode_eq_0: "network_mode stats n = 0 \<longleftrightarrow>
    rs_freq stats \<noteq> BAND_52GHZ \<and> nw_flags n AND 2 = 0 \<and> nw_flags n AND 4 = 0"
  by (simp add: network_mode_def)

lemma network_begin_flags:
  "rs_freq stats \<noteq> BAND_52GHZ \<Longrightarrow> nw_flags (network_begin j stats bssid ts interval capability network) = NETWORK_HAS_CCK"
  unfolding network_begin_def Let_def by simp

lemma network_mode_nonzero:
  "network_mode stats (fold (ie_apply en) es (network_begin j stats bssid ts interval capability network)) \<noteq> 0"
proof (cases "rs_freq stats = BAND_52GHZ")
  case False
  have "bit (nw_flags (network_begin j stats bssid ts interval capability network)) 2"
    unfolding network_begin_flags [OF False] by (simp add: bit_iff_odd)
  from fold_ie_apply_mode [OF disjI2, OF this, of en es] show ?thesis
    unfolding network_mode_eq_0 flag_bits [symmetric] by blast
qed (simp add: network_mode_def)

lemma essid_hidden_take:
  "n \<le> length ssid \<Longrightarrow> ieee80211_is_empty_essid ssid n \<longleftrightarrow> essid_hidden (take n ssid)"
  using essid_hidden_iff [of "take n ssid"]
  by (cases "n = 1") (auto simp: ieee80211_is_empty_essid_def essid_all_zero_iff min_absorb2)

lemma network_init_spec:
  assumes addr: "length da = 6" "length sa = 6" "length bssid = 6" "length seq = 2"
    and ok: "\<forall>e \<in> set es. ie_ok (unat (en_assoc_id en)) e"
    and len: "unat (rs_len (en_stats en)) = length (beacon_bytes fc da sa bssid seq ts interval capability es)"
    and stack: "network_arrays stack"
  shows "ieee80211_network_init j en (beacon_bytes fc da sa bssid seq ts interval capability es @ tail) stack =
    Some (0, network_end (en_stats en)
      (fold (ie_apply en) es (network_begin j (en_stats en) bssid ts interval capability stack)))"
proof -
  let ?stats = "en_stats en"
  let ?b = "beacon_bytes fc da sa bssid seq ts interval capability es @ tail"
  let ?n1 = "network_begin j ?stats bssid ts interval capability stack"
  let ?n2 = "fold (ie_apply en) es ?n1"
  define pre where "pre = [ucast fc, ucast (drop_bit 8 fc)] @ [0, 0] @ da @ sa @ bssid @ seq @ le32 (fst ts) @ le32 (snd ts) @
     [ucast interval, ucast (drop_bit 8 interval)] @ [ucast capability, ucast (drop_bit 8 capability) :: u8]"
  have b: "?b = pre @ concat (map ie_bytes es) @ tail" by (simp add: beacon_bytes_def pre_def)
  have p: "length pre = 36" using addr by (simp add: pre_def)
  have l: "unat (rs_len ?stats) = 36 + length (concat (map ie_bytes es))"
    unfolding len using p by (simp add: beacon_bytes_def pre_def)
  then have "(36 :: u16) \<le> rs_len ?stats" by (simp add: word_le_nat_alt)
  then have l': "unat (rs_len ?stats - 36) = length (concat (map ie_bytes es))" using l by (simp add: unat_sub)
  have f: "network_fixed j ?stats ?b stack = Some ?n1" by (rule network_fixed_spec [OF addr])
  have lp: "ie_loop en ?b (unat (rs_len ?stats - 36)) 36 ?n1 = Some (False, ?n2)"
    unfolding l' b using ie_loop_spec [OF ok, of pre tail ?n1] p by simp
  have wf: "network_arrays ?n2" "network_lengths ?n2"
    using ie_loop_wf [OF lp] network_fixed_wf [OF f stack] by blast+
  have "unat (nw_ssid_len ?n2) \<le> 32"
    using wf(2) by (simp add: network_lengths_def word_le_nat_alt)
  then have e: "ieee80211_is_empty_essid (nw_ssid ?n2) (unat (nw_ssid_len ?n2)) \<longleftrightarrow>
      essid_hidden (take (unat (nw_ssid_len ?n2)) (nw_ssid ?n2))"
    using wf(1) by (intro essid_hidden_take) (simp add: network_arrays_def)
  have m: "network_mode ?stats ?n2 \<noteq> 0" by (rule network_mode_nonzero)
  show ?thesis
    using e m by (simp add: ieee80211_network_init_def f lp network_end_def Let_def)
qed

text \<open>A walk that ends well has read a header not far before the end of what was announced.\<close>

lemma ie_loop_covers:
  "\<lbrakk>ie_loop en buf left pos n = Some (False, m); pos \<le> length buf + 255\<rbrakk> \<Longrightarrow> pos + left \<le> length buf + 256"
proof (induction en buf left pos n rule: ie_loop.induct)
  case (1 en buf left pos n)
  show ?case
  proof (cases "left < 2")
    case False
    then obtain h where h: "buf_read pos 2 buf = Some h"
      using "1.prems"(1) by (auto simp: ie_loop.simps [of _ _ left] split: option.splits)
    then have "pos + 2 \<le> length buf" by (simp add: buf_read_Some_iff)
    then have p: "pos + 2 + unat (h ! 1) \<le> length buf + 255"
      using unat_u8_less [of "h ! 1"] by linarith
    have fits: "\<not> 2 + unat (h ! 1) > left"
      using "1.prems"(1) False h by (auto simp: ie_loop.simps [of _ _ left] Let_def)
    then obtain m' where m': "ie_step en buf pos (h ! 0) (h ! 1) n = Some m'"
      using "1.prems"(1) False h by (auto simp: ie_loop.simps [of _ _ left] Let_def split: option.splits)
    have "ie_loop en buf (left - (2 + unat (h ! 1))) (pos + (2 + unat (h ! 1))) m' = Some (False, m)"
      using "1.prems"(1) False h fits m' by (simp add: ie_loop.simps [of _ _ left] Let_def)
    from "1.IH" [OF False h refl refl fits m' this] show ?thesis using p fits by simp
  qed (use "1.prems" in simp)
qed

lemma ie_loop_short:
  assumes "unat (rs_len (en_stats en)) < 36" and "length beacon < 65244"
  shows "ie_loop en beacon (unat (rs_len (en_stats en) - 36)) 36 n \<noteq> Some (False, m)"
proof
  assume l: "ie_loop en beacon (unat (rs_len (en_stats en) - 36)) 36 n = Some (False, m)"
  have "\<not> (36 :: u16) \<le> rs_len (en_stats en)" using assms(1) by (simp add: word_le_nat_alt)
  then have "unat (rs_len (en_stats en) - 36) \<ge> 65500"
    using assms(1) unat_sub_if' [of "rs_len (en_stats en)" 36] by (auto simp: word_le_nat_alt)
  with ie_loop_covers [OF l] assms(2) show False by linarith
qed

lemma network_init_safe:
  assumes "36 \<le> unat (rs_len (en_stats en))" and "unat (rs_len (en_stats en)) < length beacon"
  shows "\<exists>r. ieee80211_network_init j en beacon stack = Some r"
proof -
  have "(36 :: u16) \<le> rs_len (en_stats en)" using assms(1) by (simp add: word_le_nat_alt)
  then have l: "unat (rs_len (en_stats en) - 36) = unat (rs_len (en_stats en)) - 36"
    by (simp add: unat_sub)
  obtain n1 where n1: "network_fixed j (en_stats en) beacon stack = Some n1"
    using network_fixed_safe [of beacon] assms by fastforce
  obtain b n2 where "ie_loop en beacon (unat (rs_len (en_stats en) - 36)) 36 n1 = Some (b, n2)"
    using ie_loop_safe [of 36 "unat (rs_len (en_stats en) - 36)" beacon en n1] assms l by auto
  then show ?thesis using n1 by (simp add: ieee80211_network_init_def Let_def)
qed

section \<open>Properties\<close>

text \<open>A description and a reception for the examples.\<close>

definition stats_example :: "u16 \<Rightarrow> ieee80211_rx_stats" where
  "stats_example len = \<lparr>rs_mac_time = (7, 0), rs_signalstrength = 60, rs_rssi = 0, rs_signal = 0, rs_noise = 0, rs_rate = 10,
     rs_received_channel = 1, rs_control = 0, rs_mask = 0, rs_freq = BAND_24GHZ, rs_len = len, rs_nic_type = 0\<rparr>"

definition network_blank :: ieee80211_network where
  "network_blank = \<lparr>nw_bssid = replicate 6 0, nw_channel = 0, nw_ssid = replicate 33 0, nw_ssid_len = 0,
     nw_stats = stats_example 0, nw_capability = 0, nw_rates = replicate 12 0, nw_rates_len = 0,
     nw_rates_ex = replicate 16 0, nw_rates_ex_len = 0, nw_last_scanned = 0, nw_mode = 0, nw_flags = 0,
     nw_last_associate = 0, nw_time_stamp = (0, 0), nw_beacon_interval = 0, nw_listen_interval = 0,
     nw_atim_window = 0, nw_wpa_ie = replicate 64 0, nw_wpa_ie_len = 0, nw_rsn_ie = replicate 64 0,
     nw_rsn_ie_len = 0, nw_dtim_period = 0, nw_dtim_data = 0, nw_last_dtim_sta_time = (0, 0),
     nw_SignalStrength = 0, nw_Turbo_Enable = 0\<rparr>"

definition env_example :: "u16 \<Rightarrow> ie_env" where
  "env_example len = \<lparr>en_state = LINKED, en_assoc_id = 1, en_stats = stats_example len\<rparr>"

definition elements_example :: "(u8 \<times> bytes) list" where
  "elements_example = [(0, [110, 101, 116]), (1, [0x82, 0x84, 0x0c]), (3, [6]), (5, [0, 3, 0, 2])]"

definition beacon_example :: bytes where
  "beacon_example = beacon_bytes 0x0080 (replicate 6 0xff) [2, 0, 0, 0, 0, 1] [2, 0, 0, 0, 0, 1] [0, 0] (5, 0) 100 1 elements_example"

lemma network_blank_arrays: "network_arrays network_blank"
  by (simp add: network_arrays_def network_blank_def)

lemma elements_example_ok: "\<forall>e \<in> set elements_example. ie_ok (unat (en_assoc_id (env_example len))) e"
  by (simp add: elements_example_def ie_ok_def env_example_def tim_offset_def)

lemma beacon_example_length: "length beacon_example = 55"
  by (simp add: beacon_example_def beacon_bytes_def elements_example_def ie_bytes_def)

text \<open>Whatever bytes arrive, the parser of beacons and probe responses stays inside the arrays of the
  network description: they keep their sizes, and the lengths it stores are at most 32 for the
  name, 12 and 16 for the rates and 64 for the two key management elements.\<close>

theorem network_init_bounds:
  assumes "ieee80211_network_init j en beacon stack = Some (r, network)" and "network_arrays stack"
  shows "network_arrays network \<and> network_lengths network"
  using assms by (rule network_init_wf)

theorem network_init_bounds_witness:
  "\<exists>network. ieee80211_network_init 9 (env_example 55) (beacon_example @ []) network_blank = Some (0, network) \<and>
     network_arrays network \<and> network_lengths network"
  using network_init_spec [where en = "env_example 55" and es = elements_example and tail = "[]" and j = 9 and stack = network_blank
      and da = "replicate 6 0xff" and sa = "[2, 0, 0, 0, 0, 1]" and bssid = "[2, 0, 0, 0, 0, 1]" and seq = "[0, 0]"
      and fc = "0x0080" and ts = "(5, 0)" and interval = 100 and capability = 1]
    network_init_bounds [OF _ network_blank_arrays, of 9 "env_example 55" "beacon_example @ []" 0]
    beacon_example_length network_blank_arrays elements_example_ok
  by (simp add: beacon_example_def [symmetric] env_example_def stats_example_def)

text \<open>C10: The parser implements the meaning of the elements: for a frame that is the printed form of a
  header, the fixed fields and any list of well-formed elements, whatever follows it in the buffer, it
  returns success and the network that applying the elements one after the other gives, with the
  mode the rates imply and the hidden-name flag.\<close>

theorem network_init_elements:
  assumes "length da = 6" "length sa = 6" "length bssid = 6" "length seq = 2"
    and "\<forall>e \<in> set es. ie_ok (unat (en_assoc_id en)) e"
    and "unat (rs_len (en_stats en)) = length (beacon_bytes fc da sa bssid seq ts interval capability es)"
    and "network_arrays stack"
  shows "ieee80211_network_init j en (beacon_bytes fc da sa bssid seq ts interval capability es @ tail) stack =
    Some (0, network_end (en_stats en)
      (fold (ie_apply en) es (network_begin j (en_stats en) bssid ts interval capability stack)))"
  using assms by (rule network_init_spec)

theorem network_init_elements_witness:
  "ieee80211_network_init 9 (env_example 55) (beacon_example @ [1, 2, 3]) network_blank =
    Some (0, network_end (stats_example 55) (fold (ie_apply (env_example 55)) elements_example
      (network_begin 9 (stats_example 55) [2, 0, 0, 0, 0, 1] (5, 0) 100 1 network_blank))) \<and>
   (case fold (ie_apply (env_example 55)) elements_example
      (network_begin 9 (stats_example 55) [2, 0, 0, 0, 0, 1] (5, 0) 100 1 network_blank)
    of network \<Rightarrow> take 4 (nw_ssid network) = [110, 101, 116, 0] \<and> nw_ssid_len network = 3 \<and> nw_channel network = 6 \<and>
      nw_flags network = 6 \<and> nw_dtim_period network = 3 \<and> nw_dtim_data network = 3)"
proof
  show "ieee80211_network_init 9 (env_example 55) (beacon_example @ [1, 2, 3]) network_blank =
    Some (0, network_end (stats_example 55) (fold (ie_apply (env_example 55)) elements_example
      (network_begin 9 (stats_example 55) [2, 0, 0, 0, 0, 1] (5, 0) 100 1 network_blank)))"
    using network_init_elements [where en = "env_example 55" and es = elements_example and tail = "[1, 2, 3]" and j = 9 and stack = network_blank
      and da = "replicate 6 0xff" and sa = "[2, 0, 0, 0, 0, 1]" and bssid = "[2, 0, 0, 0, 0, 1]" and seq = "[0, 0]"
      and fc = "0x0080" and ts = "(5, 0)" and interval = 100 and capability = 1]
    beacon_example_length network_blank_arrays elements_example_ok
    by (simp add: beacon_example_def [symmetric] env_example_def stats_example_def)
  show "(case fold (ie_apply (env_example 55)) elements_example
      (network_begin 9 (stats_example 55) [2, 0, 0, 0, 0, 1] (5, 0) 100 1 network_blank)
    of network \<Rightarrow> take 4 (nw_ssid network) = [110, 101, 116, 0] \<and> nw_ssid_len network = 3 \<and> nw_channel network = 6 \<and>
      nw_flags network = 6 \<and> nw_dtim_period network = 3 \<and> nw_dtim_data network = 3)"
    by code_simp
qed

text \<open>For a frame of at least the 36 bytes of the fixed part, with any elements, the parser reads at
  most one byte past the end of the frame (a bitmap that ends just before the station's byte does that).\<close>

theorem network_init_reads:
  assumes "36 \<le> unat (rs_len (en_stats en))" and "unat (rs_len (en_stats en)) < length beacon"
  shows "\<exists>r. ieee80211_network_init j en beacon stack = Some r"
  using assms by (rule network_init_safe)

theorem network_init_reads_witness:
  "(\<exists>r. ieee80211_network_init 9 (env_example 36) (replicate 37 0) network_blank = Some r)"
  by (rule network_init_reads) (simp_all add: env_example_def stats_example_def)


text \<open>A frame shorter than the fixed part makes the remaining length wrap around in its 16 bits, so
  the parser walks over the memory behind it: the frame is never taken for a network, but
  unless some byte there reads as an element that is too long, the walk leaves the buffer (as it
  does on a frame of 35 bytes in a buffer of 37).\<close>

theorem network_init_short:
  assumes "unat (rs_len (en_stats en)) < 36" and "length beacon < 65244"
  shows "ieee80211_network_init j en beacon stack = None \<or>
    (\<exists>network. ieee80211_network_init j en beacon stack = Some (1, network))"
proof (cases "network_fixed j (en_stats en) beacon stack")
  case (Some n1)
  show ?thesis
  proof (cases "ie_loop en beacon (unat (rs_len (en_stats en) - 36)) 36 n1")
    case loop: (Some r)
    then have "fst r" using ie_loop_short [OF assms, of n1 "snd r"] by (cases r) auto
    then show ?thesis using Some loop by (cases r) (simp add: ieee80211_network_init_def Let_def)
  qed (simp add: ieee80211_network_init_def Let_def Some)
qed (simp add: ieee80211_network_init_def Let_def)

theorem network_init_short_witness:
  "(ieee80211_network_init 9 (env_example 35) (replicate 37 0) network_blank = None \<or>
    (\<exists>network. ieee80211_network_init 9 (env_example 35) (replicate 37 0) network_blank = Some (1, network))) \<and>
   ieee80211_network_init 9 (env_example 35) (replicate 37 0) network_blank = None"
proof
  show "ieee80211_network_init 9 (env_example 35) (replicate 37 0) network_blank = None \<or>
    (\<exists>network. ieee80211_network_init 9 (env_example 35) (replicate 37 0) network_blank = Some (1, network))"
    by (rule network_init_short) (simp_all add: env_example_def stats_example_def)
  have loop: "ie_loop (env_example 35) (replicate 37 0) 65535 36 n = None" for n
    by (subst ie_loop.simps) (simp add: buf_read_def)
  have w: "unat (rs_len (en_stats (env_example 35)) - 36) = 65535"
    by (simp add: env_example_def stats_example_def unsigned_minus_1_eq_mask mask_eq_exp_minus_1)
  obtain n1 where "network_fixed 9 (en_stats (env_example 35)) (replicate 37 0) network_blank = Some n1"
    using network_fixed_safe [of "replicate 37 0"] by fastforce
  then show "ieee80211_network_init 9 (env_example 35) (replicate 37 0) network_blank = None"
    by (simp add: ieee80211_network_init_def w loop Let_def)
qed

end
