(* ===== verification/Bss_Table.thy ===== *)
theory Bss_Table
  imports Network_Spec
begin

text \<open>
  The table of known networks in \<open>ieee80211/ieee80211_rx.c\<close>: when two descriptions are the same
  network, how an entry is refreshed, and \<open>ieee80211_process_probe_response\<close>, which enters or
  refreshes a network and replaces the entry that was seen last the longest time ago when
  all 128 are in use.  \<open>bt_list\<close> is \<open>network_list\<close> in its order; the free list is its length,
  because every byte of an entry is overwritten when it is taken.
\<close>

record bss_table =
  bt_list :: "ieee80211_network list"
  bt_free :: nat
  bt_current :: ieee80211_network
  bt_state :: ieee80211_state
  bt_assoc_id :: u16
  bt_iw_mode :: iw_mode
  bt_scan_age :: int
  bt_associate :: bool

definition is_same_network :: "iw_mode \<Rightarrow> ieee80211_network \<Rightarrow> ieee80211_network \<Rightarrow> bool" where
  "is_same_network mode src dst \<longleftrightarrow>
     (nw_ssid_len src = nw_ssid_len dst \<or> mode = IW_MODE_INFRA) \<and>
     nw_channel src = nw_channel dst \<and> nw_bssid src = nw_bssid dst \<and>
     (take (unat (nw_ssid_len src)) (nw_ssid src) = take (unat (nw_ssid_len src)) (nw_ssid dst) \<or> mode = IW_MODE_INFRA) \<and>
     nw_capability src AND 2 = nw_capability dst AND 2 \<and>
     nw_capability src AND 1 = nw_capability dst AND 1"

text \<open>\<open>memcpy(dst, src, n)\<close> on arrays of the same size.\<close>

definition mem_copy :: "nat \<Rightarrow> bytes \<Rightarrow> bytes \<Rightarrow> bytes" where
  "mem_copy n src dst = take n src @ drop n dst"

definition update_quality :: "u8 \<Rightarrow> u8 \<Rightarrow> u8" where
  "update_quality old new =
     (if old > 0 then word_of_int ((uint old * 5 + uint new + 5) div 6) else new)"

definition update_noise :: "u8 \<Rightarrow> u8 \<Rightarrow> u8" where
  "update_noise old new = (if old > 0 then word_of_int ((uint old * 5 + uint new) div 6) else 0)"

definition update_network :: "u64 \<Rightarrow> ieee80211_network \<Rightarrow> ieee80211_network \<Rightarrow> ieee80211_network" where
  "update_network jiffies dst src =
     (let quality = update_quality (rs_signalstrength (nw_stats dst)) (rs_signalstrength (nw_stats src));
          signal = word_of_int (TranslateToDbm8187 quality);
          noise = update_noise (rs_noise (nw_stats dst)) (rs_noise (nw_stats src));
          n = unat (nw_ssid_len src)
      in dst\<lparr>
        nw_stats := (nw_stats src)\<lparr>rs_signalstrength := quality, rs_signal := signal, rs_noise := noise\<rparr>,
        nw_capability := nw_capability src,
        nw_rates := mem_copy (unat (nw_rates_len src)) (nw_rates src) (nw_rates dst),
        nw_rates_len := nw_rates_len src,
        nw_rates_ex := mem_copy (unat (nw_rates_ex_len src)) (nw_rates_ex src) (nw_rates_ex dst),
        nw_rates_ex_len := nw_rates_ex_len src,
        nw_ssid := (if nw_ssid_len src > 0
          then mem_copy n (nw_ssid src) (mem_copy (unat (nw_ssid_len dst)) (replicate 33 0) (nw_ssid dst))
          else nw_ssid dst),
        nw_ssid_len := (if nw_ssid_len src > 0 then nw_ssid_len src else nw_ssid_len dst),
        nw_mode := nw_mode src, nw_flags := nw_flags src, nw_time_stamp := nw_time_stamp src,
        nw_beacon_interval := nw_beacon_interval src, nw_listen_interval := nw_listen_interval src,
        nw_atim_window := nw_atim_window src, nw_dtim_period := nw_dtim_period src, nw_dtim_data := nw_dtim_data src,
        nw_last_dtim_sta_time := nw_last_dtim_sta_time src,
        nw_wpa_ie := mem_copy (nw_wpa_ie_len src) (nw_wpa_ie src) (nw_wpa_ie dst), nw_wpa_ie_len := nw_wpa_ie_len src,
        nw_rsn_ie := mem_copy (nw_rsn_ie_len src) (nw_rsn_ie src) (nw_rsn_ie dst), nw_rsn_ie_len := nw_rsn_ie_len src,
        nw_last_scanned := jiffies, nw_SignalStrength := nw_SignalStrength src, nw_Turbo_Enable := nw_Turbo_Enable src\<rparr>)"

text \<open>\<open>strncmp(a, b, n) == 0\<close>\<close>

fun strncmp_eq :: "nat \<Rightarrow> bytes \<Rightarrow> bytes \<Rightarrow> bool" where
  "strncmp_eq 0 as bs = True"
| "strncmp_eq (Suc n) (a # as) (b # bs) = (a = b \<and> (a = 0 \<or> strncmp_eq n as bs))"
| "strncmp_eq (Suc n) _ _ = True"

text \<open>
  The walk over the list: the index of the first entry that is the network, and the entry with
  the smallest \<open>last_scanned\<close> before it (the first one of them).
\<close>

fun bss_search :: "iw_mode \<Rightarrow> ieee80211_network \<Rightarrow> nat \<Rightarrow> (nat \<times> u64) option \<Rightarrow> ieee80211_network list \<Rightarrow> nat option \<times> (nat \<times> u64) option" where
  "bss_search mode network i oldest [] = (None, oldest)"
| "bss_search mode network i oldest (target # rest) =
     (if is_same_network mode target network then (Some i, oldest)
      else bss_search mode network (Suc i)
        (case oldest of
           None \<Rightarrow> Some (i, nw_last_scanned target)
         | Some (k, t) \<Rightarrow> if nw_last_scanned target < t then Some (i, nw_last_scanned target) else oldest) rest)"

definition list_del :: "nat \<Rightarrow> 'a list \<Rightarrow> 'a list" where
  "list_del i xs = take i xs @ drop (Suc i) xs"

text \<open>A probe response keeps the hidden-name flag of what is known; the name is otherwise new.\<close>

definition probe_flags :: "bool \<Rightarrow> u8 \<Rightarrow> u8 \<Rightarrow> u8" where
  "probe_flags is_beacon known flags =
     (if is_beacon then flags else (NOT NETWORK_EMPTY_ESSID AND flags) OR (NETWORK_EMPTY_ESSID AND known))"

definition bss_renew :: "u64 \<Rightarrow> bss_table \<Rightarrow> ieee80211_network \<Rightarrow> ieee80211_network \<Rightarrow> bool" where
  "bss_renew jiffies bt target network \<longleftrightarrow>
     \<not> time_after (nw_last_scanned target + word_of_int (bt_scan_age bt)) jiffies \<or>
     (nw_flags network AND NETWORK_EMPTY_ESSID = NETWORK_EMPTY_ESSID \<and>
      ((nw_ssid_len network > 0 \<and> \<not> strncmp_eq (unat (nw_ssid_len network)) (nw_ssid target) (nw_ssid network)) \<or>
       (nw_ssid_len (bt_current bt) = nw_ssid_len network \<and>
        strncmp_eq (unat (nw_ssid_len network)) (nw_ssid (bt_current bt)) (nw_ssid network) \<and> bt_state bt = NOLINK)))"

text \<open>
  Entering a parsed network.  The second result is the network \<open>ieee80211_softmac_new_net\<close> is
  called with, if it is.  \<open>None\<close> is the null pointer \<open>oldest\<close>.
\<close>

definition bss_enter :: "u64 \<Rightarrow> bool \<Rightarrow> ieee80211_network \<Rightarrow> bss_table \<Rightarrow> (bss_table \<times> ieee80211_network option) option" where
  "bss_enter jiffies is_beacon network bt =
     (let same = is_same_network (bt_iw_mode bt) (bt_current bt) network;
          network = (if same then network\<lparr>nw_flags := probe_flags is_beacon (nw_flags (bt_current bt)) (nw_flags network)\<rparr> else network);
          bt = (if same \<and> is_beacon \<and> bt_state bt = LINKED
                then bt\<lparr>bt_current := update_network jiffies (bt_current bt) network\<rparr> else bt)
      in case bss_search (bt_iw_mode bt) network 0 None (bt_list bt) of
           (None, oldest) \<Rightarrow>
             if bt_free bt = 0 then
               (case oldest of
                  None \<Rightarrow> None
                | Some (k, _) \<Rightarrow> Some (bt\<lparr>bt_list := list_del k (bt_list bt) @ [network]\<rparr>,
                                    if bt_associate bt then Some network else None))
             else Some (bt\<lparr>bt_free := bt_free bt - 1, bt_list := bt_list bt @ [network]\<rparr>,
                    if bt_associate bt then Some network else None)
         | (Some i, _) \<Rightarrow>
             let target = bt_list bt ! i;
                 network = network\<lparr>nw_flags := probe_flags is_beacon (nw_flags target) (nw_flags network)\<rparr>;
                 renew = bss_renew jiffies bt target network
             in Some (bt\<lparr>bt_list := (bt_list bt)[i := update_network jiffies target network]\<rparr>,
                  if renew \<and> bt_associate bt then Some network else None))"

text \<open>\<open>stack\<close> is the uninitialised local structure.\<close>

definition ieee80211_process_probe_response ::
  "u64 \<Rightarrow> ieee80211_network \<Rightarrow> bytes \<Rightarrow> ieee80211_rx_stats \<Rightarrow> bss_table \<Rightarrow> (bss_table \<times> ieee80211_network option) option" where
  "ieee80211_process_probe_response jiffies stack beacon stats bt = do {
     fc \<leftarrow> hdr_frame_ctl beacon;
     (r, network) \<leftarrow> ieee80211_network_init jiffies
        \<lparr>en_state = bt_state bt, en_assoc_id = bt_assoc_id bt, en_stats = stats\<rparr> beacon stack;
     if r \<noteq> 0 then Some (bt, None)
     else bss_enter jiffies (WLAN_FC_GET_STYPE fc = 0x0080) network bt
   }"

definition ieee80211_rx_mgt ::
  "u64 \<Rightarrow> ieee80211_network \<Rightarrow> bytes \<Rightarrow> ieee80211_rx_stats \<Rightarrow> bss_table \<Rightarrow> (bss_table \<times> ieee80211_network option) option" where
  "ieee80211_rx_mgt jiffies stack header stats bt = do {
     fc \<leftarrow> hdr_frame_ctl header;
     if WLAN_FC_GET_STYPE fc = 0x0080 \<or> WLAN_FC_GET_STYPE fc = 0x0050
     then ieee80211_process_probe_response jiffies stack header stats bt
     else Some (bt, None)
   }"

section \<open>Entries\<close>

text \<open>What identifies an entry; the name only counts outside of infrastructure mode.\<close>

definition bss_key :: "iw_mode \<Rightarrow> ieee80211_network \<Rightarrow> u8 \<times> bytes \<times> u16 \<times> u16 \<times> u8 \<times> bytes" where
  "bss_key mode n = (nw_channel n, nw_bssid n, nw_capability n AND 2, nw_capability n AND 1,
     if mode = IW_MODE_INFRA then (0, []) else (nw_ssid_len n, take (unat (nw_ssid_len n)) (nw_ssid n)))"

lemma is_same_network_iff: "is_same_network mode a b \<longleftrightarrow> bss_key mode a = bss_key mode b"
  by (auto simp: is_same_network_def bss_key_def)

definition network_wf :: "ieee80211_network \<Rightarrow> bool" where
  "network_wf n \<longleftrightarrow> network_arrays n \<and> network_lengths n"

lemma length_mem_copy: "\<lbrakk>n \<le> length src; length src = length dst\<rbrakk> \<Longrightarrow> length (mem_copy n src dst) = length dst"
  by (simp add: mem_copy_def)

lemma take_mem_copy: "n \<le> length src \<Longrightarrow> take n (mem_copy n src dst) = take n src"
  by (simp add: mem_copy_def)

lemma network_lengths_nat:
  "network_lengths n \<longleftrightarrow> unat (nw_ssid_len n) \<le> 32 \<and> unat (nw_rates_len n) \<le> 12 \<and> unat (nw_rates_ex_len n) \<le> 16 \<and>
     nw_wpa_ie_len n \<le> 64 \<and> nw_rsn_ie_len n \<le> 64"
  by (simp add: network_lengths_def word_le_nat_alt)

lemma update_network_wf:
  assumes "network_wf dst" and "network_wf src"
  shows "network_wf (update_network jiffies dst src)"
  using assms unfolding network_wf_def network_arrays_def network_lengths_nat update_network_def Let_def
  by (simp add: length_mem_copy)

lemma update_network_key:
  assumes same: "bss_key mode dst = bss_key mode src" and wf: "network_wf dst" "network_wf src"
  shows "bss_key mode (update_network jiffies dst src) = bss_key mode src"
proof -
  have "unat (nw_ssid_len src) \<le> length (nw_ssid src)"
    using wf(2) by (simp add: network_wf_def network_arrays_def network_lengths_nat)
  then show ?thesis
    using same by (auto simp: bss_key_def update_network_def Let_def take_mem_copy word_gt_0 split: if_splits)
qed

lemma bss_key_flags [simp]: "bss_key mode (n\<lparr>nw_flags := f\<rparr>) = bss_key mode n"
  by (simp add: bss_key_def)

lemma network_wf_flags [simp]: "network_wf (n\<lparr>nw_flags := f\<rparr>) = network_wf n"
  by (simp add: network_wf_def)

section \<open>The search\<close>

lemma bss_search_found:
  "fst (bss_search mode n i oldest xs) = Some j \<Longrightarrow> i \<le> j \<and> j - i < length xs \<and> bss_key mode (xs ! (j - i)) = bss_key mode n"
proof (induction xs arbitrary: i oldest)
  case (Cons t xs)
  show ?case
  proof (cases "is_same_network mode t n")
    case False
    with Cons.prems have "fst (bss_search mode n (Suc i) (case oldest of None \<Rightarrow> Some (i, nw_last_scanned t)
         | Some (k, s) \<Rightarrow> if nw_last_scanned t < s then Some (i, nw_last_scanned t) else oldest) xs) = Some j" by simp
    from Cons.IH [OF this] show ?thesis by (auto simp: nth_Cons' Suc_diff_le diff_Suc_eq_diff_pred [symmetric] less_diff_conv)
  qed (use Cons.prems in \<open>auto simp: is_same_network_iff\<close>)
qed simp

text \<open>The oldest entry: the first one with the smallest \<open>last_scanned\<close>.\<close>

definition least_recent :: "nat \<Rightarrow> ieee80211_network list \<Rightarrow> bool" where
  "least_recent k xs \<longleftrightarrow> k < length xs \<and>
     (\<forall>i < k. nw_last_scanned (xs ! k) < nw_last_scanned (xs ! i)) \<and>
     (\<forall>i < length xs. nw_last_scanned (xs ! k) \<le> nw_last_scanned (xs ! i))"

lemma bss_search_oldest:
  assumes "\<forall>t \<in> set xs. bss_key mode t \<noteq> bss_key mode n"
    and "oldest = (if ys = [] then None else Some (k, nw_last_scanned (ys ! k)))" and "ys = [] \<or> least_recent k ys"
  shows "\<exists>k. bss_search mode n (length ys) oldest xs =
    (None, if ys @ xs = [] then None else Some (k, nw_last_scanned ((ys @ xs) ! k))) \<and> (ys @ xs = [] \<or> least_recent k (ys @ xs))"
  using assms
proof (induction xs arbitrary: ys k oldest)
  case (Cons t xs)
  have ns: "\<not> is_same_network mode t n" using Cons.prems(1) by (simp add: is_same_network_iff)
  let ?new = "case oldest of None \<Rightarrow> Some (length ys, nw_last_scanned t)
         | Some (k, s) \<Rightarrow> if nw_last_scanned t < s then Some (length ys, nw_last_scanned t) else oldest"
  have "\<exists>k. ?new = Some (k, nw_last_scanned ((ys @ [t]) ! k)) \<and> least_recent k (ys @ [t])"
  proof (cases "ys = []")
    case True
    then show ?thesis using Cons.prems(2) by (auto simp: least_recent_def)
  next
    case False
    then have l: "least_recent k ys" and o: "oldest = Some (k, nw_last_scanned (ys ! k))" using Cons.prems by auto
    show ?thesis
    proof (cases "nw_last_scanned t < nw_last_scanned (ys ! k)")
      case True
      have "least_recent (length ys) (ys @ [t])"
        using l True by (auto simp: least_recent_def nth_append less_Suc_eq intro: order.strict_trans2 less_imp_le)
      then show ?thesis using o True by auto
    next
      case False
      then have "least_recent k (ys @ [t])"
        using l by (auto simp: least_recent_def nth_append less_Suc_eq)
      then show ?thesis using o False l by (auto simp: nth_append least_recent_def)
    qed
  qed
  then obtain k' where k': "?new = Some (k', nw_last_scanned ((ys @ [t]) ! k'))" "least_recent k' (ys @ [t])" by blast
  have "\<exists>k. bss_search mode n (length (ys @ [t])) ?new xs =
    (None, if (ys @ [t]) @ xs = [] then None else Some (k, nw_last_scanned (((ys @ [t]) @ xs) ! k))) \<and>
      ((ys @ [t]) @ xs = [] \<or> least_recent k ((ys @ [t]) @ xs))"
    by (rule Cons.IH [of ?new "ys @ [t]" k']) (use Cons.prems(1) k' in auto)
  then show ?case using ns by simp
qed auto

lemma bss_search_none:
  assumes "\<forall>t \<in> set xs. bss_key mode t \<noteq> bss_key mode n"
  obtains k where "bss_search mode n 0 None xs = (None, if xs = [] then None else Some (k, nw_last_scanned (xs ! k)))"
    and "xs = [] \<or> least_recent k xs"
proof -
  have "\<exists>k. bss_search mode n 0 None xs = (None, if xs = [] then None else Some (k, nw_last_scanned (xs ! k))) \<and>
      (xs = [] \<or> least_recent k xs)"
    using bss_search_oldest [OF assms, of None "[]" 0] unfolding append_Nil by simp
  then show thesis using that by blast
qed

lemma bss_search_some:
  "\<exists>t \<in> set xs. bss_key mode t = bss_key mode n \<Longrightarrow> \<exists>j. fst (bss_search mode n i oldest xs) = Some j"
  by (induction xs arbitrary: i oldest) (auto simp: is_same_network_iff split: option.split)


section \<open>The table\<close>

definition bss_inv :: "bss_table \<Rightarrow> bool" where
  "bss_inv bt \<longleftrightarrow> length (bt_list bt) + bt_free bt = 128 \<and>
     distinct (map (bss_key (bt_iw_mode bt)) (bt_list bt)) \<and>
     (\<forall>n \<in> set (bt_list bt). network_wf n) \<and> network_wf (bt_current bt)"

lemma set_list_del: "set (list_del k xs) \<subseteq> set xs"
  by (auto simp: list_del_def dest: in_set_takeD in_set_dropD)

lemma length_list_del: "k < length xs \<Longrightarrow> length (list_del k xs) = length xs - 1"
  by (simp add: list_del_def)

lemma distinct_list_del: "distinct (map f xs) \<Longrightarrow> distinct (map f (list_del k xs))"
proof -
  assume d: "distinct (map f xs)"
  have "map f xs = map f (take k xs) @ map f (drop k xs)" by (metis append_take_drop_id map_append)
  with d have t: "distinct (map f (take k xs))" "distinct (map f (drop k xs))"
    "set (map f (take k xs)) \<inter> set (map f (drop k xs)) = {}" by (metis distinct_append)+
  have sub: "set (map f (drop (Suc k) xs)) \<subseteq> set (map f (drop k xs))"
    by (metis drop_map le_SucI order_refl set_drop_subset_set_drop)
  moreover have "distinct (map f (drop (Suc k) xs))" using d by (metis distinct_drop drop_map)
  ultimately show ?thesis unfolding list_del_def map_append distinct_append using t by blast
qed

text \<open>The parsed network, with the flags that a probe response keeps from the current network.\<close>

definition bss_incoming :: "bool \<Rightarrow> ieee80211_network \<Rightarrow> bss_table \<Rightarrow> ieee80211_network" where
  "bss_incoming is_beacon network bt =
     (if is_same_network (bt_iw_mode bt) (bt_current bt) network
      then network\<lparr>nw_flags := probe_flags is_beacon (nw_flags (bt_current bt)) (nw_flags network)\<rparr> else network)"

definition bss_current :: "u64 \<Rightarrow> bool \<Rightarrow> ieee80211_network \<Rightarrow> bss_table \<Rightarrow> ieee80211_network" where
  "bss_current jiffies is_beacon network bt =
     (if is_same_network (bt_iw_mode bt) (bt_current bt) network \<and> is_beacon \<and> bt_state bt = LINKED
      then update_network jiffies (bt_current bt) (bss_incoming is_beacon network bt) else bt_current bt)"

lemma bss_incoming_facts [simp]:
  "bss_key mode (bss_incoming b n bt) = bss_key mode n" "network_wf (bss_incoming b n bt) = network_wf n"
  by (simp_all add: bss_incoming_def)

lemma bss_current_wf: "\<lbrakk>network_wf (bt_current bt); network_wf n\<rbrakk> \<Longrightarrow> network_wf (bss_current j b n bt)"
  by (simp add: bss_current_def update_network_wf)

text \<open>The three cases of entering a network.\<close>

lemma bss_enter_known:
  assumes "\<exists>t \<in> set (bt_list bt). bss_key (bt_iw_mode bt) t = bss_key (bt_iw_mode bt) network"
  obtains i r where "i < length (bt_list bt)" and "bss_key (bt_iw_mode bt) (bt_list bt ! i) = bss_key (bt_iw_mode bt) network"
    and "bss_enter jiffies is_beacon network bt = Some (bt\<lparr>bt_current := bss_current jiffies is_beacon network bt,
      bt_list := (bt_list bt)[i := update_network jiffies (bt_list bt ! i) ((bss_incoming is_beacon network bt)\<lparr>nw_flags :=
        probe_flags is_beacon (nw_flags (bt_list bt ! i)) (nw_flags (bss_incoming is_beacon network bt))\<rparr>)]\<rparr>, r)"
proof -
  let ?n = "bss_incoming is_beacon network bt"
  have "\<exists>t \<in> set (bt_list bt). bss_key (bt_iw_mode bt) t = bss_key (bt_iw_mode bt) ?n" using assms by simp
  from bss_search_some [OF this, of 0 None]
  obtain i o' where s: "bss_search (bt_iw_mode bt) ?n 0 None (bt_list bt) = (Some i, o')" by (metis prod.collapse)
  have "i < length (bt_list bt)" "bss_key (bt_iw_mode bt) (bt_list bt ! i) = bss_key (bt_iw_mode bt) network"
    using bss_search_found [of "bt_iw_mode bt" ?n 0 None "bt_list bt" i] s by simp_all
  moreover have "\<exists>r. bss_enter jiffies is_beacon network bt = Some (bt\<lparr>bt_current := bss_current jiffies is_beacon network bt,
      bt_list := (bt_list bt)[i := update_network jiffies (bt_list bt ! i) (?n\<lparr>nw_flags :=
        probe_flags is_beacon (nw_flags (bt_list bt ! i)) (nw_flags ?n)\<rparr>)]\<rparr>, r)"
    using s unfolding bss_enter_def Let_def bss_current_def bss_incoming_def by (auto split: if_split_asm)
  ultimately show thesis using that by blast
qed

lemma bss_enter_new:
  assumes "\<forall>t \<in> set (bt_list bt). bss_key (bt_iw_mode bt) t \<noteq> bss_key (bt_iw_mode bt) network" and "bt_free bt > 0"
  shows "bss_enter jiffies is_beacon network bt = Some (bt\<lparr>bt_current := bss_current jiffies is_beacon network bt,
      bt_list := bt_list bt @ [bss_incoming is_beacon network bt], bt_free := bt_free bt - 1\<rparr>,
      if bt_associate bt then Some (bss_incoming is_beacon network bt) else None)"
proof -
  let ?n = "bss_incoming is_beacon network bt"
  have "\<forall>t \<in> set (bt_list bt). bss_key (bt_iw_mode bt) t \<noteq> bss_key (bt_iw_mode bt) ?n" using assms(1) by simp
  from bss_search_none [OF this]
  obtain o' where "bss_search (bt_iw_mode bt) ?n 0 None (bt_list bt) = (None, o')" by blast
  then show ?thesis
    using assms(2) unfolding bss_enter_def Let_def bss_current_def bss_incoming_def by (auto split: if_split_asm)
qed

lemma bss_enter_evict:
  assumes "\<forall>t \<in> set (bt_list bt). bss_key (bt_iw_mode bt) t \<noteq> bss_key (bt_iw_mode bt) network" and "bt_free bt = 0"
    and "bt_list bt \<noteq> []"
  obtains k where "least_recent k (bt_list bt)"
    and "bss_enter jiffies is_beacon network bt = Some (bt\<lparr>bt_current := bss_current jiffies is_beacon network bt,
      bt_list := list_del k (bt_list bt) @ [bss_incoming is_beacon network bt]\<rparr>,
      if bt_associate bt then Some (bss_incoming is_beacon network bt) else None)"
proof -
  let ?n = "bss_incoming is_beacon network bt"
  have "\<forall>t \<in> set (bt_list bt). bss_key (bt_iw_mode bt) t \<noteq> bss_key (bt_iw_mode bt) ?n" using assms(1) by simp
  from bss_search_none [OF this] obtain k
    where "bss_search (bt_iw_mode bt) ?n 0 None (bt_list bt) =
        (None, if bt_list bt = [] then None else Some (k, nw_last_scanned (bt_list bt ! k)))"
      and "bt_list bt = [] \<or> least_recent k (bt_list bt)" by blast
  with assms(3) have s: "bss_search (bt_iw_mode bt) ?n 0 None (bt_list bt) = (None, Some (k, nw_last_scanned (bt_list bt ! k)))"
    and k: "least_recent k (bt_list bt)" by simp_all
  have "bss_enter jiffies is_beacon network bt = Some (bt\<lparr>bt_current := bss_current jiffies is_beacon network bt,
      bt_list := list_del k (bt_list bt) @ [?n]\<rparr>, if bt_associate bt then Some ?n else None)"
    using s assms(2) unfolding bss_enter_def Let_def bss_current_def bss_incoming_def by (auto split: if_split_asm)
  then show thesis using that k by blast
qed

lemma bss_enter_inv:
  assumes inv: "bss_inv bt" and wf: "network_wf network"
  shows "\<exists>bt' r. bss_enter jiffies is_beacon network bt = Some (bt', r) \<and> bss_inv bt' \<and> bt_iw_mode bt' = bt_iw_mode bt \<and>
    bss_key (bt_iw_mode bt) network \<in> bss_key (bt_iw_mode bt) ` set (bt_list bt')"
proof (cases "\<exists>t \<in> set (bt_list bt). bss_key (bt_iw_mode bt) t = bss_key (bt_iw_mode bt) network")
  case True
  then show ?thesis
  proof (rule bss_enter_known [where jiffies = jiffies and is_beacon = is_beacon])
    fix i r
    let ?n = "(bss_incoming is_beacon network bt)\<lparr>nw_flags :=
        probe_flags is_beacon (nw_flags (bt_list bt ! i)) (nw_flags (bss_incoming is_beacon network bt))\<rparr>"
    let ?u = "update_network jiffies (bt_list bt ! i) ?n"
    assume i: "i < length (bt_list bt)"
      and key: "bss_key (bt_iw_mode bt) (bt_list bt ! i) = bss_key (bt_iw_mode bt) network"
      and e: "bss_enter jiffies is_beacon network bt =
        Some (bt\<lparr>bt_current := bss_current jiffies is_beacon network bt, bt_list := (bt_list bt)[i := ?u]\<rparr>, r)"
    have w: "network_wf (bt_list bt ! i)" using inv i by (simp add: bss_inv_def)
    have k: "bss_key (bt_iw_mode bt) ?u = bss_key (bt_iw_mode bt) network"
      using update_network_key [of "bt_iw_mode bt" "bt_list bt ! i" ?n jiffies] key w wf by simp
    have "map (bss_key (bt_iw_mode bt)) ((bt_list bt)[i := ?u]) = map (bss_key (bt_iw_mode bt)) (bt_list bt)"
      using i by (simp add: map_update k key [symmetric] list_update_same_conv)
    moreover have "network_wf ?u" using w wf by (simp add: update_network_wf)
    moreover have "bss_key (bt_iw_mode bt) network \<in> bss_key (bt_iw_mode bt) ` set ((bt_list bt)[i := ?u])"
      using i k by (metis image_eqI set_update_memI)
    ultimately show ?thesis
      using inv wf e by (auto simp: bss_inv_def bss_current_wf dest: set_update_subset_insert [THEN subsetD])
  qed
next
  case False
  then have new: "\<forall>t \<in> set (bt_list bt). bss_key (bt_iw_mode bt) t \<noteq> bss_key (bt_iw_mode bt) network" by blast
  show ?thesis
  proof (cases "bt_free bt = 0")
    case True
    then have "bt_list bt \<noteq> []" using inv by (auto simp: bss_inv_def)
    from bss_enter_evict [OF new True this, of jiffies is_beacon]
    obtain k where k: "least_recent k (bt_list bt)"
      and e: "bss_enter jiffies is_beacon network bt = Some (bt\<lparr>bt_current := bss_current jiffies is_beacon network bt,
        bt_list := list_del k (bt_list bt) @ [bss_incoming is_beacon network bt]\<rparr>,
        if bt_associate bt then Some (bss_incoming is_beacon network bt) else None)" by blast
      have "k < length (bt_list bt)" using k by (simp add: least_recent_def)
      then have "length (list_del k (bt_list bt)) = 127"
        using inv True by (simp add: bss_inv_def length_list_del)
      moreover have "distinct (map (bss_key (bt_iw_mode bt)) (list_del k (bt_list bt)))"
        using inv by (simp add: bss_inv_def distinct_list_del)
      ultimately show ?thesis
        using e inv wf True new set_list_del [of k "bt_list bt"] by (auto simp: bss_inv_def bss_current_wf)
  next
    case False
    then have "bt_free bt > 0" by simp
    from bss_enter_new [OF new this] show ?thesis
      using False inv wf new by (auto simp: bss_inv_def bss_current_wf)
  qed
qed

lemma process_probe_response_inv:
  assumes inv: "bss_inv bt" and stack: "network_arrays stack"
    and len: "36 \<le> unat (rs_len stats)" "unat (rs_len stats) < length beacon"
  shows "\<exists>bt' r. ieee80211_process_probe_response jiffies stack beacon stats bt = Some (bt', r) \<and> bss_inv bt' \<and>
    bt_iw_mode bt' = bt_iw_mode bt"
proof -
  let ?en = "\<lparr>en_state = bt_state bt, en_assoc_id = bt_assoc_id bt, en_stats = stats\<rparr>"
  obtain fc where fc: "hdr_frame_ctl beacon = Some fc" using len hdr_fields_Some(1) [of beacon] by auto
  obtain r network where i: "ieee80211_network_init jiffies ?en beacon stack = Some (r, network)"
    using network_init_safe [of ?en beacon jiffies stack] len by auto
  have wf: "network_wf network" using network_init_wf [OF i stack] by (simp add: network_wf_def)
  show ?thesis
  proof (cases "r = 0")
    case True
    then show ?thesis
      using bss_enter_inv [OF inv wf, of jiffies "WLAN_FC_GET_STYPE fc = 0x0080"] fc i
      by (auto simp: ieee80211_process_probe_response_def)
  qed (use fc i inv in \<open>simp add: ieee80211_process_probe_response_def\<close>)
qed

section \<open>Properties\<close>

definition bss_example :: "ieee80211_network list \<Rightarrow> nat \<Rightarrow> bss_table" where
  "bss_example nets free = \<lparr>bt_list = nets, bt_free = free, bt_current = network_blank, bt_state = NOLINK,
     bt_assoc_id = 0, bt_iw_mode = IW_MODE_INFRA, bt_scan_age = 3750, bt_associate = True\<rparr>"

definition net_example :: "u8 \<Rightarrow> u64 \<Rightarrow> ieee80211_network" where
  "net_example channel scanned = network_blank\<lparr>nw_channel := channel, nw_last_scanned := scanned\<rparr>"

text \<open>C11: The table of known networks is sound whatever management frames arrive: from any state in which
  the 128 entries are either in the list or free, no two entries are the same network and every
  entry respects its array bounds, a beacon, a probe response or any other management frame of at
  least 36 bytes is handled without a null pointer and leads to such a state again.\<close>

theorem bss_table_inv:
  assumes "bss_inv bt" and "network_arrays stack" and "36 \<le> unat (rs_len stats)" and "unat (rs_len stats) < length frame"
  shows "\<exists>bt' r. ieee80211_rx_mgt jiffies stack frame stats bt = Some (bt', r) \<and> bss_inv bt' \<and> bt_iw_mode bt' = bt_iw_mode bt"
proof -
  obtain fc where "hdr_frame_ctl frame = Some fc" using assms(3,4) hdr_fields_Some(1) [of frame] by auto
  then show ?thesis
    using process_probe_response_inv [OF assms, of jiffies] assms(1) by (simp add: ieee80211_rx_mgt_def)
qed

theorem bss_table_inv_witness:
  "\<exists>bt' r. ieee80211_rx_mgt 9 network_blank (beacon_example @ [0]) (stats_example 55) (bss_example [net_example 1 5] 127) =
     Some (bt', r) \<and> bss_inv bt' \<and> bt_iw_mode bt' = bt_iw_mode (bss_example [net_example 1 5] 127)"
  by (rule bss_table_inv)
    (simp_all add: bss_inv_def bss_example_def net_example_def network_wf_def network_blank_def network_arrays_def
      network_lengths_def stats_example_def beacon_example_length)

text \<open>When all entries are in use, a network that is not in the table takes the place of the least
  recently heard one: the entry that is given up has the smallest time stamp, the first in the list
  of those that have it, every other entry stays as it is and in its order, the new network comes
  last, and the association logic is told of it.\<close>

theorem bss_replaces_oldest:
  assumes "\<forall>n \<in> set (bt_list bt). \<not> is_same_network (bt_iw_mode bt) n network" and "bt_free bt = 0" and "bt_list bt \<noteq> []"
  shows "\<exists>k n' bt'. least_recent k (bt_list bt) \<and>
    bss_enter jiffies is_beacon network bt = Some (bt', if bt_associate bt then Some n' else None) \<and>
    bt_list bt' = list_del k (bt_list bt) @ [n'] \<and> bt_free bt' = 0 \<and>
    n' = network\<lparr>nw_flags := nw_flags n'\<rparr> \<and> (is_beacon \<longrightarrow> n' = network)"
proof -
  have new: "\<forall>t \<in> set (bt_list bt). bss_key (bt_iw_mode bt) t \<noteq> bss_key (bt_iw_mode bt) network"
    using assms(1) by (simp add: is_same_network_iff)
  obtain k where k: "least_recent k (bt_list bt)"
    and e: "bss_enter jiffies is_beacon network bt = Some (bt\<lparr>bt_current := bss_current jiffies is_beacon network bt,
      bt_list := list_del k (bt_list bt) @ [bss_incoming is_beacon network bt]\<rparr>,
      if bt_associate bt then Some (bss_incoming is_beacon network bt) else None)"
    using bss_enter_evict [OF new assms(2,3)] by blast
  have "bss_incoming is_beacon network bt = network\<lparr>nw_flags := nw_flags (bss_incoming is_beacon network bt)\<rparr>"
    "is_beacon \<Longrightarrow> bss_incoming is_beacon network bt = network"
    by (simp_all add: bss_incoming_def probe_flags_def)
  with k e assms(2) show ?thesis by fastforce
qed

theorem bss_replaces_oldest_witness:
  "(\<exists>k n' bt'. least_recent k [net_example 1 5, net_example 2 3] \<and>
    bss_enter 9 True (net_example 6 9) (bss_example [net_example 1 5, net_example 2 3] 0) = Some (bt', Some n') \<and>
    bt_list bt' = list_del k [net_example 1 5, net_example 2 3] @ [n'] \<and> n' = net_example 6 9)"
  using bss_replaces_oldest [of "bss_example [net_example 1 5, net_example 2 3] 0" "net_example 6 9" 9 True]
  by (fastforce simp: bss_example_def net_example_def is_same_network_def network_blank_def)

end
