(* ===== verification/Ciphers.thy ===== *)
theory Ciphers
  imports Prelude
begin

text \<open>
  The cryptographic primitives the 802.11 ciphers call through the kernel's crypto API
  (\<open>crypto_blkcipher_*\<close>, \<open>crypto_cipher_encrypt_one\<close>, \<open>crypto_hash_digest\<close>).  On the kernels
  the README names they are the kernel's, so every cipher model takes them as arguments; on
  2.4 kernels they are the files \<open>arc4.c\<close>, \<open>aes.c\<close> and \<open>michael_mic.c\<close> of this tree.  Each
  locale states what the clients rely on; the theories that model those files interpret it.
\<close>

section \<open>A keyed stream cipher, \<open>ecb(arc4)\<close>\<close>

text \<open>
  \<open>rc4 key data\<close> is the status and the output of \<open>setkey\<close> followed by one
  \<open>encrypt\<close> (or \<open>decrypt\<close>, the same operation) of the whole buffer.
\<close>

locale stream_cipher =
  fixes rc4 :: "bytes \<Rightarrow> bytes \<Rightarrow> int \<times> bytes"
  assumes rc4_status: "\<lbrakk>1 \<le> length key; length key \<le> 256\<rbrakk> \<Longrightarrow> fst (rc4 key d) = 0"
    and rc4_length: "length (snd (rc4 key d)) = length d"
    and rc4_inverse: "\<lbrakk>1 \<le> length key; length key \<le> 256\<rbrakk> \<Longrightarrow> snd (rc4 key (snd (rc4 key d))) = d"
begin

lemma rc4_eq: "\<lbrakk>1 \<le> length key; length key \<le> 256\<rbrakk> \<Longrightarrow> \<exists>out. rc4 key d = (0, out) \<and>
    length out = length d \<and> rc4 key out = (0, d)"
  using rc4_status [of key] rc4_length [of key d] rc4_inverse [of key d]
  by (metis prod.collapse)

end

section \<open>A block cipher, \<open>aes\<close>\<close>

locale block_cipher =
  fixes aes :: "bytes \<Rightarrow> bytes \<Rightarrow> bytes"
  assumes aes_length: "\<lbrakk>length key = 16; length blk = 16\<rbrakk> \<Longrightarrow> length (aes key blk) = 16"

section \<open>A keyed digest, \<open>michael_mic\<close>\<close>

locale keyed_digest =
  fixes michael :: "bytes \<Rightarrow> bytes \<Rightarrow> int \<times> bytes"
  assumes michael_status: "length key = 8 \<Longrightarrow> fst (michael key d) = 0"
    and michael_length: "length key = 8 \<Longrightarrow> length (snd (michael key d)) = 8"

end
