(* ===== verification/Rc4_Frame.thy ===== *)
theory Rc4_Frame
  imports Skb Ciphers
begin

text \<open>
  The part WEP and TKIP have in common: both insert a prefix of \<open>n\<close> bytes behind the 802.11
  header, append a CRC-32 integrity value to the body and run RC4 over body and ICV
  (\<open>rc4_seal\<close>); on receive they undo it and compare the ICV (\<open>rc4_open\<close>).  The argument
  \<open>crc32_le\<close> stands for the kernel's CRC-32, \<open>rc4\<close> for its \<open>ecb(arc4)\<close>.
\<close>

text \<open>The ICV: the complemented CRC-32, least significant byte first.\<close>

definition icv_bytes :: "(u32 \<Rightarrow> bytes \<Rightarrow> u32) \<Rightarrow> bytes \<Rightarrow> bytes" where
  "icv_bytes crc32_le d = le32 (NOT (crc32_le (NOT 0) d))"

definition rc4_seal ::
  "(bytes \<Rightarrow> bytes \<Rightarrow> int \<times> bytes) \<Rightarrow> (u32 \<Rightarrow> bytes \<Rightarrow> u32) \<Rightarrow> bytes \<Rightarrow> bytes \<Rightarrow> sk_buff \<Rightarrow> nat \<Rightarrow>
     (int \<times> sk_buff) option" where
  "rc4_seal rc4 crc32_le prefix key skb hdr_len = do {
     let n = length prefix;
     let len = skb_len skb - hdr_len;
     skb \<leftarrow> skb_push n skb;
     skb \<leftarrow> skb_move 0 n hdr_len skb;
     skb \<leftarrow> skb_store hdr_len prefix skb;
     d \<leftarrow> skb_load (hdr_len + n) len skb;
     skb \<leftarrow> skb_put 4 skb;
     skb \<leftarrow> skb_store (hdr_len + n + len) (icv_bytes crc32_le d) skb;
     d \<leftarrow> skb_load (hdr_len + n) (len + 4) skb;
     let (ret, d) = rc4 key d;
     skb \<leftarrow> skb_store (hdr_len + n) d skb;
     Some (ret, skb)
   }"

datatype rc4_result = Cipher_Failed | Icv_Mismatch | Opened

definition rc4_open ::
  "(bytes \<Rightarrow> bytes \<Rightarrow> int \<times> bytes) \<Rightarrow> (u32 \<Rightarrow> bytes \<Rightarrow> u32) \<Rightarrow> nat \<Rightarrow> bytes \<Rightarrow> sk_buff \<Rightarrow> nat \<Rightarrow>
     (rc4_result \<times> sk_buff) option" where
  "rc4_open rc4 crc32_le n key skb hdr_len = do {
     let plen = skb_len skb - hdr_len - n - 4;
     d \<leftarrow> skb_load (hdr_len + n) (plen + 4) skb;
     let (st, d) = rc4 key d;
     skb \<leftarrow> skb_store (hdr_len + n) d skb;
     if st \<noteq> 0 then Some (Cipher_Failed, skb)
     else do {
       body \<leftarrow> skb_load (hdr_len + n) plen skb;
       tail \<leftarrow> skb_load (hdr_len + n + plen) 4 skb;
       if icv_bytes crc32_le body \<noteq> tail then Some (Icv_Mismatch, skb)
       else do {
         skb \<leftarrow> skb_move n 0 hdr_len skb;
         let skb = skb_pull n skb;
         Some (Opened, skb_trim (skb_len skb - 4) skb)
       }
     }
   }"

lemma length_icv_bytes [simp]: "length (icv_bytes crc d) = 4"
  by (simp add: icv_bytes_def)

text \<open>The body and its ICV, as they are encrypted.\<close>

definition icv_plain :: "(u32 \<Rightarrow> bytes \<Rightarrow> u32) \<Rightarrow> bytes \<Rightarrow> bytes" where
  "icv_plain crc32_le body = body @ icv_bytes crc32_le body"

lemma length_icv_plain [simp]: "length (icv_plain crc body) = length body + 4"
  by (simp add: icv_plain_def)

lemma take_icv_plain [simp]: "take (length body) (icv_plain crc body) = body"
  by (simp add: icv_plain_def)

context stream_cipher
begin

lemma rc4_seal_frame:
  assumes "length prefix \<le> skb_headroom skb" and "4 \<le> skb_tailroom skb" and hl: "hdr_len \<le> skb_len skb"
  defines "hdr \<equiv> take hdr_len (skb_data skb)" and "body \<equiv> drop hdr_len (skb_data skb)"
  shows "\<exists>skb'. rc4_seal rc4 crc32_le prefix key skb hdr_len =
      Some (fst (rc4 key (icv_plain crc32_le body)), skb') \<and>
    skb_data skb' = hdr @ prefix @ snd (rc4 key (icv_plain crc32_le body))"
proof -
  let ?n = "length prefix"
  have lh: "length hdr = hdr_len" using hl by (simp add: hdr_def skb_len_def)
  obtain skb1 skb2 hole where p: "skb_push ?n skb = Some skb1"
    and m: "skb_move 0 ?n hdr_len skb1 = Some skb2" and "length hole = ?n"
    and d2: "skb_data skb2 = hdr @ hole @ body" and r2: "skb_room skb2 = skb_room skb"
    using assms(1) hl unfolding hdr_def body_def by (rule skb_open_hole)
  define skb3 where "skb3 = skb2\<lparr>skb_data := hdr @ prefix @ body\<rparr>"
  have s3: "skb_store hdr_len prefix skb2 = Some skb3"
    using lh \<open>length hole = ?n\<close> by (simp add: skb_store_at [OF d2] skb3_def)
  have lb: "skb_len skb - hdr_len = length body" by (simp add: body_def skb_len_def)
  have l3: "skb_load (hdr_len + ?n) (length body) skb3 = Some body"
    using lh by (intro skb_load_at_end [where a = "hdr @ prefix"]) (auto simp: skb3_def)
  have "4 \<le> skb_tailroom skb3" using assms(2) r2 by (simp add: skb3_def skb_tailroom_def)
  then obtain skb4 where p4: "skb_put 4 skb3 = Some skb4" by (auto dest: skb_put_Some)
  from skb_put_window [OF p4] obtain t where t: "length t = 4" "skb_data skb4 = hdr @ prefix @ body @ t"
    by (auto simp: skb3_def)
  define pl where "pl = icv_plain crc32_le body"
  define skb5 where "skb5 = skb4\<lparr>skb_data := hdr @ prefix @ pl\<rparr>"
  have s4: "skb_store (hdr_len + ?n + length body) (icv_bytes crc32_le body) skb4 = Some skb5"
    using t lh by (subst skb_store_at_end [where a = "hdr @ prefix @ body" and b = t])
      (auto simp: pl_def icv_plain_def skb5_def)
  have l5: "skb_load (hdr_len + ?n) (length body + 4) skb5 = Some pl"
    using lh by (intro skb_load_at_end [where a = "hdr @ prefix"]) (auto simp: skb5_def pl_def)
  define skb6 where "skb6 = skb5\<lparr>skb_data := hdr @ prefix @ snd (rc4 key pl)\<rparr>"
  have s6: "skb_store (hdr_len + ?n) (snd (rc4 key pl)) skb5 = Some skb6"
    using lh by (subst skb_store_at_end [where a = "hdr @ prefix" and b = pl])
      (auto simp: skb5_def skb6_def rc4_length)
  show ?thesis
    using p m s3 l3 p4 s4 l5 s6 lb
    by (simp add: rc4_seal_def Let_def pl_def [symmetric] case_prod_beta) (simp add: skb6_def)
qed

text \<open>Every branch of \<open>rc4_open\<close> on a frame \<open>header, prefix, cipher text\<close>.\<close>

lemma rc4_open_frame:
  fixes key :: bytes
  assumes d: "skb_data skb = hdr @ prefix @ c"
    and lc: "4 \<le> length c" and hl: "length hdr = hdr_len" and pn: "length prefix = k"
  defines "p \<equiv> snd (rc4 key c)"
  defines "body \<equiv> take (length c - 4) p"
  shows "\<exists>skb'. rc4_open rc4 crc32_le k key skb hdr_len = Some
     (if fst (rc4 key c) \<noteq> 0 then (Cipher_Failed, skb')
      else if p \<noteq> icv_plain crc32_le body then (Icv_Mismatch, skb')
      else (Opened, skb')) \<and>
     (fst (rc4 key c) = 0 \<and> p = icv_plain crc32_le body \<longrightarrow>
        skb_data skb' = hdr @ body \<and> skb_tailroom skb' = skb_tailroom skb + 4)"
proof -
  obtain n where n: "length c = n + 4" using lc by (metis le_add_diff_inverse2)
  have sl: "skb_len skb = hdr_len + k + n + 4" using d hl pn n by (simp add: skb_len_def)
  have l3: "skb_load (hdr_len + k) (n + 4) skb = Some c"
    using d hl pn n by (intro skb_load_at_end [where a = "hdr @ prefix"]) auto
  have lp: "length p = length c" by (simp add: p_def rc4_length)
  define skb1 where "skb1 = skb\<lparr>skb_data := hdr @ prefix @ p\<rparr>"
  have s: "skb_store (hdr_len + k) p skb = Some skb1"
    using d hl lp pn by (subst skb_store_at_end [where a = "hdr @ prefix" and b = c]) (auto simp: skb1_def)
  define t where "t = drop (length c - 4) p"
  have sp: "p = body @ t" and lt: "length t = 4" and lb: "length body = n"
    using lp n by (auto simp: body_def t_def)
  have l4: "skb_load (hdr_len + k) n skb1 = Some body"
    using hl pn sp lb by (intro skb_load_at [where a = "hdr @ prefix" and c = t]) (auto simp: skb1_def)
  have l5: "skb_load (hdr_len + k + n) 4 skb1 = Some t"
    using hl pn sp lb lt by (intro skb_load_at_end [where a = "hdr @ prefix @ body"]) (auto simp: skb1_def)
  have d1: "skb_data skb1 = hdr @ prefix @ body @ t" by (simp add: skb1_def sp)
  have eq: "p = icv_plain crc32_le body \<longleftrightarrow> icv_bytes crc32_le body = t"
    unfolding sp [symmetric] icv_plain_def using sp by (metis append_eq_append_conv)
  obtain skb2 where m: "skb_move k 0 hdr_len skb1 = Some skb2"
    and f: "skb_data (skb_trim (skb_len (skb_pull k skb2) - 4) (skb_pull k skb2)) = hdr @ body"
      "skb_tailroom (skb_trim (skb_len (skb_pull k skb2) - 4) (skb_pull k skb2)) = skb_tailroom skb + 4"
    using skb_strip [OF d1] pn hl lt by (auto simp: skb1_def skb_tailroom_def)
  show ?thesis
    using l3 s l4 l5 m f
    by (simp add: rc4_open_def sl eq Let_def case_prod_beta p_def [symmetric])
qed

end

end
