(* ===== verification/Arc4.thy ===== *)
theory Arc4
  imports Ciphers "HOL-Library.Multiset"
begin

text \<open>
  \<open>ieee80211/arc4.c\<close>: the ARC4 cipher the driver brings for kernels without one.  The state
  is the 256-byte array and the two indices of \<open>struct arc4_ctx\<close>; indices masked with
  \<open>0xff\<close> in C are \<open>u8\<close> values here, whose addition wraps in the same way.
\<close>

record arc4_ctx =
  arc4_S :: bytes
  arc4_x :: u8
  arc4_y :: u8

text \<open>One round of the key schedule: swap \<open>S[i]\<close> and \<open>S[j]\<close>, advance in the key.\<close>

definition arc4_key_round :: "bytes \<Rightarrow> nat \<Rightarrow> bytes \<times> u8 \<times> nat \<Rightarrow> bytes \<times> u8 \<times> nat" where
  "arc4_key_round in_key i st = (case st of (S, j, k) \<Rightarrow>
     let a = S ! i;
         j = j + in_key ! k + a;
         S = S[i := S ! unat j];
         S = S[unat j := a];
         k = (if Suc k \<ge> length in_key then 0 else Suc k)
     in (S, j, k))"

definition arc4_set_key :: "bytes \<Rightarrow> arc4_ctx" where
  "arc4_set_key in_key =
     (let S = map word_of_nat [0..<256];
          (S, _, _) = fold (arc4_key_round in_key) [0..<256] (S, 0, 0)
      in \<lparr>arc4_S = S, arc4_x = 1, arc4_y = 0\<rparr>)"

definition arc4_crypt :: "arc4_ctx \<Rightarrow> u8 \<Rightarrow> u8 \<times> arc4_ctx" where
  "arc4_crypt ctx inp =
     (let S = arc4_S ctx; x = arc4_x ctx; y = arc4_y ctx;
          a = S ! unat x;
          y = y + a;
          b = S ! unat y;
          S = S[unat x := b];
          S = S[unat y := a];
          x = x + 1
      in (inp XOR S ! unat (a + b), \<lparr>arc4_S = S, arc4_x = x, arc4_y = y\<rparr>))"

text \<open>The cipher API applies \<open>arc4_crypt\<close> to each byte (the block size is 1).\<close>

fun arc4_crypt_bytes :: "arc4_ctx \<Rightarrow> bytes \<Rightarrow> bytes \<times> arc4_ctx" where
  "arc4_crypt_bytes ctx [] = ([], ctx)"
| "arc4_crypt_bytes ctx (b # bs) =
     (let (c, ctx) = arc4_crypt ctx b; (cs, ctx) = arc4_crypt_bytes ctx bs in (c # cs, ctx))"

definition arc4_ecb :: "bytes \<Rightarrow> bytes \<Rightarrow> int \<times> bytes" where
  "arc4_ecb key d = (0, fst (arc4_crypt_bytes (arc4_set_key key) d))"

section \<open>The state is always a permutation of the bytes\<close>

definition arc4_perm :: "bytes \<Rightarrow> bool" where
  "arc4_perm S \<longleftrightarrow> mset S = mset (map word_of_nat [0..<256])"

lemma arc4_perm_length: "arc4_perm S \<Longrightarrow> length S = 256"
  by (metis arc4_perm_def length_map length_upt minus_nat.diff_0 size_mset)

lemma swap_perm: "arc4_perm S \<Longrightarrow> i < 256 \<Longrightarrow> j < 256 \<Longrightarrow> arc4_perm (S[i := S ! j, j := S ! i])"
  using mset_swap [of j S i] arc4_perm_length [of S] by (simp add: arc4_perm_def)

lemma arc4_key_round_perm:
  "\<lbrakk>arc4_perm (fst st); i < 256\<rbrakk> \<Longrightarrow> arc4_perm (fst (arc4_key_round key i st))"
  by (cases st) (auto simp: arc4_key_round_def Let_def swap_perm)

lemma fold_key_round_perm:
  "\<lbrakk>arc4_perm (fst st); \<forall>i \<in> set is. i < 256\<rbrakk> \<Longrightarrow> arc4_perm (fst (fold (arc4_key_round key) is st))"
  by (induction "is" arbitrary: st) (auto simp: arc4_key_round_perm)

lemma arc4_set_key_perm: "arc4_perm (arc4_S (arc4_set_key key))"
proof -
  have "arc4_perm (fst (fold (arc4_key_round key) [0..<256] (map word_of_nat [0..<256], 0, 0)))"
    by (rule fold_key_round_perm) (auto simp: arc4_perm_def)
  then show ?thesis by (auto simp: arc4_set_key_def Let_def split: prod.splits)
qed

lemma arc4_crypt_perm: "arc4_perm (arc4_S ctx) \<Longrightarrow> arc4_perm (arc4_S (snd (arc4_crypt ctx b)))"
  by (simp add: arc4_crypt_def Let_def swap_perm)

lemma arc4_crypt_bytes_perm:
  "arc4_perm (arc4_S ctx) \<Longrightarrow> arc4_perm (arc4_S (snd (arc4_crypt_bytes ctx bs)))"
proof (induction bs arbitrary: ctx)
  case (Cons b bs)
  then show ?case
    using arc4_crypt_perm [of ctx b] by (auto split: prod.splits) (metis snd_conv)
qed simp

section \<open>Encryption and decryption\<close>

text \<open>The state never depends on the data, so the output is the data XOR a key stream.\<close>

lemma arc4_crypt_data: "arc4_crypt ctx b = (b XOR fst (arc4_crypt ctx 0), snd (arc4_crypt ctx 0))"
  by (simp add: arc4_crypt_def Let_def)

fun arc4_keystream :: "arc4_ctx \<Rightarrow> nat \<Rightarrow> bytes" where
  "arc4_keystream ctx 0 = []"
| "arc4_keystream ctx (Suc n) =
     fst (arc4_crypt ctx 0) # arc4_keystream (snd (arc4_crypt ctx 0)) n"

lemma length_arc4_keystream [simp]: "length (arc4_keystream ctx n) = n"
  by (induction n arbitrary: ctx) auto

lemma arc4_crypt_bytes_keystream:
  "fst (arc4_crypt_bytes ctx bs) = xor_bytes bs (arc4_keystream ctx (length bs))"
proof (induction bs arbitrary: ctx)
  case (Cons b bs)
  then show ?case by (simp add: arc4_crypt_data [of ctx b] split: prod.splits) (metis fst_conv)
qed simp

lemma arc4_ecb_xor:
  "arc4_ecb key d = (0, xor_bytes d (arc4_keystream (arc4_set_key key) (length d)))"
  by (simp add: arc4_ecb_def arc4_crypt_bytes_keystream)

interpretation arc4: stream_cipher arc4_ecb
  by unfold_locales (auto simp: arc4_ecb_xor)

text \<open>Running ARC4 twice with the same key gives the data back, and the cipher state stays a
  permutation of the 256 bytes after any number of bytes.\<close>

theorem arc4_involutive:
  "arc4_ecb key (snd (arc4_ecb key d)) = (0, d) \<and>
   arc4_perm (arc4_S (snd (arc4_crypt_bytes (arc4_set_key key) d)))"
  by (simp add: arc4_ecb_xor arc4_crypt_bytes_perm arc4_set_key_perm)

end
