(* ===== verification/Wep.thy ===== *)
theory Wep
  imports Rc4_Frame Arc4
begin

text \<open>
  \<open>ieee80211/ieee80211_crypt_wep.c\<close> (kernel 2.6.24 and later, \<open>JOHN_HWSEC\<close> not defined): the
  WEP context, its initialisation and key operations, and the two MPDU operations.  The
  arguments \<open>rc4\<close> and \<open>crc32_le\<close> stand for the kernel's \<open>ecb(arc4)\<close> and CRC-32.
\<close>

record prism2_wep_data =
  wep_iv :: u32
  wep_key :: bytes
  wep_key_len :: u8
  wep_key_idx :: u8

section \<open>Life cycle\<close>

datatype wep_resource = WepPriv | WepTxTfm | WepRxTfm

text \<open>
  \<open>prism2_wep_init\<close>: which of the three allocations succeed is the environment's choice; the
  result is the context and what is still allocated when the function returns.
\<close>

definition prism2_wep_init ::
  "int \<Rightarrow> (wep_resource \<Rightarrow> bool) \<Rightarrow> u32 \<Rightarrow> prism2_wep_data option \<times> wep_resource set" where
  "prism2_wep_init keyidx ok rnd =
     (if \<not> ok WepPriv then (None, {})
      else let priv = \<lparr>wep_iv = 0, wep_key = replicate 14 0, wep_key_len = 0,
                       wep_key_idx = word_of_int keyidx\<rparr>
      in if \<not> ok WepTxTfm then (None, {WepPriv} - {WepPriv})
      else if \<not> ok WepRxTfm then (None, {WepPriv, WepTxTfm} - {WepTxTfm} - {WepPriv})
      else (Some (priv\<lparr>wep_iv := rnd\<rparr>), {WepPriv, WepTxTfm, WepRxTfm}))"

definition prism2_wep_deinit :: "wep_resource set \<Rightarrow> wep_resource set" where
  "prism2_wep_deinit live = live - {WepTxTfm} - {WepRxTfm} - {WepPriv}"

definition prism2_wep_set_key :: "bytes \<Rightarrow> int \<Rightarrow> prism2_wep_data \<Rightarrow> (int \<times> prism2_wep_data) option" where
  "prism2_wep_set_key key len wep =
     (if len < 0 \<or> len > 13 then Some (- 1, wep)
      else do {
        k \<leftarrow> buf_read 0 (nat len) key;
        k \<leftarrow> buf_write 0 k (wep_key wep);
        Some (0, wep\<lparr>wep_key := k, wep_key_len := word_of_int len\<rparr>)
      })"

text \<open>The key is copied to the caller's buffer, which is returned too.\<close>

definition prism2_wep_get_key :: "bytes \<Rightarrow> int \<Rightarrow> prism2_wep_data \<Rightarrow> (int \<times> bytes) option" where
  "prism2_wep_get_key key len wep =
     (if len < uint (wep_key_len wep) then Some (- 1, key)
      else do {
        k \<leftarrow> buf_read 0 (unat (wep_key_len wep)) (wep_key wep);
        key \<leftarrow> buf_write 0 k key;
        Some (uint (wep_key_len wep), key)
      })"

section \<open>Encryption and decryption\<close>

text \<open>The next IV, skipping those of the form \<open>(KeyByte + 3, 0xff, N)\<close>.\<close>

definition wep_next_iv :: "u32 \<Rightarrow> u8 \<Rightarrow> u32" where
  "wep_next_iv iv key_len =
     (let klen = 3 + unat key_len;
          iv = iv + 1
      in if iv AND 0xff00 = 0xff00
         then let B = unat (drop_bit 16 iv AND 0xff)
              in if B \<ge> 3 \<and> B < klen then iv + 0x0100 else iv
         else iv)"

definition wep_iv_bytes :: "u32 \<Rightarrow> bytes" where
  "wep_iv_bytes iv =
     [ucast (drop_bit 16 iv AND 0xff), ucast (drop_bit 8 iv AND 0xff), ucast (iv AND 0xff)]"

text \<open>The RC4 key: three IV bytes, then the secret, in a 16-byte array.\<close>

definition wep_rc4_key :: "bytes \<Rightarrow> prism2_wep_data \<Rightarrow> bytes option" where
  "wep_rc4_key ivb wep = do {
     k \<leftarrow> buf_read 0 (unat (wep_key_len wep)) (wep_key wep);
     if length ivb + length k \<le> 16 then Some (ivb @ k) else None
   }"

definition prism2_wep_encrypt ::
  "(bytes \<Rightarrow> bytes \<Rightarrow> int \<times> bytes) \<Rightarrow> (u32 \<Rightarrow> bytes \<Rightarrow> u32) \<Rightarrow> sk_buff \<Rightarrow> nat \<Rightarrow> prism2_wep_data \<Rightarrow>
     (int \<times> sk_buff \<times> prism2_wep_data) option" where
  "prism2_wep_encrypt rc4 crc32_le skb hdr_len wep =
     (if skb_headroom skb < 4 \<or> skb_tailroom skb < 4 \<or> skb_len skb < hdr_len
      then Some (- 1, skb, wep)
      else do {
        let wep = wep\<lparr>wep_iv := wep_next_iv (wep_iv wep) (wep_key_len wep)\<rparr>;
        let ivb = wep_iv_bytes (wep_iv wep);
        key \<leftarrow> wep_rc4_key ivb wep;
        (ret, skb) \<leftarrow> rc4_seal rc4 crc32_le (ivb @ [push_bit 6 (wep_key_idx wep)]) key skb hdr_len;
        Some (ret, skb, wep)
      })"

definition prism2_wep_decrypt ::
  "(bytes \<Rightarrow> bytes \<Rightarrow> int \<times> bytes) \<Rightarrow> (u32 \<Rightarrow> bytes \<Rightarrow> u32) \<Rightarrow> sk_buff \<Rightarrow> nat \<Rightarrow> prism2_wep_data \<Rightarrow>
     (int \<times> sk_buff) option" where
  "prism2_wep_decrypt rc4 crc32_le skb hdr_len wep =
     (if skb_len skb < hdr_len + 8 then Some (- 1, skb)
      else do {
        ivb \<leftarrow> skb_load hdr_len 3 skb;
        kb \<leftarrow> buf_byte (hdr_len + 3) (skb_data skb);
        if drop_bit 6 kb \<noteq> wep_key_idx wep then Some (- 1, skb)
        else do {
          key \<leftarrow> wep_rc4_key ivb wep;
          (res, skb) \<leftarrow> rc4_open rc4 crc32_le 4 key skb hdr_len;
          case res of
            Cipher_Failed \<Rightarrow> Some (- 7, skb)
          | Icv_Mismatch \<Rightarrow> Some (- 2, skb)
          | Opened \<Rightarrow> Some (0, skb)
        }
      })"

section \<open>The context invariant\<close>

definition wep_wf :: "prism2_wep_data \<Rightarrow> bool" where
  "wep_wf wep \<longleftrightarrow> length (wep_key wep) = 14 \<and> unat (wep_key_len wep) \<le> 13"

lemma prism2_wep_init_wf: "fst (prism2_wep_init keyidx ok rnd) = Some wep \<Longrightarrow> wep_wf wep"
  by (auto simp: prism2_wep_init_def wep_wf_def Let_def split: if_splits)

lemma unat_of_small_int: "\<lbrakk>0 \<le> i; i \<le> 255\<rbrakk> \<Longrightarrow> unat (word_of_int i :: u8) = nat i"
  by (simp add: unat_eq_nat_uint uint_word_of_int)

lemma prism2_wep_set_key_wf:
  "\<lbrakk>wep_wf wep; prism2_wep_set_key key len wep = Some (r, wep')\<rbrakk> \<Longrightarrow> wep_wf wep'"
  by (auto simp: prism2_wep_set_key_def wep_wf_def unat_of_small_int Option.bind_eq_Some_conv
           dest: buf_write_len split: if_splits)

lemma wep_rc4_key_Some:
  "\<lbrakk>wep_wf wep; length ivb = 3\<rbrakk> \<Longrightarrow>
     wep_rc4_key ivb wep = Some (ivb @ take (unat (wep_key_len wep)) (wep_key wep))"
  by (simp add: wep_wf_def wep_rc4_key_def buf_read_def)

lemma length_wep_iv_bytes [simp]: "length (wep_iv_bytes iv) = 3"
  by (simp add: wep_iv_bytes_def)

context stream_cipher
begin

lemma prism2_wep_encrypt_frame:
  fixes crc32_le :: "u32 \<Rightarrow> bytes \<Rightarrow> u32"
  assumes "wep_wf wep" and "4 \<le> skb_headroom skb" and "4 \<le> skb_tailroom skb"
    and "hdr_len \<le> skb_len skb"
  defines "iv \<equiv> wep_next_iv (wep_iv wep) (wep_key_len wep)"
  defines "key \<equiv> wep_iv_bytes iv @ take (unat (wep_key_len wep)) (wep_key wep)"
  defines "pl \<equiv> icv_plain crc32_le (drop hdr_len (skb_data skb))"
  shows "\<exists>skb'. prism2_wep_encrypt rc4 crc32_le skb hdr_len wep =
      Some (fst (rc4 key pl), skb', wep\<lparr>wep_iv := iv\<rparr>) \<and>
    skb_data skb' = take hdr_len (skb_data skb) @ (wep_iv_bytes iv @ [push_bit 6 (wep_key_idx wep)]) @
      snd (rc4 key pl)"
proof -
  have k: "wep_rc4_key (wep_iv_bytes iv) (wep\<lparr>wep_iv := iv\<rparr>) = Some key"
    using assms(1) by (simp add: wep_rc4_key_Some wep_wf_def key_def)
  from assms(2-4) rc4_seal_frame [where prefix = "wep_iv_bytes iv @ [push_bit 6 (wep_key_idx wep)]" and skb = skb
      and hdr_len = hdr_len and crc32_le = crc32_le and key = key]
  show ?thesis
    by (auto simp: prism2_wep_encrypt_def Let_def iv_def [symmetric] k pl_def)
qed

text \<open>Every branch of decryption on a frame \<open>header, IV, key byte, cipher text\<close>.\<close>

lemma prism2_wep_decrypt_frame:
  assumes wf: "wep_wf wep" and d: "skb_data skb = hdr @ (ivb @ [kb]) @ c"
    and li: "length ivb = 3" and "4 \<le> length c" and hl: "length hdr = hdr_len"
  defines "key \<equiv> ivb @ take (unat (wep_key_len wep)) (wep_key wep)"
  defines "p \<equiv> snd (rc4 key c)"
  defines "body \<equiv> take (length c - 4) p"
  shows "\<exists>skb'. prism2_wep_decrypt rc4 crc32_le skb hdr_len wep = Some
     (if drop_bit 6 kb \<noteq> wep_key_idx wep then (- 1, skb)
      else if fst (rc4 key c) \<noteq> 0 then (- 7, skb')
      else if p \<noteq> icv_plain crc32_le body then (- 2, skb')
      else (0, skb')) \<and>
     (drop_bit 6 kb = wep_key_idx wep \<and> fst (rc4 key c) = 0 \<and> p = icv_plain crc32_le body
        \<longrightarrow> skb_data skb' = hdr @ body \<and> skb_tailroom skb' = skb_tailroom skb + 4)"
proof -
  have l1: "skb_load hdr_len 3 skb = Some ivb"
    using d li hl by (intro skb_load_at [where a = hdr]) auto
  have l2: "buf_byte (hdr_len + 3) (skb_data skb) = Some kb"
    using d li hl buf_byte_append [of "hdr @ ivb" "hdr_len + 3" kb c] by simp
  have k: "wep_rc4_key ivb wep = Some key"
    using wf li by (simp add: wep_rc4_key_Some key_def)
  have "\<not> skb_len skb < hdr_len + 8" using d li hl assms(4) by (simp add: skb_len_def)
  with l1 l2 k rc4_open_frame [OF d assms(4) hl, where k = 4 and key = key and crc32_le = crc32_le] li show ?thesis
    by (auto simp: prism2_wep_decrypt_def p_def body_def)
qed

end

context stream_cipher
begin

lemma prism2_wep_decrypt_encrypted:
  assumes wf: "wep_wf tx" "wep_wf rx"
    and same: "wep_key_len rx = wep_key_len tx" "wep_key_idx rx = wep_key_idx tx"
      "take (unat (wep_key_len tx)) (wep_key rx) = take (unat (wep_key_len tx)) (wep_key tx)"
    and idx: "wep_key_idx tx < 4"
    and room: "4 \<le> skb_headroom skb" "4 \<le> skb_tailroom skb" "hdr_len \<le> skb_len skb"
  shows "\<exists>skb' tx'.
     prism2_wep_encrypt rc4 crc32_le skb hdr_len tx = Some (0, skb', tx') \<and>
     skb_len skb' = skb_len skb + 8 \<and>
     (\<forall>skbr. skb_data skbr = skb_data skb' \<longrightarrow> (\<exists>skb''.
        prism2_wep_decrypt rc4 crc32_le skbr hdr_len rx = Some (0, skb'') \<and> skb_data skb'' = skb_data skb))"
proof -
  define iv where "iv = wep_next_iv (wep_iv tx) (wep_key_len tx)"
  define key where "key = wep_iv_bytes iv @ take (unat (wep_key_len tx)) (wep_key tx)"
  define hdr where "hdr = take hdr_len (skb_data skb)"
  define body where "body = drop hdr_len (skb_data skb)"
  have lh: "length hdr = hdr_len" and d: "skb_data skb = hdr @ body"
    using room by (auto simp: hdr_def body_def skb_len_def)
  have "1 \<le> length key" "length key \<le> 256" using wf by (auto simp: key_def wep_wf_def)
  then obtain out where out: "rc4 key (icv_plain crc32_le body) = (0, out)"
    "length out = length body + 4" "rc4 key out = (0, icv_plain crc32_le body)"
    using rc4_eq [of key "icv_plain crc32_le body"] by auto
  obtain skb' where e: "prism2_wep_encrypt rc4 crc32_le skb hdr_len tx = Some (0, skb', tx\<lparr>wep_iv := iv\<rparr>)"
    and d': "skb_data skb' = hdr @ (wep_iv_bytes iv @ [push_bit 6 (wep_key_idx tx)]) @ out"
    using prism2_wep_encrypt_frame [OF wf(1) room, of crc32_le] out
    by (auto simp: iv_def [symmetric] key_def [symmetric] body_def [symmetric] hdr_def)
  have "skb_len skb' = skb_len skb + 8" using d d' out by (simp add: skb_len_def)
  moreover have "\<exists>skb''. prism2_wep_decrypt rc4 crc32_le skbr hdr_len rx = Some (0, skb'') \<and>
      skb_data skb'' = hdr @ body" if r: "skb_data skbr = skb_data skb'" for skbr
    using prism2_wep_decrypt_frame [OF wf(2) r [unfolded d'] _ _ lh, of crc32_le] out same key_idx_shift [OF idx]
    by (auto simp: key_def [symmetric])
  ultimately show ?thesis using e d by auto
qed

end

section \<open>Properties\<close>

text \<open>C15: WEP encryption followed by WEP decryption gives the original frame back.  For any frame
  with 4 bytes of head room and of tail room, encryption succeeds, lengthens the frame by 8
  bytes, and decryption with the same key, key length and key index returns 0 and the
  original bytes, whatever the CRC function and whatever stream cipher RC4 is.\<close>

theorem wep_roundtrip:
  assumes rc4: "stream_cipher rc4"
    and wf: "wep_wf tx" "wep_wf rx"
    and same: "wep_key_len rx = wep_key_len tx" "wep_key_idx rx = wep_key_idx tx"
      "take (unat (wep_key_len tx)) (wep_key rx) = take (unat (wep_key_len tx)) (wep_key tx)"
    and idx: "wep_key_idx tx < 4"
    and room: "4 \<le> skb_headroom skb" "4 \<le> skb_tailroom skb" "hdr_len \<le> skb_len skb"
  shows "\<exists>skb' tx' skb''.
     prism2_wep_encrypt rc4 crc32_le skb hdr_len tx = Some (0, skb', tx') \<and>
     skb_len skb' = skb_len skb + 8 \<and>
     prism2_wep_decrypt rc4 crc32_le skb' hdr_len rx = Some (0, skb'') \<and>
     skb_data skb'' = skb_data skb"
  using stream_cipher.prism2_wep_decrypt_encrypted [OF assms, of crc32_le] by blast

theorem wep_roundtrip_witness:
  "\<exists>skb' tx' skb''.
     prism2_wep_encrypt arc4_ecb (\<lambda>c d. c + 7) \<lparr>skb_head = [0, 0, 0, 0], skb_data = [1, 2, 3, 4], skb_room = [9, 9, 9, 9]\<rparr> 2
       \<lparr>wep_iv = 5, wep_key = replicate 14 7, wep_key_len = 5, wep_key_idx = 2\<rparr> = Some (0, skb', tx') \<and>
     skb_len skb' = skb_len \<lparr>skb_head = [0, 0, 0, 0], skb_data = [1, 2, 3, 4], skb_room = [9, 9, 9, 9]\<rparr> + 8 \<and>
     prism2_wep_decrypt arc4_ecb (\<lambda>c d. c + 7) skb' 2
       \<lparr>wep_iv = 90, wep_key = replicate 14 7, wep_key_len = 5, wep_key_idx = 2\<rparr> = Some (0, skb'') \<and>
     skb_data skb'' = skb_data \<lparr>skb_head = [0, 0, 0, 0], skb_data = [1, 2, 3, 4], skb_room = [9, 9, 9, 9]\<rparr>"
  by (rule wep_roundtrip [OF arc4.stream_cipher_axioms])
    (simp_all add: wep_wf_def skb_headroom_def skb_tailroom_def skb_len_def)

text \<open>No transmitted IV is of the weak form \<open>(B, 0xff, N)\<close> with \<open>3 \<le> B < klen\<close>.\<close>

theorem wep_iv_avoids_weak:
  "let ivb = wep_iv_bytes (wep_next_iv iv key_len)
   in \<not> (ivb ! 1 = 0xff \<and> 3 \<le> unat (ivb ! 0) \<and> unat (ivb ! 0) < 3 + unat key_len)"
proof -
  let ?v = "iv + 1"
  have u: "unat (ucast (drop_bit n w AND 0xff) :: u8) = unat (drop_bit n w AND 0xff)" for n and w :: u32
    by (simp add: word_and_255 unsigned_ucast_eq unsigned_take_bit_eq)
  have "(ucast (drop_bit 8 w AND 0xff) :: u8) = 0xff \<longleftrightarrow> w AND 0xff00 = 0xff00" for w :: u32
    unfolding and_ff00 using u [of 8 w] by (simp add: word_unat_eq_iff)
  moreover have "?v AND 0xff00 = 0xff00 \<Longrightarrow> (?v + 0x100) AND 0xff00 \<noteq> 0xff00"
    unfolding and_ff00 [of "?v + 0x100"] using and_ff00_add [of ?v] by simp
  ultimately show ?thesis
    by (auto simp: wep_iv_bytes_def wep_next_iv_def Let_def u)
qed

text \<open>A key that \<open>set_key\<close> accepts is the key \<open>get_key\<close> returns, with its length; and the
  context stays well-formed, so that no later operation reads outside the key arrays.\<close>

theorem wep_set_get_key:
  assumes "wep_wf wep" and "length key \<le> 13" and "length key \<le> length buf"
    and "int (length key) \<le> blen"
  shows "\<exists>wep'. prism2_wep_set_key key (int (length key)) wep = Some (0, wep') \<and> wep_wf wep' \<and>
     prism2_wep_get_key buf blen wep' = Some (int (length key), key @ drop (length key) buf)"
proof -
  have u: "unat (word_of_nat (length key) :: u8) = length key" using assms(2) by (simp add: unat_of_nat)
  then have i: "uint (word_of_nat (length key) :: u8) = int (length key)" by (simp add: uint_nat)
  show ?thesis
    using assms
    by (auto simp: prism2_wep_set_key_def prism2_wep_get_key_def wep_wf_def buf_read_def buf_write_def u i)
qed

theorem wep_set_get_key_witness:
  "\<exists>wep'. prism2_wep_set_key [1, 2, 3, 4, 5] (int (length [1 :: u8, 2, 3, 4, 5]))
       \<lparr>wep_iv = 5, wep_key = replicate 14 7, wep_key_len = 0, wep_key_idx = 2\<rparr> = Some (0, wep') \<and>
     wep_wf wep' \<and> prism2_wep_get_key [0, 0, 0, 0, 0, 0] 6 wep' =
       Some (int (length [1 :: u8, 2, 3, 4, 5]), [1, 2, 3, 4, 5] @ drop (length [1 :: u8, 2, 3, 4, 5]) [0, 0, 0, 0, 0, 0])"
  by (rule wep_set_get_key) (simp_all add: wep_wf_def)

section \<open>Memory safety of decryption\<close>

text \<open>On any frame: no access outside, and a frame that is accepted keeps its header.\<close>

lemma prism2_wep_decrypt_safe:
  assumes rc4: "stream_cipher rc4" and "wep_wf wep" and "hdr_len \<le> skb_len skb"
  shows "\<exists>r skb'. prism2_wep_decrypt rc4 crc32_le skb hdr_len wep = Some (r, skb') \<and>
     (0 \<le> r \<longrightarrow> take hdr_len (skb_data skb') = take hdr_len (skb_data skb) \<and> hdr_len \<le> skb_len skb' \<and>
        skb_tailroom skb \<le> skb_tailroom skb')"
proof (cases "skb_len skb < hdr_len + 8")
  case True
  then show ?thesis by (simp add: prism2_wep_decrypt_def)
next
  case False
  define hdr where "hdr = take hdr_len (skb_data skb)"
  have l: "length hdr = hdr_len" "4 \<le> length (drop hdr_len (skb_data skb))"
    using False by (auto simp: hdr_def skb_len_def)
  then obtain a b c d ys where "drop hdr_len (skb_data skb) = a # b # c # d # ys"
    and ys: "length ys = length (drop hdr_len (skb_data skb)) - 4" by (elim length_ge_4E)
  then have "skb_data skb = hdr @ ([a, b, c] @ [d]) @ ys"
    unfolding hdr_def by (metis append_Cons append_Nil append_take_drop_id)
  moreover have "4 \<le> length ys" using ys False by (simp add: skb_len_def)
  ultimately obtain skb' r where o: "prism2_wep_decrypt rc4 crc32_le skb hdr_len wep = Some (r, skb')"
    and k: "r = 0 \<longrightarrow> (\<exists>body. skb_data skb' = hdr @ body) \<and> skb_tailroom skb' = skb_tailroom skb + 4" and "r \<le> 0"
    using stream_cipher.prism2_wep_decrypt_frame [OF rc4 assms(2), of skb hdr "[a, b, c]" d ys hdr_len crc32_le] l(1)
    by (auto split: if_split_asm)
  then have "0 \<le> r \<longrightarrow> r = 0" by simp
  with k l(1) have "0 \<le> r \<longrightarrow> take hdr_len (skb_data skb') = hdr \<and> hdr_len \<le> skb_len skb' \<and> skb_tailroom skb \<le> skb_tailroom skb'"
    by (auto simp: skb_len_def)
  with o show ?thesis by (simp add: hdr_def)
qed

end
