(* ===== verification/Michael.thy ===== *)
theory Michael
  imports Ciphers
begin

text \<open>
  \<open>ieee80211/michael_mic.c\<close>: the keyed digest of TKIP.  The context keeps up to three bytes
  that do not fill a word yet; \<open>michael_update\<close> may be called with pieces of any length, and
  \<open>michael_stream\<close> below shows that only their concatenation matters, which the reference
  digest \<open>michael_spec\<close> (pad, then absorb word by word) makes precise.
\<close>

record michael_mic_ctx =
  mic_pending :: bytes
  mic_pending_len :: nat
  mic_l :: u32
  mic_r :: u32

definition mic_rotl :: "u32 \<Rightarrow> nat \<Rightarrow> u32" where
  "mic_rotl val bits = push_bit bits val OR drop_bit (32 - bits) val"

definition mic_rotr :: "u32 \<Rightarrow> nat \<Rightarrow> u32" where
  "mic_rotr val bits = drop_bit bits val OR push_bit (32 - bits) val"

definition mic_xswap :: "u32 \<Rightarrow> u32" where
  "mic_xswap val = push_bit 8 (val AND 0x00ff00ff) OR drop_bit 8 (val AND 0xff00ff00)"

definition michael_block :: "u32 \<times> u32 \<Rightarrow> u32 \<times> u32" where
  "michael_block lr = (let (l, r) = lr;
     r = r XOR mic_rotl l 17; l = l + r;
     r = r XOR mic_xswap l;   l = l + r;
     r = r XOR mic_rotl l 3;  l = l + r;
     r = r XOR mic_rotr l 2;  l = l + r
   in (l, r))"

text \<open>\<open>ctx->l ^= word; michael_block(ctx->l, ctx->r)\<close>\<close>

definition mic_absorb :: "u32 \<Rightarrow> u32 \<times> u32 \<Rightarrow> u32 \<times> u32" where
  "mic_absorb w lr = michael_block (fst lr XOR w, snd lr)"

text \<open>The loop of \<open>michael_update\<close> over the full words; the rest is returned.\<close>

fun michael_words :: "u32 \<times> u32 \<Rightarrow> bytes \<Rightarrow> (u32 \<times> u32) \<times> bytes" where
  "michael_words lr (a # b # c # d # rest) = michael_words (mic_absorb (get_le32 a b c d) lr) rest"
| "michael_words lr rest = (lr, rest)"

definition mic_le32 :: "bytes \<Rightarrow> u32" where
  "mic_le32 p = get_le32 (p ! 0) (p ! 1) (p ! 2) (p ! 3)"

definition michael_init :: "michael_mic_ctx \<Rightarrow> michael_mic_ctx" where
  "michael_init ctx = ctx\<lparr>mic_pending_len := 0\<rparr>"

definition michael_tail :: "michael_mic_ctx \<Rightarrow> bytes \<Rightarrow> michael_mic_ctx" where
  "michael_tail ctx data =
     (let ((l, r), rest) = michael_words (mic_l ctx, mic_r ctx) data;
          ctx = ctx\<lparr>mic_l := l, mic_r := r\<rparr>
      in if length rest > 0
         then ctx\<lparr>mic_pending_len := length rest,
                  mic_pending := rest @ drop (length rest) (mic_pending ctx)\<rparr>
         else ctx)"

definition michael_update :: "michael_mic_ctx \<Rightarrow> bytes \<Rightarrow> michael_mic_ctx" where
  "michael_update ctx data =
     (if mic_pending_len ctx \<noteq> 0 then
        let flen = 4 - mic_pending_len ctx;
            flen = (if flen > length data then length data else flen);
            ctx = ctx\<lparr>mic_pending := take (mic_pending_len ctx) (mic_pending ctx) @ take flen data @
                        drop (mic_pending_len ctx + flen) (mic_pending ctx),
                      mic_pending_len := mic_pending_len ctx + flen\<rparr>;
            data = drop flen data
        in if mic_pending_len ctx < 4 then ctx
           else let (l, r) = mic_absorb (mic_le32 (mic_pending ctx)) (mic_l ctx, mic_r ctx)
                in michael_tail (ctx\<lparr>mic_l := l, mic_r := r, mic_pending_len := 0\<rparr>) data
      else michael_tail ctx data)"

definition michael_final :: "michael_mic_ctx \<Rightarrow> bytes \<times> michael_mic_ctx" where
  "michael_final ctx =
     (let data = mic_pending ctx;
          b = (\<lambda>i. ucast (data ! i) :: u32);
          w = (if mic_pending_len ctx = 0 then 0x5a
               else if mic_pending_len ctx = 1 then b 0 OR 0x5a00
               else if mic_pending_len ctx = 2 then b 0 OR push_bit 8 (b 1) OR 0x5a0000
               else if mic_pending_len ctx = 3
                    then b 0 OR push_bit 8 (b 1) OR push_bit 16 (b 2) OR 0x5a000000
               else 0);
          (l, r) = michael_block (mic_l ctx XOR w, mic_r ctx);
          (l, r) = michael_block (l, r)
      in (le32 l @ le32 r, ctx\<lparr>mic_l := l, mic_r := r\<rparr>))"

text \<open>\<open>EINVAL\<close> is 22.\<close>

definition michael_setkey :: "bytes \<Rightarrow> michael_mic_ctx \<Rightarrow> int \<times> michael_mic_ctx" where
  "michael_setkey key ctx =
     (if length key \<noteq> 8 then (- 22, ctx)
      else (0, ctx\<lparr>mic_l := mic_le32 key, mic_r := mic_le32 (drop 4 key)\<rparr>))"

definition michael_ctx0 :: michael_mic_ctx where
  "michael_ctx0 = \<lparr>mic_pending = [0, 0, 0, 0], mic_pending_len = 0, mic_l = 0, mic_r = 0\<rparr>"

text \<open>The digest of a message given in pieces, as the callers of the digest API run it.\<close>

definition michael_digest :: "bytes \<Rightarrow> bytes list \<Rightarrow> int \<times> bytes" where
  "michael_digest key pieces =
     (let (st, ctx) = michael_setkey key (michael_init michael_ctx0)
      in if st \<noteq> 0 then (st, replicate 8 0)
         else (0, fst (michael_final (fold (\<lambda>p c. michael_update c p) pieces ctx))))"

section \<open>The reference digest\<close>

text \<open>One byte \<open>0x5a\<close>, then four to seven zero bytes up to a multiple of four.\<close>

definition michael_pad :: "bytes \<Rightarrow> bytes" where
  "michael_pad msg = msg @ 0x5a # replicate (7 - length msg mod 4) 0"

definition michael_spec :: "bytes \<Rightarrow> bytes \<Rightarrow> bytes" where
  "michael_spec key msg =
     (let (l, r) = fst (michael_words (mic_le32 key, mic_le32 (drop 4 key)) (michael_pad msg))
      in le32 l @ le32 r)"

section \<open>Streaming\<close>

lemma michael_words_append:
  "length a mod 4 = 0 \<Longrightarrow> michael_words lr (a @ b) = michael_words (fst (michael_words lr a)) b"
proof (induction lr a rule: michael_words.induct)
  case (1 lr a b c d rest)
  then show ?case by simp
qed auto

lemma michael_words_rest:
  "\<exists>k. snd (michael_words lr msg) = drop (4 * k) msg \<and> 4 * k + length msg mod 4 = length msg"
proof (induction lr msg rule: michael_words.induct)
  case (1 lr a b c d rest)
  then obtain k where k: "snd (michael_words (mic_absorb (get_le32 a b c d) lr) rest) = drop (4 * k) rest"
    "4 * k + length rest mod 4 = length rest" by auto
  moreover have "drop (4 + 4 * k) (a # b # c # d # rest) = drop (4 * k) (drop 4 (a # b # c # d # rest))"
    by (simp only: drop_drop add.commute)
  ultimately show ?case by (intro exI [of _ "Suc k"]) simp
qed auto

lemma michael_words_short: "length xs < 4 \<Longrightarrow> michael_words lr xs = (lr, xs)"
  by (cases "(lr, xs)" rule: michael_words.cases) auto

lemma length_michael_words_rest [simp]:
  "length (snd (michael_words lr msg)) = length msg mod 4"
proof -
  obtain k where "snd (michael_words lr msg) = drop (4 * k) msg"
    and "4 * k + length msg mod 4 = length msg" using michael_words_rest by blast
  then show ?thesis by simp
qed

text \<open>The words absorbed so far and the rest determine how the message goes on.\<close>

lemma michael_words_continue:
  "michael_words lr (msg @ nxt) = michael_words (fst (michael_words lr msg)) (snd (michael_words lr msg) @ nxt)"
proof (induction lr msg rule: michael_words.induct)
  case (1 lr a b c d rest)
  then show ?case by simp
qed auto

text \<open>The context after a message: its full words absorbed, the rest pending.\<close>

definition michael_holds :: "u32 \<times> u32 \<Rightarrow> bytes \<Rightarrow> michael_mic_ctx \<Rightarrow> bool" where
  "michael_holds lr0 msg ctx \<longleftrightarrow>
     (mic_l ctx, mic_r ctx) = fst (michael_words lr0 msg) \<and>
     mic_pending_len ctx = length msg mod 4 \<and> length (mic_pending ctx) = 4 \<and>
     take (mic_pending_len ctx) (mic_pending ctx) = snd (michael_words lr0 msg)"

lemma michael_tail_holds:
  assumes "length msg mod 4 = 0" and "michael_holds lr0 msg ctx"
  shows "michael_holds lr0 (msg @ data) (michael_tail ctx data)"
proof -
  obtain lr rest where w: "michael_words (mic_l ctx, mic_r ctx) data = (lr, rest)" by fastforce
  have e: "michael_words lr0 (msg @ data) = (lr, rest)"
    using assms w michael_words_append [of msg lr0 data] by (auto simp: michael_holds_def)
  have rl: "length rest = length data mod 4"
    using length_michael_words_rest [of "(mic_l ctx, mic_r ctx)" data] w by simp
  have m: "length (msg @ data) mod 4 = length data mod 4"
    using assms(1) by (simp add: mod_add_left_eq [symmetric])
  have z: "mic_pending_len ctx = 0" and "length (mic_pending ctx) = 4"
    using assms by (auto simp: michael_holds_def)
  moreover have "length rest < 4" using rl by simp
  ultimately show ?thesis
    using e rl m w by (cases lr) (auto simp: michael_holds_def michael_tail_def Let_def)
qed

text \<open>The branch that completes the pending word.\<close>

lemma michael_update_fill:
  assumes "mic_pending_len ctx \<noteq> 0" and "4 \<le> mic_pending_len ctx + length data"
    and "mic_pending_len ctx < 4" and "length (mic_pending ctx) = 4"
  defines "f \<equiv> 4 - mic_pending_len ctx"
  defines "pend \<equiv> take (mic_pending_len ctx) (mic_pending ctx) @ take f data"
  defines "lr \<equiv> mic_absorb (mic_le32 pend) (mic_l ctx, mic_r ctx)"
  shows "michael_update ctx data = michael_tail (ctx\<lparr>mic_pending := pend, mic_l := fst lr,
     mic_r := snd lr, mic_pending_len := 0\<rparr>) (drop f data)"
proof -
  have "(if f > length data then length data else f) = f" and "mic_pending_len ctx + f = 4"
    and "drop 4 (mic_pending ctx) = []" using assms(2-4) by (auto simp: f_def)
  then show ?thesis
    using assms(1)
    by (simp only: michael_update_def Let_def f_def [symmetric] if_True if_False append_Nil2 append_assoc [symmetric]
          pend_def [symmetric] not_False_eq_True simp_thms michael_mic_ctx.simps
          case_prod_beta) (simp add: lr_def)
qed

lemma michael_update_holds:
  assumes "michael_holds lr0 msg ctx"
  shows "michael_holds lr0 (msg @ data) (michael_update ctx data)"
proof (cases "mic_pending_len ctx = 0")
  case True
  moreover from this assms have "length msg mod 4 = 0" by (simp add: michael_holds_def)
  ultimately show ?thesis using assms michael_tail_holds by (simp add: michael_update_def)
next
  case False
  let ?p = "mic_pending_len ctx"
  define pend where "pend = take ?p (mic_pending ctx)"
  have p: "?p = length msg mod 4" and l4: "length (mic_pending ctx) = 4"
    and lr: "(mic_l ctx, mic_r ctx) = fst (michael_words lr0 msg)"
    and pe: "pend = snd (michael_words lr0 msg)"
    using assms by (auto simp: michael_holds_def pend_def)
  have p4: "?p < 4" using p by simp
  have pl: "length pend = ?p" using p4 l4 by (simp add: pend_def)
  have cont: "michael_words lr0 (msg @ nxt) = michael_words (mic_l ctx, mic_r ctx) (pend @ nxt)" for nxt
    using michael_words_continue [of lr0 msg nxt] lr pe by simp
  show ?thesis
  proof (cases "?p + length data < 4")
    case True
    have "michael_words lr' (pend @ data) = (lr', pend @ data)" for lr'
      using True pl by (simp add: michael_words_short)
    then have e: "michael_words lr0 (msg @ data) = ((mic_l ctx, mic_r ctx), pend @ data)"
      using cont [of data] by simp
    have "michael_update ctx data = ctx\<lparr>mic_pending := pend @ data @ drop (?p + length data) (mic_pending ctx),
        mic_pending_len := ?p + length data\<rparr>"
      using False True by (auto simp: michael_update_def pend_def Let_def)
    moreover have "(length msg + length data) mod 4 = ?p + length data"
      using True p mod_add_left_eq [of "length msg" 4 "length data"] by simp
    ultimately show ?thesis
      using e True l4 pl by (simp add: michael_holds_def pend_def)
  next
    case big: False
    define f where "f = 4 - ?p"
    define d1 where "d1 = take f data"
    have d1l: "length d1 = f" using big by (simp add: d1_def f_def)
    then have "length (pend @ d1) = 4" using pl p4 by (simp add: f_def)
    then obtain b0 b1 b2 b3 where word: "pend @ d1 = [b0, b1, b2, b3]"
      by (rule length_4E)
    let ?lr = "mic_absorb (get_le32 b0 b1 b2 b3) (mic_l ctx, mic_r ctx)"
    define ctx1 where "ctx1 = ctx\<lparr>mic_pending := pend @ d1,
        mic_l := fst ?lr, mic_r := snd ?lr, mic_pending_len := 0\<rparr>"
    have w4: "mic_le32 (pend @ d1) = get_le32 b0 b1 b2 b3" by (simp add: mic_le32_def word)
    have up: "michael_update ctx data = michael_tail ctx1 (drop f data)"
      using michael_update_fill [OF False] big p4 l4 w4
      by (simp add: ctx1_def pend_def [symmetric] d1_def [symmetric] f_def [symmetric])
    have m0: "length (msg @ d1) mod 4 = 0"
      using d1l p p4 mod_add_left_eq [of "length msg" 4 f] by (simp add: f_def)
    have "michael_holds lr0 (msg @ d1) ctx1"
      using cont [of d1] m0 \<open>length (pend @ d1) = 4\<close> word
      by (simp add: michael_holds_def ctx1_def)
    from michael_tail_holds [OF m0 this, of "drop f data"] show ?thesis
      by (simp add: up d1_def)
  qed
qed

lemma michael_updates_hold:
  "michael_holds lr0 msg ctx \<Longrightarrow>
     michael_holds lr0 (msg @ concat ps) (fold (\<lambda>p c. michael_update c p) ps ctx)"
proof (induction ps arbitrary: msg ctx)
  case (Cons p ps)
  then show ?case using michael_update_holds [of lr0 msg ctx p] by (metis append_assoc concat.simps(2) fold_simps(2))
qed simp

section \<open>The final block\<close>

lemma michael_final_spec:
  assumes "michael_holds lr0 msg ctx"
  shows "fst (michael_final ctx) =
     (let (l, r) = fst (michael_words lr0 (michael_pad msg)) in le32 l @ le32 r)"
proof -
  let ?p = "mic_pending_len ctx" and ?d = "mic_pending ctx"
  have p: "?p = length msg mod 4" and l4: "length ?d = 4"
    and lr: "(mic_l ctx, mic_r ctx) = fst (michael_words lr0 msg)"
    and pe: "take ?p ?d = snd (michael_words lr0 msg)"
    using assms by (auto simp: michael_holds_def)
  from l4 obtain d0 d1 d2 d3 where d: "?d = [d0, d1, d2, d3]"
    by (rule length_4E)
  have z: "replicate 7 (0 :: u8) = [0, 0, 0, 0, 0, 0, 0]" "replicate 6 (0 :: u8) = [0, 0, 0, 0, 0, 0]"
    "replicate 5 (0 :: u8) = [0, 0, 0, 0, 0]" "replicate 4 (0 :: u8) = [0, 0, 0, 0]"
    by (simp_all add: eval_nat_numeral)
  have w: "michael_words lr0 (michael_pad msg) =
      michael_words (mic_l ctx, mic_r ctx) (take ?p ?d @ 0x5a # replicate (7 - ?p) 0)"
    unfolding michael_pad_def p [symmetric]
    by (subst michael_words_continue) (simp add: lr pe)
  have "?p < 4" using p by simp
  then consider "?p = 0" | "?p = 1" | "?p = 2" | "?p = 3" by linarith
  then show ?thesis
    by cases (auto simp add: w michael_final_def d Let_def mic_absorb_def get_le32_def
                 z split: prod.splits)
qed

lemma michael_digest_spec:
  "length key = 8 \<Longrightarrow> michael_digest key pieces = (0, michael_spec key (concat pieces))"
proof -
  assume k: "length key = 8"
  define ctx where "ctx = michael_ctx0\<lparr>mic_l := mic_le32 key, mic_r := mic_le32 (drop 4 key)\<rparr>"
  have "michael_holds (mic_le32 key, mic_le32 (drop 4 key)) [] ctx"
    by (simp add: michael_holds_def ctx_def michael_ctx0_def)
  from michael_updates_hold [OF this, of pieces] show ?thesis
    using k by (simp add: michael_digest_def michael_setkey_def michael_init_def ctx_def michael_ctx0_def
                  michael_final_spec michael_spec_def split: prod.splits)
qed

lemma length_michael_spec [simp]: "length (michael_spec key msg) = 8"
  by (simp add: michael_spec_def split: prod.splits)

definition michael_one :: "bytes \<Rightarrow> bytes \<Rightarrow> int \<times> bytes" where
  "michael_one key d = michael_digest key [d]"

interpretation michael: keyed_digest michael_one
  by unfold_locales (simp_all add: michael_one_def michael_digest_spec length_michael_spec)

text \<open>The digest of a message fed to \<open>michael_update\<close> in pieces of any length is the
  reference digest of their concatenation: the pending bytes are carried over correctly.\<close>

theorem michael_stream:
  "length key = 8 \<Longrightarrow> michael_digest key pieces = (0, michael_spec key (concat pieces))"
  by (rule michael_digest_spec)

theorem michael_stream_witness:
  "michael_digest [1, 2, 3, 4, 5, 6, 7, 8] [[9], [10, 11], [], [12, 13, 14, 15, 16]] =
     (0, michael_spec [1, 2, 3, 4, 5, 6, 7, 8] (concat [[9], [10, 11], [], [12, 13, 14, 15, 16]]))"
  by (rule michael_stream) simp

end
