(* ===== verification/Tkip.thy ===== *)
theory Tkip
  imports Rc4_Frame Frame Arc4 Michael
begin

text \<open>
  \<open>ieee80211/ieee80211_crypt_tkip.c\<close> (kernel 2.6.24 and later, \<open>JOHN_TKIP\<close> not defined): the
  two phases of key mixing with the cached phase 1 keys, the MPDU operations over RC4, the
  MSDU operations with the Michael MIC, and the key operations.  \<open>rc4\<close>, \<open>crc32_le\<close> and \<open>michael\<close>
  stand for the kernel's ciphers; \<open>michael\<close> returns the status of \<open>setkey\<close> or \<open>digest\<close>.  The
  transform handles are live from \<open>ieee80211_tkip_init\<close> to \<open>deinit\<close> and are not in the record.
\<close>

type_synonym ttak = "u16 \<times> u16 \<times> u16 \<times> u16 \<times> u16"

record ieee80211_tkip_data =
  tk_key :: bytes
  tk_key_set :: bool
  tk_tx_iv32 :: u32
  tk_tx_iv16 :: u16
  tk_tx_ttak :: ttak
  tk_tx_phase1_done :: bool
  tk_rx_iv32 :: u32
  tk_rx_iv16 :: u16
  tk_rx_ttak :: ttak
  tk_rx_phase1_done :: bool
  tk_rx_iv32_new :: u32
  tk_rx_iv16_new :: u16
  tk_Replays :: u32
  tk_ICVErrors :: u32
  tk_LocalMICFailures :: u32
  tk_key_idx :: int
  tk_rx_hdr :: bytes
  tk_tx_hdr :: bytes

definition tkip_zero :: ieee80211_tkip_data where
  "tkip_zero = \<lparr>tk_key = replicate 32 0, tk_key_set = False, tk_tx_iv32 = 0, tk_tx_iv16 = 0,
     tk_tx_ttak = (0, 0, 0, 0, 0), tk_tx_phase1_done = False, tk_rx_iv32 = 0, tk_rx_iv16 = 0,
     tk_rx_ttak = (0, 0, 0, 0, 0), tk_rx_phase1_done = False, tk_rx_iv32_new = 0,
     tk_rx_iv16_new = 0, tk_Replays = 0, tk_ICVErrors = 0, tk_LocalMICFailures = 0,
     tk_key_idx = 0, tk_rx_hdr = replicate 16 0, tk_tx_hdr = replicate 16 0\<rparr>"

section \<open>Life cycle\<close>

datatype tkip_resource = TkPriv | TkTxArc4 | TkTxMichael | TkRxArc4 | TkRxMichael

text \<open>
  The allocations in the order of the code, and what each failure frees: the handles that
  were obtained (a handle is \<open>NULL\<close> before its allocation), then the context.
\<close>

definition ieee80211_tkip_init ::
  "int \<Rightarrow> (tkip_resource \<Rightarrow> bool) \<Rightarrow> ieee80211_tkip_data option \<times> tkip_resource set" where
  "ieee80211_tkip_init key_idx ok =
     (if \<not> ok TkPriv then (None, {})
      else if \<not> ok TkTxArc4 then (None, {TkPriv} - {TkPriv})
      else if \<not> ok TkTxMichael then (None, {TkPriv, TkTxArc4} - {TkTxArc4} - {TkPriv})
      else if \<not> ok TkRxArc4 then
        (None, {TkPriv, TkTxArc4, TkTxMichael} - {TkTxMichael} - {TkTxArc4} - {TkPriv})
      else if \<not> ok TkRxMichael then
        (None, {TkPriv, TkTxArc4, TkTxMichael, TkRxArc4} - {TkTxMichael} - {TkTxArc4} - {TkRxArc4} - {TkPriv})
      else (Some (tkip_zero\<lparr>tk_key_idx := key_idx\<rparr>), {TkPriv, TkTxArc4, TkTxMichael, TkRxArc4, TkRxMichael}))"

definition ieee80211_tkip_deinit :: "tkip_resource set \<Rightarrow> tkip_resource set" where
  "ieee80211_tkip_deinit live = live - {TkTxMichael} - {TkTxArc4} - {TkRxMichael} - {TkRxArc4} - {TkPriv}"

section \<open>Key mixing\<close>

definition RotR1 :: "u16 \<Rightarrow> u16" where
  "RotR1 val = drop_bit 1 val OR push_bit 15 val"

definition Lo8 :: "u16 \<Rightarrow> u8" where
  "Lo8 val = ucast (val AND 0xff)"

definition Hi8 :: "u16 \<Rightarrow> u8" where
  "Hi8 val = ucast (drop_bit 8 val)"

definition Lo16 :: "u32 \<Rightarrow> u16" where
  "Lo16 val = ucast (val AND 0xffff)"

definition Hi16 :: "u32 \<Rightarrow> u16" where
  "Hi16 val = ucast (drop_bit 16 val)"

definition Mk16 :: "u8 \<Rightarrow> u8 \<Rightarrow> u16" where
  "Mk16 hi lo = ucast lo OR push_bit 8 (ucast hi)"

text \<open>\<open>Mk16_le((u16 *) &TK[k])\<close>\<close>

definition Mk16_le :: "bytes \<Rightarrow> nat \<Rightarrow> u16" where
  "Mk16_le TK k = get_le16 (TK ! k) (TK ! (k + 1))"

definition Sbox :: "u16 list" where
  "Sbox = [
     0xC6A5, 0xF884, 0xEE99, 0xF68D, 0xFF0D, 0xD6BD, 0xDEB1, 0x9154,
     0x6050, 0x0203, 0xCEA9, 0x567D, 0xE719, 0xB562, 0x4DE6, 0xEC9A,
     0x8F45, 0x1F9D, 0x8940, 0xFA87, 0xEF15, 0xB2EB, 0x8EC9, 0xFB0B,
     0x41EC, 0xB367, 0x5FFD, 0x45EA, 0x23BF, 0x53F7, 0xE496, 0x9B5B,
     0x75C2, 0xE11C, 0x3DAE, 0x4C6A, 0x6C5A, 0x7E41, 0xF502, 0x834F,
     0x685C, 0x51F4, 0xD134, 0xF908, 0xE293, 0xAB73, 0x6253, 0x2A3F,
     0x080C, 0x9552, 0x4665, 0x9D5E, 0x3028, 0x37A1, 0x0A0F, 0x2FB5,
     0x0E09, 0x2436, 0x1B9B, 0xDF3D, 0xCD26, 0x4E69, 0x7FCD, 0xEA9F,
     0x121B, 0x1D9E, 0x5874, 0x342E, 0x362D, 0xDCB2, 0xB4EE, 0x5BFB,
     0xA4F6, 0x764D, 0xB761, 0x7DCE, 0x527B, 0xDD3E, 0x5E71, 0x1397,
     0xA6F5, 0xB968, 0x0000, 0xC12C, 0x4060, 0xE31F, 0x79C8, 0xB6ED,
     0xD4BE, 0x8D46, 0x67D9, 0x724B, 0x94DE, 0x98D4, 0xB0E8, 0x854A,
     0xBB6B, 0xC52A, 0x4FE5, 0xED16, 0x86C5, 0x9AD7, 0x6655, 0x1194,
     0x8ACF, 0xE910, 0x0406, 0xFE81, 0xA0F0, 0x7844, 0x25BA, 0x4BE3,
     0xA2F3, 0x5DFE, 0x80C0, 0x058A, 0x3FAD, 0x21BC, 0x7048, 0xF104,
     0x63DF, 0x77C1, 0xAF75, 0x4263, 0x2030, 0xE51A, 0xFD0E, 0xBF6D,
     0x814C, 0x1814, 0x2635, 0xC32F, 0xBEE1, 0x35A2, 0x88CC, 0x2E39,
     0x9357, 0x55F2, 0xFC82, 0x7A47, 0xC8AC, 0xBAE7, 0x322B, 0xE695,
     0xC0A0, 0x1998, 0x9ED1, 0xA37F, 0x4466, 0x547E, 0x3BAB, 0x0B83,
     0x8CCA, 0xC729, 0x6BD3, 0x283C, 0xA779, 0xBCE2, 0x161D, 0xAD76,
     0xDB3B, 0x6456, 0x744E, 0x141E, 0x92DB, 0x0C0A, 0x486C, 0xB8E4,
     0x9F5D, 0xBD6E, 0x43EF, 0xC4A6, 0x39A8, 0x31A4, 0xD337, 0xF28B,
     0xD532, 0x8B43, 0x6E59, 0xDAB7, 0x018C, 0xB164, 0x9CD2, 0x49E0,
     0xD8B4, 0xACFA, 0xF307, 0xCF25, 0xCAAF, 0xF48E, 0x47E9, 0x1018,
     0x6FD5, 0xF088, 0x4A6F, 0x5C72, 0x3824, 0x57F1, 0x73C7, 0x9751,
     0xCB23, 0xA17C, 0xE89C, 0x3E21, 0x96DD, 0x61DC, 0x0D86, 0x0F85,
     0xE090, 0x7C42, 0x71C4, 0xCCAA, 0x90D8, 0x0605, 0xF701, 0x1C12,
     0xC2A3, 0x6A5F, 0xAEF9, 0x69D0, 0x1791, 0x9958, 0x3A27, 0x27B9,
     0xD938, 0xEB13, 0x2BB3, 0x2233, 0xD2BB, 0xA970, 0x0789, 0x33A7,
     0x2DB6, 0x3C22, 0x1592, 0xC920, 0x8749, 0xAAFF, 0x5078, 0xA57A,
     0x038F, 0x59F8, 0x0980, 0x1A17, 0x65DA, 0xD731, 0x84C6, 0xD0B8,
     0x82C3, 0x29B0, 0x5A77, 0x1E11, 0x7BCB, 0xA8FC, 0x6DD6, 0x2C3A]"

definition tkip_S :: "u16 \<Rightarrow> u16" where
  "tkip_S v = (let t = Sbox ! unat (Hi8 v)
     in Sbox ! unat (Lo8 v) XOR (push_bit 8 t OR drop_bit 8 t))"

definition phase1_round :: "bytes \<Rightarrow> nat \<Rightarrow> ttak \<Rightarrow> ttak" where
  "phase1_round TK i T = (let (t0, t1, t2, t3, t4) = T;
     j = 2 * (i mod 2);
     t0 = t0 + tkip_S (t4 XOR Mk16 (TK ! (1 + j)) (TK ! (0 + j)));
     t1 = t1 + tkip_S (t0 XOR Mk16 (TK ! (5 + j)) (TK ! (4 + j)));
     t2 = t2 + tkip_S (t1 XOR Mk16 (TK ! (9 + j)) (TK ! (8 + j)));
     t3 = t3 + tkip_S (t2 XOR Mk16 (TK ! (13 + j)) (TK ! (12 + j)));
     t4 = t4 + (tkip_S (t3 XOR Mk16 (TK ! (1 + j)) (TK ! (0 + j))) + word_of_nat i)
   in (t0, t1, t2, t3, t4))"

definition tkip_mixing_phase1 :: "bytes \<Rightarrow> bytes \<Rightarrow> u32 \<Rightarrow> ttak" where
  "tkip_mixing_phase1 TK TA IV32 =
     fold (phase1_round TK) [0..<8]
       (Lo16 IV32, Hi16 IV32, Mk16 (TA ! 1) (TA ! 0), Mk16 (TA ! 3) (TA ! 2), Mk16 (TA ! 5) (TA ! 4))"

text \<open>\<open>PPK\<close> overlays \<open>WEPSeed[4..15]\<close>; the host is little endian.\<close>

definition tkip_mixing_phase2 :: "bytes \<Rightarrow> ttak \<Rightarrow> u16 \<Rightarrow> bytes" where
  "tkip_mixing_phase2 TK T IV16 = (let (p0, p1, p2, p3, p4) = T;
     p5 = p4 + IV16;
     p0 = p0 + tkip_S (p5 XOR Mk16_le TK 0);
     p1 = p1 + tkip_S (p0 XOR Mk16_le TK 2);
     p2 = p2 + tkip_S (p1 XOR Mk16_le TK 4);
     p3 = p3 + tkip_S (p2 XOR Mk16_le TK 6);
     p4 = p4 + tkip_S (p3 XOR Mk16_le TK 8);
     p5 = p5 + tkip_S (p4 XOR Mk16_le TK 10);
     p0 = p0 + RotR1 (p5 XOR Mk16_le TK 12);
     p1 = p1 + RotR1 (p0 XOR Mk16_le TK 14);
     p2 = p2 + RotR1 p1;
     p3 = p3 + RotR1 p2;
     p4 = p4 + RotR1 p3;
     p5 = p5 + RotR1 p4
   in [Hi8 IV16, (Hi8 IV16 OR 0x20) AND 0x7F, Lo8 IV16, Lo8 (drop_bit 1 (p5 XOR Mk16_le TK 0))] @
      le16 p0 @ le16 p1 @ le16 p2 @ le16 p3 @ le16 p4 @ le16 p5)"

lemma length_phase2 [simp]: "length (tkip_mixing_phase2 TK T IV16) = 16"
  by (simp add: tkip_mixing_phase2_def Let_def split: prod.splits)

lemma take_3_phase2: "take 3 (tkip_mixing_phase2 TK T IV16) = [Hi8 IV16, (Hi8 IV16 OR 0x20) AND 0x7F, Lo8 IV16]"
  by (simp add: tkip_mixing_phase2_def Let_def numeral_3_eq_3 split: prod.splits)

section \<open>MPDU operations\<close>

text \<open>The phase 1 key is computed when the cache does not hold it.\<close>

definition tkip_tx_phase1 :: "sk_buff \<Rightarrow> ieee80211_tkip_data \<Rightarrow> ieee80211_tkip_data option" where
  "tkip_tx_phase1 skb tkey =
     (if \<not> tk_tx_phase1_done tkey then do {
        TA \<leftarrow> hdr_addr2 (skb_data skb);
        Some (tkey\<lparr>tk_tx_ttak := tkip_mixing_phase1 (tk_key tkey) TA (tk_tx_iv32 tkey),
                   tk_tx_phase1_done := True\<rparr>)
      }
      else Some tkey)"

definition tkip_rx_phase1 :: "sk_buff \<Rightarrow> u32 \<Rightarrow> ieee80211_tkip_data \<Rightarrow> ieee80211_tkip_data option" where
  "tkip_rx_phase1 skb iv32 tkey =
     (if iv32 \<noteq> tk_rx_iv32 tkey \<or> \<not> tk_rx_phase1_done tkey then do {
        TA \<leftarrow> hdr_addr2 (skb_data skb);
        Some (tkey\<lparr>tk_rx_ttak := tkip_mixing_phase1 (tk_key tkey) TA iv32,
                   tk_rx_phase1_done := True\<rparr>)
      }
      else Some tkey)"

definition ieee80211_tkip_encrypt ::
  "(bytes \<Rightarrow> bytes \<Rightarrow> int \<times> bytes) \<Rightarrow> (u32 \<Rightarrow> bytes \<Rightarrow> u32) \<Rightarrow> sk_buff \<Rightarrow> nat \<Rightarrow> ieee80211_tkip_data \<Rightarrow>
     (int \<times> sk_buff \<times> ieee80211_tkip_data) option" where
  "ieee80211_tkip_encrypt rc4 crc32_le skb hdr_len tkey =
     (if skb_headroom skb < 8 \<or> skb_tailroom skb < 4 \<or> skb_len skb < hdr_len
      then Some (- 1, skb, tkey)
      else do {
        tkey \<leftarrow> tkip_tx_phase1 skb tkey;
        let rc4key = tkip_mixing_phase2 (tk_key tkey) (tk_tx_ttak tkey) (tk_tx_iv16 tkey);
        let prefix = take 3 rc4key @ [push_bit 6 (word_of_int (tk_key_idx tkey)) OR 0x20] @
                     le32 (tk_tx_iv32 tkey);
        (ret, skb) \<leftarrow> rc4_seal rc4 crc32_le prefix rc4key skb hdr_len;
        let tkey = tkey\<lparr>tk_tx_iv16 := tk_tx_iv16 tkey + 1\<rparr>;
        let tkey = (if tk_tx_iv16 tkey = 0
                    then tkey\<lparr>tk_tx_phase1_done := False, tk_tx_iv32 := tk_tx_iv32 tkey + 1\<rparr>
                    else tkey);
        Some (ret, skb, tkey)
      })"

definition ieee80211_tkip_decrypt ::
  "(bytes \<Rightarrow> bytes \<Rightarrow> int \<times> bytes) \<Rightarrow> (u32 \<Rightarrow> bytes \<Rightarrow> u32) \<Rightarrow> sk_buff \<Rightarrow> nat \<Rightarrow> ieee80211_tkip_data \<Rightarrow>
     (int \<times> sk_buff \<times> ieee80211_tkip_data) option" where
  "ieee80211_tkip_decrypt rc4 crc32_le skb hdr_len tkey =
     (if skb_len skb < hdr_len + 8 + 4 then Some (- 1, skb, tkey)
      else do {
        pos \<leftarrow> skb_load hdr_len 8 skb;
        let keyidx = pos ! 3;
        if keyidx AND 0x20 = 0 then Some (- 2, skb, tkey)
        else let keyidx = uint (drop_bit 6 keyidx) in
        if tk_key_idx tkey \<noteq> keyidx then Some (- 6, skb, tkey)
        else if \<not> tk_key_set tkey then Some (- 3, skb, tkey)
        else do {
          let iv16 = push_bit 8 (ucast (pos ! 0)) OR ucast (pos ! 2);
          let iv32 = get_le32 (pos ! 4) (pos ! 5) (pos ! 6) (pos ! 7);
          tkey \<leftarrow> tkip_rx_phase1 skb iv32 tkey;
          let rc4key = tkip_mixing_phase2 (tk_key tkey) (tk_rx_ttak tkey) iv16;
          (res, skb) \<leftarrow> rc4_open rc4 crc32_le 8 rc4key skb hdr_len;
          case res of
            Cipher_Failed \<Rightarrow> Some (- 7, skb, tkey)
          | Icv_Mismatch \<Rightarrow>
              let tkey = (if iv32 \<noteq> tk_rx_iv32 tkey then tkey\<lparr>tk_rx_phase1_done := False\<rparr> else tkey)
              in Some (- 5, skb, tkey\<lparr>tk_ICVErrors := tk_ICVErrors tkey + 1\<rparr>)
          | Opened \<Rightarrow>
              Some (keyidx, skb, tkey\<lparr>tk_rx_iv32_new := iv32, tk_rx_iv16_new := iv16\<rparr>)
        }
      })"

section \<open>MSDU operations\<close>

text \<open>The pseudo header of the MIC: destination, source, priority, three reserved bytes.\<close>

definition michael_mic_hdr :: "sk_buff \<Rightarrow> bytes option" where
  "michael_mic_hdr skb = do {
     fcb \<leftarrow> skb_load 0 2 skb;
     let fc = get_le16 (fcb ! 0) (fcb ! 1) AND 0x0300;
     da \<leftarrow> skb_load (if fc = 0x0100 \<or> fc = 0x0300 then 16 else 4) 6 skb;
     sa \<leftarrow> skb_load (if fc = 0x0100 \<or> fc = 0 then 10 else if fc = 0x0200 then 16 else 24) 6 skb;
     Some (da @ sa @ [0, 0, 0, 0])
   }"

text \<open>The status of \<open>michael_mic\<close> and the digest of the pseudo header followed by the data.\<close>

definition michael_mic :: "(bytes \<Rightarrow> bytes \<Rightarrow> int \<times> bytes) \<Rightarrow> bytes \<Rightarrow> bytes \<Rightarrow> bytes \<Rightarrow> int \<times> bytes" where
  "michael_mic michael key hdr data = michael key (hdr @ data)"

definition ieee80211_michael_mic_add ::
  "(bytes \<Rightarrow> bytes \<Rightarrow> int \<times> bytes) \<Rightarrow> sk_buff \<Rightarrow> nat \<Rightarrow> ieee80211_tkip_data \<Rightarrow>
     (int \<times> sk_buff \<times> ieee80211_tkip_data) option" where
  "ieee80211_michael_mic_add michael skb hdr_len tkey =
     (if skb_tailroom skb < 8 \<or> skb_len skb < hdr_len then Some (- 1, skb, tkey)
      else do {
        hdr \<leftarrow> michael_mic_hdr skb;
        let tkey = tkey\<lparr>tk_tx_hdr := hdr\<rparr>;
        let pos = skb_len skb;
        skb \<leftarrow> skb_put 8 skb;
        data \<leftarrow> skb_load hdr_len (skb_len skb - 8 - hdr_len) skb;
        key \<leftarrow> buf_read 16 8 (tk_key tkey);
        let (st, mic) = michael_mic michael key hdr data;
        skb \<leftarrow> skb_store pos mic skb;
        Some (if st \<noteq> 0 then - 1 else 0, skb, tkey)
      })"

text \<open>
  The length passed to the digest is \<open>skb->len - 8 - hdr_len\<close> in unsigned arithmetic, so it
  wraps around when the body is shorter than the MIC.
\<close>

definition mic_data_len :: "nat \<Rightarrow> nat \<Rightarrow> nat" where
  "mic_data_len len hdr_len = unat (word_of_nat len - 8 - word_of_nat hdr_len :: u32)"

definition ieee80211_michael_mic_verify ::
  "(bytes \<Rightarrow> bytes \<Rightarrow> int \<times> bytes) \<Rightarrow> sk_buff \<Rightarrow> nat \<Rightarrow> ieee80211_tkip_data \<Rightarrow>
     (int \<times> sk_buff \<times> ieee80211_tkip_data) option" where
  "ieee80211_michael_mic_verify michael skb hdr_len tkey =
     (if \<not> tk_key_set tkey then Some (- 1, skb, tkey)
      else do {
        hdr \<leftarrow> michael_mic_hdr skb;
        let tkey = tkey\<lparr>tk_rx_hdr := hdr\<rparr>;
        data \<leftarrow> skb_load hdr_len (mic_data_len (skb_len skb) hdr_len) skb;
        key \<leftarrow> buf_read 24 8 (tk_key tkey);
        let (st, mic) = michael_mic michael key hdr data;
        if st \<noteq> 0 then Some (- 1, skb, tkey)
        else do {
          tail \<leftarrow> (if 8 \<le> skb_len skb then skb_load (skb_len skb - 8) 8 skb else None);
          if mic \<noteq> tail
          then Some (- 1, skb, tkey\<lparr>tk_LocalMICFailures := tk_LocalMICFailures tkey + 1\<rparr>)
          else Some (0, skb_trim (skb_len skb - 8) skb,
                 tkey\<lparr>tk_rx_iv32 := tk_rx_iv32_new tkey, tk_rx_iv16 := tk_rx_iv16_new tkey\<rparr>)
        }
      })"

section \<open>Keys\<close>

definition ieee80211_tkip_set_key ::
  "bytes \<Rightarrow> int \<Rightarrow> bytes option \<Rightarrow> ieee80211_tkip_data \<Rightarrow> (int \<times> ieee80211_tkip_data) option" where
  "ieee80211_tkip_set_key key len seq tkey =
     (let tkey = tkip_zero\<lparr>tk_key_idx := tk_key_idx tkey\<rparr>
      in if len = 32 then do {
           k \<leftarrow> buf_read 0 32 key;
           let tkey = tkey\<lparr>tk_key := k, tk_key_set := True, tk_tx_iv16 := 1\<rparr>;
           case seq of
             None \<Rightarrow> Some (0, tkey)
           | Some sq \<Rightarrow> do {
               sq \<leftarrow> buf_read 0 6 sq;
               Some (0, tkey\<lparr>tk_rx_iv32 := get_le32 (sq ! 2) (sq ! 3) (sq ! 4) (sq ! 5),
                             tk_rx_iv16 := get_le16 (sq ! 0) (sq ! 1)\<rparr>)
             }
         }
         else if len = 0 then Some (0, tkey\<lparr>tk_key_set := False\<rparr>)
         else Some (- 1, tkey))"

text \<open>
  The caller's key buffer and, when one is given, its sequence counter buffer are written.
  The locals \<open>iv16\<close> and \<open>iv32\<close> of the code are decremented but never used.
\<close>

definition ieee80211_tkip_get_key ::
  "bytes \<Rightarrow> int \<Rightarrow> bytes option \<Rightarrow> ieee80211_tkip_data \<Rightarrow> (int \<times> bytes \<times> bytes option) option" where
  "ieee80211_tkip_get_key key len seq tkey =
     (if len < 32 then Some (- 1, key, seq)
      else if \<not> tk_key_set tkey then Some (0, key, seq)
      else do {
        k \<leftarrow> buf_read 0 32 (tk_key tkey);
        key \<leftarrow> buf_write 0 k key;
        case seq of
          None \<Rightarrow> Some (32, key, None)
        | Some sq \<Rightarrow> do {
            sq \<leftarrow> buf_write 0 (le16 (tk_tx_iv16 tkey) @ le32 (tk_tx_iv32 tkey)) sq;
            Some (32, key, Some sq)
          }
      })"

section \<open>The phase 1 caches\<close>

text \<open>The transmitter address of a frame.\<close>

definition frame_TA :: "bytes \<Rightarrow> bytes" where
  "frame_TA d = take 6 (drop 10 d)"

lemma hdr_addr2_TA: "16 \<le> length d \<Longrightarrow> hdr_addr2 d = Some (frame_TA d)"
  by (simp add: hdr_addr2_def buf_read_def frame_TA_def)

lemma frame_TA_append: "16 \<le> length h \<Longrightarrow> frame_TA (h @ d) = frame_TA h"
  by (simp add: frame_TA_def)

definition tkip_tx_cache :: "bytes \<Rightarrow> ieee80211_tkip_data \<Rightarrow> bool" where
  "tkip_tx_cache TA tkey \<longleftrightarrow> (tk_tx_phase1_done tkey \<longrightarrow>
     tk_tx_ttak tkey = tkip_mixing_phase1 (tk_key tkey) TA (tk_tx_iv32 tkey))"

definition tkip_rx_cache :: "bytes \<Rightarrow> ieee80211_tkip_data \<Rightarrow> bool" where
  "tkip_rx_cache TA tkey \<longleftrightarrow> (tk_rx_phase1_done tkey \<longrightarrow>
     tk_rx_ttak tkey = tkip_mixing_phase1 (tk_key tkey) TA (tk_rx_iv32 tkey))"

text \<open>The RC4 key and the eight prefix bytes of the frame with the sequence counter \<open>(iv32, iv16)\<close>.\<close>

definition tkip_rc4_key :: "bytes \<Rightarrow> bytes \<Rightarrow> u32 \<Rightarrow> u16 \<Rightarrow> bytes" where
  "tkip_rc4_key TK TA iv32 iv16 = tkip_mixing_phase2 TK (tkip_mixing_phase1 TK TA iv32) iv16"

definition tkip_prefix :: "int \<Rightarrow> u32 \<Rightarrow> u16 \<Rightarrow> bytes" where
  "tkip_prefix idx iv32 iv16 =
     [Hi8 iv16, (Hi8 iv16 OR 0x20) AND 0x7F, Lo8 iv16, push_bit 6 (word_of_int idx) OR 0x20] @ le32 iv32"

lemma length_tkip_rc4_key [simp]: "length (tkip_rc4_key TK TA iv32 iv16) = 16"
  by (simp add: tkip_rc4_key_def)

lemma length_tkip_prefix [simp]: "length (tkip_prefix idx iv32 iv16) = 8"
  by (simp add: tkip_prefix_def)

text \<open>The 48-bit sequence counter of the next frame.\<close>

definition tkip_tsc :: "ieee80211_tkip_data \<Rightarrow> nat" where
  "tkip_tsc tkey = unat (tk_tx_iv32 tkey) * 65536 + unat (tk_tx_iv16 tkey)"

definition tkip_tx_next :: "bytes \<Rightarrow> ieee80211_tkip_data \<Rightarrow> ieee80211_tkip_data" where
  "tkip_tx_next TA tkey =
     (let tkey = tkey\<lparr>tk_tx_ttak := tkip_mixing_phase1 (tk_key tkey) TA (tk_tx_iv32 tkey),
                      tk_tx_phase1_done := True, tk_tx_iv16 := tk_tx_iv16 tkey + 1\<rparr>
      in if tk_tx_iv16 tkey = 0
         then tkey\<lparr>tk_tx_phase1_done := False, tk_tx_iv32 := tk_tx_iv32 tkey + 1\<rparr> else tkey)"

lemma tkip_tx_next_cache: "tkip_tx_cache TA (tkip_tx_next TA tkey)"
  by (simp add: tkip_tx_cache_def tkip_tx_next_def Let_def)

lemma tkip_tx_next_tsc: "tkip_tsc (tkip_tx_next TA tkey) = (tkip_tsc tkey + 1) mod 2 ^ 48"
proof -
  have l32: "unat (tk_tx_iv32 tkey) < 4294967296" by (rule unat_u32_less)
  have "unat (tk_tx_iv16 tkey) < 2 ^ LENGTH(16)" by (rule unsigned_less)
  then have l16: "unat (tk_tx_iv16 tkey) < 65536" by simp
  have w: "tk_tx_iv16 tkey + 1 = 0 \<longleftrightarrow> unat (tk_tx_iv16 tkey) = 65535"
    using l16 by (auto simp: word_unat_eq_iff unat_word_ariths mod_Suc)
  have s16: "unat (tk_tx_iv16 tkey + 1) = (unat (tk_tx_iv16 tkey) + 1) mod 65536"
    by (simp add: unat_word_ariths)
  have s32: "unat (tk_tx_iv32 tkey + 1) = (unat (tk_tx_iv32 tkey) + 1) mod 4294967296"
    by (simp add: unat_word_ariths)
  show ?thesis
    using l32 l16 s16 s32 w
    by (auto simp: tkip_tsc_def tkip_tx_next_def Let_def mod_Suc mod_if)
qed

context stream_cipher
begin

lemma tkip_encrypt_frame:
  fixes crc32_le :: "u32 \<Rightarrow> bytes \<Rightarrow> u32"
  assumes "8 \<le> skb_headroom skb" and "4 \<le> skb_tailroom skb" and "hdr_len \<le> skb_len skb"
    and "16 \<le> hdr_len" and "tkip_tx_cache (frame_TA (skb_data skb)) tkey"
  defines "key \<equiv> tkip_rc4_key (tk_key tkey) (frame_TA (skb_data skb)) (tk_tx_iv32 tkey) (tk_tx_iv16 tkey)"
  defines "pl \<equiv> icv_plain crc32_le (drop hdr_len (skb_data skb))"
  shows "\<exists>skb'. ieee80211_tkip_encrypt rc4 crc32_le skb hdr_len tkey =
      Some (fst (rc4 key pl), skb', tkip_tx_next (frame_TA (skb_data skb)) tkey) \<and>
    skb_data skb' = take hdr_len (skb_data skb) @
      tkip_prefix (tk_key_idx tkey) (tk_tx_iv32 tkey) (tk_tx_iv16 tkey) @ snd (rc4 key pl)"
proof -
  let ?TA = "frame_TA (skb_data skb)"
  have TA: "hdr_addr2 (skb_data skb) = Some ?TA"
    using assms(3,4) by (intro hdr_addr2_TA) (simp add: skb_len_def)
  define tkey1 where "tkey1 = tkey\<lparr>tk_tx_ttak := tkip_mixing_phase1 (tk_key tkey) ?TA (tk_tx_iv32 tkey),
      tk_tx_phase1_done := True\<rparr>"
  have k: "tkip_tx_phase1 skb tkey = Some tkey1"
    using assms(5) TA by (auto simp: tkip_tx_phase1_def tkey1_def tkip_tx_cache_def)
  have key: "tkip_mixing_phase2 (tk_key tkey1) (tk_tx_ttak tkey1) (tk_tx_iv16 tkey1) = key"
    by (simp add: tkey1_def key_def tkip_rc4_key_def)
  have pre: "take 3 key @ [push_bit 6 (word_of_int (tk_key_idx tkey1)) OR 0x20] @ le32 (tk_tx_iv32 tkey1) =
      tkip_prefix (tk_key_idx tkey) (tk_tx_iv32 tkey) (tk_tx_iv16 tkey)"
    by (simp add: key_def tkip_rc4_key_def take_3_phase2 tkip_prefix_def tkey1_def)
  have next_key: "tkip_tx_next ?TA tkey = (let tkey = tkey1\<lparr>tk_tx_iv16 := tk_tx_iv16 tkey1 + 1\<rparr>
      in if tk_tx_iv16 tkey = 0
         then tkey\<lparr>tk_tx_phase1_done := False, tk_tx_iv32 := tk_tx_iv32 tkey + 1\<rparr> else tkey)"
    by (simp add: tkip_tx_next_def tkey1_def)
  obtain skb' where "rc4_seal rc4 crc32_le (tkip_prefix (tk_key_idx tkey) (tk_tx_iv32 tkey) (tk_tx_iv16 tkey)) key
      skb hdr_len = Some (fst (rc4 key pl), skb')"
    and "skb_data skb' = take hdr_len (skb_data skb) @
      tkip_prefix (tk_key_idx tkey) (tk_tx_iv32 tkey) (tk_tx_iv16 tkey) @ snd (rc4 key pl)"
    using rc4_seal_frame [where prefix = "tkip_prefix (tk_key_idx tkey) (tk_tx_iv32 tkey) (tk_tx_iv16 tkey)"
        and skb = skb and hdr_len = hdr_len and crc32_le = crc32_le and key = key] assms(1-3)
    by (auto simp: pl_def)
  then show ?thesis
    using assms(1-3) unfolding ieee80211_tkip_encrypt_def k next_key
    by (simp add: Let_def key pre del: append_Cons append_Nil)
qed

end

text \<open>Only the temporal key, the first 16 bytes, is mixed.\<close>

lemma phase1_round_temporal: "phase1_round (take 16 TK) = phase1_round TK"
proof
  fix i :: nat
  have "i mod 2 < 2" by simp
  then show "phase1_round (take 16 TK) i = phase1_round TK i" by (simp add: phase1_round_def fun_eq_iff)
qed

lemma Mk16_le_temporal:
  "Mk16_le (take 16 TK) 0 = Mk16_le TK 0" "Mk16_le (take 16 TK) 2 = Mk16_le TK 2"
  "Mk16_le (take 16 TK) 4 = Mk16_le TK 4" "Mk16_le (take 16 TK) 6 = Mk16_le TK 6"
  "Mk16_le (take 16 TK) 8 = Mk16_le TK 8" "Mk16_le (take 16 TK) 10 = Mk16_le TK 10"
  "Mk16_le (take 16 TK) 12 = Mk16_le TK 12" "Mk16_le (take 16 TK) 14 = Mk16_le TK 14"
  by (simp_all add: Mk16_le_def)

lemma tkip_rc4_key_temporal:
  assumes "take 16 TK = take 16 TK'"
  shows "tkip_rc4_key TK = tkip_rc4_key TK'"
proof -
  have p1: "tkip_mixing_phase1 (take 16 K) = tkip_mixing_phase1 K" for K
    by (simp add: fun_eq_iff tkip_mixing_phase1_def phase1_round_temporal)
  have p2: "tkip_mixing_phase2 (take 16 K) = tkip_mixing_phase2 K" for K
    by (intro ext) (simp only: tkip_mixing_phase2_def Mk16_le_temporal)
  show ?thesis by (intro ext, unfold tkip_rc4_key_def) (metis assms p1 p2)
qed

lemma Hi8_Lo8: "push_bit 8 (ucast (Hi8 v)) OR ucast (Lo8 v) = v"
  by (rule bit_word_eqI) (auto simp: Hi8_def Lo8_def word_and_255 bit_simps)

lemma nth_tkip_prefix:
  "tkip_prefix idx iv32 iv16 ! 0 = Hi8 iv16" "tkip_prefix idx iv32 iv16 ! 2 = Lo8 iv16"
  "tkip_prefix idx iv32 iv16 ! 3 = push_bit 6 (word_of_int idx) OR 0x20"
  "get_le32 (tkip_prefix idx iv32 iv16 ! 4) (tkip_prefix idx iv32 iv16 ! 5)
     (tkip_prefix idx iv32 iv16 ! 6) (tkip_prefix idx iv32 iv16 ! 7) = iv32"
  by (simp_all add: tkip_prefix_def le32_def get_le32_bytes)

text \<open>The receive context once the phase 1 key of the frame is in the cache.\<close>

definition tkip_rx_mixed :: "bytes \<Rightarrow> u32 \<Rightarrow> ieee80211_tkip_data \<Rightarrow> ieee80211_tkip_data" where
  "tkip_rx_mixed TA iv32 tkey =
     tkey\<lparr>tk_rx_ttak := tkip_mixing_phase1 (tk_key tkey) TA iv32, tk_rx_phase1_done := True\<rparr>"

context stream_cipher
begin

lemma tkip_decrypt_frame:
  assumes d: "skb_data skb = hdr @ tkip_prefix idx iv32 iv16 @ c" and hl: "length hdr = hdr_len"
    and "16 \<le> hdr_len" and lc: "4 \<le> length c" and idx: "0 \<le> idx" "idx < 4" "tk_key_idx tkey = idx"
    and ks: "tk_key_set tkey" and ca: "tkip_rx_cache (frame_TA hdr) tkey"
  defines "key \<equiv> tkip_rc4_key (tk_key tkey) (frame_TA hdr) iv32 iv16"
  defines "p \<equiv> snd (rc4 key c)"
  defines "body \<equiv> take (length c - 4) p"
  defines "tkey1 \<equiv> tkip_rx_mixed (frame_TA hdr) iv32 tkey"
  shows "\<exists>skb'. ieee80211_tkip_decrypt rc4 crc32_le skb hdr_len tkey = Some
     (if fst (rc4 key c) \<noteq> 0 then (- 7, skb', tkey1)
      else if p \<noteq> icv_plain crc32_le body
      then (- 5, skb', (if iv32 \<noteq> tk_rx_iv32 tkey then tkey1\<lparr>tk_rx_phase1_done := False\<rparr> else tkey1)
                         \<lparr>tk_ICVErrors := tk_ICVErrors tkey + 1\<rparr>)
      else (idx, skb', tkey1\<lparr>tk_rx_iv32_new := iv32, tk_rx_iv16_new := iv16\<rparr>)) \<and>
     (fst (rc4 key c) = 0 \<and> p = icv_plain crc32_le body \<longrightarrow> skb_data skb' = hdr @ body)"
proof -
  have TA: "hdr_addr2 (skb_data skb) = Some (frame_TA hdr)"
    using d hl assms(3) by (simp add: hdr_addr2_TA frame_TA_append)
  have len: "\<not> skb_len skb < hdr_len + 8 + 4" using d hl lc by (simp add: skb_len_def)
  have ld: "skb_load hdr_len 8 skb = Some (tkip_prefix idx iv32 iv16)"
    using d hl by (intro skb_load_at [where a = hdr]) auto
  have m: "tkip_rx_phase1 skb iv32 tkey = Some tkey1"
    using TA ca by (auto simp: tkip_rx_phase1_def tkey1_def tkip_rx_mixed_def tkip_rx_cache_def)
  have k: "tkip_mixing_phase2 (tk_key tkey1) (tk_rx_ttak tkey1) iv16 = key"
    by (simp add: tkey1_def tkip_rx_mixed_def key_def tkip_rc4_key_def)
  have r: "tk_rx_iv32 tkey1 = tk_rx_iv32 tkey" "tk_ICVErrors tkey1 = tk_ICVErrors tkey"
    by (simp_all add: tkey1_def tkip_rx_mixed_def)
  obtain skb' where o: "rc4_open rc4 crc32_le 8 key skb hdr_len = Some
     (if fst (rc4 key c) \<noteq> 0 then (Cipher_Failed, skb')
      else if p \<noteq> icv_plain crc32_le body then (Icv_Mismatch, skb') else (Opened, skb'))"
    and f: "fst (rc4 key c) = 0 \<and> p = icv_plain crc32_le body \<longrightarrow> skb_data skb' = hdr @ body"
    using rc4_open_frame [OF d lc hl, where k = 8 and key = key and crc32_le = crc32_le]
    unfolding p_def body_def using length_tkip_prefix by blast
  show ?thesis
    using len ld m k o f r
    by (intro exI [of _ skb'])
      (auto simp: ieee80211_tkip_decrypt_def nth_tkip_prefix ext_iv_key_byte idx ks Hi8_Lo8 Let_def)
qed

lemma tkip_mpdu_roundtrip:
  assumes room: "8 \<le> skb_headroom skb" "4 \<le> skb_tailroom skb" "hdr_len \<le> skb_len skb" "16 \<le> hdr_len"
    and keys: "take 16 (tk_key rx) = take 16 (tk_key tx)" "tk_key_idx rx = tk_key_idx tx" "tk_key_set rx"
    and idx: "0 \<le> tk_key_idx tx" "tk_key_idx tx < 4"
    and ca: "tkip_tx_cache (frame_TA (skb_data skb)) tx" "tkip_rx_cache (frame_TA (skb_data skb)) rx"
  shows "\<exists>skb'.
     ieee80211_tkip_encrypt rc4 crc32_le skb hdr_len tx = Some (0, skb', tkip_tx_next (frame_TA (skb_data skb)) tx) \<and>
     (\<forall>skbr. skb_data skbr = skb_data skb' \<longrightarrow> (\<exists>skb''.
       ieee80211_tkip_decrypt rc4 crc32_le skbr hdr_len rx = Some (tk_key_idx tx, skb'',
         (tkip_rx_mixed (frame_TA (skb_data skb)) (tk_tx_iv32 tx) rx)
            \<lparr>tk_rx_iv32_new := tk_tx_iv32 tx, tk_rx_iv16_new := tk_tx_iv16 tx\<rparr>) \<and>
       skb_data skb'' = skb_data skb))"
proof -
  define hdr where "hdr = take hdr_len (skb_data skb)"
  define body where "body = drop hdr_len (skb_data skb)"
  have lh: "length hdr = hdr_len" and d: "skb_data skb = hdr @ body"
    using room by (auto simp: hdr_def body_def skb_len_def)
  have TA: "frame_TA (skb_data skb) = frame_TA hdr" using lh room(4) by (simp add: d frame_TA_append)
  define key where "key = tkip_rc4_key (tk_key tx) (frame_TA hdr) (tk_tx_iv32 tx) (tk_tx_iv16 tx)"
  have "1 \<le> length key" "length key \<le> 256" by (simp_all add: key_def)
  then obtain out where out: "rc4 key (icv_plain crc32_le body) = (0, out)"
    "length out = length body + 4" "rc4 key out = (0, icv_plain crc32_le body)"
    using rc4_eq [of key "icv_plain crc32_le body"] by auto
  obtain skb' where e: "ieee80211_tkip_encrypt rc4 crc32_le skb hdr_len tx = Some (0, skb', tkip_tx_next (frame_TA hdr) tx)"
    and d': "skb_data skb' = hdr @ tkip_prefix (tk_key_idx tx) (tk_tx_iv32 tx) (tk_tx_iv16 tx) @ out"
    using tkip_encrypt_frame [OF room ca(1), of crc32_le] out
    by (auto simp: key_def [symmetric] body_def [symmetric] hdr_def [symmetric] TA)
  have "4 \<le> length out" using out by simp
  have "\<exists>skb''. ieee80211_tkip_decrypt rc4 crc32_le skbr hdr_len rx = Some (tk_key_idx tx, skb'',
         (tkip_rx_mixed (frame_TA (skb_data skb)) (tk_tx_iv32 tx) rx)
            \<lparr>tk_rx_iv32_new := tk_tx_iv32 tx, tk_rx_iv16_new := tk_tx_iv16 tx\<rparr>) \<and>
       skb_data skb'' = skb_data skb" if r: "skb_data skbr = skb_data skb'" for skbr
    using tkip_decrypt_frame [OF r [unfolded d'] lh room(4) \<open>4 \<le> length out\<close> idx keys(2,3), of crc32_le] ca(2) out d TA
    by (auto simp: keys tkip_rc4_key_temporal [OF keys(1)] key_def [symmetric])
  then show ?thesis using e TA by auto
qed

end


section \<open>The MIC\<close>

text \<open>The header carries every address the pseudo header needs.\<close>

definition mic_hdr_of :: "bytes \<Rightarrow> bytes option" where
  "mic_hdr_of d = michael_mic_hdr \<lparr>skb_head = [], skb_data = d, skb_room = []\<rparr>"

lemma michael_mic_hdr_prefix:
  "\<lbrakk>mic_hdr_of hdr = Some h; skb_data skb = hdr @ d\<rbrakk> \<Longrightarrow> michael_mic_hdr skb = Some h"
  by (auto simp: mic_hdr_of_def michael_mic_hdr_def skb_load_def Let_def buf_read_prefix
           Option.bind_eq_Some_conv)

context keyed_digest
begin

lemma mic_add_frame:
  assumes "8 \<le> skb_tailroom skb" and d: "skb_data skb = hdr @ body" and hl: "length hdr = hdr_len"
    and h: "mic_hdr_of hdr = Some h" and kl: "length (tk_key tkey) = 32"
  defines "mic \<equiv> snd (michael (take 8 (drop 16 (tk_key tkey))) (h @ body))"
  shows "\<exists>skb'. ieee80211_michael_mic_add michael skb hdr_len tkey =
      Some (0, skb', tkey\<lparr>tk_tx_hdr := h\<rparr>) \<and> skb_data skb' = hdr @ body @ mic \<and>
      skb_head skb' = skb_head skb \<and> skb_tailroom skb' + 8 = skb_tailroom skb"
proof -
  obtain skb1 where p: "skb_put 8 skb = Some skb1" using assms(1) by (auto dest: skb_put_Some)
  from skb_put_window [OF p] d obtain t where t: "length t = 8" "skb_data skb1 = (hdr @ body) @ t"
    "skb_head skb1 = skb_head skb" "skb_room skb = t @ skb_room skb1" by auto
  have l: "skb_load hdr_len (length body) skb1 = Some body"
    using t hl by (intro skb_load_at [where a = hdr and c = t]) auto
  have k: "length (take 8 (drop 16 (tk_key tkey))) = 8" using kl by simp
  have s: "skb_store (hdr_len + length body) mic skb1 = Some (skb1\<lparr>skb_data := (hdr @ body) @ mic\<rparr>)"
    using t hl michael_length [OF k] by (intro skb_store_at_end [OF t(2)]) (auto simp: mic_def)
  have len: "skb_len skb = hdr_len + length body" "skb_len skb1 - 8 - hdr_len = length body"
    using d t hl by (simp_all add: skb_len_def)
  show ?thesis
    using assms(1) h d kl p l s t michael_status [OF k] len
    by (simp add: ieee80211_michael_mic_add_def michael_mic_hdr_prefix [OF h d] Let_def case_prod_beta
          michael_mic_def buf_read_def mic_def [symmetric] skb_tailroom_def)
qed

lemma mic_data_len_fits: "hdr_len + n + 8 < 2 ^ 32 \<Longrightarrow> mic_data_len (hdr_len + n + 8) hdr_len = n"
proof -
  assume a: "hdr_len + n + 8 < 2 ^ 32"
  have "word_of_nat (hdr_len + n + 8) - 8 - word_of_nat hdr_len = (word_of_nat n :: u32)"
    by (simp add: algebra_simps)
  then show ?thesis using a by (simp add: mic_data_len_def unat_of_nat)
qed

lemma mic_verify_frame:
  assumes d: "skb_data skb = hdr @ body @ t" and hl: "length hdr = hdr_len" and lt: "length t = 8"
    and h: "mic_hdr_of hdr = Some h" and kl: "length (tk_key tkey) = 32" and ks: "tk_key_set tkey"
    and len: "skb_len skb < 2 ^ 32"
  defines "mic \<equiv> snd (michael (take 8 (drop 24 (tk_key tkey))) (h @ body))"
  shows "\<exists>skb'. ieee80211_michael_mic_verify michael skb hdr_len tkey = Some
     (if mic \<noteq> t
      then (- 1, skb, tkey\<lparr>tk_rx_hdr := h, tk_LocalMICFailures := tk_LocalMICFailures tkey + 1\<rparr>)
      else (0, skb', tkey\<lparr>tk_rx_hdr := h, tk_rx_iv32 := tk_rx_iv32_new tkey, tk_rx_iv16 := tk_rx_iv16_new tkey\<rparr>)) \<and>
     skb_data skb' = hdr @ body"
proof -
  have sl: "skb_len skb = hdr_len + length body + 8" using d hl lt by (simp add: skb_len_def)
  then have dl: "mic_data_len (skb_len skb) hdr_len = length body" using len by (simp only: mic_data_len_fits)
  have l: "skb_load hdr_len (length body) skb = Some body"
    using d hl by (intro skb_load_at [where a = hdr and c = t]) auto
  have lt': "skb_load (skb_len skb - 8) 8 skb = Some t"
    using d hl lt sl by (intro skb_load_at_end [where a = "hdr @ body"]) auto
  have k: "length (take 8 (drop 24 (tk_key tkey))) = 8" using kl by simp
  have "skb_data (skb_trim (skb_len skb - 8) skb) = hdr @ body"
    using d hl sl by (subst skb_trim_append [where d = "hdr @ body" and t = t]) auto
  then show ?thesis
    using ks kl l lt' dl sl michael_status [OF k]
    by (intro exI [of _ "skb_trim (skb_len skb - 8) skb"]) (simp add: ieee80211_michael_mic_verify_def michael_mic_hdr_prefix [OF h d] Let_def case_prod_beta
          michael_mic_def buf_read_def mic_def)
qed

end

section \<open>Properties\<close>

text \<open>A TKIP context is either completely allocated or completely released: a failed
  \<open>ieee80211_tkip_init\<close> leaves nothing allocated, and \<open>deinit\<close> releases all a successful one
  obtained.\<close>

theorem tkip_init_no_leak:
  "let (ctx, live) = ieee80211_tkip_init key_idx ok
   in (ctx = None \<longrightarrow> live = {}) \<and> (ctx \<noteq> None \<longleftrightarrow> (\<forall>r. ok r)) \<and> ieee80211_tkip_deinit live = {}"
proof -
  have "(\<forall>r. ok r) \<longleftrightarrow> ok TkPriv \<and> ok TkTxArc4 \<and> ok TkTxMichael \<and> ok TkRxArc4 \<and> ok TkRxMichael"
    using tkip_resource.exhaust by metis
  then show ?thesis by (auto simp: ieee80211_tkip_init_def ieee80211_tkip_deinit_def)
qed

theorem tkip_init_no_leak_witness:
  "let (ctx, live) = ieee80211_tkip_init 2 (\<lambda>r. r \<noteq> TkRxArc4)
   in (ctx = None \<longrightarrow> live = {}) \<and> (ctx \<noteq> None \<longleftrightarrow> (\<forall>r. r \<noteq> TkRxArc4)) \<and> ieee80211_tkip_deinit live = {}"
  by (rule tkip_init_no_leak)

text \<open>C14: Every encrypted MPDU advances the 48-bit sequence counter by one (modulo \<open>2^48\<close>), so no
  counter value is used for two frames before the counter wraps, and keeps the cached phase 1
  key the one of the current \<open>tx_iv32\<close>.\<close>

theorem tkip_tx_counter:
  assumes "stream_cipher rc4" and "8 \<le> skb_headroom skb" and "4 \<le> skb_tailroom skb"
    and "hdr_len \<le> skb_len skb" and "16 \<le> hdr_len" and "tkip_tx_cache (frame_TA (skb_data skb)) tx"
  shows "\<exists>r skb' tx'. ieee80211_tkip_encrypt rc4 crc32_le skb hdr_len tx = Some (r, skb', tx') \<and>
     tkip_tsc tx' = (tkip_tsc tx + 1) mod 2 ^ 48 \<and> tkip_tx_cache (frame_TA (skb_data skb)) tx'"
  using stream_cipher.tkip_encrypt_frame [OF assms, of crc32_le] tkip_tx_next_tsc tkip_tx_next_cache
  by blast

theorem tkip_tx_counter_witness:
  "\<exists>r skb' tx'. ieee80211_tkip_encrypt arc4_ecb (\<lambda>c d. c) \<lparr>skb_head = replicate 8 0, skb_data = replicate 30 1, skb_room = replicate 4 0\<rparr>
       24 (tkip_zero\<lparr>tk_tx_iv16 := 0xffff, tk_tx_iv32 := 7\<rparr>) = Some (r, skb', tx') \<and>
     tkip_tsc tx' = (tkip_tsc (tkip_zero\<lparr>tk_tx_iv16 := 0xffff, tk_tx_iv32 := 7\<rparr>) + 1) mod 2 ^ 48 \<and>
     tkip_tx_cache (frame_TA (skb_data \<lparr>skb_head = replicate 8 0, skb_data = replicate 30 1, skb_room = replicate 4 0\<rparr>)) tx'"
  by (rule tkip_tx_counter [OF arc4.stream_cipher_axioms])
    (simp_all add: skb_headroom_def skb_tailroom_def skb_len_def tkip_tx_cache_def tkip_zero_def)

text \<open>The whole path, with the shape of the sealed frame.\<close>

lemma tkip_msdu_path:
  assumes rc4: "stream_cipher rc4" and mich: "keyed_digest michael"
    and room: "8 \<le> skb_headroom skb" "12 \<le> skb_tailroom skb" and d: "skb_data skb = hdr @ body"
    and len: "16 \<le> length hdr" "length hdr + length body + 8 < 2 ^ 32" and h: "mic_hdr_of hdr = Some h"
    and keys: "length (tk_key tx) = 32" "length (tk_key rx) = 32" "take 16 (tk_key rx) = take 16 (tk_key tx)"
      "take 8 (drop 24 (tk_key rx)) = take 8 (drop 16 (tk_key tx))"
    and idx: "tk_key_idx rx = tk_key_idx tx" "0 \<le> tk_key_idx tx" "tk_key_idx tx < 4" "tk_key_set rx"
    and ca: "tkip_tx_cache (frame_TA hdr) tx" "tkip_rx_cache (frame_TA hdr) rx"
  shows "\<exists>skb1 tx1 skb2 tx2.
     ieee80211_michael_mic_add michael skb (length hdr) tx = Some (0, skb1, tx1) \<and>
     ieee80211_tkip_encrypt rc4 crc32_le skb1 (length hdr) tx1 = Some (0, skb2, tx2) \<and>
     (\<forall>skbr. skb_data skbr = skb_data skb2 \<longrightarrow> (\<exists>skb3 rx3 skb4 rx4.
       ieee80211_tkip_decrypt rc4 crc32_le skbr (length hdr) rx = Some (tk_key_idx tx, skb3, rx3) \<and>
       (\<exists>x. skb_data skb3 = hdr @ x) \<and> ieee80211_michael_mic_verify michael skb3 (length hdr) rx3 = Some (0, skb4, rx4) \<and>
       skb_data skb4 = skb_data skb \<and> tk_rx_iv32 rx4 = tk_tx_iv32 tx \<and> tk_rx_iv16 rx4 = tk_tx_iv16 tx \<and>
       tkip_rx_cache (frame_TA hdr) rx4)) \<and>
     (\<exists>c. skb_data skb2 = hdr @ tkip_prefix (tk_key_idx tx) (tk_tx_iv32 tx) (tk_tx_iv16 tx) @ c)"
proof -
  define mic where "mic = snd (michael (take 8 (drop 16 (tk_key tx))) (h @ body))"
  have lm: "length mic = 8"
    using keyed_digest.michael_length [OF mich] keys(1) by (simp add: mic_def)
  obtain skb1 where a: "ieee80211_michael_mic_add michael skb (length hdr) tx = Some (0, skb1, tx\<lparr>tk_tx_hdr := h\<rparr>)"
    and d1: "skb_data skb1 = hdr @ body @ mic" and r1: "skb_head skb1 = skb_head skb" "skb_tailroom skb1 + 8 = skb_tailroom skb"
    using keyed_digest.mic_add_frame [OF mich _ d refl h keys(1)] room(2) by (auto simp: mic_def)
  let ?tx = "tx\<lparr>tk_tx_hdr := h\<rparr>" and ?TA = "frame_TA hdr"
  have TA: "frame_TA (skb_data skb1) = ?TA" using len(1) by (simp add: d1 frame_TA_append)
  define rx3 where "rx3 = (tkip_rx_mixed ?TA (tk_tx_iv32 tx) rx)\<lparr>tk_rx_iv32_new := tk_tx_iv32 tx, tk_rx_iv16_new := tk_tx_iv16 tx\<rparr>"
  have "tkip_tx_cache ?TA ?tx" using ca(1) by (simp add: tkip_tx_cache_def)
  then obtain skb2 where b: "ieee80211_tkip_encrypt rc4 crc32_le skb1 (length hdr) ?tx = Some (0, skb2, tkip_tx_next ?TA ?tx)"
    and c: "\<And>skbr. skb_data skbr = skb_data skb2 \<Longrightarrow>
      \<exists>skb3. ieee80211_tkip_decrypt rc4 crc32_le skbr (length hdr) rx = Some (tk_key_idx tx, skb3, rx3) \<and>
        skb_data skb3 = hdr @ body @ mic"
    using stream_cipher.tkip_mpdu_roundtrip [OF rc4, of skb1 "length hdr" rx ?tx crc32_le] room r1 d1 len keys idx ca TA
    by (auto simp: skb_headroom_def skb_len_def rx3_def)
  have r3: "length (tk_key rx3) = 32" "tk_key_set rx3" "take 8 (drop 24 (tk_key rx3)) = take 8 (drop 16 (tk_key tx))"
    using keys idx by (simp_all add: rx3_def tkip_rx_mixed_def)
  have e: "\<exists>skb4. ieee80211_michael_mic_verify michael skb3 (length hdr) rx3 = Some (0, skb4,
      rx3\<lparr>tk_rx_hdr := h, tk_rx_iv32 := tk_rx_iv32_new rx3, tk_rx_iv16 := tk_rx_iv16_new rx3\<rparr>) \<and>
      skb_data skb4 = hdr @ body" if d3: "skb_data skb3 = hdr @ body @ mic" for skb3
  proof -
    have "skb_len skb3 < 2 ^ 32" using len(2) lm d3 by (simp add: skb_len_def)
    with keyed_digest.mic_verify_frame [OF mich d3 refl lm h r3(1,2)] r3(3) show ?thesis
      by (auto simp: mic_def)
  qed
  have "\<exists>c. skb_data skb2 = hdr @ tkip_prefix (tk_key_idx tx) (tk_tx_iv32 tx) (tk_tx_iv16 tx) @ c"
    using stream_cipher.tkip_encrypt_frame [OF rc4, of skb1 "length hdr" ?tx crc32_le] b room r1 d1 len ca(1) TA
    by (fastforce simp: skb_headroom_def skb_len_def tkip_tx_cache_def)
  moreover have "\<exists>skb3 rx3 skb4 rx4.
       ieee80211_tkip_decrypt rc4 crc32_le skbr (length hdr) rx = Some (tk_key_idx tx, skb3, rx3) \<and>
       (\<exists>x. skb_data skb3 = hdr @ x) \<and> ieee80211_michael_mic_verify michael skb3 (length hdr) rx3 = Some (0, skb4, rx4) \<and>
       skb_data skb4 = skb_data skb \<and> tk_rx_iv32 rx4 = tk_tx_iv32 tx \<and> tk_rx_iv16 rx4 = tk_tx_iv16 tx \<and>
       tkip_rx_cache (frame_TA hdr) rx4" if "skb_data skbr = skb_data skb2" for skbr
    using c [OF that] e d by (force simp: rx3_def tkip_rx_mixed_def tkip_rx_cache_def)
  ultimately show ?thesis using a b by blast
qed

text \<open>C16: The whole TKIP path.  A frame that gets its MIC and is then encrypted is decrypted and
  verified by a peer with the same temporal key, the sender's transmit MIC key as its receive
  MIC key and the same key index: both receive steps succeed, the frame is the original one,
  the receive counter becomes the counter of the frame, and the phase 1 cache is valid again.\<close>

theorem tkip_msdu_roundtrip:
  assumes rc4: "stream_cipher rc4" and mich: "keyed_digest michael"
    and room: "8 \<le> skb_headroom skb" "12 \<le> skb_tailroom skb" and d: "skb_data skb = hdr @ body"
    and len: "16 \<le> length hdr" "length hdr + length body + 8 < 2 ^ 32" and h: "mic_hdr_of hdr = Some h"
    and keys: "length (tk_key tx) = 32" "length (tk_key rx) = 32" "take 16 (tk_key rx) = take 16 (tk_key tx)"
      "take 8 (drop 24 (tk_key rx)) = take 8 (drop 16 (tk_key tx))"
    and idx: "tk_key_idx rx = tk_key_idx tx" "0 \<le> tk_key_idx tx" "tk_key_idx tx < 4" "tk_key_set rx"
    and ca: "tkip_tx_cache (frame_TA hdr) tx" "tkip_rx_cache (frame_TA hdr) rx"
  shows "\<exists>skb1 tx1 skb2 tx2 skb3 rx3 skb4 rx4.
     ieee80211_michael_mic_add michael skb (length hdr) tx = Some (0, skb1, tx1) \<and>
     ieee80211_tkip_encrypt rc4 crc32_le skb1 (length hdr) tx1 = Some (0, skb2, tx2) \<and>
     ieee80211_tkip_decrypt rc4 crc32_le skb2 (length hdr) rx = Some (tk_key_idx tx, skb3, rx3) \<and>
     ieee80211_michael_mic_verify michael skb3 (length hdr) rx3 = Some (0, skb4, rx4) \<and>
     skb_data skb4 = skb_data skb \<and> tk_rx_iv32 rx4 = tk_tx_iv32 tx \<and> tk_rx_iv16 rx4 = tk_tx_iv16 tx \<and>
     tkip_rx_cache (frame_TA hdr) rx4"
  using tkip_msdu_path [OF assms, of crc32_le] by blast

text \<open>A frame whose decrypted body is shorter than the MIC makes the MIC verification
  read out of bounds: the digest length \<open>skb->len - 8 - hdr_len\<close> wraps around to almost
  \<open>2^32\<close>.\<close>

theorem tkip_mic_verify_short:
  assumes "tk_key_set rx" and "length hdr \<le> 64" and "skb_data skb = hdr @ body" and "length body < 8"
  shows "ieee80211_michael_mic_verify michael skb (length hdr) rx = None"
proof -
  have "skb_len skb - length hdr < 8" "skb_len skb = length hdr + length body"
    using assms by (auto simp: skb_len_def)
  moreover have "mic_data_len (length hdr + length body) (length hdr) = 4294967288 + length body"
  proof -
    have "(word_of_nat (length hdr + length body) - 8 - word_of_nat (length hdr) :: u32) = word_of_nat (4294967288 + length body)"
      by simp
    moreover have "unat (word_of_nat (4294967288 + length body) :: u32) = 4294967288 + length body"
      using assms(4) by (simp only: unat_of_nat) simp
    ultimately show ?thesis by (simp only: mic_data_len_def)
  qed
  ultimately have "skb_load (length hdr) (mic_data_len (skb_len skb) (length hdr)) skb = None"
    using assms by (auto simp: skb_load_def buf_read_def skb_len_def)
  then show ?thesis using assms(1)
    by (cases "michael_mic_hdr skb") (simp_all add: ieee80211_michael_mic_verify_def)
qed


definition tkip_frame_example :: bytes where
  "tkip_frame_example = [0x08, 0x01] @ map word_of_nat [2..<24]"

theorem tkip_mic_verify_short_witness:
  "ieee80211_michael_mic_verify michael_one \<lparr>skb_head = [], skb_data = tkip_frame_example @ [1, 2, 3], skb_room = []\<rparr>
     (length tkip_frame_example) (tkip_zero\<lparr>tk_key_set := True\<rparr>) = None"
  by (rule tkip_mic_verify_short [where body = "[1, 2, 3]"]) (simp_all add: tkip_frame_example_def)

theorem tkip_msdu_roundtrip_witness:
  "\<exists>skb1 tx1 skb2 tx2 skb3 rx3 skb4 rx4.
     ieee80211_michael_mic_add michael_one \<lparr>skb_head = replicate 8 0, skb_data = tkip_frame_example @ [1, 2, 3], skb_room = replicate 12 0\<rparr>
       (length tkip_frame_example) (tkip_zero\<lparr>tk_key := replicate 16 3 @ replicate 8 4 @ replicate 8 5, tk_tx_iv16 := 1, tk_key_idx := 1\<rparr>) = Some (0, skb1, tx1) \<and>
     ieee80211_tkip_encrypt arc4_ecb (\<lambda>c d. c + 7) skb1 (length tkip_frame_example) tx1 = Some (0, skb2, tx2) \<and>
     ieee80211_tkip_decrypt arc4_ecb (\<lambda>c d. c + 7) skb2 (length tkip_frame_example)
       (tkip_zero\<lparr>tk_key := replicate 16 3 @ replicate 8 5 @ replicate 8 4, tk_key_set := True, tk_key_idx := 1\<rparr>) =
       Some (tk_key_idx (tkip_zero\<lparr>tk_key := replicate 16 3 @ replicate 8 4 @ replicate 8 5, tk_tx_iv16 := 1, tk_key_idx := 1\<rparr>), skb3, rx3) \<and>
     ieee80211_michael_mic_verify michael_one skb3 (length tkip_frame_example) rx3 = Some (0, skb4, rx4) \<and>
     skb_data skb4 = skb_data \<lparr>skb_head = replicate 8 0, skb_data = tkip_frame_example @ [1, 2, 3], skb_room = replicate 12 0\<rparr> \<and>
     tk_rx_iv32 rx4 = tk_tx_iv32 (tkip_zero\<lparr>tk_key := replicate 16 3 @ replicate 8 4 @ replicate 8 5, tk_tx_iv16 := 1, tk_key_idx := 1\<rparr>) \<and>
     tk_rx_iv16 rx4 = tk_tx_iv16 (tkip_zero\<lparr>tk_key := replicate 16 3 @ replicate 8 4 @ replicate 8 5, tk_tx_iv16 := 1, tk_key_idx := 1\<rparr>) \<and>
     tkip_rx_cache (frame_TA tkip_frame_example) rx4"
proof -
  have "mic_hdr_of tkip_frame_example = Some [16, 17, 18, 19, 20, 21, 10, 11, 12, 13, 14, 15, 0, 0, 0, 0]"
    by (simp add: tkip_frame_example_def mic_hdr_of_def michael_mic_hdr_def skb_load_def buf_read_def upt_rec get_le16_def)
  then show ?thesis
    by (rule tkip_msdu_roundtrip [OF arc4.stream_cipher_axioms michael.keyed_digest_axioms, where body = "[1, 2, 3]", rotated 5])
      (simp_all add: skb_headroom_def skb_tailroom_def tkip_frame_example_def tkip_tx_cache_def tkip_rx_cache_def tkip_zero_def)
qed

text \<open>The key \<open>set_key\<close> installs is the one \<open>get_key\<close> returns, together with the
  transmit counter of the next frame, which starts at 1; the key index is kept and both
  cached phase 1 keys are dropped.\<close>

theorem tkip_set_get_key:
  assumes "length key = 32" and "32 \<le> blen" and "32 \<le> length buf" and "6 \<le> length sbuf"
  shows "\<exists>tkey'. ieee80211_tkip_set_key key 32 None tkey = Some (0, tkey') \<and>
     tk_key_idx tkey' = tk_key_idx tkey \<and> tkip_tx_cache TA tkey' \<and> tkip_rx_cache TA tkey' \<and>
     ieee80211_tkip_get_key buf blen (Some sbuf) tkey' =
       Some (32, key @ drop 32 buf, Some ([1, 0, 0, 0, 0, 0] @ drop 6 sbuf))"
  using assms
  by (auto simp: ieee80211_tkip_set_key_def ieee80211_tkip_get_key_def buf_read_def buf_write_def
        tkip_zero_def tkip_tx_cache_def tkip_rx_cache_def le16_def le32_def numeral_eq_Suc)

theorem tkip_set_get_key_witness:
  "\<exists>tkey'. ieee80211_tkip_set_key (map word_of_nat [0..<32]) 32 None (tkip_zero\<lparr>tk_key_idx := 2\<rparr>) = Some (0, tkey') \<and>
     tk_key_idx tkey' = tk_key_idx (tkip_zero\<lparr>tk_key_idx := 2\<rparr>) \<and> tkip_tx_cache [] tkey' \<and> tkip_rx_cache [] tkey' \<and>
     ieee80211_tkip_get_key (replicate 40 0) 40 (Some (replicate 6 0)) tkey' =
       Some (32, map word_of_nat [0..<32] @ drop 32 (replicate 40 0), Some ([1, 0, 0, 0, 0, 0] @ drop 6 (replicate 6 0)))"
  by (rule tkip_set_get_key) simp_all

end
