(* ===== verification/Ccmp.thy ===== *)
theory Ccmp
  imports Skb Ciphers
begin

text \<open>
  \<open>ieee80211/ieee80211_crypt_ccmp.c\<close> (kernel 2.6.24 and later, \<open>JOHN_CCMP\<close> not defined): the
  CCM initial block and additional data, the in-place loops of counter mode and CBC-MAC, the
  two MPDU operations and the key operations.  \<open>aes\<close> stands for the kernel's single block
  encryption; \<open>cc_tfm_key\<close> is the key last loaded into the transform.  The scratch buffers of
  the C structure are written before they are read in every call and are locals here.
\<close>

record ieee80211_ccmp_data =
  cc_key :: bytes
  cc_key_set :: bool
  cc_tx_pn :: bytes
  cc_rx_pn :: bytes
  cc_FormatErrors :: u32
  cc_Replays :: u32
  cc_DecryptErrors :: u32
  cc_key_idx :: int
  cc_tfm_key :: bytes

definition ccmp_zero :: ieee80211_ccmp_data where
  "ccmp_zero = \<lparr>cc_key = replicate 16 0, cc_key_set = False, cc_tx_pn = replicate 6 0,
     cc_rx_pn = replicate 6 0, cc_FormatErrors = 0, cc_Replays = 0, cc_DecryptErrors = 0,
     cc_key_idx = 0, cc_tfm_key = replicate 16 0\<rparr>"

section \<open>Life cycle\<close>

datatype ccmp_resource = CcPriv | CcTfm

definition ieee80211_ccmp_init ::
  "int \<Rightarrow> (ccmp_resource \<Rightarrow> bool) \<Rightarrow> ieee80211_ccmp_data option \<times> ccmp_resource set" where
  "ieee80211_ccmp_init key_idx ok =
     (if \<not> ok CcPriv then (None, {})
      else if \<not> ok CcTfm then (None, {CcPriv} - {CcPriv})
      else (Some (ccmp_zero\<lparr>cc_key_idx := key_idx\<rparr>), {CcPriv, CcTfm}))"

definition ieee80211_ccmp_deinit :: "ccmp_resource set \<Rightarrow> ccmp_resource set" where
  "ieee80211_ccmp_deinit live = live - {CcTfm} - {CcPriv}"

section \<open>The initial block and the additional authenticated data\<close>

text \<open>\<open>xor_block(b, a, len)\<close>\<close>

definition xor_block :: "bytes \<Rightarrow> bytes \<Rightarrow> nat \<Rightarrow> bytes" where
  "xor_block b a len = xor_bytes (take len b) (take len a) @ drop len b"

text \<open>
  The frame is read at the fields of \<open>struct ieee80211_hdr\<close>: frame control at 0, the three
  addresses from 4, sequence control at 22, the fourth address at 24, and the QoS control at
  24 or, behind a fourth address, at 30.
\<close>

record ccmp_fields =
  cf_fc :: bytes
  cf_a4_included :: bool
  cf_qc_included :: bool
  cf_qc :: u8
  cf_addr123 :: bytes
  cf_sc :: u8
  cf_addr4 :: bytes

definition ccmp_hdr_fields :: "bytes \<Rightarrow> ccmp_fields option" where
  "ccmp_hdr_fields hdr = do {
     fcb \<leftarrow> buf_read 0 2 hdr;
     let fc = get_le16 (fcb ! 0) (fcb ! 1);
     let a4_included = (fc AND 0x0300 = 0x0300);
     let qc_included = (fc AND 0x000c = 0x0008 \<and> (fc AND 0x00f0) AND 0x80 \<noteq> 0);
     qc \<leftarrow> (if qc_included
           then map_option (\<lambda>b. b AND 0x0f) (buf_byte (if a4_included then 30 else 24) hdr)
           else Some 0);
     addr123 \<leftarrow> buf_read 4 18 hdr;
     sc \<leftarrow> buf_byte 22 hdr;
     addr4 \<leftarrow> (if a4_included then buf_read 24 6 hdr else Some (replicate 6 0));
     Some \<lparr>cf_fc = fcb, cf_a4_included = a4_included, cf_qc_included = qc_included, cf_qc = qc,
           cf_addr123 = addr123, cf_sc = sc, cf_addr4 = addr4\<rparr>
   }"

definition ccmp_b0 :: "ccmp_fields \<Rightarrow> bytes \<Rightarrow> nat \<Rightarrow> bytes" where
  "ccmp_b0 f pn dlen = [0x59, cf_qc f] @ take 6 (drop 6 (cf_addr123 f)) @ take 6 pn @
     [word_of_nat (dlen div 256), word_of_nat dlen]"

definition ccmp_aad :: "ccmp_fields \<Rightarrow> bytes" where
  "ccmp_aad f =
     (let aad_len = 22 + (if cf_a4_included f then 6 else 0) + (if cf_qc_included f then 2 else 0);
          aad = [0, aad_len, (cf_fc f ! 0) AND 0x8f, (cf_fc f ! 1) AND 0xc7] @ cf_addr123 f @
                [cf_sc f AND 0x0f, 0] @ cf_addr4 f @ [0, 0]
      in if cf_qc_included f then aad[(if cf_a4_included f then 30 else 24) := cf_qc f] else aad)"

text \<open>The result is \<open>b0\<close> (ready for counter mode), the CBC-MAC of \<open>b0\<close> and the
  additional data, and \<open>s0\<close>.\<close>

definition ccmp_init_blocks ::
  "(bytes \<Rightarrow> bytes \<Rightarrow> bytes) \<Rightarrow> bytes \<Rightarrow> bytes \<Rightarrow> bytes \<Rightarrow> nat \<Rightarrow> (bytes \<times> bytes \<times> bytes) option" where
  "ccmp_init_blocks aes key hdr pn dlen = do {
     f \<leftarrow> ccmp_hdr_fields hdr;
     let b0 = ccmp_b0 f pn dlen;
     let aad = ccmp_aad f;
     let auth = aes key b0;
     let auth = aes key (xor_block auth (take 16 aad) 16);
     let auth = aes key (xor_block auth (drop 16 aad) 16);
     let b0 = b0[0 := (b0 ! 0) AND 0x07, 14 := 0, 15 := 0];
     Some (b0, auth, aes key b0)
   }"

section \<open>The loops\<close>

text \<open>\<open>len\<close> of the \<open>i\<close>-th block, for \<open>i = 1 .. blocks\<close>.\<close>

definition ccmp_blocks :: "nat \<Rightarrow> nat" where
  "ccmp_blocks data_len = (data_len + 15) div 16"

definition ccmp_block_len :: "nat \<Rightarrow> nat \<Rightarrow> nat" where
  "ccmp_block_len data_len i =
     (let last = data_len mod 16 in if i = ccmp_blocks data_len \<and> last \<noteq> 0 then last else 16)"

definition ccmp_ctr :: "bytes \<Rightarrow> nat \<Rightarrow> bytes" where
  "ccmp_ctr b0 i = b0[14 := word_of_nat (i div 256), 15 := word_of_nat i]"

text \<open>One iteration; the data are changed in place at \<open>pos = 16 * (i - 1)\<close>.\<close>

definition ccmp_seal_step ::
  "(bytes \<Rightarrow> bytes) \<Rightarrow> nat \<Rightarrow> nat \<Rightarrow> bytes \<times> bytes \<times> bytes \<Rightarrow> bytes \<times> bytes \<times> bytes" where
  "ccmp_seal_step enc data_len i st = (let (b0, b, d) = st;
     len = ccmp_block_len data_len i;
     pos = 16 * (i - 1);
     b = xor_block b (drop pos d) len;
     b = enc b;
     b0 = ccmp_ctr b0 i;
     e = enc b0;
     d = take pos d @ xor_block (drop pos d) e len
   in (b0, b, d))"

definition ccmp_open_step ::
  "(bytes \<Rightarrow> bytes) \<Rightarrow> nat \<Rightarrow> nat \<Rightarrow> bytes \<times> bytes \<times> bytes \<Rightarrow> bytes \<times> bytes \<times> bytes" where
  "ccmp_open_step enc data_len i st = (let (b0, a, d) = st;
     len = ccmp_block_len data_len i;
     pos = 16 * (i - 1);
     b0 = ccmp_ctr b0 i;
     b = enc b0;
     d = take pos d @ xor_block (drop pos d) b len;
     a = xor_block a (drop pos d) len;
     a = enc a
   in (b0, a, d))"

definition ccmp_seal_loop :: "(bytes \<Rightarrow> bytes) \<Rightarrow> bytes \<Rightarrow> bytes \<Rightarrow> bytes \<Rightarrow> bytes \<times> bytes" where
  "ccmp_seal_loop enc b0 b d =
     snd (fold (ccmp_seal_step enc (length d)) [1..<Suc (ccmp_blocks (length d))] (b0, b, d))"

definition ccmp_open_loop :: "(bytes \<Rightarrow> bytes) \<Rightarrow> bytes \<Rightarrow> bytes \<Rightarrow> bytes \<Rightarrow> bytes \<times> bytes" where
  "ccmp_open_loop enc b0 a d =
     snd (fold (ccmp_open_step enc (length d)) [1..<Suc (ccmp_blocks (length d))] (b0, a, d))"

section \<open>The packet number\<close>

text \<open>The loop over \<open>i = 5, 4, ...\<close> that increments the big-endian counter.\<close>

fun pn_incr :: "nat \<Rightarrow> bytes \<Rightarrow> bytes" where
  "pn_incr i pn =
     (let pn = pn[i := pn ! i + 1]
      in if pn ! i \<noteq> 0 then pn else case i of 0 \<Rightarrow> pn | Suc j \<Rightarrow> pn_incr j pn)"

definition ccmp_header :: "int \<Rightarrow> bytes \<Rightarrow> bytes" where
  "ccmp_header key_idx pn =
     [pn ! 5, pn ! 4, 0, push_bit 6 (word_of_int key_idx) OR 0x20, pn ! 3, pn ! 2, pn ! 1, pn ! 0]"

definition ccmp_header_pn :: "bytes \<Rightarrow> bytes" where
  "ccmp_header_pn pos = [pos ! 7, pos ! 6, pos ! 5, pos ! 4, pos ! 1, pos ! 0]"

declare pn_incr.simps [simp del]

section \<open>MPDU operations\<close>

definition ieee80211_ccmp_encrypt ::
  "(bytes \<Rightarrow> bytes \<Rightarrow> bytes) \<Rightarrow> sk_buff \<Rightarrow> nat \<Rightarrow> ieee80211_ccmp_data \<Rightarrow>
     (int \<times> sk_buff \<times> ieee80211_ccmp_data) option" where
  "ieee80211_ccmp_encrypt aes skb hdr_len key =
     (if skb_headroom skb < 8 \<or> skb_tailroom skb < 8 \<or> skb_len skb < hdr_len
      then Some (- 1, skb, key)
      else do {
        let data_len = skb_len skb - hdr_len;
        skb \<leftarrow> skb_push 8 skb;
        skb \<leftarrow> skb_move 0 8 hdr_len skb;
        let key = key\<lparr>cc_tx_pn := pn_incr 5 (cc_tx_pn key)\<rparr>;
        skb \<leftarrow> skb_store hdr_len (ccmp_header (cc_key_idx key) (cc_tx_pn key)) skb;
        let mic = skb_len skb;
        skb \<leftarrow> skb_put 8 skb;
        (b0, b, s0) \<leftarrow> ccmp_init_blocks aes (cc_tfm_key key) (skb_data skb) (cc_tx_pn key) data_len;
        d \<leftarrow> skb_load (hdr_len + 8) data_len skb;
        let (b, d) = ccmp_seal_loop (aes (cc_tfm_key key)) b0 b d;
        skb \<leftarrow> skb_store (hdr_len + 8) d skb;
        skb \<leftarrow> skb_store mic (xor_bytes (take 8 b) (take 8 s0)) skb;
        Some (0, skb, key)
      })"

definition ieee80211_ccmp_decrypt ::
  "(bytes \<Rightarrow> bytes \<Rightarrow> bytes) \<Rightarrow> sk_buff \<Rightarrow> nat \<Rightarrow> ieee80211_ccmp_data \<Rightarrow>
     (int \<times> sk_buff \<times> ieee80211_ccmp_data) option" where
  "ieee80211_ccmp_decrypt aes skb hdr_len key =
     (if skb_len skb < hdr_len + 8 + 8
      then Some (- 1, skb, key\<lparr>cc_FormatErrors := cc_FormatErrors key + 1\<rparr>)
      else do {
        let data_len = skb_len skb - hdr_len - 8 - 8;
        let mic = skb_len skb - 8;
        pos \<leftarrow> skb_load hdr_len 8 skb;
        let keyidx = pos ! 3;
        if keyidx AND 0x20 = 0
        then Some (- 2, skb, key\<lparr>cc_FormatErrors := cc_FormatErrors key + 1\<rparr>)
        else let keyidx = uint (drop_bit 6 keyidx) in
        if cc_key_idx key \<noteq> keyidx then Some (- 6, skb, key)
        else if \<not> cc_key_set key then Some (- 3, skb, key)
        else do {
          let pn = ccmp_header_pn pos;
          (b0, a, s0) \<leftarrow> ccmp_init_blocks aes (cc_tfm_key key) (skb_data skb) pn data_len;
          m \<leftarrow> skb_load mic 8 skb;
          let m = xor_block m s0 8;
          skb \<leftarrow> skb_store mic m skb;
          d \<leftarrow> skb_load (hdr_len + 8) data_len skb;
          let (a, d) = ccmp_open_loop (aes (cc_tfm_key key)) b0 a d;
          skb \<leftarrow> skb_store (hdr_len + 8) d skb;
          if m \<noteq> take 8 a
          then Some (- 5, skb, key\<lparr>cc_DecryptErrors := cc_DecryptErrors key + 1\<rparr>)
          else do {
            let key = key\<lparr>cc_rx_pn := pn\<rparr>;
            skb \<leftarrow> skb_move 8 0 hdr_len skb;
            let skb = skb_pull 8 skb;
            Some (keyidx, skb_trim (skb_len skb - 8) skb, key)
          }
        }
      })"

section \<open>Keys\<close>

definition ieee80211_ccmp_set_key ::
  "bytes \<Rightarrow> int \<Rightarrow> bytes option \<Rightarrow> ieee80211_ccmp_data \<Rightarrow> (int \<times> ieee80211_ccmp_data) option" where
  "ieee80211_ccmp_set_key key len seq data =
     (let data = ccmp_zero\<lparr>cc_key_idx := cc_key_idx data, cc_tfm_key := cc_tfm_key data\<rparr>
      in if len = 16 then do {
           k \<leftarrow> buf_read 0 16 key;
           let data = data\<lparr>cc_key := k, cc_key_set := True\<rparr>;
           data \<leftarrow> (case seq of
                     None \<Rightarrow> Some data
                   | Some sq \<Rightarrow> do {
                       sq \<leftarrow> buf_read 0 6 sq;
                       Some (data\<lparr>cc_rx_pn := rev sq\<rparr>)
                     });
           Some (0, data\<lparr>cc_tfm_key := cc_key data\<rparr>)
         }
         else if len = 0 then Some (0, data\<lparr>cc_key_set := False\<rparr>)
         else Some (- 1, data))"

definition ieee80211_ccmp_get_key ::
  "bytes \<Rightarrow> int \<Rightarrow> bytes option \<Rightarrow> ieee80211_ccmp_data \<Rightarrow> (int \<times> bytes \<times> bytes option) option" where
  "ieee80211_ccmp_get_key key len seq data =
     (if len < 16 then Some (- 1, key, seq)
      else if \<not> cc_key_set data then Some (0, key, seq)
      else do {
        k \<leftarrow> buf_read 0 16 (cc_key data);
        key \<leftarrow> buf_write 0 k key;
        case seq of
          None \<Rightarrow> Some (16, key, None)
        | Some sq \<Rightarrow> do {
            sq \<leftarrow> buf_write 0 (rev (take 6 (cc_tx_pn data))) sq;
            Some (16, key, Some sq)
          }
      })"

section \<open>The loops are counter mode and CBC-MAC\<close>

text \<open>
  The reference: the key stream of \<open>k\<close> counter blocks, and the CBC-MAC of the first \<open>k\<close>
  blocks of a message whose last block is padded with zeros.
\<close>

definition ccmp_stream :: "(bytes \<Rightarrow> bytes) \<Rightarrow> bytes \<Rightarrow> nat \<Rightarrow> bytes" where
  "ccmp_stream enc b0 k = concat (map (\<lambda>i. enc (ccmp_ctr b0 i)) [1..<Suc k])"

primrec ccmp_mac :: "(bytes \<Rightarrow> bytes) \<Rightarrow> bytes \<Rightarrow> bytes \<Rightarrow> nat \<Rightarrow> bytes" where
  "ccmp_mac enc b d 0 = b"
| "ccmp_mac enc b d (Suc k) = enc (xor_block (ccmp_mac enc b d k) (take 16 (drop (16 * k) d)) (length (take 16 (drop (16 * k) d))))"

lemma xor_block_take: "length a \<le> n \<Longrightarrow> n' = length a \<Longrightarrow> xor_block b (take n' a) n' = xor_block b a n'"
  by (simp add: xor_block_def)

lemma length_xor_block [simp]: "len \<le> length a \<Longrightarrow> length (xor_block b a len) = length b"
  by (simp add: xor_block_def)

lemma ccmp_ctr_ctr [simp]: "length b0 = 16 \<Longrightarrow> ccmp_ctr (ccmp_ctr b0 i) j = ccmp_ctr b0 j"
  by (simp add: ccmp_ctr_def list_update_swap)

lemma length_ccmp_ctr [simp]: "length (ccmp_ctr b0 i) = length b0"
  by (simp add: ccmp_ctr_def)

text \<open>The length of the \<open>k + 1\<close>-st block is what is left, at most 16.\<close>

lemma ccmp_block_len_Suc:
  "Suc k \<le> ccmp_blocks n \<Longrightarrow> ccmp_block_len n (Suc k) = min 16 (n - 16 * k) \<and> 16 * k < n"
proof -
  assume a: "Suc k \<le> ccmp_blocks n"
  define q r where "q = n div 16" and "r = n mod 16"
  have n: "n = 16 * q + r" and r: "r < 16" by (simp_all add: q_def r_def)
  have "ccmp_blocks n = (if r = 0 then q else Suc q)"
  proof (cases "r = 0")
    case True
    then show ?thesis by (simp add: ccmp_blocks_def n)
  next
    case False
    then have "(n + 15) div 16 = (16 * Suc q + (r - 1)) div 16" using n by simp
    also have "\<dots> = Suc q + (r - 1) div 16" by (rule div_mult_self4) simp
    finally show ?thesis using r False by (simp add: ccmp_blocks_def)
  qed
  then show ?thesis using a n r by (auto simp: ccmp_block_len_def Let_def split: if_splits)
qed

lemma length_ccmp_stream:
  assumes "length b0 = 16" and "\<And>x. length x = 16 \<Longrightarrow> length (enc x) = 16"
  shows "length (ccmp_stream enc b0 k) = 16 * k"
  by (induction k) (simp_all add: ccmp_stream_def assms)

lemma ccmp_stream_Suc: "ccmp_stream enc b0 (Suc k) = ccmp_stream enc b0 k @ enc (ccmp_ctr b0 (Suc k))"
  by (simp add: ccmp_stream_def)

text \<open>One more block of the message.\<close>

lemma take_block: "take (16 * Suc k) d = take (16 * k) d @ take 16 (drop (16 * k) d)"
  using take_add [of "16 * k" 16 d] by (simp add: algebra_simps)

lemma drop_block: "drop (16 * Suc k) d = drop 16 (drop (16 * k) d)"
  by (simp add: algebra_simps)

lemma ccmp_data_step:
  assumes "length ks = 16 * k" and "16 * k < length d"
  defines "len \<equiv> min 16 (length d - 16 * k)"
  shows "xor_bytes (take (16 * k) d) ks @ xor_block (drop (16 * k) d) e len =
     xor_bytes (take (16 * Suc k) d) (ks @ e) @ drop (16 * Suc k) d"
proof -
  let ?c = "take 16 (drop (16 * k) d)"
  have l: "length ?c = len" by (simp add: len_def)
  have "take len (drop (16 * k) d) = ?c" "drop len (drop (16 * k) d) = drop (16 * Suc k) d"
    unfolding drop_block by (simp_all add: len_def min_def)
  moreover have "xor_bytes ?c (take len e) = xor_bytes ?c e"
    using xor_bytes_take_right [of ?c e] unfolding l .
  ultimately have "xor_block (drop (16 * k) d) e len = xor_bytes ?c e @ drop (16 * Suc k) d"
    unfolding xor_block_def by simp
  moreover have "xor_bytes (take (16 * Suc k) d) (ks @ e) = xor_bytes (take (16 * k) d) ks @ xor_bytes ?c e"
    unfolding take_block using assms(1,2) by (subst xor_bytes_append) auto
  ultimately show ?thesis by (simp del: take_drop)
qed

lemma ccmp_seal_steps:
  assumes b0: "length b0 = 16" and enc: "\<And>x. length x = 16 \<Longrightarrow> length (enc x) = 16"
    and k: "k \<le> ccmp_blocks (length d)"
  shows "fold (ccmp_seal_step enc (length d)) [1..<Suc k] (b0, b, d) =
     (if k = 0 then b0 else ccmp_ctr b0 k, ccmp_mac enc b d k,
      xor_bytes (take (16 * k) d) (ccmp_stream enc b0 k) @ drop (16 * k) d)"
  using k
proof (induction k)
  case 0
  then show ?case by (simp add: ccmp_stream_def)
next
  case (Suc k)
  define dk where "dk = xor_bytes (take (16 * k) d) (ccmp_stream enc b0 k)"
  note len = ccmp_block_len_Suc [OF Suc.prems]
  have ls: "length (ccmp_stream enc b0 k) = 16 * k" by (rule length_ccmp_stream [OF b0 enc])
  then have ldk: "length dk = 16 * k" using len by (simp add: dk_def)
  have IH: "fold (ccmp_seal_step enc (length d)) [1..<Suc k] (b0, b, d) =
     (if k = 0 then b0 else ccmp_ctr b0 k, ccmp_mac enc b d k, dk @ drop (16 * k) d)"
    using Suc by (simp add: dk_def)
  have "xor_block c (drop (16 * k) d) (min 16 (length d - 16 * k)) =
      xor_block c (take 16 (drop (16 * k) d)) (length (take 16 (drop (16 * k) d)))" for c
    by (simp add: xor_block_def min.commute)
  then have "ccmp_seal_step enc (length d) (Suc k) (if k = 0 then b0 else ccmp_ctr b0 k, ccmp_mac enc b d k, dk @ drop (16 * k) d) =
     (ccmp_ctr b0 (Suc k), ccmp_mac enc b d (Suc k),
      dk @ xor_block (drop (16 * k) d) (enc (ccmp_ctr b0 (Suc k))) (min 16 (length d - 16 * k)))"
    using ldk len b0 by (simp add: ccmp_seal_step_def Let_def)
  moreover have "fold (ccmp_seal_step enc (length d)) [1..<Suc (Suc k)] (b0, b, d) =
      ccmp_seal_step enc (length d) (Suc k) (fold (ccmp_seal_step enc (length d)) [1..<Suc k] (b0, b, d))"
    by simp
  ultimately show ?case
    using IH ccmp_data_step [OF ls, of d "enc (ccmp_ctr b0 (Suc k))"] len
    by (simp add: ccmp_stream_Suc dk_def del: ccmp_mac.simps upt_Suc)
qed

lemma take_xor_bytes: "take n (xor_bytes a b) = xor_bytes (take n a) (take n b)"
  by (simp add: xor_bytes_def take_map take_zip)

lemma take_ccmp_stream:
  assumes "length b0 = 16" and "\<And>x. length x = 16 \<Longrightarrow> length (enc x) = 16" and "k \<le> m"
  shows "take (16 * k) (ccmp_stream enc b0 m) = ccmp_stream enc b0 k"
proof -
  have "ccmp_stream enc b0 m = ccmp_stream enc b0 k @ concat (map (\<lambda>i. enc (ccmp_ctr b0 i)) [Suc k..<Suc m])"
    using upt_add_eq_append [of 1 "Suc k" "m - k"] assms(3) by (simp add: ccmp_stream_def)
  then show ?thesis using length_ccmp_stream [OF assms(1,2), where k = k] by simp
qed

lemma ccmp_blocks_cover: "n \<le> 16 * ccmp_blocks n"
  by (simp add: ccmp_blocks_def)

text \<open>The message decrypted so far is what is authenticated.\<close>

lemma ccmp_open_steps:
  assumes b0: "length b0 = 16" and enc: "\<And>x. length x = 16 \<Longrightarrow> length (enc x) = 16"
    and k: "k \<le> ccmp_blocks (length c)"
  defines "p \<equiv> xor_bytes c (ccmp_stream enc b0 (ccmp_blocks (length c)))"
  shows "fold (ccmp_open_step enc (length c)) [1..<Suc k] (b0, a, c) =
     (if k = 0 then b0 else ccmp_ctr b0 k, ccmp_mac enc a p k,
      xor_bytes (take (16 * k) c) (ccmp_stream enc b0 k) @ drop (16 * k) c)"
  using k
proof (induction k)
  case 0
  then show ?case by (simp add: ccmp_stream_def)
next
  case (Suc k)
  define dk where "dk = xor_bytes (take (16 * k) c) (ccmp_stream enc b0 k)"
  note len = ccmp_block_len_Suc [OF Suc.prems]
  have ls: "length (ccmp_stream enc b0 j) = 16 * j" for j by (rule length_ccmp_stream [OF b0 enc])
  then have ldk: "length dk = 16 * k" using len by (simp add: dk_def)
  have lp: "length p = length c" using ls ccmp_blocks_cover [of "length c"] by (simp add: p_def)
  have tp: "take (16 * Suc k) p = xor_bytes (take (16 * Suc k) c) (ccmp_stream enc b0 (Suc k))"
    using take_ccmp_stream [OF b0 enc Suc.prems, simplified] by (simp add: p_def take_xor_bytes)
  have IH: "fold (ccmp_open_step enc (length c)) [1..<Suc k] (b0, a, c) =
     (if k = 0 then b0 else ccmp_ctr b0 k, ccmp_mac enc a p k, dk @ drop (16 * k) c)"
    using Suc by (simp add: dk_def)
  define d where "d = take (16 * Suc k) p @ drop (16 * Suc k) c"
  have d: "dk @ xor_block (drop (16 * k) c) (enc (ccmp_ctr b0 (Suc k))) (min 16 (length c - 16 * k)) = d"
    using ccmp_data_step [OF ls, of k c "enc (ccmp_ctr b0 (Suc k))"] len
    by (simp only: dk_def d_def tp ccmp_stream_Suc)
  have q1: "take (min 16 (length c - 16 * k)) (drop (16 * k) d) = take 16 (drop (16 * k) p)"
    unfolding d_def take_block using lp len by (auto simp: min_def)
  have q2: "length (take 16 (drop (16 * k) p)) = min 16 (length c - 16 * k)"
    using lp by (simp add: min.commute)
  have "xor_block b (drop (16 * k) d) (min 16 (length c - 16 * k)) =
      xor_block b (take 16 (drop (16 * k) p)) (length (take 16 (drop (16 * k) p)))" for b
    unfolding xor_block_def q2 q1 take_all [OF eq_imp_le [OF q2]] ..
  moreover have "drop (16 * k) d = xor_block (drop (16 * k) c) (enc (ccmp_ctr b0 (Suc k))) (min 16 (length c - 16 * k))"
    using d ldk by auto
  ultimately have "ccmp_open_step enc (length c) (Suc k) (if k = 0 then b0 else ccmp_ctr b0 k, ccmp_mac enc a p k, dk @ drop (16 * k) c) =
     (ccmp_ctr b0 (Suc k), ccmp_mac enc a p (Suc k), d)"
    using ldk len b0 d by (cases "k = 0") (simp_all add: ccmp_open_step_def Let_def)
  moreover have "fold (ccmp_open_step enc (length c)) [1..<Suc (Suc k)] (b0, a, c) =
      ccmp_open_step enc (length c) (Suc k) (fold (ccmp_open_step enc (length c)) [1..<Suc k] (b0, a, c))"
    by simp
  ultimately show ?case using IH tp by (simp add: d_def del: ccmp_mac.simps upt_Suc)
qed

text \<open>Both loops against the reference.\<close>

definition ccmp_crypt :: "(bytes \<Rightarrow> bytes) \<Rightarrow> bytes \<Rightarrow> bytes \<Rightarrow> bytes" where
  "ccmp_crypt enc b0 d = xor_bytes d (ccmp_stream enc b0 (ccmp_blocks (length d)))"

lemma length_ccmp_crypt:
  assumes "length b0 = 16" and "\<And>x. length x = 16 \<Longrightarrow> length (enc x) = 16"
  shows "length (ccmp_crypt enc b0 d) = length d"
  using length_ccmp_stream [OF assms] ccmp_blocks_cover [of "length d"] by (simp add: ccmp_crypt_def)

lemma ccmp_crypt_crypt:
  assumes "length b0 = 16" and "\<And>x. length x = 16 \<Longrightarrow> length (enc x) = 16"
  shows "ccmp_crypt enc b0 (ccmp_crypt enc b0 d) = d"
proof -
  have "length d \<le> length (ccmp_stream enc b0 (ccmp_blocks (length d)))"
    using length_ccmp_stream [OF assms] ccmp_blocks_cover [of "length d"] by simp
  then show ?thesis using length_ccmp_crypt [OF assms, where d = d] by (simp add: ccmp_crypt_def)
qed

lemma ccmp_seal_loop_spec:
  assumes "length b0 = 16" and "\<And>x. length x = 16 \<Longrightarrow> length (enc x) = 16"
  shows "ccmp_seal_loop enc b0 b d = (ccmp_mac enc b d (ccmp_blocks (length d)), ccmp_crypt enc b0 d)"
  using ccmp_seal_steps [OF assms order_refl, where d = d and b = b] ccmp_blocks_cover [of "length d"]
  by (simp add: ccmp_seal_loop_def ccmp_crypt_def del: upt_Suc)

lemma ccmp_open_loop_spec:
  assumes "length b0 = 16" and "\<And>x. length x = 16 \<Longrightarrow> length (enc x) = 16"
  shows "ccmp_open_loop enc b0 a c =
     (ccmp_mac enc a (ccmp_crypt enc b0 c) (ccmp_blocks (length c)), ccmp_crypt enc b0 c)"
  using ccmp_open_steps [OF assms order_refl, where c = c and a = a] ccmp_blocks_cover [of "length c"]
  by (simp add: ccmp_open_loop_def ccmp_crypt_def del: upt_Suc)

section \<open>The value of the packet number\<close>

definition pn_val :: "bytes \<Rightarrow> nat" where
  "pn_val pn = foldl (\<lambda>a b. a * 256 + unat b) 0 pn"

lemma pn_val_snoc [simp]: "pn_val [] = 0" "pn_val (xs @ [x]) = pn_val xs * 256 + unat x"
  by (simp_all add: pn_val_def)

lemma pn_val_one [simp]: "pn_val [x] = unat x"
  using pn_val_snoc(2) [of "[]" x] by simp

lemma pn_val_less: "pn_val xs < 256 ^ length xs"
proof (induction xs rule: rev_induct)
  case (snoc x xs)
  have "a < m \<Longrightarrow> b < 256 \<Longrightarrow> a * 256 + b < 256 * m" for a b m :: nat by linarith
  from this [OF snoc unat_u8_less] show ?case by simp
qed simp

lemma length_pn_incr [simp]: "length (pn_incr i pn) = length pn"
proof (induction i arbitrary: pn)
  case 0
  then show ?case by (subst pn_incr.simps) (simp add: Let_def)
next
  case (Suc i)
  then show ?case by (subst pn_incr.simps) (simp add: Let_def del: pn_incr.simps)
qed

lemma pn_incr_above: "i < j \<Longrightarrow> pn_incr i pn ! j = pn ! j"
proof (induction i arbitrary: pn)
  case 0
  then show ?case by (subst pn_incr.simps) (simp add: Let_def)
next
  case (Suc i)
  then show ?case by (subst pn_incr.simps) (simp add: Let_def del: pn_incr.simps)
qed

lemma u8_carry: "x + 1 = (0 :: u8) \<longleftrightarrow> unat x = 255"
proof -
  have "x + 1 = 0 \<longleftrightarrow> unat (x + 1) = 0" by (simp add: unat_eq_0)
  also have "\<dots> \<longleftrightarrow> unat x = 255" using unat_u8_less [of x] by (auto simp: unat_word_ariths mod_Suc)
  finally show ?thesis .
qed

lemma u8_Suc: "x + 1 \<noteq> (0 :: u8) \<Longrightarrow> unat (x + 1) = Suc (unat x)"
  using u8_carry [of x] unat_u8_less [of x] by (simp add: unat_word_ariths mod_Suc)

text \<open>The first \<open>i + 1\<close> bytes as a big-endian number.\<close>

lemma pn_incr_take:
  "i < length pn \<Longrightarrow> pn_val (take (Suc i) (pn_incr i pn)) = (pn_val (take (Suc i) pn) + 1) mod 256 ^ Suc i"
proof (induction i arbitrary: pn)
  case 0
  then have "take (Suc 0) xs = [] @ [xs ! 0]" if "length xs = length pn" for xs :: bytes
    using that by (cases xs) auto
  then show ?case using 0 unat_u8_less [of "pn ! 0"]
    by (subst pn_incr.simps) (auto simp: Let_def unat_word_ariths u8_carry)
next
  case (Suc i)
  let ?x = "pn ! Suc i" and ?V = "pn_val (take (Suc i) pn)"
  have V: "pn_val (take (Suc (Suc i)) pn) = ?V * 256 + unat ?x"
    using take_Suc_conv_app_nth [OF Suc.prems] by (simp only: pn_val_snoc)
  show ?case
  proof (cases "?x + 1 = 0")
    case False
    have "V < m * 256 \<Longrightarrow> x \<noteq> 255 \<Longrightarrow> x < 256 \<Longrightarrow> V * 256 + Suc x < m * 256 * 256" for V m x :: nat
      by linarith
    from this [OF _ _ unat_u8_less, of ?V "256 ^ i" ?x]
    have "?V * 256 + Suc (unat ?x) < 256 ^ Suc (Suc i)"
      using pn_val_less [of "take (Suc i) pn"] False u8_carry [of ?x] Suc.prems by (simp add: mult.assoc mult.commute)
    moreover have "pn_incr (Suc i) pn = pn[Suc i := ?x + 1]"
      using False Suc.prems by (subst pn_incr.simps) (simp add: Let_def del: pn_incr.simps)
    moreover have "take (Suc (Suc i)) (pn[Suc i := ?x + 1]) = take (Suc i) pn @ [?x + 1]"
      using take_Suc_conv_app_nth [of "Suc i" "pn[Suc i := ?x + 1]"] Suc.prems by simp
    then have "pn_val (take (Suc (Suc i)) (pn[Suc i := ?x + 1])) = ?V * 256 + Suc (unat ?x)"
      using False by (simp only: pn_val_snoc u8_Suc not_False_eq_True)
    ultimately show ?thesis unfolding V by simp
  next
    case True
    let ?pn = "pn[Suc i := 0]"
    have e: "pn_incr (Suc i) pn = pn_incr i ?pn"
      using True Suc.prems by (subst pn_incr.simps) (simp add: Let_def del: pn_incr.simps)
    have "pn_val (take (Suc (Suc i)) (pn_incr i ?pn)) = pn_val (take (Suc i) (pn_incr i ?pn)) * 256"
      using Suc.prems by (subst take_Suc_conv_app_nth) (simp_all add: pn_incr_above)
    also have "\<dots> = ((?V + 1) mod 256 ^ Suc i) * 256"
      using Suc.IH [of ?pn] Suc.prems by simp
    also have "\<dots> = (?V * 256 + unat ?x + 1) mod 256 ^ Suc (Suc i)"
    proof -
      have "((v + 1) mod m) * 256 = (v * 256 + 255 + 1) mod (256 * m)" for v m :: nat
        using mult_mod_left [of "v + 1" m 256] by (simp add: add.commute mult.commute)
      moreover have "unat ?x = 255" using True u8_carry [of ?x] by simp
      ultimately show ?thesis by (simp only: power_Suc)
    qed
    finally show ?thesis unfolding e V .
  qed
qed

lemma pn_incr_val: "length pn = 6 \<Longrightarrow> pn_val (pn_incr 5 pn) = (pn_val pn + 1) mod 2 ^ 48"
  using pn_incr_take [of 5 pn] by simp

lemma length_6E:
  assumes "length xs = 6"
  obtains a b c d e f where "xs = [a, b, c, d, e, f]"
  using assms by (auto simp: length_Suc_conv eval_nat_numeral)

lemma ccmp_header_pn_header: "length pn = 6 \<Longrightarrow> ccmp_header_pn (ccmp_header idx pn) = pn"
  by (auto simp: ccmp_header_pn_def ccmp_header_def elim!: length_6E)

lemma length_ccmp_header [simp]: "length (ccmp_header idx pn) = 8"
  by (simp add: ccmp_header_def)

lemma nth_ccmp_header: "ccmp_header idx pn ! 3 = push_bit 6 (word_of_int idx) OR 0x20"
  by (simp add: ccmp_header_def)

section \<open>Frames\<close>

lemma ccmp_hdr_fields_prefix: "ccmp_hdr_fields hdr = Some f \<Longrightarrow> ccmp_hdr_fields (hdr @ d) = Some f"
  unfolding ccmp_hdr_fields_def Let_def
  by (elim bind_prefix)
    (auto simp only: buf_read_prefix buf_byte_prefix map_option_eq_Some option.map if_True if_False simp_thms split: if_split_asm)

lemma ccmp_hdr_fields_length:
  "ccmp_hdr_fields hdr = Some f \<Longrightarrow> length (cf_addr123 f) = 18 \<and> length (cf_addr4 f) = 6"
  by (auto simp: ccmp_hdr_fields_def Let_def Option.bind_eq_Some_conv dest!: buf_read_len split: if_split_asm)

lemma length_ccmp_aad:
  "\<lbrakk>length (cf_addr123 f) = 18; length (cf_addr4 f) = 6\<rbrakk> \<Longrightarrow> length (ccmp_aad f) = 32"
  by (simp add: ccmp_aad_def Let_def)

lemma length_ccmp_b0:
  "\<lbrakk>length (cf_addr123 f) = 18; length pn = 6\<rbrakk> \<Longrightarrow> length (ccmp_b0 f pn dlen) = 16"
  by (simp add: ccmp_b0_def)

lemma ccmp_init_blocks_prefix:
  "ccmp_init_blocks aes key hdr pn n = Some r \<Longrightarrow> ccmp_init_blocks aes key (hdr @ d) pn n = Some r"
  by (auto simp: ccmp_init_blocks_def ccmp_hdr_fields_prefix Option.bind_eq_Some_conv)

context block_cipher
begin

lemma ccmp_init_blocks_length:
  assumes "ccmp_init_blocks aes key hdr pn n = Some (b0, auth, s0)" and "length key = 16" and "length pn = 6"
  shows "length b0 = 16 \<and> length auth = 16 \<and> length s0 = 16"
proof -
  obtain f where f: "ccmp_hdr_fields hdr = Some f"
    using assms(1) by (auto simp: ccmp_init_blocks_def Option.bind_eq_Some_conv)
  note l = ccmp_hdr_fields_length [OF f]
  have "length (ccmp_b0 f pn n) = 16" "length (ccmp_aad f) = 32"
    using l assms(3) by (simp_all add: length_ccmp_b0 length_ccmp_aad)
  then show ?thesis
    using assms(1,2) f by (auto simp: ccmp_init_blocks_def Let_def aes_length)
qed

lemma ccmp_encrypt_frame:
  assumes room: "8 \<le> skb_headroom skb" "8 \<le> skb_tailroom skb" and d: "skb_data skb = hdr @ body"
    and hl: "length hdr = hdr_len" and kl: "length (cc_tfm_key key) = 16" "length (cc_tx_pn key) = 6"
  defines "pn \<equiv> pn_incr 5 (cc_tx_pn key)" and "enc \<equiv> aes (cc_tfm_key key)"
  assumes ib: "ccmp_init_blocks aes (cc_tfm_key key) hdr pn (length body) = Some (b0, auth, s0)"
  shows "\<exists>skb'. ieee80211_ccmp_encrypt aes skb hdr_len key = Some (0, skb', key\<lparr>cc_tx_pn := pn\<rparr>) \<and>
     skb_data skb' = hdr @ ccmp_header (cc_key_idx key) pn @ ccmp_crypt enc b0 body @
       xor_bytes (take 8 (ccmp_mac enc auth body (ccmp_blocks (length body)))) (take 8 s0)"
proof -
  have enc: "length x = 16 \<Longrightarrow> length (enc x) = 16" for x using kl aes_length by (simp add: enc_def)
  have lp: "length pn = 6" using kl by (simp add: pn_def)
  note lb = ccmp_init_blocks_length [OF ib kl(1) lp]
  let ?H = "ccmp_header (cc_key_idx key) pn"
  let ?c = "ccmp_crypt enc b0 body" and ?m = "ccmp_mac enc auth body (ccmp_blocks (length body))"
  have lc: "length ?c = length body" using lb enc by (simp add: length_ccmp_crypt)
  have "length (ccmp_mac enc b x k) = 16" if "length b = 16" for b x k
    using that by (induction k) (simp_all add: enc)
  then have lm: "length (xor_bytes (take 8 ?m) (take 8 s0)) = 8" using lb by simp
  obtain skb1 skb2 hole where p: "skb_push 8 skb = Some skb1" and m: "skb_move 0 8 hdr_len skb1 = Some skb2"
    and lh: "length hole = 8" and d2: "skb_data skb2 = hdr @ hole @ body" and r2: "skb_room skb2 = skb_room skb"
    using skb_open_hole_at [OF room(1) d] hl by auto
  define skb3 where "skb3 = skb2\<lparr>skb_data := hdr @ ?H @ body\<rparr>"
  have s3: "skb_store hdr_len ?H skb2 = Some skb3"
    using hl lh by (simp add: skb_store_at [OF d2] skb3_def)
  have "8 \<le> skb_tailroom skb3" using room r2 by (simp add: skb3_def skb_tailroom_def)
  then obtain skb4 where p4: "skb_put 8 skb3 = Some skb4" by (auto dest: skb_put_Some)
  from skb_put_window [OF p4] obtain t where t: "length t = 8" "skb_data skb4 = hdr @ ?H @ body @ t"
    by (auto simp: skb3_def)
  have ib': "ccmp_init_blocks aes (cc_tfm_key key) (skb_data skb4) pn (length body) = Some (b0, auth, s0)"
    unfolding t by (rule ccmp_init_blocks_prefix [OF ib])
  have l4: "skb_load (hdr_len + 8) (length body) skb4 = Some body"
    using hl t by (intro skb_load_at [where a = "hdr @ ?H" and c = t]) auto
  define skb5 where "skb5 = skb4\<lparr>skb_data := hdr @ ?H @ ?c @ t\<rparr>"
  have s5: "skb_store (hdr_len + 8) ?c skb4 = Some skb5"
    using hl t lc by (subst skb_store_at [where a = "hdr @ ?H" and b = body and c = t]) (auto simp: skb5_def)
  define skb6 where "skb6 = skb5\<lparr>skb_data := hdr @ ?H @ ?c @ xor_bytes (take 8 ?m) (take 8 s0)\<rparr>"
  have s6: "skb_store (hdr_len + 8 + length body) (xor_bytes (take 8 ?m) (take 8 s0)) skb5 = Some skb6"
    using hl t lc lm by (subst skb_store_at_end [where a = "hdr @ ?H @ ?c" and b = t]) (auto simp: skb5_def skb6_def)
  have len: "skb_len skb = hdr_len + length body" "skb_len skb3 = hdr_len + 8 + length body"
    using d hl by (simp_all add: skb_len_def skb3_def)
  have sl: "ccmp_seal_loop enc b0 auth body = (?m, ?c)" using lb enc by (simp add: ccmp_seal_loop_spec)
  show ?thesis
    using room p m s3 p4 ib' l4 s5 s6 len sl
    by (simp add: ieee80211_ccmp_encrypt_def Let_def pn_def [symmetric] enc_def [symmetric]) (simp add: skb6_def)
qed

lemma ccmp_decrypt_frame:
  assumes d: "skb_data skb = hdr @ ccmp_header idx pn @ c @ t"
    and hl: "length hdr = hdr_len" and lt: "length t = 8" and lp: "length pn = 6"
    and kl: "length (cc_tfm_key key) = 16" and ks: "cc_key_set key"
    and idx: "0 \<le> idx" "idx < 4" "cc_key_idx key = idx"
    and ib: "ccmp_init_blocks aes (cc_tfm_key key) hdr pn (length c) = Some (b0, auth, s0)"
  defines "enc \<equiv> aes (cc_tfm_key key)"
  defines "p \<equiv> ccmp_crypt enc b0 c"
  defines "mac \<equiv> ccmp_mac enc auth p (ccmp_blocks (length c))"
  shows "\<exists>skb'. ieee80211_ccmp_decrypt aes skb hdr_len key = Some
     (if xor_bytes t (take 8 s0) \<noteq> take 8 mac
      then (- 5, skb', key\<lparr>cc_DecryptErrors := cc_DecryptErrors key + 1\<rparr>)
      else (idx, skb', key\<lparr>cc_rx_pn := pn\<rparr>)) \<and>
     (xor_bytes t (take 8 s0) = take 8 mac \<longrightarrow> skb_data skb' = hdr @ p)"
proof -
  have enc: "length x = 16 \<Longrightarrow> length (enc x) = 16" for x using kl aes_length by (simp add: enc_def)
  note lb = ccmp_init_blocks_length [OF ib kl lp]
  let ?H = "ccmp_header idx pn" and ?m = "xor_bytes t (take 8 s0)"
  have lpl: "length p = length c" using lb enc by (simp add: p_def length_ccmp_crypt)
  have lm: "length ?m = 8" using lb lt by simp
  have len: "skb_len skb = hdr_len + 8 + length c + 8" using d hl lt by (simp add: skb_len_def)
  have l1: "skb_load hdr_len 8 skb = Some ?H"
    using d hl by (intro skb_load_at [where a = hdr]) auto
  have ib': "ccmp_init_blocks aes (cc_tfm_key key) (skb_data skb) pn (length c) = Some (b0, auth, s0)"
    unfolding d by (rule ccmp_init_blocks_prefix [OF ib])
  have l2: "skb_load (skb_len skb - 8) 8 skb = Some t"
    using d hl lt len by (intro skb_load_at_end [where a = "hdr @ ?H @ c"]) auto
  have xb: "xor_block t s0 8 = ?m" using lt by (simp add: xor_block_def)
  define skb1 where "skb1 = skb\<lparr>skb_data := hdr @ ?H @ c @ ?m\<rparr>"
  have s1: "skb_store (skb_len skb - 8) ?m skb = Some skb1"
    using d hl lt lm len by (subst skb_store_at_end [where a = "hdr @ ?H @ c" and b = t]) (auto simp: skb1_def)
  have l3: "skb_load (hdr_len + 8) (length c) skb1 = Some c"
    using hl by (intro skb_load_at [where a = "hdr @ ?H" and c = ?m]) (auto simp: skb1_def)
  define skb2 where "skb2 = skb1\<lparr>skb_data := hdr @ ?H @ p @ ?m\<rparr>"
  have s2: "skb_store (hdr_len + 8) p skb1 = Some skb2"
    using hl lpl by (subst skb_store_at [where a = "hdr @ ?H" and b = c and c = ?m]) (auto simp: skb1_def skb2_def)
  have ol: "ccmp_open_loop enc b0 auth c = (mac, p)"
    using lb enc by (simp add: ccmp_open_loop_spec mac_def p_def)
  have d2: "skb_data skb2 = hdr @ ?H @ p @ ?m" by (simp add: skb2_def)
  obtain skb3 where m: "skb_move 8 0 hdr_len skb2 = Some skb3"
    and f: "skb_data (skb_trim (skb_len (skb_pull 8 skb3) - 8) (skb_pull 8 skb3)) = hdr @ p"
    using skb_strip [OF d2] hl lm by auto
  show ?thesis
    using l1 ib' l2 xb s1 l3 s2 ol m f len
    by (simp add: ieee80211_ccmp_decrypt_def Let_def nth_ccmp_header ext_iv_key_byte [OF idx(1,2)] idx(3) ks
          ccmp_header_pn_header [OF lp] enc_def [symmetric] del: xor_bytes_take_right)
qed

end

section \<open>Properties\<close>

text \<open>The whole path, with the shape of the sealed frame.\<close>

lemma ccmp_path:
  assumes bc: "block_cipher aes" and room: "8 \<le> skb_headroom skb" "8 \<le> skb_tailroom skb"
    and d: "skb_data skb = hdr @ body"
    and ib: "ccmp_init_blocks aes (cc_tfm_key tx) hdr (pn_incr 5 (cc_tx_pn tx)) (length body) \<noteq> None"
    and keys: "length (cc_tfm_key tx) = 16" "length (cc_tx_pn tx) = 6" "cc_tfm_key rx = cc_tfm_key tx"
      "cc_key_set rx" "cc_key_idx rx = cc_key_idx tx" "0 \<le> cc_key_idx tx" "cc_key_idx tx < 4"
  shows "\<exists>skb'.
     ieee80211_ccmp_encrypt aes skb (length hdr) tx = Some (0, skb', tx\<lparr>cc_tx_pn := pn_incr 5 (cc_tx_pn tx)\<rparr>) \<and>
     skb_len skb' = skb_len skb + 16 \<and>
     (\<forall>skbr. skb_data skbr = skb_data skb' \<longrightarrow> (\<exists>skb''. ieee80211_ccmp_decrypt aes skbr (length hdr) rx =
       Some (cc_key_idx tx, skb'', rx\<lparr>cc_rx_pn := pn_incr 5 (cc_tx_pn tx)\<rparr>) \<and>
     skb_data skb'' = skb_data skb)) \<and>
     (\<exists>c. skb_data skb' = hdr @ ccmp_header (cc_key_idx tx) (pn_incr 5 (cc_tx_pn tx)) @ c)"
proof -
  define pn where "pn = pn_incr 5 (cc_tx_pn tx)"
  define enc where "enc = aes (cc_tfm_key tx)"
  obtain b0 auth s0 where i: "ccmp_init_blocks aes (cc_tfm_key tx) hdr pn (length body) = Some (b0, auth, s0)"
    using ib by (auto simp: pn_def)
  have lp: "length pn = 6" using keys by (simp add: pn_def)
  have enc: "length x = 16 \<Longrightarrow> length (enc x) = 16" for x
    using keys block_cipher.aes_length [OF bc] by (simp add: enc_def)
  note lb = block_cipher.ccmp_init_blocks_length [OF bc i keys(1) lp]
  define c where "c = ccmp_crypt enc b0 body"
  define m where "m = ccmp_mac enc auth body (ccmp_blocks (length body))"
  have lc: "length c = length body" and cc: "ccmp_crypt enc b0 c = body"
    using lb enc by (simp_all add: c_def length_ccmp_crypt ccmp_crypt_crypt)
  have "length (ccmp_mac enc b x k) = 16" if "length b = 16" for b x k
    using that by (induction k) (simp_all add: enc)
  then have lm: "length (take 8 m) = 8" "length (take 8 s0) = 8" using lb by (simp_all add: m_def)
  obtain skb' where e: "ieee80211_ccmp_encrypt aes skb (length hdr) tx = Some (0, skb', tx\<lparr>cc_tx_pn := pn\<rparr>)"
    and d': "skb_data skb' = hdr @ ccmp_header (cc_key_idx tx) pn @ c @ xor_bytes (take 8 m) (take 8 s0)"
    using block_cipher.ccmp_encrypt_frame [OF bc room d refl keys(1,2) i [unfolded pn_def]]
    by (auto simp: pn_def enc_def c_def m_def)
  define c' where "c' = c @ xor_bytes (take 8 m) (take 8 s0)"
  have len: "skb_len skb' = skb_len skb + 16" using d d' lc lm by (simp add: skb_len_def)
  have x: "xor_bytes (xor_bytes (take 8 m) (take 8 s0)) (take 8 s0) = take 8 m" using lm by simp
  have o: "\<exists>skb''. ieee80211_ccmp_decrypt aes skbr (length hdr) rx = Some (cc_key_idx tx, skb'', rx\<lparr>cc_rx_pn := pn\<rparr>) \<and>
      skb_data skb'' = hdr @ body" if r: "skb_data skbr = skb_data skb'" for skbr
    using block_cipher.ccmp_decrypt_frame [OF bc r [unfolded d'] refl _ lp, of rx b0 auth s0] keys i lc lm cc x
    by (auto simp: enc_def [symmetric] m_def)
  show ?thesis
    unfolding pn_def [symmetric]
    by (rule exI [of _ skb'], intro conjI exI [of _ c'] allI impI)
      (simp_all only: e len o d d' append_assoc c'_def)
qed

text \<open>C17: CCMP round trip.  A frame that \<open>ieee80211_ccmp_encrypt\<close> seals, a peer with the same
  key and key index opens: both succeed, the decrypted frame is the original one, the frame on
  the air is 16 bytes longer, and the peer's receive PN becomes the sender's PN.\<close>

theorem ccmp_roundtrip:
  assumes bc: "block_cipher aes" and room: "8 \<le> skb_headroom skb" "8 \<le> skb_tailroom skb"
    and d: "skb_data skb = hdr @ body"
    and ib: "ccmp_init_blocks aes (cc_tfm_key tx) hdr (pn_incr 5 (cc_tx_pn tx)) (length body) \<noteq> None"
    and keys: "length (cc_tfm_key tx) = 16" "length (cc_tx_pn tx) = 6" "cc_tfm_key rx = cc_tfm_key tx"
      "cc_key_set rx" "cc_key_idx rx = cc_key_idx tx" "0 \<le> cc_key_idx tx" "cc_key_idx tx < 4"
  shows "\<exists>skb' skb''.
     ieee80211_ccmp_encrypt aes skb (length hdr) tx = Some (0, skb', tx\<lparr>cc_tx_pn := pn_incr 5 (cc_tx_pn tx)\<rparr>) \<and>
     skb_len skb' = skb_len skb + 16 \<and>
     ieee80211_ccmp_decrypt aes skb' (length hdr) rx =
       Some (cc_key_idx tx, skb'', rx\<lparr>cc_rx_pn := pn_incr 5 (cc_tx_pn tx)\<rparr>) \<and>
     skb_data skb'' = skb_data skb"
  using ccmp_path [OF assms] by blast

definition ccmp_frame_example :: bytes where
  "ccmp_frame_example = [0x08, 0x01] @ map word_of_nat [2..<24]"

theorem ccmp_roundtrip_witness:
  "\<exists>skb' skb''.
     ieee80211_ccmp_encrypt xor_bytes \<lparr>skb_head = replicate 8 0, skb_data = ccmp_frame_example @ [1, 2, 3], skb_room = replicate 8 0\<rparr>
       (length ccmp_frame_example) (ccmp_zero\<lparr>cc_tfm_key := replicate 16 5, cc_key_idx := 1\<rparr>) =
       Some (0, skb', (ccmp_zero\<lparr>cc_tfm_key := replicate 16 5, cc_key_idx := 1\<rparr>)
         \<lparr>cc_tx_pn := pn_incr 5 (cc_tx_pn (ccmp_zero\<lparr>cc_tfm_key := replicate 16 5, cc_key_idx := 1\<rparr>))\<rparr>) \<and>
     skb_len skb' = skb_len \<lparr>skb_head = replicate 8 0, skb_data = ccmp_frame_example @ [1, 2, 3], skb_room = replicate 8 0\<rparr> + 16 \<and>
     ieee80211_ccmp_decrypt xor_bytes skb' (length ccmp_frame_example)
       (ccmp_zero\<lparr>cc_tfm_key := replicate 16 5, cc_key_idx := 1, cc_key_set := True\<rparr>) =
       Some (cc_key_idx (ccmp_zero\<lparr>cc_tfm_key := replicate 16 5, cc_key_idx := 1\<rparr>), skb'',
         (ccmp_zero\<lparr>cc_tfm_key := replicate 16 5, cc_key_idx := 1, cc_key_set := True\<rparr>)
         \<lparr>cc_rx_pn := pn_incr 5 (cc_tx_pn (ccmp_zero\<lparr>cc_tfm_key := replicate 16 5, cc_key_idx := 1\<rparr>))\<rparr>) \<and>
     skb_data skb'' = skb_data \<lparr>skb_head = replicate 8 0, skb_data = ccmp_frame_example @ [1, 2, 3], skb_room = replicate 8 0\<rparr>"
proof -
  have "block_cipher xor_bytes" by unfold_locales simp
  then show ?thesis
    by (rule ccmp_roundtrip [where body = "[1, 2, 3]"])
      (simp_all add: skb_headroom_def skb_tailroom_def ccmp_zero_def ccmp_init_blocks_def ccmp_hdr_fields_def ccmp_frame_example_def
         buf_read_def buf_byte_def upt_rec get_le16_def Let_def)
qed

text \<open>C13: The in-place block loops are counter mode and CBC-MAC: sealing authenticates the plain
  text, opening authenticates what it decrypts, and both apply the same key stream.\<close>

theorem ccmp_loops_spec:
  assumes "length b0 = 16" and "\<And>x. length x = 16 \<Longrightarrow> length (enc x) = 16"
  shows "ccmp_seal_loop enc b0 b d = (ccmp_mac enc b d (ccmp_blocks (length d)), ccmp_crypt enc b0 d) \<and>
    ccmp_open_loop enc b0 b d = (ccmp_mac enc b (ccmp_crypt enc b0 d) (ccmp_blocks (length d)), ccmp_crypt enc b0 d)"
  using ccmp_seal_loop_spec [OF assms] ccmp_open_loop_spec [OF assms] by simp

theorem ccmp_loops_spec_witness:
  "ccmp_seal_loop (\<lambda>x. map NOT x) (replicate 16 1) (replicate 16 2) (replicate 20 3) =
      (ccmp_mac (\<lambda>x. map NOT x) (replicate 16 2) (replicate 20 3) (ccmp_blocks (length (replicate 20 (3 :: u8)))),
       ccmp_crypt (\<lambda>x. map NOT x) (replicate 16 1) (replicate 20 3)) \<and>
    ccmp_open_loop (\<lambda>x. map NOT x) (replicate 16 1) (replicate 16 2) (replicate 20 3) =
      (ccmp_mac (\<lambda>x. map NOT x) (replicate 16 2) (ccmp_crypt (\<lambda>x. map NOT x) (replicate 16 1) (replicate 20 3))
         (ccmp_blocks (length (replicate 20 (3 :: u8)))),
       ccmp_crypt (\<lambda>x. map NOT x) (replicate 16 1) (replicate 20 3))"
  by (rule ccmp_loops_spec) simp_all

text \<open>The packet number of CCMP, read as a 48-bit big-endian integer, grows by one with
  every increment, modulo \<open>2^48\<close>.\<close>

theorem ccmp_pn_increment:
  "length pn = 6 \<Longrightarrow> pn_val (pn_incr 5 pn) = (pn_val pn + 1) mod 2 ^ 48"
  by (rule pn_incr_val)

theorem ccmp_pn_increment_witness:
  "pn_val (pn_incr 5 [0, 0, 0, 1, 255, 255]) = (pn_val [0, 0, 0, 1, 255, 255] + 1) mod 2 ^ 48"
  by (rule ccmp_pn_increment) simp

text \<open>CCMP reception does not check for replays: neither the verdict nor the frame
  depends on the packet number of the last accepted frame.\<close>

theorem ccmp_no_replay_check:
  "map_option (\<lambda>(r, s, k). (r, s)) (ieee80211_ccmp_decrypt aes skb hdr_len (key\<lparr>cc_rx_pn := pn\<rparr>)) =
   map_option (\<lambda>(r, s, k). (r, s)) (ieee80211_ccmp_decrypt aes skb hdr_len key)"
proof -
  have b: "map_option f (x \<bind> g) = x \<bind> (\<lambda>y. map_option f (g y))" for f g and x :: "'a option"
    by (cases x) simp_all
  show ?thesis
    by (simp add: ieee80211_ccmp_decrypt_def Let_def b case_prod_beta if_distrib [of "map_option _"] cong: if_cong)
qed

text \<open>A CCMP key set and read back: \<open>get_key\<close> returns the key \<open>set_key\<close> installed and the
  transmit PN, least significant byte first; the key is loaded into the cipher transform, the
  receive PN is the sequence counter given, and the key index is kept.\<close>

theorem ccmp_set_get_key:
  assumes "length key = 16" and "length sq = 6" and "16 \<le> blen" and "16 \<le> length buf" and "6 \<le> length sbuf"
  shows "\<exists>d. ieee80211_ccmp_set_key key 16 (Some sq) data = Some (0, d) \<and> cc_tfm_key d = key \<and>
     cc_rx_pn d = rev sq \<and> cc_key_idx d = cc_key_idx data \<and>
     ieee80211_ccmp_get_key buf blen (Some sbuf) d =
       Some (16, key @ drop 16 buf, Some (replicate 6 0 @ drop 6 sbuf))"
  using assms
  by (auto simp: ieee80211_ccmp_set_key_def ieee80211_ccmp_get_key_def buf_read_def buf_write_def ccmp_zero_def
        Let_def)

theorem ccmp_set_get_key_witness:
  "\<exists>d. ieee80211_ccmp_set_key (replicate 16 7) 16 (Some [1, 2, 3, 4, 5, 6]) ccmp_zero = Some (0, d) \<and>
     cc_tfm_key d = replicate 16 7 \<and> cc_rx_pn d = rev [1, 2, 3, 4, 5, 6] \<and> cc_key_idx d = cc_key_idx ccmp_zero \<and>
     ieee80211_ccmp_get_key (replicate 20 0) 20 (Some (replicate 6 1)) d =
       Some (16, replicate 16 7 @ drop 16 (replicate 20 0), Some (replicate 6 0 @ drop 6 (replicate 6 1)))"
  by (rule ccmp_set_get_key) simp_all

end
