(* ===== verification/Aes.thy ===== *)
theory Aes
  imports Ciphers
begin

text \<open>
  \<open>ieee80211/aes.c\<close>: the AES cipher the driver brings for kernels without one.  The lookup
  tables are the static arrays \<open>gen_tabs\<close> fills at module load (zero before that).  The key
  context is the memory of \<open>struct aes_ctx\<close>: the arrays \<open>E\<close> and \<open>D\<close> of 60 words follow each
  other, and for 256-bit keys the code writes four words past the end of \<open>E\<close>, into \<open>D\<close>.
\<close>

section \<open>Rotations and bytes\<close>

definition generic_rotr32 :: "u32 \<Rightarrow> nat \<Rightarrow> u32" where
  "generic_rotr32 x bits = (let n = bits mod 32 in drop_bit n x OR push_bit (32 - n) x)"

definition generic_rotl32 :: "u32 \<Rightarrow> nat \<Rightarrow> u32" where
  "generic_rotl32 x bits = (let n = bits mod 32 in push_bit n x OR drop_bit (32 - n) x)"

definition aes_byte :: "u32 \<Rightarrow> nat \<Rightarrow> u8" where
  "aes_byte x n = ucast (drop_bit (8 * n) x)"

definition u32_in :: "nat \<Rightarrow> bytes \<Rightarrow> u32" where
  "u32_in off xs = get_le32 (xs ! off) (xs ! (off + 1)) (xs ! (off + 2)) (xs ! (off + 3))"

definition u32_out :: "u32 \<Rightarrow> bytes" where
  "u32_out v = le32 v"

section \<open>The tables\<close>

record aes_tables =
  pow_tab :: bytes
  log_tab :: bytes
  sbx_tab :: bytes
  isb_tab :: bytes
  rco_tab :: "u32 list"
  ft_tab :: "u32 list list"
  it_tab :: "u32 list list"
  fl_tab :: "u32 list list"
  il_tab :: "u32 list list"

definition static_tabs :: aes_tables where
  "static_tabs = \<lparr>pow_tab = replicate 256 0, log_tab = replicate 256 0, sbx_tab = replicate 256 0,
     isb_tab = replicate 256 0, rco_tab = replicate 10 0, ft_tab = replicate 4 (replicate 256 0),
     it_tab = replicate 4 (replicate 256 0), fl_tab = replicate 4 (replicate 256 0),
     il_tab = replicate 4 (replicate 256 0)\<rparr>"

definition f_mult :: "aes_tables \<Rightarrow> u8 \<Rightarrow> u8 \<Rightarrow> u8" where
  "f_mult tb a b =
     (let aa = log_tab tb ! unat a; cc = aa + log_tab tb ! unat b
      in pow_tab tb ! (unat cc + (if cc < aa then 1 else 0)))"

definition ff_mult :: "aes_tables \<Rightarrow> u8 \<Rightarrow> u8 \<Rightarrow> u8" where
  "ff_mult tb a b = (if a \<noteq> 0 \<and> b \<noteq> 0 then f_mult tb a b else 0)"

text \<open>Doubling in the field: \<open>(p << 1) ^ (p & 0x80 ? 0x01b : 0)\<close>, cut to a byte.\<close>

definition gf_double :: "u8 \<Rightarrow> u8" where
  "gf_double p = push_bit 1 p XOR (if p AND 0x80 \<noteq> 0 then 0x1b else 0)"

definition gen_pow_log :: "nat \<Rightarrow> u8 \<times> aes_tables \<Rightarrow> u8 \<times> aes_tables" where
  "gen_pow_log i st = (case st of (p, tb) \<Rightarrow>
     (p XOR gf_double p,
      tb\<lparr>pow_tab := (pow_tab tb)[i := p], log_tab := (log_tab tb)[unat p := word_of_nat i]\<rparr>))"

definition gen_rco :: "nat \<Rightarrow> u8 \<times> aes_tables \<Rightarrow> u8 \<times> aes_tables" where
  "gen_rco i st = (case st of (p, tb) \<Rightarrow>
     (gf_double p, tb\<lparr>rco_tab := (rco_tab tb)[i := ucast p]\<rparr>))"

definition gen_sbox :: "nat \<Rightarrow> aes_tables \<Rightarrow> aes_tables" where
  "gen_sbox i tb =
     (let p = (if i \<noteq> 0 then pow_tab tb ! (255 - unat (log_tab tb ! i)) else 0);
          q = (drop_bit 7 p OR push_bit 1 p) XOR (drop_bit 6 p OR push_bit 2 p);
          p = p XOR (0x63 XOR q XOR (drop_bit 6 q OR push_bit 2 q))
      in tb\<lparr>sbx_tab := (sbx_tab tb)[i := p], isb_tab := (isb_tab tb)[unat p := word_of_nat i]\<rparr>)"

text \<open>The four assignments \<open>tab[0][i] = t; tab[1][i] = rotl (t, 8); ...\<close>\<close>

definition set_row :: "nat \<Rightarrow> u32 \<Rightarrow> u32 list list \<Rightarrow> u32 list list" where
  "set_row i t tab =
     [(tab ! 0)[i := t], (tab ! 1)[i := generic_rotl32 t 8], (tab ! 2)[i := generic_rotl32 t 16],
      (tab ! 3)[i := generic_rotl32 t 24]]"

definition ft_word :: "aes_tables \<Rightarrow> u8 \<Rightarrow> u32" where
  "ft_word tb p = ucast (ff_mult tb 2 p) OR push_bit 8 (ucast p) OR push_bit 16 (ucast p) OR
     push_bit 24 (ucast (ff_mult tb 3 p))"

definition it_word :: "aes_tables \<Rightarrow> u8 \<Rightarrow> u32" where
  "it_word tb p = ucast (ff_mult tb 14 p) OR push_bit 8 (ucast (ff_mult tb 9 p)) OR
     push_bit 16 (ucast (ff_mult tb 13 p)) OR push_bit 24 (ucast (ff_mult tb 11 p))"

definition gen_round :: "nat \<Rightarrow> aes_tables \<Rightarrow> aes_tables" where
  "gen_round i tb =
     (let p = sbx_tab tb ! i;
          tb = tb\<lparr>fl_tab := set_row i (ucast p) (fl_tab tb)\<rparr>;
          tb = tb\<lparr>ft_tab := set_row i (ft_word tb p) (ft_tab tb)\<rparr>;
          p = isb_tab tb ! i;
          tb = tb\<lparr>il_tab := set_row i (ucast p) (il_tab tb)\<rparr>
      in tb\<lparr>it_tab := set_row i (it_word tb p) (it_tab tb)\<rparr>)"

definition gen_tabs :: "aes_tables \<Rightarrow> aes_tables" where
  "gen_tabs tb =
     (let (_, tb) = fold gen_pow_log [0..<256] (1, tb);
          tb = tb\<lparr>log_tab := (log_tab tb)[1 := 0]\<rparr>;
          (_, tb) = fold gen_rco [0..<10] (1, tb);
          tb = fold gen_sbox [0..<256] tb
      in fold gen_round [0..<256] tb)"

definition aes_tabs :: aes_tables where
  "aes_tabs = gen_tabs static_tabs"

section \<open>The key schedule\<close>

record aes_ctx =
  key_length :: nat
  ctx_words :: "u32 list"

definition ctx_E :: nat where "ctx_E = 0"
definition ctx_D :: nat where "ctx_D = 60"

definition table_sum :: "u32 list list \<Rightarrow> u8 \<Rightarrow> u8 \<Rightarrow> u8 \<Rightarrow> u8 \<Rightarrow> u32" where
  "table_sum tab a b c d =
     tab ! 0 ! unat a XOR tab ! 1 ! unat b XOR tab ! 2 ! unat c XOR tab ! 3 ! unat d"

definition ls_box :: "aes_tables \<Rightarrow> u32 \<Rightarrow> u32" where
  "ls_box tb x = table_sum (fl_tab tb) (aes_byte x 0) (aes_byte x 1) (aes_byte x 2) (aes_byte x 3)"

text \<open>\<open>t ^= E_KEY[r]; E_KEY[w] = t;\<close>\<close>

definition key_step :: "nat \<Rightarrow> nat \<Rightarrow> u32 \<times> u32 list \<Rightarrow> u32 \<times> u32 list" where
  "key_step r w st = (case st of (t, E) \<Rightarrow> let t = t XOR E ! (ctx_E + r) in (t, E[ctx_E + w := t]))"

definition key_rot :: "aes_tables \<Rightarrow> nat \<Rightarrow> u32 \<times> u32 list \<Rightarrow> u32 \<times> u32 list" where
  "key_rot tb i st = (case st of (t, E) \<Rightarrow> (ls_box tb (generic_rotr32 t 8) XOR rco_tab tb ! i, E))"

definition loop4 :: "aes_tables \<Rightarrow> nat \<Rightarrow> u32 \<times> u32 list \<Rightarrow> u32 \<times> u32 list" where
  "loop4 tb i st = fold (\<lambda>n. key_step (4 * i + n) (4 * i + 4 + n)) [0, 1, 2, 3] (key_rot tb i st)"

definition loop6 :: "aes_tables \<Rightarrow> nat \<Rightarrow> u32 \<times> u32 list \<Rightarrow> u32 \<times> u32 list" where
  "loop6 tb i st = fold (\<lambda>n. key_step (6 * i + n) (6 * i + 6 + n)) [0, 1, 2, 3, 4, 5] (key_rot tb i st)"

definition loop8 :: "aes_tables \<Rightarrow> nat \<Rightarrow> u32 \<times> u32 list \<Rightarrow> u32 \<times> u32 list" where
  "loop8 tb i st =
     (let st = fold (\<lambda>n. key_step (8 * i + n) (8 * i + 8 + n)) [0, 1, 2, 3] (key_rot tb i st);
          st = (case st of (t, E) \<Rightarrow>
                  let t = E ! (ctx_E + (8 * i + 4)) XOR ls_box tb t in (t, E[ctx_E + (8 * i + 12) := t]))
      in fold (\<lambda>n. key_step (8 * i + n) (8 * i + 8 + n)) [5, 6, 7] st)"

definition star_x :: "u32 \<Rightarrow> u32" where
  "star_x x = push_bit 1 (x AND 0x7f7f7f7f) XOR drop_bit 7 (x AND 0x80808080) * 0x1b"

definition imix_col :: "u32 \<Rightarrow> u32" where
  "imix_col x =
     (let u = star_x x; v = star_x u; w = star_x v; t = w XOR x
      in u XOR v XOR w XOR
         (generic_rotr32 (u XOR t) 8 XOR generic_rotr32 (v XOR t) 16 XOR generic_rotr32 t 24))"

definition E_schedule :: "aes_tables \<Rightarrow> bytes \<Rightarrow> u32 list \<Rightarrow> u32 list" where
  "E_schedule tb in_key E =
     (let E = E[ctx_E := u32_in 0 in_key, ctx_E + 1 := u32_in 4 in_key,
                ctx_E + 2 := u32_in 8 in_key, ctx_E + 3 := u32_in 12 in_key]
      in if length in_key = 16 then
           snd (fold (loop4 tb) [0..<10] (E ! (ctx_E + 3), E))
         else if length in_key = 24 then
           let E = E[ctx_E + 4 := u32_in 16 in_key, ctx_E + 5 := u32_in 20 in_key]
           in snd (fold (loop6 tb) [0..<8] (E ! (ctx_E + 5), E))
         else
           let E = E[ctx_E + 4 := u32_in 16 in_key, ctx_E + 5 := u32_in 20 in_key,
                     ctx_E + 6 := u32_in 24 in_key, ctx_E + 7 := u32_in 28 in_key]
           in snd (fold (loop8 tb) [0..<7] (E ! (ctx_E + 7), E)))"

definition D_schedule :: "nat \<Rightarrow> u32 list \<Rightarrow> u32 list" where
  "D_schedule key_len E =
     (let E = E[ctx_D := E ! ctx_E, ctx_D + 1 := E ! (ctx_E + 1), ctx_D + 2 := E ! (ctx_E + 2),
                ctx_D + 3 := E ! (ctx_E + 3)]
      in fold (\<lambda>i E. E[ctx_D + i := imix_col (E ! (ctx_E + i))]) [4..<key_len + 24] E)"

text \<open>\<open>-EINVAL\<close> and the flag \<open>CRYPTO_TFM_RES_BAD_KEY_LEN\<close> for a length that is not 16, 24 or 32.\<close>

definition aes_set_key :: "aes_tables \<Rightarrow> aes_ctx \<Rightarrow> bytes \<Rightarrow> u32 \<Rightarrow> int \<times> u32 \<times> aes_ctx" where
  "aes_set_key tb ctx in_key flags =
     (let key_len = length in_key
      in if key_len \<noteq> 16 \<and> key_len \<noteq> 24 \<and> key_len \<noteq> 32 then (- 22, flags OR 0x00200000, ctx)
         else (0, flags, \<lparr>key_length = key_len,
                ctx_words = D_schedule key_len (E_schedule tb in_key (ctx_words ctx))\<rparr>))"

section \<open>Encryption and decryption of a block\<close>

definition f_rn :: "aes_tables \<Rightarrow> u32 list \<Rightarrow> u32 list \<Rightarrow> nat \<Rightarrow> nat \<Rightarrow> u32" where
  "f_rn tb E bi n k = table_sum (ft_tab tb) (aes_byte (bi ! n) 0) (aes_byte (bi ! ((n + 1) mod 4)) 1)
     (aes_byte (bi ! ((n + 2) mod 4)) 2) (aes_byte (bi ! ((n + 3) mod 4)) 3) XOR E ! (k + n)"

definition f_rl :: "aes_tables \<Rightarrow> u32 list \<Rightarrow> u32 list \<Rightarrow> nat \<Rightarrow> nat \<Rightarrow> u32" where
  "f_rl tb E bi n k = table_sum (fl_tab tb) (aes_byte (bi ! n) 0) (aes_byte (bi ! ((n + 1) mod 4)) 1)
     (aes_byte (bi ! ((n + 2) mod 4)) 2) (aes_byte (bi ! ((n + 3) mod 4)) 3) XOR E ! (k + n)"

definition i_rn :: "aes_tables \<Rightarrow> u32 list \<Rightarrow> u32 list \<Rightarrow> nat \<Rightarrow> nat \<Rightarrow> u32" where
  "i_rn tb E bi n k = table_sum (it_tab tb) (aes_byte (bi ! n) 0) (aes_byte (bi ! ((n + 3) mod 4)) 1)
     (aes_byte (bi ! ((n + 2) mod 4)) 2) (aes_byte (bi ! ((n + 1) mod 4)) 3) XOR E ! (k + n)"

definition i_rl :: "aes_tables \<Rightarrow> u32 list \<Rightarrow> u32 list \<Rightarrow> nat \<Rightarrow> nat \<Rightarrow> u32" where
  "i_rl tb E bi n k = table_sum (il_tab tb) (aes_byte (bi ! n) 0) (aes_byte (bi ! ((n + 3) mod 4)) 1)
     (aes_byte (bi ! ((n + 2) mod 4)) 2) (aes_byte (bi ! ((n + 1) mod 4)) 3) XOR E ! (k + n)"

text \<open>A round maps the four words and the key pointer.\<close>

type_synonym aes_state = "u32 list \<times> nat"

definition f_nround :: "aes_tables \<Rightarrow> u32 list \<Rightarrow> aes_state \<Rightarrow> aes_state" where
  "f_nround tb E st = (case st of (b, k) \<Rightarrow> (map (\<lambda>n. f_rn tb E b n k) [0, 1, 2, 3], k + 4))"

definition f_lround :: "aes_tables \<Rightarrow> u32 list \<Rightarrow> aes_state \<Rightarrow> u32 list" where
  "f_lround tb E st = (case st of (b, k) \<Rightarrow> map (\<lambda>n. f_rl tb E b n k) [0, 1, 2, 3])"

definition i_nround :: "aes_tables \<Rightarrow> u32 list \<Rightarrow> aes_state \<Rightarrow> aes_state" where
  "i_nround tb E st = (case st of (b, k) \<Rightarrow> (map (\<lambda>n. i_rn tb E b n k) [0, 1, 2, 3], k - 4))"

definition i_lround :: "aes_tables \<Rightarrow> u32 list \<Rightarrow> aes_state \<Rightarrow> u32 list" where
  "i_lround tb E st = (case st of (b, k) \<Rightarrow> map (\<lambda>n. i_rl tb E b n k) [0, 1, 2, 3])"

definition aes_encrypt :: "aes_tables \<Rightarrow> aes_ctx \<Rightarrow> bytes \<Rightarrow> bytes" where
  "aes_encrypt tb ctx inp =
     (let E = ctx_words ctx;
          st = ([u32_in 0 inp XOR E ! ctx_E, u32_in 4 inp XOR E ! (ctx_E + 1),
                 u32_in 8 inp XOR E ! (ctx_E + 2), u32_in 12 inp XOR E ! (ctx_E + 3)], ctx_E + 4);
          st = (if key_length ctx > 24 then (f_nround tb E ^^ 2) st else st);
          st = (if key_length ctx > 16 then (f_nround tb E ^^ 2) st else st);
          st = (f_nround tb E ^^ 9) st
      in concat (map u32_out (f_lround tb E st)))"

definition aes_decrypt :: "aes_tables \<Rightarrow> aes_ctx \<Rightarrow> bytes \<Rightarrow> bytes" where
  "aes_decrypt tb ctx inp =
     (let E = ctx_words ctx; key_len = key_length ctx;
          st = ([u32_in 0 inp XOR E ! (ctx_E + (key_len + 24)), u32_in 4 inp XOR E ! (ctx_E + (key_len + 25)),
                 u32_in 8 inp XOR E ! (ctx_E + (key_len + 26)), u32_in 12 inp XOR E ! (ctx_E + (key_len + 27))],
                ctx_D + (key_len + 20));
          st = (if key_len > 24 then (i_nround tb E ^^ 2) st else st);
          st = (if key_len > 16 then (i_nround tb E ^^ 2) st else st);
          st = (i_nround tb E ^^ 9) st
      in concat (map u32_out (i_lround tb E st)))"

text \<open>\<open>setkey\<close> on a fresh context, then one block.\<close>

definition aes_one :: "bytes \<Rightarrow> bytes \<Rightarrow> bytes" where
  "aes_one key blk =
     (let (_, _, ctx) = aes_set_key aes_tabs \<lparr>key_length = 0, ctx_words = replicate 120 0\<rparr> key 0
      in aes_encrypt aes_tabs ctx blk)"

lemma length_aes_encrypt: "length (aes_encrypt tb ctx blk) = 16"
  by (simp add: aes_encrypt_def f_lround_def u32_out_def Let_def split: prod.split)

interpretation aes: block_cipher aes_one
  by unfold_locales (simp add: aes_one_def length_aes_encrypt split: prod.split)

end
