(* ===== verification/Mpdu.thy ===== *)
theory Mpdu
  imports Wep Tkip Ccmp Aes
begin

text \<open>
  The interface between the 802.11 stack and the ciphers: the operation table
  \<open>struct ieee80211_crypto_ops\<close> and its three instances, the two ways the stack uses it
  (\<open>crypt_seal\<close> in the transmit path, \<open>crypt_open\<close> in the receive path), and the law both
  paths rely on, as the locale \<open>mpdu_cipher\<close>.  \<open>'p\<close> is the type of the private context.
\<close>

type_synonym 'p mpdu_op = "sk_buff \<Rightarrow> nat \<Rightarrow> 'p \<Rightarrow> (int \<times> sk_buff \<times> 'p) option"

record 'p crypto_ops =
  co_name :: string
  co_encrypt_mpdu :: "'p mpdu_op option"
  co_decrypt_mpdu :: "'p mpdu_op option"
  co_encrypt_msdu :: "'p mpdu_op option"
  co_decrypt_msdu :: "(int \<Rightarrow> 'p mpdu_op) option"
  co_extra_prefix_len :: nat
  co_extra_postfix_len :: nat

definition ieee80211_crypt_wep ::
  "(bytes \<Rightarrow> bytes \<Rightarrow> int \<times> bytes) \<Rightarrow> (u32 \<Rightarrow> bytes \<Rightarrow> u32) \<Rightarrow> prism2_wep_data crypto_ops" where
  "ieee80211_crypt_wep rc4 crc32_le =
     \<lparr>co_name = ''WEP'', co_encrypt_mpdu = Some (prism2_wep_encrypt rc4 crc32_le),
      co_decrypt_mpdu = Some (\<lambda>skb hdr_len wep.
        map_option (\<lambda>(r, skb). (r, skb, wep)) (prism2_wep_decrypt rc4 crc32_le skb hdr_len wep)),
      co_encrypt_msdu = None, co_decrypt_msdu = None, co_extra_prefix_len = 4, co_extra_postfix_len = 4\<rparr>"

definition ieee80211_crypt_tkip ::
  "(bytes \<Rightarrow> bytes \<Rightarrow> int \<times> bytes) \<Rightarrow> (u32 \<Rightarrow> bytes \<Rightarrow> u32) \<Rightarrow> (bytes \<Rightarrow> bytes \<Rightarrow> int \<times> bytes) \<Rightarrow>
     ieee80211_tkip_data crypto_ops" where
  "ieee80211_crypt_tkip rc4 crc32_le michael =
     \<lparr>co_name = ''TKIP'', co_encrypt_mpdu = Some (ieee80211_tkip_encrypt rc4 crc32_le),
      co_decrypt_mpdu = Some (ieee80211_tkip_decrypt rc4 crc32_le),
      co_encrypt_msdu = Some (ieee80211_michael_mic_add michael),
      co_decrypt_msdu = Some (\<lambda>_. ieee80211_michael_mic_verify michael),
      co_extra_prefix_len = 4 + 4, co_extra_postfix_len = 8 + 4\<rparr>"

definition ieee80211_crypt_ccmp :: "(bytes \<Rightarrow> bytes \<Rightarrow> bytes) \<Rightarrow> ieee80211_ccmp_data crypto_ops" where
  "ieee80211_crypt_ccmp aes =
     \<lparr>co_name = ''CCMP'', co_encrypt_mpdu = Some (ieee80211_ccmp_encrypt aes),
      co_decrypt_mpdu = Some (ieee80211_ccmp_decrypt aes),
      co_encrypt_msdu = None, co_decrypt_msdu = None, co_extra_prefix_len = 8, co_extra_postfix_len = 8\<rparr>"

section \<open>How the stack calls the table\<close>

text \<open>The transmit side: the MSDU operation if there is one, and if it returned 0 the MPDU operation.\<close>

definition crypt_seal :: "'p crypto_ops \<Rightarrow> 'p mpdu_op" where
  "crypt_seal ops frag hdr_len priv = do {
     (res, frag, priv) \<leftarrow> (case co_encrypt_msdu ops of
                            None \<Rightarrow> Some (0, frag, priv) | Some f \<Rightarrow> f frag hdr_len priv);
     if res = 0 then (case co_encrypt_mpdu ops of
                        None \<Rightarrow> Some (res, frag, priv) | Some f \<Rightarrow> f frag hdr_len priv)
     else Some (res, frag, priv)
   }"

text \<open>
  The receive side: the MPDU operation on the received frame, whose result is the key index,
  and the MSDU operation on the reassembled frame.  A negative result means that the frame is
  dropped.
\<close>

definition crypt_open_mpdu :: "'p crypto_ops \<Rightarrow> 'p mpdu_op" where
  "crypt_open_mpdu ops skb hdr_len priv =
     (case co_decrypt_mpdu ops of None \<Rightarrow> Some (0, skb, priv) | Some f \<Rightarrow> f skb hdr_len priv)"

definition crypt_open_msdu :: "'p crypto_ops \<Rightarrow> int \<Rightarrow> 'p mpdu_op" where
  "crypt_open_msdu ops keyidx skb hdr_len priv =
     (case co_decrypt_msdu ops of None \<Rightarrow> Some (0, skb, priv) | Some f \<Rightarrow> f keyidx skb hdr_len priv)"

section \<open>The law of a cipher\<close>

text \<open>
  What the law promises of a frame \<open>hdr @ body\<close>: it is sealed without an error, the key index is
  in the upper bits of the fourth byte behind the header, and in whatever buffer the peer receives
  the sealed bytes, what it opens is the frame; the header is readable between the two steps.
\<close>

definition mpdu_opens :: "'p crypto_ops \<Rightarrow> bytes \<Rightarrow> bytes \<Rightarrow> bytes \<Rightarrow> 'p \<Rightarrow> bool" where
  "mpdu_opens ops hdr sealed body rx \<longleftrightarrow>
     (\<forall>skbr. skb_data skbr = hdr @ sealed \<longrightarrow> (\<exists>r1 skb1 rx1 x r2 skb2 rx2.
        crypt_open_mpdu ops skbr (length hdr) rx = Some (r1, skb1, rx1) \<and> 0 \<le> r1 \<and> skb_data skb1 = hdr @ x \<and>
        crypt_open_msdu ops r1 skb1 (length hdr) rx1 = Some (r2, skb2, rx2) \<and> 0 \<le> r2 \<and>
        skb_data skb2 = hdr @ body))"

definition mpdu_sealed :: "'p crypto_ops \<Rightarrow> bytes \<Rightarrow> bytes \<Rightarrow> 'p \<Rightarrow> 'p \<Rightarrow> nat \<Rightarrow> sk_buff \<Rightarrow> bool" where
  "mpdu_sealed ops hdr body tx rx idx skb \<longleftrightarrow> (\<exists>skb1 tx' sealed.
     crypt_seal ops skb (length hdr) tx = Some (0, skb1, tx') \<and> skb_data skb1 = hdr @ sealed \<and>
     4 \<le> length sealed \<and> unat (drop_bit 6 (sealed ! 3)) = idx \<and> mpdu_opens ops hdr sealed body rx)"

text \<open>
  \<open>peers hdr body tx rx\<close>: the two contexts agree for a frame with this header and body.  Then
  a frame with room for the prefix and postfix is sealed for the peer.
\<close>

locale mpdu_cipher =
  fixes ops :: "'p crypto_ops" and peers :: "bytes \<Rightarrow> bytes \<Rightarrow> 'p \<Rightarrow> 'p \<Rightarrow> bool" and key_index :: "'p \<Rightarrow> nat"
  assumes seal_open: "\<lbrakk>peers hdr body tx rx; co_extra_prefix_len ops \<le> skb_headroom skb;
      co_extra_postfix_len ops \<le> skb_tailroom skb; skb_data skb = hdr @ body\<rbrakk> \<Longrightarrow>
    mpdu_sealed ops hdr body tx rx (key_index tx) skb"

section \<open>The three ciphers keep the law\<close>

definition wep_peers :: "bytes \<Rightarrow> bytes \<Rightarrow> prism2_wep_data \<Rightarrow> prism2_wep_data \<Rightarrow> bool" where
  "wep_peers hdr body tx rx \<longleftrightarrow> wep_wf tx \<and> wep_wf rx \<and> wep_key_len rx = wep_key_len tx \<and>
     wep_key_idx rx = wep_key_idx tx \<and> wep_key_idx tx < 4 \<and>
     take (unat (wep_key_len tx)) (wep_key rx) = take (unat (wep_key_len tx)) (wep_key tx)"

lemma wep_seal_open:
  assumes rc4: "stream_cipher rc4"
  shows "mpdu_cipher (ieee80211_crypt_wep rc4 crc32_le) wep_peers (\<lambda>wep. unat (wep_key_idx wep))"
proof
  fix hdr body tx rx skb
  assume p: "wep_peers hdr body tx rx" and d: "skb_data skb = hdr @ body"
    and "co_extra_prefix_len (ieee80211_crypt_wep rc4 crc32_le) \<le> skb_headroom skb"
    and "co_extra_postfix_len (ieee80211_crypt_wep rc4 crc32_le) \<le> skb_tailroom skb"
  then have room: "4 \<le> skb_headroom skb" "4 \<le> skb_tailroom skb" "length hdr \<le> skb_len skb"
    by (simp_all add: ieee80211_crypt_wep_def skb_len_def)
  obtain skb' tx' where e: "prism2_wep_encrypt rc4 crc32_le skb (length hdr) tx = Some (0, skb', tx')"
    and o: "\<And>skbr. skb_data skbr = skb_data skb' \<Longrightarrow>
      \<exists>skb''. prism2_wep_decrypt rc4 crc32_le skbr (length hdr) rx = Some (0, skb'') \<and> skb_data skb'' = skb_data skb"
    using stream_cipher.prism2_wep_decrypt_encrypted [OF rc4, of tx rx skb "length hdr" crc32_le] p room
    by (auto simp: wep_peers_def)
  obtain ivb c where s: "skb_data skb' = hdr @ (ivb @ [push_bit 6 (wep_key_idx tx)]) @ c" "length ivb = 3"
    using stream_cipher.prism2_wep_encrypt_frame [OF rc4, of tx skb "length hdr" crc32_le] e p room d
    by (auto simp: wep_peers_def)
  have k: "drop_bit 6 (push_bit 6 (wep_key_idx tx)) = wep_key_idx tx"
    using p by (simp add: wep_peers_def key_idx_shift)
  show "mpdu_sealed (ieee80211_crypt_wep rc4 crc32_le) hdr body tx rx (unat (wep_key_idx tx)) skb"
    unfolding mpdu_sealed_def
  proof (rule exI, rule exI, rule exI, intro conjI)
    show "crypt_seal (ieee80211_crypt_wep rc4 crc32_le) skb (length hdr) tx = Some (0, skb', tx')"
      using e by (simp add: crypt_seal_def ieee80211_crypt_wep_def)
    show "skb_data skb' = hdr @ (ivb @ [push_bit 6 (wep_key_idx tx)]) @ c" by (rule s(1))
    show "unat (drop_bit 6 (((ivb @ [push_bit 6 (wep_key_idx tx)]) @ c) ! 3)) = unat (wep_key_idx tx)"
      using s(2) k by (simp add: nth_append)
    show "mpdu_opens (ieee80211_crypt_wep rc4 crc32_le) hdr ((ivb @ [push_bit 6 (wep_key_idx tx)]) @ c) body rx"
      unfolding mpdu_opens_def
      using o s(1) d by (fastforce simp: crypt_open_mpdu_def crypt_open_msdu_def ieee80211_crypt_wep_def)
  qed (use s(2) in simp)
qed

interpretation wep_cipher: mpdu_cipher "ieee80211_crypt_wep arc4_ecb crc32_le" wep_peers "\<lambda>wep. unat (wep_key_idx wep)"
  for crc32_le by (rule wep_seal_open [OF arc4.stream_cipher_axioms])

definition tkip_peers :: "bytes \<Rightarrow> bytes \<Rightarrow> ieee80211_tkip_data \<Rightarrow> ieee80211_tkip_data \<Rightarrow> bool" where
  "tkip_peers hdr body tx rx \<longleftrightarrow> 16 \<le> length hdr \<and> length hdr + length body + 8 < 2 ^ 32 \<and> mic_hdr_of hdr \<noteq> None \<and>
     length (tk_key tx) = 32 \<and> length (tk_key rx) = 32 \<and> take 16 (tk_key rx) = take 16 (tk_key tx) \<and>
     take 8 (drop 24 (tk_key rx)) = take 8 (drop 16 (tk_key tx)) \<and> tk_key_idx rx = tk_key_idx tx \<and>
     0 \<le> tk_key_idx tx \<and> tk_key_idx tx < 4 \<and> tk_key_set rx \<and>
     tkip_tx_cache (frame_TA hdr) tx \<and> tkip_rx_cache (frame_TA hdr) rx"

lemma tkip_seal_open:
  assumes rc4: "stream_cipher rc4" and mich: "keyed_digest michael"
  shows "mpdu_cipher (ieee80211_crypt_tkip rc4 crc32_le michael) tkip_peers (\<lambda>tkey. nat (tk_key_idx tkey))"
proof
  fix hdr body tx rx skb
  assume p: "tkip_peers hdr body tx rx" and d: "skb_data skb = hdr @ body"
    and "co_extra_prefix_len (ieee80211_crypt_tkip rc4 crc32_le michael) \<le> skb_headroom skb"
    and "co_extra_postfix_len (ieee80211_crypt_tkip rc4 crc32_le michael) \<le> skb_tailroom skb"
  then have room: "8 \<le> skb_headroom skb" "12 \<le> skb_tailroom skb" by (simp_all add: ieee80211_crypt_tkip_def)
  obtain h where h: "mic_hdr_of hdr = Some h" using p by (auto simp: tkip_peers_def)
  have idx: "0 \<le> tk_key_idx tx" "tk_key_idx tx < 4" using p by (auto simp: tkip_peers_def)
  let ?pre = "tkip_prefix (tk_key_idx tx) (tk_tx_iv32 tx) (tk_tx_iv16 tx)"
  have path: "\<exists>skb1 tx1 skb2 tx2.
     ieee80211_michael_mic_add michael skb (length hdr) tx = Some (0, skb1, tx1) \<and>
     ieee80211_tkip_encrypt rc4 crc32_le skb1 (length hdr) tx1 = Some (0, skb2, tx2) \<and>
     (\<forall>skbr. skb_data skbr = skb_data skb2 \<longrightarrow> (\<exists>skb3 rx3 skb4 rx4.
       ieee80211_tkip_decrypt rc4 crc32_le skbr (length hdr) rx = Some (tk_key_idx tx, skb3, rx3) \<and>
       (\<exists>x. skb_data skb3 = hdr @ x) \<and> ieee80211_michael_mic_verify michael skb3 (length hdr) rx3 = Some (0, skb4, rx4) \<and>
       skb_data skb4 = skb_data skb \<and> tk_rx_iv32 rx4 = tk_tx_iv32 tx \<and> tk_rx_iv16 rx4 = tk_tx_iv16 tx \<and>
       tkip_rx_cache (frame_TA hdr) rx4)) \<and> (\<exists>c. skb_data skb2 = hdr @ ?pre @ c)"
    by (rule tkip_msdu_path [OF rc4 mich room d _ _ h]) (use p in \<open>auto simp: tkip_peers_def\<close>)
  then obtain skb1 tx1 skb2 tx2 c where
    s: "ieee80211_michael_mic_add michael skb (length hdr) tx = Some (0, skb1, tx1)"
      "ieee80211_tkip_encrypt rc4 crc32_le skb1 (length hdr) tx1 = Some (0, skb2, tx2)"
    and o: "\<forall>skbr. skb_data skbr = skb_data skb2 \<longrightarrow> (\<exists>skb3 rx3 skb4 rx4.
       ieee80211_tkip_decrypt rc4 crc32_le skbr (length hdr) rx = Some (tk_key_idx tx, skb3, rx3) \<and>
       (\<exists>x. skb_data skb3 = hdr @ x) \<and> ieee80211_michael_mic_verify michael skb3 (length hdr) rx3 = Some (0, skb4, rx4) \<and>
       skb_data skb4 = skb_data skb \<and> tk_rx_iv32 rx4 = tk_tx_iv32 tx \<and> tk_rx_iv16 rx4 = tk_tx_iv16 tx \<and>
       tkip_rx_cache (frame_TA hdr) rx4)"
    and d2: "skb_data skb2 = hdr @ ?pre @ c" by blast
  have k: "unat (drop_bit 6 ((?pre @ c) ! 3)) = nat (tk_key_idx tx)"
    using ext_iv_key_byte(2) [OF idx] by (simp add: nth_append nth_tkip_prefix unat_eq_nat_uint)
  show "mpdu_sealed (ieee80211_crypt_tkip rc4 crc32_le michael) hdr body tx rx (nat (tk_key_idx tx)) skb"
    unfolding mpdu_sealed_def
  proof (rule exI, rule exI, rule exI, intro conjI)
    show "crypt_seal (ieee80211_crypt_tkip rc4 crc32_le michael) skb (length hdr) tx = Some (0, skb2, tx2)"
      using s by (simp add: crypt_seal_def ieee80211_crypt_tkip_def)
    show "skb_data skb2 = hdr @ ?pre @ c" by (rule d2)
    show "unat (drop_bit 6 ((?pre @ c) ! 3)) = nat (tk_key_idx tx)" by (rule k)
    show "mpdu_opens (ieee80211_crypt_tkip rc4 crc32_le michael) hdr (?pre @ c) body rx"
      unfolding mpdu_opens_def
      using o d2 d idx by (fastforce simp: crypt_open_mpdu_def crypt_open_msdu_def ieee80211_crypt_tkip_def)
  qed simp
qed

interpretation tkip_cipher: mpdu_cipher "ieee80211_crypt_tkip arc4_ecb crc32_le michael_one" tkip_peers
  "\<lambda>tkey. nat (tk_key_idx tkey)"
  for crc32_le by (rule tkip_seal_open [OF arc4.stream_cipher_axioms michael.keyed_digest_axioms])

definition ccmp_peers ::
  "(bytes \<Rightarrow> bytes \<Rightarrow> bytes) \<Rightarrow> bytes \<Rightarrow> bytes \<Rightarrow> ieee80211_ccmp_data \<Rightarrow> ieee80211_ccmp_data \<Rightarrow> bool" where
  "ccmp_peers aes hdr body tx rx \<longleftrightarrow>
     ccmp_init_blocks aes (cc_tfm_key tx) hdr (pn_incr 5 (cc_tx_pn tx)) (length body) \<noteq> None \<and>
     length (cc_tfm_key tx) = 16 \<and> length (cc_tx_pn tx) = 6 \<and> cc_tfm_key rx = cc_tfm_key tx \<and> cc_key_set rx \<and>
     cc_key_idx rx = cc_key_idx tx \<and> 0 \<le> cc_key_idx tx \<and> cc_key_idx tx < 4"

lemma ccmp_seal_open:
  assumes bc: "block_cipher aes"
  shows "mpdu_cipher (ieee80211_crypt_ccmp aes) (ccmp_peers aes) (\<lambda>key. nat (cc_key_idx key))"
proof
  fix hdr body tx rx skb
  assume p: "ccmp_peers aes hdr body tx rx" and d: "skb_data skb = hdr @ body"
    and "co_extra_prefix_len (ieee80211_crypt_ccmp aes) \<le> skb_headroom skb"
    and "co_extra_postfix_len (ieee80211_crypt_ccmp aes) \<le> skb_tailroom skb"
  then have room: "8 \<le> skb_headroom skb" "8 \<le> skb_tailroom skb" by (simp_all add: ieee80211_crypt_ccmp_def)
  have idx: "0 \<le> cc_key_idx tx" "cc_key_idx tx < 4" using p by (auto simp: ccmp_peers_def)
  let ?pn = "pn_incr 5 (cc_tx_pn tx)"
  let ?pre = "ccmp_header (cc_key_idx tx) ?pn"
  obtain skb' c where
    s: "ieee80211_ccmp_encrypt aes skb (length hdr) tx = Some (0, skb', tx\<lparr>cc_tx_pn := ?pn\<rparr>)"
    and o: "\<And>skbr. skb_data skbr = skb_data skb' \<Longrightarrow> \<exists>skb''.
      ieee80211_ccmp_decrypt aes skbr (length hdr) rx = Some (cc_key_idx tx, skb'', rx\<lparr>cc_rx_pn := ?pn\<rparr>) \<and>
      skb_data skb'' = skb_data skb"
    and d2: "skb_data skb' = hdr @ ?pre @ c"
    using ccmp_path [OF bc room d, of tx rx] p by (auto simp: ccmp_peers_def)
  have k: "unat (drop_bit 6 ((?pre @ c) ! 3)) = nat (cc_key_idx tx)"
    using ext_iv_key_byte(2) [OF idx] by (simp add: nth_append nth_ccmp_header unat_eq_nat_uint)
  show "mpdu_sealed (ieee80211_crypt_ccmp aes) hdr body tx rx (nat (cc_key_idx tx)) skb"
    unfolding mpdu_sealed_def
  proof (rule exI, rule exI, rule exI, intro conjI)
    show "crypt_seal (ieee80211_crypt_ccmp aes) skb (length hdr) tx = Some (0, skb', tx\<lparr>cc_tx_pn := ?pn\<rparr>)"
      using s by (simp add: crypt_seal_def ieee80211_crypt_ccmp_def)
    show "skb_data skb' = hdr @ ?pre @ c" by (rule d2)
    show "unat (drop_bit 6 ((?pre @ c) ! 3)) = nat (cc_key_idx tx)" by (rule k)
    show "mpdu_opens (ieee80211_crypt_ccmp aes) hdr (?pre @ c) body rx"
      unfolding mpdu_opens_def
      using o d2 d idx by (fastforce simp: crypt_open_mpdu_def crypt_open_msdu_def ieee80211_crypt_ccmp_def)
  qed simp
qed

interpretation ccmp_cipher: mpdu_cipher "ieee80211_crypt_ccmp aes_one" "ccmp_peers aes_one" "\<lambda>key. nat (cc_key_idx key)"
  by (rule ccmp_seal_open [OF aes.block_cipher_axioms])

section \<open>A receiver's ciphers are memory safe\<close>

text \<open>
  What the receive path relies on for any frame, sealed by a peer or not: the operations stay in
  the buffer, and a frame they accept keeps its header and its room behind the data.
\<close>

definition keeps_header :: "nat \<Rightarrow> sk_buff \<Rightarrow> sk_buff \<Rightarrow> bool" where
  "keeps_header n skb skb' \<longleftrightarrow> n \<le> skb_len skb' \<and> take n (skb_data skb') = take n (skb_data skb) \<and>
     skb_tailroom skb \<le> skb_tailroom skb'"

locale safe_decrypt =
  fixes ops :: "'p crypto_ops" and inv :: "'p \<Rightarrow> bool"
  assumes mpdu_safe: "\<lbrakk>inv priv; n \<le> skb_len skb\<rbrakk> \<Longrightarrow> \<exists>r skb' priv'. crypt_open_mpdu ops skb n priv = Some (r, skb', priv') \<and>
      inv priv' \<and> (0 \<le> r \<longrightarrow> keeps_header n skb skb')"
    and msdu_safe: "\<lbrakk>inv priv; n \<le> skb_len skb\<rbrakk> \<Longrightarrow> \<exists>r skb' priv'. crypt_open_msdu ops k skb n priv = Some (r, skb', priv') \<and>
      inv priv' \<and> (0 \<le> r \<longrightarrow> keeps_header n skb skb')"

lemma keeps_header_refl [simp]: "keeps_header n skb skb \<longleftrightarrow> n \<le> skb_len skb"
  by (auto simp: keeps_header_def)

lemma wep_safe_decrypt:
  assumes "stream_cipher rc4"
  shows "safe_decrypt (ieee80211_crypt_wep rc4 crc32_le) wep_wf"
proof
  fix wep :: prism2_wep_data and n skb
  assume "wep_wf wep" and "n \<le> skb_len skb"
  then show "\<exists>r skb' priv'. crypt_open_mpdu (ieee80211_crypt_wep rc4 crc32_le) skb n wep = Some (r, skb', priv') \<and>
      wep_wf priv' \<and> (0 \<le> r \<longrightarrow> keeps_header n skb skb')"
    using prism2_wep_decrypt_safe [OF assms, of wep n skb crc32_le]
    by (auto simp: crypt_open_mpdu_def ieee80211_crypt_wep_def keeps_header_def)
qed (auto simp: crypt_open_msdu_def ieee80211_crypt_wep_def)

interpretation wep_safe: safe_decrypt "ieee80211_crypt_wep arc4_ecb crc32_le" wep_wf for crc32_le
  by (rule wep_safe_decrypt [OF arc4.stream_cipher_axioms])

end
