(* ===== verification/Defrag.thy ===== *)
theory Defrag
  imports Frame
begin

text \<open>
  The reassembly of fragmented frames in \<open>ieee80211/ieee80211_rx.c\<close>: the cache of four
  partially received frames (\<open>ieee80211_frag_cache_find\<close>, \<open>_get\<close>, \<open>_invalidate\<close>) and the part
  of \<open>ieee80211_rx\<close> that appends a fragment.  The buffer a cache entry points to is held in
  the entry; \<open>ieee80211_frag_cache_get\<close> returns the index of the entry whose buffer it hands
  out.  \<open>HZ\<close> and \<open>jiffies\<close> are the kernel's clock.
\<close>

record ieee80211_frag_entry =
  fe_first_frag_time :: u64
  fe_seq :: u32
  fe_last_frag :: u32
  fe_skb :: "sk_buff option"
  fe_src_addr :: bytes
  fe_dst_addr :: bytes

record frag_state =
  fs_cache :: "ieee80211_frag_entry list"
  fs_next_idx :: nat

definition frag_cache_zero :: frag_state where
  "frag_cache_zero = \<lparr>fs_cache = replicate 4 \<lparr>fe_first_frag_time = 0, fe_seq = 0, fe_last_frag = 0,
     fe_skb = None, fe_src_addr = replicate 6 0, fe_dst_addr = replicate 6 0\<rparr>, fs_next_idx = 0\<rparr>"

section \<open>The cache\<close>

definition frag_expire :: "u64 \<Rightarrow> u64 \<Rightarrow> ieee80211_frag_entry \<Rightarrow> ieee80211_frag_entry" where
  "frag_expire HZ jiffies entry =
     (if fe_skb entry \<noteq> None \<and> time_after jiffies (fe_first_frag_time entry + 2 * HZ)
      then entry\<lparr>fe_skb := None\<rparr> else entry)"

text \<open>\<open>frag\<close> is \<open>-1\<close> for any fragment number.\<close>

definition frag_match :: "u32 \<Rightarrow> u32 \<Rightarrow> bytes \<Rightarrow> bytes \<Rightarrow> ieee80211_frag_entry \<Rightarrow> bool" where
  "frag_match seq frag src dst entry \<longleftrightarrow> fe_skb entry \<noteq> None \<and> fe_seq entry = seq \<and>
     (fe_last_frag entry + 1 = frag \<or> frag = - 1) \<and> fe_src_addr entry = src \<and> fe_dst_addr entry = dst"

text \<open>The loop: every entry up to the one that matches is expired if it is too old.\<close>

fun frag_find_loop :: "u64 \<Rightarrow> u64 \<Rightarrow> u32 \<Rightarrow> u32 \<Rightarrow> bytes \<Rightarrow> bytes \<Rightarrow> ieee80211_frag_entry list \<Rightarrow>
    ieee80211_frag_entry list \<times> nat option" where
  "frag_find_loop HZ jiffies seq frag src dst [] = ([], None)"
| "frag_find_loop HZ jiffies seq frag src dst (entry # rest) =
     (let entry = frag_expire HZ jiffies entry
      in if frag_match seq frag src dst entry then (entry # rest, Some 0)
         else let (rest, r) = frag_find_loop HZ jiffies seq frag src dst rest
              in (entry # rest, map_option Suc r))"

definition ieee80211_frag_cache_find ::
  "u64 \<Rightarrow> u64 \<Rightarrow> u32 \<Rightarrow> u32 \<Rightarrow> bytes \<Rightarrow> bytes \<Rightarrow> frag_state \<Rightarrow> frag_state \<times> nat option" where
  "ieee80211_frag_cache_find HZ jiffies seq frag src dst fs =
     (let (cache, r) = frag_find_loop HZ jiffies seq frag src dst (fs_cache fs)
      in (fs\<lparr>fs_cache := cache\<rparr>, r))"

text \<open>The size is that of the largest frame: MTU, header, LLC, alignment, WEP, fourth address.\<close>

definition ieee80211_frag_cache_get ::
  "u64 \<Rightarrow> u64 \<Rightarrow> nat \<Rightarrow> bool \<Rightarrow> bytes \<Rightarrow> frag_state \<Rightarrow> (frag_state \<times> nat option) option" where
  "ieee80211_frag_cache_get HZ jiffies mtu alloc_ok hdr fs = do {
     sc \<leftarrow> hdr_seq_ctl hdr;
     let frag = WLAN_GET_SEQ_FRAG sc;
     let seq = WLAN_GET_SEQ_SEQ sc;
     addr1 \<leftarrow> hdr_addr1 hdr;
     addr2 \<leftarrow> hdr_addr2 hdr;
     if frag = 0 then
       if \<not> alloc_ok then Some (fs, None)
       else let i = fs_next_idx fs;
                next_idx = (if i + 1 \<ge> 4 then 0 else i + 1);
                entry = \<lparr>fe_first_frag_time = jiffies, fe_seq = ucast seq, fe_last_frag = ucast frag,
                         fe_skb = Some (dev_alloc_skb (mtu + 30 + 8 + 2 + 8 + 6)),
                         fe_src_addr = addr2, fe_dst_addr = addr1\<rparr>
            in Some (\<lparr>fs_cache = (fs_cache fs)[i := entry], fs_next_idx = next_idx\<rparr>, Some i)
     else
       let (fs, r) = ieee80211_frag_cache_find HZ jiffies (ucast seq) (ucast frag) addr2 addr1 fs
       in Some (case r of
            None \<Rightarrow> (fs, None)
          | Some i \<Rightarrow> (fs\<lparr>fs_cache := (fs_cache fs)[i := (fs_cache fs ! i)\<lparr>fe_last_frag := ucast frag\<rparr>]\<rparr>, Some i))
   }"

definition ieee80211_frag_cache_invalidate ::
  "u64 \<Rightarrow> u64 \<Rightarrow> bytes \<Rightarrow> frag_state \<Rightarrow> (int \<times> frag_state) option" where
  "ieee80211_frag_cache_invalidate HZ jiffies hdr fs = do {
     sc \<leftarrow> hdr_seq_ctl hdr;
     addr1 \<leftarrow> hdr_addr1 hdr;
     addr2 \<leftarrow> hdr_addr2 hdr;
     let (fs, r) = ieee80211_frag_cache_find HZ jiffies (ucast (WLAN_GET_SEQ_SEQ sc)) (- 1) addr2 addr1 fs
     in Some (case r of
          None \<Rightarrow> (- 1, fs)
        | Some i \<Rightarrow> (0, fs\<lparr>fs_cache := (fs_cache fs)[i := (fs_cache fs ! i)\<lparr>fe_skb := None\<rparr>]\<rparr>))
   }"

section \<open>Appending a fragment\<close>

text \<open>
  What happens to the received buffer: dropped by the caller, kept in the cache, or complete
  in the cached buffer.  In the last two cases the received buffer itself has been freed.
\<close>

datatype defrag_result = Frag_Dropped | Frag_Kept | Frag_Complete sk_buff

definition rx_defrag ::
  "u64 \<Rightarrow> u64 \<Rightarrow> nat \<Rightarrow> bool \<Rightarrow> u16 \<Rightarrow> u16 \<Rightarrow> nat \<Rightarrow> sk_buff \<Rightarrow> frag_state \<Rightarrow> (defrag_result \<times> frag_state) option" where
  "rx_defrag HZ jiffies mtu alloc_ok frag fc hdrlen skb fs = do {
     (fs, r) \<leftarrow> ieee80211_frag_cache_get HZ jiffies mtu alloc_ok (skb_data skb) fs;
     case r of
       None \<Rightarrow> Some (Frag_Dropped, fs)
     | Some i \<Rightarrow> do {
         frag_skb \<leftarrow> fe_skb (fs_cache fs ! i);
         let flen = (if frag \<noteq> 0 then skb_len skb - hdrlen else skb_len skb);
         if skb_tailroom frag_skb < flen then do {
           (_, fs) \<leftarrow> ieee80211_frag_cache_invalidate HZ jiffies (skb_data skb) fs;
           Some (Frag_Dropped, fs)
         } else do {
           let old = skb_len frag_skb;
           frag_skb \<leftarrow> skb_put flen frag_skb;
           d \<leftarrow> skb_load (if frag = 0 then 0 else hdrlen) flen skb;
           frag_skb \<leftarrow> skb_store old d frag_skb;
           let fs = fs\<lparr>fs_cache := (fs_cache fs)[i := (fs_cache fs ! i)\<lparr>fe_skb := Some frag_skb\<rparr>]\<rparr>;
           if fc AND FCTL_MOREFRAGS \<noteq> 0 then Some (Frag_Kept, fs)
           else do {
             (_, fs) \<leftarrow> ieee80211_frag_cache_invalidate HZ jiffies (skb_data frag_skb) fs;
             Some (Frag_Complete frag_skb, fs)
           }
         }
       }
   }"

section \<open>What a search does\<close>

lemma frag_expire_simps [simp]:
  "fe_seq (frag_expire HZ j e) = fe_seq e" "fe_last_frag (frag_expire HZ j e) = fe_last_frag e"
  "fe_src_addr (frag_expire HZ j e) = fe_src_addr e" "fe_dst_addr (frag_expire HZ j e) = fe_dst_addr e"
  "fe_first_frag_time (frag_expire HZ j e) = fe_first_frag_time e"
  by (simp_all add: frag_expire_def)

lemma frag_expire_None: "fe_skb e = None \<Longrightarrow> fe_skb (frag_expire HZ j e) = None"
  by (simp add: frag_expire_def)

lemma frag_find_loop_spec:
  "frag_find_loop HZ j seq frag src dst es = (es', r) \<Longrightarrow>
     length es' = length es \<and>
     (\<forall>n < length es. es' ! n = es ! n \<or> es' ! n = frag_expire HZ j (es ! n)) \<and>
     (case r of None \<Rightarrow> \<forall>n < length es. \<not> frag_match seq frag src dst (frag_expire HZ j (es ! n))
      | Some i \<Rightarrow> i < length es \<and> frag_match seq frag src dst (frag_expire HZ j (es ! i)) \<and>
          es' ! i = frag_expire HZ j (es ! i) \<and>
          (\<forall>n < i. \<not> frag_match seq frag src dst (frag_expire HZ j (es ! n))))"
proof (induction es arbitrary: es' r)
  case (Cons e es)
  obtain es1 r1 where r1: "frag_find_loop HZ j seq frag src dst es = (es1, r1)" by fastforce
  note IH = Cons.IH [OF r1]
  show ?case
  proof (cases "frag_match seq frag src dst (frag_expire HZ j e)")
    case True
    then show ?thesis using Cons.prems by (auto simp: Let_def nth_Cons split: nat.split)
  next
    case False
    then have "es' = frag_expire HZ j e # es1" "r = map_option Suc r1"
      using Cons.prems r1 by (auto simp: Let_def)
    then show ?thesis using IH False
      by (cases r1) (auto simp: nth_Cons split: nat.splits)
  qed
qed simp

section \<open>A frame being reassembled\<close>

text \<open>
  Entry \<open>i\<close> holds the frame \<open>(seq, src, dst)\<close> whose first fragment arrived at \<open>t0\<close>, with the
  fragments up to \<open>k\<close> collected in \<open>skb\<close>; no other live entry has the same key.
\<close>

definition frag_holds :: "nat \<Rightarrow> u64 \<Rightarrow> u16 \<Rightarrow> bytes \<Rightarrow> bytes \<Rightarrow> nat \<Rightarrow> sk_buff \<Rightarrow> frag_state \<Rightarrow> bool" where
  "frag_holds i t0 seq src dst k skb fs \<longleftrightarrow> i < length (fs_cache fs) \<and>
     fs_cache fs ! i = \<lparr>fe_first_frag_time = t0, fe_seq = ucast seq, fe_last_frag = word_of_nat k,
        fe_skb = Some skb, fe_src_addr = src, fe_dst_addr = dst\<rparr> \<and>
     (\<forall>n < length (fs_cache fs). n \<noteq> i \<longrightarrow> fe_skb (fs_cache fs ! n) = None \<or>
        (fe_seq (fs_cache fs ! n), fe_src_addr (fs_cache fs ! n), fe_dst_addr (fs_cache fs ! n)) \<noteq> (ucast seq, src, dst))"

text \<open>A received fragment \<open>n\<close> of that frame.\<close>

definition frag_of :: "u16 \<Rightarrow> bytes \<Rightarrow> bytes \<Rightarrow> nat \<Rightarrow> bytes \<Rightarrow> bool" where
  "frag_of seq src dst n d \<longleftrightarrow> (\<exists>sc. hdr_seq_ctl d = Some sc \<and> WLAN_GET_SEQ_SEQ sc = seq \<and>
     WLAN_GET_SEQ_FRAG sc = word_of_nat n) \<and> hdr_addr1 d = Some dst \<and> hdr_addr2 d = Some src"

lemma frag_holds_find:
  assumes h: "frag_holds i t0 seq src dst k skb fs"
    and fresh: "\<not> time_after j (t0 + 2 * HZ)" and fr: "frag = word_of_nat k + 1 \<or> frag = - 1"
  shows "\<exists>fs'. ieee80211_frag_cache_find HZ j (ucast seq) frag src dst fs = (fs', Some i) \<and>
     frag_holds i t0 seq src dst k skb fs'"
proof -
  obtain es' r where f: "frag_find_loop HZ j (ucast seq) frag src dst (fs_cache fs) = (es', r)" by fastforce
  note s = frag_find_loop_spec [OF f]
  let ?es = "fs_cache fs"
  have i: "i < length ?es" and ei: "?es ! i = \<lparr>fe_first_frag_time = t0, fe_seq = ucast seq,
      fe_last_frag = word_of_nat k, fe_skb = Some skb, fe_src_addr = src, fe_dst_addr = dst\<rparr>"
    using h by (auto simp: frag_holds_def)
  have xi: "frag_expire HZ j (?es ! i) = ?es ! i" using fresh ei by (simp add: frag_expire_def)
  have mi: "frag_match (ucast seq) frag src dst (frag_expire HZ j (?es ! i))"
    unfolding xi using fr ei by (auto simp: frag_match_def)
  have others: "fe_skb (frag_expire HZ j (?es ! n)) = None \<or>
      (fe_seq (?es ! n), fe_src_addr (?es ! n), fe_dst_addr (?es ! n)) \<noteq> (ucast seq, src, dst)"
    if "n < length ?es" "n \<noteq> i" for n
    using h that frag_expire_None unfolding frag_holds_def by metis
  have nm: "\<not> frag_match (ucast seq) frag src dst (frag_expire HZ j (?es ! n))"
    if "n < length ?es" "n \<noteq> i" for n
    using others [OF that] by (auto simp: frag_match_def)
  have r: "r = Some i"
  proof (cases r)
    case None
    then show ?thesis using s i mi by auto
  next
    case (Some m)
    then show ?thesis using s nm [of m] by auto
  qed
  then have "es' ! i = ?es ! i" using s xi by simp
  moreover have "fe_skb (es' ! n) = None \<or>
      (fe_seq (es' ! n), fe_src_addr (es' ! n), fe_dst_addr (es' ! n)) \<noteq> (ucast seq, src, dst)"
    if "n < length ?es" "n \<noteq> i" for n
  proof -
    have "es' ! n = ?es ! n \<or> es' ! n = frag_expire HZ j (?es ! n)" using s that by simp
    moreover have "fe_skb (?es ! n) = None \<or>
        (fe_seq (?es ! n), fe_src_addr (?es ! n), fe_dst_addr (?es ! n)) \<noteq> (ucast seq, src, dst)"
      using h that by (simp add: frag_holds_def)
    ultimately show ?thesis using others [OF that] by (elim disjE) simp_all
  qed
  ultimately have "frag_holds i t0 seq src dst k skb (fs\<lparr>fs_cache := es'\<rparr>)"
    using s i ei by (simp add: frag_holds_def)
  then show ?thesis using f r by (simp add: ieee80211_frag_cache_find_def)
qed

lemma ucast_frag: "n < 16 \<Longrightarrow> (ucast (word_of_nat n :: u16) :: u32) = word_of_nat n"
  by (simp add: word_unat_eq_iff unat_of_nat unsigned_ucast_eq take_bit_eq_mod)

lemma frag_word_nz: "\<lbrakk>0 < n; n < 16\<rbrakk> \<Longrightarrow> (word_of_nat n :: u16) \<noteq> 0"
  by (auto simp: word_of_nat_eq_0_iff dest: dvd_imp_le)

lemma frag_of_append: "frag_of seq src dst n d \<Longrightarrow> frag_of seq src dst n (d @ x)"
  by (auto simp: frag_of_def hdr_fields_prefix)

lemma frag_holds_update:
  "frag_holds i t0 seq src dst k skb fs \<Longrightarrow>
     frag_holds i t0 seq src dst k skb' (fs\<lparr>fs_cache := (fs_cache fs)[i := (fs_cache fs ! i)\<lparr>fe_skb := Some skb'\<rparr>]\<rparr>)"
  by (auto simp: frag_holds_def)

lemma frag_holds_get:
  assumes h: "frag_holds i t0 seq src dst k skb fs" and fresh: "\<not> time_after j (t0 + 2 * HZ)"
    and n: "Suc k < 16" and f: "frag_of seq src dst (Suc k) d"
  shows "\<exists>fs'. ieee80211_frag_cache_get HZ j mtu ok d fs = Some (fs', Some i) \<and>
     frag_holds i t0 seq src dst (Suc k) skb fs'"
proof -
  obtain sc where sc: "hdr_seq_ctl d = Some sc" "WLAN_GET_SEQ_SEQ sc = seq" "WLAN_GET_SEQ_FRAG sc = word_of_nat (Suc k)"
    and a: "hdr_addr1 d = Some dst" "hdr_addr2 d = Some src" using f by (auto simp: frag_of_def)
  have nz: "(word_of_nat (Suc k) :: u16) \<noteq> 0" using n by (intro frag_word_nz) auto
  have u: "ucast (word_of_nat (Suc k) :: u16) = (word_of_nat k + 1 :: u32)"
    unfolding ucast_frag [OF n] by simp
  obtain fs1 where f1: "ieee80211_frag_cache_find HZ j (ucast seq) (word_of_nat k + 1) src dst fs = (fs1, Some i)"
    and h1: "frag_holds i t0 seq src dst k skb fs1"
    using frag_holds_find [OF h fresh, of "word_of_nat k + 1"] by auto
  show ?thesis
    using sc a nz f1 h1 by (auto simp: ieee80211_frag_cache_get_def Let_def u frag_holds_def simp del: of_nat_Suc)
      (simp_all add: add.commute)
qed

lemma frag_holds_invalidate:
  assumes h: "frag_holds i t0 seq src dst k skb fs" and fresh: "\<not> time_after j (t0 + 2 * HZ)"
    and f: "frag_of seq src dst m d"
  shows "\<exists>fs'. ieee80211_frag_cache_invalidate HZ j d fs = Some (0, fs') \<and>
     i < length (fs_cache fs') \<and> fe_skb (fs_cache fs' ! i) = None"
proof -
  obtain fs1 where "ieee80211_frag_cache_find HZ j (ucast seq) (- 1) src dst fs = (fs1, Some i)"
    and "frag_holds i t0 seq src dst k skb fs1"
    using frag_holds_find [OF h fresh, of "- 1"] by auto
  then show ?thesis
    using f by (auto simp: ieee80211_frag_cache_invalidate_def frag_of_def frag_holds_def)
qed

lemma rx_defrag_next:
  assumes h: "frag_holds i t0 seq src dst k skb fs" and fresh: "\<not> time_after j (t0 + 2 * HZ)"
    and n: "Suc k < 16" and f: "frag_of seq src dst (Suc k) (skb_data frg)" and hl: "hdrlen \<le> skb_len frg"
    and room: "skb_len frg - hdrlen \<le> skb_tailroom skb" and f0: "frag_of seq src dst m (skb_data skb)"
  shows "\<exists>fs' skb'. rx_defrag HZ j mtu ok (word_of_nat (Suc k)) fc hdrlen frg fs =
      Some (if fc AND FCTL_MOREFRAGS \<noteq> 0 then Frag_Kept else Frag_Complete skb', fs') \<and>
     skb_data skb' = skb_data skb @ drop hdrlen (skb_data frg) \<and>
     skb_tailroom skb' + (skb_len frg - hdrlen) = skb_tailroom skb \<and>
     (if fc AND FCTL_MOREFRAGS \<noteq> 0 then frag_holds i t0 seq src dst (Suc k) skb' fs'
      else i < length (fs_cache fs') \<and> fe_skb (fs_cache fs' ! i) = None)"
proof -
  obtain sc where sc: "hdr_seq_ctl (skb_data frg) = Some sc" "WLAN_GET_SEQ_FRAG sc = word_of_nat (Suc k)"
    using f by (auto simp: frag_of_def)
  have nz: "(word_of_nat (Suc k) :: u16) \<noteq> 0" using n by (intro frag_word_nz) auto
  obtain fs1 where g: "ieee80211_frag_cache_get HZ j mtu ok (skb_data frg) fs = Some (fs1, Some i)"
    and h1: "frag_holds i t0 seq src dst (Suc k) skb fs1"
    using frag_holds_get [OF h fresh n f] by blast
  define d where "d = drop hdrlen (skb_data frg)"
  have ld: "length d = skb_len frg - hdrlen" by (simp add: d_def skb_len_def)
  have l: "skb_load hdrlen (skb_len frg - hdrlen) frg = Some d"
    using hl by (simp add: skb_load_def buf_read_def d_def skb_len_def)
  obtain skb1 skb2 where p: "skb_put (skb_len frg - hdrlen) skb = Some skb1" "skb_store (skb_len skb) d skb1 = Some skb2"
    "skb_data skb2 = skb_data skb @ d" "skb_tailroom skb2 + (skb_len frg - hdrlen) = skb_tailroom skb"
    using skb_append [of d skb] room ld by auto
  let ?fs2 = "fs1\<lparr>fs_cache := (fs_cache fs1)[i := (fs_cache fs1 ! i)\<lparr>fe_skb := Some skb2\<rparr>]\<rparr>"
  have h2: "frag_holds i t0 seq src dst (Suc k) skb2 ?fs2" by (rule frag_holds_update [OF h1])
  have "frag_of seq src dst m (skb_data skb2)" unfolding p(3) by (rule frag_of_append [OF f0])
  from frag_holds_invalidate [OF h2 fresh this] obtain fs3 where
    "ieee80211_frag_cache_invalidate HZ j (skb_data skb2) ?fs2 = Some (0, fs3)"
    "i < length (fs_cache fs3)" "fe_skb (fs_cache fs3 ! i) = None" by blast
  moreover have "fe_skb (fs_cache fs1 ! i) = Some skb" using h1 by (simp add: frag_holds_def)
  ultimately show ?thesis
    using sc nz g p room l h2 d_def
    by (intro exI [of _ "if fc AND FCTL_MOREFRAGS = 0 then fs3 else ?fs2"] exI [of _ skb2])
      (cases "fc AND FCTL_MOREFRAGS = 0"; simp add: rx_defrag_def Let_def del: of_nat_Suc)
qed

lemma rx_defrag_first:
  assumes f: "frag_of seq src dst 0 (skb_data skb)" and "fs_next_idx fs < length (fs_cache fs)"
    and room: "skb_len skb \<le> mtu + 54" and "fc AND FCTL_MOREFRAGS \<noteq> 0"
    and uniq: "\<forall>n < length (fs_cache fs). n \<noteq> fs_next_idx fs \<longrightarrow> fe_skb (fs_cache fs ! n) = None \<or>
        (fe_seq (fs_cache fs ! n), fe_src_addr (fs_cache fs ! n), fe_dst_addr (fs_cache fs ! n)) \<noteq> (ucast seq, src, dst)"
  shows "\<exists>fs' skb'. rx_defrag HZ j mtu True 0 fc hdrlen skb fs = Some (Frag_Kept, fs') \<and>
     frag_holds (fs_next_idx fs) j seq src dst 0 skb' fs' \<and> skb_data skb' = skb_data skb \<and>
     skb_tailroom skb' + skb_len skb = mtu + 54"
proof -
  let ?i = "fs_next_idx fs" and ?new = "dev_alloc_skb (mtu + 30 + 8 + 2 + 8 + 6)"
  obtain sc where sc: "hdr_seq_ctl (skb_data skb) = Some sc" "WLAN_GET_SEQ_SEQ sc = seq" "WLAN_GET_SEQ_FRAG sc = 0"
    and a: "hdr_addr1 (skb_data skb) = Some dst" "hdr_addr2 (skb_data skb) = Some src" using f by (auto simp: frag_of_def)
  have new: "skb_data ?new = []" "skb_tailroom ?new = mtu + 54" "skb_len ?new = 0"
    by (simp_all add: dev_alloc_skb_def skb_tailroom_def skb_len_def)
  have l: "skb_load 0 (skb_len skb) skb = Some (skb_data skb)"
    by (simp add: skb_load_def buf_read_def skb_len_def)
  obtain skb1 skb2 where p: "skb_put (skb_len skb) ?new = Some skb1" "skb_store 0 (skb_data skb) skb1 = Some skb2"
    "skb_data skb2 = skb_data skb" "skb_tailroom skb2 + skb_len skb = mtu + 54"
    using skb_append [of "skb_data skb" ?new] room new by (auto simp: skb_len_def)
  let ?e = "\<lparr>fe_first_frag_time = j, fe_seq = ucast seq, fe_last_frag = 0, fe_skb = Some skb2,
      fe_src_addr = src, fe_dst_addr = dst\<rparr>"
  let ?fs' = "\<lparr>fs_cache = (fs_cache fs)[?i := ?e], fs_next_idx = (if ?i + 1 \<ge> 4 then 0 else ?i + 1)\<rparr>"
  have "rx_defrag HZ j mtu True 0 fc hdrlen skb fs = Some (Frag_Kept, ?fs')"
    using sc a assms(2,3,4) l p new
    by (simp add: rx_defrag_def ieee80211_frag_cache_get_def Let_def)
  moreover have "frag_holds ?i j seq src dst 0 skb2 ?fs'"
    using assms(2) uniq by (auto simp: frag_holds_def)
  ultimately show ?thesis using p(3,4) by blast
qed

text \<open>Feeding a list of fragments, each with its arrival time and frame control field.\<close>

fun defrag_feed :: "u64 \<Rightarrow> nat \<Rightarrow> nat \<Rightarrow> (u64 \<times> u16 \<times> sk_buff) list \<Rightarrow> frag_state \<Rightarrow> (defrag_result \<times> frag_state) option" where
  "defrag_feed HZ mtu hdrlen [] fs = Some (Frag_Kept, fs)"
| "defrag_feed HZ mtu hdrlen ((j, fc, skb) # rest) fs = do {
     sc \<leftarrow> hdr_seq_ctl (skb_data skb);
     (r, fs) \<leftarrow> rx_defrag HZ j mtu True (WLAN_GET_SEQ_FRAG sc) fc hdrlen skb fs;
     if rest = [] then Some (r, fs) else defrag_feed HZ mtu hdrlen rest fs
   }"

text \<open>The fragments \<open>k, k + 1, ...\<close> of one frame, all in time, only the last without MOREFRAGS.\<close>

fun frag_train :: "u64 \<Rightarrow> u64 \<Rightarrow> nat \<Rightarrow> u16 \<Rightarrow> bytes \<Rightarrow> bytes \<Rightarrow> nat \<Rightarrow> (u64 \<times> u16 \<times> sk_buff) list \<Rightarrow> bool" where
  "frag_train HZ t0 hdrlen seq src dst k [] = False"
| "frag_train HZ t0 hdrlen seq src dst k ((j, fc, skb) # xs) =
     (k < 16 \<and> \<not> time_after j (t0 + 2 * HZ) \<and> frag_of seq src dst k (skb_data skb) \<and> hdrlen \<le> skb_len skb \<and>
      (fc AND FCTL_MOREFRAGS \<noteq> 0 \<longleftrightarrow> xs \<noteq> []) \<and> (xs = [] \<or> frag_train HZ t0 hdrlen seq src dst (Suc k) xs))"

definition frag_payload :: "nat \<Rightarrow> u64 \<times> u16 \<times> sk_buff \<Rightarrow> bytes" where
  "frag_payload hdrlen x = drop hdrlen (skb_data (snd (snd x)))"

lemma frag_payload_simp [simp]: "frag_payload hdrlen (j, fc, skb) = drop hdrlen (skb_data skb)"
  by (simp add: frag_payload_def)

lemma defrag_feed_rest:
  assumes "frag_holds i t0 seq src dst k skb fs" and "frag_train HZ t0 hdrlen seq src dst (Suc k) xs"
    and "length (concat (map (frag_payload hdrlen) xs)) \<le> skb_tailroom skb"
    and "frag_of seq src dst m (skb_data skb)"
  shows "\<exists>skb' fs'. defrag_feed HZ mtu hdrlen xs fs = Some (Frag_Complete skb', fs') \<and>
     skb_data skb' = skb_data skb @ concat (map (frag_payload hdrlen) xs) \<and>
     i < length (fs_cache fs') \<and> fe_skb (fs_cache fs' ! i) = None"
  using assms
proof (induction xs arbitrary: k skb fs)
  case (Cons x xs)
  obtain j fc frg where x: "x = (j, fc, frg)" by (cases x)
  have t: "Suc k < 16" "\<not> time_after j (t0 + 2 * HZ)" "frag_of seq src dst (Suc k) (skb_data frg)" "hdrlen \<le> skb_len frg"
    "fc AND FCTL_MOREFRAGS \<noteq> 0 \<longleftrightarrow> xs \<noteq> []" "xs = [] \<or> frag_train HZ t0 hdrlen seq src dst (Suc (Suc k)) xs"
    using Cons.prems(2) by (auto simp: x)
  obtain sc where sc: "hdr_seq_ctl (skb_data frg) = Some sc" "WLAN_GET_SEQ_FRAG sc = word_of_nat (Suc k)"
    using t(3) by (auto simp: frag_of_def)
  have pl: "length (frag_payload hdrlen x) = skb_len frg - hdrlen" by (simp add: frag_payload_def x skb_len_def)
  have room: "skb_len frg - hdrlen + length (concat (map (frag_payload hdrlen) xs)) \<le> skb_tailroom skb"
    using Cons.prems(3) by (simp add: pl)
  then have room1: "skb_len frg - hdrlen \<le> skb_tailroom skb" by simp
  obtain fs1 skb1 where r: "rx_defrag HZ j mtu True (word_of_nat (Suc k)) fc hdrlen frg fs =
      Some (if fc AND FCTL_MOREFRAGS \<noteq> 0 then Frag_Kept else Frag_Complete skb1, fs1)"
    and d1: "skb_data skb1 = skb_data skb @ drop hdrlen (skb_data frg)"
    and r1: "skb_tailroom skb1 + (skb_len frg - hdrlen) = skb_tailroom skb"
    and h1: "if fc AND FCTL_MOREFRAGS \<noteq> 0 then frag_holds i t0 seq src dst (Suc k) skb1 fs1
      else i < length (fs_cache fs1) \<and> fe_skb (fs_cache fs1 ! i) = None"
    using rx_defrag_next [OF Cons.prems(1) t(2,1,3,4) room1 Cons.prems(4), where mtu = mtu and ok = True and fc = fc]
    by blast
  show ?case
  proof (cases "xs = []")
    case True
    then show ?thesis using r d1 h1 t(5) sc by (simp add: x del: of_nat_Suc)
  next
    case False
    have "frag_of seq src dst m (skb_data skb1)" unfolding d1 by (rule frag_of_append [OF Cons.prems(4)])
    then have "\<exists>skb' fs'. defrag_feed HZ mtu hdrlen xs fs1 = Some (Frag_Complete skb', fs') \<and>
       skb_data skb' = skb_data skb1 @ concat (map (frag_payload hdrlen) xs) \<and>
       i < length (fs_cache fs') \<and> fe_skb (fs_cache fs' ! i) = None"
      using Cons.IH [of "Suc k" skb1 fs1] False h1 t(5,6) room r1 by auto
    then show ?thesis using r d1 t(5) False sc by (simp add: x del: of_nat_Suc)
  qed
qed simp

lemma defrag_feed_all:
  assumes f: "frag_of seq src dst 0 (skb_data skb)" and "fs_next_idx fs < length (fs_cache fs)"
    and fc: "fc AND FCTL_MOREFRAGS \<noteq> 0"
    and uniq: "\<forall>n < length (fs_cache fs). n \<noteq> fs_next_idx fs \<longrightarrow> fe_skb (fs_cache fs ! n) = None \<or>
        (fe_seq (fs_cache fs ! n), fe_src_addr (fs_cache fs ! n), fe_dst_addr (fs_cache fs ! n)) \<noteq> (ucast seq, src, dst)"
    and xs: "frag_train HZ j hdrlen seq src dst 1 xs"
    and room: "skb_len skb + length (concat (map (frag_payload hdrlen) xs)) \<le> mtu + 54"
  shows "\<exists>skb' fs'. defrag_feed HZ mtu hdrlen ((j, fc, skb) # xs) fs = Some (Frag_Complete skb', fs') \<and>
     skb_data skb' = skb_data skb @ concat (map (frag_payload hdrlen) xs) \<and>
     fe_skb (fs_cache fs' ! fs_next_idx fs) = None"
proof -
  obtain fs1 skb1 where r: "rx_defrag HZ j mtu True 0 fc hdrlen skb fs = Some (Frag_Kept, fs1)"
    and h: "frag_holds (fs_next_idx fs) j seq src dst 0 skb1 fs1" and d: "skb_data skb1 = skb_data skb"
    and "skb_tailroom skb1 + skb_len skb = mtu + 54"
    using rx_defrag_first [OF f assms(2) _ fc uniq, of mtu HZ j hdrlen] room by auto
  then have "length (concat (map (frag_payload hdrlen) xs)) \<le> skb_tailroom skb1" using room by simp
  then have "\<exists>skb' fs'. defrag_feed HZ mtu hdrlen xs fs1 = Some (Frag_Complete skb', fs') \<and>
     skb_data skb' = skb_data skb1 @ concat (map (frag_payload hdrlen) xs) \<and>
     fs_next_idx fs < length (fs_cache fs') \<and> fe_skb (fs_cache fs' ! fs_next_idx fs) = None"
    using defrag_feed_rest [OF h, of HZ hdrlen xs 0 mtu] xs f d by auto
  moreover have "xs \<noteq> []" using xs by auto
  moreover obtain sc where "hdr_seq_ctl (skb_data skb) = Some sc" "WLAN_GET_SEQ_FRAG sc = 0"
    using f by (auto simp: frag_of_def)
  ultimately show ?thesis using r d by auto
qed

section \<open>Properties\<close>

text \<open>C19: Reassembly.  The first fragment of a frame followed by its other fragments in order, in
  time and fitting in the buffer, with no other frame of the same sequence number and stations
  in the cache, gives the header and payload of the first fragment followed by the payloads of
  the others, and the buffer leaves the cache.\<close>

theorem defrag_reassembles:
  assumes f: "frag_of seq src dst 0 (skb_data skb)" and "fs_next_idx fs < length (fs_cache fs)"
    and fc: "fc AND FCTL_MOREFRAGS \<noteq> 0"
    and uniq: "\<forall>n < length (fs_cache fs). n \<noteq> fs_next_idx fs \<longrightarrow> fe_skb (fs_cache fs ! n) = None \<or>
        (fe_seq (fs_cache fs ! n), fe_src_addr (fs_cache fs ! n), fe_dst_addr (fs_cache fs ! n)) \<noteq> (ucast seq, src, dst)"
    and xs: "frag_train HZ j hdrlen seq src dst 1 xs"
    and room: "skb_len skb + length (concat (map (frag_payload hdrlen) xs)) \<le> mtu + 54"
  shows "\<exists>skb' fs'. defrag_feed HZ mtu hdrlen ((j, fc, skb) # xs) fs = Some (Frag_Complete skb', fs') \<and>
     skb_data skb' = skb_data skb @ concat (map (frag_payload hdrlen) xs) \<and>
     fe_skb (fs_cache fs' ! fs_next_idx fs) = None"
  using assms by (rule defrag_feed_all)

text \<open>A data frame of station 2 to station 1 with a given sequence control field.\<close>

definition frag_example :: "u8 \<Rightarrow> u8 \<Rightarrow> bytes \<Rightarrow> sk_buff" where
  "frag_example fc1 sc0 payload = \<lparr>skb_head = [], skb_data = [0x08, fc1, 0, 0, 1, 1, 1, 1, 1, 1, 2, 2, 2, 2, 2, 2,
     3, 3, 3, 3, 3, 3, sc0, 0] @ payload, skb_room = []\<rparr>"

theorem defrag_reassembles_witness:
  "\<exists>skb' fs'. defrag_feed 100 1500 24 ((1000, FCTL_MOREFRAGS, frag_example 4 0x50 [7, 8]) #
       [(1001, FCTL_MOREFRAGS, frag_example 4 0x51 [9]), (1002, 0, frag_example 0 0x52 [10, 11])]) frag_cache_zero =
       Some (Frag_Complete skb', fs') \<and>
     skb_data skb' = skb_data (frag_example 4 0x50 [7, 8]) @ concat (map (frag_payload 24)
       [(1001, FCTL_MOREFRAGS, frag_example 4 0x51 [9]), (1002, 0, frag_example 0 0x52 [10, 11])]) \<and>
     fe_skb (fs_cache fs' ! fs_next_idx frag_cache_zero) = None"
proof -
  have f: "frag_of 0x50 [2, 2, 2, 2, 2, 2] [1, 1, 1, 1, 1, 1] 0 (skb_data (frag_example c 0x50 p))"
    "frag_of 0x50 [2, 2, 2, 2, 2, 2] [1, 1, 1, 1, 1, 1] 1 (skb_data (frag_example c 0x51 p))"
    "frag_of 0x50 [2, 2, 2, 2, 2, 2] [1, 1, 1, 1, 1, 1] 2 (skb_data (frag_example c 0x52 p))" for c p
    by (simp_all add: frag_of_def frag_example_def hdr_field_defs buf_read_def get_le16_def
        WLAN_GET_SEQ_SEQ_def WLAN_GET_SEQ_FRAG_def)
  have t: "\<not> time_after 1001 (1000 + 2 * 100)" "\<not> time_after 1002 (1000 + 2 * 100)"
    using time_after_behind [of 199 1001] time_after_behind [of 198 1002] by simp_all
  have l: "skb_len (frag_example c x p) = 24 + length p" for c x p
    by (simp add: skb_len_def frag_example_def)
  have tr: "frag_train 100 1000 24 0x50 [2, 2, 2, 2, 2, 2] [1, 1, 1, 1, 1, 1] 1
      [(1001, FCTL_MOREFRAGS, frag_example 4 0x51 [9]), (1002, 0, frag_example 0 0x52 [10, 11])]"
    using f(2) [of 4 "[9]"] f(3) [of 0 "[10, 11]", unfolded numeral_2_eq_2] t by (simp add: l)
  have pl: "length (frag_payload 24 (j, fc, frag_example c x p)) = length p" for j fc c x p
    by (simp add: frag_example_def)
  show ?thesis
    by (rule defrag_reassembles [OF f(1) _ _ _ tr])
      (simp_all add: l pl frag_cache_zero_def del: frag_payload_simp)
qed

text \<open>A delivered buffer can stay in the cache.  The last fragment is looked up with its
  fragment number, but the entry to clear is looked up without it: when a frame is started
  again while an older copy is still incomplete, the older entry is cleared and the entry of
  the delivered buffer keeps pointing to it.  (Any frame of another sequence number in between
  gets the repeated first fragment past the duplicate filter.)\<close>

theorem defrag_delivered_still_cached:
  "\<exists>skb fs. defrag_feed 100 0 24
       [(1000, FCTL_MOREFRAGS, frag_example 4 0x50 [7]), (1001, FCTL_MOREFRAGS, frag_example 4 0x51 [8]),
        (1002, FCTL_MOREFRAGS, frag_example 4 0x50 [7]), (1003, 0, frag_example 0 0x51 [8])] frag_cache_zero =
       Some (Frag_Complete skb, fs) \<and>
     fe_skb (fs_cache fs ! 1) = Some skb \<and> fe_skb (fs_cache fs ! 0) = None"
proof -
  have "case defrag_feed 100 0 24
       [(1000, FCTL_MOREFRAGS, frag_example 4 0x50 [7]), (1001, FCTL_MOREFRAGS, frag_example 4 0x51 [8]),
        (1002, FCTL_MOREFRAGS, frag_example 4 0x50 [7]), (1003, 0, frag_example 0 0x51 [8])] frag_cache_zero of
      Some (Frag_Complete skb, fs) \<Rightarrow> fe_skb (fs_cache fs ! 1) = Some skb \<and> fe_skb (fs_cache fs ! 0) = None
    | _ \<Rightarrow> False"
    by code_simp
  then show ?thesis by (auto split: option.splits prod.splits defrag_result.splits)
qed

end
