(* ===== verification/Rx.thy ===== *)
theory Rx
  imports Mpdu Defrag Duplicate
begin

text \<open>
  \<open>ieee80211_rx\<close> of \<open>ieee80211/ieee80211_rx.c\<close>: what happens to a received frame.  The parts of
  \<open>struct ieee80211_device\<close> the function uses are the fields of \<open>rx_device\<close>; \<open>'p\<close> is the type
  of the cipher contexts.  A key slot holds the operation table and the context of
  \<open>struct ieee80211_crypt_data\<close> (its reference count is in \<open>Crypt\<close>).  The result is \<open>None\<close> when
  the function leaves the buffer's allocation.
\<close>

record 'p rx_device =
  rd_iw_mode :: iw_mode
  rd_host_decrypt :: bool
  rd_open_wep :: bool
  rd_crypt :: "('p crypto_ops option \<times> 'p) option list"
  rd_dup :: dup_state
  rd_frag :: frag_state
  rd_bssid :: bytes
  rd_dev_addr :: bytes
  rd_mtu :: nat
  rd_last_rx :: u64
  rd_last_rx_ps_time :: u64
  rd_rx_packets :: u64
  rd_rx_bytes :: u64
  rd_rx_dropped :: u64
  rd_undecryptable :: u32

text \<open>
  What became of the frame.  The return value is 0 for the two drops and 1 otherwise; it tells
  the caller whether it still owns the buffer it passed.  \<open>Rx_Dropped_Freed\<close> is a drop after
  that buffer was freed, \<open>Rx_Kept\<close> a fragment copied into the cache.
\<close>

datatype rx_outcome = Rx_Dropped | Rx_Dropped_Freed | Rx_Monitor sk_buff | Rx_Mgmt sk_buff | Rx_Kept | Rx_Delivered sk_buff

definition rx_ret :: "rx_outcome \<Rightarrow> int" where
  "rx_ret r = (case r of Rx_Dropped \<Rightarrow> 0 | Rx_Dropped_Freed \<Rightarrow> 0 | _ \<Rightarrow> 1)"

definition rx_drop :: "'p rx_device \<Rightarrow> 'p rx_device" where
  "rx_drop dev = dev\<lparr>rd_rx_dropped := rd_rx_dropped dev + 1\<rparr>"

definition rx_count :: "sk_buff \<Rightarrow> 'p rx_device \<Rightarrow> 'p rx_device" where
  "rx_count skb dev = dev\<lparr>rd_rx_packets := rd_rx_packets dev + 1,
     rd_rx_bytes := rd_rx_bytes dev + word_of_nat (skb_len skb)\<rparr>"

section \<open>The key slot and the two decryptions\<close>

text \<open>The slot of the frame's key; \<open>Some None\<close> is \<open>crypt == NULL\<close>.\<close>

definition rx_crypt_slot :: "'p rx_device \<Rightarrow> nat \<Rightarrow> sk_buff \<Rightarrow> nat option option" where
  "rx_crypt_slot dev hdrlen skb =
     (if \<not> rd_host_decrypt dev then Some None
      else do {
        idx \<leftarrow> (if hdrlen + 3 \<le> skb_len skb
               then map_option (\<lambda>b. unat (drop_bit 6 (b ! 0))) (skb_peek (hdrlen + 3) 1 skb) else Some 0);
        Some (case rd_crypt dev ! idx of
            Some (Some ops, _) \<Rightarrow> map_option (\<lambda>_. idx) (co_decrypt_mpdu ops)
          | _ \<Rightarrow> None)
      })"

definition rx_set_priv :: "nat \<Rightarrow> 'p crypto_ops \<Rightarrow> 'p \<Rightarrow> 'p rx_device \<Rightarrow> 'p rx_device" where
  "rx_set_priv i ops priv dev = dev\<lparr>rd_crypt := (rd_crypt dev)[i := Some (Some ops, priv)]\<rparr>"

definition ieee80211_rx_frame_decrypt ::
  "nat option \<Rightarrow> 'p rx_device \<Rightarrow> sk_buff \<Rightarrow> (int \<times> sk_buff \<times> 'p rx_device) option" where
  "ieee80211_rx_frame_decrypt crypt dev skb =
     (case crypt of None \<Rightarrow> Some (0, skb, dev)
      | Some i \<Rightarrow> (case rd_crypt dev ! i of
          Some (Some ops, priv) \<Rightarrow> (case co_decrypt_mpdu ops of
              None \<Rightarrow> Some (0, skb, dev)
            | Some decrypt_mpdu \<Rightarrow> do {
                fc \<leftarrow> hdr_frame_ctl (skb_data skb);
                (res, skb, priv) \<leftarrow> decrypt_mpdu skb (ieee80211_get_hdrlen fc) priv;
                let dev = rx_set_priv i ops priv dev;
                if res < 0 then Some (- 1, skb, dev\<lparr>rd_undecryptable := rd_undecryptable dev + 1\<rparr>)
                else Some (res, skb, dev)
              })
        | _ \<Rightarrow> None))"

definition ieee80211_rx_frame_decrypt_msdu ::
  "int \<Rightarrow> nat option \<Rightarrow> 'p rx_device \<Rightarrow> sk_buff \<Rightarrow> (int \<times> sk_buff \<times> 'p rx_device) option" where
  "ieee80211_rx_frame_decrypt_msdu keyidx crypt dev skb =
     (case crypt of None \<Rightarrow> Some (0, skb, dev)
      | Some i \<Rightarrow> (case rd_crypt dev ! i of
          Some (Some ops, priv) \<Rightarrow> (case co_decrypt_msdu ops of
              None \<Rightarrow> Some (0, skb, dev)
            | Some decrypt_msdu \<Rightarrow> do {
                fc \<leftarrow> hdr_frame_ctl (skb_data skb);
                (res, skb, priv) \<leftarrow> decrypt_msdu keyidx skb (ieee80211_get_hdrlen fc) priv;
                let dev = rx_set_priv i ops priv dev;
                Some (if res < 0 then - 1 else 0, skb, dev)
              })
        | _ \<Rightarrow> None))"

section \<open>Addresses and the Ethernet header\<close>

text \<open>Destination, source and BSSID; \<open>Some None\<close> is the drop of a short four-address frame.\<close>

definition rx_addresses :: "bytes \<Rightarrow> u16 \<Rightarrow> bytes \<Rightarrow> (bytes \<times> bytes \<times> bytes) option option" where
  "rx_addresses current_bssid fc d = do {
     addr1 \<leftarrow> hdr_addr1 d;
     addr2 \<leftarrow> hdr_addr2 d;
     addr3 \<leftarrow> hdr_addr3 d;
     if fc AND FCTL_DSTODS = FCTL_FROMDS then Some (Some (addr1, addr3, addr2))
     else if fc AND FCTL_DSTODS = FCTL_TODS then Some (Some (addr3, addr2, addr1))
     else if fc AND FCTL_DSTODS = FCTL_DSTODS then
       if length d < 30 then Some None
       else do { addr4 \<leftarrow> hdr_addr4 d; Some (Some (addr3, addr4, current_bssid)) }
     else Some (Some (addr1, addr2, addr3))
   }"

definition rfc1042_header :: bytes where "rfc1042_header = [0xaa, 0xaa, 0x03, 0x00, 0x00, 0x00]"
definition bridge_tunnel_header :: bytes where "bridge_tunnel_header = [0xaa, 0xaa, 0x03, 0x00, 0x00, 0xf8]"

text \<open>
  The length test \<open>skb->len - hdrlen >= 8\<close> is unsigned: it also holds for \<open>skb->len < hdrlen\<close>.
  The ethertype is read in any case.
\<close>

definition rx_is_snap :: "nat \<Rightarrow> sk_buff \<Rightarrow> bool option" where
  "rx_is_snap hdrlen skb = do {
     et \<leftarrow> skb_peek (hdrlen + 6) 2 skb;
     let ethertype = get_le16 (et ! 1) (et ! 0);
     if hdrlen + 8 \<le> skb_len skb \<or> skb_len skb < hdrlen
     then do {
       snap \<leftarrow> skb_peek hdrlen 6 skb;
       Some ((snap = rfc1042_header \<and> ethertype \<noteq> 0x80f3 \<and> ethertype \<noteq> 0x8137) \<or> snap = bridge_tunnel_header)
     }
     else Some False
   }"

definition rx_to_8023 :: "nat \<Rightarrow> bytes \<Rightarrow> bytes \<Rightarrow> sk_buff \<Rightarrow> sk_buff option" where
  "rx_to_8023 hdrlen dst src skb = do {
     snap \<leftarrow> rx_is_snap hdrlen skb;
     if snap then do {
       skb \<leftarrow> skb_prepend src (skb_pull (hdrlen + 6) skb);
       skb_prepend dst skb
     }
     else do {
       let skb = skb_pull hdrlen skb;
       let len = (word_of_nat (skb_len skb) :: u16);
       skb \<leftarrow> skb_prepend [ucast (drop_bit 8 len), ucast len] skb;
       skb \<leftarrow> skb_prepend src skb;
       skb_prepend dst skb
     }
   }"

section \<open>The receive function\<close>

text \<open>From the complete MSDU to the network stack; \<open>dropped\<close> is the outcome of a drop here.\<close>

definition rx_msdu ::
  "rx_outcome \<Rightarrow> u64 \<Rightarrow> u16 \<Rightarrow> nat \<Rightarrow> nat option \<Rightarrow> int \<Rightarrow> bytes \<Rightarrow> bytes \<Rightarrow> 'p rx_device \<Rightarrow> sk_buff \<Rightarrow>
     (rx_outcome \<times> 'p rx_device) option" where
  "rx_msdu dropped jiffies fc hdrlen crypt keyidx dst src dev skb = do {
     (res, skb, dev) \<leftarrow> (if rd_host_decrypt dev \<and> fc AND FCTL_WEP \<noteq> 0
                         then ieee80211_rx_frame_decrypt_msdu keyidx crypt dev skb else Some (0, skb, dev));
     if res \<noteq> 0 then Some (dropped, rx_drop dev)
     else do {
       pass \<leftarrow> (if crypt \<noteq> None \<and> fc AND FCTL_WEP = 0 \<and> \<not> rd_open_wep dev
               then ieee80211_is_eapol_frame (rd_dev_addr dev) skb else Some True);
       if \<not> pass then Some (dropped, rx_drop dev)
       else do {
         skb \<leftarrow> rx_to_8023 hdrlen dst src skb;
         Some (Rx_Delivered skb, (rx_count skb dev)\<lparr>rd_last_rx_ps_time := jiffies\<rparr>)
       }
     }
   }"

text \<open>A data frame, after its addresses were read.\<close>

definition rx_data ::
  "u64 \<Rightarrow> u64 \<Rightarrow> bool \<Rightarrow> u16 \<Rightarrow> u16 \<Rightarrow> nat \<Rightarrow> nat option \<Rightarrow> bytes \<Rightarrow> bytes \<Rightarrow> bytes \<Rightarrow> 'p rx_device \<Rightarrow> sk_buff \<Rightarrow>
     (rx_outcome \<times> 'p rx_device) option" where
  "rx_data HZ jiffies frag_alloc fc frag hdrlen crypt dst src bssid dev skb =
     (let dev = dev\<lparr>rd_last_rx := jiffies\<rparr>; stype = WLAN_FC_GET_STYPE fc
      in if stype \<noteq> 0x00 \<and> stype \<noteq> 0x10 \<and> stype \<noteq> 0x20 \<and> stype \<noteq> 0x30 then Some (Rx_Dropped, rx_drop dev)
      else if bssid \<noteq> rd_bssid dev then Some (Rx_Dropped, rx_drop dev)
      else do {
        (keyidx, skb, dev) \<leftarrow> (if rd_host_decrypt dev \<and> fc AND FCTL_WEP \<noteq> 0
                               then ieee80211_rx_frame_decrypt crypt dev skb else Some (0, skb, dev));
        if keyidx < 0 then Some (Rx_Dropped, rx_drop dev)
        else if frag \<noteq> 0 \<or> fc AND FCTL_MOREFRAGS \<noteq> 0 then do {
          (r, fs) \<leftarrow> rx_defrag HZ jiffies (rd_mtu dev) frag_alloc frag fc hdrlen skb (rd_frag dev);
          let dev = dev\<lparr>rd_frag := fs\<rparr>;
          case r of
            Frag_Dropped \<Rightarrow> Some (Rx_Dropped, rx_drop dev)
          | Frag_Kept \<Rightarrow> Some (Rx_Kept, dev)
          | Frag_Complete skb \<Rightarrow> rx_msdu Rx_Dropped_Freed jiffies fc hdrlen crypt keyidx dst src dev skb
        }
        else rx_msdu Rx_Dropped jiffies fc hdrlen crypt keyidx dst src dev skb
      })"

text \<open>
  \<open>HZ\<close> and \<open>jiffies\<close> are the clock; \<open>dup_alloc\<close> and \<open>frag_alloc\<close> say whether the memory for a
  duplicate record and for a reassembly buffer is there.
\<close>

definition ieee80211_rx ::
  "u64 \<Rightarrow> u64 \<Rightarrow> bool \<Rightarrow> bool \<Rightarrow> 'p rx_device \<Rightarrow> sk_buff \<Rightarrow> (rx_outcome \<times> 'p rx_device) option" where
  "ieee80211_rx HZ jiffies dup_alloc frag_alloc dev skb =
     (if skb_len skb < 10 then Some (Rx_Dropped, rx_drop dev)
      else do {
        fc \<leftarrow> hdr_frame_ctl (skb_data skb);
        sc \<leftarrow> hdr_seq_ctl (skb_data skb @ skb_room skb);
        let frag = WLAN_GET_SEQ_FRAG sc;
        let hdrlen = ieee80211_get_hdrlen fc;
        if rd_iw_mode dev = IW_MODE_MONITOR
        then let skb = skb_pull hdrlen skb in Some (Rx_Monitor skb, rx_count skb dev)
        else do {
          crypt \<leftarrow> rx_crypt_slot dev hdrlen skb;
          if rd_host_decrypt dev \<and> crypt = None \<and> fc AND FCTL_WEP \<noteq> 0
          then Some (Rx_Dropped, rx_drop (dev\<lparr>rd_undecryptable := rd_undecryptable dev + 1\<rparr>))
          else if skb_len skb < 24 then Some (Rx_Dropped, rx_drop dev)
          else do {
            (dup, ds) \<leftarrow> is_duplicate_packet HZ jiffies dup_alloc (rd_iw_mode dev) (skb_data skb) (rd_dup dev);
            let dev = dev\<lparr>rd_dup := ds\<rparr>;
            if dup then Some (Rx_Dropped, rx_drop dev)
            else if WLAN_FC_GET_TYPE fc = 0 then Some (Rx_Mgmt skb, dev)
            else do {
              addrs \<leftarrow> rx_addresses (rd_bssid dev) fc (skb_data skb);
              case addrs of
                None \<Rightarrow> Some (Rx_Dropped, rx_drop dev)
              | Some (dst, src, bssid) \<Rightarrow>
                  rx_data HZ jiffies frag_alloc fc frag hdrlen crypt dst src bssid dev skb
            }
          }
        }
      })"

section \<open>The Ethernet frame of a body\<close>

text \<open>The specification of the conversion: the LLC/SNAP header is dropped or a length field put in.\<close>

definition snap_encap :: "bytes \<Rightarrow> bool" where
  "snap_encap body \<longleftrightarrow> 8 \<le> length body \<and>
     ((take 6 body = rfc1042_header \<and> get_le16 (body ! 7) (body ! 6) \<noteq> 0x80f3 \<and> get_le16 (body ! 7) (body ! 6) \<noteq> 0x8137) \<or>
      take 6 body = bridge_tunnel_header)"

definition ethernet_frame :: "bytes \<Rightarrow> bytes \<Rightarrow> bytes \<Rightarrow> bytes" where
  "ethernet_frame dst src body = dst @ src @
     (if snap_encap body then drop 6 body
      else let len = (word_of_nat (length body) :: u16) in [ucast (drop_bit 8 len), ucast len] @ body)"

lemma rx_is_snap_spec:
  assumes d: "skb_data skb = hdr @ body" and room: "8 \<le> length body + skb_tailroom skb"
  shows "rx_is_snap (length hdr) skb = Some (snap_encap body)"
proof -
  have et: "skb_peek (length hdr + 6) 2 skb = Some (take 2 (drop 6 (body @ skb_room skb)))"
    using room by (simp add: skb_peek_def buf_read_def d skb_tailroom_def)
  show ?thesis
  proof (cases "8 \<le> length body")
    case True
    have "skb_peek (length hdr) 6 skb = Some (take 6 body)"
      using True by (simp add: skb_peek_def buf_read_def d)
    moreover have "take 2 (drop 6 (body @ skb_room skb)) = [body ! 6, body ! 7]"
      using True by (intro nth_equalityI) (auto simp: nth_append less_Suc_eq eval_nat_numeral)
    ultimately show ?thesis using True et by (simp add: rx_is_snap_def snap_encap_def d skb_len_def Let_def)
  next
    case False
    then show ?thesis using et by (simp add: rx_is_snap_def snap_encap_def d skb_len_def)
  qed
qed

lemma rx_to_8023_spec:
  assumes d: "skb_data skb = hdr @ body" and hdr: "14 \<le> length hdr" and "length dst = 6" and "length src = 6"
    and room: "8 \<le> length body + skb_tailroom skb"
  shows "\<exists>skb'. rx_to_8023 (length hdr) dst src skb = Some skb' \<and> skb_data skb' = ethernet_frame dst src body"
proof (cases "snap_encap body")
  case True
  then have "6 \<le> length body" by (simp add: snap_encap_def)
  let ?skb = "skb_pull (length hdr + 6) skb"
  have p: "skb_data ?skb = drop 6 body" "12 \<le> skb_headroom ?skb"
    using \<open>6 \<le> length body\<close> hdr d skb_pull_headroom(2) [of "length hdr + 6" skb]
    by (auto simp: skb_pull_def skb_len_def)
  obtain skb1 where "skb_prepend src ?skb = Some skb1" "skb_data skb1 = src @ drop 6 body" "6 \<le> skb_headroom skb1"
    using skb_prepend_Some [of src ?skb] p assms(4) by auto
  then show ?thesis
    using True rx_is_snap_spec [OF d room] skb_prepend_Some [of dst skb1] assms(3)
    by (auto simp: rx_to_8023_def ethernet_frame_def)
next
  case False
  let ?skb = "skb_pull (length hdr) skb" and ?len = "word_of_nat (length body) :: u16"
  have p: "skb_data ?skb = body" "14 \<le> skb_headroom ?skb"
    using hdr d skb_pull_headroom(2) [of "length hdr" skb] by (auto simp: skb_pull_def skb_len_def)
  obtain skb1 where 1: "skb_prepend [ucast (drop_bit 8 ?len), ucast ?len] ?skb = Some skb1"
    "skb_data skb1 = [ucast (drop_bit 8 ?len), ucast ?len] @ body" "12 \<le> skb_headroom skb1"
    using skb_prepend_Some [of "[ucast (drop_bit 8 ?len), ucast ?len]" ?skb] p by auto
  obtain skb2 where 2: "skb_prepend src skb1 = Some skb2" "skb_data skb2 = src @ [ucast (drop_bit 8 ?len), ucast ?len] @ body"
    "6 \<le> skb_headroom skb2"
    using skb_prepend_Some [of src skb1] 1 assms(4) by auto
  then show ?thesis
    using False rx_is_snap_spec [OF d room] skb_prepend_Some [of dst skb2] assms(3) 1 p
    by (auto simp: rx_to_8023_def ethernet_frame_def Let_def skb_len_def)
qed


section \<open>A data frame for this station's network\<close>

text \<open>
  The header of a data frame with fields \<open>fc\<close> and \<open>sc\<close>, from \<open>src\<close> to \<open>dst\<close> in the network
  \<open>bssid\<close>.
\<close>

definition data_header :: "u16 \<Rightarrow> u16 \<Rightarrow> bytes \<Rightarrow> bytes \<Rightarrow> bytes \<Rightarrow> bytes \<Rightarrow> bool" where
  "data_header fc sc dst src bssid hdr \<longleftrightarrow>
     hdr_frame_ctl hdr = Some fc \<and> hdr_seq_ctl hdr = Some sc \<and> length hdr = ieee80211_get_hdrlen fc \<and>
     WLAN_FC_GET_TYPE fc = FTYPE_DATA \<and> WLAN_FC_GET_STYPE fc = 0 \<and>
     rx_addresses bssid fc hdr = Some (Some (dst, src, bssid))"

lemma data_header_length: "data_header fc sc dst src bssid hdr \<Longrightarrow> 24 \<le> length hdr"
  by (auto simp: data_header_def ieee80211_get_hdrlen_def split: if_splits)

lemma rx_addresses_length: "rx_addresses cb fc d = Some (Some (dst, src, bssid)) \<Longrightarrow> length dst = 6 \<and> length src = 6"
  by (auto simp: rx_addresses_def hdr_field_defs Option.bind_eq_Some_conv dest: buf_read_len split: if_splits)

lemma rx_addresses_prefix:
  assumes a: "rx_addresses cb fc hdr = Some (Some x)"
  shows "rx_addresses cb fc (hdr @ d) = Some (Some x)"
proof -
  obtain a1 a2 a3 where f: "hdr_addr1 hdr = Some a1" "hdr_addr2 hdr = Some a2" "hdr_addr3 hdr = Some a3"
    using a by (auto simp: rx_addresses_def Option.bind_eq_Some_conv)
  note p = hdr_fields_prefix(2) [OF f(1), of d] hdr_fields_prefix(3) [OF f(2), of d] hdr_fields_prefix(4) [OF f(3), of d]
  show ?thesis
  proof (cases "fc AND FCTL_DSTODS = FCTL_DSTODS")
    case True
    with a f obtain a4 where "hdr_addr4 hdr = Some a4" "\<not> length hdr < 30" "x = (a3, a4, cb)"
      by (auto simp: rx_addresses_def Option.bind_eq_Some_conv split: if_split_asm)
    then show ?thesis using True p hdr_fields_prefix(6) [of hdr a4 d] by (simp add: rx_addresses_def)
  next
    case False
    then show ?thesis using a f p by (simp add: rx_addresses_def split: if_split_asm)
  qed
qed

lemma is_duplicate_prefix:
  assumes "hdr_seq_ctl hdr = Some sc" and "hdr_addr2 hdr = Some a"
  shows "is_duplicate_packet HZ j ok mode (hdr @ d) ds = is_duplicate_packet HZ j ok mode hdr ds"
  using assms hdr_fields_prefix(3) [OF assms(2), of d] hdr_fields_prefix(5) [OF assms(1), of d]
  by (cases mode) (simp_all add: is_duplicate_packet_def)

lemma is_eapol_prefix_fields: "skb_len skb < 24 \<Longrightarrow> ieee80211_is_eapol_frame a skb = Some False"
  by (simp add: ieee80211_is_eapol_frame_def)

text \<open>The steps up to the data frame branch.\<close>

lemma rx_data_frame:
  assumes h: "data_header fc sc dst src bssid hdr" and d: "skb_data skb = hdr @ body"
    and m: "rd_iw_mode dev \<noteq> IW_MODE_MONITOR" and cb: "rd_bssid dev = bssid"
    and nd: "is_duplicate_packet HZ j da (rd_iw_mode dev) hdr (rd_dup dev) = Some (False, ds)"
    and slot: "rx_crypt_slot dev (length hdr) skb = Some crypt"
    and key: "rd_host_decrypt dev \<Longrightarrow> fc AND FCTL_WEP \<noteq> 0 \<Longrightarrow> crypt \<noteq> None"
  shows "ieee80211_rx HZ j da fa dev skb =
     rx_data HZ j fa fc (WLAN_GET_SEQ_FRAG sc) (length hdr) crypt dst src bssid (dev\<lparr>rd_dup := ds\<rparr>) skb"
proof -
  note l = data_header_length [OF h]
  have f: "hdr_frame_ctl (hdr @ body) = Some fc" "hdr_seq_ctl (hdr @ body @ skb_room skb) = Some sc"
    "length hdr = ieee80211_get_hdrlen fc" "WLAN_FC_GET_TYPE fc = FTYPE_DATA"
    "rx_addresses bssid fc (hdr @ body) = Some (Some (dst, src, bssid))"
    using h by (auto simp: data_header_def hdr_fields_prefix rx_addresses_prefix)
  obtain a where "hdr_addr2 hdr = Some a" using hdr_fields_Some(3) [of hdr] l by auto
  then have "is_duplicate_packet HZ j da (rd_iw_mode dev) (hdr @ body) (rd_dup dev) = Some (False, ds)"
    using is_duplicate_prefix [of hdr sc a] h nd by (simp add: data_header_def)
  then show ?thesis
    using f l m slot key cb d by (auto simp: ieee80211_rx_def skb_len_def)
qed

lemma rx_crypt_slot_sealed:
  assumes "skb_data skb = hdr @ sealed" and "4 \<le> length sealed" and "rd_host_decrypt dev"
    and "rd_crypt dev ! unat (drop_bit 6 (sealed ! 3)) = Some (Some ops, priv)" and "co_decrypt_mpdu ops \<noteq> None"
  shows "rx_crypt_slot dev (length hdr) skb = Some (Some (unat (drop_bit 6 (sealed ! 3))))"
proof -
  have "skb_peek (length hdr + 3) 1 skb = Some [sealed ! 3]"
    using assms(1,2) by (simp add: skb_peek_def buf_read_def take_Suc_conv_app_nth take_Suc hd_drop_conv_nth nth_append)
  then show ?thesis using assms by (auto simp: rx_crypt_slot_def skb_len_def)
qed

lemma rx_crypt_slot_Some:
  "skb_peek (hdrlen + 3) 1 skb = Some b \<Longrightarrow> \<exists>crypt. rx_crypt_slot dev hdrlen skb = Some crypt"
  by (cases "hdrlen + 3 \<le> skb_len skb") (simp_all add: rx_crypt_slot_def)

lemma rx_crypt_slot_None:
  assumes "rx_crypt_slot dev hdrlen skb = Some crypt" and "\<not> rd_host_decrypt dev \<or> (\<forall>i < 4. rd_crypt dev ! i = None)"
  shows "crypt = None"
  using assms u8_top_bits by (auto simp: rx_crypt_slot_def Option.bind_eq_Some_conv split: if_split_asm)

text \<open>The two decryptions through an interface operation that succeeds.\<close>

lemma rx_frame_decrypt_opens:
  assumes "rd_crypt dev ! i = Some (Some ops, priv)" and "co_decrypt_mpdu ops \<noteq> None"
    and "hdr_frame_ctl (skb_data skb) = Some fc"
    and "crypt_open_mpdu ops skb (ieee80211_get_hdrlen fc) priv = Some (res, skb', priv')" and "0 \<le> res"
  shows "ieee80211_rx_frame_decrypt (Some i) dev skb = Some (res, skb', rx_set_priv i ops priv' dev)"
  using assms by (auto simp: ieee80211_rx_frame_decrypt_def crypt_open_mpdu_def)

lemma rx_frame_decrypt_msdu_opens:
  assumes "rd_crypt dev ! i = Some (Some ops, priv)" and "hdr_frame_ctl (skb_data skb) = Some fc"
    and "crypt_open_msdu ops keyidx skb (ieee80211_get_hdrlen fc) priv = Some (res, skb', priv')" and "0 \<le> res"
  shows "\<exists>dev'. ieee80211_rx_frame_decrypt_msdu keyidx (Some i) dev skb = Some (0, skb', dev') \<and>
     (dev' = dev \<or> dev' = rx_set_priv i ops priv' dev)"
  using assms by (cases "co_decrypt_msdu ops")
    (auto simp: ieee80211_rx_frame_decrypt_msdu_def crypt_open_msdu_def)

lemma rx_set_priv_fields [simp]:
  "rd_bssid (rx_set_priv i ops priv dev) = rd_bssid dev" "rd_open_wep (rx_set_priv i ops priv dev) = rd_open_wep dev"
  "rd_host_decrypt (rx_set_priv i ops priv dev) = rd_host_decrypt dev"
  "rd_rx_packets (rx_set_priv i ops priv dev) = rd_rx_packets dev"
  "rd_rx_dropped (rx_set_priv i ops priv dev) = rd_rx_dropped dev"
  "i < length (rd_crypt dev) \<Longrightarrow> rd_crypt (rx_set_priv i ops priv dev) ! i = Some (Some ops, priv)"
  by (simp_all add: rx_set_priv_def)

lemma rx_delivers_opened:
  assumes h: "data_header fc sc dst src bssid hdr" and d: "skb_data skb = hdr @ sealed"
    and fc: "fc AND FCTL_WEP \<noteq> 0" "fc AND FCTL_MOREFRAGS = 0" "WLAN_GET_SEQ_FRAG sc = 0"
    and dev: "rd_iw_mode dev \<noteq> IW_MODE_MONITOR" "rd_bssid dev = bssid" "rd_host_decrypt dev"
    and nd: "is_duplicate_packet HZ j da (rd_iw_mode dev) hdr (rd_dup dev) = Some (False, ds)"
    and slot: "rd_crypt dev ! i = Some (Some ops, rx)" "i < length (rd_crypt dev)" "co_decrypt_mpdu ops \<noteq> None"
    and sealed: "4 \<le> length sealed" "unat (drop_bit 6 (sealed ! 3)) = i" "mpdu_opens ops hdr sealed body rx"
    and body: "8 \<le> length body"
  shows "\<exists>skb' dev'. ieee80211_rx HZ j da fa dev skb = Some (Rx_Delivered skb', dev') \<and>
     skb_data skb' = ethernet_frame dst src body"
proof -
  have cs: "rx_crypt_slot dev (length hdr) skb = Some (Some i)"
    using rx_crypt_slot_sealed [OF d sealed(1) dev(3)] slot sealed(2) by simp
  have len: "14 \<le> length hdr" "length dst = 6" "length src = 6" and st: "WLAN_FC_GET_STYPE fc = 0"
    and f: "hdr_frame_ctl hdr = Some fc" and hl: "length hdr = ieee80211_get_hdrlen fc"
    using data_header_length [OF h] rx_addresses_length h by (auto simp: data_header_def)
  let ?dev = "dev\<lparr>rd_dup := ds, rd_last_rx := j\<rparr>"
  obtain r1 skb1 rx1 x r2 skb2 rx2 where
    o1: "crypt_open_mpdu ops skb (ieee80211_get_hdrlen fc) rx = Some (r1, skb1, rx1)" "0 \<le> r1" "skb_data skb1 = hdr @ x"
    and o2: "crypt_open_msdu ops r1 skb1 (ieee80211_get_hdrlen fc) rx1 = Some (r2, skb2, rx2)" "0 \<le> r2"
    and d2: "skb_data skb2 = hdr @ body"
    using sealed(3) d hl unfolding mpdu_opens_def by metis
  have m1: "ieee80211_rx_frame_decrypt (Some i) ?dev skb = Some (r1, skb1, rx_set_priv i ops rx1 ?dev)"
    using rx_frame_decrypt_opens [of ?dev i ops rx skb fc] slot o1 d hdr_fields_prefix(1) [OF f] by simp
  obtain dev2 where m2: "ieee80211_rx_frame_decrypt_msdu r1 (Some i) (rx_set_priv i ops rx1 ?dev) skb1 = Some (0, skb2, dev2)"
    using rx_frame_decrypt_msdu_opens [of "rx_set_priv i ops rx1 ?dev" i ops rx1 skb1 fc] slot o1 o2 hdr_fields_prefix(1) [OF f]
    by fastforce
  obtain skb' where c: "rx_to_8023 (length hdr) dst src skb2 = Some skb'" "skb_data skb' = ethernet_frame dst src body"
    using rx_to_8023_spec [OF d2 len] body by auto
  have "ieee80211_rx HZ j da fa dev skb =
     rx_data HZ j fa fc (WLAN_GET_SEQ_FRAG sc) (length hdr) (Some i) dst src bssid (dev\<lparr>rd_dup := ds\<rparr>) skb"
    using rx_data_frame [OF h d dev(1,2) nd cs] by blast
  then show ?thesis
    using fc dev(2,3) st o1(2) m1 m2 c by (simp add: rx_data_def rx_msdu_def)
qed


lemma rx_delivers_unencrypted:
  assumes h: "data_header fc sc dst src bssid hdr" and d: "skb_data skb = hdr @ body"
    and fc: "fc AND FCTL_WEP = 0" "fc AND FCTL_MOREFRAGS = 0" "WLAN_GET_SEQ_FRAG sc = 0"
    and dev: "rd_iw_mode dev \<noteq> IW_MODE_MONITOR" "rd_bssid dev = bssid"
    and nd: "is_duplicate_packet HZ j da (rd_iw_mode dev) hdr (rd_dup dev) = Some (False, ds)"
    and slot: "rx_crypt_slot dev (length hdr) skb = Some crypt" and key: "crypt = None \<or> rd_open_wep dev"
    and room: "8 \<le> length body + skb_tailroom skb"
  shows "\<exists>skb' dev'. ieee80211_rx HZ j da fa dev skb = Some (Rx_Delivered skb', dev') \<and>
     skb_data skb' = ethernet_frame dst src body \<and> rx_ret (Rx_Delivered skb') = 1 \<and>
     rd_rx_packets dev' = rd_rx_packets dev + 1 \<and> rd_rx_dropped dev' = rd_rx_dropped dev"
proof -
  have len: "14 \<le> length hdr" "length dst = 6" "length src = 6" and st: "WLAN_FC_GET_STYPE fc = 0"
    using data_header_length [OF h] rx_addresses_length h by (auto simp: data_header_def)
  obtain skb' where "rx_to_8023 (length hdr) dst src skb = Some skb'" "skb_data skb' = ethernet_frame dst src body"
    using rx_to_8023_spec [OF d len room] by blast
  moreover have "ieee80211_rx HZ j da fa dev skb =
     rx_data HZ j fa fc (WLAN_GET_SEQ_FRAG sc) (length hdr) crypt dst src bssid (dev\<lparr>rd_dup := ds\<rparr>) skb"
    using rx_data_frame [OF h d dev nd slot] fc by blast
  ultimately show ?thesis
    using fc dev(2) st key by (elim disjE) (simp_all add: rx_data_def rx_msdu_def rx_count_def rx_ret_def)
qed

text \<open>The frames the receive path may hand to the network stack.\<close>

definition rx_acceptable :: "'p rx_device \<Rightarrow> sk_buff \<Rightarrow> bool" where
  "rx_acceptable dev skb = (case (hdr_frame_ctl (skb_data skb), hdr_seq_ctl (skb_data skb @ skb_room skb)) of
     (Some fc, Some sc) \<Rightarrow>
       24 \<le> skb_len skb \<and> rd_iw_mode dev \<noteq> IW_MODE_MONITOR \<and> WLAN_FC_GET_TYPE fc \<noteq> 0 \<and>
       WLAN_FC_GET_STYPE fc \<in> {0x00, 0x10, 0x20, 0x30} \<and>
       (case rx_addresses (rd_bssid dev) fc (skb_data skb) of
          Some (Some (dst, src, bssid)) \<Rightarrow> bssid = rd_bssid dev | _ \<Rightarrow> False) \<and>
       (case rx_crypt_slot dev (ieee80211_get_hdrlen fc) skb of
          Some crypt \<Rightarrow>
            (rd_host_decrypt dev \<and> fc AND FCTL_WEP \<noteq> 0 \<longrightarrow> crypt \<noteq> None) \<and>
            (crypt \<noteq> None \<and> fc AND FCTL_WEP = 0 \<and> \<not> rd_open_wep dev \<and> WLAN_GET_SEQ_FRAG sc = 0 \<and>
               fc AND FCTL_MOREFRAGS = 0 \<longrightarrow> ieee80211_is_eapol_frame (rd_dev_addr dev) skb = Some True)
        | None \<Rightarrow> False)
   | _ \<Rightarrow> False)"

lemma rx_delivered_facts:
  assumes "ieee80211_rx HZ j da fa dev skb = Some (Rx_Delivered skb', dev')"
  shows "\<exists>fc sc crypt dst src. hdr_frame_ctl (skb_data skb) = Some fc \<and> hdr_seq_ctl (skb_data skb @ skb_room skb) = Some sc \<and>
     24 \<le> skb_len skb \<and> rd_iw_mode dev \<noteq> IW_MODE_MONITOR \<and> WLAN_FC_GET_TYPE fc \<noteq> 0 \<and>
     WLAN_FC_GET_STYPE fc \<in> {0x00, 0x10, 0x20, 0x30} \<and>
     rx_addresses (rd_bssid dev) fc (skb_data skb) = Some (Some (dst, src, rd_bssid dev)) \<and>
     rx_crypt_slot dev (ieee80211_get_hdrlen fc) skb = Some crypt \<and>
     (rd_host_decrypt dev \<and> fc AND FCTL_WEP \<noteq> 0 \<longrightarrow> crypt \<noteq> None) \<and>
     (crypt \<noteq> None \<and> fc AND FCTL_WEP = 0 \<and> \<not> rd_open_wep dev \<and> WLAN_GET_SEQ_FRAG sc = 0 \<and> fc AND FCTL_MOREFRAGS = 0 \<longrightarrow>
        ieee80211_is_eapol_frame (rd_dev_addr dev) skb = Some True)"
proof -
  obtain fc sc where f: "hdr_frame_ctl (skb_data skb) = Some fc" "hdr_seq_ctl (skb_data skb @ skb_room skb) = Some sc"
    using assms by (auto simp: ieee80211_rx_def Option.bind_eq_Some_conv split: if_split_asm)
  let ?n = "ieee80211_get_hdrlen fc"
  obtain crypt where c: "rx_crypt_slot dev ?n skb = Some crypt" and m: "rd_iw_mode dev \<noteq> IW_MODE_MONITOR"
    using assms f by (auto simp: ieee80211_rx_def Option.bind_eq_Some_conv Let_def split: if_split_asm)
  have k: "rd_host_decrypt dev \<and> fc AND FCTL_WEP \<noteq> 0 \<longrightarrow> crypt \<noteq> None" and l: "24 \<le> skb_len skb"
    using assms f c m by (auto simp: ieee80211_rx_def Let_def split: if_split_asm)
  obtain dup ds where dp: "is_duplicate_packet HZ j da (rd_iw_mode dev) (skb_data skb) (rd_dup dev) = Some (dup, ds)"
    using assms f c m k l by (auto simp: ieee80211_rx_def Let_def Option.bind_eq_Some_conv split: if_split_asm)
  have t: "\<not> dup" "WLAN_FC_GET_TYPE fc \<noteq> 0"
    using assms f c m k l dp by (auto simp: ieee80211_rx_def Let_def split: if_split_asm)
  obtain dst src bssid where a: "rx_addresses (rd_bssid dev) fc (skb_data skb) = Some (Some (dst, src, bssid))"
    and r: "rx_data HZ j fa fc (WLAN_GET_SEQ_FRAG sc) ?n crypt dst src bssid (dev\<lparr>rd_dup := ds\<rparr>) skb = Some (Rx_Delivered skb', dev')"
    using assms f c m k l dp t
    by (auto simp: ieee80211_rx_def Let_def Option.bind_eq_Some_conv split: if_split_asm option.splits)
  have b: "WLAN_FC_GET_STYPE fc \<in> {0x00, 0x10, 0x20, 0x30}" "bssid = rd_bssid dev"
    using r by (auto simp: rx_data_def Let_def split: if_split_asm)
  have e: "crypt \<noteq> None \<and> fc AND FCTL_WEP = 0 \<and> \<not> rd_open_wep dev \<and> WLAN_GET_SEQ_FRAG sc = 0 \<and> fc AND FCTL_MOREFRAGS = 0 \<longrightarrow>
      ieee80211_is_eapol_frame (rd_dev_addr dev) skb = Some True"
    using r b by (auto simp: rx_data_def rx_msdu_def Let_def Option.bind_eq_Some_conv split: if_split_asm)
  show ?thesis using f c m k l t a b e by blast
qed

section \<open>Properties\<close>

text \<open>An unencrypted, unfragmented data frame of the own network that is no duplicate, for which
  no key is selected (or unencrypted frames are allowed), reaches the network stack as the Ethernet
  frame of its body, with its destination and source address for each of the four address formats;
  the frame is counted as received.\<close>

theorem rx_delivers_plain:
  assumes h: "data_header fc sc dst src bssid hdr" and d: "skb_data skb = hdr @ body"
    and fc: "fc AND FCTL_WEP = 0" "fc AND FCTL_MOREFRAGS = 0" "WLAN_GET_SEQ_FRAG sc = 0"
    and dev: "rd_iw_mode dev \<noteq> IW_MODE_MONITOR" "rd_bssid dev = bssid"
    and nd: "is_duplicate_packet HZ j da (rd_iw_mode dev) hdr (rd_dup dev) = Some (False, ds)"
    and slot: "rx_crypt_slot dev (length hdr) skb = Some crypt" and key: "crypt = None \<or> rd_open_wep dev"
    and room: "8 \<le> length body + skb_tailroom skb"
  shows "\<exists>skb' dev'. ieee80211_rx HZ j da fa dev skb = Some (Rx_Delivered skb', dev') \<and>
     skb_data skb' = ethernet_frame dst src body \<and> rx_ret (Rx_Delivered skb') = 1 \<and>
     rd_rx_packets dev' = rd_rx_packets dev + 1 \<and> rd_rx_dropped dev' = rd_rx_dropped dev"
  using assms by (rule rx_delivers_unencrypted)

text \<open>C20: A data frame that a station sealed with any of the three ciphers is delivered to a station
  that holds the peer's context in the slot of the key index: the network stack gets the Ethernet
  frame of the body that was sealed.\<close>

theorem rx_delivers_sealed:
  assumes cipher: "mpdu_cipher ops peers ki" and peers: "peers hdr body tx rx"
    and tx: "co_extra_prefix_len ops \<le> skb_headroom skb0" "co_extra_postfix_len ops \<le> skb_tailroom skb0"
      "skb_data skb0 = hdr @ body" "crypt_seal ops skb0 (length hdr) tx = Some (0, skb1, tx')"
    and air: "skb_data skb = skb_data skb1"
    and h: "data_header fc sc dst src bssid hdr"
    and fc: "fc AND FCTL_WEP \<noteq> 0" "fc AND FCTL_MOREFRAGS = 0" "WLAN_GET_SEQ_FRAG sc = 0"
    and dev: "rd_iw_mode dev \<noteq> IW_MODE_MONITOR" "rd_bssid dev = bssid" "rd_host_decrypt dev"
    and nd: "is_duplicate_packet HZ j da (rd_iw_mode dev) hdr (rd_dup dev) = Some (False, ds)"
    and slot: "rd_crypt dev ! ki tx = Some (Some ops, rx)" "ki tx < length (rd_crypt dev)" "co_decrypt_mpdu ops \<noteq> None"
    and body: "8 \<le> length body"
  shows "\<exists>skb' dev'. ieee80211_rx HZ j da fa dev skb = Some (Rx_Delivered skb', dev') \<and>
     skb_data skb' = ethernet_frame dst src body"
proof -
  obtain sealed where s: "skb_data skb1 = hdr @ sealed" "4 \<le> length sealed" "unat (drop_bit 6 (sealed ! 3)) = ki tx"
    "mpdu_opens ops hdr sealed body rx"
    using mpdu_cipher.seal_open [OF cipher peers tx(1-3)] tx(4) by (auto simp: mpdu_sealed_def)
  show ?thesis
    by (rule rx_delivers_opened [OF h _ fc dev nd slot s(2,3,4) body]) (simp add: air s(1))
qed

text \<open>C3: What a delivered frame is.  It is at least a three-address header long, not a management
  frame, of a subtype with data, from the own network; an encrypted one had a key; and if the key
  the frame selects is set and unencrypted frames are not allowed, an unencrypted, unfragmented
  one is an EAPOL frame.\<close>

theorem rx_delivered_policy:
  assumes "ieee80211_rx HZ j da fa dev skb = Some (Rx_Delivered skb', dev')"
  shows "rx_acceptable dev skb"
  using rx_delivered_facts [OF assms] by (auto simp: rx_acceptable_def)

text \<open>The key is chosen by two bits of the received body, also when the frame is not encrypted.
  So an unencrypted frame whose fourth body byte names an empty key slot is delivered, although
  keys are configured and unencrypted frames are not allowed.\<close>

theorem rx_plaintext_bypass:
  assumes h: "data_header fc sc dst src bssid hdr" and d: "skb_data skb = hdr @ body" and len: "8 \<le> length body"
    and fc: "fc AND FCTL_WEP = 0" "fc AND FCTL_MOREFRAGS = 0" "WLAN_GET_SEQ_FRAG sc = 0"
    and dev: "rd_iw_mode dev \<noteq> IW_MODE_MONITOR" "rd_bssid dev = bssid" "rd_host_decrypt dev" "\<not> rd_open_wep dev"
    and nd: "is_duplicate_packet HZ j da (rd_iw_mode dev) hdr (rd_dup dev) = Some (False, ds)"
    and configured: "rd_crypt dev ! 0 = Some (Some ops, priv)"
    and empty: "rd_crypt dev ! unat (drop_bit 6 (body ! 3)) = None"
  shows "\<exists>skb' dev'. ieee80211_rx HZ j da fa dev skb = Some (Rx_Delivered skb', dev') \<and>
     skb_data skb' = ethernet_frame dst src body"
proof -
  have "skb_peek (length hdr + 3) 1 skb = Some [body ! 3]"
    using d len by (simp add: skb_peek_def buf_read_def take_Suc_conv_app_nth take_Suc hd_drop_conv_nth nth_append)
  then have slot: "rx_crypt_slot dev (length hdr) skb = Some None"
    using d len empty by (auto simp: rx_crypt_slot_def skb_len_def)
  from rx_delivers_unencrypted [OF h d fc dev(1,2) nd slot, of fa] len show ?thesis by auto
qed

text \<open>After a fragment has been copied into the cache, the received buffer is freed.  When the frame
  it completes is then dropped (here: it is unencrypted, a key is set, and it is not EAPOL), the
  function returns 0, which tells the caller that the received buffer is still its own; the
  callers free it again.\<close>

theorem rx_double_free:
  assumes h: "data_header fc sc dst src bssid hdr" and d: "skb_data skb = hdr @ body"
    and fc: "fc AND FCTL_WEP = 0" "WLAN_GET_SEQ_FRAG sc \<noteq> 0"
    and dev: "rd_iw_mode dev \<noteq> IW_MODE_MONITOR" "rd_bssid dev = bssid" "\<not> rd_open_wep dev"
    and nd: "is_duplicate_packet HZ j da (rd_iw_mode dev) hdr (rd_dup dev) = Some (False, ds)"
    and slot: "rx_crypt_slot dev (length hdr) skb = Some (Some i)"
    and last: "rx_defrag HZ j (rd_mtu dev) fa (WLAN_GET_SEQ_FRAG sc) fc (length hdr) skb (rd_frag dev) = Some (Frag_Complete frame, fs)"
    and eapol: "ieee80211_is_eapol_frame (rd_dev_addr dev) frame = Some False"
  shows "\<exists>dev'. ieee80211_rx HZ j da fa dev skb = Some (Rx_Dropped_Freed, dev') \<and> rx_ret Rx_Dropped_Freed = 0"
proof -
  have st: "WLAN_FC_GET_STYPE fc = 0" using h by (simp add: data_header_def)
  have "ieee80211_rx HZ j da fa dev skb =
     rx_data HZ j fa fc (WLAN_GET_SEQ_FRAG sc) (length hdr) (Some i) dst src bssid (dev\<lparr>rd_dup := ds\<rparr>) skb"
    using rx_data_frame [OF h d dev(1,2) nd slot] fc by blast
  then show ?thesis
    using fc dev st last eapol by (simp add: rx_data_def rx_msdu_def rx_ret_def)
qed

text \<open>The bound for the key byte is off by one: a frame of \<open>hdrlen + 3\<close> bytes whose buffer ends
  there is read one byte past its end.\<close>

theorem rx_key_byte_overread:
  assumes "hdr_frame_ctl (skb_data skb) = Some fc" and "rd_iw_mode dev \<noteq> IW_MODE_MONITOR" and "rd_host_decrypt dev"
    and "skb_len skb = ieee80211_get_hdrlen fc + 3" and "skb_room skb = []"
  shows "ieee80211_rx HZ j da fa dev skb = None"
proof -
  have "skb_peek (ieee80211_get_hdrlen fc + 3) 1 skb = None"
    using assms(4,5) by (simp add: skb_peek_def buf_read_def skb_len_def)
  then have "rx_crypt_slot dev (ieee80211_get_hdrlen fc) skb = None"
    using assms(3,4) by (simp add: rx_crypt_slot_def)
  then show ?thesis
    using assms hdrlen_bounds(1) [of fc]
    by (cases "hdr_seq_ctl (skb_data skb @ skb_room skb)") (simp_all add: ieee80211_rx_def)
qed

text \<open>An ad hoc station 1 in the network 3 with the given key slots, and frames of station 2 to it.\<close>

definition rx_example :: "(prism2_wep_data crypto_ops option \<times> prism2_wep_data) option list \<Rightarrow> prism2_wep_data rx_device" where
  "rx_example slots = \<lparr>rd_iw_mode = IW_MODE_ADHOC, rd_host_decrypt = True, rd_open_wep = False, rd_crypt = slots,
     rd_dup = dup_zero, rd_frag = frag_cache_zero, rd_bssid = [3, 3, 3, 3, 3, 3], rd_dev_addr = [1, 1, 1, 1, 1, 1],
     rd_mtu = 1500, rd_last_rx = 0, rd_last_rx_ps_time = 0, rd_rx_packets = 0, rd_rx_bytes = 0, rd_rx_dropped = 0,
     rd_undecryptable = 0\<rparr>"

definition rx_example_hdr :: "u8 \<Rightarrow> u8 \<Rightarrow> bytes" where
  "rx_example_hdr fc1 sc0 = [0x08, fc1, 0, 0, 1, 1, 1, 1, 1, 1, 2, 2, 2, 2, 2, 2, 3, 3, 3, 3, 3, 3, sc0, 0]"

definition rx_example_body :: "u8 \<Rightarrow> bytes" where
  "rx_example_body b3 = [0xaa, 0xaa, 3, b3, 0, 0, 8, 0, 1, 2, 3]"

lemma rx_example_header:
  "data_header 0x08 0x50 [1, 1, 1, 1, 1, 1] [2, 2, 2, 2, 2, 2] [3, 3, 3, 3, 3, 3] (rx_example_hdr 0 0x50)"
  "data_header 0x4008 0x50 [1, 1, 1, 1, 1, 1] [2, 2, 2, 2, 2, 2] [3, 3, 3, 3, 3, 3] (rx_example_hdr 0x40 0x50)"
  "data_header 0x08 0x51 [1, 1, 1, 1, 1, 1] [2, 2, 2, 2, 2, 2] [3, 3, 3, 3, 3, 3] (rx_example_hdr 0 0x51)"
  by (simp_all add: data_header_def rx_example_hdr_def hdr_field_defs buf_read_def get_le16_def ieee80211_get_hdrlen_def
      WLAN_FC_GET_TYPE_def WLAN_FC_GET_STYPE_def rx_addresses_def)

lemma rx_example_dup: "\<exists>ds. is_duplicate_packet HZ j True IW_MODE_ADHOC (rx_example_hdr fc1 sc0) dup_zero = Some (False, ds)"
  by (simp add: is_duplicate_packet_def rx_example_hdr_def hdr_field_defs buf_read_def dup_zero_def)

lemma rx_example_simps [simp]:
  "rd_iw_mode (rx_example s) = IW_MODE_ADHOC" "rd_bssid (rx_example s) = [3, 3, 3, 3, 3, 3]" "rd_dup (rx_example s) = dup_zero"
  "rd_crypt (rx_example s) = s" "rd_host_decrypt (rx_example s)" "\<not> rd_open_wep (rx_example s)"
  "rd_mtu (rx_example s) = 1500" "rd_frag (rx_example s) = frag_cache_zero" "rd_dev_addr (rx_example s) = [1, 1, 1, 1, 1, 1]"
  by (simp_all add: rx_example_def)

definition rx_example_wep :: prism2_wep_data where
  "rx_example_wep = \<lparr>wep_iv = 5, wep_key = replicate 14 7, wep_key_len = 5, wep_key_idx = 0\<rparr>"

definition rx_example_slots :: "(prism2_wep_data crypto_ops option \<times> prism2_wep_data) option list" where
  "rx_example_slots = [Some (Some (ieee80211_crypt_wep arc4_ecb (\<lambda>c d. c + 7)), rx_example_wep), None, None, None]"

definition rx_example_skb :: sk_buff where
  "rx_example_skb = \<lparr>skb_head = [], skb_data = rx_example_hdr 0 0x50 @ rx_example_body 0, skb_room = []\<rparr>"

lemma rx_example_slot: "rx_crypt_slot (rx_example (replicate 4 None)) (length (rx_example_hdr 0 0x50)) rx_example_skb = Some None"
  by (simp add: rx_crypt_slot_def skb_peek_def buf_read_def rx_example_hdr_def rx_example_body_def skb_len_def rx_example_skb_def)

theorem rx_delivers_plain_witness:
  "\<exists>skb' dev'. ieee80211_rx 100 7 True True (rx_example (replicate 4 None)) rx_example_skb = Some (Rx_Delivered skb', dev') \<and>
     skb_data skb' = ethernet_frame [1, 1, 1, 1, 1, 1] [2, 2, 2, 2, 2, 2] (rx_example_body 0) \<and> rx_ret (Rx_Delivered skb') = 1 \<and>
     rd_rx_packets dev' = rd_rx_packets (rx_example (replicate 4 None)) + 1 \<and>
     rd_rx_dropped dev' = rd_rx_dropped (rx_example (replicate 4 None))"
proof -
  obtain ds where "is_duplicate_packet 100 7 True IW_MODE_ADHOC (rx_example_hdr 0 0x50) dup_zero = Some (False, ds)"
    using rx_example_dup by blast
  then show ?thesis
    by (intro rx_delivers_plain [OF rx_example_header(1) _ _ _ _ _ _ _ rx_example_slot, where ds = ds])
      (simp_all add: WLAN_GET_SEQ_FRAG_def rx_example_skb_def rx_example_body_def)
qed

theorem rx_delivered_policy_witness: "rx_acceptable (rx_example (replicate 4 None)) rx_example_skb"
proof -
  obtain ds where "is_duplicate_packet 100 7 True IW_MODE_ADHOC (rx_example_hdr 0 0x50) dup_zero = Some (False, ds)"
    using rx_example_dup by blast
  then have "\<exists>skb' dev'. ieee80211_rx 100 7 True True (rx_example (replicate 4 None)) rx_example_skb = Some (Rx_Delivered skb', dev') \<and>
     skb_data skb' = ethernet_frame [1, 1, 1, 1, 1, 1] [2, 2, 2, 2, 2, 2] (rx_example_body 0) \<and> rx_ret (Rx_Delivered skb') = 1 \<and>
     rd_rx_packets dev' = rd_rx_packets (rx_example (replicate 4 None)) + 1 \<and>
     rd_rx_dropped dev' = rd_rx_dropped (rx_example (replicate 4 None))"
    by (intro rx_delivers_unencrypted [OF rx_example_header(1) _ _ _ _ _ _ _ rx_example_slot, where ds = ds])
      (simp_all add: WLAN_GET_SEQ_FRAG_def rx_example_skb_def rx_example_body_def)
  then show ?thesis using rx_delivered_policy by blast
qed

theorem rx_plaintext_bypass_witness:
  "\<exists>skb' dev'. ieee80211_rx 100 7 True True (rx_example rx_example_slots)
       \<lparr>skb_head = [], skb_data = rx_example_hdr 0 0x50 @ rx_example_body 0x40, skb_room = []\<rparr> = Some (Rx_Delivered skb', dev') \<and>
     skb_data skb' = ethernet_frame [1, 1, 1, 1, 1, 1] [2, 2, 2, 2, 2, 2] (rx_example_body 0x40)"
proof -
  obtain ds where "is_duplicate_packet 100 7 True IW_MODE_ADHOC (rx_example_hdr 0 0x50) dup_zero = Some (False, ds)"
    using rx_example_dup by blast
  then show ?thesis
    by (intro rx_plaintext_bypass [OF rx_example_header(1), where ds = ds])
      (simp_all add: WLAN_GET_SEQ_FRAG_def rx_example_body_def rx_example_slots_def)
qed

theorem rx_key_byte_overread_witness:
  "ieee80211_rx 100 7 True True (rx_example rx_example_slots)
     \<lparr>skb_head = [], skb_data = rx_example_hdr 0 0x50 @ [1, 2, 3], skb_room = []\<rparr> = None"
  by (rule rx_key_byte_overread [where fc = 8])
    (simp_all add: rx_example_hdr_def hdr_field_defs buf_read_def get_le16_def skb_len_def ieee80211_get_hdrlen_def WLAN_FC_GET_TYPE_def)


theorem rx_delivers_sealed_witness:
  "\<exists>skb1 tx' skb' dev'.
     crypt_seal (ieee80211_crypt_wep arc4_ecb (\<lambda>c d. c + 7))
       \<lparr>skb_head = replicate 4 0, skb_data = rx_example_hdr 0x40 0x50 @ rx_example_body 0, skb_room = replicate 4 0\<rparr>
       (length (rx_example_hdr 0x40 0x50)) rx_example_wep = Some (0, skb1, tx') \<and>
     ieee80211_rx 100 7 True True (rx_example rx_example_slots) \<lparr>skb_head = [], skb_data = skb_data skb1, skb_room = []\<rparr> =
       Some (Rx_Delivered skb', dev') \<and>
     skb_data skb' = ethernet_frame [1, 1, 1, 1, 1, 1] [2, 2, 2, 2, 2, 2] (rx_example_body 0)"
proof -
  let ?ops = "ieee80211_crypt_wep arc4_ecb (\<lambda>c d. c + 7)"
  let ?skb0 = "\<lparr>skb_head = replicate 4 0, skb_data = rx_example_hdr 0x40 0x50 @ rx_example_body 0, skb_room = replicate 4 0\<rparr>"
  obtain ds where nd: "is_duplicate_packet 100 7 True IW_MODE_ADHOC (rx_example_hdr 0x40 0x50) dup_zero = Some (False, ds)"
    using rx_example_dup by blast
  have p: "wep_peers (rx_example_hdr 0x40 0x50) (rx_example_body 0) rx_example_wep rx_example_wep"
    by (simp add: wep_peers_def wep_wf_def rx_example_wep_def)
  have room: "co_extra_prefix_len ?ops \<le> skb_headroom ?skb0" "co_extra_postfix_len ?ops \<le> skb_tailroom ?skb0"
    by (simp_all add: ieee80211_crypt_wep_def skb_headroom_def skb_tailroom_def)
  obtain skb1 tx' where s: "crypt_seal ?ops ?skb0 (length (rx_example_hdr 0x40 0x50)) rx_example_wep = Some (0, skb1, tx')"
    using wep_cipher.seal_open [OF p room] by (auto simp: mpdu_sealed_def)
  have "\<exists>skb' dev'. ieee80211_rx 100 7 True True (rx_example rx_example_slots)
      \<lparr>skb_head = [], skb_data = skb_data skb1, skb_room = []\<rparr> = Some (Rx_Delivered skb', dev') \<and>
      skb_data skb' = ethernet_frame [1, 1, 1, 1, 1, 1] [2, 2, 2, 2, 2, 2] (rx_example_body 0)"
    by (rule rx_delivers_sealed [OF wep_cipher.mpdu_cipher_axioms p room _ s _ rx_example_header(2), where ds = ds])
      (simp_all add: nd WLAN_GET_SEQ_FRAG_def rx_example_slots_def rx_example_wep_def rx_example_body_def ieee80211_crypt_wep_def)
  with s show ?thesis by blast
qed

definition rx_example_frags :: frag_state where
  "rx_example_frags = frag_cache_zero\<lparr>fs_cache := (fs_cache frag_cache_zero)[0 := \<lparr>fe_first_frag_time = 7, fe_seq = 0x50,
     fe_last_frag = 0, fe_skb = Some \<lparr>skb_head = [], skb_data = rx_example_hdr 4 0x50 @ rx_example_body 0, skb_room = replicate 20 0\<rparr>,
     fe_src_addr = [2, 2, 2, 2, 2, 2], fe_dst_addr = [1, 1, 1, 1, 1, 1]\<rparr>]\<rparr>"

theorem rx_double_free_witness:
  "\<exists>dev'. ieee80211_rx 100 8 True True ((rx_example rx_example_slots)\<lparr>rd_frag := rx_example_frags\<rparr>)
       \<lparr>skb_head = [], skb_data = rx_example_hdr 0 0x51 @ [1, 2, 3, 4], skb_room = []\<rparr> = Some (Rx_Dropped_Freed, dev') \<and>
     rx_ret Rx_Dropped_Freed = 0"
proof -
  let ?skb = "\<lparr>skb_head = [], skb_data = rx_example_hdr 0 0x51 @ [1, 2, 3, 4], skb_room = []\<rparr> :: sk_buff"
  let ?dev = "(rx_example rx_example_slots)\<lparr>rd_frag := rx_example_frags\<rparr>"
  obtain ds where "is_duplicate_packet 100 8 True IW_MODE_ADHOC (rx_example_hdr 0 0x51) dup_zero = Some (False, ds)"
    using rx_example_dup by blast
  then have nd: "is_duplicate_packet 100 8 True (rd_iw_mode ?dev) (rx_example_hdr 0 0x51) (rd_dup ?dev) = Some (False, ds)"
    by simp
  have "(case rx_defrag 100 8 1500 True 1 8 24 ?skb rx_example_frags of
      Some (Frag_Complete frame, fs) \<Rightarrow> ieee80211_is_eapol_frame [1, 1, 1, 1, 1, 1] frame = Some False | _ \<Rightarrow> False)"
    by code_simp
  then obtain frame fs where f: "rx_defrag 100 8 1500 True 1 8 24 ?skb rx_example_frags = Some (Frag_Complete frame, fs)"
    "ieee80211_is_eapol_frame [1, 1, 1, 1, 1, 1] frame = Some False"
    by (auto split: option.splits prod.splits defrag_result.splits)
  have l: "length (rx_example_hdr 0 0x51) = 24" by (simp add: rx_example_hdr_def)
  have "rx_defrag 100 8 (rd_mtu ?dev) True (WLAN_GET_SEQ_FRAG 0x51) 8 (length (rx_example_hdr 0 0x51)) ?skb (rd_frag ?dev) =
      Some (Frag_Complete frame, fs)"
    unfolding l using f(1) by (simp add: WLAN_GET_SEQ_FRAG_def)
  from rx_double_free [OF rx_example_header(3) _ _ _ _ _ _ nd _ this, where i = 0] f(2) show ?thesis
    by (simp add: WLAN_GET_SEQ_FRAG_def rx_crypt_slot_def skb_peek_def buf_read_def rx_example_hdr_def
         skb_len_def rx_example_slots_def ieee80211_crypt_wep_def)
qed



section \<open>Memory safety\<close>

lemma rx_crypt_slot_total:
  "4 \<le> skb_tailroom skb \<Longrightarrow> \<exists>crypt. rx_crypt_slot dev n skb = Some crypt"
  using rx_crypt_slot_Some [of n skb _ dev] skb_peek_Some [of "n + 3" 1 skb]
  by (cases "n + 3 \<le> skb_len skb") (auto simp: rx_crypt_slot_def)


text \<open>Every usable key slot holds a cipher that keeps the receive path's contract.\<close>

definition slots_safe :: "'p rx_device \<Rightarrow> bool" where
  "slots_safe dev \<longleftrightarrow> length (rd_crypt dev) = 4 \<and>
     (\<forall>i ops priv. i < 4 \<and> rd_crypt dev ! i = Some (Some ops, priv) \<longrightarrow> (\<exists>ok. safe_decrypt ops ok \<and> ok priv))"

lemma slots_safe_simps [simp]:
  "slots_safe (dev\<lparr>rd_dup := ds\<rparr>) = slots_safe dev" "slots_safe (dev\<lparr>rd_last_rx := j\<rparr>) = slots_safe dev"
  by (simp_all add: slots_safe_def)

lemma slots_safeD:
  "\<lbrakk>slots_safe dev; i < 4; rd_crypt dev ! i = Some (Some ops, priv)\<rbrakk> \<Longrightarrow> \<exists>ok. safe_decrypt ops ok \<and> ok priv"
  unfolding slots_safe_def by blast

lemma rx_crypt_slot_less:
  assumes "rx_crypt_slot dev n skb = Some (Some i)"
  shows "i < 4 \<and> (\<exists>ops priv. rd_crypt dev ! i = Some (Some ops, priv))"
proof -
  have h: "rd_host_decrypt dev" using assms by (simp add: rx_crypt_slot_def split: if_split_asm)
  obtain idx where e: "(if n + 3 \<le> skb_len skb
      then map_option (\<lambda>b. unat (drop_bit 6 (b ! 0))) (skb_peek (n + 3) 1 skb) else Some 0) = Some idx"
    and c: "(case rd_crypt dev ! idx of
      Some (Some ops, _) \<Rightarrow> map_option (\<lambda>_. idx) (co_decrypt_mpdu ops) | _ \<Rightarrow> None) = Some i"
    using assms h unfolding rx_crypt_slot_def by (auto simp only: Option.bind_eq_Some_conv if_False if_True not_True_eq_False option.inject)
  have "idx < 4" using e u8_top_bits by (auto split: if_split_asm)
  with c show ?thesis by (cases "rd_crypt dev ! idx"; cases "fst (the (rd_crypt dev ! idx))") auto
qed

lemma slots_safe_set_priv:
  assumes "slots_safe dev" and "i < 4" and "safe_decrypt ops ok" and "ok priv"
  shows "slots_safe (rx_set_priv i ops priv dev)"
proof -
  have "\<exists>ok. safe_decrypt ops' ok \<and> ok priv'"
    if "k < 4" "rd_crypt (rx_set_priv i ops priv dev) ! k = Some (Some ops', priv')" for k ops' priv'
    using assms slots_safeD [OF assms(1), of k ops' priv'] that
    by (cases "k = i") (auto simp: rx_set_priv_def slots_safe_def)
  moreover have "length (rd_crypt (rx_set_priv i ops priv dev)) = 4"
    using assms(1) by (simp add: slots_safe_def rx_set_priv_def)
  ultimately show ?thesis unfolding slots_safe_def by blast
qed

lemma frame_ctl_keeps:
  assumes "keeps_header n skb skb'" and "2 \<le> n" and "n \<le> skb_len skb"
  shows "hdr_frame_ctl (skb_data skb') = hdr_frame_ctl (skb_data skb)"
proof -
  have "take 2 (take n (skb_data skb')) = take 2 (take n (skb_data skb))"
    using assms(1) by (simp only: keeps_header_def)
  then have "take 2 (skb_data skb') = take 2 (skb_data skb)" using assms(2) by (simp add: min_def)
  then show ?thesis using assms by (simp add: hdr_field_defs buf_read_def keeps_header_def skb_len_def)
qed

lemma rx_frame_decrypt_safe:
  assumes s: "slots_safe dev" and i: "i < 4" "rd_crypt dev ! i = Some (Some ops, priv)"
    and fc: "hdr_frame_ctl (skb_data skb) = Some fc" and n: "ieee80211_get_hdrlen fc \<le> skb_len skb"
  shows "\<exists>res skb' dev' priv'. ieee80211_rx_frame_decrypt (Some i) dev skb = Some (res, skb', dev') \<and> slots_safe dev' \<and>
     rd_crypt dev' ! i = Some (Some ops, priv') \<and> (0 \<le> res \<longrightarrow> keeps_header (ieee80211_get_hdrlen fc) skb skb')"
proof (cases "co_decrypt_mpdu ops")
  case None
  then show ?thesis using s i n by (auto simp: ieee80211_rx_frame_decrypt_def)
next
  case (Some f)
  obtain ok where c: "safe_decrypt ops ok" "ok priv" using slots_safeD [OF s i] by blast
  obtain r skb' priv' where o: "f skb (ieee80211_get_hdrlen fc) priv = Some (r, skb', priv')" "ok priv'"
    "0 \<le> r \<longrightarrow> keeps_header (ieee80211_get_hdrlen fc) skb skb'"
    using safe_decrypt.mpdu_safe [OF c n] Some by (auto simp: crypt_open_mpdu_def)
  have l: "i < length (rd_crypt dev)" using s i by (simp add: slots_safe_def)
  have ss: "slots_safe (rx_set_priv i ops priv' dev)" by (rule slots_safe_set_priv [OF s i(1) c(1) o(2)])
  then have "slots_safe ((rx_set_priv i ops priv' dev)\<lparr>rd_undecryptable := u\<rparr>)" for u by (simp add: slots_safe_def)
  then show ?thesis using o i fc Some l ss by (simp add: ieee80211_rx_frame_decrypt_def Let_def)
qed

lemma rx_frame_decrypt_msdu_safe:
  assumes s: "slots_safe dev" and i: "i < 4" "rd_crypt dev ! i = Some (Some ops, priv)"
    and fc: "hdr_frame_ctl (skb_data skb) = Some fc" and n: "ieee80211_get_hdrlen fc \<le> skb_len skb"
  shows "\<exists>res skb' dev'. ieee80211_rx_frame_decrypt_msdu k (Some i) dev skb = Some (res, skb', dev') \<and>
     (res = 0 \<longrightarrow> keeps_header (ieee80211_get_hdrlen fc) skb skb')"
proof (cases "co_decrypt_msdu ops")
  case None
  then show ?thesis using i n by (auto simp: ieee80211_rx_frame_decrypt_msdu_def)
next
  case (Some f)
  obtain ok where c: "safe_decrypt ops ok" "ok priv" using slots_safeD [OF s i] by blast
  obtain r skb' priv' where "f k skb (ieee80211_get_hdrlen fc) priv = Some (r, skb', priv')"
    "0 \<le> r \<longrightarrow> keeps_header (ieee80211_get_hdrlen fc) skb skb'"
    using safe_decrypt.msdu_safe [OF c n, of k] Some by (auto simp: crypt_open_msdu_def)
  then show ?thesis using i fc Some by (simp add: ieee80211_rx_frame_decrypt_msdu_def Let_def)
qed

lemma rx_to_8023_safe:
  assumes "14 \<le> n" and "n \<le> skb_len skb" and "length dst = 6" and "length src = 6" and "8 \<le> skb_tailroom skb"
  shows "\<exists>skb'. rx_to_8023 n dst src skb = Some skb'"
  using rx_to_8023_spec [of skb "take n (skb_data skb)" "drop n (skb_data skb)" dst src] assms
  by (auto simp: skb_len_def)

lemma rx_msdu_safe:
  assumes s: "rd_host_decrypt dev \<Longrightarrow> crypt = Some i \<Longrightarrow> slots_safe dev \<and> i < 4 \<and> rd_crypt dev ! i = Some (Some ops, priv)"
    and cr: "crypt = None \<or> crypt = Some i"
    and fc: "hdr_frame_ctl (skb_data skb) = Some fc" and n: "ieee80211_get_hdrlen fc \<le> skb_len skb"
    and l: "14 \<le> ieee80211_get_hdrlen fc" "length dst = 6" "length src = 6" "8 \<le> skb_tailroom skb"
  shows "\<exists>r. rx_msdu dropped j fc (ieee80211_get_hdrlen fc) crypt k dst src dev skb = Some r"
proof -
  let ?n = "ieee80211_get_hdrlen fc"
  have "\<exists>res skb' dev'. (if rd_host_decrypt dev \<and> fc AND FCTL_WEP \<noteq> 0
      then ieee80211_rx_frame_decrypt_msdu k crypt dev skb else Some (0, skb, dev)) = Some (res, skb', dev') \<and>
      (res = 0 \<longrightarrow> keeps_header ?n skb skb')"
  proof (cases "rd_host_decrypt dev \<and> fc AND FCTL_WEP \<noteq> 0 \<and> crypt = Some i")
    case True
    then show ?thesis using rx_frame_decrypt_msdu_safe [of dev i ops priv skb fc k] s fc n by auto
  next
    case False
    then show ?thesis using cr n by (auto simp: ieee80211_rx_frame_decrypt_msdu_def)
  qed
  then obtain res skb' dev' where o: "(if rd_host_decrypt dev \<and> fc AND FCTL_WEP \<noteq> 0
      then ieee80211_rx_frame_decrypt_msdu k crypt dev skb else Some (0, skb, dev)) = Some (res, skb', dev')"
    and k: "res = 0 \<longrightarrow> keeps_header ?n skb skb'" by blast
  show ?thesis
  proof (cases "res = 0")
    case True
    then obtain skb'' where "rx_to_8023 ?n dst src skb' = Some skb''"
      using rx_to_8023_safe [of ?n skb' dst src] k l by (auto simp: keeps_header_def)
    moreover obtain b where "ieee80211_is_eapol_frame (rd_dev_addr dev') skb' = Some b" using is_eapol_frame_Some by blast
    ultimately show ?thesis unfolding rx_msdu_def o using True by simp
  next
    case False
    then show ?thesis unfolding rx_msdu_def o by simp
  qed
qed


lemma rx_hdrlen_data:
  assumes "WLAN_FC_GET_STYPE fc \<in> {0x00, 0x10, 0x20, 0x30}"
  shows "14 \<le> ieee80211_get_hdrlen fc"
  using assms by (auto simp: ieee80211_get_hdrlen_def)

lemma rx_addresses_hdrlen:
  assumes a: "rx_addresses cb fc d = Some (Some x)" and "24 \<le> length d"
  shows "ieee80211_get_hdrlen fc \<le> length d"
proof (cases "fc AND FCTL_DSTODS = FCTL_DSTODS")
  case True
  then have "30 \<le> length d" using a by (auto simp: rx_addresses_def Option.bind_eq_Some_conv split: if_split_asm)
  then show ?thesis using hdrlen_bounds(2) [of fc] by simp
next
  case False
  then have "ieee80211_get_hdrlen fc \<le> 24" using dstods_iff [of fc] by (auto simp: ieee80211_get_hdrlen_def)
  then show ?thesis using assms by simp
qed

lemma rx_addresses_Some:
  assumes "24 \<le> length d"
  shows "\<exists>r. rx_addresses cb fc d = Some r"
proof -
  obtain a1 a2 a3 where "hdr_addr1 d = Some a1" "hdr_addr2 d = Some a2" "hdr_addr3 d = Some a3"
    using hdr_fields_Some [of d] assms by auto
  moreover have "\<not> length d < 30 \<Longrightarrow> \<exists>a4. hdr_addr4 d = Some a4" using hdr_fields_Some(6) [of d] by auto
  ultimately show ?thesis by (auto simp: rx_addresses_def)
qed

lemma is_duplicate_packet_Some:
  assumes "24 \<le> length d"
  shows "\<exists>dup ds'. is_duplicate_packet HZ j da mode d ds = Some (dup, ds')"
proof -
  obtain a2 sc where "hdr_addr2 d = Some a2" "hdr_seq_ctl d = Some sc"
    using hdr_fields_Some [of d] assms by auto
  then show ?thesis by (cases mode) (auto simp: is_duplicate_packet_def Let_def split: option.split prod.split)
qed

lemma rx_data_safe:
  assumes s: "slots_safe dev" and cr: "rd_host_decrypt dev \<Longrightarrow> rx_crypt_slot dev' n skb = Some crypt" "rd_crypt dev' = rd_crypt dev"
      "\<not> rd_host_decrypt dev \<Longrightarrow> crypt = None"
    and fc: "hdr_frame_ctl (skb_data skb) = Some fc" and n: "ieee80211_get_hdrlen fc \<le> skb_len skb"
    and l: "length dst = 6" "length src = 6" "8 \<le> skb_tailroom skb"
    and nf: "frag = 0" "fc AND FCTL_MOREFRAGS = 0"
  shows "\<exists>r. rx_data HZ j fa fc frag (ieee80211_get_hdrlen fc) crypt dst src bssid dev skb = Some r"
proof (cases "WLAN_FC_GET_STYPE fc \<in> {0x00, 0x10, 0x20, 0x30} \<and> bssid = rd_bssid dev")
  case False
  then show ?thesis by (auto simp: rx_data_def Let_def)
next
  case True
  let ?n = "ieee80211_get_hdrlen fc" and ?dev = "dev\<lparr>rd_last_rx := j\<rparr>"
  have n14: "14 \<le> ?n" using True rx_hdrlen_data by blast
  have eq: "rx_data HZ j fa fc frag ?n crypt dst src bssid dev skb = do {
      (keyidx, skb, dev) \<leftarrow> (if rd_host_decrypt ?dev \<and> fc AND FCTL_WEP \<noteq> 0
                             then ieee80211_rx_frame_decrypt crypt ?dev skb else Some (0, skb, ?dev));
      if keyidx < 0 then Some (Rx_Dropped, rx_drop dev)
      else rx_msdu Rx_Dropped j fc ?n crypt keyidx dst src dev skb }"
    unfolding rx_data_def Let_def nf simp_thms if_False using True by auto
  show ?thesis
  proof (cases crypt)
    case None
    then have "\<exists>r. rx_msdu Rx_Dropped j fc ?n crypt 0 dst src ?dev skb = Some r"
      by (intro rx_msdu_safe [OF _ _ fc n n14 l, where i = 0]) (simp_all add: None)
    then show ?thesis unfolding eq unfolding None by (auto simp: ieee80211_rx_frame_decrypt_def)
  next
    case (Some i)
    then have h: "rd_host_decrypt dev" using cr(3) by auto
    then obtain ops priv where i: "i < 4" "rd_crypt ?dev ! i = Some (Some ops, priv)"
      using rx_crypt_slot_less [of dev' n skb i] cr(1,2) Some by auto
    have s': "slots_safe ?dev" using s by simp
    obtain res skb' dev2 priv' where d: "ieee80211_rx_frame_decrypt (Some i) ?dev skb = Some (res, skb', dev2)"
      and s2: "slots_safe dev2" "rd_crypt dev2 ! i = Some (Some ops, priv')" and k: "0 \<le> res \<longrightarrow> keeps_header ?n skb skb'"
      using rx_frame_decrypt_safe [OF s' i fc n] by blast
    have "\<exists>r. rx_msdu Rx_Dropped j fc ?n crypt 0 dst src ?dev skb = Some r"
      by (intro rx_msdu_safe [OF _ _ fc n n14 l, where i = i and ops = ops and priv = priv]) (use s' i Some in simp_all)
    moreover have "\<exists>r. rx_msdu Rx_Dropped j fc ?n crypt res dst src dev2 skb' = Some r" if "0 \<le> res"
    proof -
      have kh: "keeps_header ?n skb skb'" using k that by simp
      then have f2: "hdr_frame_ctl (skb_data skb') = Some fc" using frame_ctl_keeps [OF kh] n14 n fc by simp
      have "?n \<le> skb_len skb'" "8 \<le> skb_tailroom skb'" using kh l by (auto simp: keeps_header_def)
      then show ?thesis
        by (intro rx_msdu_safe [OF _ _ f2 _ n14 l(1,2), where i = i and ops = ops and priv = priv']) (use s2 i Some in simp_all)
    qed
    ultimately show ?thesis unfolding eq unfolding Some d by (auto simp: Some)
  qed
qed

lemma ieee80211_rx_total:
  assumes room: "14 \<le> skb_tailroom skb" and slots: "slots_safe dev"
    and fc: "hdr_frame_ctl (skb_data skb) = Some fc" "fc AND FCTL_MOREFRAGS = 0"
    and sc: "hdr_seq_ctl (skb_data skb @ skb_room skb) = Some sc" "WLAN_GET_SEQ_FRAG sc = 0"
  shows "\<exists>r. ieee80211_rx HZ j da fa dev skb = Some r"
proof (cases "skb_len skb < 24 \<or> rd_iw_mode dev = IW_MODE_MONITOR")
  case True
  obtain crypt where "rx_crypt_slot dev (ieee80211_get_hdrlen fc) skb = Some crypt"
    using rx_crypt_slot_total [of skb dev "ieee80211_get_hdrlen fc"] room by auto
  then show ?thesis using True fc sc by (auto simp: ieee80211_rx_def Let_def)
next
  case False
  then have l: "24 \<le> length (skb_data skb)" by (simp add: skb_len_def)
  obtain crypt where c: "rx_crypt_slot dev (ieee80211_get_hdrlen fc) skb = Some crypt"
    using rx_crypt_slot_total [of skb dev "ieee80211_get_hdrlen fc"] room by auto
  obtain dup ds where d: "is_duplicate_packet HZ j da (rd_iw_mode dev) (skb_data skb) (rd_dup dev) = Some (dup, ds)"
    using is_duplicate_packet_Some [OF l] by blast
  obtain addrs where a: "rx_addresses (rd_bssid dev) fc (skb_data skb) = Some addrs" using rx_addresses_Some [OF l] by blast
  show ?thesis
  proof (cases addrs)
    case None
    then show ?thesis using False fc sc c d a by (auto simp: ieee80211_rx_def Let_def)
  next
    case (Some x)
    obtain dst src bssid where x: "x = (dst, src, bssid)" by (cases x)
    have n: "ieee80211_get_hdrlen fc \<le> skb_len skb"
      using rx_addresses_hdrlen [OF a [unfolded Some] l] by (simp add: skb_len_def)
    have "length dst = 6" "length src = 6" using rx_addresses_length a Some x by auto
    then have "\<exists>r. rx_data HZ j fa fc (WLAN_GET_SEQ_FRAG sc) (ieee80211_get_hdrlen fc) crypt dst src bssid (dev\<lparr>rd_dup := ds\<rparr>) skb = Some r"
      using slots c fc n room sc
      by (intro rx_data_safe [where dev' = dev and n = "ieee80211_get_hdrlen fc"]) (auto simp: rx_crypt_slot_def)
    then show ?thesis using False fc sc c d a Some x by (auto simp: ieee80211_rx_def Let_def)
  qed
qed

text \<open>What is given to the management part is the frame itself, complete and of that type.\<close>

lemma rx_msdu_no_mgmt:
  "\<lbrakk>rx_msdu dr j fc n crypt k dst src dev skb = Some (r, dev'); \<forall>s. dr \<noteq> Rx_Mgmt s\<rbrakk> \<Longrightarrow> r \<noteq> Rx_Mgmt t"
  by (auto simp: rx_msdu_def Option.bind_eq_Some_conv split: if_split_asm)

lemma rx_defrag_no_mgmt:
  "(case x of Frag_Dropped \<Rightarrow> Some (Rx_Dropped, d) | Frag_Kept \<Rightarrow> Some (Rx_Kept, e)
     | Frag_Complete s \<Rightarrow> rx_msdu Rx_Dropped_Freed j fc n crypt k dst src g s) = Some (r, dev') \<Longrightarrow> r \<noteq> Rx_Mgmt t"
  by (cases x) (auto dest: rx_msdu_no_mgmt [where t = t])

lemma rx_data_no_mgmt:
  assumes "rx_data HZ j fa fc frag n crypt dst src bssid dev skb = Some (r, dev')"
  shows "r \<noteq> Rx_Mgmt t"
  using assms
  by (auto simp: rx_data_def Let_def Option.bind_eq_Some_conv dest: rx_msdu_no_mgmt [where t = t] rx_defrag_no_mgmt [where t = t]
      split: if_split_asm)

lemma rx_mgmt_outcome:
  assumes e: "ieee80211_rx HZ j da fa dev skb = Some (Rx_Mgmt s, dev')" and fc: "hdr_frame_ctl (skb_data skb) = Some fc"
  shows "s = skb \<and> WLAN_FC_GET_TYPE fc = 0 \<and> 24 \<le> skb_len skb"
  using e fc
  by (auto simp: ieee80211_rx_def Let_def Option.bind_eq_Some_conv dest: rx_data_no_mgmt [where t = s] split: if_split_asm option.split_asm)


text \<open>C21: The receive function never leaves the buffer of an unfragmented frame that has 14 bytes of room
  behind its data, whatever the frame holds, when every key slot has a cipher whose decryption is
  memory safe.\<close>

theorem rx_memory_safe:
  assumes room: "14 \<le> skb_tailroom skb" and slots: "slots_safe dev"
    and fc: "hdr_frame_ctl (skb_data skb) = Some fc" "fc AND FCTL_MOREFRAGS = 0"
    and sc: "hdr_seq_ctl (skb_data skb @ skb_room skb) = Some sc" "WLAN_GET_SEQ_FRAG sc = 0"
  shows "\<exists>r. ieee80211_rx HZ j da fa dev skb = Some r"
  by (rule ieee80211_rx_total [OF assms])

theorem rx_memory_safe_witness:
  "\<exists>r. ieee80211_rx 100 7 True True (rx_example rx_example_slots)
     \<lparr>skb_head = [], skb_data = rx_example_hdr 0x40 0x50 @ [9], skb_room = replicate 14 0\<rparr> = Some r"
proof -
  have "slots_safe (rx_example rx_example_slots)"
    unfolding slots_safe_def
  proof (intro conjI allI impI)
    fix i ops priv
    assume "i < 4 \<and> rd_crypt (rx_example rx_example_slots) ! i = Some (Some ops, priv)"
    then have "ops = ieee80211_crypt_wep arc4_ecb (\<lambda>c d. c + 7) \<and> priv = rx_example_wep"
      by (auto simp: rx_example_slots_def less_Suc_eq eval_nat_numeral)
    then show "\<exists>ok. safe_decrypt ops ok \<and> ok priv"
      using wep_safe.safe_decrypt_axioms [of "\<lambda>c d. c + 7"]
      by (intro exI [of _ wep_wf]) (simp add: wep_wf_def rx_example_wep_def)
  qed (simp add: rx_example_slots_def)
  then show ?thesis
    by (intro rx_memory_safe [where fc = "0x4008" and sc = "0x50"])
      (simp_all add: skb_tailroom_def rx_example_hdr_def hdr_field_defs buf_read_def get_le16_def WLAN_GET_SEQ_FRAG_def)
qed

end
