(* ===== verification/Tx.thy ===== *)
theory Tx
  imports Rx "HOL-Library.Signed_Division"
begin

text \<open>
  The transmit path of \<open>ieee80211/ieee80211_tx.c\<close>: an Ethernet frame from the network stack becomes
  a list of 802.11 fragments in one of sixteen transmit blocks that are allocated once and used in
  turn.  The parts of \<open>struct ieee80211_device\<close> it uses are the fields of \<open>tx_device\<close>; the operations
  of the key slot come from theory Mpdu.  \<open>None\<close> is a kernel panic, an access outside of a
  buffer or of the array of fragments, a division by zero or a null pointer.
\<close>

record ieee80211_txb =
  tb_nr_frags :: u8
  tb_encrypted :: bool
  tb_frag_size :: u16
  tb_payload_size :: u16
  tb_fragments :: "sk_buff list"

record 'p tx_device =
  td_iw_mode :: iw_mode
  td_bssid :: bytes
  td_ieee802_1x :: bool
  td_host_encrypt :: bool
  td_drop_unencrypted :: bool
  td_raw_tx :: bool
  td_tx_queue :: bool
  td_hard_start_xmit :: bool
  td_softmac_data_hard_start_xmit :: bool
  td_fcs :: bool
  td_crypt :: "('p crypto_ops option \<times> 'p) option list"
  td_tx_keyidx :: nat
  td_fts :: u16
  td_seq_ctrl :: u16
  td_alloc_txb :: "ieee80211_txb option list"
  td_tx_skb_index :: nat
  td_tx_pending_txb :: int
  td_netif_stopped :: bool
  td_tx_packets :: u64
  td_tx_bytes :: u64
  td_tx_dropped :: u64
  td_tx_errors :: u64
  td_tx_discards :: u32

text \<open>
  Nothing to send (the frame was freed), a block for the driver's queue, a block that the
  driver's own handler took or refused, or the error return that makes the stack try again.
\<close>

datatype tx_outcome = Tx_None | Tx_Softmac ieee80211_txb | Tx_Sent ieee80211_txb | Tx_Refused | Tx_Failed

section \<open>Pieces of a frame\<close>

definition P802_1H_OUI :: bytes where "P802_1H_OUI = [0x00, 0x00, 0xf8]"
definition RFC1042_OUI :: bytes where "RFC1042_OUI = [0x00, 0x00, 0x00]"

definition ieee80211_put_snap :: "u16 \<Rightarrow> bytes" where
  "ieee80211_put_snap h_proto =
     [0xaa, 0xaa, 0x03] @ (if h_proto = 0x8137 \<or> h_proto = 0x80f3 then P802_1H_OUI else RFC1042_OUI) @
     [ucast (drop_bit 8 h_proto), ucast h_proto]"

text \<open>\<open>struct ieee80211_hdr\<close>, its first 24 bytes: control, zero duration, addresses, sequence control.\<close>

definition tx_header :: "u16 \<Rightarrow> bytes \<Rightarrow> bytes \<Rightarrow> bytes \<Rightarrow> u16 \<Rightarrow> bytes" where
  "tx_header fc addr1 addr2 addr3 sc =
     [ucast fc, ucast (drop_bit 8 fc), 0, 0] @ addr1 @ addr2 @ addr3 @ [ucast sc, ucast (drop_bit 8 sc)]"

text \<open>\<open>memcpy(skb_put(skb, n), d, n)\<close>\<close>

definition skb_put_data :: "bytes \<Rightarrow> sk_buff \<Rightarrow> sk_buff option" where
  "skb_put_data d skb = skb_put (length d) skb \<bind> skb_store (skb_len skb) d"

text \<open>The window of a used fragment goes back to the start: \<open>data = tail = head + 16\<close>.\<close>

definition tx_reset_skb :: "sk_buff \<Rightarrow> sk_buff" where
  "tx_reset_skb skb = \<lparr>skb_head = take 16 (skb_alloc_bytes skb), skb_data = [], skb_room = drop 16 (skb_alloc_bytes skb)\<rparr>"

section \<open>Blocks\<close>

text \<open>\<open>kmalloc_ok\<close> and \<open>skb_ok\<close> say which allocations succeed.  After a failure everything is freed again.\<close>

definition ieee80211_alloc_txb :: "bool \<Rightarrow> bool list \<Rightarrow> nat \<Rightarrow> nat \<Rightarrow> ieee80211_txb option" where
  "ieee80211_alloc_txb kmalloc_ok skb_ok nr_frags txb_size =
     (if kmalloc_ok \<and> list_all (\<lambda>b. b) (take nr_frags skb_ok)
      then Some \<lparr>tb_nr_frags = 0, tb_encrypted = False, tb_frag_size = 0, tb_payload_size = 0,
             tb_fragments = replicate nr_frags (dev_alloc_skb txb_size)\<rparr>
      else None)"

section \<open>Encryption of a fragment\<close>

definition ieee80211_encrypt_fragment :: "'p tx_device \<Rightarrow> sk_buff \<Rightarrow> nat \<Rightarrow> (int \<times> sk_buff \<times> 'p tx_device) option" where
  "ieee80211_encrypt_fragment dev frag hdr_len =
     (case td_crypt dev ! td_tx_keyidx dev of
        Some (Some ops, priv) \<Rightarrow> do {
          (res, frag, priv) \<leftarrow> crypt_seal ops frag hdr_len priv;
          let dev = dev\<lparr>td_crypt := (td_crypt dev)[td_tx_keyidx dev := Some (Some ops, priv)]\<rparr>;
          if res < 0 then Some (- 1, frag, dev\<lparr>td_tx_discards := td_tx_discards dev + 1\<rparr>)
          else Some (0, frag, dev)
        }
      | _ \<Rightarrow> None)"

section \<open>Fragmentation\<close>

text \<open>What the loop over the fragments knows.\<close>

record tx_plan =
  tp_fc :: u16
  tp_addr1 :: bytes
  tp_addr2 :: bytes
  tp_addr3 :: bytes
  tp_encrypt :: bool
  tp_prefix_len :: nat
  tp_ether_type :: u16
  tp_nr_frags :: int
  tp_bytes_per_frag :: int
  tp_bytes_last_frag :: int

definition xmit_frag :: "tx_plan \<Rightarrow> nat \<Rightarrow> sk_buff \<Rightarrow> sk_buff \<Rightarrow> 'p tx_device \<Rightarrow> (sk_buff \<times> sk_buff \<times> 'p tx_device) option" where
  "xmit_frag tp i skb_frag skb dev = do {
     skb_frag \<leftarrow> (if tp_encrypt tp then skb_reserve (tp_prefix_len tp) skb_frag else Some skb_frag);
     let more = int i \<noteq> tp_nr_frags tp - 1;
     let bytes = (if more then tp_bytes_per_frag tp else tp_bytes_last_frag tp);
     skb_frag \<leftarrow> skb_put_data (tx_header (if more then tp_fc tp OR FCTL_MOREFRAGS else tp_fc tp)
       (tp_addr1 tp) (tp_addr2 tp) (tp_addr3 tp) (push_bit 4 (td_seq_ctrl dev) OR word_of_nat i)) skb_frag;
     skb_frag \<leftarrow> (if i = 0 then skb_put_data (ieee80211_put_snap (tp_ether_type tp)) skb_frag else Some skb_frag);
     let bytes = (if i = 0 then bytes - 8 else bytes);
     if bytes < 0 then None
     else do {
       d \<leftarrow> skb_peek 0 (nat bytes) skb;
       skb_frag \<leftarrow> skb_put_data d skb_frag;
       let skb = skb_pull (nat bytes) skb;
       (_, skb_frag, dev) \<leftarrow> (if tp_encrypt tp then ieee80211_encrypt_fragment dev skb_frag 24 else Some (0, skb_frag, dev));
       skb_frag \<leftarrow> (if td_fcs dev then skb_put 4 skb_frag else Some skb_frag);
       Some (skb_frag, skb, dev)
     }
   }"

text \<open>The loop: \<open>n\<close> fragments from the \<open>i\<close>th on.\<close>

fun xmit_loop :: "tx_plan \<Rightarrow> nat \<Rightarrow> nat \<Rightarrow> sk_buff list \<Rightarrow> sk_buff \<Rightarrow> 'p tx_device \<Rightarrow> (sk_buff list \<times> sk_buff \<times> 'p tx_device) option" where
  "xmit_loop tp 0 i frags skb dev = Some (frags, skb, dev)"
| "xmit_loop tp (Suc n) i frags skb dev =
     (if i \<ge> length frags then None
      else do {
        (f, skb, dev) \<leftarrow> xmit_frag tp i (frags ! i) skb dev;
        xmit_loop tp n (Suc i) (frags[i := f]) skb dev
      })"

definition tx_use_key :: "u16 \<Rightarrow> 'p tx_device \<Rightarrow> bool" where
  "tx_use_key ether_type dev \<longleftrightarrow>
     \<not> (ether_type = 0x888E \<and> td_ieee802_1x dev) \<and> td_host_encrypt dev \<and>
     (case td_crypt dev ! td_tx_keyidx dev of Some (Some ops, _) \<Rightarrow> True | _ \<Rightarrow> False)"

definition tx_multicast :: "bytes \<Rightarrow> bool" where
  "tx_multicast dest \<longleftrightarrow> dest ! 0 AND 1 \<noteq> 0 \<or> dest = [0xff, 0xff, 0xff, 0xff, 0xff, 0xff]"

text \<open>The addresses of the header; in the other modes they stay zero.\<close>

definition tx_addresses :: "iw_mode \<Rightarrow> bytes \<Rightarrow> bytes \<Rightarrow> bytes \<Rightarrow> bytes \<times> bytes \<times> bytes" where
  "tx_addresses mode bssid dest src =
     (if mode = IW_MODE_INFRA then (bssid, src, dest)
      else if mode = IW_MODE_ADHOC then (dest, src, bssid)
      else (replicate 6 0, replicate 6 0, replicate 6 0))"

text \<open>\<open>frag_size - IEEE80211_3ADDR_LEN\<close>, less the checksum, less prefix and postfix.\<close>

definition tx_bytes_per_frag :: "'p tx_device \<Rightarrow> u16 \<Rightarrow> bool \<Rightarrow> int" where
  "tx_bytes_per_frag dev frag_size encrypt =
     uint frag_size - 24 - (if td_fcs dev then 4 else 0) -
     (if encrypt then (case td_crypt dev ! td_tx_keyidx dev of
         Some (Some ops, _) \<Rightarrow> int (co_extra_prefix_len ops) + int (co_extra_postfix_len ops) | _ \<Rightarrow> 0) else 0)"

definition tx_prefix_len :: "'p tx_device \<Rightarrow> nat" where
  "tx_prefix_len dev = (case td_crypt dev ! td_tx_keyidx dev of Some (Some ops, _) \<Rightarrow> co_extra_prefix_len ops | _ \<Rightarrow> 0)"

text \<open>C's division truncates towards zero.\<close>

definition tx_make_plan :: "'p tx_device \<Rightarrow> bool \<Rightarrow> u16 \<Rightarrow> bytes \<Rightarrow> bytes \<Rightarrow> u16 \<Rightarrow> int \<Rightarrow> tx_plan option" where
  "tx_make_plan dev encrypt ether_type dest src frag_size bytes =
     (let (a1, a2, a3) = tx_addresses (td_iw_mode dev) (td_bssid dev) dest src;
          fc = FTYPE_DATA OR (if encrypt then FCTL_WEP else 0) OR (if td_iw_mode dev = IW_MODE_INFRA then FCTL_TODS else 0);
          bytes_per_frag = tx_bytes_per_frag dev frag_size encrypt;
          nr_frags = bytes sdiv bytes_per_frag;
          last = bytes smod bytes_per_frag
      in if bytes_per_frag = 0 then None
         else Some \<lparr>tp_fc = fc, tp_addr1 = a1, tp_addr2 = a2, tp_addr3 = a3, tp_encrypt = encrypt,
           tp_prefix_len = tx_prefix_len dev, tp_ether_type = ether_type,
           tp_nr_frags = (if last \<noteq> 0 then nr_frags + 1 else nr_frags), tp_bytes_per_frag = bytes_per_frag,
           tp_bytes_last_frag = (if last \<noteq> 0 then last else bytes_per_frag)\<rparr>)"

section \<open>The transmit function\<close>

definition tx_failed :: "'p tx_device \<Rightarrow> tx_outcome \<times> 'p tx_device" where
  "tx_failed dev = (Tx_Failed, dev\<lparr>td_netif_stopped := True, td_tx_errors := td_tx_errors dev + 1\<rparr>)"

text \<open>What happens to a finished block; \<open>hw_ok\<close> is the answer of \<open>hard_start_xmit\<close>.\<close>

definition tx_handoff :: "bool \<Rightarrow> ieee80211_txb \<Rightarrow> 'p tx_device \<Rightarrow> tx_outcome \<times> 'p tx_device" where
  "tx_handoff hw_ok txb dev =
     (if td_tx_queue dev then (Tx_Softmac txb, dev)
      else if hw_ok then (Tx_Sent txb, dev\<lparr>td_tx_packets := td_tx_packets dev + 1,
        td_tx_bytes := td_tx_bytes dev + ucast (tb_payload_size txb)\<rparr>)
      else (Tx_Refused, dev))"

text \<open>A frame that is to be cut into fragments, after its key was chosen.\<close>

definition tx_fragmented :: "bool \<Rightarrow> u16 \<Rightarrow> bool \<Rightarrow> 'p tx_device \<Rightarrow> sk_buff \<Rightarrow> (tx_outcome \<times> 'p tx_device) option" where
  "tx_fragmented hw_ok ether_type encrypt dev skb = do {
     dest \<leftarrow> skb_peek 0 6 skb;
     src \<leftarrow> skb_peek 6 6 skb;
     let skb = skb_pull 14 skb;
     let bytes = int (skb_len skb) + 8;
     let frag_size = (if tx_multicast dest then 2346 else td_fts dev);
     tp \<leftarrow> tx_make_plan dev encrypt ether_type dest src frag_size bytes;
     if td_tx_pending_txb dev > 15 then Some (tx_failed dev)
     else do {
       let idx = td_tx_skb_index dev;
       let dev = dev\<lparr>td_tx_pending_txb := td_tx_pending_txb dev + 1, td_tx_skb_index := (idx + 1) mod 16\<rparr>;
       case td_alloc_txb dev ! idx of
         None \<Rightarrow> Some (tx_failed dev)
       | Some txb \<Rightarrow> do {
           let n = unat (tb_nr_frags txb);
           frags \<leftarrow> (if n \<le> length (tb_fragments txb)
                    then Some (map tx_reset_skb (take n (tb_fragments txb)) @ drop n (tb_fragments txb)) else None);
           (frags, skb, dev) \<leftarrow> xmit_loop tp (nat (tp_nr_frags tp)) 0 frags skb dev;
           let txb = \<lparr>tb_nr_frags = word_of_int (tp_nr_frags tp), tb_encrypted = encrypt, tb_frag_size = frag_size,
                      tb_payload_size = word_of_int bytes, tb_fragments = frags\<rparr>;
           let dev = dev\<lparr>td_alloc_txb := (td_alloc_txb dev)[idx := Some txb],
                      td_seq_ctrl := (if td_seq_ctrl dev = 0xFFF then 0 else td_seq_ctrl dev + 1)\<rparr>;
           Some (tx_handoff hw_ok txb dev)
         }
     }
   }"

text \<open>Raw frames get a block of their own, allocated for them.\<close>

definition tx_raw :: "bool \<Rightarrow> bool \<Rightarrow> bool list \<Rightarrow> 'p tx_device \<Rightarrow> sk_buff \<Rightarrow> (tx_outcome \<times> 'p tx_device) option" where
  "tx_raw hw_ok kmalloc_ok skb_ok dev skb =
     (if skb_len skb < 24 then Some (Tx_None, dev)
      else case ieee80211_alloc_txb kmalloc_ok skb_ok 1 (skb_len skb) of
          None \<Rightarrow> Some (tx_failed dev)
        | Some txb \<Rightarrow> do {
            f \<leftarrow> skb_put_data (skb_data skb) (tb_fragments txb ! 0);
            Some (tx_handoff hw_ok (txb\<lparr>tb_encrypted := False, tb_payload_size := word_of_nat (skb_len skb),
              tb_fragments := (tb_fragments txb)[0 := f]\<rparr>) dev)
          })"

definition ieee80211_xmit ::
  "bool \<Rightarrow> bool \<Rightarrow> bool list \<Rightarrow> 'p tx_device \<Rightarrow> sk_buff \<Rightarrow> (tx_outcome \<times> 'p tx_device) option" where
  "ieee80211_xmit hw_ok kmalloc_ok skb_ok dev skb =
     (if (\<not> td_hard_start_xmit dev \<and> \<not> td_tx_queue dev) \<or> (\<not> td_softmac_data_hard_start_xmit dev \<and> td_tx_queue dev)
      then Some (Tx_None, dev)
      else if td_raw_tx dev then tx_raw hw_ok kmalloc_ok skb_ok dev skb
      else if skb_len skb < 8 then Some (Tx_None, dev)
      else do {
        et \<leftarrow> skb_peek 12 2 skb;
        let ether_type = get_le16 (et ! 1) (et ! 0);
        let encrypt = tx_use_key ether_type dev;
        if \<not> encrypt \<and> td_ieee802_1x dev \<and> td_drop_unencrypted dev \<and> ether_type \<noteq> 0x888E
        then Some (Tx_None, dev\<lparr>td_tx_dropped := td_tx_dropped dev + 1\<rparr>)
        else tx_fragmented hw_ok ether_type encrypt dev skb
      })"

definition tx_ret :: "tx_outcome \<Rightarrow> int" where
  "tx_ret r = (if r = Tx_Failed then 1 else 0)"

section \<open>Cutting a byte string\<close>

function chunks :: "nat \<Rightarrow> 'a list \<Rightarrow> 'a list list" where
  "chunks n xs = (if n = 0 \<or> xs = [] then [] else take n xs # chunks n (drop n xs))"
  by pat_completeness auto
termination by (relation "measure (\<lambda>(n, xs). length xs)") auto

declare chunks.simps [simp del]

lemma chunks_Nil [simp]: "chunks n [] = []" by (simp add: chunks.simps)

lemma chunks_Cons: "\<lbrakk>0 < n; xs \<noteq> []\<rbrakk> \<Longrightarrow> chunks n xs = take n xs # chunks n (drop n xs)"
  by (simp add: chunks.simps [of n xs])

lemma concat_chunks: "0 < n \<Longrightarrow> concat (chunks n xs) = xs"
  by (induction n xs rule: chunks.induct) (simp add: chunks.simps [of _ xs for xs])

lemma set_chunks: "c \<in> set (chunks n xs) \<Longrightarrow> c \<noteq> [] \<and> length c \<le> n"
proof (induction n xs rule: chunks.induct)
  case (1 n xs)
  then show ?case by (cases "n = 0 \<or> xs = []") (auto simp: chunks.simps [of n xs])
qed

lemma div_eq_1: "\<lbrakk>b \<le> a; a < 2 * b\<rbrakk> \<Longrightarrow> a div b = (1 :: nat)"
  by (rule div_nat_eqI) simp_all

lemma length_chunks: "0 < n \<Longrightarrow> length (chunks n xs) = (length xs + n - 1) div n"
proof (induction n xs rule: chunks.induct)
  case (1 n xs)
  show ?case
  proof (cases "xs = []")
    case False
    have l: "length (chunks n (drop n xs)) = (length xs - n + n - 1) div n" using 1 False by simp
    show ?thesis
    proof (cases "n \<le> length xs")
      case True
      have "length xs + n - 1 = (length xs - n + n - 1) + n" using True "1.prems" by simp
      then have "(length xs + n - 1) div n = Suc ((length xs - n + n - 1) div n)"
        using "1.prems" by (metis add.commute div_add_self1 less_numeral_extra(3) plus_1_eq_Suc)
      then show ?thesis using l "1.prems" False by (simp add: chunks_Cons)
    next
      case short: False
      have "0 < length xs" using False by simp
      then have "(length xs + n - 1) div n = 1" using short "1.prems"
        by (intro div_eq_1) linarith+
      then show ?thesis using l short "1.prems" False by (simp add: chunks_Cons)
    qed
  qed (use "1.prems" in simp)
qed

text \<open>The number of fragments and the length of the last one, computed as the code does.\<close>

lemma sdiv_nat: "int a sdiv int b = int (a div b)" "int a smod int b = int (a mod b)"
  by (simp_all add: signed_divide_int_def signed_modulo_int_def zdiv_int zmod_int sgn_if)

lemma frag_count:
  assumes "0 < b" and "0 < length xs"
  shows "(if length xs mod b \<noteq> 0 then length xs div b + 1 else length xs div b) = length (chunks b xs)"
proof (cases "length xs mod b = 0")
  case True
  then obtain q where q: "length xs = b * q" by (auto elim: dvdE simp: mod_eq_0_iff_dvd)
  have "(b * q + b - 1) div b = q"
    using div_mult_self2 [of b "b - 1" q] assms(1) by (simp add: add.commute)
  then show ?thesis using True q assms(1) by (simp add: length_chunks)
next
  case False
  define q r where "q = length xs div b" and "r = length xs mod b"
  have l: "length xs = b * q + r" "0 < r" "r < b" using False assms(1) by (simp_all add: q_def r_def)
  have "(r + b - 1) div b = 1" using l by (intro div_eq_1) linarith+
  moreover have "b * q + r + b - 1 = b * q + (r + b - 1)" using l by linarith
  moreover have "(b * q + (r + b - 1)) div b = q + (r + b - 1) div b" using assms(1) by (intro div_mult_self4) simp
  ultimately have "(b * q + r + b - 1) div b = q + 1" by simp
  then have "length (chunks b xs) = q + 1" using length_chunks [OF assms(1), of xs] unfolding l(1) [symmetric] by simp
  then show ?thesis using False unfolding q_def by simp
qed

lemma nth_chunks:
  "\<lbrakk>0 < b; k < length (chunks b xs)\<rbrakk> \<Longrightarrow> chunks b xs ! k = take b (drop (k * b) xs)"
proof (induction k arbitrary: xs)
  case 0
  then show ?case by (cases "xs = []") (auto simp: chunks_Cons)
next
  case (Suc k)
  then have "xs \<noteq> []" by auto
  with Suc show ?case by (simp add: chunks_Cons add.commute)
qed

lemma chunk_lengths:
  assumes "0 < b" and "k < length (chunks b xs)"
  shows "length (chunks b xs ! k) =
    (if k \<noteq> length (chunks b xs) - 1 then b else if length xs mod b \<noteq> 0 then length xs mod b else b)"
proof -
  have ne: "0 < length xs" using assms(2) by (cases xs) auto
  define q r where "q = length xs div b" and "r = length xs mod b"
  have l: "length xs = b * q + r" "r < b" using assms(1) by (simp_all add: q_def r_def)
  have n: "length (chunks b xs) = (if r \<noteq> 0 then q + 1 else q)" using frag_count [OF assms(1) ne] unfolding q_def r_def by metis
  have c: "length (chunks b xs ! k) = min b (length xs - k * b)" using nth_chunks [OF assms] by simp
  show ?thesis
  proof (cases "k = length (chunks b xs) - 1")
    case False
    then have "k + 1 \<le> q" using assms(2) n by (auto split: if_splits)
    then have "(k + 1) * b \<le> q * b" by (rule mult_le_mono1)
    then have "b \<le> length xs - k * b" using l by (simp add: algebra_simps)
    then have "length (chunks b xs ! k) = b" using c by simp
    then show ?thesis using False by simp
  next
    case True
    show ?thesis
    proof (cases "r = 0")
      case r0: True
      then have "q = k + 1" using True n assms(2) by simp
      then have "length xs = k * b + b" using l(1) r0 by (simp add: mult.commute)
      then have "length xs - k * b = b" by simp
      then have "length (chunks b xs ! k) = b" using c by simp
      then show ?thesis using True r0 unfolding r_def by simp
    next
      case rn: False
      then have "q = k" using True n by simp
      then have "length xs = k * b + r" using l(1) by (simp add: mult.commute)
      then have "length xs - k * b = r" by simp
      then have "length (chunks b xs ! k) = r" using c l(2) by simp
      then show ?thesis using True rn unfolding r_def by simp
    qed
  qed
qed

section \<open>One fragment\<close>

lemma skb_put_data_Some:
  assumes "length d \<le> skb_tailroom f"
  shows "\<exists>f'. skb_put_data d f = Some f' \<and> skb_data f' = skb_data f @ d \<and> skb_head f' = skb_head f \<and>
    skb_tailroom f' = skb_tailroom f - length d"
  using skb_append [OF assms] by (auto simp: skb_put_data_def)

lemma length_put_snap [simp]: "length (ieee80211_put_snap h) = 8"
  by (simp add: ieee80211_put_snap_def P802_1H_OUI_def RFC1042_OUI_def)

lemma length_tx_header [simp]:
  "\<lbrakk>length a1 = 6; length a2 = 6; length a3 = 6\<rbrakk> \<Longrightarrow> length (tx_header fc a1 a2 a3 sc) = 24"
  by (simp add: tx_header_def)

text \<open>The header of the \<open>k\<close>th fragment.\<close>

definition frag_header :: "tx_plan \<Rightarrow> u16 \<Rightarrow> nat \<Rightarrow> bytes" where
  "frag_header tp seq k =
     tx_header (if int k \<noteq> tp_nr_frags tp - 1 then tp_fc tp OR FCTL_MOREFRAGS else tp_fc tp)
       (tp_addr1 tp) (tp_addr2 tp) (tp_addr3 tp) (push_bit 4 seq OR word_of_nat k)"

definition tp_wf :: "tx_plan \<Rightarrow> bool" where
  "tp_wf tp \<longleftrightarrow> length (tp_addr1 tp) = 6 \<and> length (tp_addr2 tp) = 6 \<and> length (tp_addr3 tp) = 6"

lemma length_frag_header [simp]: "tp_wf tp \<Longrightarrow> length (frag_header tp seq k) = 24"
  by (simp add: frag_header_def tp_wf_def)

definition tp_prefix :: "tx_plan \<Rightarrow> nat" where
  "tp_prefix tp = (if tp_encrypt tp then tp_prefix_len tp else 0)"

text \<open>Up to the encryption, a fragment is its header and its part of the payload.\<close>

lemma xmit_frag_built:
  assumes wf: "tp_wf tp" and f: "skb_data f = []" "tp_prefix tp + 24 + length body \<le> skb_tailroom f"
    and skb: "skb_data skb = chunk @ rest" and body: "body = (if i = 0 then ieee80211_put_snap (tp_ether_type tp) else []) @ chunk"
    and len: "int (length body) = (if int i \<noteq> tp_nr_frags tp - 1 then tp_bytes_per_frag tp else tp_bytes_last_frag tp)"
  shows "\<exists>f1. skb_data f1 = frag_header tp (td_seq_ctrl dev) i @ body \<and> tp_prefix tp \<le> skb_headroom f1 \<and>
    skb_headroom f1 = skb_headroom f + tp_prefix tp \<and>
    skb_tailroom f1 = skb_tailroom f - tp_prefix tp - 24 - length body \<and>
    xmit_frag tp i f skb dev = do {
      (_, f1, dev) \<leftarrow> (if tp_encrypt tp then ieee80211_encrypt_fragment dev f1 24 else Some (0, f1, dev));
      f1 \<leftarrow> (if td_fcs dev then skb_put 4 f1 else Some f1);
      Some (f1, skb\<lparr>skb_head := skb_head skb @ chunk, skb_data := rest\<rparr>, dev) }"
proof -
  let ?hdr = "frag_header tp (td_seq_ctrl dev) i"
  have "\<exists>f0. (if tp_encrypt tp then skb_reserve (tp_prefix_len tp) f else Some f) = Some f0 \<and> skb_data f0 = [] \<and>
      skb_headroom f0 = skb_headroom f + tp_prefix tp \<and> skb_tailroom f0 = skb_tailroom f - tp_prefix tp"
    using f by (auto simp: tp_prefix_def skb_reserve_def skb_len_def skb_headroom_def skb_tailroom_def)
  then obtain f0 where f0: "(if tp_encrypt tp then skb_reserve (tp_prefix_len tp) f else Some f) = Some f0" "skb_data f0 = []"
    "skb_headroom f0 = skb_headroom f + tp_prefix tp" "skb_tailroom f0 = skb_tailroom f - tp_prefix tp" by blast
  have hl: "24 \<le> skb_tailroom f - tp_prefix tp" using f(2) by linarith
  obtain f1 where f1: "skb_put_data ?hdr f0 = Some f1" "skb_data f1 = ?hdr" "skb_head f1 = skb_head f0"
    "skb_tailroom f1 = skb_tailroom f - tp_prefix tp - 24"
    using skb_put_data_Some [of ?hdr f0] f0 hl wf by auto
  have "\<exists>f2. (if i = 0 then skb_put_data (ieee80211_put_snap (tp_ether_type tp)) f1 else Some f1) = Some f2 \<and>
      skb_data f2 = ?hdr @ (if i = 0 then ieee80211_put_snap (tp_ether_type tp) else []) \<and> skb_head f2 = skb_head f0 \<and>
      skb_tailroom f2 = skb_tailroom f - tp_prefix tp - 24 - (if i = 0 then 8 else 0)"
    using skb_put_data_Some [of "ieee80211_put_snap (tp_ether_type tp)" f1] f1 f body by auto
  then obtain f2 where f2: "(if i = 0 then skb_put_data (ieee80211_put_snap (tp_ether_type tp)) f1 else Some f1) = Some f2"
    "skb_data f2 = ?hdr @ (if i = 0 then ieee80211_put_snap (tp_ether_type tp) else [])" "skb_head f2 = skb_head f0"
    "skb_tailroom f2 = skb_tailroom f - tp_prefix tp - 24 - (if i = 0 then 8 else 0)" by blast
  have lb: "length body = (if i = 0 then 8 else 0) + length chunk" by (simp add: body)
  have cl: "length chunk \<le> skb_tailroom f2" using f(2) f2(4) lb by linarith
  obtain f3 where f3: "skb_put_data chunk f2 = Some f3" "skb_data f3 = skb_data f2 @ chunk" "skb_head f3 = skb_head f2"
    "skb_tailroom f3 = skb_tailroom f2 - length chunk"
    using skb_put_data_Some [OF cl] by blast
  have t3: "skb_tailroom f3 = skb_tailroom f - tp_prefix tp - 24 - length body" using f3(4) f2(4) lb by linarith
  have d3: "skb_data f3 = ?hdr @ body" using f3(2) f2(2) body by simp
  have n: "(if i = 0 then (if int i \<noteq> tp_nr_frags tp - 1 then tp_bytes_per_frag tp else tp_bytes_last_frag tp) - 8
      else (if int i \<noteq> tp_nr_frags tp - 1 then tp_bytes_per_frag tp else tp_bytes_last_frag tp)) = int (length chunk)"
    unfolding len [symmetric] body by simp
  have peek: "skb_peek 0 (length chunk) skb = Some chunk" using skb by (simp add: skb_peek_def buf_read_def)
  have pull: "skb_pull (length chunk) skb = skb\<lparr>skb_head := skb_head skb @ chunk, skb_data := rest\<rparr>"
    using skb by (intro skb_pull_append) auto
  have eq: "xmit_frag tp i f skb dev = do {
      (_, f1, dev) \<leftarrow> (if tp_encrypt tp then ieee80211_encrypt_fragment dev f3 24 else Some (0, f3, dev));
      f1 \<leftarrow> (if td_fcs dev then skb_put 4 f1 else Some f1);
      Some (f1, skb\<lparr>skb_head := skb_head skb @ chunk, skb_data := rest\<rparr>, dev) }"
    unfolding xmit_frag_def Let_def n f0(1) bind.bind_lunit frag_header_def [symmetric] f1(1) f2(1)
    by (simp add: peek f3(1) pull)
  have h: "skb_headroom f3 = skb_headroom f + tp_prefix tp" using f3(3) f2(3) f0(3) by (simp add: skb_headroom_def)
  show ?thesis
    by (rule exI [of _ f3]) (use d3 t3 h eq in simp)
qed

lemma append_split_prefix:
  assumes "s @ d = a @ r" and "length s \<le> length a"
  shows "\<exists>c. a = s @ c \<and> d = c @ r"
proof -
  have "s = take (length s) a" using arg_cong [OF assms(1), of "take (length s)"] assms(2) by simp
  moreover have "d = drop (length s) a @ r" using arg_cong [OF assms(1), of "drop (length s)"] assms(2) by simp
  ultimately show ?thesis by (metis append_take_drop_id)
qed

section \<open>All fragments, without encryption\<close>

text \<open>What is left of the payload before the \<open>i\<close>th fragment, the SNAP header counted in.\<close>

lemma xmit_loop_plain:
  assumes wf: "tp_wf tp" "\<not> tp_encrypt tp" "\<not> td_fcs dev"
    and frags: "n + i = length cs" "length cs \<le> length frags" "int (length cs) = tp_nr_frags tp"
    and room: "\<forall>k < length cs. i \<le> k \<longrightarrow> skb_data (frags ! k) = [] \<and> 24 + length (cs ! k) \<le> skb_tailroom (frags ! k)"
    and lens: "\<forall>k < length cs. int (length (cs ! k)) =
      (if int k \<noteq> tp_nr_frags tp - 1 then tp_bytes_per_frag tp else tp_bytes_last_frag tp)"
    and snap: "(if i = 0 then ieee80211_put_snap (tp_ether_type tp) else []) @ skb_data skb = concat (drop i cs)"
    and eight: "cs \<noteq> [] \<longrightarrow> 8 \<le> length (cs ! 0)"
  shows "\<exists>frags' skb'. xmit_loop tp n i frags skb dev = Some (frags', skb', dev) \<and> length frags' = length frags \<and>
    (\<forall>k < length frags. skb_data (frags' ! k) = (if i \<le> k \<and> k < length cs
       then frag_header tp (td_seq_ctrl dev) k @ cs ! k else skb_data (frags ! k))) \<and>
    (\<forall>k < length frags. length (skb_alloc_bytes (frags' ! k)) = length (skb_alloc_bytes (frags ! k))) \<and>
    (\<forall>k. length cs \<le> k \<longrightarrow> k < length frags \<longrightarrow> frags' ! k = frags ! k)"
  using frags room snap
proof (induction n arbitrary: i frags skb)
  case 0
  then show ?case by auto
next
  case (Suc n)
  have i: "i < length cs" "i < length frags" using Suc.prems by auto
  let ?s = "if i = 0 then ieee80211_put_snap (tp_ether_type tp) else []"
  have c: "concat (drop i cs) = cs ! i @ concat (drop (Suc i) cs)"
    using i by (metis Cons_nth_drop_Suc concat.simps(2))
  have "length ?s \<le> length (cs ! i)" using eight i by auto
  then obtain chunk where chunk: "cs ! i = ?s @ chunk" and skb: "skb_data skb = chunk @ concat (drop (Suc i) cs)"
    using append_split_prefix [OF Suc.prems(5) [unfolded c]] by blast
  let ?skb = "skb\<lparr>skb_head := skb_head skb @ chunk, skb_data := concat (drop (Suc i) cs)\<rparr>"
  have f: "skb_data (frags ! i) = []" "tp_prefix tp + 24 + length (cs ! i) \<le> skb_tailroom (frags ! i)"
    using Suc.prems(4) i wf(2) by (simp_all add: tp_prefix_def)
  obtain f1 where f1: "skb_data f1 = frag_header tp (td_seq_ctrl dev) i @ cs ! i"
      "skb_headroom f1 = skb_headroom (frags ! i) + tp_prefix tp"
      "skb_tailroom f1 = skb_tailroom (frags ! i) - tp_prefix tp - 24 - length (cs ! i)"
    and x: "xmit_frag tp i (frags ! i) skb dev = Some (f1, ?skb, dev)"
    using xmit_frag_built [OF wf(1) f skb chunk, of dev] lens i wf(2,3) by auto
  have al: "length (skb_alloc_bytes f1) = length (skb_alloc_bytes (frags ! i))"
    using f1 f wf by (simp add: skb_alloc_bytes_def skb_headroom_def skb_tailroom_def tp_prefix_def)
  have "\<exists>frags' skb'. xmit_loop tp n (Suc i) (frags[i := f1]) ?skb dev = Some (frags', skb', dev) \<and>
    length frags' = length (frags[i := f1]) \<and>
    (\<forall>k < length (frags[i := f1]). skb_data (frags' ! k) = (if Suc i \<le> k \<and> k < length cs
       then frag_header tp (td_seq_ctrl dev) k @ cs ! k else skb_data (frags[i := f1] ! k))) \<and>
    (\<forall>k < length (frags[i := f1]). length (skb_alloc_bytes (frags' ! k)) = length (skb_alloc_bytes (frags[i := f1] ! k))) \<and>
    (\<forall>k. length cs \<le> k \<longrightarrow> k < length (frags[i := f1]) \<longrightarrow> frags' ! k = frags[i := f1] ! k)"
    by (rule Suc.IH) (use Suc.prems in auto)
  then obtain frags' skb' where l: "xmit_loop tp n (Suc i) (frags[i := f1]) ?skb dev = Some (frags', skb', dev)"
    "length frags' = length frags"
    "\<And>k. k < length frags \<Longrightarrow> skb_data (frags' ! k) = (if Suc i \<le> k \<and> k < length cs
       then frag_header tp (td_seq_ctrl dev) k @ cs ! k else skb_data (frags[i := f1] ! k))"
    "\<And>k. k < length frags \<Longrightarrow> length (skb_alloc_bytes (frags' ! k)) = length (skb_alloc_bytes (frags[i := f1] ! k))"
    "\<And>k. \<lbrakk>length cs \<le> k; k < length frags\<rbrakk> \<Longrightarrow> frags' ! k = frags[i := f1] ! k"
    by auto
  have "xmit_loop tp (Suc n) i frags skb dev = Some (frags', skb', dev)" using i x l(1) by simp
  moreover have "skb_data (frags' ! k) = (if i \<le> k \<and> k < length cs
       then frag_header tp (td_seq_ctrl dev) k @ cs ! k else skb_data (frags ! k))" if "k < length frags" for k
    using l(3) [OF that] f1(1) i by (cases "k = i") auto
  moreover have "length (skb_alloc_bytes (frags' ! k)) = length (skb_alloc_bytes (frags ! k))" if "k < length frags" for k
    using l(4) [OF that] al that by (cases "k = i") auto
  moreover have "frags' ! k = frags ! k" if "length cs \<le> k" "k < length frags" for k
    using l(5) [OF that] i that by auto
  ultimately show ?case using l(2) by blast
qed

section \<open>The transmit blocks\<close>

text \<open>
  Eight fragments of 2346 bytes and 16 bytes of headroom; those a block does not use are in the
  state they were allocated in.
\<close>

definition frag_clean :: "sk_buff \<Rightarrow> bool" where
  "frag_clean f \<longleftrightarrow> skb_data f = [] \<and> skb_headroom f = 16 \<and> skb_tailroom f = 2346"

definition txb_wf :: "ieee80211_txb \<Rightarrow> bool" where
  "txb_wf txb \<longleftrightarrow> length (tb_fragments txb) = 8 \<and> unat (tb_nr_frags txb) \<le> 8 \<and>
     (\<forall>k < 8. length (skb_alloc_bytes (tb_fragments txb ! k)) = 2362) \<and>
     (\<forall>k < 8. unat (tb_nr_frags txb) \<le> k \<longrightarrow> frag_clean (tb_fragments txb ! k))"

definition tx_wf :: "'p tx_device \<Rightarrow> bool" where
  "tx_wf dev \<longleftrightarrow> length (td_alloc_txb dev) = 16 \<and> td_tx_skb_index dev < 16 \<and> length (td_bssid dev) = 6 \<and>
     (\<forall>txb. Some txb \<in> set (td_alloc_txb dev) \<longrightarrow> txb_wf txb)"

lemma alloc_txb_wf: "ieee80211_alloc_txb k s 8 2346 = Some txb \<Longrightarrow> txb_wf txb"
  by (auto simp: ieee80211_alloc_txb_def txb_wf_def frag_clean_def dev_alloc_skb_def skb_alloc_bytes_def
      skb_headroom_def skb_tailroom_def split: if_split_asm)

lemma tx_reset_clean: "length (skb_alloc_bytes f) = 2362 \<Longrightarrow> frag_clean (tx_reset_skb f)"
  by (simp add: tx_reset_skb_def frag_clean_def skb_headroom_def skb_tailroom_def)

lemma frag_clean_alloc: "frag_clean f \<Longrightarrow> length (skb_alloc_bytes f) = 2362"
  by (simp add: frag_clean_def skb_alloc_bytes_def skb_headroom_def skb_tailroom_def)

definition tx_reset_frags :: "ieee80211_txb \<Rightarrow> sk_buff list" where
  "tx_reset_frags txb = map tx_reset_skb (take (unat (tb_nr_frags txb)) (tb_fragments txb)) @
     drop (unat (tb_nr_frags txb)) (tb_fragments txb)"

lemma tx_reset_frags_clean:
  assumes "txb_wf txb"
  shows "length (tx_reset_frags txb) = 8 \<and> (\<forall>k < 8. frag_clean (tx_reset_frags txb ! k))"
  using assms by (auto simp: tx_reset_frags_def txb_wf_def nth_append tx_reset_clean min_def)

section \<open>The plan\<close>

lemma tx_make_plan_spec:
  assumes b: "tx_bytes_per_frag dev frag_size encrypt = int b" "0 < b"
    and xs: "bytes = int (length xs)" "0 < length xs" and addr: "length dest = 6" "length src = 6" "length (td_bssid dev) = 6"
  shows "\<exists>tp. tx_make_plan dev encrypt et dest src frag_size bytes = Some tp \<and> tp_wf tp \<and> tp_encrypt tp = encrypt \<and>
    tp_ether_type tp = et \<and> tp_prefix_len tp = tx_prefix_len dev \<and>
    tp_fc tp = FTYPE_DATA OR (if encrypt then FCTL_WEP else 0) OR (if td_iw_mode dev = IW_MODE_INFRA then FCTL_TODS else 0) \<and>
    (tp_addr1 tp, tp_addr2 tp, tp_addr3 tp) = tx_addresses (td_iw_mode dev) (td_bssid dev) dest src \<and>
    tp_nr_frags tp = int (length (chunks b xs)) \<and>
    (\<forall>k < length (chunks b xs). int (length (chunks b xs ! k)) =
      (if int k \<noteq> tp_nr_frags tp - 1 then tp_bytes_per_frag tp else tp_bytes_last_frag tp))"
proof -
  obtain a1 a2 a3 where a0: "tx_addresses (td_iw_mode dev) (td_bssid dev) dest src = (a1, a2, a3)"
    by (metis prod.exhaust)
  then have "length a1 = 6" "length a2 = 6" "length a3 = 6"
    using addr by (auto simp: tx_addresses_def split: if_splits)
  note a = a0 this
  let ?last = "int (length xs mod b)" and ?n = "length (chunks b xs)"
  have n: "(if ?last \<noteq> 0 then int (length xs div b) + 1 else int (length xs div b)) = int ?n"
    using frag_count [OF b(2) xs(2)] by (auto split: if_splits)
  have k: "int (length (chunks b xs ! k)) = (if int k \<noteq> int ?n - 1 then int b else if ?last \<noteq> 0 then ?last else int b)"
    if "k < ?n" for k
    using chunk_lengths [OF b(2) that] that by (auto split: if_splits)
  have p: "tx_make_plan dev encrypt et dest src frag_size bytes = Some
     \<lparr>tp_fc = FTYPE_DATA OR (if encrypt then FCTL_WEP else 0) OR (if td_iw_mode dev = IW_MODE_INFRA then FCTL_TODS else 0),
      tp_addr1 = a1, tp_addr2 = a2, tp_addr3 = a3, tp_encrypt = encrypt, tp_prefix_len = tx_prefix_len dev, tp_ether_type = et,
      tp_nr_frags = int ?n, tp_bytes_per_frag = int b, tp_bytes_last_frag = (if ?last \<noteq> 0 then ?last else int b)\<rparr>"
    using b n a by (simp only: tx_make_plan_def Let_def xs(1) sdiv_nat prod.case) simp
  show ?thesis unfolding p by (rule exI, rule conjI, rule refl) (use a k in \<open>simp add: tp_wf_def\<close>)
qed

text \<open>With an accepted threshold and MTU, eight fragments are enough.\<close>

lemma chunks_at_most_8:
  assumes "208 \<le> b" and "length xs \<le> 1508"
  shows "length (chunks b xs) \<le> 8"
proof -
  have "(length xs + b - 1) div b \<le> 8"
  proof -
    have "length xs + b - 1 < 9 * b" using assms by linarith
    then have "(length xs + b - 1) div b < 9" using assms by (simp add: less_mult_imp_div_less)
    then show ?thesis by simp
  qed
  then show ?thesis using assms by (simp add: length_chunks)
qed

text \<open>An Ethernet frame of the network stack.\<close>

definition eth_frame :: "bytes \<Rightarrow> bytes \<Rightarrow> u16 \<Rightarrow> bytes \<Rightarrow> bytes" where
  "eth_frame dest src et payload = dest @ src @ [ucast (drop_bit 8 et), ucast et] @ payload"

lemma eth_frame_reads:
  assumes "length dest = 6" and "length src = 6" and "skb_data skb = eth_frame dest src et payload"
  shows "skb_peek 0 6 skb = Some dest" "skb_peek 6 6 skb = Some src"
    "skb_peek 12 2 skb = Some [ucast (drop_bit 8 et), ucast et]" "skb_len skb = 14 + length payload"
    "skb_data (skb_pull 14 skb) = payload"
  using assms by (simp_all add: skb_peek_def buf_read_def eth_frame_def skb_len_def skb_pull_def)

definition tx_frag_size :: "'p tx_device \<Rightarrow> bytes \<Rightarrow> u16" where
  "tx_frag_size dev dest = (if tx_multicast dest then 2346 else td_fts dev)"

text \<open>The device lets the frame through: there is a handler, room in the queue and a block.\<close>

definition tx_ready :: "u16 \<Rightarrow> 'p tx_device \<Rightarrow> bool" where
  "tx_ready et dev \<longleftrightarrow> tx_wf dev \<and> td_tx_queue dev \<and> td_softmac_data_hard_start_xmit dev \<and> \<not> td_raw_tx dev \<and> \<not> td_fcs dev \<and>
     td_tx_pending_txb dev \<le> 15 \<and> td_alloc_txb dev ! td_tx_skb_index dev \<noteq> None \<and>
     256 \<le> unat (td_fts dev) \<and> unat (td_fts dev) \<le> 2346 \<and>
     (tx_use_key et dev \<or> \<not> td_ieee802_1x dev \<or> \<not> td_drop_unencrypted dev \<or> et = 0x888E)"

definition tx_after :: "'p tx_device \<Rightarrow> 'p tx_device" where
  "tx_after dev = dev\<lparr>td_tx_pending_txb := td_tx_pending_txb dev + 1, td_tx_skb_index := (td_tx_skb_index dev + 1) mod 16\<rparr>"

lemma xmit_ready:
  assumes r: "tx_ready et dev" and d: "length dest = 6" "length src = 6" "skb_data skb = eth_frame dest src et payload"
    and txb: "td_alloc_txb dev ! td_tx_skb_index dev = Some txb"
    and tp: "tx_make_plan dev (tx_use_key et dev) et dest src (tx_frag_size dev dest) (int (length payload) + 8) = Some tp"
    and loop: "xmit_loop tp (nat (tp_nr_frags tp)) 0 (tx_reset_frags txb) (skb_pull 14 skb) (tx_after dev) = Some (frags, skb', dev')"
  shows "ieee80211_xmit hw k s dev skb =
    Some (let txb = \<lparr>tb_nr_frags = word_of_int (tp_nr_frags tp), tb_encrypted = tx_use_key et dev, tb_frag_size = tx_frag_size dev dest,
              tb_payload_size = word_of_int (int (length payload) + 8), tb_fragments = frags\<rparr>
       in tx_handoff hw txb (dev'\<lparr>td_alloc_txb := (td_alloc_txb dev')[td_tx_skb_index dev := Some txb],
                 td_seq_ctrl := (if td_seq_ctrl dev' = 0xFFF then 0 else td_seq_ctrl dev' + 1)\<rparr>))"
proof -
  have e: "get_le16 (ucast et) (ucast (drop_bit 8 et)) = et"
    by (rule bit_word_eqI) (auto simp: get_le16_def bit_simps)
  have w: "txb_wf txb" using r txb by (metis nth_mem tx_ready_def tx_wf_def)
  then have "unat (tb_nr_frags txb) \<le> length (tb_fragments txb)" by (simp add: txb_wf_def)
  moreover have "skb_len (skb_pull 14 skb) = length payload" using eth_frame_reads(5) [OF d] by (simp add: skb_len_def)
  ultimately have f: "tx_fragmented hw et (tx_use_key et dev) dev skb =
     Some (let txb = \<lparr>tb_nr_frags = word_of_int (tp_nr_frags tp), tb_encrypted = tx_use_key et dev, tb_frag_size = tx_frag_size dev dest,
              tb_payload_size = word_of_int (int (length payload) + 8), tb_fragments = frags\<rparr>
       in tx_handoff hw txb (dev'\<lparr>td_alloc_txb := (td_alloc_txb dev')[td_tx_skb_index dev := Some txb],
                 td_seq_ctrl := (if td_seq_ctrl dev' = 0xFFF then 0 else td_seq_ctrl dev' + 1)\<rparr>))"
    using r tp txb loop [unfolded tx_after_def] eth_frame_reads [OF d]
    by (simp add: tx_fragmented_def Let_def tx_frag_size_def [symmetric] tx_reset_frags_def [symmetric] tx_ready_def)
  show ?thesis
    using r f eth_frame_reads [OF d] by (auto simp: ieee80211_xmit_def tx_ready_def Let_def e)
qed

text \<open>The header of the \<open>k\<close>th of \<open>n\<close> fragments.\<close>

definition tx_frag_header :: "'p tx_device \<Rightarrow> bool \<Rightarrow> bytes \<Rightarrow> bytes \<Rightarrow> nat \<Rightarrow> nat \<Rightarrow> bytes" where
  "tx_frag_header dev encrypt dest src n k =
     (let (a1, a2, a3) = tx_addresses (td_iw_mode dev) (td_bssid dev) dest src;
          fc = FTYPE_DATA OR (if encrypt then FCTL_WEP else 0) OR (if td_iw_mode dev = IW_MODE_INFRA then FCTL_TODS else 0)
      in tx_header (if k + 1 < n then fc OR FCTL_MOREFRAGS else fc) a1 a2 a3 (push_bit 4 (td_seq_ctrl dev) OR word_of_nat k))"

lemma frag_header_eq:
  assumes "tp_fc tp = FTYPE_DATA OR (if encrypt then FCTL_WEP else 0) OR (if td_iw_mode dev = IW_MODE_INFRA then FCTL_TODS else 0)"
    and "(tp_addr1 tp, tp_addr2 tp, tp_addr3 tp) = tx_addresses (td_iw_mode dev) (td_bssid dev) dest src"
    and "tp_nr_frags tp = int n" and "k < n"
  shows "frag_header tp (td_seq_ctrl dev) k = tx_frag_header dev encrypt dest src n k"
proof -
  have "int k \<noteq> int n - 1 \<longleftrightarrow> k + 1 < n" using assms(4) by auto
  then show ?thesis
    unfolding frag_header_def tx_frag_header_def Let_def assms(2) [symmetric] prod.case assms(1,3) by (simp only:)
qed

lemma txb_wf_used:
  assumes frags: "length frags = 8" "\<forall>k < 8. length (skb_alloc_bytes (frags ! k)) = 2362"
      "\<forall>k. n \<le> k \<longrightarrow> k < 8 \<longrightarrow> frag_clean (frags ! k)"
    and n: "n \<le> 8"
  shows "txb_wf \<lparr>tb_nr_frags = word_of_int (int n), tb_encrypted = e, tb_frag_size = s, tb_payload_size = p, tb_fragments = frags\<rparr>"
proof -
  have "unat (word_of_int (int n) :: u8) = n" using n by (simp add: unat_of_nat)
  then show ?thesis using assms by (simp add: txb_wf_def)
qed

lemma tx_wf_after:
  assumes "tx_wf dev" and "txb_wf txb"
  shows "tx_wf ((tx_after dev)\<lparr>td_alloc_txb := (td_alloc_txb dev)[td_tx_skb_index dev := Some txb], td_seq_ctrl := s\<rparr>)"
  using assms by (auto simp: tx_wf_def tx_after_def dest: set_update_subset_insert [THEN subsetD])

lemma xmit_plain:
  assumes r: "tx_ready et dev" and nokey: "\<not> tx_use_key et dev"
    and d: "length dest = 6" "length src = 6" "skb_data skb = eth_frame dest src et payload" and mtu: "length payload \<le> 1500"
    and cs: "cs = chunks (unat (tx_frag_size dev dest) - 24) (ieee80211_put_snap et @ payload)"
  shows "\<exists>txb dev'. ieee80211_xmit hw k s dev skb = Some (Tx_Softmac txb, dev') \<and> unat (tb_nr_frags txb) = length cs \<and>
    length cs \<le> 8 \<and> length (tb_fragments txb) = 8 \<and>
    (\<forall>k < length cs. skb_data (tb_fragments txb ! k) = tx_frag_header dev False dest src (length cs) k @ cs ! k) \<and>
    tx_wf dev' \<and> td_seq_ctrl dev' = (if td_seq_ctrl dev = 0xFFF then 0 else td_seq_ctrl dev + 1)"
proof -
  let ?fs = "tx_frag_size dev dest" and ?xs = "ieee80211_put_snap et @ payload"
  let ?b = "unat ?fs - 24" and ?n = "length cs"
  have fs: "256 \<le> unat ?fs" "unat ?fs \<le> 2346" using r by (simp_all add: tx_frag_size_def tx_ready_def)
  have b: "tx_bytes_per_frag dev ?fs False = int ?b" "0 < ?b" "232 \<le> ?b"
  proof -
    have "uint ?fs - 24 = int ?b" unfolding uint_nat using fs by linarith
    then show "tx_bytes_per_frag dev ?fs False = int ?b" using r by (simp add: tx_bytes_per_frag_def tx_ready_def)
  qed (use fs in linarith)+
  have bssid: "length (td_bssid dev) = 6" using r by (simp add: tx_ready_def tx_wf_def)
  obtain tp where tp: "tx_make_plan dev False et dest src ?fs (int (length payload) + 8) = Some tp" "tp_wf tp" "\<not> tp_encrypt tp"
    "tp_ether_type tp = et" and fc: "tp_fc tp = FTYPE_DATA OR (if False then FCTL_WEP else 0) OR (if td_iw_mode dev = IW_MODE_INFRA then FCTL_TODS else 0)"
    and addr: "(tp_addr1 tp, tp_addr2 tp, tp_addr3 tp) = tx_addresses (td_iw_mode dev) (td_bssid dev) dest src"
    and n: "tp_nr_frags tp = int ?n"
    and lens: "\<forall>k < ?n. int (length (cs ! k)) = (if int k \<noteq> tp_nr_frags tp - 1 then tp_bytes_per_frag tp else tp_bytes_last_frag tp)"
    using tx_make_plan_spec [OF b(1,2), of "int (length payload) + 8" ?xs dest src et] d bssid unfolding cs by auto
  obtain txb where txb: "td_alloc_txb dev ! td_tx_skb_index dev = Some txb" using r by (auto simp: tx_ready_def)
  then have w: "txb_wf txb" using r by (metis nth_mem tx_ready_def tx_wf_def)
  note clean = tx_reset_frags_clean [OF w]
  have n8: "?n \<le> 8" unfolding cs by (rule chunks_at_most_8) (use b mtu in simp_all)
  have ne: "?xs \<noteq> []" by (auto simp: ieee80211_put_snap_def)
  have eight: "cs \<noteq> [] \<longrightarrow> 8 \<le> length (cs ! 0)"
    unfolding cs chunks_Cons [OF b(2) ne] using b(3) by simp
  have small: "length (cs ! k) \<le> ?b" if "k < ?n" for k
    using set_chunks [of "cs ! k" ?b ?xs] that cs by auto
  have "\<exists>frags' skb'. xmit_loop tp ?n 0 (tx_reset_frags txb) (skb_pull 14 skb) (tx_after dev) = Some (frags', skb', tx_after dev) \<and>
    length frags' = length (tx_reset_frags txb) \<and>
    (\<forall>k < length (tx_reset_frags txb). skb_data (frags' ! k) = (if 0 \<le> k \<and> k < ?n
       then frag_header tp (td_seq_ctrl (tx_after dev)) k @ cs ! k else skb_data (tx_reset_frags txb ! k))) \<and>
    (\<forall>k < length (tx_reset_frags txb). length (skb_alloc_bytes (frags' ! k)) = length (skb_alloc_bytes (tx_reset_frags txb ! k))) \<and>
    (\<forall>k. ?n \<le> k \<longrightarrow> k < length (tx_reset_frags txb) \<longrightarrow> frags' ! k = tx_reset_frags txb ! k)"
  proof (rule xmit_loop_plain)
    show "\<forall>k < ?n. 0 \<le> k \<longrightarrow> skb_data (tx_reset_frags txb ! k) = [] \<and> 24 + length (cs ! k) \<le> skb_tailroom (tx_reset_frags txb ! k)"
      using clean n8 small fs by (fastforce simp: frag_clean_def)
    show "(if (0 :: nat) = 0 then ieee80211_put_snap (tp_ether_type tp) else []) @ skb_data (skb_pull 14 skb) = concat (drop 0 cs)"
      using eth_frame_reads(5) [OF d] tp(4) concat_chunks [OF b(2), of ?xs] by (simp add: cs)
  qed (use tp r n lens eight clean n8 in \<open>auto simp: tx_after_def tx_ready_def\<close>)
  then obtain frags skb' where lp: "xmit_loop tp ?n 0 (tx_reset_frags txb) (skb_pull 14 skb) (tx_after dev) = Some (frags, skb', tx_after dev)"
    and fr: "length frags = 8" "\<forall>k < ?n. skb_data (frags ! k) = frag_header tp (td_seq_ctrl dev) k @ cs ! k"
      "\<forall>k < 8. length (skb_alloc_bytes (frags ! k)) = 2362" "\<forall>k. ?n \<le> k \<longrightarrow> k < 8 \<longrightarrow> frag_clean (frags ! k)"
    using clean n8 frag_clean_alloc by (auto simp: tx_after_def)
  let ?txb = "\<lparr>tb_nr_frags = word_of_int (int ?n), tb_encrypted = False, tb_frag_size = ?fs,
      tb_payload_size = word_of_int (int (length payload) + 8), tb_fragments = frags\<rparr>"
  have x: "ieee80211_xmit hw k s dev skb = Some (Tx_Softmac ?txb,
      (tx_after dev)\<lparr>td_alloc_txb := (td_alloc_txb dev)[td_tx_skb_index dev := Some ?txb],
        td_seq_ctrl := (if td_seq_ctrl dev = 0xFFF then 0 else td_seq_ctrl dev + 1)\<rparr>)"
  proof -
    have nk: "tx_use_key et dev = False" and q: "td_tx_queue dev" using nokey r by (simp_all add: tx_ready_def)
    have lp': "xmit_loop tp (nat (tp_nr_frags tp)) 0 (tx_reset_frags txb) (skb_pull 14 skb) (tx_after dev) =
      Some (frags, skb', tx_after dev)" using lp n by simp
    show ?thesis
      using xmit_ready [OF r d txb, unfolded nk, OF tp(1) lp', of hw k s] q
      unfolding Let_def tx_handoff_def n tx_after_def by simp
  qed
  have "unat (word_of_int (int ?n) :: u8) = ?n" using n8 by (simp add: unat_of_nat)
  moreover have "skb_data (frags ! k) = tx_frag_header dev False dest src ?n k @ cs ! k" if "k < ?n" for k
    using fr(2) frag_header_eq [OF fc addr n that] that by simp
  moreover have "tx_wf ((tx_after dev)\<lparr>td_alloc_txb := (td_alloc_txb dev)[td_tx_skb_index dev := Some ?txb],
        td_seq_ctrl := (if td_seq_ctrl dev = 0xFFF then 0 else td_seq_ctrl dev + 1)\<rparr>)"
    by (rule tx_wf_after) (use r in \<open>simp add: tx_ready_def\<close>, rule txb_wf_used [OF fr(1,3,4) n8])
  ultimately show ?thesis using x fr(1) n8 by simp
qed

end
