(* ===== verification/Link.thy ===== *)
theory Link
  imports Tx
begin

text \<open>
  Transmitter and receiver together: what \<open>ieee80211_xmit\<close> of one station puts on the air,
  \<open>ieee80211_rx\<close> of the other one turns back into the Ethernet frame.  First the frames of the
  transmitter as the receiver reads them, then the duplicate filter and the reassembly over a
  whole train of fragments, then the properties of the link, plain and encrypted.
\<close>

section \<open>What the transmitter prints is a data frame\<close>

lemma tx_header_fields:
  assumes "length a1 = 6" and "length a2 = 6" and "length a3 = 6"
  shows "hdr_frame_ctl (tx_header fc a1 a2 a3 sc) = Some fc" "hdr_addr1 (tx_header fc a1 a2 a3 sc) = Some a1"
    "hdr_addr2 (tx_header fc a1 a2 a3 sc) = Some a2" "hdr_addr3 (tx_header fc a1 a2 a3 sc) = Some a3"
    "hdr_seq_ctl (tx_header fc a1 a2 a3 sc) = Some sc"
  using assms by (simp_all add: hdr_field_defs buf_read_def tx_header_def get_le16_bytes)

lemma frag_number:
  assumes "k < 16"
  shows "WLAN_GET_SEQ_FRAG (push_bit 4 seq OR word_of_nat k) = word_of_nat k"
    and "WLAN_GET_SEQ_SEQ (push_bit 4 seq OR word_of_nat k) = push_bit 4 seq"
proof -
  have k: "take_bit 4 (word_of_nat k :: u16) = word_of_nat k"
    using assms by (simp only: take_bit_of_nat) (simp add: take_bit_nat_eq_self)
  have b: "bit (word_of_nat k :: u16) m \<Longrightarrow> m < 4" for m
    using k by (metis bit_take_bit_iff)
  have m: "(0x000f :: u16) = mask 4" "(0xfff0 :: u16) = NOT (mask 4)" by (simp_all add: mask_numeral)
  show "WLAN_GET_SEQ_FRAG (push_bit 4 seq OR word_of_nat k) = word_of_nat k"
    unfolding WLAN_GET_SEQ_FRAG_def m by (rule bit_word_eqI) (use b in \<open>auto simp: bit_simps\<close>)
  show "WLAN_GET_SEQ_SEQ (push_bit 4 seq OR word_of_nat k) = push_bit 4 seq"
    unfolding WLAN_GET_SEQ_SEQ_def m by (rule bit_word_eqI) (use b in \<open>fastforce simp: bit_simps\<close>)
qed

definition tx_frag_control :: "'p tx_device \<Rightarrow> bool \<Rightarrow> nat \<Rightarrow> nat \<Rightarrow> u16" where
  "tx_frag_control dev encrypt n k =
     (let fc = FTYPE_DATA OR (if encrypt then FCTL_WEP else 0) OR (if td_iw_mode dev = IW_MODE_INFRA then FCTL_TODS else 0)
      in if k + 1 < n then fc OR FCTL_MOREFRAGS else fc)"

lemma tx_frag_control_bits:
  "tx_frag_control dev encrypt n k AND FCTL_MOREFRAGS \<noteq> 0 \<longleftrightarrow> k + 1 < n"
  "tx_frag_control dev encrypt n k AND FCTL_WEP \<noteq> 0 \<longleftrightarrow> encrypt"
  by (simp_all add: tx_frag_control_def Let_def)

definition tx_seq_control :: "'p tx_device \<Rightarrow> nat \<Rightarrow> u16" where
  "tx_seq_control dev k = push_bit 4 (td_seq_ctrl dev) OR word_of_nat k"

text \<open>The address of the sender and the receiver of the frame, as the 802.11 header names them.\<close>

lemma tx_frag_data_header:
  assumes m: "td_iw_mode dev = IW_MODE_ADHOC \<or> td_iw_mode dev = IW_MODE_INFRA"
    and l: "length dest = 6" "length src = 6" "length (td_bssid dev) = 6"
  shows "data_header (tx_frag_control dev encrypt n k) (tx_seq_control dev k) dest src (td_bssid dev)
      (tx_frag_header dev encrypt dest src n k)"
    and "hdr_addr2 (tx_frag_header dev encrypt dest src n k) = Some src"
    and "hdr_addr1 (tx_frag_header dev encrypt dest src n k) =
      Some (if td_iw_mode dev = IW_MODE_INFRA then td_bssid dev else dest)"
    and "length (tx_frag_header dev encrypt dest src n k) = 24"
proof -
  have h: "tx_frag_header dev encrypt dest src n k = (case tx_addresses (td_iw_mode dev) (td_bssid dev) dest src of
      (a1, a2, a3) \<Rightarrow> tx_header (tx_frag_control dev encrypt n k) a1 a2 a3 (tx_seq_control dev k))"
    unfolding tx_frag_header_def Let_def tx_frag_control_def tx_seq_control_def ..
  have len: "24 = ieee80211_get_hdrlen (tx_frag_control dev encrypt n k)"
    "WLAN_FC_GET_TYPE (tx_frag_control dev encrypt n k) = FTYPE_DATA"
    "WLAN_FC_GET_STYPE (tx_frag_control dev encrypt n k) = 0"
    "tx_frag_control dev encrypt n k AND FCTL_DSTODS = (if td_iw_mode dev = IW_MODE_INFRA then FCTL_TODS else 0)"
    by (simp_all add: tx_frag_control_def Let_def ieee80211_get_hdrlen_def WLAN_FC_GET_TYPE_def WLAN_FC_GET_STYPE_def)
  obtain a1 a2 a3 where t: "tx_addresses (td_iw_mode dev) (td_bssid dev) dest src = (a1, a2, a3)"
    and a: "length a1 = 6" "length a2 = 6" "length a3 = 6"
    and dst: "if td_iw_mode dev = IW_MODE_INFRA then a1 = td_bssid dev \<and> a2 = src \<and> a3 = dest
      else a1 = dest \<and> a2 = src \<and> a3 = td_bssid dev"
    using m l by (auto simp: tx_addresses_def)
  have hh: "tx_frag_header dev encrypt dest src n k = tx_header (tx_frag_control dev encrypt n k) a1 a2 a3 (tx_seq_control dev k)"
    unfolding h t by simp
  note f = tx_header_fields [OF a, of "tx_frag_control dev encrypt n k" "tx_seq_control dev k", folded hh]
  show l24: "length (tx_frag_header dev encrypt dest src n k) = 24" using a by (simp add: hh)
  have "rx_addresses (td_bssid dev) (tx_frag_control dev encrypt n k) (tx_frag_header dev encrypt dest src n k) =
      Some (Some (dest, src, td_bssid dev))"
    unfolding rx_addresses_def f bind.bind_lunit len(4) using dst by (cases "td_iw_mode dev = IW_MODE_INFRA") simp_all
  then show "data_header (tx_frag_control dev encrypt n k) (tx_seq_control dev k) dest src (td_bssid dev)
      (tx_frag_header dev encrypt dest src n k)"
    unfolding data_header_def using f(1,5) len(1-3) l24 by simp
  show "hdr_addr2 (tx_frag_header dev encrypt dest src n k) = Some src"
    "hdr_addr1 (tx_frag_header dev encrypt dest src n k) = Some (if td_iw_mode dev = IW_MODE_INFRA then td_bssid dev else dest)"
    using f(2,3) dst by (auto split: if_splits)
qed

text \<open>The receiver takes the SNAP header off again.\<close>

lemma ethernet_frame_snap:
  "ethernet_frame dest src (ieee80211_put_snap et @ payload) = eth_frame dest src et payload"
proof -
  have "get_le16 (ucast et) (ucast (drop_bit 8 et)) = et" by (rule get_le16_bytes)
  then have "snap_encap (ieee80211_put_snap et @ payload)"
    by (auto simp: snap_encap_def ieee80211_put_snap_def rfc1042_header_def bridge_tunnel_header_def P802_1H_OUI_def RFC1042_OUI_def)
  moreover have "drop 6 (ieee80211_put_snap et @ payload) = [ucast (drop_bit 8 et), ucast et] @ payload"
    by (simp add: ieee80211_put_snap_def P802_1H_OUI_def RFC1042_OUI_def)
  ultimately show ?thesis by (simp add: ethernet_frame_def eth_frame_def)
qed

section \<open>The duplicate filter lets the next fragment through\<close>

lemma seq_check_next:
  assumes "seq_check HZ j seq frag sq = (False, sq')" and "frag' = frag + 1" and "frag < 15"
  shows "\<exists>sq''. seq_check HZ j' seq frag' sq' = (False, sq'') \<and> sq_seq_num sq'' = seq"
proof -
  have "uint frag' = uint frag + 1" "frag \<noteq> frag'"
    using assms(2,3) by (auto simp: uint_word_ariths word_less_def)
  moreover have "sq_seq_num sq' = seq" "sq_frag_num sq' = frag" using assms(1) by (auto simp: seq_check_def split: if_splits)
  ultimately show ?thesis by (auto simp: seq_check_def)
qed

lemma ibss_check_next:
  assumes "ibss_check HZ j seq frag mac es = Some (False, es')" and "frag' = frag + 1" and "frag < 15"
  shows "\<exists>es''. ibss_check HZ j' seq frag' mac es' = Some (False, es'')"
  using assms(1)
proof (induction es arbitrary: es')
  case (Cons e es)
  show ?case
  proof (cases "sq_mac e = mac")
    case True
    then obtain e' where e': "seq_check HZ j seq frag e = (False, e')" "es' = e' # es"
      using Cons.prems by (auto split: prod.splits)
    have "sq_mac e' = mac" using e'(1) True by (auto simp: seq_check_def split: if_splits)
    then show ?thesis using seq_check_next [OF e'(1) assms(2,3), of j'] e'(2) by auto
  next
    case False
    then obtain b where b: "ibss_check HZ j seq frag mac es = Some (False, b)" "es' = e # b"
      using Cons.prems by (auto split: prod.splits)
    obtain es'' where "ibss_check HZ j' seq frag' mac b = Some (False, es'')" using Cons.IH [OF b(1)] by blast
    then show ?thesis using False b(2) by simp
  qed
qed simp

lemma ibss_check_None: "ibss_check HZ j seq frag mac es = None \<longleftrightarrow> mac \<notin> sq_mac ` set es"
  by (induction es) (auto split: prod.split)

lemma duplicate_next:
  assumes d: "is_duplicate_packet HZ j al mode hdr ds = Some (False, ds1)" and l: "length (ds_ibss ds) = 31"
    and sc: "hdr_seq_ctl hdr = Some sc" "hdr_seq_ctl hdr' = Some sc'" "WLAN_GET_SEQ_SEQ sc' = WLAN_GET_SEQ_SEQ sc"
      "WLAN_GET_SEQ_FRAG sc' = WLAN_GET_SEQ_FRAG sc + 1" "WLAN_GET_SEQ_FRAG sc < 15"
    and a: "hdr_addr2 hdr = Some mac" "hdr_addr2 hdr' = Some mac"
  shows "\<exists>ds2. is_duplicate_packet HZ j' al mode hdr' ds1 = Some (False, ds2) \<and> length (ds_ibss ds1) = 31"
proof (cases mode)
  case IW_MODE_ADHOC
  let ?i = "unat (mac ! 5) mod 31"
  have i: "?i < 31" by simp
  show ?thesis
  proof (cases "ibss_check HZ j (WLAN_GET_SEQ_SEQ sc) (WLAN_GET_SEQ_FRAG sc) mac (ds_ibss ds ! ?i)")
    case None
    show ?thesis
    proof (cases al)
      case True
      then have "ds1 = ds\<lparr>ds_ibss := (ds_ibss ds)[?i := \<lparr>sq_seq_num = WLAN_GET_SEQ_SEQ sc, sq_frag_num = WLAN_GET_SEQ_FRAG sc,
          sq_packet_time = j, sq_mac = mac\<rparr> # ds_ibss ds ! ?i]\<rparr>"
        using d IW_MODE_ADHOC sc a None by (simp add: is_duplicate_packet_def Let_def)
      moreover have "seq_check HZ j (WLAN_GET_SEQ_SEQ sc) (WLAN_GET_SEQ_FRAG sc) \<lparr>sq_seq_num = WLAN_GET_SEQ_SEQ sc + 1, sq_frag_num = 0,
          sq_packet_time = j, sq_mac = mac\<rparr> = (False, \<lparr>sq_seq_num = WLAN_GET_SEQ_SEQ sc, sq_frag_num = WLAN_GET_SEQ_FRAG sc,
          sq_packet_time = j, sq_mac = mac\<rparr>)" by (simp add: seq_check_def)
      from seq_check_next [OF this sc(4,5), of j'] obtain sq where
        "seq_check HZ j' (WLAN_GET_SEQ_SEQ sc) (WLAN_GET_SEQ_FRAG sc') \<lparr>sq_seq_num = WLAN_GET_SEQ_SEQ sc, sq_frag_num = WLAN_GET_SEQ_FRAG sc,
          sq_packet_time = j, sq_mac = mac\<rparr> = (False, sq)" by blast
      ultimately show ?thesis using IW_MODE_ADHOC sc(2,3) a i l by (simp add: is_duplicate_packet_def Let_def)
    next
      case False
      then have "ds1 = ds" using d IW_MODE_ADHOC sc a None by (simp add: is_duplicate_packet_def Let_def)
      moreover have "ibss_check HZ j' (WLAN_GET_SEQ_SEQ sc) (WLAN_GET_SEQ_FRAG sc') mac (ds_ibss ds ! ?i) = None"
        using None by (simp add: ibss_check_None)
      ultimately show ?thesis using IW_MODE_ADHOC sc(2,3) a False l by (simp add: is_duplicate_packet_def Let_def)
    qed
  next
    case (Some r)
    then obtain es' where r: "r = (False, es')" and ds1: "ds1 = ds\<lparr>ds_ibss := (ds_ibss ds)[?i := es']\<rparr>"
      using d IW_MODE_ADHOC sc a by (cases r) (simp add: is_duplicate_packet_def Let_def)
    obtain es'' where "ibss_check HZ j' (WLAN_GET_SEQ_SEQ sc) (WLAN_GET_SEQ_FRAG sc') mac es' = Some (False, es'')"
      using ibss_check_next [OF Some [unfolded r] sc(4,5)] by blast
    then show ?thesis using IW_MODE_ADHOC sc(2,3) a ds1 i l by (simp add: is_duplicate_packet_def Let_def)
  qed
next
  case IW_MODE_INFRA
  then obtain sq where "seq_check HZ j (WLAN_GET_SEQ_SEQ sc) (WLAN_GET_SEQ_FRAG sc) (ds_last ds) = (False, sq)"
    and ds1: "ds1 = ds\<lparr>ds_last := sq\<rparr>"
    using d sc by (auto simp: is_duplicate_packet_def Let_def split: prod.splits)
  from seq_check_next [OF this(1) sc(4,5), of j'] ds1 show ?thesis
    using IW_MODE_INFRA sc(2,3) l by (auto simp: is_duplicate_packet_def Let_def)
qed (use d sc l in \<open>auto simp: is_duplicate_packet_def Let_def\<close>)

section \<open>Receiving the fragments\<close>

text \<open>The receiver with the outcomes of the frames of a list, each with its arrival time.\<close>

fun rx_run :: "u64 \<Rightarrow> (u64 \<times> sk_buff) list \<Rightarrow> 'p rx_device \<Rightarrow> (rx_outcome list \<times> 'p rx_device) option" where
  "rx_run HZ [] dev = Some ([], dev)"
| "rx_run HZ ((j, skb) # xs) dev = do {
     (r, dev) \<leftarrow> ieee80211_rx HZ j True True dev skb;
     (rs, dev) \<leftarrow> rx_run HZ xs dev;
     Some (r # rs, dev)
   }"

definition rx_plain_ok :: "bytes \<Rightarrow> 'p rx_device \<Rightarrow> bool" where
  "rx_plain_ok bssid dev \<longleftrightarrow> rd_iw_mode dev \<noteq> IW_MODE_MONITOR \<and> rd_bssid dev = bssid \<and>
     (rd_open_wep dev \<or> \<not> rd_host_decrypt dev) \<and> length (ds_ibss (rd_dup dev)) = 31"

lemma rx_msdu_plain:
  assumes "skb_data skb = hdr @ body" and "14 \<le> length hdr" and "length dst = 6" and "length src = 6" and "8 \<le> length body"
    and "fc AND FCTL_WEP = 0" and "crypt = None \<or> rd_open_wep dev"
  shows "\<exists>skb' dev'. rx_msdu dropped j fc (length hdr) crypt k dst src dev skb = Some (Rx_Delivered skb', dev') \<and>
    skb_data skb' = ethernet_frame dst src body"
proof -
  obtain skb' where "rx_to_8023 (length hdr) dst src skb = Some skb'" "skb_data skb' = ethernet_frame dst src body"
    using rx_to_8023_spec [OF assms(1-4)] assms(5) by auto
  then show ?thesis using assms(6,7) by (auto simp: rx_msdu_def)
qed

lemma rx_fragment_step:
  assumes h: "data_header fc sc dst src bssid hdr" and d: "skb_data skb = hdr @ body"
    and fc: "fc AND FCTL_WEP = 0" "fc AND FCTL_MOREFRAGS \<noteq> 0 \<or> WLAN_GET_SEQ_FRAG sc \<noteq> 0"
    and ok: "rx_plain_ok bssid dev" and nd: "is_duplicate_packet HZ j True (rd_iw_mode dev) hdr (rd_dup dev) = Some (False, ds)"
    and room: "4 \<le> skb_tailroom skb"
    and df: "rx_defrag HZ j (rd_mtu dev) True (WLAN_GET_SEQ_FRAG sc) fc (length hdr) skb (rd_frag dev) = Some (r, fs)"
  shows "\<exists>crypt. (crypt = None \<or> rd_open_wep dev) \<and> ieee80211_rx HZ j True True dev skb =
    (let dev' = dev\<lparr>rd_dup := ds, rd_last_rx := j, rd_frag := fs\<rparr> in case r of
       Frag_Dropped \<Rightarrow> Some (Rx_Dropped, rx_drop dev')
     | Frag_Kept \<Rightarrow> Some (Rx_Kept, dev')
     | Frag_Complete skb \<Rightarrow> rx_msdu Rx_Dropped_Freed j fc (length hdr) crypt 0 dst src dev' skb)"
proof -
  obtain crypt where c: "rx_crypt_slot dev (length hdr) skb = Some crypt" using rx_crypt_slot_total [OF room] by blast
  have k: "crypt = None \<or> rd_open_wep dev" using c ok by (auto simp: rx_crypt_slot_def rx_plain_ok_def)
  have "ieee80211_rx HZ j True True dev skb =
     rx_data HZ j True fc (WLAN_GET_SEQ_FRAG sc) (length hdr) crypt dst src bssid (dev\<lparr>rd_dup := ds\<rparr>) skb"
    using ok by (intro rx_data_frame [OF h d _ _ nd c]) (use fc in \<open>auto simp: rx_plain_ok_def\<close>)
  moreover have "WLAN_FC_GET_STYPE fc = 0" using h by (simp add: data_header_def)
  moreover have "rx_defrag HZ j (rd_mtu (dev\<lparr>rd_dup := ds, rd_last_rx := j\<rparr>)) True (WLAN_GET_SEQ_FRAG sc) fc (length hdr) skb
      (rd_frag (dev\<lparr>rd_dup := ds, rd_last_rx := j\<rparr>)) = Some (r, fs)" using df by simp
  ultimately show ?thesis
    using k fc ok by (intro exI [of _ crypt]) (auto simp: rx_data_def rx_plain_ok_def Let_def split: defrag_result.split)
qed

lemma rx_plain_ok_update:
  "\<lbrakk>rx_plain_ok bssid dev; length (ds_ibss ds) = 31\<rbrakk> \<Longrightarrow> rx_plain_ok bssid (dev\<lparr>rd_dup := ds, rd_last_rx := j, rd_frag := fs\<rparr>)"
  by (simp add: rx_plain_ok_def)

text \<open>The key a fragment is filed under: its first address is the receiver's.\<close>

definition tx_dst1 :: "'p tx_device \<Rightarrow> bytes \<Rightarrow> bytes" where
  "tx_dst1 dev dest = (if td_iw_mode dev = IW_MODE_INFRA then td_bssid dev else dest)"

lemma tx_frag_of:
  assumes "td_iw_mode dev = IW_MODE_ADHOC \<or> td_iw_mode dev = IW_MODE_INFRA"
    and "length dest = 6" "length src = 6" "length (td_bssid dev) = 6" and "k < 16"
  shows "frag_of (push_bit 4 (td_seq_ctrl dev)) src (tx_dst1 dev dest) k (tx_frag_header dev e dest src n k @ body)"
proof -
  note h = tx_frag_data_header [OF assms(1-4), of e n k]
  have "hdr_seq_ctl (tx_frag_header dev e dest src n k) = Some (tx_seq_control dev k)" using h(1) by (simp add: data_header_def)
  then show ?thesis
    using h(2,3) frag_number [OF assms(5), of "td_seq_ctrl dev"] unfolding frag_of_def tx_dst1_def tx_seq_control_def
    by (auto intro: hdr_fields_prefix)
qed

text \<open>The fragments of one frame on the air: what was sent, in buffers with some room, in time.\<close>

definition air_train :: "'p tx_device \<Rightarrow> bytes \<Rightarrow> bytes \<Rightarrow> bytes list \<Rightarrow> u64 \<Rightarrow> (nat \<Rightarrow> u64) \<Rightarrow> (nat \<Rightarrow> sk_buff) \<Rightarrow> bool" where
  "air_train tdev dest src cs HZ j rcv \<longleftrightarrow> (\<forall>k < length cs.
     skb_data (rcv k) = tx_frag_header tdev False dest src (length cs) k @ cs ! k \<and>
     4 \<le> skb_tailroom (rcv k) \<and> \<not> time_after (j k) (j 0 + 2 * HZ))"

lemma word_of_nat_nz: "\<lbrakk>0 < k; k < 16\<rbrakk> \<Longrightarrow> (word_of_nat k :: u16) \<noteq> 0"
  by (rule frag_word_nz)

lemma link_rest:
  assumes m: "td_iw_mode tdev = IW_MODE_ADHOC \<or> td_iw_mode tdev = IW_MODE_INFRA"
    and l: "length dest = 6" "length src = 6" "length (td_bssid tdev) = 6" and n: "length cs \<le> 16"
    and air: "air_train tdev dest src cs HZ j rcv"
    and i: "Suc i < length cs"
    and hold: "frag_holds idx (j 0) (push_bit 4 (td_seq_ctrl tdev)) src (tx_dst1 tdev dest) i skb (rd_frag dev)"
    and room: "length (concat (drop (Suc i) cs)) \<le> skb_tailroom skb"
    and skb: "skb_data skb = tx_frag_header tdev False dest src (length cs) 0 @ body0" "8 \<le> length body0"
    and ok: "rx_plain_ok (td_bssid tdev) dev"
    and dup: "is_duplicate_packet HZ (j (Suc i)) True (rd_iw_mode dev)
      (tx_frag_header tdev False dest src (length cs) (Suc i)) (rd_dup dev) = Some (False, ds)"
  shows "\<exists>skb' dev'. rx_run HZ (map (\<lambda>k. (j k, rcv k)) [Suc i..<length cs]) dev =
      Some (replicate (length cs - 2 - i) Rx_Kept @ [Rx_Delivered skb'], dev') \<and>
    skb_data skb' = ethernet_frame dest src (body0 @ concat (drop (Suc i) cs))"
  using i hold room skb ok dup
proof (induction "length cs - i" arbitrary: i skb dev body0 ds rule: less_induct)
  case less
  let ?n = "length cs" and ?seq = "push_bit 4 (td_seq_ctrl tdev)"
  let ?hdr = "\<lambda>k. tx_frag_header tdev False dest src ?n k" and ?fc = "\<lambda>k. tx_frag_control tdev False ?n k"
  let ?sc = "\<lambda>k. tx_seq_control tdev k"
  note h = tx_frag_data_header [OF m l, of False ?n]
  have a: "skb_data (rcv (Suc i)) = ?hdr (Suc i) @ cs ! Suc i" "4 \<le> skb_tailroom (rcv (Suc i))"
    "\<not> time_after (j (Suc i)) (j 0 + 2 * HZ)"
    using air less.prems(1) by (auto simp: air_train_def)
  have i16: "Suc i < 16" using less.prems(1) n by simp
  have fr: "WLAN_GET_SEQ_FRAG (?sc k) = word_of_nat k" "WLAN_GET_SEQ_SEQ (?sc k) = ?seq" if "k < 16" for k
    using frag_number [OF that, of "td_seq_ctrl tdev"] by (simp_all add: tx_seq_control_def)
  have c: "concat (drop (Suc i) cs) = cs ! Suc i @ concat (drop (Suc (Suc i)) cs)"
    using less.prems(1) by (metis Cons_nth_drop_Suc concat.simps(2))
  have len: "skb_len (rcv (Suc i)) - 24 = length (cs ! Suc i)" "24 \<le> skb_len (rcv (Suc i))" "drop 24 (skb_data (rcv (Suc i))) = cs ! Suc i"
    using a(1) h(4) by (simp_all add: skb_len_def)
  have f: "frag_of ?seq src (tx_dst1 tdev dest) (Suc i) (skb_data (rcv (Suc i)))"
    unfolding a(1) by (rule tx_frag_of [OF m l i16])
  have f0: "frag_of ?seq src (tx_dst1 tdev dest) 0 (skb_data skb)"
    unfolding less.prems(4) by (rule tx_frag_of [OF m l]) simp
  have room1: "skb_len (rcv (Suc i)) - 24 \<le> skb_tailroom skb" using less.prems(3) unfolding c len by simp
  obtain fs' skb1 where df: "rx_defrag HZ (j (Suc i)) (rd_mtu dev) True (word_of_nat (Suc i)) (?fc (Suc i)) 24 (rcv (Suc i)) (rd_frag dev) =
      Some (if ?fc (Suc i) AND FCTL_MOREFRAGS \<noteq> 0 then Frag_Kept else Frag_Complete skb1, fs')"
    and d1: "skb_data skb1 = skb_data skb @ cs ! Suc i"
    and r1: "skb_tailroom skb1 + length (cs ! Suc i) = skb_tailroom skb"
    and h1: "?fc (Suc i) AND FCTL_MOREFRAGS \<noteq> 0 \<Longrightarrow> frag_holds idx (j 0) ?seq src (tx_dst1 tdev dest) (Suc i) skb1 fs'"
    using rx_defrag_next [OF less.prems(2) a(3) i16 f len(2) room1 f0, where mtu = "rd_mtu dev" and ok = True and fc = "?fc (Suc i)"]
    unfolding len by (metis (no_types, lifting))
  have df': "rx_defrag HZ (j (Suc i)) (rd_mtu dev) True (WLAN_GET_SEQ_FRAG (?sc (Suc i))) (?fc (Suc i)) (length (?hdr (Suc i)))
      (rcv (Suc i)) (rd_frag dev) = Some (if ?fc (Suc i) AND FCTL_MOREFRAGS \<noteq> 0 then Frag_Kept else Frag_Complete skb1, fs')"
    using df unfolding fr(1) [OF i16] h(4) .
  have wep: "?fc (Suc i) AND FCTL_WEP = 0" using tx_frag_control_bits(2) [of tdev False ?n "Suc i"] by simp
  have nz: "?fc (Suc i) AND FCTL_MOREFRAGS \<noteq> 0 \<or> WLAN_GET_SEQ_FRAG (?sc (Suc i)) \<noteq> 0"
    using word_of_nat_nz [of "Suc i"] i16 fr(1) [OF i16] by (metis zero_less_Suc)
  obtain crypt where cr: "crypt = None \<or> rd_open_wep dev"
    and step: "ieee80211_rx HZ (j (Suc i)) True True dev (rcv (Suc i)) =
    (let dev' = dev\<lparr>rd_dup := ds, rd_last_rx := j (Suc i), rd_frag := fs'\<rparr>
     in case (if ?fc (Suc i) AND FCTL_MOREFRAGS \<noteq> 0 then Frag_Kept else Frag_Complete skb1) of
       Frag_Dropped \<Rightarrow> Some (Rx_Dropped, rx_drop dev')
     | Frag_Kept \<Rightarrow> Some (Rx_Kept, dev')
     | Frag_Complete skb \<Rightarrow> rx_msdu Rx_Dropped_Freed (j (Suc i)) (?fc (Suc i)) (length (?hdr (Suc i))) crypt 0 dest src dev' skb)"
    using rx_fragment_step [OF h(1) a(1) wep nz less.prems(6,7) a(2) df'] by blast
  let ?dev = "dev\<lparr>rd_dup := ds, rd_last_rx := j (Suc i), rd_frag := fs'\<rparr>"
  show ?case
  proof (cases "Suc (Suc i) < ?n")
    case False
    then have e: "Suc (Suc i) = ?n" using less.prems(1) by simp
    have more: "\<not> ?fc (Suc i) AND FCTL_MOREFRAGS \<noteq> 0" using tx_frag_control_bits(1) [of tdev False ?n "Suc i"] e by simp
    have b: "skb_data skb1 = ?hdr 0 @ (body0 @ cs ! Suc i)" using d1 less.prems(4) by simp
    obtain skb' dev' where "rx_msdu Rx_Dropped_Freed (j (Suc i)) (?fc (Suc i)) (length (?hdr 0)) crypt 0 dest src ?dev skb1 =
        Some (Rx_Delivered skb', dev')" "skb_data skb' = ethernet_frame dest src (body0 @ cs ! Suc i)"
      using rx_msdu_plain [OF b _ l(1,2) _ wep, of crypt ?dev Rx_Dropped_Freed "j (Suc i)" 0] cr h(4) less.prems(5) by auto
    moreover have "[Suc i..<?n] = [Suc i]" unfolding e [symmetric] by simp
    moreover have "drop (Suc (Suc i)) cs = []" using e by simp
    moreover have "?n - 2 - i = 0" using e by simp
    ultimately show ?thesis using step more h(4) unfolding c by (simp add: Let_def)
  next
    case True
    have more: "?fc (Suc i) AND FCTL_MOREFRAGS \<noteq> 0" using tx_frag_control_bits(1) [of tdev False ?n "Suc i"] True by simp
    have sc: "hdr_seq_ctl (?hdr k) = Some (?sc k)" for k using h(1) [of k] by (simp add: data_header_def)
    have s16: "Suc (Suc i) < 16" using True n by simp
    have "WLAN_GET_SEQ_FRAG (?sc (Suc (Suc i))) = WLAN_GET_SEQ_FRAG (?sc (Suc i)) + 1" unfolding fr(1) [OF s16] fr(1) [OF i16] by simp
    moreover have "WLAN_GET_SEQ_FRAG (?sc (Suc i)) < 15"
      unfolding fr(1) [OF i16] using s16 by (simp add: word_less_nat_alt unat_of_nat del: of_nat_Suc)
    moreover have "length (ds_ibss (rd_dup dev)) = 31" using less.prems(6) by (simp add: rx_plain_ok_def)
    ultimately obtain ds2 where ds2: "is_duplicate_packet HZ (j (Suc (Suc i))) True (rd_iw_mode dev) (?hdr (Suc (Suc i))) ds = Some (False, ds2)"
      and l31: "length (ds_ibss ds) = 31"
      using duplicate_next [OF less.prems(7) _ sc sc _ _ _ h(2) h(2)] fr(2) [OF s16] fr(2) [OF i16] by (metis (no_types, lifting))
    have st: "ieee80211_rx HZ (j (Suc i)) True True dev (rcv (Suc i)) = Some (Rx_Kept, ?dev)" using step more by (simp add: Let_def)
    have "\<exists>skb' dev'. rx_run HZ (map (\<lambda>k. (j k, rcv k)) [Suc (Suc i)..<?n]) ?dev =
        Some (replicate (?n - 2 - Suc i) Rx_Kept @ [Rx_Delivered skb'], dev') \<and>
      skb_data skb' = ethernet_frame dest src ((body0 @ cs ! Suc i) @ concat (drop (Suc (Suc i)) cs))"
    proof (rule less.hyps)
      show "length cs - Suc i < length cs - i" using less.prems(1) by simp
      show "frag_holds idx (j 0) ?seq src (tx_dst1 tdev dest) (Suc i) skb1 (rd_frag ?dev)" using h1 [OF more] by simp
      show "length (concat (drop (Suc (Suc i)) cs)) \<le> skb_tailroom skb1" using less.prems(3) r1 unfolding c by simp
      show "skb_data skb1 = ?hdr 0 @ (body0 @ cs ! Suc i)" using d1 less.prems(4) by simp
      show "rx_plain_ok (td_bssid tdev) ?dev" by (rule rx_plain_ok_update [OF less.prems(6) l31])
      show "is_duplicate_packet HZ (j (Suc (Suc i))) True (rd_iw_mode ?dev) (?hdr (Suc (Suc i))) (rd_dup ?dev) = Some (False, ds2)"
        using ds2 by simp
    qed (use True less.prems(5) in simp_all)
    moreover have "[Suc i..<?n] = Suc i # [Suc (Suc i)..<?n]" using less.prems(1) by (simp add: upt_rec)
    moreover have "?n - 2 - i = Suc (?n - 2 - Suc i)" using True by simp
    ultimately show ?thesis using st unfolding c by auto
  qed
qed

text \<open>The receiver has not seen a frame with this sequence number from this station lately.\<close>

definition rx_unseen :: "u64 \<Rightarrow> u64 \<Rightarrow> u16 \<Rightarrow> bytes \<Rightarrow> 'p rx_device \<Rightarrow> bool" where
  "rx_unseen HZ j seq src dev \<longleftrightarrow>
     (\<forall>hdr. hdr_seq_ctl hdr = Some (push_bit 4 seq) \<and> hdr_addr2 hdr = Some src \<longrightarrow>
        (\<exists>ds. is_duplicate_packet HZ j True (rd_iw_mode dev) hdr (rd_dup dev) = Some (False, ds))) \<and>
     fs_next_idx (rd_frag dev) < length (fs_cache (rd_frag dev)) \<and>
     (\<forall>n < length (fs_cache (rd_frag dev)). n \<noteq> fs_next_idx (rd_frag dev) \<longrightarrow> fe_skb (fs_cache (rd_frag dev) ! n) = None \<or>
        fe_src_addr (fs_cache (rd_frag dev) ! n) \<noteq> src)"

lemma link_train:
  assumes m: "td_iw_mode tdev = IW_MODE_ADHOC \<or> td_iw_mode tdev = IW_MODE_INFRA"
    and l: "length dest = 6" "length src = 6" "length (td_bssid tdev) = 6" and n: "length cs \<le> 16" "cs \<noteq> []"
    and air: "air_train tdev dest src cs HZ j rcv"
    and eight: "8 \<le> length (cs ! 0)" and mtu: "length (concat cs) \<le> rd_mtu dev + 30"
    and ok: "rx_plain_ok (td_bssid tdev) dev" and unseen: "rx_unseen HZ (j 0) (td_seq_ctrl tdev) src dev"
  shows "\<exists>skb' dev'. rx_run HZ (map (\<lambda>k. (j k, rcv k)) [0..<length cs]) dev =
      Some (replicate (length cs - 1) Rx_Kept @ [Rx_Delivered skb'], dev') \<and>
    skb_data skb' = ethernet_frame dest src (concat cs)"
proof -
  let ?n = "length cs" and ?seq = "push_bit 4 (td_seq_ctrl tdev)"
  let ?hdr = "\<lambda>k. tx_frag_header tdev False dest src ?n k" and ?fc = "\<lambda>k. tx_frag_control tdev False ?n k"
  let ?sc = "\<lambda>k. tx_seq_control tdev k"
  note h = tx_frag_data_header [OF m l, of False ?n]
  have n0: "0 < ?n" using n by simp
  have a: "skb_data (rcv 0) = ?hdr 0 @ cs ! 0" "4 \<le> skb_tailroom (rcv 0)"
    using air n0 by (auto simp: air_train_def)
  have sc: "hdr_seq_ctl (?hdr k) = Some (?sc k)" for k using h(1) [of k] by (simp add: data_header_def)
  have fr: "WLAN_GET_SEQ_FRAG (?sc k) = word_of_nat k" "WLAN_GET_SEQ_SEQ (?sc k) = ?seq" if "k < 16" for k
    using frag_number [OF that, of "td_seq_ctrl tdev"] by (simp_all add: tx_seq_control_def)
  have s0: "?sc 0 = push_bit 4 (td_seq_ctrl tdev)" by (simp add: tx_seq_control_def)
  have f0: "WLAN_GET_SEQ_FRAG (?sc 0) = 0" using fr(1) [of 0] by simp
  obtain ds where ds: "is_duplicate_packet HZ (j 0) True (rd_iw_mode dev) (?hdr 0) (rd_dup dev) = Some (False, ds)"
    using unseen sc [of 0] h(2) [of 0] unfolding rx_unseen_def s0 by blast
  have wep: "?fc 0 AND FCTL_WEP = 0" using tx_frag_control_bits(2) [of tdev False ?n 0] by simp
  have c: "concat cs = cs ! 0 @ concat (drop (Suc 0) cs)"
    using n0 by (metis Cons_nth_drop_Suc concat.simps(2) drop0)
  show ?thesis
  proof (cases "1 < ?n")
    case False
    then have one: "?n = 1" using n0 by linarith
    then have more: "?fc 0 AND FCTL_MOREFRAGS = 0" using tx_frag_control_bits(1) [of tdev False ?n 0] by simp
    obtain crypt where cr: "rx_crypt_slot dev (length (?hdr 0)) (rcv 0) = Some crypt" using rx_crypt_slot_total [OF a(2)] by blast
    have k: "crypt = None \<or> rd_open_wep dev" using cr ok by (auto simp: rx_crypt_slot_def rx_plain_ok_def)
    have room: "8 \<le> length (cs ! 0) + skb_tailroom (rcv 0)" using eight by simp
    have "rd_iw_mode dev \<noteq> IW_MODE_MONITOR" "rd_bssid dev = td_bssid tdev" using ok by (simp_all add: rx_plain_ok_def)
    from rx_delivers_unencrypted [OF h(1) a(1) wep more f0 this ds cr k room, of True]
    obtain skb' dev' where "ieee80211_rx HZ (j 0) True True dev (rcv 0) = Some (Rx_Delivered skb', dev')"
      "skb_data skb' = ethernet_frame dest src (cs ! 0)" by blast
    moreover have "drop (Suc 0) cs = []" using one by simp
    ultimately show ?thesis unfolding c one by simp
  next
    case True
    have more: "?fc 0 AND FCTL_MOREFRAGS \<noteq> 0" using tx_frag_control_bits(1) [of tdev False ?n 0] True by simp
    have f: "frag_of ?seq src (tx_dst1 tdev dest) 0 (skb_data (rcv 0))"
      unfolding a(1) by (rule tx_frag_of [OF m l]) simp
    have len: "skb_len (rcv 0) = 24 + length (cs ! 0)" using a(1) h(4) by (simp add: skb_len_def)
    have fit: "skb_len (rcv 0) \<le> rd_mtu dev + 54" using mtu len unfolding c by simp
    have uniq: "\<forall>n < length (fs_cache (rd_frag dev)). n \<noteq> fs_next_idx (rd_frag dev) \<longrightarrow> fe_skb (fs_cache (rd_frag dev) ! n) = None \<or>
        (fe_seq (fs_cache (rd_frag dev) ! n), fe_src_addr (fs_cache (rd_frag dev) ! n), fe_dst_addr (fs_cache (rd_frag dev) ! n)) \<noteq>
          (ucast ?seq, src, tx_dst1 tdev dest)"
      and nx: "fs_next_idx (rd_frag dev) < length (fs_cache (rd_frag dev))"
      using unseen unfolding rx_unseen_def by blast+
    obtain fs' skb1 where df: "rx_defrag HZ (j 0) (rd_mtu dev) True 0 (?fc 0) 24 (rcv 0) (rd_frag dev) = Some (Frag_Kept, fs')"
      and hold: "frag_holds (fs_next_idx (rd_frag dev)) (j 0) ?seq src (tx_dst1 tdev dest) 0 skb1 fs'"
      and d1: "skb_data skb1 = skb_data (rcv 0)" "skb_tailroom skb1 + skb_len (rcv 0) = rd_mtu dev + 54"
      using rx_defrag_first [OF f nx fit more uniq, of HZ "j 0" 24] by blast
    have df': "rx_defrag HZ (j 0) (rd_mtu dev) True (WLAN_GET_SEQ_FRAG (?sc 0)) (?fc 0) (length (?hdr 0)) (rcv 0) (rd_frag dev) =
        Some (Frag_Kept, fs')" using df unfolding f0 h(4) .
    let ?dev = "dev\<lparr>rd_dup := ds, rd_last_rx := j 0, rd_frag := fs'\<rparr>"
    have st: "ieee80211_rx HZ (j 0) True True dev (rcv 0) = Some (Rx_Kept, ?dev)"
      using rx_fragment_step [OF h(1) a(1) wep disjI1 [OF more] ok ds a(2) df'] by (auto simp: Let_def)
    have "WLAN_GET_SEQ_FRAG (?sc (Suc 0)) = WLAN_GET_SEQ_FRAG (?sc 0) + 1" "WLAN_GET_SEQ_FRAG (?sc 0) < 15"
      unfolding f0 using fr(1) [of "Suc 0"] by simp_all
    moreover have "length (ds_ibss (rd_dup dev)) = 31" using ok by (simp add: rx_plain_ok_def)
    moreover have "WLAN_GET_SEQ_SEQ (?sc (Suc 0)) = WLAN_GET_SEQ_SEQ (?sc 0)" using fr(2) [of "Suc 0"] fr(2) [of 0] by simp
    ultimately obtain ds2 where ds2: "is_duplicate_packet HZ (j (Suc 0)) True (rd_iw_mode dev) (?hdr (Suc 0)) ds = Some (False, ds2)"
      and l31: "length (ds_ibss ds) = 31"
      using duplicate_next [OF ds _ sc sc _ _ _ h(2) h(2)] by (metis (no_types, lifting))
    have "\<exists>skb' dev'. rx_run HZ (map (\<lambda>k. (j k, rcv k)) [Suc 0..<?n]) ?dev =
        Some (replicate (?n - 2 - 0) Rx_Kept @ [Rx_Delivered skb'], dev') \<and>
      skb_data skb' = ethernet_frame dest src (cs ! 0 @ concat (drop (Suc 0) cs))"
    proof (rule link_rest [OF m l n(1) air])
      show "frag_holds (fs_next_idx (rd_frag dev)) (j 0) ?seq src (tx_dst1 tdev dest) 0 skb1 (rd_frag ?dev)" using hold by simp
      show "length (concat (drop (Suc 0) cs)) \<le> skb_tailroom skb1" using d1(2) mtu len unfolding c by simp
      show "rx_plain_ok (td_bssid tdev) ?dev" by (rule rx_plain_ok_update [OF ok l31])
      show "is_duplicate_packet HZ (j (Suc 0)) True (rd_iw_mode ?dev) (?hdr (Suc 0)) (rd_dup ?dev) = Some (False, ds2)" using ds2 by simp
    qed (use True a d1 eight in simp_all)
    moreover have "[0..<?n] = 0 # [Suc 0..<?n]" using n0 by (simp add: upt_rec)
    moreover have "?n - 1 = Suc (?n - 2 - 0)" using True by simp
    ultimately show ?thesis using st unfolding c by auto
  qed
qed

section \<open>Properties\<close>

text \<open>C2: The link.  Any Ethernet frame of at most 1500 bytes that the transmit function is given, with
  any fragmentation threshold the configuration accepts, comes out of the receive function of the
  other station byte for byte: it is cut into at most eight fragments, every fragment but the last
  is kept by the receiver, and the last one delivers the original frame.  This holds between two
  ad hoc stations and from a station to an access point, when no key is used, the receiver does
  not insist on encryption and has not seen the sequence number, and the fragments arrive in order and
  within two seconds.\<close>

theorem xmit_rx_link:
  assumes A: "tx_ready et tdev" "\<not> tx_use_key et tdev" "td_iw_mode tdev = IW_MODE_ADHOC \<or> td_iw_mode tdev = IW_MODE_INFRA"
    and frame: "length dest = 6" "length src = 6" "skb_data skb = eth_frame dest src et payload" "length payload \<le> 1500"
    and B: "rx_plain_ok (td_bssid tdev) rdev" "rx_unseen HZ (j 0) (td_seq_ctrl tdev) src rdev" "1500 \<le> rd_mtu rdev"
  shows "\<exists>txb tdev'. ieee80211_xmit hw k s tdev skb = Some (Tx_Softmac txb, tdev') \<and>
    unat (tb_nr_frags txb) \<le> 8 \<and> tx_wf tdev' \<and>
    (\<forall>rcv. (\<forall>k < unat (tb_nr_frags txb). skb_data (rcv k) = skb_data (tb_fragments txb ! k) \<and>
        4 \<le> skb_tailroom (rcv k) \<and> \<not> time_after (j k) (j 0 + 2 * HZ)) \<longrightarrow>
      (\<exists>skb' rdev'. rx_run HZ (map (\<lambda>k. (j k, rcv k)) [0..<unat (tb_nr_frags txb)]) rdev =
          Some (replicate (unat (tb_nr_frags txb) - 1) Rx_Kept @ [Rx_Delivered skb'], rdev') \<and> skb_data skb' = skb_data skb))"
proof -
  let ?b = "unat (tx_frag_size tdev dest) - 24" and ?xs = "ieee80211_put_snap et @ payload"
  let ?cs = "chunks ?b ?xs"
  have b: "0 < ?b" "232 \<le> ?b" using A(1) by (auto simp: tx_frag_size_def tx_ready_def)
  have ne: "?xs \<noteq> []" by (auto simp: ieee80211_put_snap_def)
  have c0: "?cs \<noteq> []" "8 \<le> length (?cs ! 0)" unfolding chunks_Cons [OF b(1) ne] using b(2) by simp_all
  have bssid: "length (td_bssid tdev) = 6" using A(1) by (simp add: tx_ready_def tx_wf_def)
  obtain txb tdev' where x: "ieee80211_xmit hw k s tdev skb = Some (Tx_Softmac txb, tdev')" "unat (tb_nr_frags txb) = length ?cs"
    "length ?cs \<le> 8" "tx_wf tdev'"
    and d: "\<forall>k < length ?cs. skb_data (tb_fragments txb ! k) = tx_frag_header tdev False dest src (length ?cs) k @ ?cs ! k"
    using xmit_plain [OF A(1,2) frame refl, of hw k s] by blast
  have "\<exists>skb' rdev'. rx_run HZ (map (\<lambda>k. (j k, rcv k)) [0..<unat (tb_nr_frags txb)]) rdev =
      Some (replicate (unat (tb_nr_frags txb) - 1) Rx_Kept @ [Rx_Delivered skb'], rdev') \<and> skb_data skb' = skb_data skb"
    if r: "\<forall>k < unat (tb_nr_frags txb). skb_data (rcv k) = skb_data (tb_fragments txb ! k) \<and>
        4 \<le> skb_tailroom (rcv k) \<and> \<not> time_after (j k) (j 0 + 2 * HZ)" for rcv
  proof -
    have "air_train tdev dest src ?cs HZ j rcv" using r d x(2) by (simp add: air_train_def)
    moreover have "length ?cs \<le> 16" using x(3) by simp
    moreover have "length (concat ?cs) \<le> rd_mtu rdev + 30" using concat_chunks [OF b(1), of ?xs] frame(4) B(3) by simp
    ultimately show ?thesis
      using link_train [where j = j, OF A(3) frame(1,2) bssid _ c0(1) _ c0(2) _ B(1,2)] frame(3) x(2)
      unfolding concat_chunks [OF b(1), of ?xs] ethernet_frame_snap by simp
  qed
  then show ?thesis using x by (intro exI [of _ txb] exI [of _ tdev']) simp
qed


text \<open>Station 2 of the ad hoc network 3, without keys, with the smallest threshold.\<close>

definition tx_example :: "(prism2_wep_data crypto_ops option \<times> prism2_wep_data) option list \<Rightarrow> prism2_wep_data tx_device" where
  "tx_example slots = \<lparr>td_iw_mode = IW_MODE_ADHOC, td_bssid = [3, 3, 3, 3, 3, 3], td_ieee802_1x = True, td_host_encrypt = True,
     td_drop_unencrypted = False, td_raw_tx = False, td_tx_queue = True, td_hard_start_xmit = False,
     td_softmac_data_hard_start_xmit = True, td_fcs = False, td_crypt = slots, td_tx_keyidx = 0, td_fts = 256, td_seq_ctrl = 5,
     td_alloc_txb = replicate 16 (ieee80211_alloc_txb True (replicate 8 True) 8 2346), td_tx_skb_index = 0,
     td_tx_pending_txb = 0, td_netif_stopped = False, td_tx_packets = 0, td_tx_bytes = 0, td_tx_dropped = 0, td_tx_errors = 0,
     td_tx_discards = 0\<rparr>"

lemma tx_example_ready:
  assumes "slots = replicate 4 None \<or> et \<noteq> 0x888E"
  shows "tx_ready et (tx_example slots)"
proof -
  have "ieee80211_alloc_txb True (replicate 8 True) 8 2346 \<noteq> None" by (simp add: ieee80211_alloc_txb_def list_all_iff)
  moreover have "tx_wf (tx_example slots)"
    using alloc_txb_wf [of True "replicate 8 True"] by (auto simp: tx_wf_def tx_example_def)
  ultimately show ?thesis by (simp add: tx_ready_def tx_example_def)
qed

definition tx_example_skb :: sk_buff where
  "tx_example_skb = \<lparr>skb_head = [], skb_data = eth_frame [1, 1, 1, 1, 1, 1] [2, 2, 2, 2, 2, 2] 0x0800 (replicate 400 7), skb_room = []\<rparr>"

definition rx_example_open :: "prism2_wep_data rx_device" where
  "rx_example_open = (rx_example (replicate 4 None))\<lparr>rd_open_wep := True\<rparr>"

lemma rx_example_open_unseen: "rx_unseen HZ j seq src rx_example_open"
proof -
  have "\<exists>ds. is_duplicate_packet HZ j True IW_MODE_ADHOC hdr dup_zero = Some (False, ds)"
    if "hdr_seq_ctl hdr = Some sc" "hdr_addr2 hdr = Some a" for hdr sc a
    using that by (simp add: is_duplicate_packet_def dup_zero_def Let_def nth_replicate)
  then show ?thesis
    by (auto simp: rx_unseen_def rx_example_open_def frag_cache_zero_def)
qed

theorem xmit_rx_link_witness:
  "\<exists>txb tdev' skb' rdev'. ieee80211_xmit True True [] (tx_example (replicate 4 None)) tx_example_skb = Some (Tx_Softmac txb, tdev') \<and>
    rx_run 100 (map (\<lambda>k. (7, \<lparr>skb_head = [], skb_data = skb_data (tb_fragments txb ! k), skb_room = replicate 4 0\<rparr>))
        [0..<unat (tb_nr_frags txb)]) rx_example_open =
      Some (replicate (unat (tb_nr_frags txb) - 1) Rx_Kept @ [Rx_Delivered skb'], rdev') \<and> skb_data skb' = skb_data tx_example_skb"
proof -
  have ready: "tx_ready 0x0800 (tx_example (replicate 4 None))" by (rule tx_example_ready) simp
  have key: "\<not> tx_use_key 0x0800 (tx_example (replicate 4 None))" by (simp add: tx_use_key_def tx_example_def)
  have ok: "rx_plain_ok (td_bssid (tx_example (replicate 4 None))) rx_example_open"
    by (simp add: rx_plain_ok_def rx_example_open_def tx_example_def dup_zero_def)
  have bssid: "td_iw_mode (tx_example (replicate 4 None)) = IW_MODE_ADHOC \<or> td_iw_mode (tx_example (replicate 4 None)) = IW_MODE_INFRA"
    by (simp add: tx_example_def)
  have mtu: "1500 \<le> rd_mtu rx_example_open" by (simp add: rx_example_open_def)
  have d: "skb_data tx_example_skb = eth_frame [1, 1, 1, 1, 1, 1] [2, 2, 2, 2, 2, 2] 0x0800 (replicate 400 7)"
    by (simp add: tx_example_skb_def)
  have t: "\<not> time_after 7 (7 + 2 * 100)" by (simp add: time_after_def)
  obtain txb tdev' where x: "ieee80211_xmit True True [] (tx_example (replicate 4 None)) tx_example_skb = Some (Tx_Softmac txb, tdev')"
    and r: "\<And>rcv. (\<forall>k < unat (tb_nr_frags txb). skb_data (rcv k) = skb_data (tb_fragments txb ! k) \<and>
        4 \<le> skb_tailroom (rcv k) \<and> \<not> time_after 7 (7 + 2 * 100)) \<longrightarrow>
      (\<exists>skb' rdev'. rx_run 100 (map (\<lambda>k. (7, rcv k)) [0..<unat (tb_nr_frags txb)]) rx_example_open =
          Some (replicate (unat (tb_nr_frags txb) - 1) Rx_Kept @ [Rx_Delivered skb'], rdev') \<and> skb_data skb' = skb_data tx_example_skb)"
    using xmit_rx_link [where j = "\<lambda>_. 7" and HZ = 100 and hw = True and k = True and s = "[]",
        OF ready key bssid _ _ d _ ok rx_example_open_unseen mtu] by auto
  show ?thesis
    using x r [of "\<lambda>k. \<lparr>skb_head = [], skb_data = skb_data (tb_fragments txb ! k), skb_room = replicate 4 0\<rparr>"] t
    by (auto simp: skb_tailroom_def)
qed

lemma chunks_one: "\<lbrakk>xs \<noteq> []; length xs \<le> n\<rbrakk> \<Longrightarrow> chunks n xs = [xs]"
  using chunks_Cons [of n xs] by (cases "n = 0") auto

text \<open>The one fragment of an encrypted frame, before and after the cipher.\<close>

lemma xmit_one_encrypted:
  assumes r: "tx_ready et dev" and use: "tx_use_key et dev"
    and slot: "td_crypt dev ! td_tx_keyidx dev = Some (Some ops, tx)"
    and d: "length dest = 6" "length src = 6" "skb_data skb = eth_frame dest src et payload"
    and fit: "int (length payload) + 8 \<le> tx_bytes_per_frag dev (tx_frag_size dev dest) True"
    and m: "td_iw_mode dev = IW_MODE_ADHOC \<or> td_iw_mode dev = IW_MODE_INFRA"
  shows "\<exists>f1. skb_data f1 = tx_frag_header dev True dest src 1 0 @ ieee80211_put_snap et @ payload \<and>
    co_extra_prefix_len ops \<le> skb_headroom f1 \<and> co_extra_postfix_len ops \<le> skb_tailroom f1 \<and>
    (\<forall>res skb1 tx'. crypt_seal ops f1 24 tx = Some (res, skb1, tx') \<longrightarrow>
      (\<exists>txb dev'. ieee80211_xmit hw k s dev skb = Some (Tx_Softmac txb, dev') \<and> tb_nr_frags txb = 1 \<and> tb_fragments txb ! 0 = skb1))"
proof -
  let ?fs = "tx_frag_size dev dest" and ?xs = "ieee80211_put_snap et @ payload" and ?hdr = "tx_frag_header dev True dest src 1 0"
  let ?pre = "co_extra_prefix_len ops" and ?post = "co_extra_postfix_len ops"
  have bssid: "length (td_bssid dev) = 6" using r by (simp add: tx_ready_def tx_wf_def)
  have fs: "unat ?fs \<le> 2346" using r by (simp add: tx_frag_size_def tx_ready_def)
  have nofcs: "\<not> td_fcs dev" using r by (simp add: tx_ready_def)
  define b where "b = nat (tx_bytes_per_frag dev ?fs True)"
  have b: "tx_bytes_per_frag dev ?fs True = int b" "0 < b" "length ?xs \<le> b" using fit by (simp_all add: b_def)
  have bf: "b + 24 + ?pre + ?post = unat ?fs"
  proof -
    have "int b = uint ?fs - 24 - (int ?pre + int ?post)" using b(1) nofcs slot by (simp add: tx_bytes_per_frag_def)
    then show ?thesis unfolding uint_nat by linarith
  qed
  have ne: "?xs \<noteq> []" by (auto simp: ieee80211_put_snap_def)
  have cs: "chunks b ?xs = [?xs]" by (rule chunks_one [OF ne b(3)])
  obtain tp where tp: "tx_make_plan dev True et dest src ?fs (int (length payload) + 8) = Some tp" "tp_wf tp" "tp_encrypt tp"
    "tp_ether_type tp = et" "tp_prefix_len tp = tx_prefix_len dev"
    and fc: "tp_fc tp = FTYPE_DATA OR (if True then FCTL_WEP else 0) OR (if td_iw_mode dev = IW_MODE_INFRA then FCTL_TODS else 0)"
    and addr: "(tp_addr1 tp, tp_addr2 tp, tp_addr3 tp) = tx_addresses (td_iw_mode dev) (td_bssid dev) dest src"
    and n: "tp_nr_frags tp = int (length (chunks b ?xs))"
    and lens: "\<forall>k < length (chunks b ?xs). int (length (chunks b ?xs ! k)) =
      (if int k \<noteq> tp_nr_frags tp - 1 then tp_bytes_per_frag tp else tp_bytes_last_frag tp)"
    using tx_make_plan_spec [OF b(1,2), of "int (length payload) + 8" ?xs dest src et] d bssid by auto
  have n1: "tp_nr_frags tp = int 1" using n unfolding cs by simp
  have len: "int (length ?xs) = (if int 0 \<noteq> tp_nr_frags tp - 1 then tp_bytes_per_frag tp else tp_bytes_last_frag tp)"
    using lens unfolding cs by simp
  have prefix: "tp_prefix tp = ?pre" using tp(3,5) slot by (simp add: tp_prefix_def tx_prefix_len_def)
  obtain txb where txb: "td_alloc_txb dev ! td_tx_skb_index dev = Some txb" using r by (auto simp: tx_ready_def)
  then have w: "txb_wf txb" using r by (metis nth_mem tx_ready_def tx_wf_def)
  let ?frags = "tx_reset_frags txb"
  have clean: "length ?frags = 8" "frag_clean (?frags ! 0)" using tx_reset_frags_clean [OF w] by simp_all
  have f: "skb_data (?frags ! 0) = []" "tp_prefix tp + 24 + length ?xs \<le> skb_tailroom (?frags ! 0)"
  proof -
    have "skb_tailroom (?frags ! 0) = 2346" using clean(2) by (simp add: frag_clean_def)
    then show "tp_prefix tp + 24 + length ?xs \<le> skb_tailroom (?frags ! 0)" using bf fs b(3) prefix by linarith
  qed (use clean(2) in \<open>simp add: frag_clean_def\<close>)
  have skb: "skb_data (skb_pull 14 skb) = payload @ []" using eth_frame_reads(5) [OF d] by simp
  have body: "?xs = (if 0 = (0 :: nat) then ieee80211_put_snap (tp_ether_type tp) else []) @ payload" using tp(4) by simp
  have hdr: "frag_header tp (td_seq_ctrl (tx_after dev)) 0 = ?hdr"
    using frag_header_eq [OF fc addr n1, of 0] by (simp add: tx_after_def)
  from xmit_frag_built [OF tp(2) f skb body len, of "tx_after dev", unfolded hdr prefix]
  obtain f1 where f1: "skb_data f1 = ?hdr @ ?xs" "?pre \<le> skb_headroom f1"
      "skb_tailroom f1 = skb_tailroom (?frags ! 0) - ?pre - 24 - length ?xs"
    and x: "xmit_frag tp 0 (?frags ! 0) (skb_pull 14 skb) (tx_after dev) = do {
      (_, f1, dev') \<leftarrow> (if tp_encrypt tp then ieee80211_encrypt_fragment (tx_after dev) f1 24 else Some (0, f1, tx_after dev));
      f1 \<leftarrow> (if td_fcs dev' then skb_put 4 f1 else Some f1);
      Some (f1, (skb_pull 14 skb)\<lparr>skb_head := skb_head (skb_pull 14 skb) @ payload, skb_data := []\<rparr>, dev') }"
    by (elim exE conjE) (rule that; assumption)
  have t0: "skb_tailroom (?frags ! 0) = 2346" using clean(2) by (simp add: frag_clean_def)
  have room: "?post \<le> skb_tailroom f1" using f1(3) [unfolded t0] bf fs b(3) by linarith
  have "\<exists>txb dev'. ieee80211_xmit hw k s dev skb = Some (Tx_Softmac txb, dev') \<and> tb_nr_frags txb = 1 \<and> tb_fragments txb ! 0 = skb1"
    if c: "crypt_seal ops f1 24 tx = Some (res, skb1, tx')" for res skb1 tx'
  proof -
    have "\<exists>dev1 r1. ieee80211_encrypt_fragment (tx_after dev) f1 24 = Some (r1, skb1, dev1) \<and> \<not> td_fcs dev1 \<and> td_tx_queue dev1"
      using c slot r by (simp add: ieee80211_encrypt_fragment_def tx_after_def Let_def tx_ready_def)
    then obtain dev1 r1 where e: "ieee80211_encrypt_fragment (tx_after dev) f1 24 = Some (r1, skb1, dev1)" "\<not> td_fcs dev1" "td_tx_queue dev1"
      by blast
    have xf: "xmit_frag tp 0 (?frags ! 0) (skb_pull 14 skb) (tx_after dev) = Some (skb1,
        (skb_pull 14 skb)\<lparr>skb_head := skb_head (skb_pull 14 skb) @ payload, skb_data := []\<rparr>, dev1)"
      unfolding x using tp(3) e by simp
    have "xmit_loop tp (nat (tp_nr_frags tp)) 0 ?frags (skb_pull 14 skb) (tx_after dev) =
        Some (?frags[0 := skb1], (skb_pull 14 skb)\<lparr>skb_head := skb_head (skb_pull 14 skb) @ payload, skb_data := []\<rparr>, dev1)"
      unfolding n1 using xf clean(1) by simp
    moreover have "tx_use_key et dev = True" using use by simp
    ultimately have "\<exists>dev'. ieee80211_xmit hw k s dev skb = Some (Tx_Softmac \<lparr>tb_nr_frags = word_of_int (tp_nr_frags tp),
        tb_encrypted = True, tb_frag_size = ?fs, tb_payload_size = word_of_int (int (length payload) + 8),
        tb_fragments = ?frags[0 := skb1]\<rparr>, dev')"
      using xmit_ready [OF r d txb, of tp] tp(1) e(3) unfolding Let_def tx_handoff_def by simp
    then show ?thesis using clean(1) n1 by auto
  qed
  then show ?thesis using f1(1,2) room by blast
qed

lemma xmit_sealed:
  assumes cipher: "mpdu_cipher ops peers ki" and r: "tx_ready et dev" and use: "tx_use_key et dev"
    and slot: "td_crypt dev ! td_tx_keyidx dev = Some (Some ops, tx)"
    and d: "length dest = 6" "length src = 6" "skb_data skb = eth_frame dest src et payload"
    and fit: "int (length payload) + 8 \<le> tx_bytes_per_frag dev (tx_frag_size dev dest) True"
    and peers: "peers (tx_frag_header dev True dest src 1 0) (ieee80211_put_snap et @ payload) tx rx"
    and m: "td_iw_mode dev = IW_MODE_ADHOC \<or> td_iw_mode dev = IW_MODE_INFRA"
  shows "\<exists>txb dev' sealed. ieee80211_xmit hw k s dev skb = Some (Tx_Softmac txb, dev') \<and> tb_nr_frags txb = 1 \<and>
    skb_data (tb_fragments txb ! 0) = tx_frag_header dev True dest src 1 0 @ sealed \<and> 4 \<le> length sealed \<and>
    unat (drop_bit 6 (sealed ! 3)) = ki tx \<and>
    mpdu_opens ops (tx_frag_header dev True dest src 1 0) sealed (ieee80211_put_snap et @ payload) rx"
proof -
  obtain f1 where f1: "skb_data f1 = tx_frag_header dev True dest src 1 0 @ ieee80211_put_snap et @ payload"
      "co_extra_prefix_len ops \<le> skb_headroom f1" "co_extra_postfix_len ops \<le> skb_tailroom f1"
    and x: "\<And>res skb1 tx'. crypt_seal ops f1 24 tx = Some (res, skb1, tx') \<Longrightarrow>
      \<exists>txb dev'. ieee80211_xmit hw k s dev skb = Some (Tx_Softmac txb, dev') \<and> tb_nr_frags txb = 1 \<and> tb_fragments txb ! 0 = skb1"
    using xmit_one_encrypted [OF r use slot d fit m, of hw k s] by blast
  have bssid: "length (td_bssid dev) = 6" using r by (simp add: tx_ready_def tx_wf_def)
  have hl: "length (tx_frag_header dev True dest src 1 0) = 24" by (rule tx_frag_data_header(4) [OF m d(1,2) bssid])
  obtain skb1 tx' sealed where "crypt_seal ops f1 24 tx = Some (0, skb1, tx')" "skb_data skb1 = tx_frag_header dev True dest src 1 0 @ sealed"
    "4 \<le> length sealed" "unat (drop_bit 6 (sealed ! 3)) = ki tx"
    "mpdu_opens ops (tx_frag_header dev True dest src 1 0) sealed (ieee80211_put_snap et @ payload) rx"
    using mpdu_cipher.seal_open [OF cipher peers f1(2,3,1)] unfolding mpdu_sealed_def hl by blast
  with x show ?thesis by blast
qed

text \<open>A failure of the cipher is ignored.  When the key's operations report an error and leave the
  frame as it is, the frame is still sent, in plain text with the flag that says it is encrypted.\<close>

theorem xmit_ignores_cipher_failure:
  assumes A: "tx_ready et dev" "tx_use_key et dev" "td_crypt dev ! td_tx_keyidx dev = Some (Some ops, tx)"
      "td_iw_mode dev = IW_MODE_ADHOC \<or> td_iw_mode dev = IW_MODE_INFRA"
    and d: "length dest = 6" "length src = 6" "skb_data skb = eth_frame dest src et payload"
      "int (length payload) + 8 \<le> tx_bytes_per_frag dev (tx_frag_size dev dest) True"
    and fails: "\<And>f. \<exists>res tx'. res < 0 \<and> crypt_seal ops f 24 tx = Some (res, f, tx')"
  shows "\<exists>txb dev'. ieee80211_xmit hw k s dev skb = Some (Tx_Softmac txb, dev') \<and> tb_nr_frags txb = 1 \<and>
    skb_data (tb_fragments txb ! 0) = tx_frag_header dev True dest src 1 0 @ ieee80211_put_snap et @ payload"
proof -
  obtain f1 where f1: "skb_data f1 = tx_frag_header dev True dest src 1 0 @ ieee80211_put_snap et @ payload"
    and x: "\<And>res skb1 tx'. crypt_seal ops f1 24 tx = Some (res, skb1, tx') \<Longrightarrow>
      \<exists>txb dev'. ieee80211_xmit hw k s dev skb = Some (Tx_Softmac txb, dev') \<and> tb_nr_frags txb = 1 \<and> tb_fragments txb ! 0 = skb1"
    using xmit_one_encrypted [OF A(1-3) d A(4), of hw k s] by blast
  obtain res tx' where "crypt_seal ops f1 24 tx = Some (res, f1, tx')" using fails [of f1] by blast
  from x [OF this] f1 show ?thesis by auto
qed

definition broken_ops :: "prism2_wep_data crypto_ops" where
  "broken_ops = (ieee80211_crypt_wep arc4_ecb (\<lambda>c d. c + 7))\<lparr>co_encrypt_mpdu := Some (\<lambda>f n p. Some (- 1, f, p))\<rparr>"

theorem xmit_ignores_cipher_failure_witness:
  "\<exists>txb dev'. ieee80211_xmit True True [] (tx_example [Some (Some broken_ops, rx_example_wep), None, None, None])
      \<lparr>skb_head = [], skb_data = eth_frame [1, 1, 1, 1, 1, 1] [2, 2, 2, 2, 2, 2] 0x0800 [7, 8, 9], skb_room = []\<rparr> =
      Some (Tx_Softmac txb, dev') \<and> tb_nr_frags txb = 1 \<and>
    skb_data (tb_fragments txb ! 0) = tx_frag_header (tx_example [Some (Some broken_ops, rx_example_wep), None, None, None])
      True [1, 1, 1, 1, 1, 1] [2, 2, 2, 2, 2, 2] 1 0 @ ieee80211_put_snap 0x0800 @ [7, 8, 9]"
proof -
  let ?A = "tx_example [Some (Some broken_ops, rx_example_wep), None, None, None]"
  have ready: "tx_ready 0x0800 ?A" by (rule tx_example_ready) simp
  show ?thesis
    by (rule xmit_ignores_cipher_failure [OF ready, where ops = broken_ops and tx = rx_example_wep])
      (simp_all add: tx_use_key_def tx_example_def tx_bytes_per_frag_def tx_frag_size_def tx_multicast_def broken_ops_def
        ieee80211_crypt_wep_def crypt_seal_def)
qed

text \<open>C9: The encrypted link.  With any cipher that keeps the law of the operation table (WEP, TKIP and
  CCMP do) and contexts that agree, an Ethernet frame that fits in one fragment is sent encrypted
  in one fragment, and the receiver, whatever buffer the fragment arrives in, delivers the original
  frame byte for byte.\<close>

theorem xmit_rx_sealed:
  assumes cipher: "mpdu_cipher ops peers ki"
    and A: "tx_ready et tdev" "tx_use_key et tdev" "td_iw_mode tdev = IW_MODE_ADHOC \<or> td_iw_mode tdev = IW_MODE_INFRA"
      "td_crypt tdev ! td_tx_keyidx tdev = Some (Some ops, tx)"
    and frame: "length dest = 6" "length src = 6" "skb_data skb = eth_frame dest src et payload"
      "int (length payload) + 8 \<le> tx_bytes_per_frag tdev (tx_frag_size tdev dest) True"
    and peers: "peers (tx_frag_header tdev True dest src 1 0) (ieee80211_put_snap et @ payload) tx rx"
    and B: "rd_iw_mode rdev \<noteq> IW_MODE_MONITOR" "rd_bssid rdev = td_bssid tdev" "rd_host_decrypt rdev"
      "rx_unseen HZ j (td_seq_ctrl tdev) src rdev"
      "rd_crypt rdev ! ki tx = Some (Some ops, rx)" "ki tx < length (rd_crypt rdev)" "co_decrypt_mpdu ops \<noteq> None"
  shows "\<exists>txb tdev'. ieee80211_xmit hw k s tdev skb = Some (Tx_Softmac txb, tdev') \<and> tb_nr_frags txb = 1 \<and>
    (\<forall>rcv. skb_data rcv = skb_data (tb_fragments txb ! 0) \<longrightarrow>
      (\<exists>skb' rdev'. ieee80211_rx HZ j True True rdev rcv = Some (Rx_Delivered skb', rdev') \<and> skb_data skb' = skb_data skb))"
proof -
  let ?hdr = "tx_frag_header tdev True dest src 1 0" and ?fc = "tx_frag_control tdev True 1 0" and ?sc = "tx_seq_control tdev 0"
  have bssid: "length (td_bssid tdev) = 6" using A(1) by (simp add: tx_ready_def tx_wf_def)
  note h = tx_frag_data_header [OF A(3) frame(1,2) bssid, of True 1 0]
  obtain txb tdev' sealed where x: "ieee80211_xmit hw k s tdev skb = Some (Tx_Softmac txb, tdev')" "tb_nr_frags txb = 1"
    "skb_data (tb_fragments txb ! 0) = ?hdr @ sealed" "4 \<le> length sealed" "unat (drop_bit 6 (sealed ! 3)) = ki tx"
    "mpdu_opens ops ?hdr sealed (ieee80211_put_snap et @ payload) rx"
    using xmit_sealed [OF cipher A(1,2,4) frame peers A(3), of hw k s] by blast
  have fc: "?fc AND FCTL_WEP \<noteq> 0" "?fc AND FCTL_MOREFRAGS = 0"
    using tx_frag_control_bits [of tdev True 1 0] by simp_all
  have sc: "WLAN_GET_SEQ_FRAG ?sc = 0" "?sc = push_bit 4 (td_seq_ctrl tdev)"
    using frag_number(1) [of 0 "td_seq_ctrl tdev"] by (simp_all add: tx_seq_control_def)
  obtain ds where ds: "is_duplicate_packet HZ j True (rd_iw_mode rdev) ?hdr (rd_dup rdev) = Some (False, ds)"
    using B(4) h(1,2) unfolding rx_unseen_def data_header_def sc(2) by blast
  have "\<exists>skb' rdev'. ieee80211_rx HZ j True True rdev rcv = Some (Rx_Delivered skb', rdev') \<and> skb_data skb' = skb_data skb"
    if "skb_data rcv = skb_data (tb_fragments txb ! 0)" for rcv
  proof -
    have "skb_data rcv = ?hdr @ sealed" using that x(3) by simp
    from rx_delivers_opened [OF h(1) this fc sc(1) B(1-3) ds B(5-7) x(4,5,6), of True] show ?thesis
      unfolding ethernet_frame_snap frame(3) by simp
  qed
  then show ?thesis using x(1,2) by blast
qed

theorem xmit_rx_sealed_witness:
  "\<exists>txb tdev' skb' rdev'. ieee80211_xmit True True [] (tx_example rx_example_slots)
      \<lparr>skb_head = [], skb_data = eth_frame [1, 1, 1, 1, 1, 1] [2, 2, 2, 2, 2, 2] 0x0800 (replicate 100 7), skb_room = []\<rparr> =
      Some (Tx_Softmac txb, tdev') \<and> tb_nr_frags txb = 1 \<and>
    ieee80211_rx 100 7 True True (rx_example rx_example_slots)
      \<lparr>skb_head = [], skb_data = skb_data (tb_fragments txb ! 0), skb_room = []\<rparr> = Some (Rx_Delivered skb', rdev') \<and>
    skb_data skb' = eth_frame [1, 1, 1, 1, 1, 1] [2, 2, 2, 2, 2, 2] 0x0800 (replicate 100 7)"
proof -
  let ?ops = "ieee80211_crypt_wep arc4_ecb (\<lambda>c d. c + 7)" and ?A = "tx_example rx_example_slots" and ?B = "rx_example rx_example_slots"
  let ?skb = "\<lparr>skb_head = [], skb_data = eth_frame [1, 1, 1, 1, 1, 1] [2, 2, 2, 2, 2, 2] 0x0800 (replicate 100 7), skb_room = []\<rparr>"
  have ready: "tx_ready 0x0800 ?A" by (rule tx_example_ready) simp
  have key: "tx_use_key 0x0800 ?A" by (simp add: tx_use_key_def tx_example_def rx_example_slots_def)
  have slot: "td_crypt ?A ! td_tx_keyidx ?A = Some (Some ?ops, rx_example_wep)" by (simp add: tx_example_def rx_example_slots_def)
  have mode: "td_iw_mode ?A = IW_MODE_ADHOC \<or> td_iw_mode ?A = IW_MODE_INFRA" by (simp add: tx_example_def)
  have fit: "int (length (replicate 100 (7 :: u8))) + 8 \<le> tx_bytes_per_frag ?A (tx_frag_size ?A [1, 1, 1, 1, 1, 1]) True"
    by (simp add: tx_bytes_per_frag_def tx_frag_size_def tx_multicast_def tx_example_def rx_example_slots_def ieee80211_crypt_wep_def)
  have peers: "wep_peers hdr body rx_example_wep rx_example_wep" for hdr body
    by (simp add: wep_peers_def wep_wf_def rx_example_wep_def)
  have unseen: "rx_unseen 100 7 (td_seq_ctrl ?A) [2, 2, 2, 2, 2, 2] ?B"
    using rx_example_open_unseen by (simp add: rx_unseen_def rx_example_open_def)
  have "\<exists>txb tdev'. ieee80211_xmit True True [] ?A ?skb = Some (Tx_Softmac txb, tdev') \<and> tb_nr_frags txb = 1 \<and>
    (\<forall>rcv. skb_data rcv = skb_data (tb_fragments txb ! 0) \<longrightarrow>
      (\<exists>skb' rdev'. ieee80211_rx 100 7 True True ?B rcv = Some (Rx_Delivered skb', rdev') \<and> skb_data skb' = skb_data ?skb))"
    by (rule xmit_rx_sealed [OF wep_cipher.mpdu_cipher_axioms ready key mode slot _ _ _ fit peers _ _ _ unseen])
      (simp_all add: tx_example_def rx_example_slots_def rx_example_wep_def ieee80211_crypt_wep_def)
  then show ?thesis by fastforce
qed

end
