(* ===== verification/Softmac_Queue.thy ===== *)
theory Softmac_Queue
  imports Tx
begin

text \<open>
  The transmit queue of \<open>ieee80211/ieee80211_softmac.c\<close>: the ring of management frames that wait
  for the hardware, the block of fragments that was interrupted because the hardware queue was full, and
  the operations that stop, wake and reset the queue.  \<open>sm_td\<close> is the part of
  \<open>struct ieee80211_device\<close> the transmit path of theory Tx works on, \<open>sm_drv\<close> the state of the
  hardware driver.  The driver's \<open>softmac_data_hard_start_xmit\<close> is the argument \<open>hard_xmit\<close> of the
  operations, as it is a function pointer there; it may stop the queue.  \<open>None\<close> is an access
  outside of an array or a frame.  The configuration is the driver's: one queue for data and
  management frames (\<open>IEEE_SOFTMAC_SINGLE_QUEUE\<close>).
\<close>

section \<open>The ring of management frames\<close>

abbreviation MGMT_QUEUE_NUM :: nat where "MGMT_QUEUE_NUM \<equiv> 5"

record 'f mgmt_queue =
  mq_ring :: "'f option list"
  mq_head :: nat
  mq_tail :: nat

definition enqueue_mgmt :: "'f \<Rightarrow> 'f mgmt_queue \<Rightarrow> 'f mgmt_queue" where
  "enqueue_mgmt skb q =
     (let nh = (mq_head q + 1) mod MGMT_QUEUE_NUM in
      if nh = mq_tail q then q
      else q\<lparr>mq_head := nh, mq_ring := (mq_ring q)[nh := Some skb]\<rparr>)"

definition dequeue_mgmt :: "'f mgmt_queue \<Rightarrow> 'f option \<times> 'f mgmt_queue" where
  "dequeue_mgmt q =
     (if mq_tail q = mq_head q then (None, q)
      else (mq_ring q ! mq_tail q, q\<lparr>mq_tail := (mq_tail q + 1) mod MGMT_QUEUE_NUM\<rparr>))"

definition init_mgmt_queue :: "'f mgmt_queue \<Rightarrow> 'f mgmt_queue" where
  "init_mgmt_queue q = q\<lparr>mq_tail := 0, mq_head := 0\<rparr>"

definition mq_wf :: "'f mgmt_queue \<Rightarrow> bool" where
  "mq_wf q \<longleftrightarrow> length (mq_ring q) = MGMT_QUEUE_NUM \<and> mq_head q < MGMT_QUEUE_NUM \<and> mq_tail q < MGMT_QUEUE_NUM"

text \<open>The number of frames between tail and head, and the positions they are at.\<close>

definition mq_size :: "'f mgmt_queue \<Rightarrow> nat" where
  "mq_size q = (mq_head q + MGMT_QUEUE_NUM - mq_tail q) mod MGMT_QUEUE_NUM"

definition mq_at :: "'f mgmt_queue \<Rightarrow> nat \<Rightarrow> 'f option" where
  "mq_at q k = mq_ring q ! ((mq_tail q + k) mod MGMT_QUEUE_NUM)"

section \<open>State\<close>

record ('p, 'd) softmac =
  sm_td :: "'p tx_device"
  sm_queue_stop :: bool
  sm_mgmt :: "sk_buff mgmt_queue"
  sm_pending_txb :: "ieee80211_txb option"
  sm_pending_frag :: nat
  sm_rate :: int
  sm_basic_rate :: int
  sm_sta_sleep :: int
  sm_hw_wakeup_queued :: bool
  sm_swtxstop :: u32
  sm_swtxawake :: u32
  sm_drv :: 'd

type_synonym ('p, 'd) hard_xmit = "sk_buff \<Rightarrow> int \<Rightarrow> ('p, 'd) softmac \<Rightarrow> ('p, 'd) softmac option"

section \<open>Operations\<close>

text \<open>The sequence number goes into the header of a management frame and is counted on.\<close>

definition next_seq_ctrl :: "u16 \<Rightarrow> u16" where
  "next_seq_ctrl n = (if n = 0xFFF then 0 else n + 1)"

definition mgmt_put_seq :: "sk_buff \<Rightarrow> ('p, 'd) softmac \<Rightarrow> (sk_buff \<times> ('p, 'd) softmac) option" where
  "mgmt_put_seq skb s = do {
     let sc = push_bit 4 (td_seq_ctrl (sm_td s));
     skb \<leftarrow> skb_store 22 [ucast sc, ucast (drop_bit 8 sc)] skb;
     Some (skb, s\<lparr>sm_td := (sm_td s)\<lparr>td_seq_ctrl := next_seq_ctrl (td_seq_ctrl (sm_td s))\<rparr>\<rparr>)
   }"

text \<open>\<open>ieee80211_sta_wakeup(ieee, 0)\<close>\<close>

definition sta_wakeup_quiet :: "('p, 'd) softmac \<Rightarrow> ('p, 'd) softmac" where
  "sta_wakeup_quiet s =
     (if sm_sta_sleep s = 0 then s
      else s\<lparr>sm_hw_wakeup_queued := sm_hw_wakeup_queued s \<or> sm_sta_sleep s = 1, sm_sta_sleep := 0\<rparr>)"

definition softmac_mgmt_xmit :: "('p, 'd) hard_xmit \<Rightarrow> sk_buff \<Rightarrow> ('p, 'd) softmac \<Rightarrow> ('p, 'd) softmac option" where
  "softmac_mgmt_xmit hard_xmit skb s =
     (let s = sta_wakeup_quiet s in
      if sm_queue_stop s then Some (s\<lparr>sm_mgmt := enqueue_mgmt skb (sm_mgmt s)\<rparr>)
      else do {
        (skb, s) \<leftarrow> mgmt_put_seq skb s;
        hard_xmit skb (sm_basic_rate s) s
      })"

definition softmac_ps_mgmt_xmit :: "('p, 'd) hard_xmit \<Rightarrow> sk_buff \<Rightarrow> ('p, 'd) softmac \<Rightarrow> ('p, 'd) softmac option" where
  "softmac_ps_mgmt_xmit hard_xmit skb s = do {
     (skb, s) \<leftarrow> mgmt_put_seq skb s;
     hard_xmit skb (sm_basic_rate s) s
   }"

text \<open>
  The loop of \<open>ieee80211_softmac_xmit\<close> and of \<open>ieee80211_resume_tx\<close>: the fragments from number
  \<open>i\<close> on are handed to the driver until it stops the queue.  The result is the number of the first
  fragment that was not sent, if any.  Only \<open>ieee80211_softmac_xmit\<close> counts the bytes.
\<close>

definition count_tx :: "bool \<Rightarrow> sk_buff \<Rightarrow> 'p tx_device \<Rightarrow> 'p tx_device" where
  "count_tx bytes f td =
     td\<lparr>td_tx_packets := td_tx_packets td + 1,
        td_tx_bytes := (if bytes then td_tx_bytes td + word_of_nat (skb_len f) else td_tx_bytes td)\<rparr>"

function send_frags :: "('p, 'd) hard_xmit \<Rightarrow> bool \<Rightarrow> ieee80211_txb \<Rightarrow> nat \<Rightarrow> ('p, 'd) softmac \<Rightarrow> (nat option \<times> ('p, 'd) softmac) option" where
  "send_frags hard_xmit bytes txb i s =
     (if i \<ge> unat (tb_nr_frags txb) then Some (None, s)
      else if sm_queue_stop s then Some (Some i, s)
      else if i \<ge> length (tb_fragments txb) then None
      else do {
        s \<leftarrow> hard_xmit (tb_fragments txb ! i) (sm_rate s) s;
        send_frags hard_xmit bytes txb (Suc i) (s\<lparr>sm_td := count_tx bytes (tb_fragments txb ! i) (sm_td s)\<rparr>)
      })"
  by pat_completeness auto
termination by (relation "measure (\<lambda>(_, _, txb, i, _). unat (tb_nr_frags txb) - i)") auto

declare send_frags.simps [simp del]

definition ieee80211_softmac_xmit :: "('p, 'd) hard_xmit \<Rightarrow> ieee80211_txb \<Rightarrow> ('p, 'd) softmac \<Rightarrow> ('p, 'd) softmac option" where
  "ieee80211_softmac_xmit hard_xmit txb s = do {
     s \<leftarrow> (if sm_queue_stop s \<and> sm_pending_txb s \<noteq> None then Some s
          else do {
            (left, s) \<leftarrow> send_frags hard_xmit True txb 0 (sta_wakeup_quiet s);
            case left of None \<Rightarrow> Some s | Some i \<Rightarrow> Some (s\<lparr>sm_pending_txb := Some txb, sm_pending_frag := i\<rparr>)
          });
     Some (s\<lparr>sm_td := (sm_td s)\<lparr>td_tx_pending_txb := td_tx_pending_txb (sm_td s) - 1\<rparr>\<rparr>)
   }"

definition ieee80211_resume_tx :: "('p, 'd) hard_xmit \<Rightarrow> ieee80211_txb \<Rightarrow> ('p, 'd) softmac \<Rightarrow> ('p, 'd) softmac option" where
  "ieee80211_resume_tx hard_xmit txb s = do {
     (left, s) \<leftarrow> send_frags hard_xmit False txb (sm_pending_frag s) s;
     case left of None \<Rightarrow> Some (s\<lparr>sm_pending_txb := None\<rparr>) | Some i \<Rightarrow> Some (s\<lparr>sm_pending_frag := i\<rparr>)
   }"

text \<open>\<open>None\<close> is also a loop that does not end, which the queue's invariant excludes (lemma \<open>free_mgmt_loop_ends\<close>).\<close>

partial_function (option) free_mgmt_loop :: "'f mgmt_queue \<Rightarrow> 'f mgmt_queue option" where
  "free_mgmt_loop q =
     (case dequeue_mgmt q of
        (None, q) \<Rightarrow> Some q
      | (Some _, q) \<Rightarrow> free_mgmt_loop q)"

definition ieee80211_reset_queue :: "('p, 'd) softmac \<Rightarrow> ('p, 'd) softmac option" where
  "ieee80211_reset_queue s = do {
     q \<leftarrow> free_mgmt_loop (sm_mgmt s);
     Some (s\<lparr>sm_mgmt := init_mgmt_queue q, sm_pending_txb := None, sm_queue_stop := False\<rparr>)
   }"

partial_function (option) wake_mgmt_loop :: "('p, 'd) hard_xmit \<Rightarrow> ('p, 'd) softmac \<Rightarrow> ('p, 'd) softmac option" where
  "wake_mgmt_loop hard_xmit s =
     (if sm_queue_stop s then Some s
      else case dequeue_mgmt (sm_mgmt s) of
        (None, q) \<Rightarrow> Some (s\<lparr>sm_mgmt := q\<rparr>)
      | (Some skb, q) \<Rightarrow> do {
          (skb, s) \<leftarrow> mgmt_put_seq skb (s\<lparr>sm_mgmt := q\<rparr>);
          s \<leftarrow> hard_xmit skb (sm_basic_rate s) s;
          wake_mgmt_loop hard_xmit s
        })"

definition wake_resume :: "('p, 'd) hard_xmit \<Rightarrow> ('p, 'd) softmac \<Rightarrow> ('p, 'd) softmac option" where
  "wake_resume hard_xmit s =
     (if sm_queue_stop s then Some s
      else case sm_pending_txb s of None \<Rightarrow> Some s | Some txb \<Rightarrow> ieee80211_resume_tx hard_xmit txb s)"

definition wake_netif :: "('p, 'd) softmac \<Rightarrow> ('p, 'd) softmac" where
  "wake_netif s =
     (if \<not> sm_queue_stop s \<and> td_netif_stopped (sm_td s)
      then s\<lparr>sm_swtxawake := sm_swtxawake s + 1, sm_td := (sm_td s)\<lparr>td_netif_stopped := False\<rparr>\<rparr>
      else s)"

definition ieee80211_wake_queue :: "('p, 'd) hard_xmit \<Rightarrow> ('p, 'd) softmac \<Rightarrow> ('p, 'd) softmac option" where
  "ieee80211_wake_queue hard_xmit s =
     (if \<not> sm_queue_stop s then Some s
      else do {
        s \<leftarrow> wake_mgmt_loop hard_xmit (s\<lparr>sm_queue_stop := False\<rparr>);
        s \<leftarrow> wake_resume hard_xmit s;
        Some (wake_netif s)
      })"

definition ieee80211_stop_queue :: "('p, 'd) softmac \<Rightarrow> ('p, 'd) softmac" where
  "ieee80211_stop_queue s =
     (let s = (if td_netif_stopped (sm_td s) then s
               else s\<lparr>sm_td := (sm_td s)\<lparr>td_netif_stopped := True\<rparr>, sm_swtxstop := sm_swtxstop s + 1\<rparr>)
      in s\<lparr>sm_queue_stop := True\<rparr>)"



section \<open>The ring holds its frames back by one\<close>

definition mq_items :: "'f mgmt_queue \<Rightarrow> 'f option list" where
  "mq_items q = map (mq_at q) [0..<mq_size q]"

definition mq_held :: "'f mgmt_queue \<Rightarrow> 'f option" where
  "mq_held q = mq_ring q ! mq_head q"

lemma mq_cases:
  assumes "mq_wf q"
  obtains a b c d e h t where "q = \<lparr>mq_ring = [a, b, c, d, e], mq_head = h, mq_tail = t\<rparr>"
    "h \<in> {0, 1, 2, 3, 4}" "t \<in> {0, 1, 2, 3, 4}"
proof (cases q)
  case (fields r h t)
  obtain a b c d e where "r = [a, b, c, d, e]"
    using assms fields by (auto simp: mq_wf_def length_Suc_conv eval_nat_numeral)
  moreover have "h \<in> {0, 1, 2, 3, 4}" "t \<in> {0, 1, 2, 3, 4}" using assms fields by (auto simp: mq_wf_def)
  ultimately show ?thesis using fields that by blast
qed

lemmas mq_eval = mq_items_def mq_held_def mq_size_def mq_at_def upt_rec [of 0 "numeral k" for k]

lemma mq_size_less: "mq_size q < 5" by (simp add: mq_size_def)

lemma length_mq_items [simp]: "length (mq_items q) = mq_size q" by (simp add: mq_items_def)

lemma enqueue_mgmt_wf: "mq_wf q \<Longrightarrow> mq_wf (enqueue_mgmt x q)"
  by (auto simp: mq_wf_def enqueue_mgmt_def Let_def)

lemma dequeue_mgmt_wf: "mq_wf q \<Longrightarrow> dequeue_mgmt q = (r, q') \<Longrightarrow> mq_wf q'"
  by (auto simp: mq_wf_def dequeue_mgmt_def split: if_splits)

lemma init_mgmt_wf: "mq_wf q \<Longrightarrow> mq_wf (init_mgmt_queue q)"
  by (auto simp: mq_wf_def init_mgmt_queue_def)

lemma enqueue_mgmt_spec:
  assumes "mq_wf q"
  shows "mq_items (enqueue_mgmt x q) = (if mq_size q = 4 then mq_items q else mq_items q @ [mq_held q])"
    and "mq_held (enqueue_mgmt x q) = (if mq_size q = 4 then mq_held q else Some x)"
proof -
  from assms obtain a b c d e h t where q: "q = \<lparr>mq_ring = [a, b, c, d, e], mq_head = h, mq_tail = t\<rparr>"
    and "h \<in> {0, 1, 2, 3, 4}" "t \<in> {0, 1, 2, 3, 4}" by (rule mq_cases)
  then have "(mq_items (enqueue_mgmt x q) = (if mq_size q = 4 then mq_items q else mq_items q @ [mq_held q])) \<and>
    (mq_held (enqueue_mgmt x q) = (if mq_size q = 4 then mq_held q else Some x))"
    unfolding q by (elim insertE emptyE; hypsubst) (simp_all add: enqueue_mgmt_def mq_eval upt_rec)
  then show "mq_items (enqueue_mgmt x q) = (if mq_size q = 4 then mq_items q else mq_items q @ [mq_held q])"
    and "mq_held (enqueue_mgmt x q) = (if mq_size q = 4 then mq_held q else Some x)" by auto
qed

lemma dequeue_mgmt_spec:
  assumes "mq_wf q"
  shows "dequeue_mgmt q = (case mq_items q of [] \<Rightarrow> None | y # ys \<Rightarrow> y, snd (dequeue_mgmt q))"
    and "mq_items (snd (dequeue_mgmt q)) = tl (mq_items q)" and "mq_held (snd (dequeue_mgmt q)) = mq_held q"
    and "mq_size (snd (dequeue_mgmt q)) = mq_size q - 1"
proof -
  from assms obtain a b c d e h t where q: "q = \<lparr>mq_ring = [a, b, c, d, e], mq_head = h, mq_tail = t\<rparr>"
    and "h \<in> {0, 1, 2, 3, 4}" "t \<in> {0, 1, 2, 3, 4}" by (rule mq_cases)
  then have "fst (dequeue_mgmt q) = (case mq_items q of [] \<Rightarrow> None | y # ys \<Rightarrow> y) \<and>
    mq_items (snd (dequeue_mgmt q)) = tl (mq_items q) \<and> mq_held (snd (dequeue_mgmt q)) = mq_held q \<and>
    mq_size (snd (dequeue_mgmt q)) = mq_size q - 1"
    unfolding q by (elim insertE emptyE; hypsubst) (simp_all add: dequeue_mgmt_def mq_eval upt_rec)
  then show "dequeue_mgmt q = (case mq_items q of [] \<Rightarrow> None | y # ys \<Rightarrow> y, snd (dequeue_mgmt q))"
    and "mq_items (snd (dequeue_mgmt q)) = tl (mq_items q)" and "mq_held (snd (dequeue_mgmt q)) = mq_held q"
    and "mq_size (snd (dequeue_mgmt q)) = mq_size q - 1"
    by (auto simp: prod_eq_iff)
qed

lemma dequeue_mgmt_None: "mq_wf q \<Longrightarrow> mq_size q = 0 \<Longrightarrow> dequeue_mgmt q = (None, q)"
proof -
  assume "mq_wf q" "mq_size q = 0"
  then obtain a b c d e h t where q: "q = \<lparr>mq_ring = [a, b, c, d, e], mq_head = h, mq_tail = t\<rparr>"
    and "h \<in> {0, 1, 2, 3, 4}" "t \<in> {0, 1, 2, 3, 4}" by (elim mq_cases)
  then show ?thesis using \<open>mq_size q = 0\<close>
    unfolding q by (elim insertE emptyE; hypsubst) (simp_all add: dequeue_mgmt_def mq_size_def)
qed

text \<open>
  The abstract queue the ring implements: a list of at most four places, and one place more that
  the next frame goes to.  A frame comes into the list only when the next one arrives.
\<close>

datatype 'f mq_op = Enqueue 'f | Dequeue

fun delay_step :: "'f mq_op \<Rightarrow> 'f option list \<times> 'f option \<Rightarrow> 'f option list \<times> ('f option list \<times> 'f option)" where
  "delay_step (Enqueue x) (ys, h) = ([], if length ys = 4 then (ys, h) else (ys @ [h], Some x))"
| "delay_step Dequeue (ys, h) = (case ys of [] \<Rightarrow> ([None], (ys, h)) | y # zs \<Rightarrow> ([y], (zs, h)))"

fun mq_step :: "'f mq_op \<Rightarrow> 'f mgmt_queue \<Rightarrow> 'f option list \<times> 'f mgmt_queue" where
  "mq_step (Enqueue x) q = ([], enqueue_mgmt x q)"
| "mq_step Dequeue q = (let (r, q) = dequeue_mgmt q in ([r], q))"

fun run_ops :: "('o \<Rightarrow> 's \<Rightarrow> 'r list \<times> 's) \<Rightarrow> 'o list \<Rightarrow> 's \<Rightarrow> 'r list \<times> 's" where
  "run_ops f [] s = ([], s)"
| "run_ops f (x # xs) s = (let (r, s) = f x s; (rs, s) = run_ops f xs s in (r @ rs, s))"

definition mq_abs :: "'f mgmt_queue \<Rightarrow> 'f option list \<times> 'f option" where
  "mq_abs q = (mq_items q, mq_held q)"

lemma mq_step_refines:
  assumes "mq_wf q" and "mq_step x q = (r, q')"
  shows "mq_wf q' \<and> delay_step x (mq_abs q) = (r, mq_abs q')"
proof (cases x)
  case (Enqueue f)
  then show ?thesis using assms enqueue_mgmt_spec [OF assms(1), of f] enqueue_mgmt_wf [OF assms(1), of f]
    by (auto simp: mq_abs_def)
next
  case Dequeue
  from dequeue_mgmt_spec [OF assms(1)] obtain y where d: "dequeue_mgmt q = (y, snd (dequeue_mgmt q))"
    and y: "y = (case mq_items q of [] \<Rightarrow> None | y # ys \<Rightarrow> y)" by (metis)
  have q': "q' = snd (dequeue_mgmt q)" and r: "r = [y]" using assms(2) Dequeue d by (auto simp: Let_def split: prod.splits)
  have "mq_wf q'" using dequeue_mgmt_wf [OF assms(1) d] q' by simp
  then show ?thesis using Dequeue r y q' dequeue_mgmt_spec(2,3) [OF assms(1)]
    by (auto simp: mq_abs_def split: list.splits)
qed

text \<open>Refinement: over any sequence of queueing and unqueueing, the ring of management frames answers
  exactly as the abstract queue that holds the newest frame back: a frame can leave only after a
  further frame was queued, and a full queue drops the new frame.\<close>

theorem mgmt_queue_refines:
  assumes "mq_wf q"
  shows "run_ops delay_step ops (mq_abs q) = (fst (run_ops mq_step ops q), mq_abs (snd (run_ops mq_step ops q))) \<and>
     mq_wf (snd (run_ops mq_step ops q))"
  using assms
proof (induction ops arbitrary: q)
  case (Cons x ops)
  obtain r q' where s: "mq_step x q = (r, q')" by fastforce
  from mq_step_refines [OF Cons.prems s] Cons.IH [of q'] show ?case
    by (auto simp: s split: prod.splits)
qed auto

definition mq_fresh :: "nat mgmt_queue" where
  "mq_fresh = \<lparr>mq_ring = [None, None, None, None, None], mq_head = 0, mq_tail = 0\<rparr>"

lemma mq_fresh_run: "fst (run_ops mq_step [Enqueue 1, Dequeue, Enqueue 2, Dequeue] mq_fresh) = [None, Some 1]"
  by (simp add: mq_fresh_def enqueue_mgmt_def dequeue_mgmt_def Let_def)

theorem mgmt_queue_refines_witness:
  "run_ops delay_step [Enqueue 1, Dequeue, Enqueue 2, Dequeue] (mq_abs mq_fresh) =
     ([None, Some 1], mq_abs (snd (run_ops mq_step [Enqueue 1, Dequeue, Enqueue 2, Dequeue] mq_fresh))) \<and>
   mq_wf (snd (run_ops mq_step [Enqueue 1, Dequeue, Enqueue 2, Dequeue] mq_fresh))"
proof -
  have "mq_wf mq_fresh" by (simp add: mq_fresh_def mq_wf_def)
  from mgmt_queue_refines [OF this, of "[Enqueue 1, Dequeue, Enqueue 2, Dequeue]"] show ?thesis
    unfolding mq_fresh_run .
qed

text \<open>Termination of the two loops that empty the ring.\<close>

lemma mq_size_dequeue: "\<lbrakk>mq_wf q; dequeue_mgmt q = (Some f, q')\<rbrakk> \<Longrightarrow> mq_wf q' \<and> mq_size q = Suc (mq_size q')"
proof -
  assume a: "mq_wf q" "dequeue_mgmt q = (Some f, q')"
  then have "mq_size q \<noteq> 0" using dequeue_mgmt_None by fastforce
  moreover have "q' = snd (dequeue_mgmt q)" using a by simp
  ultimately show ?thesis using dequeue_mgmt_spec(4) [OF a(1)] dequeue_mgmt_wf [OF a] by simp
qed

lemma free_mgmt_loop_ends: "mq_wf q \<Longrightarrow> \<exists>q'. free_mgmt_loop q = Some q' \<and> mq_wf q' \<and> mq_ring q' = mq_ring q"
proof (induction "mq_size q" arbitrary: q rule: less_induct)
  case less
  obtain r q1 where d: "dequeue_mgmt q = (r, q1)" by fastforce
  have ring: "mq_ring q1 = mq_ring q" using d by (auto simp: dequeue_mgmt_def split: if_splits)
  show ?case
  proof (cases r)
    case None
    then show ?thesis using d ring dequeue_mgmt_wf [OF less.prems d] by (subst free_mgmt_loop.simps) simp
  next
    case (Some f)
    then have "mq_wf q1" "mq_size q1 < mq_size q" using mq_size_dequeue [OF less.prems] d by auto
    from less.hyps [OF this(2,1)] Some d ring show ?thesis by (subst free_mgmt_loop.simps) auto
  qed
qed

text \<open>After the queue was reset, the first frame that is taken from the ring is what the ring's first slot
  happened to hold, whatever frame was queued: a frame that was sent and freed long before, when the
  ring has wrapped around.\<close>

theorem mgmt_queue_stale:
  assumes "mq_wf (sm_mgmt s)"
  shows "\<exists>s'. ieee80211_reset_queue s = Some s' \<and> sm_pending_txb s' = None \<and> \<not> sm_queue_stop s' \<and>
     fst (dequeue_mgmt (sm_mgmt s')) = None \<and>
     fst (dequeue_mgmt (enqueue_mgmt f (sm_mgmt s'))) = mq_ring (sm_mgmt s) ! 0"
proof -
  obtain q where q: "free_mgmt_loop (sm_mgmt s) = Some q" "mq_wf q" "mq_ring q = mq_ring (sm_mgmt s)"
    using free_mgmt_loop_ends [OF assms] by blast
  then show ?thesis
    by (auto simp: ieee80211_reset_queue_def init_mgmt_queue_def dequeue_mgmt_def enqueue_mgmt_def Let_def mq_wf_def)
qed

text \<open>A ring that has wrapped around: frame 5 was in slot 0.\<close>

definition stale_frame :: sk_buff where
  "stale_frame = \<lparr>skb_head = [], skb_data = [5], skb_room = []\<rparr>"

definition stale_softmac :: "(unit, unit) softmac" where
  "stale_softmac = \<lparr>sm_td = \<lparr>td_iw_mode = IW_MODE_INFRA, td_bssid = [], td_ieee802_1x = False, td_host_encrypt = False,
     td_drop_unencrypted = False, td_raw_tx = False, td_tx_queue = True, td_hard_start_xmit = False,
     td_softmac_data_hard_start_xmit = True, td_fcs = False, td_crypt = [], td_tx_keyidx = 0, td_fts = 256, td_seq_ctrl = 0,
     td_alloc_txb = [], td_tx_skb_index = 0, td_tx_pending_txb = 0, td_netif_stopped = False, td_tx_packets = 0,
     td_tx_bytes = 0, td_tx_dropped = 0, td_tx_errors = 0, td_tx_discards = 0\<rparr>,
     sm_queue_stop = True, sm_mgmt = \<lparr>mq_ring = [Some stale_frame, None, None, None, None], mq_head = 1, mq_tail = 1\<rparr>,
     sm_pending_txb = None, sm_pending_frag = 0, sm_rate = 110, sm_basic_rate = 10, sm_sta_sleep = 0,
     sm_hw_wakeup_queued = False, sm_swtxstop = 0, sm_swtxawake = 0, sm_drv = ()\<rparr>"

theorem mgmt_queue_stale_witness:
  "\<exists>s'. ieee80211_reset_queue stale_softmac = Some s' \<and>
     fst (dequeue_mgmt (enqueue_mgmt (stale_frame\<lparr>skb_data := [9]\<rparr>) (sm_mgmt s'))) = Some stale_frame"
proof -
  have "mq_wf (sm_mgmt stale_softmac)" by (simp add: stale_softmac_def mq_wf_def)
  from mgmt_queue_stale [OF this, of "stale_frame\<lparr>skb_data := [9]\<rparr>"] show ?thesis
    by (auto simp: stale_softmac_def)
qed

end
