(* ===== verification/Tx_Flow.thy ===== *)
theory Tx_Flow
  imports Softmac_Queue
begin

text \<open>
  What the transmit queue promises for every driver that keeps the contract of
  \<open>softmac_data_hard_start_xmit\<close>: the frame is taken, and the queue may be stopped.  The locale
  \<open>tx_driver\<close> states the contract; its lemmas show that the queue hands every fragment over once
  and in order, remembers exactly the fragments it could not hand over, and continues with them
  when it is woken.
\<close>

section \<open>Frames and blocks\<close>

definition tx_frame_ok :: "sk_buff \<Rightarrow> bool" where
  "tx_frame_ok f \<longleftrightarrow> 2 \<le> skb_len f \<and> skb_len f \<le> 2400"

definition txb_frames :: "ieee80211_txb \<Rightarrow> sk_buff list" where
  "txb_frames txb = take (unat (tb_nr_frags txb)) (tb_fragments txb)"

definition txb_ok :: "ieee80211_txb \<Rightarrow> bool" where
  "txb_ok txb \<longleftrightarrow> unat (tb_nr_frags txb) \<le> length (tb_fragments txb) \<and> list_all tx_frame_ok (txb_frames txb)"

definition txb_bytes :: "ieee80211_txb \<Rightarrow> bytes list" where
  "txb_bytes txb = map skb_data (txb_frames txb)"

text \<open>A data frame, by the type in its first byte; the frames of the ring are management frames.\<close>

definition is_data :: "bytes \<Rightarrow> bool" where
  "is_data d \<longleftrightarrow> d ! 0 AND 0x0c = 0x08"

definition data_txb :: "ieee80211_txb \<Rightarrow> bool" where
  "data_txb txb \<longleftrightarrow> txb_ok txb \<and> list_all is_data (txb_bytes txb)"

definition mgmt_frame :: "sk_buff \<Rightarrow> bool" where
  "mgmt_frame f \<longleftrightarrow> 24 \<le> skb_len f \<and> skb_len f \<le> 2400 \<and> \<not> is_data (skb_data f)"

text \<open>What is left of the interrupted block.\<close>

definition pending_bytes :: "('p, 'd) softmac \<Rightarrow> bytes list" where
  "pending_bytes s = (case sm_pending_txb s of None \<Rightarrow> [] | Some txb \<Rightarrow> drop (sm_pending_frag s) (txb_bytes txb))"

text \<open>A block is pending only while the queue is stopped, and a stopped queue has stopped the network stack.\<close>

definition queue_wf :: "('p, 'd) softmac \<Rightarrow> bool" where
  "queue_wf s \<longleftrightarrow> mq_wf (sm_mgmt s) \<and> (\<forall>f. Some f \<in> set (mq_ring (sm_mgmt s)) \<longrightarrow> mgmt_frame f) \<and>
     (case sm_pending_txb s of None \<Rightarrow> True
      | Some txb \<Rightarrow> sm_queue_stop s \<and> data_txb txb \<and> sm_pending_frag s < unat (tb_nr_frags txb)) \<and>
     (sm_queue_stop s \<longrightarrow> td_netif_stopped (sm_td s))"

lemma length_txb_bytes: "txb_ok txb \<Longrightarrow> length (txb_bytes txb) = unat (tb_nr_frags txb)"
  by (simp add: txb_bytes_def txb_frames_def txb_ok_def)

lemma txb_frame: "\<lbrakk>txb_ok txb; i < unat (tb_nr_frags txb)\<rbrakk> \<Longrightarrow>
    i < length (tb_fragments txb) \<and> tx_frame_ok (tb_fragments txb ! i) \<and> skb_data (tb_fragments txb ! i) = txb_bytes txb ! i"
  by (auto simp: txb_bytes_def txb_frames_def txb_ok_def list_all_length)

lemma mgmt_put_seq_ok:
  assumes "mgmt_frame f"
  shows "\<exists>f'. mgmt_put_seq f s = Some (f', s\<lparr>sm_td := (sm_td s)\<lparr>td_seq_ctrl := next_seq_ctrl (td_seq_ctrl (sm_td s))\<rparr>\<rparr>) \<and>
    mgmt_frame f' \<and> tx_frame_ok f'"
proof -
  let ?sc = "push_bit 4 (td_seq_ctrl (sm_td s))"
  let ?b = "[ucast ?sc, ucast (drop_bit 8 ?sc)] :: bytes"
  have l: "22 + length ?b \<le> length (skb_data f)" using assms by (simp add: mgmt_frame_def skb_len_def)
  then have "(take 22 (skb_data f) @ ?b @ drop (22 + length ?b) (skb_data f)) ! 0 = skb_data f ! 0"
    by (simp add: nth_append)
  then show ?thesis using assms buf_write_ge [OF l]
    by (auto simp: mgmt_put_seq_def skb_store_def mgmt_frame_def tx_frame_ok_def is_data_def skb_len_def Let_def)
qed

section \<open>The driver's contract\<close>

text \<open>
  \<open>ok d stop\<close> is the driver's invariant when the queue is stopped or not, \<open>sent d\<close> the frames it has
  taken.  A driver may change its own state and stop the queue, nothing else.
\<close>

locale tx_driver =
  fixes hard_xmit :: "('p, 'd) hard_xmit" and ok :: "'d \<Rightarrow> bool \<Rightarrow> bool" and sent :: "'d \<Rightarrow> bytes list"
  assumes xmit: "\<lbrakk>ok (sm_drv s) False; \<not> sm_queue_stop s; tx_frame_ok f\<rbrakk> \<Longrightarrow>
    \<exists>d stop. hard_xmit f r s = Some (if stop then ieee80211_stop_queue (s\<lparr>sm_drv := d\<rparr>) else s\<lparr>sm_drv := d\<rparr>) \<and>
      ok d stop \<and> sent d = sent (sm_drv s) @ [skb_data f]"
begin

text \<open>What a stretch of transmissions leaves alone.\<close>

definition same_pending :: "('p, 'd) softmac \<Rightarrow> ('p, 'd) softmac \<Rightarrow> bool" where
  "same_pending s s' \<longleftrightarrow> sm_pending_txb s' = sm_pending_txb s \<and> sm_pending_frag s' = sm_pending_frag s \<and>
     (sm_queue_stop s \<longrightarrow> sm_queue_stop s') \<and> (td_netif_stopped (sm_td s) \<longrightarrow> td_netif_stopped (sm_td s')) \<and>
     (sm_queue_stop s' \<longrightarrow> sm_queue_stop s \<or> td_netif_stopped (sm_td s'))"

definition same_queue :: "('p, 'd) softmac \<Rightarrow> ('p, 'd) softmac \<Rightarrow> bool" where
  "same_queue s s' \<longleftrightarrow> same_pending s s' \<and> sm_mgmt s' = sm_mgmt s"

lemma same_queue_refl [simp]: "same_pending s s" "same_queue s s" by (simp_all add: same_queue_def same_pending_def)

lemma same_pending_trans: "\<lbrakk>same_pending s1 s2; same_pending s2 s3\<rbrakk> \<Longrightarrow> same_pending s1 s3"
  by (auto simp: same_pending_def)

lemma same_queue_trans: "\<lbrakk>same_queue s1 s2; same_queue s2 s3\<rbrakk> \<Longrightarrow> same_queue s1 s3"
  by (auto simp: same_queue_def same_pending_def)

lemma hard_xmit_step:
  assumes "ok (sm_drv s) False" "\<not> sm_queue_stop s" "tx_frame_ok f"
  obtains s' where "hard_xmit f r s = Some s'" "same_queue s s'" "ok (sm_drv s') (sm_queue_stop s')"
    "sent (sm_drv s') = sent (sm_drv s) @ [skb_data f]"
proof -
  from xmit [OF assms] obtain d stop where d: "hard_xmit f r s = Some (if stop then ieee80211_stop_queue (s\<lparr>sm_drv := d\<rparr>) else s\<lparr>sm_drv := d\<rparr>)"
    "ok d stop" "sent d = sent (sm_drv s) @ [skb_data f]" by blast
  show ?thesis
    by (rule that [OF d(1)]) (use d assms(2) in \<open>auto simp: same_queue_def same_pending_def ieee80211_stop_queue_def Let_def\<close>)
qed

lemma send_frags_spec:
  assumes "txb_ok txb" "i \<le> unat (tb_nr_frags txb)" "ok (sm_drv s) (sm_queue_stop s)"
  shows "\<exists>k s'. send_frags hard_xmit bytes txb i s = Some (if k < unat (tb_nr_frags txb) then Some k else None, s') \<and>
    i \<le> k \<and> k \<le> unat (tb_nr_frags txb) \<and> (k < unat (tb_nr_frags txb) \<longrightarrow> sm_queue_stop s') \<and>
    (\<not> sm_queue_stop s \<longrightarrow> i < unat (tb_nr_frags txb) \<longrightarrow> i < k) \<and>
    same_queue s s' \<and> ok (sm_drv s') (sm_queue_stop s') \<and> (sm_queue_stop s \<longrightarrow> s' = s) \<and>
    sent (sm_drv s') = sent (sm_drv s) @ drop i (take k (txb_bytes txb))"
  using assms(2,3)
proof (induction "unat (tb_nr_frags txb) - i" arbitrary: i s)
  case 0
  then have "i = unat (tb_nr_frags txb)" by simp
  then show ?case using 0 length_txb_bytes [OF assms(1)]
    by (subst send_frags.simps) (auto intro!: exI [of _ i])
next
  case (Suc n)
  then have i: "i < unat (tb_nr_frags txb)" by simp
  show ?case
  proof (cases "sm_queue_stop s")
    case True
    then show ?thesis using Suc.prems i length_txb_bytes [OF assms(1)]
      by (subst send_frags.simps) (auto intro!: exI [of _ i])
  next
    case False
    note f = txb_frame [OF assms(1) i]
    obtain s1 where s1: "hard_xmit (tb_fragments txb ! i) (sm_rate s) s = Some s1" "same_queue s s1" "ok (sm_drv s1) (sm_queue_stop s1)"
      "sent (sm_drv s1) = sent (sm_drv s) @ [skb_data (tb_fragments txb ! i)]"
      by (rule hard_xmit_step [of s "tb_fragments txb ! i" "sm_rate s"]) (use False Suc.prems f in auto)
    let ?s = "s1\<lparr>sm_td := count_tx bytes (tb_fragments txb ! i) (sm_td s1)\<rparr>"
    have sq: "same_queue s ?s" using s1(2) by (simp add: same_queue_def same_pending_def count_tx_def)
    have a: "n = unat (tb_nr_frags txb) - Suc i" "Suc i \<le> unat (tb_nr_frags txb)" "ok (sm_drv ?s) (sm_queue_stop ?s)"
      using Suc.hyps(2) i s1(3) by simp_all
    from Suc.hyps(1) [OF a] obtain k s' where k:
      "send_frags hard_xmit bytes txb (Suc i) ?s = Some (if k < unat (tb_nr_frags txb) then Some k else None, s')"
      "Suc i \<le> k" "k \<le> unat (tb_nr_frags txb)" "k < unat (tb_nr_frags txb) \<longrightarrow> sm_queue_stop s'"
      "same_queue ?s s'" "ok (sm_drv s') (sm_queue_stop s')"
      "sent (sm_drv s') = sent (sm_drv ?s) @ drop (Suc i) (take k (txb_bytes txb))"
      by (elim exE conjE) (rule that; assumption)
    have "drop i (take k (txb_bytes txb)) = txb_bytes txb ! i # drop (Suc i) (take k (txb_bytes txb))"
      using k(2,3) length_txb_bytes [OF assms(1)] by (subst Cons_nth_drop_Suc [symmetric]) auto
    then have "sent (sm_drv s') = sent (sm_drv s) @ drop i (take k (txb_bytes txb))" using k(7) s1(4) f by simp
    moreover have "send_frags hard_xmit bytes txb i s = Some (if k < unat (tb_nr_frags txb) then Some k else None, s')"
      using k(1) s1(1) f i False by (subst send_frags.simps) simp
    ultimately show ?thesis using k same_queue_trans [OF sq k(5)] False i by (intro exI [of _ k] exI [of _ s']) auto
  qed
qed

text \<open>The frames of the ring go out first.\<close>

lemma wake_mgmt_loop_spec:
  assumes "mq_wf (sm_mgmt s)" "\<forall>f. Some f \<in> set (mq_ring (sm_mgmt s)) \<longrightarrow> mgmt_frame f" "ok (sm_drv s) (sm_queue_stop s)"
  shows "\<exists>s' ms. wake_mgmt_loop hard_xmit s = Some s' \<and> list_all (\<lambda>d. \<not> is_data d) ms \<and>
    sent (sm_drv s') = sent (sm_drv s) @ ms \<and> ok (sm_drv s') (sm_queue_stop s') \<and> same_pending s s' \<and>
    mq_wf (sm_mgmt s') \<and> mq_ring (sm_mgmt s') = mq_ring (sm_mgmt s) \<and> mq_size (sm_mgmt s') + length ms \<le> mq_size (sm_mgmt s) \<and>
    (ms = [] \<longrightarrow> sm_queue_stop s' = sm_queue_stop s)"
  using assms
proof (induction "mq_size (sm_mgmt s)" arbitrary: s rule: less_induct)
  case less
  show ?case
  proof (cases "sm_queue_stop s")
    case True
    then show ?thesis using less.prems by (subst wake_mgmt_loop.simps) (auto intro!: exI [of _ "[]"])
  next
    case False
    obtain r q where d: "dequeue_mgmt (sm_mgmt s) = (r, q)" by fastforce
    have ring: "mq_ring q = mq_ring (sm_mgmt s)" using d by (auto simp: dequeue_mgmt_def split: if_splits)
    have q: "mq_wf q" "mq_size q \<le> mq_size (sm_mgmt s)"
      using dequeue_mgmt_wf [OF less.prems(1) d] dequeue_mgmt_spec(4) [OF less.prems(1)] d by auto
    show ?thesis
    proof (cases r)
      case None
      then have "wake_mgmt_loop hard_xmit s = Some (s\<lparr>sm_mgmt := q\<rparr>)" using d False by (subst wake_mgmt_loop.simps) simp
      then show ?thesis using less.prems q ring
        by (intro exI [of _ "s\<lparr>sm_mgmt := q\<rparr>"] exI [of _ "[]"]) (simp add: same_pending_def)
    next
      case (Some f)
      have "f = the (mq_ring (sm_mgmt s) ! mq_tail (sm_mgmt s))" "Some f = mq_ring (sm_mgmt s) ! mq_tail (sm_mgmt s)"
        using d Some by (auto simp: dequeue_mgmt_def split: if_splits)
      then have "mgmt_frame f" using less.prems(1,2) by (metis mq_wf_def nth_mem)
      let ?s = "s\<lparr>sm_mgmt := q\<rparr>"
      let ?s1 = "?s\<lparr>sm_td := (sm_td ?s)\<lparr>td_seq_ctrl := next_seq_ctrl (td_seq_ctrl (sm_td ?s))\<rparr>\<rparr>"
      from mgmt_put_seq_ok [OF \<open>mgmt_frame f\<close>] obtain f' where f': "mgmt_put_seq f ?s = Some (f', ?s1)" "mgmt_frame f'" "tx_frame_ok f'"
        by blast
      obtain s2 where s2: "hard_xmit f' (sm_basic_rate ?s1) ?s1 = Some s2" "same_queue ?s1 s2" "ok (sm_drv s2) (sm_queue_stop s2)"
        "sent (sm_drv s2) = sent (sm_drv ?s1) @ [skb_data f']"
        by (rule hard_xmit_step [of ?s1 f' "sm_basic_rate ?s1"]) (use False less.prems f' in auto)
      have m2: "sm_mgmt s2 = q" using s2(2) by (simp add: same_queue_def)
      have "mq_size (sm_mgmt s2) < mq_size (sm_mgmt s)" using mq_size_dequeue [OF less.prems(1)] d Some m2 by auto
      from less.hyps [OF this] obtain s' ms where s': "wake_mgmt_loop hard_xmit s2 = Some s'" "list_all (\<lambda>d. \<not> is_data d) ms"
        "sent (sm_drv s') = sent (sm_drv s2) @ ms" "ok (sm_drv s') (sm_queue_stop s')" "same_pending s2 s'"
        "mq_wf (sm_mgmt s')" "mq_ring (sm_mgmt s') = mq_ring (sm_mgmt s2)" "mq_size (sm_mgmt s') + length ms \<le> mq_size (sm_mgmt s2)"
        using m2 q ring less.prems(2) s2(3) by auto
      have "wake_mgmt_loop hard_xmit s = Some s'"
        using d Some False f'(1) s2(1) s'(1) by (subst wake_mgmt_loop.simps) (simp only: if_False case_prod_conv option.case bind.bind_lunit)
      moreover have "same_pending s s2" using s2(2) by (simp add: same_queue_def same_pending_def)
      ultimately show ?thesis
        using s' m2 ring s2(4) f'(2) \<open>mq_size (sm_mgmt s2) < mq_size (sm_mgmt s)\<close> same_pending_trans [of s s2 s']
        by (intro exI [of _ s'] exI [of _ "skb_data f' # ms"]) (simp add: mgmt_frame_def)
    qed
  qed
qed

end

lemma pending_bytes_cong:
  "\<lbrakk>sm_pending_txb s' = sm_pending_txb s; sm_pending_frag s' = sm_pending_frag s\<rbrakk> \<Longrightarrow> pending_bytes s' = pending_bytes s"
  by (simp add: pending_bytes_def split: option.splits)

context tx_driver begin

text \<open>Waking: the ring, then the interrupted block, then the network stack.\<close>

lemma wake_resume_spec:
  assumes "case sm_pending_txb s of None \<Rightarrow> True | Some txb \<Rightarrow> data_txb txb \<and> sm_pending_frag s < unat (tb_nr_frags txb)"
    and "ok (sm_drv s) (sm_queue_stop s)"
  shows "\<exists>s' ds. wake_resume hard_xmit s = Some s' \<and> ok (sm_drv s') (sm_queue_stop s') \<and> sent (sm_drv s') = sent (sm_drv s) @ ds \<and>
    ds @ pending_bytes s' = pending_bytes s \<and> sm_mgmt s' = sm_mgmt s \<and>
    (case sm_pending_txb s' of None \<Rightarrow> True | Some txb \<Rightarrow> sm_queue_stop s' \<and> data_txb txb \<and> sm_pending_frag s' < unat (tb_nr_frags txb)) \<and>
    (sm_queue_stop s' \<longrightarrow> sm_queue_stop s \<or> td_netif_stopped (sm_td s')) \<and>
    (td_netif_stopped (sm_td s) \<longrightarrow> td_netif_stopped (sm_td s')) \<and>
    (ds = [] \<longrightarrow> \<not> sm_queue_stop s \<longrightarrow> \<not> sm_queue_stop s')"
proof (cases "sm_queue_stop s")
  case True
  then show ?thesis using assms by (intro exI [of _ s] exI [of _ "[]"]) (auto simp: wake_resume_def split: option.splits)
next
  case False
  show ?thesis
  proof (cases "sm_pending_txb s")
    case None
    then show ?thesis using False assms by (intro exI [of _ s] exI [of _ "[]"]) (simp add: wake_resume_def)
  next
    case (Some txb)
    then have t: "data_txb txb" "txb_ok txb" and lt: "sm_pending_frag s < unat (tb_nr_frags txb)"
      using assms(1) by (auto simp: data_txb_def)
    note len = length_txb_bytes [OF t(2)]
    from send_frags_spec [OF t(2) less_imp_le [OF lt] assms(2), of False] obtain k s1 where
      k: "send_frags hard_xmit False txb (sm_pending_frag s) s = Some (if k < unat (tb_nr_frags txb) then Some k else None, s1)"
      "sm_pending_frag s \<le> k" "k \<le> unat (tb_nr_frags txb)" "k < unat (tb_nr_frags txb) \<longrightarrow> sm_queue_stop s1"
      "\<not> sm_queue_stop s \<longrightarrow> sm_pending_frag s < unat (tb_nr_frags txb) \<longrightarrow> sm_pending_frag s < k"
      "same_queue s s1" "ok (sm_drv s1) (sm_queue_stop s1)"
      "sent (sm_drv s1) = sent (sm_drv s) @ drop (sm_pending_frag s) (take k (txb_bytes txb))"
      by (elim exE conjE) (rule that; assumption)
    let ?ds = "drop (sm_pending_frag s) (take k (txb_bytes txb))"
    have ne: "?ds \<noteq> []" using k(5) False lt k(3) len by simp
    have split: "?ds @ drop k (txb_bytes txb) = drop (sm_pending_frag s) (txb_bytes txb)"
    proof -
      have "drop k (txb_bytes txb) = drop (sm_pending_frag s) (drop (k - sm_pending_frag s) (txb_bytes txb))" using k(2) by simp
      then show ?thesis using k(2,3) len by (metis append_take_drop_id drop_append drop_drop le_add_diff_inverse2 length_take min.absorb2 diff_is_0_eq drop_0)
    qed
    have sp: "sm_pending_txb s1 = Some txb" "sm_mgmt s1 = sm_mgmt s" using k(6) Some by (simp_all add: same_queue_def same_pending_def)
    show ?thesis
    proof (cases "k < unat (tb_nr_frags txb)")
      case True
      then have "wake_resume hard_xmit s = Some (s1\<lparr>sm_pending_frag := k\<rparr>)"
        using k(1) Some False by (simp add: wake_resume_def ieee80211_resume_tx_def)
      then show ?thesis using k sp split True t ne Some
        by (intro exI [of _ "s1\<lparr>sm_pending_frag := k\<rparr>"] exI [of _ ?ds])
          (auto simp: pending_bytes_def same_queue_def same_pending_def)
    next
      case last: False
      then have "wake_resume hard_xmit s = Some (s1\<lparr>sm_pending_txb := None\<rparr>)"
        using k(1) Some False by (simp add: wake_resume_def ieee80211_resume_tx_def)
      moreover have "drop k (txb_bytes txb) = []" using last len by simp
      ultimately show ?thesis using k sp split t ne Some
        by (intro exI [of _ "s1\<lparr>sm_pending_txb := None\<rparr>"] exI [of _ ?ds])
          (auto simp: pending_bytes_def same_queue_def same_pending_def)
    qed
  qed
qed

definition queue_work :: "('p, 'd) softmac \<Rightarrow> nat" where
  "queue_work s = mq_size (sm_mgmt s) + length (pending_bytes s)"

lemma wake_queue_spec:
  assumes "queue_wf s" "sm_queue_stop s" "ok (sm_drv s) False"
  shows "\<exists>s' ms ds. ieee80211_wake_queue hard_xmit s = Some s' \<and> queue_wf s' \<and> ok (sm_drv s') (sm_queue_stop s') \<and>
    sent (sm_drv s') = sent (sm_drv s) @ ms @ ds \<and> list_all (\<lambda>d. \<not> is_data d) ms \<and> ds @ pending_bytes s' = pending_bytes s \<and>
    queue_work s' + length (ms @ ds) \<le> queue_work s \<and> (ms @ ds = [] \<longrightarrow> \<not> sm_queue_stop s') \<and>
    (\<not> sm_queue_stop s' \<longrightarrow> sm_pending_txb s' = None \<and> \<not> td_netif_stopped (sm_td s'))"
proof -
  let ?s = "s\<lparr>sm_queue_stop := False\<rparr>"
  have w: "mq_wf (sm_mgmt ?s)" "\<forall>f. Some f \<in> set (mq_ring (sm_mgmt ?s)) \<longrightarrow> mgmt_frame f" "ok (sm_drv ?s) (sm_queue_stop ?s)"
    using assms by (auto simp: queue_wf_def)
  from wake_mgmt_loop_spec [OF w] obtain s1 ms where s1: "wake_mgmt_loop hard_xmit ?s = Some s1" "list_all (\<lambda>d. \<not> is_data d) ms"
    "sent (sm_drv s1) = sent (sm_drv ?s) @ ms" "ok (sm_drv s1) (sm_queue_stop s1)" "same_pending ?s s1" "mq_wf (sm_mgmt s1)"
    "mq_ring (sm_mgmt s1) = mq_ring (sm_mgmt ?s)" "mq_size (sm_mgmt s1) + length ms \<le> mq_size (sm_mgmt ?s)"
    "ms = [] \<longrightarrow> sm_queue_stop s1 = sm_queue_stop ?s"
    by (elim exE conjE) (rule that; assumption)
  have p1: "sm_pending_txb s1 = sm_pending_txb s" "sm_pending_frag s1 = sm_pending_frag s" and n1: "td_netif_stopped (sm_td s1)"
    using s1(5) assms by (simp_all add: same_pending_def queue_wf_def)
  have "case sm_pending_txb s1 of None \<Rightarrow> True | Some txb \<Rightarrow> data_txb txb \<and> sm_pending_frag s1 < unat (tb_nr_frags txb)"
    using assms(1) p1 by (auto simp: queue_wf_def split: option.splits)
  from wake_resume_spec [OF this s1(4)] obtain s2 ds where s2: "wake_resume hard_xmit s1 = Some s2" "ok (sm_drv s2) (sm_queue_stop s2)"
    "sent (sm_drv s2) = sent (sm_drv s1) @ ds" "ds @ pending_bytes s2 = pending_bytes s1" "sm_mgmt s2 = sm_mgmt s1"
    "case sm_pending_txb s2 of None \<Rightarrow> True | Some txb \<Rightarrow> sm_queue_stop s2 \<and> data_txb txb \<and> sm_pending_frag s2 < unat (tb_nr_frags txb)"
    "sm_queue_stop s2 \<longrightarrow> sm_queue_stop s1 \<or> td_netif_stopped (sm_td s2)" "td_netif_stopped (sm_td s1) \<longrightarrow> td_netif_stopped (sm_td s2)"
    "ds = [] \<longrightarrow> \<not> sm_queue_stop s1 \<longrightarrow> \<not> sm_queue_stop s2"
    by (elim exE conjE) (rule that; assumption)
  let ?s' = "wake_netif s2"
  have nf: "sm_queue_stop ?s' = sm_queue_stop s2" "sm_drv ?s' = sm_drv s2" "sm_mgmt ?s' = sm_mgmt s2" "pending_bytes ?s' = pending_bytes s2"
    "sm_pending_txb ?s' = sm_pending_txb s2" "sm_pending_frag ?s' = sm_pending_frag s2"
    "td_netif_stopped (sm_td ?s') = (sm_queue_stop s2 \<and> td_netif_stopped (sm_td s2))"
    by (auto simp: wake_netif_def pending_bytes_def split: option.splits)
  have pb: "pending_bytes s1 = pending_bytes s" by (rule pending_bytes_cong [OF p1])
  have "ieee80211_wake_queue hard_xmit s = Some ?s'" using assms(2) s1(1) s2(1) by (simp add: ieee80211_wake_queue_def)
  moreover have "queue_wf ?s'"
    unfolding queue_wf_def nf using s1(6,7) s2(5,6,8) w(2) n1 by (auto split: option.splits)
  moreover have "queue_work ?s' + length (ms @ ds) \<le> queue_work s"
  proof -
    have "length (pending_bytes s) = length ds + length (pending_bytes s2)" using s2(4) pb by (metis length_append)
    then show ?thesis using s1(8) s2(5) by (simp add: queue_work_def nf)
  qed
  moreover have "ms @ ds = [] \<longrightarrow> \<not> sm_queue_stop ?s'" using s1(9) s2(9) nf by simp
  moreover have "\<not> sm_queue_stop ?s' \<longrightarrow> sm_pending_txb ?s' = None \<and> \<not> td_netif_stopped (sm_td ?s')"
    using s2(6) nf by (auto split: option.splits)
  ultimately show ?thesis using s1 s2 nf pb by (intro exI [of _ ?s'] exI [of _ ms] exI [of _ ds]) simp
qed

lemma softmac_xmit_spec:
  assumes "queue_wf s" "ok (sm_drv s) (sm_queue_stop s)" "data_txb txb" "\<not> td_netif_stopped (sm_td s)"
  shows "\<exists>s' ds. ieee80211_softmac_xmit hard_xmit txb s = Some s' \<and> queue_wf s' \<and> ok (sm_drv s') (sm_queue_stop s') \<and>
    sent (sm_drv s') = sent (sm_drv s) @ ds \<and> pending_bytes s = [] \<and> ds @ pending_bytes s' = txb_bytes txb"
proof -
  have st: "\<not> sm_queue_stop s" and pn: "sm_pending_txb s = None" using assms(1,4) by (auto simp: queue_wf_def split: option.splits)
  let ?s = "sta_wakeup_quiet s"
  have q: "sm_queue_stop ?s = sm_queue_stop s" "sm_drv ?s = sm_drv s" "sm_mgmt ?s = sm_mgmt s" "sm_pending_txb ?s = None" "sm_td ?s = sm_td s"
    using pn by (auto simp: sta_wakeup_quiet_def)
  have t: "txb_ok txb" using assms(3) by (simp add: data_txb_def)
  note len = length_txb_bytes [OF t]
  have "ok (sm_drv ?s) (sm_queue_stop ?s)" using assms(2) q by simp
  from send_frags_spec [OF t le0 this, of True] obtain k s1 where
    k: "send_frags hard_xmit True txb 0 ?s = Some (if k < unat (tb_nr_frags txb) then Some k else None, s1)"
    "k \<le> unat (tb_nr_frags txb)" "k < unat (tb_nr_frags txb) \<longrightarrow> sm_queue_stop s1"
    "same_queue ?s s1" "ok (sm_drv s1) (sm_queue_stop s1)" "sent (sm_drv s1) = sent (sm_drv ?s) @ drop 0 (take k (txb_bytes txb))"
    by (elim exE conjE) (rule that; assumption)
  let ?dec = "\<lambda>s :: ('p, 'd) softmac. s\<lparr>sm_td := (sm_td s)\<lparr>td_tx_pending_txb := td_tx_pending_txb (sm_td s) - 1\<rparr>\<rparr>"
  let ?s' = "?dec (if k < unat (tb_nr_frags txb) then s1\<lparr>sm_pending_txb := Some txb, sm_pending_frag := k\<rparr> else s1)"
  have "ieee80211_softmac_xmit hard_xmit txb s = Some ?s'"
    using k(1) st by (simp add: ieee80211_softmac_xmit_def)
  moreover have "take k (txb_bytes txb) @ pending_bytes ?s' = txb_bytes txb"
    using k(2,4) q len by (auto simp: pending_bytes_def same_queue_def same_pending_def)
  moreover have "queue_wf ?s'" using k(2-4) q assms(1,3) st by (auto simp: queue_wf_def same_queue_def same_pending_def)
  moreover have "pending_bytes s = []" using pn by (simp add: pending_bytes_def)
  ultimately show ?thesis using k(5,6) q by (intro exI [of _ ?s'] exI [of _ "take k (txb_bytes txb)"]) simp
qed

lemma enqueue_mgmt_ring: "Some x \<in> set (mq_ring (enqueue_mgmt f q)) \<Longrightarrow> x = f \<or> Some x \<in> set (mq_ring q)"
  using set_update_subset_insert [of "mq_ring q" "(mq_head q + 1) mod 5" "Some f"]
  by (auto simp: enqueue_mgmt_def Let_def split: if_splits)

lemma softmac_mgmt_xmit_spec:
  assumes "queue_wf s" "ok (sm_drv s) (sm_queue_stop s)" "mgmt_frame f"
  shows "\<exists>s' ms. softmac_mgmt_xmit hard_xmit f s = Some s' \<and> queue_wf s' \<and> ok (sm_drv s') (sm_queue_stop s') \<and>
    sent (sm_drv s') = sent (sm_drv s) @ ms \<and> list_all (\<lambda>d. \<not> is_data d) ms \<and> pending_bytes s' = pending_bytes s"
proof -
  let ?s = "sta_wakeup_quiet s"
  have q: "sm_queue_stop ?s = sm_queue_stop s" "sm_drv ?s = sm_drv s" "sm_mgmt ?s = sm_mgmt s" "sm_pending_txb ?s = sm_pending_txb s"
    "sm_pending_frag ?s = sm_pending_frag s" "sm_td ?s = sm_td s" "pending_bytes ?s = pending_bytes s"
    by (auto simp: sta_wakeup_quiet_def pending_bytes_def split: option.splits)
  show ?thesis
  proof (cases "sm_queue_stop s")
    case True
    let ?s' = "?s\<lparr>sm_mgmt := enqueue_mgmt f (sm_mgmt ?s)\<rparr>"
    have "queue_wf ?s'" using assms(1,3) q enqueue_mgmt_wf [of "sm_mgmt s" f]
      by (auto simp: queue_wf_def dest: enqueue_mgmt_ring split: option.splits)
    moreover have "softmac_mgmt_xmit hard_xmit f s = Some ?s'" using True q by (simp add: softmac_mgmt_xmit_def Let_def)
    moreover have "pending_bytes ?s' = pending_bytes s" by (rule pending_bytes_cong) (use q in simp_all)
    ultimately show ?thesis using assms(2) q by (intro exI [of _ ?s'] exI [of _ "[]"]) simp
  next
    case False
    let ?s1 = "?s\<lparr>sm_td := (sm_td ?s)\<lparr>td_seq_ctrl := next_seq_ctrl (td_seq_ctrl (sm_td ?s))\<rparr>\<rparr>"
    from mgmt_put_seq_ok [OF assms(3)] obtain f' where f': "mgmt_put_seq f ?s = Some (f', ?s1)" "mgmt_frame f'" "tx_frame_ok f'" by blast
    obtain s2 where s2: "hard_xmit f' (sm_basic_rate ?s1) ?s1 = Some s2" "same_queue ?s1 s2" "ok (sm_drv s2) (sm_queue_stop s2)"
      "sent (sm_drv s2) = sent (sm_drv ?s1) @ [skb_data f']"
      by (rule hard_xmit_step [of ?s1 f' "sm_basic_rate ?s1"]) (use False assms q f' in auto)
    have "softmac_mgmt_xmit hard_xmit f s = Some s2" using False q f'(1) s2(1)
      by (simp only: softmac_mgmt_xmit_def Let_def if_False bind.bind_lunit case_prod_conv)
    moreover have "queue_wf s2" using s2(2) assms(1) q False
      by (auto simp: queue_wf_def same_queue_def same_pending_def split: option.splits)
    moreover have "pending_bytes s2 = pending_bytes s" using s2(2) q
      by (intro pending_bytes_cong) (simp_all add: same_queue_def same_pending_def)
    ultimately show ?thesis using s2 q f'(2) by (intro exI [of _ s2] exI [of _ "[skb_data f']"]) (simp add: mgmt_frame_def)
  qed
qed

end

end
