(* ===== verification/Tx_Urb.thy ===== *)
theory Tx_Urb
  imports Tx
begin

text \<open>
  The last step of the transmit path, in \<open>rtl8187/r8187_core.c\<close>: rate codes and air times, the twelve
  byte descriptor in front of a frame, and the ring of sixteen USB request blocks a frame is copied
  into.  \<open>pv_bus\<close> lists the blocks the USB core holds, oldest first: \<open>usb_submit_urb\<close> appends to it,
  a completion interrupt takes the first one off.  \<open>None\<close> is an access outside of a buffer
  or a division by zero.
\<close>

section \<open>Rates and air times\<close>

definition ieeerate2rtlrate :: "int \<Rightarrow> u16" where
  "ieeerate2rtlrate rate =
     (if rate = 10 then 0 else if rate = 20 then 1 else if rate = 55 then 2 else if rate = 110 then 3
      else if rate = 60 then 4 else if rate = 90 then 5 else if rate = 120 then 6 else if rate = 180 then 7
      else if rate = 240 then 8 else if rate = 360 then 9 else if rate = 480 then 10
      else if rate = 540 then 11 else 3)"

definition rtl_rate :: "u16 list" where
  "rtl_rate = [10, 20, 55, 110, 60, 90, 120, 180, 240, 360, 480, 540]"

definition rtl8180_rate2rate :: "int \<Rightarrow> u16 option" where
  "rtl8180_rate2rate rate =
     (if rate > 11 then Some 0 else if rate < 0 then None else Some (rtl_rate ! nat rate))"

definition rtl8180_IsWirelessBMode :: "u16 \<Rightarrow> bool" where
  "rtl8180_IsWirelessBMode rate \<longleftrightarrow> (rate \<le> 110 \<and> rate \<noteq> 60 \<and> rate \<noteq> 90) \<or> rate = 220"

definition N_DBPSOfRate :: "u16 \<Rightarrow> u16" where
  "N_DBPSOfRate DataRate =
     (if DataRate = 60 then 24 else if DataRate = 90 then 36 else if DataRate = 120 then 48
      else if DataRate = 180 then 72 else if DataRate = 240 then 96 else if DataRate = 360 then 144
      else if DataRate = 480 then 192 else if DataRate = 540 then 216 else 24)"

text \<open>The arithmetic is done in \<open>int\<close> and stored into 16 bits; a rate below 1 Mb/s divides by zero.\<close>

definition ComputeTxTime :: "u16 \<Rightarrow> u16 \<Rightarrow> bool \<Rightarrow> bool \<Rightarrow> u16 option" where
  "ComputeTxTime FrameLength DataRate bManagementFrame bShortPreamble =
     (let bits = unat FrameLength * 8 in
      if rtl8180_IsWirelessBMode DataRate
      then let d = unat DataRate div 10;
             t = word_of_nat ((if bManagementFrame \<or> \<not> bShortPreamble \<or> DataRate = 10 then 144 + 48 else 72 + 24) + bits div d)
           in if d = 0 then None else Some (if bits mod d \<noteq> 0 then t + 1 else t)
      else let N_DBPS = unat (N_DBPSOfRate DataRate);
             Ceiling = word_of_nat ((16 + bits + 6) div N_DBPS + (if (16 + bits + 6) mod N_DBPS \<noteq> 0 then 1 else 0)) :: u16
           in Some (word_of_nat (16 + 4 + 4 * unat Ceiling + 6)))"

section \<open>State\<close>

datatype priority = LOW_PRIORITY | NORM_PRIORITY

text \<open>
  A block in flight: its slot of the ring, its pipe, the part of the slot's buffer to send, and what
  stood there when it was submitted.
  \<open>pv_bus\<close> and \<open>pv_usb_log\<close>, the frames that were accepted so far, belong to the USB core; the
  driver never reads them.
\<close>

record urb =
  ub_slot :: nat
  ub_pipe :: nat
  ub_off :: nat
  ub_len :: nat
  ub_data :: bytes

record r8180_priv =
  pv_tx_np_pending :: int
  pv_tx_lp_pending :: int
  pv_tx_urb_index :: nat
  pv_tx_context :: "bytes list"
  pv_bus :: "urb list"
  pv_usb_log :: "bytes list"
  pv_short_preamble :: bool
  pv_plcp_preamble_mode :: int
  pv_rts :: u16
  pv_basic_rate :: int
  pv_bHwRadioOff :: bool
  pv_txok :: u64
  pv_txerr :: u64
  pv_txnpdrop :: u64
  pv_txlpdrop :: u64
  pv_txdatapkt :: u64
  pv_txlpokint :: u64
  pv_txlperr :: u64
  pv_txnpokint :: u64
  pv_txnperr :: u64

abbreviation MAX_TX_URB :: nat where "MAX_TX_URB \<equiv> 16"

definition tx_pending :: "priority \<Rightarrow> r8180_priv \<Rightarrow> int" where
  "tx_pending pri pv = (if pri = NORM_PRIORITY then pv_tx_np_pending pv else pv_tx_lp_pending pv)"

definition check_nic_enought_desc :: "priority \<Rightarrow> r8180_priv \<Rightarrow> bool" where
  "check_nic_enought_desc pri pv \<longleftrightarrow> tx_pending pri pv < int MAX_TX_URB"

section \<open>Copying a frame into a block\<close>

text \<open>
  \<open>seg\<close> is the address of the frame modulo four.  The frame goes to the same alignment in the
  block's buffer: first the bytes up to the next word, then whole words.
\<close>

definition tx_copy_len :: "nat \<Rightarrow> nat \<Rightarrow> nat" where
  "tx_copy_len seg len = (if seg = 0 then 0 else 4 - seg) + 4 * ((len + 4 - seg) div 4)"

definition tx_duration :: "nat \<Rightarrow> int \<Rightarrow> bool \<Rightarrow> u16 option" where
  "tx_duration len rate short_preamble = do {
     AckCtsTime \<leftarrow> ComputeTxTime 14 10 False False;
     r \<leftarrow> rtl8180_rate2rate rate;
     FrameTime \<leftarrow> ComputeTxTime (word_of_nat (len + 4)) r False short_preamble;
     Some (FrameTime + 3 * 10 + 2 * AckCtsTime)
   }"

text \<open>The descriptor, computed over the twelve bytes \<open>h\<close> that were in the buffer before.\<close>

definition tx_desc :: "r8180_priv \<Rightarrow> nat \<Rightarrow> priority \<Rightarrow> bool \<Rightarrow> int \<Rightarrow> bytes \<Rightarrow> bytes option" where
  "tx_desc pv len pri morefrag rate h =
     (let short = pv_short_preamble pv \<and> pv_plcp_preamble_mode pv = 1 \<and> rate \<noteq> 0;
          rts = unat (pv_rts pv) < len \<and> pv_rts pv \<noteq> 0 \<and> pri = LOW_PRIORITY
      in do {
        duration \<leftarrow> (if rts then tx_duration len rate short else Some 0);
        Some [word_of_nat len, 0x80 OR ucast (drop_bit 8 (word_of_nat len AND 0x0f00 :: u16)),
          (if short then 1 else 0) OR (if rts then 0x80 else 0) OR (if morefrag then 2 else 0) OR
            push_bit 3 (ucast (ieeerate2rtlrate (pv_basic_rate pv))),
          word_of_int rate,
          (if rts then h ! 4 OR ucast duration else 0), (if rts then h ! 5 OR ucast (drop_bit 8 duration) else 0),
          h ! 6, h ! 7, 0x73, h ! 9 OR 11, h ! 10, h ! 11]
      })"

text \<open>The buffer after a frame was copied into it; \<open>mem\<close> is the memory from the start of the frame on.\<close>

definition tx_fill :: "r8180_priv \<Rightarrow> nat \<Rightarrow> bytes \<Rightarrow> nat \<Rightarrow> priority \<Rightarrow> bool \<Rightarrow> int \<Rightarrow> bytes \<Rightarrow> bytes option" where
  "tx_fill pv seg mem len pri morefrag rate buf = do {
     d \<leftarrow> buf_read 0 (tx_copy_len seg len) mem;
     buf \<leftarrow> buf_write (seg + 12) d buf;
     h \<leftarrow> buf_read seg 12 buf;
     h \<leftarrow> tx_desc pv len pri morefrag rate h;
     buf_write seg h buf
   }"

definition tx_urb_len :: "nat \<Rightarrow> nat" where
  "tx_urb_len len = (let n = len + 12 in if n mod 64 = 0 \<or> n mod 512 = 0 then n + 1 else n)"

text \<open>\<open>submit_ok\<close> tells whether \<open>usb_submit_urb\<close> takes the block.\<close>

definition rtl8180_tx :: "bool \<Rightarrow> nat \<Rightarrow> bytes \<Rightarrow> nat \<Rightarrow> priority \<Rightarrow> bool \<Rightarrow> int \<Rightarrow> r8180_priv \<Rightarrow> (int \<times> r8180_priv) option" where
  "rtl8180_tx submit_ok seg mem len pri morefrag rate pv =
     (if tx_pending pri pv > int MAX_TX_URB
      then Some (- 1, if pri = NORM_PRIORITY then pv\<lparr>pv_txnpdrop := pv_txnpdrop pv + 1\<rparr>
                     else pv\<lparr>pv_txlpdrop := pv_txlpdrop pv + 1\<rparr>)
      else do {
        let idx = pv_tx_urb_index pv;
        buf \<leftarrow> tx_fill pv seg mem len pri morefrag rate (pv_tx_context pv ! idx);
        let pv = pv\<lparr>pv_tx_context := (pv_tx_context pv)[idx := buf], pv_tx_urb_index := (idx + 1) mod MAX_TX_URB\<rparr>;
        if submit_ok
        then let pv = pv\<lparr>pv_bus := pv_bus pv @ [\<lparr>ub_slot = idx, ub_pipe = (if pri = LOW_PRIORITY then 2 else 3), ub_off = seg, ub_len = tx_urb_len len, ub_data = take (tx_urb_len len) (drop seg buf)\<rparr>],
                    pv_usb_log := pv_usb_log pv @ [take len mem], pv_txok := pv_txok pv + 1\<rparr>
             in Some (0, if pri = NORM_PRIORITY then pv\<lparr>pv_tx_np_pending := pv_tx_np_pending pv + 1\<rparr>
                        else pv\<lparr>pv_tx_lp_pending := pv_tx_lp_pending pv + 1\<rparr>)
        else Some (- 1, pv\<lparr>pv_txerr := pv_txerr pv + 1\<rparr>)
      })"

text \<open>The completion interrupts; \<open>ok\<close> is \<open>tx_urb->status == 0\<close>.\<close>

definition rtl8187_lptx_done :: "bool \<Rightarrow> r8180_priv \<Rightarrow> r8180_priv" where
  "rtl8187_lptx_done ok pv =
     (let pv = (if ok then pv\<lparr>pv_txlpokint := pv_txlpokint pv + 1\<rparr> else pv\<lparr>pv_txlperr := pv_txlperr pv + 1\<rparr>)
      in pv\<lparr>pv_tx_lp_pending := pv_tx_lp_pending pv - 1\<rparr>)"

definition rtl8187_nptx_isr :: "bool \<Rightarrow> r8180_priv \<Rightarrow> r8180_priv" where
  "rtl8187_nptx_isr ok pv =
     (let pv = (if ok then pv\<lparr>pv_txnpokint := pv_txnpokint pv + 1\<rparr> else pv\<lparr>pv_txnperr := pv_txnperr pv + 1\<rparr>)
      in pv\<lparr>pv_tx_np_pending := pv_tx_np_pending pv - 1\<rparr>)"

section \<open>What reaches the device\<close>

text \<open>The copy covers the frame unless the frame starts one byte before a word and its length is two modulo four.\<close>

lemma tx_copy_len_ge:
  assumes "seg < 4"
  shows "len \<le> tx_copy_len seg len \<longleftrightarrow> \<not> (seg = 3 \<and> len mod 4 = 2)"
proof -
  have "seg = 0 \<or> seg = 1 \<or> seg = 2 \<or> seg = 3" using assms by auto
  then show ?thesis by (elim disjE) (simp add: tx_copy_len_def; arith)+
qed

lemma tx_copy_len_le: "seg < 4 \<Longrightarrow> tx_copy_len seg len \<le> len + 8"
proof -
  have "4 * ((len + 4 - seg) div 4) \<le> len + 4" using times_div_less_eq_dividend [of 4 "len + 4 - seg"] by linarith
  then show ?thesis by (cases "seg = 0") (simp_all add: tx_copy_len_def)
qed

lemma tx_desc_length: "tx_desc pv len pri mf rate h = Some h' \<Longrightarrow> length h' = 12"
  by (auto simp: tx_desc_def Let_def bind_eq_Some_conv)

lemma tx_fill_shape:
  assumes "tx_fill pv seg mem len pri mf rate buf = Some buf'"
  shows "\<exists>h h'. tx_desc pv len pri mf rate h = Some h' \<and> length h = 12 \<and> length h' = 12 \<and>
     buf' = take seg buf @ h' @ take (tx_copy_len seg len) mem @ drop (seg + 12 + tx_copy_len seg len) buf \<and>
     seg + 12 + tx_copy_len seg len \<le> length buf \<and> tx_copy_len seg len \<le> length mem \<and> h = take 12 (drop seg buf)"
proof -
  let ?n = "tx_copy_len seg len"
  from assms have m: "?n \<le> length mem" and b: "seg + 12 + ?n \<le> length buf"
    by (auto simp: tx_fill_def buf_read_def buf_write_def bind_eq_Some_conv split: if_splits)
  let ?d = "take ?n mem" and ?b1 = "take (seg + 12) buf @ take ?n mem @ drop (seg + 12 + ?n) buf"
  have e1: "buf_read 0 ?n mem = Some ?d" using m by (simp add: buf_read_ge)
  have e2: "buf_write (seg + 12) ?d buf = Some ?b1" using m b by (simp add: buf_write_ge min_absorb2)
  have s: "take (seg + 12) buf = take seg buf @ take 12 (drop seg buf)" by (simp add: take_add)
  have e3: "buf_read seg 12 ?b1 = Some (take 12 (drop seg buf))"
    unfolding s append_assoc using b by (intro buf_read_append) auto
  from assms obtain h' where h': "tx_desc pv len pri mf rate (take 12 (drop seg buf)) = Some h'"
    and w: "buf_write seg h' ?b1 = Some buf'"
    by (auto simp: tx_fill_def e1 e2 e3 bind_eq_Some_conv)
  note l = tx_desc_length [OF h']
  have "buf_write seg h' ?b1 = Some (take seg buf @ h' @ ?d @ drop (seg + 12 + ?n) buf)"
    unfolding s append_assoc using b l by (intro buf_write_append) auto
  with w h' l b m show ?thesis by auto
qed

text \<open>The descriptor says how long the frame is and whether fragments follow.\<close>

definition desc_len :: "bytes \<Rightarrow> nat" where
  "desc_len h = unat (h ! 0) + 256 * unat (h ! 1 AND 0x0f)"

lemma and_0f00: "len < 4096 \<Longrightarrow> unat ((0x80 OR ucast (drop_bit 8 (word_of_nat len AND 0x0f00 :: u16)) :: u8) AND 0x0f) = len div 256"
proof -
  assume l: "len < 4096"
  have "((0x80 OR ucast (drop_bit 8 (word_of_nat len AND 0x0f00 :: u16)) :: u8) AND 0x0f) = ucast (take_bit 4 (drop_bit 8 (word_of_nat len :: u16)))"
  proof (rule bit_word_eqI)
    fix n assume "n < LENGTH(8)"
    then have "n = 0 \<or> n = 1 \<or> n = 2 \<or> n = 3 \<or> n = 4 \<or> n = 5 \<or> n = 6 \<or> n = 7" by auto
    then show "bit ((0x80 OR ucast (drop_bit 8 (word_of_nat len AND 0x0f00 :: u16)) :: u8) AND 0x0f) n = bit (ucast (take_bit 4 (drop_bit 8 (word_of_nat len :: u16))) :: u8) n"
      by (elim disjE) (simp_all add: bit_simps bit_numeral_rec bit_1_iff)
  qed
  moreover have "unat (ucast (take_bit 4 (drop_bit 8 (word_of_nat len :: u16))) :: u8) = len div 256"
  proof -
    have "unat (take_bit 4 (drop_bit 8 (word_of_nat len :: u16))) = len div 256"
      using l by (simp only: unsigned_take_bit_eq unsigned_drop_bit_eq) (simp add: take_bit_eq_mod drop_bit_eq_div unat_of_nat less_mult_imp_div_less)
    moreover have "len div 256 < 16" using l by (simp add: less_mult_imp_div_less)
    ultimately show ?thesis by (simp add: unsigned_ucast_eq take_bit_eq_mod)
  qed
  ultimately show ?thesis by simp
qed

lemma tx_desc_fields:
  assumes "tx_desc pv len pri mf rate h = Some h'" and "len < 4096"
  shows "desc_len h' = len" "bit (h' ! 2) 1 = mf" "h' ! 3 = word_of_int rate"
proof -
  from assms(1) obtain d where h': "h' = [word_of_nat len, 0x80 OR ucast (drop_bit 8 (word_of_nat len AND 0x0f00 :: u16)),
          (if pv_short_preamble pv \<and> pv_plcp_preamble_mode pv = 1 \<and> rate \<noteq> 0 then 1 else 0) OR
          (if unat (pv_rts pv) < len \<and> pv_rts pv \<noteq> 0 \<and> pri = LOW_PRIORITY then 0x80 else 0) OR (if mf then 2 else 0) OR
            push_bit 3 (ucast (ieeerate2rtlrate (pv_basic_rate pv)))] @ d" and d0: "d ! 0 = word_of_int rate" and "d \<noteq> []"
    by (auto simp: tx_desc_def Let_def bind_eq_Some_conv)
  have "len mod 256 + 256 * (len div 256) = len" by simp
  then show "desc_len h' = len" unfolding h' desc_len_def using and_0f00 [OF assms(2)]
    by (simp add: unat_of_nat)
  show "bit (h' ! 2) 1 = mf" unfolding h' by (simp add: bit_simps bit_numeral_rec bit_1_iff)
  show "h' ! 3 = word_of_int rate" unfolding h' using d0 by (simp add: nth_append)
qed

lemma rate2rate_ge:
  assumes "0 \<le> rate" and "rate \<le> 11"
  obtains r where "rtl8180_rate2rate rate = Some r" "10 \<le> unat r"
proof -
  have "rate = 0 \<or> rate = 1 \<or> rate = 2 \<or> rate = 3 \<or> rate = 4 \<or> rate = 5 \<or> rate = 6 \<or> rate = 7 \<or> rate = 8 \<or> rate = 9 \<or> rate = 10 \<or> rate = 11"
    using assms by arith
  then have "10 \<le> unat (rtl_rate ! nat rate)" by (elim disjE) (simp_all add: rtl_rate_def)
  moreover have "rtl8180_rate2rate rate = Some (rtl_rate ! nat rate)" using assms by (simp add: rtl8180_rate2rate_def)
  ultimately show ?thesis by (rule that [rotated])
qed

lemma ComputeTxTime_Some: "10 \<le> unat r \<Longrightarrow> \<exists>t. ComputeTxTime n r b s = Some t"
proof -
  assume "10 \<le> unat r"
  then have "unat r div 10 \<noteq> 0" by auto
  then show ?thesis by (simp add: ComputeTxTime_def Let_def)
qed

lemma tx_duration_Some:
  assumes "0 \<le> rate" and "rate \<le> 11"
  shows "\<exists>d. tx_duration len rate sp = Some d"
proof -
  obtain r where r: "rtl8180_rate2rate rate = Some r" "10 \<le> unat r" by (rule rate2rate_ge [OF assms])
  obtain a where "ComputeTxTime 14 10 False False = Some a" using ComputeTxTime_Some [of 10] by fastforce
  moreover obtain t where "ComputeTxTime (word_of_nat (len + 4)) r False sp = Some t" using ComputeTxTime_Some [OF r(2)] by blast
  ultimately show ?thesis using r by (simp add: tx_duration_def del: of_nat_add)
qed

lemma tx_desc_Some:
  assumes "0 \<le> rate" and "rate \<le> 11"
  shows "\<exists>h'. tx_desc pv len pri mf rate h = Some h'"
proof -
  obtain d where "tx_duration len rate (pv_short_preamble pv \<and> pv_plcp_preamble_mode pv = 1 \<and> rate \<noteq> 0) = Some d"
    using tx_duration_Some [OF assms] by blast
  then show ?thesis unfolding tx_desc_def Let_def
    by (cases "unat (pv_rts pv) < len \<and> pv_rts pv \<noteq> 0 \<and> pri = LOW_PRIORITY") simp_all
qed

lemma tx_fill_Some:
  assumes "0 \<le> rate" "rate \<le> 11" "seg < 4" "len \<le> 2400" "2497 \<le> length buf" "len + 8 \<le> length mem"
  shows "\<exists>buf'. tx_fill pv seg mem len pri mf rate buf = Some buf'"
proof -
  let ?n = "tx_copy_len seg len"
  have n: "?n \<le> len + 8" by (rule tx_copy_len_le [OF assms(3)])
  have e1: "buf_read 0 ?n mem = Some (take ?n mem)" using n assms by (simp add: buf_read_ge)
  have ld: "length (take ?n mem) = ?n" using n assms by simp
  have b: "seg + 12 + length (take ?n mem) \<le> length buf" using ld n assms by linarith
  note e2 = buf_write_ge [OF b]
  obtain b1 where b1: "buf_write (seg + 12) (take ?n mem) buf = Some b1" and l1: "length b1 = length buf"
    using e2 buf_write_len [OF e2] by blast
  have e3: "buf_read seg 12 b1 = Some (take 12 (drop seg b1))" using b l1 by (intro buf_read_ge) linarith
  obtain h' where h: "tx_desc pv len pri mf rate (take 12 (drop seg b1)) = Some h'"
    using tx_desc_Some [OF assms(1,2)] by blast
  have "seg + length h' \<le> length b1" using tx_desc_length [OF h] b l1 by linarith
  from buf_write_ge [OF this] show ?thesis by (simp add: tx_fill_def e1 b1 e3 h)
qed

lemma take_drop_fill:
  "\<lbrakk>length a = n; length h = 12; k \<le> length p\<rbrakk> \<Longrightarrow> take k (drop (n + 12) (a @ h @ p @ c)) = take k p"
  by simp

lemma tx_urb_len_ok: "len + 12 \<le> tx_urb_len len" "tx_urb_len len \<le> len + 13" "tx_urb_len len mod 64 \<noteq> 0"
proof -
  define n where "n = len + 12"
  have a: "n mod 512 = 0 \<Longrightarrow> n mod 64 = 0"
    unfolding dvd_eq_mod_eq_0 [symmetric] by (rule dvd_trans [of 64 512]) simp_all
  have b: "n mod 64 = 0 \<Longrightarrow> (n + 1) mod 64 \<noteq> 0" by (simp add: mod_Suc)
  have e: "tx_urb_len len = (if n mod 64 = 0 then n + 1 else n)"
    unfolding tx_urb_len_def Let_def n_def [symmetric] using a by auto
  show "len + 12 \<le> tx_urb_len len" "tx_urb_len len \<le> len + 13" "tx_urb_len len mod 64 \<noteq> 0"
    using b unfolding e n_def by auto
qed

text \<open>C23: A frame of up to 2400 bytes is copied into its block without leaving the block's buffer or
  reading more than eight bytes past the frame: behind the descriptor, which carries the length, the
  fragment flag and the rate, stand the bytes of the frame, and the block that is submitted covers
  them without being a multiple of the packet size.  The one exception is a frame that starts one
  byte before a word boundary and whose length is two modulo four: its last byte is not copied, the
  block sends what was in the buffer before.\<close>

theorem tx_fill_frame:
  assumes "seg < 4" and "len \<le> 2400" and "2497 \<le> length buf" and "len + 8 \<le> length mem" and "0 \<le> rate" and "rate \<le> 11"
  shows "\<exists>buf' h. tx_fill pv seg mem len pri mf rate buf = Some buf' \<and> length buf' = length buf \<and>
     h = take 12 (drop seg buf') \<and> desc_len h = len \<and> bit (h ! 2) 1 = mf \<and> h ! 3 = word_of_int rate \<and>
     seg + tx_urb_len len \<le> length buf' \<and> len + 12 \<le> tx_urb_len len \<and> tx_urb_len len mod 64 \<noteq> 0 \<and>
     (if seg = 3 \<and> len mod 4 = 2
      then take (len - 1) (drop (seg + 12) buf') = take (len - 1) mem \<and> buf' ! (seg + 12 + len - 1) = buf ! (seg + 12 + len - 1)
      else take len (drop (seg + 12) buf') = take len mem)"
proof -
  let ?n = "tx_copy_len seg len"
  obtain buf' where f: "tx_fill pv seg mem len pri mf rate buf = Some buf'"
    using tx_fill_Some [OF assms(5,6,1,2,3,4)] by blast
  from tx_fill_shape [OF f] obtain h0 h where d: "tx_desc pv len pri mf rate h0 = Some h" and lh: "length h = 12"
    and b: "buf' = take seg buf @ h @ take ?n mem @ drop (seg + 12 + ?n) buf"
    and lb: "seg + 12 + ?n \<le> length buf" and lm: "?n \<le> length mem" by blast
  have ls: "length (take seg buf) = seg" using lb by simp
  have hh: "h = take 12 (drop seg buf')" unfolding b using ls lh by simp
  have len: "length buf' = length buf" unfolding b using ls lh lb lm by simp
  have "len < 4096" using assms(2) by simp
  note fields = tx_desc_fields [OF d this]
  have u: "seg + tx_urb_len len \<le> length buf'" using assms(1-3) tx_urb_len_ok(2) [of len] len by linarith
  have p: "take k (drop (seg + 12) buf') = take k mem" if "k \<le> ?n" for k
    unfolding b using ls lh lm that by (subst take_drop_fill) (auto simp: min_absorb1)
  have "if seg = 3 \<and> len mod 4 = 2
      then take (len - 1) (drop (seg + 12) buf') = take (len - 1) mem \<and> buf' ! (seg + 12 + len - 1) = buf ! (seg + 12 + len - 1)
      else take len (drop (seg + 12) buf') = take len mem"
  proof (cases "seg = 3 \<and> len mod 4 = 2")
    case True
    have n: "?n = len - 1" and l: "0 < len" using True unfolding tx_copy_len_def by presburger+
    have "buf' ! (seg + 12 + len - 1) = drop (seg + 12 + ?n) buf ! 0"
      unfolding b using ls lh lm n l by (simp add: nth_append)
    then show ?thesis using True p [of "len - 1"] n l lb by simp
  next
    case False
    then show ?thesis using p [of len] tx_copy_len_ge [OF assms(1)] by auto
  qed
  with f len hh fields u show ?thesis using tx_urb_len_ok [of len] by blast
qed

definition tx_test_priv :: r8180_priv where
  "tx_test_priv = \<lparr>pv_tx_np_pending = 0, pv_tx_lp_pending = 0, pv_tx_urb_index = 0, pv_tx_context = replicate 16 (replicate 2500 0),
     pv_bus = [], pv_usb_log = [], pv_short_preamble = False, pv_plcp_preamble_mode = 0, pv_rts = 0, pv_basic_rate = 10, pv_bHwRadioOff = False,
     pv_txok = 0, pv_txerr = 0, pv_txnpdrop = 0, pv_txlpdrop = 0, pv_txdatapkt = 0, pv_txlpokint = 0, pv_txlperr = 0,
     pv_txnpokint = 0, pv_txnperr = 0\<rparr>"

theorem tx_fill_frame_witness:
  "\<exists>buf' h. tx_fill tx_test_priv 3 (replicate 40 7) 6 LOW_PRIORITY False 3 (replicate 2500 0) = Some buf' \<and>
     length buf' = length (replicate 2500 (0 :: u8)) \<and>
     h = take 12 (drop 3 buf') \<and> desc_len h = 6 \<and> bit (h ! 2) 1 = False \<and> h ! 3 = word_of_int 3 \<and>
     3 + tx_urb_len 6 \<le> length buf' \<and> 6 + 12 \<le> tx_urb_len 6 \<and> tx_urb_len 6 mod 64 \<noteq> 0 \<and>
     (if (3 :: nat) = 3 \<and> (6 :: nat) mod 4 = 2
      then take (6 - 1) (drop (3 + 12) buf') = take (6 - 1) (replicate 40 7) \<and> buf' ! (3 + 12 + 6 - 1) = replicate 2500 0 ! (3 + 12 + 6 - 1)
      else take 6 (drop (3 + 12) buf') = take 6 (replicate 40 7))"
proof -
  have "(3 :: nat) < 4" "(6 :: nat) \<le> 2400" "2497 \<le> length (replicate 2500 (0 :: u8))" "6 + 8 \<le> length (replicate 40 (7 :: u8))"
    "(0 :: int) \<le> 3" "(3 :: int) \<le> 11" by simp_all
  then show ?thesis by (rule tx_fill_frame)
qed

end
