(* ===== verification/Tx_Driver.thy ===== *)
theory Tx_Driver
  imports Tx_Flow Tx_Urb
begin

text \<open>
  The transmit side of \<open>rtl8187/r8187_core.c\<close> under the queue: \<open>rtl8180_hard_data_xmit\<close>, which the
  queue calls for every frame, and the completion interrupt, which wakes the queue.  The driver keeps
  the contract of theory Tx_Flow when the USB core takes every block, and the properties at the end are
  those of the two layers together.
\<close>

section \<open>Operations\<close>

text \<open>
  The environment: whether \<open>usb_submit_urb\<close> takes a block, the address of a frame modulo four, and the
  memory behind the buffer of a frame (its \<open>skb_shared_info\<close>).
\<close>

record tx_env =
  en_submit :: "r8180_priv \<Rightarrow> bool"
  en_seg :: "sk_buff \<Rightarrow> nat"
  en_behind :: "sk_buff \<Rightarrow> bytes"

definition rtl8180_hard_data_xmit :: "tx_env \<Rightarrow> sk_buff \<Rightarrow> int \<Rightarrow> ('p, r8180_priv) softmac \<Rightarrow> ('p, r8180_priv) softmac option" where
  "rtl8180_hard_data_xmit env skb rate s = do {
     fc \<leftarrow> skb_load 0 2 skb;
     let morefrag = get_le16 (fc ! 0) (fc ! 1) AND FCTL_MOREFRAGS \<noteq> 0;
     if pv_bHwRadioOff (sm_drv s) then Some s
     else do {
       let s = (if check_nic_enought_desc LOW_PRIORITY (sm_drv s) then s else ieee80211_stop_queue s);
       (_, pv) \<leftarrow> rtl8180_tx (en_submit env (sm_drv s)) (en_seg env skb) (skb_data skb @ skb_room skb @ en_behind env skb)
         (skb_len skb) LOW_PRIORITY morefrag (uint (ieeerate2rtlrate rate)) (sm_drv s);
       let s = s\<lparr>sm_drv := pv\<lparr>pv_txdatapkt := pv_txdatapkt pv + 1\<rparr>\<rparr>;
       Some (if check_nic_enought_desc LOW_PRIORITY (sm_drv s) then s else ieee80211_stop_queue s)
     }
   }"

definition rtl8180_try_wake_queue :: "tx_env \<Rightarrow> priority \<Rightarrow> ('p, r8180_priv) softmac \<Rightarrow> ('p, r8180_priv) softmac option" where
  "rtl8180_try_wake_queue env pri s =
     (if check_nic_enought_desc pri (sm_drv s) then ieee80211_wake_queue (rtl8180_hard_data_xmit env) s else Some s)"

definition rtl8187_lptx_isr :: "tx_env \<Rightarrow> bool \<Rightarrow> ('p, r8180_priv) softmac \<Rightarrow> ('p, r8180_priv) softmac option" where
  "rtl8187_lptx_isr env ok s = rtl8180_try_wake_queue env LOW_PRIORITY (s\<lparr>sm_drv := rtl8187_lptx_done ok (sm_drv s)\<rparr>)"

text \<open>The USB core gives the oldest block back and calls its completion function.\<close>

definition usb_complete :: "tx_env \<Rightarrow> bool \<Rightarrow> ('p, r8180_priv) softmac \<Rightarrow> ('p, r8180_priv) softmac option" where
  "usb_complete env ok s = rtl8187_lptx_isr env ok (s\<lparr>sm_drv := (sm_drv s)\<lparr>pv_bus := tl (pv_bus (sm_drv s))\<rparr>\<rparr>)"

section \<open>The invariant of the ring of blocks\<close>

text \<open>
  The blocks in flight are the last ones of the ring, in order, and still hold what was submitted;
  sixteen of them stop the queue.
\<close>

definition bus_slots :: "nat \<Rightarrow> nat \<Rightarrow> nat list" where
  "bus_slots idx n = map (\<lambda>k. (idx + MAX_TX_URB - n + k) mod MAX_TX_URB) [0..<n]"

definition tx_ring_ok :: "r8180_priv \<Rightarrow> bool \<Rightarrow> bool" where
  "tx_ring_ok pv stop \<longleftrightarrow> length (pv_tx_context pv) = MAX_TX_URB \<and> list_all (\<lambda>b. 2497 \<le> length b) (pv_tx_context pv) \<and>
     pv_tx_urb_index pv < MAX_TX_URB \<and> pv_tx_lp_pending pv = int (length (pv_bus pv)) \<and> length (pv_bus pv) \<le> MAX_TX_URB \<and>
     map ub_slot (pv_bus pv) = bus_slots (pv_tx_urb_index pv) (length (pv_bus pv)) \<and>
     list_all (\<lambda>u. take (ub_len u) (drop (ub_off u) (pv_tx_context pv ! ub_slot u)) = ub_data u) (pv_bus pv) \<and>
     stop = (length (pv_bus pv) = MAX_TX_URB) \<and> \<not> pv_bHwRadioOff pv"

lemma distinct_bus_slots:
  assumes "n \<le> 16"
  shows "distinct (bus_slots idx n)"
proof -
  define c where "c = idx + 16 - n"
  have le: "a = b" if "a \<le> b" "b < n" "(c + b) mod 16 = (c + a) mod 16" for a b
  proof -
    have "16 dvd (c + b) - (c + a)" using that(3) mod_eq_dvd_iff_nat [of "c + a" "c + b" 16] that(1) by (metis nat_add_left_cancel_le)
    moreover have "(c + b) - (c + a) = b - a" by simp
    ultimately obtain q where q: "b - a = 16 * q" by (metis dvdE)
    have "b - a < 16" using that assms by linarith
    then have "q = 0" using q by linarith
    then show "a = b" using q that(1) by simp
  qed
  have "inj_on (\<lambda>k. (c + k) mod 16) {0..<n}"
  proof (rule inj_onI)
    fix a b assume ab: "a \<in> {0..<n}" "b \<in> {0..<n}" and e: "(c + a) mod 16 = (c + b) mod 16"
    have n: "a < n" "b < n" using ab by simp_all
    show "a = b"
    proof (cases "a \<le> b")
      case True
      then show ?thesis by (rule le [OF _ n(2) e [symmetric]])
    next
      case False
      then have "b \<le> a" by simp
      then have "b = a" by (rule le [OF _ n(1) e])
      then show ?thesis by simp
    qed
  qed
  then show ?thesis by (simp add: bus_slots_def distinct_map c_def)
qed

lemma bus_slots_snoc:
  assumes "n < 16" "idx < 16"
  shows "bus_slots idx n @ [idx] = bus_slots ((idx + 1) mod 16) (Suc n)"
proof -
  define j where "j = (idx + 1) mod 16"
  have e: "(j + 16 - Suc n + k) mod 16 = (idx + 16 - n + k) mod 16" for k
  proof (cases "idx = 15")
    case True
    have "idx + 16 - n + k = 16 + (15 - n + k)" using True assms by simp
    moreover have "j + 16 - Suc n + k = 15 - n + k" using True assms by (simp add: j_def)
    ultimately show ?thesis by (simp only: mod_add_self1)
  next
    case False
    then have "j = idx + 1" using assms by (simp add: j_def)
    then have "j + 16 - Suc n + k = idx + 16 - n + k" using assms by linarith
    then show ?thesis by simp
  qed
  have "idx + 16 - n + n = idx + 16" using assms by linarith
  then have "(idx + 16 - n + n) mod 16 = idx" using assms by simp
  then show ?thesis unfolding bus_slots_def j_def [symmetric] e by simp
qed

lemma bus_slots_tl: "\<lbrakk>n \<le> 16; 0 < n\<rbrakk> \<Longrightarrow> tl (bus_slots idx n) = bus_slots idx (n - 1)"
proof (cases n)
  case (Suc m)
  assume "n \<le> 16"
  have e: "idx + 16 - n + Suc k = idx + 16 - m + k" for k using Suc \<open>n \<le> 16\<close> by linarith
  have "map (\<lambda>k. (idx + 16 - n + k) mod 16) [Suc 0..<Suc m] = map (\<lambda>k. (idx + 16 - n + Suc k) mod 16) [0..<m]"
    by (simp only: map_Suc_upt [symmetric] map_map comp_def)
  then have "map (\<lambda>k. (idx + 16 - n + k) mod 16) [Suc 0..<Suc m] = map (\<lambda>k. (idx + 16 - m + k) mod 16) [0..<m]"
    unfolding e .
  then show ?thesis unfolding bus_slots_def Suc by (subst upt_conv_Cons) simp_all
qed simp

lemma bus_slots_fresh:
  assumes "n < 16" "idx < 16"
  shows "idx \<notin> set (bus_slots idx n)"
proof -
  have "distinct (bus_slots idx n @ [idx])" unfolding bus_slots_snoc [OF assms] using assms by (intro distinct_bus_slots) simp
  then show ?thesis by simp
qed


lemma tx_fill_length: "tx_fill pv seg mem len pri mf rate buf = Some buf' \<Longrightarrow> length buf' = length buf"
  by (auto simp: tx_fill_def bind_eq_Some_conv dest!: buf_write_len)

text \<open>A block in flight that is not in the slot that is written keeps its contents.\<close>

definition urb_held :: "bytes list \<Rightarrow> urb \<Rightarrow> bool" where
  "urb_held ctx u \<longleftrightarrow> take (ub_len u) (drop (ub_off u) (ctx ! ub_slot u)) = ub_data u"

lemma urb_held_update: "i \<noteq> ub_slot u \<Longrightarrow> urb_held (ctx[i := b]) u = urb_held ctx u"
  by (simp add: urb_held_def)

lemma rtl8180_tx_ok:
  assumes "tx_ring_ok pv False" "len \<le> 2400" "seg < 4" "len + 8 \<le> length mem" "0 \<le> rate" "rate \<le> 11"
  shows "\<exists>pv'. rtl8180_tx True seg mem len LOW_PRIORITY mf rate pv = Some (0, pv') \<and>
    tx_ring_ok (pv'\<lparr>pv_txdatapkt := pv_txdatapkt pv' + 1\<rparr>) (\<not> check_nic_enought_desc LOW_PRIORITY pv') \<and>
    pv_usb_log pv' = pv_usb_log pv @ [take len mem]"
proof -
  let ?i = "pv_tx_urb_index pv" and ?n = "length (pv_bus pv)"
  note ok = assms(1) [unfolded tx_ring_ok_def]
  have i: "?i < 16" and lc: "length (pv_tx_context pv) = 16" and n: "?n < 16" and pend: "pv_tx_lp_pending pv = int ?n"
    using ok by auto
  have lb: "2497 \<le> length (pv_tx_context pv ! ?i)" using ok i by (auto simp: list_all_length)
  obtain buf where b: "tx_fill pv seg mem len LOW_PRIORITY mf rate (pv_tx_context pv ! ?i) = Some buf"
    using tx_fill_Some [OF assms(5,6,3,2) lb assms(4)] by blast
  let ?u = "\<lparr>ub_slot = ?i, ub_pipe = 2, ub_off = seg, ub_len = tx_urb_len len, ub_data = take (tx_urb_len len) (drop seg buf)\<rparr>"
  let ?ctx = "(pv_tx_context pv)[?i := buf]"
  let ?pv = "pv\<lparr>pv_tx_context := ?ctx, pv_tx_urb_index := (?i + 1) mod 16, pv_bus := pv_bus pv @ [?u],
     pv_usb_log := pv_usb_log pv @ [take len mem], pv_txok := pv_txok pv + 1, pv_tx_lp_pending := pv_tx_lp_pending pv + 1\<rparr>"
  have t: "rtl8180_tx True seg mem len LOW_PRIORITY mf rate pv = Some (0, ?pv)"
    using b n pend by (simp add: rtl8180_tx_def tx_pending_def Let_def)
  have l: "list_all (\<lambda>b. 2497 \<le> length b) ?ctx"
    using ok lb tx_fill_length [OF b] set_update_subset_insert [of "pv_tx_context pv" ?i buf] by (auto simp: list_all_iff)
  have slots: "map ub_slot (pv_bus pv @ [?u]) = bus_slots ((?i + 1) mod 16) (Suc ?n)"
    using ok bus_slots_snoc [OF n i] by simp
  have fresh: "ub_slot u \<noteq> ?i" if "u \<in> set (pv_bus pv)" for u
    using bus_slots_fresh [OF n i] ok that by (metis image_eqI list.set_map)
  have "list_all (urb_held (pv_tx_context pv)) (pv_bus pv)" using ok by (simp add: urb_held_def [abs_def])
  then have "list_all (urb_held ?ctx) (pv_bus pv)"
    using fresh unfolding list_all_iff by (metis urb_held_update)
  then have held: "list_all (urb_held ?ctx) (pv_bus pv @ [?u])" using i lc by (simp add: urb_held_def)
  have "tx_ring_ok (?pv\<lparr>pv_txdatapkt := pv_txdatapkt ?pv + 1\<rparr>) (\<not> check_nic_enought_desc LOW_PRIORITY ?pv)"
    unfolding tx_ring_ok_def using l slots held n i lc ok pend
    by (simp add: urb_held_def [abs_def] check_nic_enought_desc_def tx_pending_def) linarith
  with t show ?thesis by (intro exI [of _ ?pv]) simp
qed

section \<open>The driver keeps the queue's contract\<close>

definition env_ok :: "tx_env \<Rightarrow> bool" where
  "env_ok env \<longleftrightarrow> (\<forall>pv. en_submit env pv) \<and> (\<forall>f. en_seg env f < 4 \<and> 8 \<le> length (en_behind env f))"

lemma ieeerate2rtlrate_range: "0 \<le> uint (ieeerate2rtlrate rate)" "uint (ieeerate2rtlrate rate) \<le> 11"
  by (simp_all add: ieeerate2rtlrate_def)

lemma hard_data_xmit_ok:
  assumes "env_ok env \<and> tx_ring_ok (sm_drv s) False" "\<not> sm_queue_stop s" "tx_frame_ok f"
  shows "\<exists>d stop. rtl8180_hard_data_xmit env f r s =
      Some (if stop then ieee80211_stop_queue (s\<lparr>sm_drv := d\<rparr>) else s\<lparr>sm_drv := d\<rparr>) \<and>
    (env_ok env \<and> tx_ring_ok d stop) \<and> pv_usb_log d = pv_usb_log (sm_drv s) @ [skb_data f]"
proof -
  have e: "en_submit env (sm_drv s)" "en_seg env f < 4" "8 \<le> length (en_behind env f)" and ring: "tx_ring_ok (sm_drv s) False"
    using assms(1) by (auto simp: env_ok_def)
  have l: "skb_len f \<le> 2400" "0 + 2 \<le> length (skb_data f)" using assms(3) by (auto simp: tx_frame_ok_def skb_len_def)
  have m: "skb_len f + 8 \<le> length (skb_data f @ skb_room f @ en_behind env f)" using e by (simp add: skb_len_def)
  note fc = buf_read_ge [OF l(2)]
  have free: "check_nic_enought_desc LOW_PRIORITY (sm_drv s)" "\<not> pv_bHwRadioOff (sm_drv s)"
    using ring by (auto simp: tx_ring_ok_def check_nic_enought_desc_def tx_pending_def)
  let ?mf = "get_le16 (take 2 (drop 0 (skb_data f)) ! 0) (take 2 (drop 0 (skb_data f)) ! 1) AND FCTL_MOREFRAGS \<noteq> 0"
  from rtl8180_tx_ok [OF ring l(1) e(2) m ieeerate2rtlrate_range, of ?mf r] obtain pv where
    t: "rtl8180_tx True (en_seg env f) (skb_data f @ skb_room f @ en_behind env f) (skb_len f) LOW_PRIORITY ?mf (uint (ieeerate2rtlrate r)) (sm_drv s) = Some (0, pv)"
    and ok: "tx_ring_ok (pv\<lparr>pv_txdatapkt := pv_txdatapkt pv + 1\<rparr>) (\<not> check_nic_enought_desc LOW_PRIORITY pv)"
    and log: "pv_usb_log pv = pv_usb_log (sm_drv s) @ [take (skb_len f) (skb_data f @ skb_room f @ en_behind env f)]" by blast
  let ?d = "pv\<lparr>pv_txdatapkt := pv_txdatapkt pv + 1\<rparr>"
  have c: "check_nic_enought_desc LOW_PRIORITY ?d = check_nic_enought_desc LOW_PRIORITY pv"
    by (simp add: check_nic_enought_desc_def tx_pending_def)
  have "rtl8180_hard_data_xmit env f r s = Some (if \<not> check_nic_enought_desc LOW_PRIORITY pv then ieee80211_stop_queue (s\<lparr>sm_drv := ?d\<rparr>) else s\<lparr>sm_drv := ?d\<rparr>)"
    using fc free e(1) t c by (simp add: rtl8180_hard_data_xmit_def skb_load_def Let_def)
  then show ?thesis using ok log assms(1)
    by (intro exI [of _ ?d] exI [of _ "\<not> check_nic_enought_desc LOW_PRIORITY pv"]) (simp add: skb_len_def)
qed

interpretation rtl: tx_driver "rtl8180_hard_data_xmit env" "\<lambda>d stop. env_ok env \<and> tx_ring_ok d stop" pv_usb_log for env
  by unfold_locales (rule hard_data_xmit_ok)

section \<open>Completions\<close>

lemma lptx_ring:
  assumes "tx_ring_ok pv stop" "pv_bus pv \<noteq> []"
  shows "tx_ring_ok (rtl8187_lptx_done ok (pv\<lparr>pv_bus := tl (pv_bus pv)\<rparr>)) False"
    and "check_nic_enought_desc LOW_PRIORITY (rtl8187_lptx_done ok (pv\<lparr>pv_bus := tl (pv_bus pv)\<rparr>))"
    and "pv_usb_log (rtl8187_lptx_done ok (pv\<lparr>pv_bus := tl (pv_bus pv)\<rparr>)) = pv_usb_log pv"
proof -
  let ?n = "length (pv_bus pv)"
  have n: "?n \<le> 16" "0 < ?n" using assms by (auto simp: tx_ring_ok_def)
  have s: "map ub_slot (tl (pv_bus pv)) = bus_slots (pv_tx_urb_index pv) (?n - 1)"
    using bus_slots_tl [OF n, of "pv_tx_urb_index pv"] assms by (simp add: tx_ring_ok_def map_tl)
  have la: "list_all P (pv_bus pv) \<Longrightarrow> list_all P (tl (pv_bus pv))" for P by (cases "pv_bus pv") auto
  let ?pv = "rtl8187_lptx_done ok (pv\<lparr>pv_bus := tl (pv_bus pv)\<rparr>)"
  have f: "pv_bus ?pv = tl (pv_bus pv)" "pv_tx_lp_pending ?pv = pv_tx_lp_pending pv - 1" "pv_tx_context ?pv = pv_tx_context pv"
    "pv_tx_urb_index ?pv = pv_tx_urb_index pv" "pv_bHwRadioOff ?pv = pv_bHwRadioOff pv"
    by (simp_all add: rtl8187_lptx_done_def Let_def)
  note r = assms(1) [unfolded tx_ring_ok_def]
  have "?n - 1 \<noteq> 16" "?n - 1 \<le> 16" using n by linarith+
  moreover have "pv_tx_lp_pending pv = int ?n" using r by blast
  moreover from this have "pv_tx_lp_pending pv - 1 = int (?n - 1)" using n by linarith
  ultimately show "tx_ring_ok ?pv False"
    unfolding tx_ring_ok_def f length_tl s using r la by blast
  show "check_nic_enought_desc LOW_PRIORITY (rtl8187_lptx_done ok (pv\<lparr>pv_bus := tl (pv_bus pv)\<rparr>))"
    using assms n by (auto simp: tx_ring_ok_def rtl8187_lptx_done_def check_nic_enought_desc_def tx_pending_def Let_def)
  show "pv_usb_log (rtl8187_lptx_done ok (pv\<lparr>pv_bus := tl (pv_bus pv)\<rparr>)) = pv_usb_log pv"
    by (simp add: rtl8187_lptx_done_def Let_def)
qed

text \<open>Queue and driver between two events.\<close>

definition tx_inv :: "('p, r8180_priv) softmac \<Rightarrow> bool" where
  "tx_inv s \<longleftrightarrow> queue_wf s \<and> tx_ring_ok (sm_drv s) (sm_queue_stop s)"

lemma tx_inv_stopped: "\<lbrakk>tx_inv s; sm_queue_stop s\<rbrakk> \<Longrightarrow> pv_bus (sm_drv s) \<noteq> []"
  by (auto simp: tx_inv_def tx_ring_ok_def)

lemma usb_complete_spec:
  assumes "env_ok env" "tx_inv s" "pv_bus (sm_drv s) \<noteq> []"
  shows "\<exists>s' ms ds. usb_complete env ok s = Some s' \<and> tx_inv s' \<and>
    pv_usb_log (sm_drv s') = pv_usb_log (sm_drv s) @ ms @ ds \<and> list_all (\<lambda>d. \<not> is_data d) ms \<and>
    ds @ pending_bytes s' = pending_bytes s \<and> rtl.queue_work s' + length (ms @ ds) \<le> rtl.queue_work s \<and>
    (ms @ ds = [] \<longrightarrow> \<not> sm_queue_stop s') \<and>
    (sm_queue_stop s \<longrightarrow> \<not> sm_queue_stop s' \<longrightarrow> sm_pending_txb s' = None \<and> \<not> td_netif_stopped (sm_td s'))"
proof -
  let ?d = "rtl8187_lptx_done ok ((sm_drv s)\<lparr>pv_bus := tl (pv_bus (sm_drv s))\<rparr>)"
  let ?s = "s\<lparr>sm_drv := ?d\<rparr>"
  have ring: "tx_ring_ok (sm_drv s) (sm_queue_stop s)" using assms(2) by (simp add: tx_inv_def)
  note l = lptx_ring [OF ring assms(3), of ok]
  have u: "usb_complete env ok s = ieee80211_wake_queue (rtl8180_hard_data_xmit env) ?s"
    using l(2) by (simp add: usb_complete_def rtl8187_lptx_isr_def rtl8180_try_wake_queue_def)
  have pb: "pending_bytes ?s = pending_bytes s" by (rule pending_bytes_cong) simp_all
  have wf: "queue_wf ?s" using assms(2) by (simp add: tx_inv_def queue_wf_def split: option.splits)
  have qw: "rtl.queue_work ?s = rtl.queue_work s" by (simp add: rtl.queue_work_def pb)
  show ?thesis
  proof (cases "sm_queue_stop s")
    case True
    have "sm_queue_stop ?s" "env_ok env \<and> tx_ring_ok (sm_drv ?s) False" using True assms(1) l(1) by simp_all
    from rtl.wake_queue_spec [OF wf this] show ?thesis unfolding u tx_inv_def using l(3) pb qw by auto
  next
    case False
    then have "usb_complete env ok s = Some ?s" unfolding u by (simp add: ieee80211_wake_queue_def)
    moreover have "tx_inv ?s" using False l(1) wf by (simp add: tx_inv_def)
    ultimately show ?thesis using False l(3) pb qw
      by (intro exI [of _ ?s] exI [of _ "[]"]) simp
  qed
qed

section \<open>Runs of the transmit path\<close>

text \<open>
  \<open>tx_trace env s0 bs s\<close>: from \<open>s0\<close> the blocks \<open>bs\<close> were handed over one after the other, with management
  frames and completions in between, and \<open>s\<close> is the state.  The network stack hands over a block only
  while it is not stopped, and only blocks in flight complete.
\<close>

inductive tx_trace :: "tx_env \<Rightarrow> ('p, r8180_priv) softmac \<Rightarrow> ieee80211_txb list \<Rightarrow> ('p, r8180_priv) softmac \<Rightarrow> bool"
  for env s0 where
  start: "tx_trace env s0 [] s0"
| block: "\<lbrakk>tx_trace env s0 bs s; \<not> td_netif_stopped (sm_td s); data_txb txb;
    ieee80211_softmac_xmit (rtl8180_hard_data_xmit env) txb s = Some s'\<rbrakk> \<Longrightarrow> tx_trace env s0 (bs @ [txb]) s'"
| mgmt: "\<lbrakk>tx_trace env s0 bs s; mgmt_frame f;
    softmac_mgmt_xmit (rtl8180_hard_data_xmit env) f s = Some s'\<rbrakk> \<Longrightarrow> tx_trace env s0 bs s'"
| complete: "\<lbrakk>tx_trace env s0 bs s; pv_bus (sm_drv s) \<noteq> [];
    usb_complete env ok s = Some s'\<rbrakk> \<Longrightarrow> tx_trace env s0 bs s'"

lemma filter_not_data: "list_all (\<lambda>d. \<not> is_data d) ms \<Longrightarrow> filter is_data ms = []"
  by (induction ms) auto

lemma filter_data: "list_all is_data ds \<Longrightarrow> filter is_data ds = ds"
  by (induction ds) auto

lemma pending_data: "\<lbrakk>queue_wf s; ds @ pending_bytes s' = pending_bytes s\<rbrakk> \<Longrightarrow> list_all is_data ds"
proof -
  assume "queue_wf s" and d: "ds @ pending_bytes s' = pending_bytes s"
  then have "list_all is_data (pending_bytes s)"
    by (auto simp: queue_wf_def pending_bytes_def data_txb_def list_all_iff dest: in_set_dropD split: option.splits)
  then show ?thesis unfolding d [symmetric] by simp
qed

text \<open>One event: it succeeds, and keeps the invariant and the account of the fragments.\<close>

lemma block_step:
  assumes "env_ok env" "tx_inv s" "data_txb txb" "\<not> td_netif_stopped (sm_td s)"
  shows "\<exists>s'. ieee80211_softmac_xmit (rtl8180_hard_data_xmit env) txb s = Some s' \<and> tx_inv s' \<and>
    filter is_data (pv_usb_log (sm_drv s')) @ pending_bytes s' =
      filter is_data (pv_usb_log (sm_drv s)) @ pending_bytes s @ txb_bytes txb"
proof -
  have a: "queue_wf s" "env_ok env \<and> tx_ring_ok (sm_drv s) (sm_queue_stop s)" using assms by (simp_all add: tx_inv_def)
  from rtl.softmac_xmit_spec [OF a assms(3,4)] obtain s' ds where
    s': "ieee80211_softmac_xmit (rtl8180_hard_data_xmit env) txb s = Some s'" "queue_wf s'" "env_ok env \<and> tx_ring_ok (sm_drv s') (sm_queue_stop s')"
    "pv_usb_log (sm_drv s') = pv_usb_log (sm_drv s) @ ds" "pending_bytes s = []" "ds @ pending_bytes s' = txb_bytes txb" by blast
  have "list_all is_data (ds @ pending_bytes s')" unfolding s'(6) using assms(3) by (simp add: data_txb_def)
  then have "filter is_data ds = ds" by (intro filter_data) simp
  then show ?thesis using s' by (intro exI [of _ s']) (simp add: tx_inv_def)
qed

lemma mgmt_step:
  assumes "env_ok env" "tx_inv s" "mgmt_frame f"
  shows "\<exists>s'. softmac_mgmt_xmit (rtl8180_hard_data_xmit env) f s = Some s' \<and> tx_inv s' \<and>
    filter is_data (pv_usb_log (sm_drv s')) @ pending_bytes s' = filter is_data (pv_usb_log (sm_drv s)) @ pending_bytes s"
proof -
  have a: "queue_wf s" "env_ok env \<and> tx_ring_ok (sm_drv s) (sm_queue_stop s)" using assms by (simp_all add: tx_inv_def)
  from rtl.softmac_mgmt_xmit_spec [OF a assms(3)] obtain s' ms where
    "softmac_mgmt_xmit (rtl8180_hard_data_xmit env) f s = Some s'" "queue_wf s'" "env_ok env \<and> tx_ring_ok (sm_drv s') (sm_queue_stop s')"
    "pv_usb_log (sm_drv s') = pv_usb_log (sm_drv s) @ ms" "list_all (\<lambda>d. \<not> is_data d) ms" "pending_bytes s' = pending_bytes s" by blast
  then show ?thesis by (intro exI [of _ s']) (simp add: tx_inv_def filter_not_data)
qed

lemma complete_step:
  assumes "env_ok env" "tx_inv s" "pv_bus (sm_drv s) \<noteq> []"
  shows "\<exists>s'. usb_complete env ok s = Some s' \<and> tx_inv s' \<and>
    filter is_data (pv_usb_log (sm_drv s')) @ pending_bytes s' = filter is_data (pv_usb_log (sm_drv s)) @ pending_bytes s"
proof -
  from usb_complete_spec [OF assms, of ok] obtain s' ms ds where s': "usb_complete env ok s = Some s'" "tx_inv s'"
    "pv_usb_log (sm_drv s') = pv_usb_log (sm_drv s) @ ms @ ds" "list_all (\<lambda>d. \<not> is_data d) ms" "ds @ pending_bytes s' = pending_bytes s" by blast
  have "queue_wf s" using assms(2) by (simp add: tx_inv_def)
  from pending_data [OF this s'(5)] have "filter is_data ds = ds" by (rule filter_data)
  then show ?thesis using s' by (intro exI [of _ s']) (simp add: filter_not_data)
qed

lemma tx_trace_inv:
  assumes "tx_trace env s0 bs s" "env_ok env" "tx_inv s0"
  shows "tx_inv s \<and> filter is_data (pv_usb_log (sm_drv s)) @ pending_bytes s =
    filter is_data (pv_usb_log (sm_drv s0)) @ pending_bytes s0 @ concat (map txb_bytes bs)"
  using assms(1)
proof (induction rule: tx_trace.induct)
  case start
  then show ?case using assms(3) by simp
next
  case (block bs s txb s')
  then have "tx_inv s" by simp
  from block_step [OF assms(2) this block.hyps(3,2)] block.hyps(4) block.IH
  have "tx_inv s' \<and> filter is_data (pv_usb_log (sm_drv s')) @ pending_bytes s' =
      (filter is_data (pv_usb_log (sm_drv s)) @ pending_bytes s) @ txb_bytes txb" by auto
  then show ?case using block.IH by simp
next
  case (mgmt bs s f s')
  then have "tx_inv s" by simp
  from mgmt_step [OF assms(2) this mgmt.hyps(2)] mgmt.hyps(3) mgmt.IH show ?case by auto
next
  case (complete bs s ok s')
  then have "tx_inv s" by simp
  from complete_step [OF assms(2) this complete.hyps(2), of ok] complete.hyps(3) complete.IH show ?case by auto
qed

section \<open>Example states\<close>

definition tx_idle_td :: "unit tx_device" where
  "tx_idle_td = \<lparr>td_iw_mode = IW_MODE_ADHOC, td_bssid = [3, 3, 3, 3, 3, 3], td_ieee802_1x = True, td_host_encrypt = False,
     td_drop_unencrypted = False, td_raw_tx = False, td_tx_queue = True, td_hard_start_xmit = False,
     td_softmac_data_hard_start_xmit = True, td_fcs = False, td_crypt = replicate 4 None, td_tx_keyidx = 0, td_fts = 256, td_seq_ctrl = 5,
     td_alloc_txb = replicate 16 None, td_tx_skb_index = 0,
     td_tx_pending_txb = 1, td_netif_stopped = False, td_tx_packets = 0, td_tx_bytes = 0, td_tx_dropped = 0, td_tx_errors = 0,
     td_tx_discards = 0\<rparr>"

definition tx_idle :: "(unit, r8180_priv) softmac" where
  "tx_idle = \<lparr>sm_td = tx_idle_td, sm_queue_stop = False, sm_mgmt = \<lparr>mq_ring = replicate 5 None, mq_head = 0, mq_tail = 0\<rparr>,
     sm_pending_txb = None, sm_pending_frag = 0, sm_rate = 540, sm_basic_rate = 10, sm_sta_sleep = 0,
     sm_hw_wakeup_queued = False, sm_swtxstop = 0, sm_swtxawake = 0, sm_drv = tx_test_priv\<rparr>"

definition tx_block :: ieee80211_txb where
  "tx_block = \<lparr>tb_nr_frags = 1, tb_encrypted = False, tb_frag_size = 256, tb_payload_size = 36,
     tb_fragments = [\<lparr>skb_head = [], skb_data = 0x08 # replicate 35 1, skb_room = []\<rparr>]\<rparr>"

text \<open>A full ring, the block waiting.\<close>

definition tx_full :: "(unit, r8180_priv) softmac" where
  "tx_full = tx_idle\<lparr>sm_td := tx_idle_td\<lparr>td_netif_stopped := True\<rparr>, sm_queue_stop := True, sm_pending_txb := Some tx_block,
     sm_drv := tx_test_priv\<lparr>pv_tx_lp_pending := 16,
       pv_bus := map (\<lambda>k. \<lparr>ub_slot = k, ub_pipe = 2, ub_off = 0, ub_len = 0, ub_data = []\<rparr>) [0..<16]\<rparr>\<rparr>"

definition tx_example_env :: tx_env where
  "tx_example_env = \<lparr>en_submit = \<lambda>_. True, en_seg = \<lambda>_. 0, en_behind = \<lambda>_. replicate 8 0\<rparr>"

lemma tx_example_env_ok: "env_ok tx_example_env" by (simp add: env_ok_def tx_example_env_def)

lemma tx_block_ok: "data_txb tx_block"
  by (simp add: data_txb_def txb_ok_def txb_bytes_def txb_frames_def tx_block_def tx_frame_ok_def skb_len_def is_data_def)

lemma tx_idle_inv: "tx_inv tx_idle"
  by (simp add: tx_inv_def queue_wf_def tx_idle_def mq_wf_def tx_ring_ok_def tx_test_priv_def bus_slots_def list_all_iff)

lemma tx_full_inv: "tx_inv tx_full"
proof -
  have "map ub_slot (map (\<lambda>k. \<lparr>ub_slot = k, ub_pipe = 2, ub_off = 0, ub_len = 0, ub_data = []\<rparr>) [0..<16]) = bus_slots 0 16"
    by (simp add: bus_slots_def comp_def) (rule map_idI [symmetric], simp)
  moreover have "unat (tb_nr_frags tx_block) = 1" by (simp add: tx_block_def)
  ultimately show ?thesis using tx_block_ok
    by (simp add: tx_inv_def queue_wf_def tx_full_def tx_idle_def mq_wf_def tx_ring_ok_def tx_test_priv_def list_all_iff)
qed

lemma tx_idle_run: "\<exists>s. tx_trace tx_example_env tx_idle [tx_block] s"
proof -
  have "\<not> td_netif_stopped (sm_td tx_idle)" by (simp add: tx_idle_def tx_idle_td_def)
  with block_step [OF tx_example_env_ok tx_idle_inv tx_block_ok] tx_block_ok
  have "\<exists>s. tx_trace tx_example_env tx_idle ([] @ [tx_block]) s" using tx_trace.block [OF tx_trace.start] by blast
  then show ?thesis by simp
qed

section \<open>Properties\<close>





text \<open>C22: No event of a run faults: in every state a run reaches, a block the stack may hand over, a management
  frame and a completion are all carried out, the loops of the queue end.\<close>

theorem tx_no_fault:
  assumes "env_ok env" and "tx_inv s0" and "tx_trace env s0 bs s"
  shows "(data_txb txb \<and> \<not> td_netif_stopped (sm_td s) \<longrightarrow>
      ieee80211_softmac_xmit (rtl8180_hard_data_xmit env) txb s \<noteq> None) \<and>
    (mgmt_frame f \<longrightarrow> softmac_mgmt_xmit (rtl8180_hard_data_xmit env) f s \<noteq> None) \<and>
    (pv_bus (sm_drv s) \<noteq> [] \<longrightarrow> usb_complete env ok s \<noteq> None)"
proof -
  have i: "tx_inv s" using tx_trace_inv [OF assms(3,1,2)] by simp
  show ?thesis using block_step [OF assms(1) i, of txb] mgmt_step [OF assms(1) i, of f] complete_step [OF assms(1) i, of ok]
    by auto
qed

theorem tx_no_fault_witness:
  "\<exists>s. tx_trace tx_example_env tx_idle [tx_block] s \<and> (pv_bus (sm_drv s) = [] \<or> usb_complete tx_example_env True s \<noteq> None)"
proof -
  obtain s where t: "tx_trace tx_example_env tx_idle [tx_block] s" using tx_idle_run by blast
  from tx_no_fault [OF tx_example_env_ok tx_idle_inv t, of tx_block _ True] t show ?thesis by blast
qed

section \<open>Progress\<close>

fun usb_completes :: "tx_env \<Rightarrow> bool list \<Rightarrow> ('p, r8180_priv) softmac \<Rightarrow> ('p, r8180_priv) softmac option" where
  "usb_completes env [] s = Some s"
| "usb_completes env (ok # oks) s = usb_complete env ok s \<bind> usb_completes env oks"

text \<open>While the queue is stopped each completion sends at least one frame more, or wakes the queue.\<close>

lemma completes_wake:
  assumes "env_ok env" "tx_inv s" "sm_queue_stop s" "rtl.queue_work s < length oks"
  shows "\<exists>k s'. k \<le> length oks \<and> 0 < k \<and> usb_completes env (take k oks) s = Some s' \<and> tx_inv s' \<and>
    \<not> sm_queue_stop s' \<and> sm_pending_txb s' = None \<and> \<not> td_netif_stopped (sm_td s')"
  using assms(2-4)
proof (induction oks arbitrary: s)
  case (Cons ok oks)
  from usb_complete_spec [OF assms(1) Cons.prems(1) tx_inv_stopped [OF Cons.prems(1,2)], of ok] obtain s1 ms ds where
    s1: "usb_complete env ok s = Some s1" "tx_inv s1" "pv_usb_log (sm_drv s1) = pv_usb_log (sm_drv s) @ ms @ ds" "rtl.queue_work s1 + length (ms @ ds) \<le> rtl.queue_work s"
    "ms @ ds = [] \<longrightarrow> \<not> sm_queue_stop s1"
    "sm_queue_stop s \<longrightarrow> \<not> sm_queue_stop s1 \<longrightarrow> sm_pending_txb s1 = None \<and> \<not> td_netif_stopped (sm_td s1)"
    by (elim exE conjE) (rule that; assumption)
  show ?case
  proof (cases "sm_queue_stop s1")
    case False
    then show ?thesis using s1 Cons.prems(2) by (intro exI [of _ 1] exI [of _ s1]) simp
  next
    case True
    then have "0 < length (ms @ ds)" using s1(5) by blast
    then have "rtl.queue_work s1 < length oks" using s1(4) Cons.prems(3) unfolding list.size by linarith
    from Cons.IH [OF s1(2) True this] obtain k s' where "k \<le> length oks" "usb_completes env (take k oks) s1 = Some s'" "tx_inv s'"
      "\<not> sm_queue_stop s'" "sm_pending_txb s' = None" "\<not> td_netif_stopped (sm_td s')" by blast
    then show ?thesis using s1(1) by (intro exI [of _ "Suc k"] exI [of _ s']) simp
  qed
qed simp

text \<open>C12: Liveness: from every reachable state with a stopped queue, as many completions as there are waiting
  frames, and one more, wake the queue: the interrupted block is sent to its end and the network
  stack runs again.\<close>

theorem tx_queue_wakes:
  assumes "env_ok env" and "tx_inv s0" and "tx_trace env s0 bs s" and "sm_queue_stop s"
    and "mq_size (sm_mgmt s) + length (pending_bytes s) < length oks"
  shows "\<exists>k s'. k \<le> length oks \<and> 0 < k \<and> usb_completes env (take k oks) s = Some s' \<and>
    \<not> sm_queue_stop s' \<and> sm_pending_txb s' = None \<and> \<not> td_netif_stopped (sm_td s')"
proof -
  have i: "tx_inv s" using tx_trace_inv [OF assms(3,1,2)] by simp
  have "rtl.queue_work s < length oks" using assms(5) by (simp add: rtl.queue_work_def)
  from completes_wake [OF assms(1) i assms(4) this] show ?thesis by blast
qed

theorem tx_queue_wakes_witness:
  "\<exists>k s'. k \<le> length [True, True] \<and> 0 < k \<and> usb_completes tx_example_env (take k [True, True]) tx_full = Some s' \<and>
    \<not> sm_queue_stop s' \<and> sm_pending_txb s' = None \<and> \<not> td_netif_stopped (sm_td s')"
proof -
  have "sm_queue_stop tx_full" by (simp add: tx_full_def)
  moreover have "mq_size (sm_mgmt tx_full) + length (pending_bytes tx_full) < length [True, True]"
    by (simp add: tx_full_def tx_idle_def mq_size_def pending_bytes_def txb_bytes_def txb_frames_def tx_block_def)
  ultimately show ?thesis
    by (rule tx_queue_wakes [OF tx_example_env_ok tx_full_inv tx_trace.start])
qed

end
