(* ===== verification/Softmac_Frames.thy ===== *)
theory Softmac_Frames
  imports Tx Network_Spec
begin

text \<open>
  The management frames of \<open>ieee80211/ieee80211_softmac.c\<close>: the functions that build probe,
  authentication and association frames and beacons, and the functions that read the ones that arrive.  The
  builders are given a successful allocation; what a caller does when \<open>dev_alloc_skb\<close> fails is part
  of the caller.  \<open>None\<close> is a kernel panic or an access outside of a buffer; bytes nobody
  writes are zero, as in \<open>dev_alloc_skb\<close>.
\<close>

section \<open>The station\<close>

text \<open>The parts of \<open>struct ieee80211_device\<close> that the frames and the link use.\<close>

record sta_stats =
  ss_tx_probe_rq :: u32
  ss_rx_auth_rs_ok :: u32
  ss_rx_auth_rs_err :: u32
  ss_tx_auth_rq :: u32
  ss_no_auth_rs :: u32
  ss_no_ass_rs :: u32
  ss_tx_ass_rq :: u32
  ss_rx_ass_ok :: u32
  ss_rx_ass_err :: u32
  ss_rx_probe_rq :: u32
  ss_tx_probe_rs :: u32
  ss_tx_beacons :: u32
  ss_rx_auth_rq :: u32
  ss_rx_ass_rq :: u32
  ss_reassoc :: u32

text \<open>The work queues and timers: whether each one is pending.\<close>

record sta_work =
  wk_softmac_scan :: bool
  wk_start_ibss :: bool
  wk_associate_retry :: bool
  wk_associate_complete :: bool
  wk_associate_procedure :: bool
  wk_associate_timer :: bool
  wk_beacon_timer :: bool
  wk_ps_task :: bool
  wk_hw_sleep :: bool
  wk_hw_wakeup :: bool
  wk_wx_sync_scan :: bool

text \<open>What the link asks of the driver, the transmit queue and the kernel, in order.\<close>

datatype sta_output =
    Mgmt_Xmit sk_buff
  | Ps_Xmit sk_buff
  | Set_Chan u8
  | Link_Change
  | Wx_Assoc_Event bytes
  | Carrier bool
  | Data_Hard_Stop
  | Data_Hard_Resume
  | Reset_Queue
  | Reset_Seq_Ctrl
  | Reset_Rx_Seq

record station =
  sd_state :: ieee80211_state
  sd_iw_mode :: iw_mode
  sd_network :: ieee80211_network
  sd_modulation :: u32
  sd_short_slot :: bool
  sd_dev_addr :: bytes
  sd_ps :: u16
  sd_sta_sleep :: int
  sd_ps_timeout :: int
  sd_ps_th :: u32
  sd_ps_tl :: u32
  sd_last_rx_ps_time :: u64
  sd_open_wep :: bool
  sd_associate_seq :: u16
  sd_assoc_id :: u16
  sd_wpa_ie :: bytes
  sd_wpax_type_set :: bool
  sd_wpax_type_notify :: u32
  sd_QoS_Enable :: bool
  sd_ap_mac_addr :: bytes
  sd_host_encrypt :: bool
  sd_tx_crypt_name :: "string option"
  sd_rate :: int
  sd_active_scan :: bool
  sd_raw_tx :: bool
  sd_channel_map :: "bool list"
  sd_proto_started :: bool
  sd_scanning :: int
  sd_scan_watchdog :: int
  sd_actscanning :: bool
  sd_beinretry :: bool
  sd_sync_scan_hurryup :: bool
  sd_beacon_txing :: bool
  sd_wap_set :: bool
  sd_ssid_set :: bool
  sd_nets :: "ieee80211_network list"
  sd_net_free :: nat
  sd_scan_age :: int
  sd_stats :: sta_stats
  sd_work :: sta_work
  sd_out :: "sta_output list"

section \<open>Constants\<close>

abbreviation CAPABILITY_BSS :: u16 where "CAPABILITY_BSS \<equiv> 0x0001"
abbreviation CAPABILITY_IBSS :: u16 where "CAPABILITY_IBSS \<equiv> 0x0002"
abbreviation CAPABILITY_PRIVACY :: u16 where "CAPABILITY_PRIVACY \<equiv> 0x0010"
abbreviation CAPABILITY_SHORT_SLOT :: u16 where "CAPABILITY_SHORT_SLOT \<equiv> 0x0400"
abbreviation CCK_MODULATION :: u32 where "CCK_MODULATION \<equiv> 1"
abbreviation OFDM_MODULATION :: u32 where "OFDM_MODULATION \<equiv> 2"
abbreviation FCTL_PM :: u16 where "FCTL_PM \<equiv> 0x1000"
abbreviation AUTH_SIZE :: nat where "AUTH_SIZE \<equiv> 30"
abbreviation PROBE_RESPONSE_SIZE :: nat where "PROBE_RESPONSE_SIZE \<equiv> 38"
abbreviation ASSOC_REQUEST_SIZE :: nat where "ASSOC_REQUEST_SIZE \<equiv> 30"
abbreviation ASSOC_RESPONSE_SIZE :: nat where "ASSOC_RESPONSE_SIZE \<equiv> 32"

section \<open>Rates\<close>

definition ieee80211_is_54g :: "ieee80211_network \<Rightarrow> bool" where
  "ieee80211_is_54g net \<longleftrightarrow> nw_rates_ex_len net > 0 \<or> nw_rates_len net > 4"

definition ieee80211_MFIE_rate_len :: "u32 \<Rightarrow> nat" where
  "ieee80211_MFIE_rate_len modulation =
     (if modulation AND CCK_MODULATION \<noteq> 0 then 4 + 2 else 0) + (if modulation AND OFDM_MODULATION \<noteq> 0 then 8 + 2 else 0)"

definition ieee80211_MFIE_Brate :: "u32 \<Rightarrow> bytes" where
  "ieee80211_MFIE_Brate modulation =
     (if modulation AND CCK_MODULATION \<noteq> 0 then [1, 4, 0x82, 0x84, 0x8B, 0x96] else [])"

definition ieee80211_MFIE_Grate :: "u32 \<Rightarrow> bytes" where
  "ieee80211_MFIE_Grate modulation =
     (if modulation AND OFDM_MODULATION \<noteq> 0 then [50, 8, 0x8C, 0x92, 0x98, 0xA4, 0xB0, 0xC8, 0xE0, 0xEC] else [])"

section \<open>Building frames\<close>

text \<open>The 24 bytes of \<open>struct ieee80211_header_data\<close>; the sequence number comes later.\<close>

definition mgmt_header :: "u16 \<Rightarrow> u16 \<Rightarrow> bytes \<Rightarrow> bytes \<Rightarrow> bytes \<Rightarrow> bytes" where
  "mgmt_header frame_ctl duration addr1 addr2 addr3 = le16 frame_ctl @ le16 duration @ addr1 @ addr2 @ addr3 @ [0, 0]"

definition broadcast_addr :: bytes where "broadcast_addr = replicate 6 0xff"

definition ieee80211_probe_req :: "station \<Rightarrow> sk_buff option" where
  "ieee80211_probe_req sd = do {
     let len = unat (nw_ssid_len (sd_network sd));
     let rate_len = ieee80211_MFIE_rate_len (sd_modulation sd);
     ssid \<leftarrow> buf_read 0 len (nw_ssid (sd_network sd));
     skb \<leftarrow> skb_put_data (mgmt_header (if sd_ps sd = 0 then 0x0040 else 0x0040 OR FCTL_PM) 0 broadcast_addr (sd_dev_addr sd) broadcast_addr)
       (dev_alloc_skb (24 + 2 + len + rate_len));
     skb_put_data ([0, word_of_nat len] @ ssid @ ieee80211_MFIE_Brate (sd_modulation sd) @ ieee80211_MFIE_Grate (sd_modulation sd)) skb
   }"

text \<open>Also counts the transaction number on.\<close>

definition ieee80211_authentication_req :: "ieee80211_network \<Rightarrow> nat \<Rightarrow> station \<Rightarrow> (sk_buff \<times> station) option" where
  "ieee80211_authentication_req beacon challengelen sd = do {
     let fc = 0x00B0 OR (if challengelen \<noteq> 0 then FCTL_WEP else 0) OR (if sd_ps sd \<noteq> 0 then FCTL_PM else 0);
     skb \<leftarrow> skb_put_data (mgmt_header fc 0x013a (nw_bssid beacon) (sd_dev_addr sd) (nw_bssid beacon) @
         le16 (if sd_open_wep sd then 0 else 1) @ le16 (sd_associate_seq sd) @ le16 0)
       (dev_alloc_skb (AUTH_SIZE + challengelen + 8));
     Some (skb, sd\<lparr>sd_associate_seq := sd_associate_seq sd + 1\<rparr>)
   }"

text \<open>
  Beacons and probe responses.  In an ad hoc cell four bytes of the WPA element are
  moved inside the element before it is copied.
\<close>

definition probe_wpa_ie :: "station \<Rightarrow> bytes option" where
  "probe_wpa_ie sd =
     (if sd_wpa_ie sd \<noteq> [] \<and> sd_iw_mode sd = IW_MODE_ADHOC then buf_move 14 8 4 (sd_wpa_ie sd) else Some (sd_wpa_ie sd))"

definition probe_capability :: "station \<Rightarrow> u16" where
  "probe_capability sd =
     (let cap = nw_capability (sd_network sd);
          encrypt = sd_host_encrypt sd \<and> (case sd_tx_crypt_name sd of None \<Rightarrow> False | Some n \<Rightarrow> n = ''WEP'' \<or> sd_wpa_ie sd \<noteq> [])
      in (cap AND CAPABILITY_IBSS) OR
         (if sd_short_slot sd \<and> cap AND CAPABILITY_SHORT_SLOT \<noteq> 0 then CAPABILITY_SHORT_SLOT else 0) OR
         (if encrypt then CAPABILITY_PRIVACY else 0))"

definition ieee80211_probe_resp :: "bytes \<Rightarrow> station \<Rightarrow> (sk_buff \<times> station) option" where
  "ieee80211_probe_resp dest sd = do {
     let net = sd_network sd;
     let ssid_len = unat (nw_ssid_len net);
     let rates_len = unat (nw_rates_len net);
     let rates_ex_len = unat (nw_rates_ex_len net);
     let atim = nw_capability net AND CAPABILITY_IBSS \<noteq> 0;
     let erp = ieee80211_is_54g net;
     let beacon_size = PROBE_RESPONSE_SIZE + ssid_len + 3 + (rates_len + 2) + (if rates_ex_len > 0 then rates_ex_len + 2 else 0) +
       (if atim then 4 else 0) + (if erp then 3 else 0) + length (sd_wpa_ie sd);
     ssid \<leftarrow> buf_read 0 ssid_len (nw_ssid net);
     rates \<leftarrow> buf_read 0 rates_len (nw_rates net);
     rates_ex \<leftarrow> buf_read 0 rates_ex_len (nw_rates_ex net);
     wpa_ie \<leftarrow> probe_wpa_ie sd;
     let frame = mgmt_header 0x0050 0 dest (sd_dev_addr sd) (nw_bssid net) @ replicate 8 0 @
       le16 (nw_beacon_interval net) @ le16 (probe_capability sd) @
       [0, nw_ssid_len net] @ ssid @ [1, nw_rates_len net] @ rates @ [3, 1, nw_channel net] @
       (if atim then [6, 2] @ le16 (nw_atim_window net) else []) @ (if erp then [42, 1, 0] else []) @
       (if rates_ex_len > 0 then [50, nw_rates_ex_len net] @ rates_ex else []) @ wpa_ie;
     skb \<leftarrow> skb_put beacon_size (dev_alloc_skb beacon_size);
     skb \<leftarrow> skb_store 0 frame skb;
     Some (skb, sd\<lparr>sd_wpa_ie := wpa_ie\<rparr>)
   }"

definition get_beacon_frame :: "station \<Rightarrow> (sk_buff \<times> station) option" where
  "get_beacon_frame sd = do {
     (skb, sd) \<leftarrow> ieee80211_probe_resp broadcast_addr sd;
     skb \<leftarrow> skb_store 0 (le16 0x0080) skb;
     Some (skb, sd)
   }"

text \<open>\<open>seq_ctrl\<close> is the counter of the transmit queue; the result has its next value.\<close>

definition ieee80211_get_beacon :: "u16 \<Rightarrow> station \<Rightarrow> (sk_buff \<times> u16 \<times> station) option" where
  "ieee80211_get_beacon seq_ctrl sd = do {
     (skb, sd) \<leftarrow> get_beacon_frame sd;
     skb \<leftarrow> skb_store 22 (le16 (push_bit 4 seq_ctrl)) skb;
     Some (skb, if seq_ctrl = 0xFFF then 0 else seq_ctrl + 1, sd)
   }"

definition assoc_resp_capability :: "station \<Rightarrow> u16" where
  "assoc_resp_capability sd =
     (if sd_iw_mode sd = IW_MODE_MASTER then CAPABILITY_BSS else CAPABILITY_IBSS) OR
     (if sd_short_slot sd then CAPABILITY_SHORT_SLOT else 0) OR
     (if sd_host_encrypt sd \<and> sd_tx_crypt_name sd \<noteq> None then CAPABILITY_PRIVACY else 0)"

definition ieee80211_assoc_resp :: "bytes \<Rightarrow> station \<Rightarrow> (sk_buff \<times> station) option" where
  "ieee80211_assoc_resp dest sd = do {
     let rate_len = ieee80211_MFIE_rate_len (sd_modulation sd);
     skb \<leftarrow> skb_put_data (mgmt_header 0x0010 0 dest (sd_dev_addr sd) (sd_dev_addr sd) @
         le16 (assoc_resp_capability sd) @ le16 0 @ le16 (sd_assoc_id sd) @ [0, 0])
       (dev_alloc_skb (ASSOC_RESPONSE_SIZE + rate_len));
     skb \<leftarrow> skb_put_data (ieee80211_MFIE_Brate (sd_modulation sd) @ ieee80211_MFIE_Grate (sd_modulation sd)) skb;
     Some (skb, sd\<lparr>sd_assoc_id := if sd_assoc_id sd = 0x2007 then 0 else sd_assoc_id sd + 1\<rparr>)
   }"

text \<open>The length is set without \<open>skb_put\<close>; the window is the same.\<close>

definition ieee80211_auth_resp :: "u16 \<Rightarrow> bytes \<Rightarrow> station \<Rightarrow> sk_buff option" where
  "ieee80211_auth_resp status dest sd =
     skb_put_data (mgmt_header 0x00B0 0 dest (sd_dev_addr sd) (sd_dev_addr sd) @ le16 0 @ le16 2 @ le16 status)
       (dev_alloc_skb (AUTH_SIZE + 1))"

definition ieee80211_null_func :: "bool \<Rightarrow> station \<Rightarrow> sk_buff option" where
  "ieee80211_null_func pwr sd =
     skb_put_data (mgmt_header (0x0008 OR 0x0040 OR FCTL_TODS OR (if pwr then FCTL_PM else 0)) 0
       (nw_bssid (sd_network sd)) (sd_dev_addr sd) (nw_bssid (sd_network sd))) (dev_alloc_skb 24)"

text \<open>
  The allocation counts the elements of the access point's beacon, the frame carries the
  element the user has set.
\<close>

definition assoc_req_alloc :: "ieee80211_network \<Rightarrow> station \<Rightarrow> nat" where
  "assoc_req_alloc beacon sd =
     (let encry_proto = sd_wpax_type_notify sd AND 0xff;
          rsn_len = (if sd_wpax_type_set sd \<and> encry_proto = 1 then 0 else nw_rsn_ie_len beacon);
          wpa_len = (if sd_wpax_type_set sd \<and> encry_proto = 2 then 0 else nw_wpa_ie_len beacon)
      in ASSOC_REQUEST_SIZE + unat (nw_ssid_len beacon) + ieee80211_MFIE_rate_len (sd_modulation sd) + wpa_len + rsn_len +
         (if sd_QoS_Enable sd then 9 else 0))"

definition ieee80211_association_req :: "ieee80211_network \<Rightarrow> station \<Rightarrow> (sk_buff \<times> station) option" where
  "ieee80211_association_req beacon sd = do {
     let capability = CAPABILITY_BSS OR (if nw_capability beacon AND CAPABILITY_PRIVACY \<noteq> 0 then CAPABILITY_PRIVACY else 0) OR
       (if sd_short_slot sd then CAPABILITY_SHORT_SLOT else 0);
     skb \<leftarrow> skb_put_data (mgmt_header 0x0000 37 (nw_bssid beacon) (sd_dev_addr sd) (nw_bssid beacon) @
         le16 capability @ le16 0xa @ [0, nw_ssid_len beacon]) (dev_alloc_skb (assoc_req_alloc beacon sd));
     ssid \<leftarrow> buf_read 0 (unat (nw_ssid_len beacon)) (nw_ssid beacon);
     skb \<leftarrow> skb_put_data ssid skb;
     skb \<leftarrow> skb_put_data (ieee80211_MFIE_Brate (sd_modulation sd) @ ieee80211_MFIE_Grate (sd_modulation sd)) skb;
     skb \<leftarrow> skb_put_data (sd_wpa_ie sd) skb;
     Some (skb, sd\<lparr>sd_ap_mac_addr := nw_bssid beacon\<rparr>)
   }"

section \<open>Reading frames\<close>

text \<open>
  The status and the challenge, if there is one; a frame that is too short gives the status \<open>0xcafe\<close>.
  Reads stay inside the allocation of the buffer, not inside the frame.
\<close>

definition auth_parse :: "sk_buff \<Rightarrow> (u16 \<times> bytes option) option" where
  "auth_parse skb =
     (if skb_len skb < AUTH_SIZE - 2 then Some (0xcafe, None)
      else do {
        challenge \<leftarrow> (if skb_len skb > AUTH_SIZE + 3 then do {
            t \<leftarrow> skb_peek AUTH_SIZE 1 skb;
            if t ! 0 = 16 then do {
              l \<leftarrow> skb_peek (AUTH_SIZE + 1) 1 skb;
              c \<leftarrow> skb_peek (AUTH_SIZE + 2) (unat (l ! 0)) skb;
              Some (Some c)
            } else Some None
          } else Some None);
        st \<leftarrow> skb_peek 28 2 skb;
        Some (get_le16 (st ! 0) (st ! 1), challenge)
      })"

text \<open>The sender's address and the answer's status, or nothing for a frame that is too short.\<close>

definition auth_rq_parse :: "sk_buff \<Rightarrow> (u16 \<times> bytes) option option" where
  "auth_rq_parse skb =
     (if skb_len skb < AUTH_SIZE - 2 then Some None
      else do {
        src \<leftarrow> skb_peek 10 6 skb;
        alg \<leftarrow> skb_peek 24 2 skb;
        Some (Some (if get_le16 (alg ! 0) (alg ! 1) \<noteq> 0 then 13 else 0, src))
      })"

text \<open>
  The loop over the elements of a probe request, up to the name: the position of the name and its
  length.  \<open>n\<close> bounds the steps; the position grows with each of them.
\<close>

fun probe_rq_loop :: "nat \<Rightarrow> sk_buff \<Rightarrow> nat \<Rightarrow> (nat \<times> u8) option" where
  "probe_rq_loop 0 skb tag = None"
| "probe_rq_loop (Suc n) skb tag =
     (if tag + 1 < skb_len skb then
        let l = skb_data skb ! (tag + 1) in
        if skb_data skb ! tag = 0 then Some (tag + 2, l)
        else probe_rq_loop n skb (tag + 1 + unat l + 1)
      else None)"

text \<open>\<open>strncmp(a, b, n) = 0\<close> over the memory at \<open>a\<close> and \<open>b\<close>: equal up to the first zero byte or \<open>n\<close>.\<close>

fun strncmp_mem :: "nat \<Rightarrow> bytes \<Rightarrow> bytes \<Rightarrow> bool option" where
  "strncmp_mem 0 a b = Some True"
| "strncmp_mem (Suc n) (x # a) (y # b) = (if x \<noteq> y then Some False else if x = 0 then Some True else strncmp_mem n a b)"
| "strncmp_mem (Suc n) _ _ = None"

text \<open>The result of \<open>probe_rq_parse\<close>: -1 for a corrupted frame, 1 to answer, 0 not to.\<close>

definition probe_rq_parse :: "station \<Rightarrow> sk_buff \<Rightarrow> (int \<times> bytes) option" where
  "probe_rq_parse sd skb =
     (if skb_len skb < 24 then Some (- 1, [])
      else do {
        src \<leftarrow> skb_peek 10 6 skb;
        case probe_rq_loop (skb_len skb) skb 24 of
          None \<Rightarrow> Some (1, src)
        | Some (pos, ssidlen) \<Rightarrow>
            if ssidlen = 0 then Some (1, src)
            else do {
              same \<leftarrow> strncmp_mem (unat ssidlen) (drop pos (skb_data skb @ skb_room skb)) (nw_ssid (sd_network sd));
              Some (if same then 1 else 0, src)
            }
      })"

definition assoc_rq_parse :: "sk_buff \<Rightarrow> bytes option option" where
  "assoc_rq_parse skb =
     (if skb_len skb < ASSOC_REQUEST_SIZE - 2 then Some None else map_option Some (skb_peek 10 6 skb))"

definition assoc_parse :: "sk_buff \<Rightarrow> (u16 \<times> u16) option" where
  "assoc_parse skb =
     (if skb_len skb < ASSOC_RESPONSE_SIZE then Some (0xcafe, 0)
      else do {
        st \<leftarrow> skb_peek 26 2 skb;
        aid \<leftarrow> skb_peek 28 2 skb;
        Some (get_le16 (st ! 0) (st ! 1), get_le16 (aid ! 0) (aid ! 1) AND 0x3fff)
      })"


section \<open>What the builders make\<close>

lemma length_mgmt_header:
  "\<lbrakk>length a1 = 6; length a2 = 6; length a3 = 6\<rbrakk> \<Longrightarrow> length (mgmt_header fc d a1 a2 a3) = 24"
  by (simp add: mgmt_header_def)

lemma length_MFIE: "length (ieee80211_MFIE_Brate m @ ieee80211_MFIE_Grate m) = ieee80211_MFIE_rate_len m"
  by (simp add: ieee80211_MFIE_Brate_def ieee80211_MFIE_Grate_def ieee80211_MFIE_rate_len_def)

text \<open>Appending to a fresh buffer works exactly as long as the room lasts.\<close>

lemma put_data_fresh: "n = length d \<Longrightarrow> \<exists>r. skb_put_data d (dev_alloc_skb (n + k)) = Some r \<and> skb_data r = d \<and> skb_room r = replicate k 0"
  by (auto simp: skb_put_data_def skb_put_def skb_store_def skb_tailroom_def dev_alloc_skb_def skb_len_def buf_write_def)

lemma put_data_iff:
  "skb_put_data d f = (if length d \<le> skb_tailroom f
     then Some (f\<lparr>skb_data := skb_data f @ d, skb_room := drop (length d) (skb_room f)\<rparr>) else None)"
  by (auto simp: skb_put_data_def skb_put_def skb_store_def skb_tailroom_def skb_len_def buf_write_def)

text \<open>A frame stored over the whole of a fresh window.\<close>

lemma put_store_fresh:
  assumes "length d = n"
  shows "(skb_put n (dev_alloc_skb n) \<bind> skb_store 0 d) = Some \<lparr>skb_head = replicate 16 0, skb_data = d, skb_room = []\<rparr>"
  using assms by (simp add: skb_put_def skb_store_def skb_tailroom_def dev_alloc_skb_def buf_write_def)

text \<open>The elements of a beacon or probe response; \<open>wes\<close> are those of the key management.\<close>

definition probe_elements :: "ieee80211_network \<Rightarrow> (u8 \<times> bytes) list \<Rightarrow> (u8 \<times> bytes) list" where
  "probe_elements net wes =
     [(0, take (unat (nw_ssid_len net)) (nw_ssid net)), (1, take (unat (nw_rates_len net)) (nw_rates net)), (3, [nw_channel net])] @
     (if nw_capability net AND CAPABILITY_IBSS \<noteq> 0 then [(6, le16 (nw_atim_window net))] else []) @
     (if ieee80211_is_54g net then [(42, [0])] else []) @
     (if nw_rates_ex_len net > 0 then [(50, take (unat (nw_rates_ex_len net)) (nw_rates_ex net))] else []) @ wes"

definition probe_frame :: "u16 \<Rightarrow> bytes \<Rightarrow> station \<Rightarrow> (u8 \<times> bytes) list \<Rightarrow> bytes" where
  "probe_frame fc dest sd wes =
     beacon_bytes fc dest (sd_dev_addr sd) (nw_bssid (sd_network sd)) [0, 0] (0, 0) (nw_beacon_interval (sd_network sd))
       (probe_capability sd) (probe_elements (sd_network sd) wes)"

definition station_addrs :: "station \<Rightarrow> bool" where
  "station_addrs sd \<longleftrightarrow> length (sd_dev_addr sd) = 6 \<and> length (nw_bssid (sd_network sd)) = 6 \<and>
     network_arrays (sd_network sd) \<and> network_lengths (sd_network sd)"

lemma station_reads:
  assumes "station_addrs sd"
  defines "net \<equiv> sd_network sd"
  shows "buf_read 0 (unat (nw_ssid_len net)) (nw_ssid net) = Some (take (unat (nw_ssid_len net)) (nw_ssid net))"
    and "buf_read 0 (unat (nw_rates_len net)) (nw_rates net) = Some (take (unat (nw_rates_len net)) (nw_rates net))"
    and "buf_read 0 (unat (nw_rates_ex_len net)) (nw_rates_ex net) = Some (take (unat (nw_rates_ex_len net)) (nw_rates_ex net))"
    and "length (take (unat (nw_ssid_len net)) (nw_ssid net)) = unat (nw_ssid_len net)"
    and "length (take (unat (nw_rates_len net)) (nw_rates net)) = unat (nw_rates_len net)"
    and "length (take (unat (nw_rates_ex_len net)) (nw_rates_ex net)) = unat (nw_rates_ex_len net)"
  using assms by (auto simp: station_addrs_def network_arrays_def network_lengths_def word_le_nat_alt buf_read_def)

lemma probe_resp_frame:
  assumes sd: "station_addrs sd" and dest: "length dest = 6"
    and wpa: "probe_wpa_ie sd = Some (concat (map ie_bytes wes))"
  shows "ieee80211_probe_resp dest sd =
    Some (\<lparr>skb_head = replicate 16 0, skb_data = probe_frame 0x0050 dest sd wes, skb_room = []\<rparr>,
      sd\<lparr>sd_wpa_ie := concat (map ie_bytes wes)\<rparr>)"
proof -
  let ?net = "sd_network sd"
  have lw: "length (concat (map ie_bytes wes)) = length (sd_wpa_ie sd)"
    using wpa by (auto simp: probe_wpa_ie_def dest: buf_move_len split: if_splits)
  note r = station_reads [OF sd]
  have c: "(word_of_nat (unat l) :: u8) = l" for l :: u8 by simp
  let ?size = "PROBE_RESPONSE_SIZE + unat (nw_ssid_len ?net) + 3 + (unat (nw_rates_len ?net) + 2) +
    (if unat (nw_rates_ex_len ?net) > 0 then unat (nw_rates_ex_len ?net) + 2 else 0) +
    (if nw_capability ?net AND CAPABILITY_IBSS \<noteq> 0 then 4 else 0) + (if ieee80211_is_54g ?net then 3 else 0) + length (sd_wpa_ie sd)"
  have z: "unat (nw_rates_ex_len ?net) > 0 \<longleftrightarrow> nw_rates_ex_len ?net > 0" by (simp add: word_less_nat_alt)
  have frame: "mgmt_header 0x0050 0 dest (sd_dev_addr sd) (nw_bssid ?net) @ replicate 8 0 @
       le16 (nw_beacon_interval ?net) @ le16 (probe_capability sd) @
       [0, nw_ssid_len ?net] @ take (unat (nw_ssid_len ?net)) (nw_ssid ?net) @ [1, nw_rates_len ?net] @
       take (unat (nw_rates_len ?net)) (nw_rates ?net) @ [3, 1, nw_channel ?net] @
       (if nw_capability ?net AND CAPABILITY_IBSS \<noteq> 0 then [6, 2] @ le16 (nw_atim_window ?net) else []) @
       (if ieee80211_is_54g ?net then [42, 1, 0] else []) @
       (if unat (nw_rates_ex_len ?net) > 0 then [50, nw_rates_ex_len ?net] @ take (unat (nw_rates_ex_len ?net)) (nw_rates_ex ?net) else []) @
       concat (map ie_bytes wes) = probe_frame 0x0050 dest sd wes"
    unfolding probe_frame_def beacon_bytes_def probe_elements_def z
    using r(4-6) by (simp add: mgmt_header_def ie_bytes_def le16_def le32_def numeral_eq_Suc)
  have size: "length (probe_frame 0x0050 dest sd wes) = ?size"
    using sd dest unfolding frame [symmetric] station_addrs_def
    by (simp only: length_append length_mgmt_header list.size if_distrib [of length] length_replicate length_le16 r(4-6) lw)
       (simp add: if_distrib [of length] r(4-6) lw)
  show ?thesis
    unfolding ieee80211_probe_resp_def Let_def r(1-3) wpa Option.bind.bind_lunit frame
    using put_store_fresh [OF size] unfolding bind_eq_Some_conv
    by blast
qed


lemma get_beacon_frame_eq:
  assumes sd: "station_addrs sd" and wpa: "probe_wpa_ie sd = Some (concat (map ie_bytes wes))"
  shows "get_beacon_frame sd =
    Some (\<lparr>skb_head = replicate 16 0, skb_data = probe_frame 0x0080 broadcast_addr sd wes, skb_room = []\<rparr>,
      sd\<lparr>sd_wpa_ie := concat (map ie_bytes wes)\<rparr>)"
proof -
  have "length broadcast_addr = 6" by (simp add: broadcast_addr_def)
  moreover have "buf_write 0 (le16 0x0080) (probe_frame 0x0050 broadcast_addr sd wes) = Some (probe_frame 0x0080 broadcast_addr sd wes)"
    by (simp add: buf_write_def probe_frame_def beacon_bytes_def le16_def)
  ultimately show ?thesis
    using probe_resp_frame [OF sd _ wpa, of broadcast_addr] by (simp add: get_beacon_frame_def skb_store_def)
qed

section \<open>A beacon as its receiver sees it\<close>

text \<open>What the elements of the key management leave alone.\<close>

definition network_core :: "ieee80211_network \<Rightarrow> bytes \<times> u8 \<times> bytes \<times> u8 \<times> bytes \<times> u8 \<times> bytes \<times> u8 \<times> u16 \<times> u16" where
  "network_core n = (nw_bssid n, nw_channel n, nw_ssid n, nw_ssid_len n, nw_rates n, nw_rates_len n, nw_rates_ex n,
     nw_rates_ex_len n, nw_capability n, nw_beacon_interval n)"

definition key_elements :: "(u8 \<times> bytes) list \<Rightarrow> bool" where
  "key_elements wes \<longleftrightarrow> (\<forall>e \<in> set wes. fst e \<in> {221, 48} \<and> length (snd e) < 256)"

lemma fold_key_elements:
  "key_elements wes \<Longrightarrow> network_core (fold (ie_apply en) wes n) = network_core n"
proof (induction wes arbitrary: n)
  case (Cons e wes)
  obtain eid d where e: "e = (eid, d)" by (cases e)
  have "eid = 221 \<or> eid = 48" using Cons.prems e by (simp add: key_elements_def)
  then have "network_core (ie_apply en e n) = network_core n"
    by (auto simp: ie_apply_def network_core_def e Let_def)
  then show ?case using Cons by (simp add: key_elements_def)
qed simp

lemma probe_elements_ok:
  assumes sd: "station_addrs sd" and wes: "key_elements wes"
  shows "\<forall>e \<in> set (probe_elements (sd_network sd) wes). ie_ok aid e"
proof -
  note r = station_reads(4-6) [OF sd]
  have "unat l < 256" for l :: u8 using unsigned_less [of l, where ?'a = nat] by simp
  then show ?thesis
    using wes r by (auto simp: probe_elements_def ie_ok_def key_elements_def)
qed

text \<open>The parts of a network that a station announces and that a receiver must learn.\<close>

definition same_cell :: "ieee80211_network \<Rightarrow> ieee80211_network \<Rightarrow> bool" where
  "same_cell n net \<longleftrightarrow> nw_bssid n = nw_bssid net \<and> nw_channel n = nw_channel net \<and>
     nw_ssid_len n = nw_ssid_len net \<and> take (unat (nw_ssid_len net)) (nw_ssid n) = take (unat (nw_ssid_len net)) (nw_ssid net) \<and>
     nw_rates_len n = nw_rates_len net \<and> take (unat (nw_rates_len net)) (nw_rates n) = take (unat (nw_rates_len net)) (nw_rates net) \<and>
     nw_rates_ex_len n = nw_rates_ex_len net \<and>
     take (unat (nw_rates_ex_len net)) (nw_rates_ex n) = take (unat (nw_rates_ex_len net)) (nw_rates_ex net) \<and>
     nw_beacon_interval n = nw_beacon_interval net"

lemma beacon_elements_cell:
  fixes j :: u64
  assumes sd: "station_addrs sd" and wes: "key_elements wes" and f: "rs_freq (en_stats en) = BAND_24GHZ"
    and vis: "\<not> essid_hidden (take (unat (nw_ssid_len (sd_network sd))) (nw_ssid (sd_network sd)))"
    and stack: "network_arrays stack"
  defines "n \<equiv> network_end (en_stats en) (fold (ie_apply en) (probe_elements (sd_network sd) wes)
     (network_begin j (en_stats en) (nw_bssid (sd_network sd)) (0, 0) (nw_beacon_interval (sd_network sd)) (probe_capability sd) stack))"
  shows "same_cell n (sd_network sd) \<and> nw_capability n = probe_capability sd"
proof -
  let ?net = "sd_network sd"
  let ?b = "network_begin j (en_stats en) (nw_bssid ?net) (0, 0) (nw_beacon_interval ?net) (probe_capability sd) stack"
  note r = station_reads(4-6) [OF sd]
  have l: "unat (nw_ssid_len ?net) \<le> 32" "unat (nw_rates_len ?net) \<le> 12" "unat (nw_rates_ex_len ?net) \<le> 16"
    using sd by (simp_all add: station_addrs_def network_lengths_def word_le_nat_alt)
  define pre where "pre = probe_elements ?net []"
  have n: "network_core n = network_core (fold (ie_apply en) pre ?b)"
    using fold_key_elements [OF wes] unfolding n_def pre_def probe_elements_def
    by (simp add: network_core_def network_end_def fold_append)
  have "same_cell (fold (ie_apply en) pre ?b) ?net \<and> nw_capability (fold (ie_apply en) pre ?b) = probe_capability sd"
    using l r vis f stack
    by (cases "nw_rates_ex_len ?net > 0")
       (simp_all add: pre_def probe_elements_def ie_apply_def network_begin_def same_cell_def network_arrays_def Let_def word_gt_0)
  then show ?thesis using n by (simp add: network_core_def same_cell_def)
qed


section \<open>The association request\<close>

text \<open>What the allocation leaves for the station's own element.\<close>

definition assoc_ie_room :: "ieee80211_network \<Rightarrow> station \<Rightarrow> nat" where
  "assoc_ie_room beacon sd =
     (if sd_wpax_type_set sd \<and> sd_wpax_type_notify sd AND 0xff = 2 then 0 else nw_wpa_ie_len beacon) +
     (if sd_wpax_type_set sd \<and> sd_wpax_type_notify sd AND 0xff = 1 then 0 else nw_rsn_ie_len beacon) +
     (if sd_QoS_Enable sd then 9 else 0)"

definition assoc_req_frame :: "ieee80211_network \<Rightarrow> station \<Rightarrow> bytes" where
  "assoc_req_frame beacon sd =
     mgmt_header 0x0000 37 (nw_bssid beacon) (sd_dev_addr sd) (nw_bssid beacon) @
     le16 (CAPABILITY_BSS OR (if nw_capability beacon AND CAPABILITY_PRIVACY \<noteq> 0 then CAPABILITY_PRIVACY else 0) OR
       (if sd_short_slot sd then CAPABILITY_SHORT_SLOT else 0)) @ le16 0xa @
     ie_bytes (0, take (unat (nw_ssid_len beacon)) (nw_ssid beacon)) @
     ieee80211_MFIE_Brate (sd_modulation sd) @ ieee80211_MFIE_Grate (sd_modulation sd) @ sd_wpa_ie sd"

lemma association_req_eq:
  assumes "length (sd_dev_addr sd) = 6" and "length (nw_bssid beacon) = 6"
    and "network_arrays beacon" and "network_lengths beacon"
  shows "ieee80211_association_req beacon sd =
    (if length (sd_wpa_ie sd) \<le> assoc_ie_room beacon sd
     then Some (\<lparr>skb_head = replicate 16 0, skb_data = assoc_req_frame beacon sd,
         skb_room = replicate (assoc_ie_room beacon sd - length (sd_wpa_ie sd)) 0\<rparr>, sd\<lparr>sd_ap_mac_addr := nw_bssid beacon\<rparr>)
     else None)"
proof -
  let ?n = "unat (nw_ssid_len beacon)"
  let ?rates = "ieee80211_MFIE_Brate (sd_modulation sd) @ ieee80211_MFIE_Grate (sd_modulation sd)"
  have rd: "buf_read 0 ?n (nw_ssid beacon) = Some (take ?n (nw_ssid beacon))" and rl: "length (take ?n (nw_ssid beacon)) = ?n"
    using assms by (auto simp: network_arrays_def network_lengths_def word_le_nat_alt buf_read_def)
  have al: "assoc_req_alloc beacon sd = 30 + (?n + (length ?rates + assoc_ie_room beacon sd))"
    unfolding assoc_req_alloc_def assoc_ie_room_def length_MFIE Let_def by simp
  have hl: "length (mgmt_header 0x0000 37 (nw_bssid beacon) (sd_dev_addr sd) (nw_bssid beacon)) = 24"
    using assms by (simp add: length_mgmt_header)
  show ?thesis
    unfolding ieee80211_association_req_def Let_def rd al assoc_req_frame_def ie_bytes_def
    using hl rl by (simp add: put_data_iff dev_alloc_skb_def skb_tailroom_def del: replicate_add)
qed

section \<open>The answers of an access point\<close>

lemma auth_resp_eq:
  assumes "length dest = 6" and "length (sd_dev_addr sd) = 6"
  shows "ieee80211_auth_resp status dest sd =
    Some \<lparr>skb_head = replicate 16 0,
      skb_data = mgmt_header 0x00B0 0 dest (sd_dev_addr sd) (sd_dev_addr sd) @ le16 0 @ le16 2 @ le16 status, skb_room = [0]\<rparr>"
  using assms length_mgmt_header [of dest "sd_dev_addr sd" "sd_dev_addr sd" "0x00B0" 0]
  by (simp add: ieee80211_auth_resp_def put_data_iff dev_alloc_skb_def skb_tailroom_def)

lemma get_le16_le16: "get_le16 (le16 v ! 0) (le16 v ! 1) = v" "get_le16 (le16 v ! 0) (le16 v ! Suc 0) = v"
  by (simp_all add: le16_def get_le16_bytes)

lemma peek_at:
  "\<lbrakk>skb_data f = a @ b @ c; length a = off; length b = n\<rbrakk> \<Longrightarrow> skb_peek off n f = Some b"
  by (simp add: skb_peek_def buf_read_def)

lemma auth_resp_parse:
  assumes "ieee80211_auth_resp status dest sd = Some skb" and "length dest = 6" and "length (sd_dev_addr sd) = 6"
  shows "auth_parse skb = Some (status, None)"
proof -
  let ?h = "mgmt_header 0x00B0 0 dest (sd_dev_addr sd) (sd_dev_addr sd)"
  have d: "skb_data skb = ?h @ le16 0 @ le16 2 @ le16 status"
    using assms(1) unfolding auth_resp_eq [OF assms(2,3)] by (auto simp del: One_nat_def)
  have hl: "length ?h = 24" using assms by (simp add: length_mgmt_header)
  have "skb_peek 28 2 skb = Some (le16 status)"
    by (rule peek_at [of skb "?h @ le16 0 @ le16 2" _ "[]"]) (simp_all add: d hl)
  moreover have "skb_len skb = 30" by (simp add: skb_len_def d hl)
  ultimately show ?thesis by (simp add: auth_parse_def get_le16_le16)
qed

lemma assoc_resp_eq:
  assumes "length dest = 6" and "length (sd_dev_addr sd) = 6"
  shows "\<exists>skb. ieee80211_assoc_resp dest sd =
      Some (skb, sd\<lparr>sd_assoc_id := if sd_assoc_id sd = 0x2007 then 0 else sd_assoc_id sd + 1\<rparr>) \<and>
    skb_data skb = mgmt_header 0x0010 0 dest (sd_dev_addr sd) (sd_dev_addr sd) @ le16 (assoc_resp_capability sd) @ le16 0 @ le16 (sd_assoc_id sd) @ [0, 0] @
      ieee80211_MFIE_Brate (sd_modulation sd) @ ieee80211_MFIE_Grate (sd_modulation sd)"
proof -
  have hl: "length (mgmt_header 0x0010 0 dest (sd_dev_addr sd) (sd_dev_addr sd)) = 24"
    using assms by (simp add: length_mgmt_header)
  show ?thesis
    unfolding ieee80211_assoc_resp_def Let_def length_MFIE [symmetric] put_data_iff dev_alloc_skb_def skb_tailroom_def
    using hl by (simp del: replicate_add)
qed

lemma assoc_resp_parse:
  assumes "ieee80211_assoc_resp dest sd = Some (skb, sd')" and "length dest = 6" and "length (sd_dev_addr sd) = 6"
  shows "assoc_parse skb = Some (0, sd_assoc_id sd AND 0x3fff)"
proof -
  let ?h = "mgmt_header 0x0010 0 dest (sd_dev_addr sd) (sd_dev_addr sd)"
  have d: "skb_data skb = ?h @ le16 (assoc_resp_capability sd) @ le16 0 @ le16 (sd_assoc_id sd) @ [0, 0] @
      ieee80211_MFIE_Brate (sd_modulation sd) @ ieee80211_MFIE_Grate (sd_modulation sd)" (is "_ = _ @ _ @ _ @ _ @ ?r")
    using assms(1) assoc_resp_eq [OF assms(2,3)] by auto
  have hl: "length ?h = 24" using assms by (simp add: length_mgmt_header)
  have "skb_peek 26 2 skb = Some (le16 0)"
    by (rule peek_at [of skb "?h @ le16 (assoc_resp_capability sd)" _ "le16 (sd_assoc_id sd) @ ?r"]) (simp_all add: d hl)
  moreover have "skb_peek 28 2 skb = Some (le16 (sd_assoc_id sd))"
    by (rule peek_at [of skb "?h @ le16 (assoc_resp_capability sd) @ le16 0" _ ?r]) (simp_all add: d hl)
  moreover have "\<not> skb_len skb < ASSOC_RESPONSE_SIZE" by (simp add: skb_len_def d hl)
  ultimately show ?thesis by (simp add: assoc_parse_def get_le16_le16)
qed


section \<open>Properties\<close>

text \<open>A station at rest, as \<open>ieee80211_softmac_init\<close> leaves one, with an address and a cell of its own.\<close>

definition sta_stats_zero :: sta_stats where
  "sta_stats_zero = \<lparr>ss_tx_probe_rq = 0, ss_rx_auth_rs_ok = 0, ss_rx_auth_rs_err = 0, ss_tx_auth_rq = 0, ss_no_auth_rs = 0,
     ss_no_ass_rs = 0, ss_tx_ass_rq = 0, ss_rx_ass_ok = 0, ss_rx_ass_err = 0, ss_rx_probe_rq = 0, ss_tx_probe_rs = 0,
     ss_tx_beacons = 0, ss_rx_auth_rq = 0, ss_rx_ass_rq = 0, ss_reassoc = 0\<rparr>"

definition sta_work_none :: sta_work where
  "sta_work_none = \<lparr>wk_softmac_scan = False, wk_start_ibss = False, wk_associate_retry = False, wk_associate_complete = False,
     wk_associate_procedure = False, wk_associate_timer = False, wk_beacon_timer = False, wk_ps_task = False,
     wk_hw_sleep = False, wk_hw_wakeup = False, wk_wx_sync_scan = False\<rparr>"

definition cell_example :: ieee80211_network where
  "cell_example = network_blank\<lparr>nw_bssid := [2, 9, 9, 9, 9, 9], nw_channel := 6, nw_ssid := [110, 101, 116] @ replicate 30 0,
     nw_ssid_len := 3, nw_rates := [0x82, 0x84, 0x8B, 0x96] @ replicate 8 0, nw_rates_len := 4, nw_beacon_interval := 100,
     nw_capability := CAPABILITY_IBSS\<rparr>"

definition sta_example :: station where
  "sta_example = \<lparr>sd_state = NOLINK, sd_iw_mode = IW_MODE_ADHOC, sd_network = cell_example, sd_modulation = 3, sd_short_slot = True,
     sd_dev_addr = [2, 0, 0, 0, 0, 1], sd_ps = 0, sd_sta_sleep = 0,
     sd_ps_timeout = 0, sd_ps_th = 0, sd_ps_tl = 0, sd_last_rx_ps_time = 0, sd_open_wep = True, sd_associate_seq = 1, sd_assoc_id = 1,
     sd_wpa_ie = [], sd_wpax_type_set = False, sd_wpax_type_notify = 0, sd_QoS_Enable = False, sd_ap_mac_addr = replicate 6 0,
     sd_host_encrypt = False, sd_tx_crypt_name = None, sd_rate = 110, sd_active_scan = True, sd_raw_tx = False,
     sd_channel_map = replicate 162 True, sd_proto_started = False, sd_scanning = 0, sd_scan_watchdog = 0, sd_actscanning = False,
     sd_beinretry = False, sd_sync_scan_hurryup = False, sd_beacon_txing = False, sd_wap_set = False, sd_ssid_set = False,
     sd_nets = [], sd_net_free = 128, sd_scan_age = 3750, sd_stats = sta_stats_zero, sd_work = sta_work_none, sd_out = []\<rparr>"

lemma station_addrs_example: "station_addrs sta_example"
  by (simp add: station_addrs_def sta_example_def cell_example_def network_arrays_def network_lengths_def network_blank_def)

text \<open>C24: The beacon that the soft MAC builds is one that the parser of beacons understands: a receiver learns
  from it the sender's cell address, channel, name, both sets of rates and beacon interval, and
  as capabilities those that \<open>ieee80211_probe_resp\<close> keeps.  The key management element has to be a
  sequence of whole elements, and the name has to be a visible one.\<close>

theorem beacon_parsed:
  assumes "station_addrs sd" and "probe_wpa_ie sd = Some (concat (map ie_bytes wes))" and "key_elements wes"
    and "\<not> essid_hidden (take (unat (nw_ssid_len (sd_network sd))) (nw_ssid (sd_network sd)))"
    and "rs_freq (en_stats en) = BAND_24GHZ"
    and "unat (rs_len (en_stats en)) = length (probe_frame 0x0080 broadcast_addr sd wes)"
    and "network_arrays stack"
  shows "\<exists>skb n. get_beacon_frame sd = Some (skb, sd\<lparr>sd_wpa_ie := concat (map ie_bytes wes)\<rparr>) \<and>
    ieee80211_network_init j en (skb_data skb @ tail) stack = Some (0, n) \<and>
    same_cell n (sd_network sd) \<and> nw_capability n = probe_capability sd"
proof -
  note len = assms(1) [unfolded station_addrs_def]
  let ?n = "network_end (en_stats en) (fold (ie_apply en) (probe_elements (sd_network sd) wes)
     (network_begin j (en_stats en) (nw_bssid (sd_network sd)) (0, 0) (nw_beacon_interval (sd_network sd)) (probe_capability sd) stack))"
  have "ieee80211_network_init j en (probe_frame 0x0080 broadcast_addr sd wes @ tail) stack = Some (0, ?n)"
    using assms(6) len probe_elements_ok [OF assms(1,3)] assms(7) unfolding probe_frame_def
    by (intro network_init_spec) (simp_all add: broadcast_addr_def)
  with get_beacon_frame_eq [OF assms(1,2)] beacon_elements_cell [OF assms(1,3,5,4,7), of j]
  show ?thesis by (intro exI [of _ "\<lparr>skb_head = replicate 16 0, skb_data = probe_frame 0x0080 broadcast_addr sd wes, skb_room = []\<rparr>"]
        exI [of _ ?n]) (simp only: sk_buff.select_convs simp_thms)
qed

theorem beacon_parsed_witness:
  "\<exists>skb n. get_beacon_frame sta_example = Some (skb, sta_example\<lparr>sd_wpa_ie := concat (map ie_bytes [])\<rparr>) \<and>
    ieee80211_network_init 9 (env_example 54) (skb_data skb @ []) network_blank = Some (0, n) \<and>
    same_cell n (sd_network sta_example) \<and> nw_capability n = probe_capability sta_example"
proof (rule beacon_parsed [OF station_addrs_example, where wes = "[]"])
  show "probe_wpa_ie sta_example = Some (concat (map ie_bytes []))" by (simp add: probe_wpa_ie_def sta_example_def)
  show "unat (rs_len (en_stats (env_example 54))) = length (probe_frame 0x0080 broadcast_addr sta_example [])"
    by (simp add: env_example_def stats_example_def probe_frame_def beacon_bytes_def broadcast_addr_def probe_elements_def
        ie_bytes_def sta_example_def cell_example_def network_blank_def ieee80211_is_54g_def le16_def)
qed (simp_all add: key_elements_def sta_example_def cell_example_def network_blank_def essid_hidden_def env_example_def
      stats_example_def network_arrays_def)

text \<open>The association request gets room for the key management elements of the access point's beacon, but
  carries the station's own element: building it succeeds, with the expected frame, exactly as
  long as that element is not longer than the elements of the beacon together (plus nine bytes with
  QoS); otherwise \<open>skb_put\<close> runs over the end of the buffer and the kernel panics.\<close>

theorem association_req_room:
  assumes "length (sd_dev_addr sd) = 6" and "length (nw_bssid beacon) = 6"
    and "network_arrays beacon" and "network_lengths beacon"
  shows "(ieee80211_association_req beacon sd = None \<longleftrightarrow> assoc_ie_room beacon sd < length (sd_wpa_ie sd)) \<and>
    map_option (skb_data \<circ> fst) (ieee80211_association_req beacon sd) =
      (if length (sd_wpa_ie sd) \<le> assoc_ie_room beacon sd then Some (assoc_req_frame beacon sd) else None)"
  using association_req_eq [OF assms] by auto

theorem association_req_room_witness:
  "\<exists>wpa_ie. length wpa_ie = 22 \<and> ieee80211_association_req cell_example (sta_example\<lparr>sd_wpa_ie := wpa_ie\<rparr>) = None \<and>
    ieee80211_association_req (cell_example\<lparr>nw_rsn_ie_len := 22\<rparr>) (sta_example\<lparr>sd_wpa_ie := wpa_ie\<rparr>) \<noteq> None"
proof (intro exI conjI)
  let ?sd = "sta_example\<lparr>sd_wpa_ie := replicate 22 0\<rparr>"
  have a: "length (sd_dev_addr ?sd) = 6" by (simp add: sta_example_def)
  have "network_arrays cell_example" "network_lengths cell_example" "length (nw_bssid cell_example) = 6"
    using station_addrs_example by (simp_all add: station_addrs_def sta_example_def)
  then show "ieee80211_association_req cell_example ?sd = None"
      "ieee80211_association_req (cell_example\<lparr>nw_rsn_ie_len := 22\<rparr>) ?sd \<noteq> None"
    using association_req_room [OF a, of cell_example] association_req_room [OF a, of "cell_example\<lparr>nw_rsn_ie_len := 22\<rparr>"]
    by (simp_all add: assoc_ie_room_def sta_example_def cell_example_def network_blank_def network_arrays_def network_lengths_def)
qed simp

end
