(* ===== verification/Softmac_Link.thy ===== *)
theory Softmac_Link
  imports Softmac_Frames Bss_Table
begin

text \<open>
  The link state machine of \<open>ieee80211/ieee80211_softmac.c\<close>: scanning, authentication and association,
  the retry, beacons, the start of each operating mode, and the reception of management frames.  Each
  handler is one step on the record \<open>station\<close>; timers and works are flags, set by \<open>mod_timer\<close> and
  \<open>queue_work\<close>, cleared by \<open>del_timer_sync\<close> and \<open>cancel_delayed_work\<close>, and a step that runs one
  clears its flag first.  What a handler hands to the transmit queue, the driver and the kernel is
  appended to \<open>sd_out\<close>.  The argument \<open>al\<close> says whether the allocations of a step succeed.
  Locks and semaphores make the steps atomic and are not modelled.  The callbacks of the driver are those of
  \<open>rtl8187_init\<close>: no beacon callbacks, all soft MAC features on.
\<close>

section \<open>Output and work\<close>

definition sta_put :: "sta_output \<Rightarrow> station \<Rightarrow> station" where
  "sta_put out sd = sd\<lparr>sd_out := sd_out sd @ [out]\<rparr>"

definition sta_stat :: "(sta_stats \<Rightarrow> sta_stats) \<Rightarrow> station \<Rightarrow> station" where
  "sta_stat f sd = sd\<lparr>sd_stats := f (sd_stats sd)\<rparr>"

definition sta_queue :: "(sta_work \<Rightarrow> sta_work) \<Rightarrow> station \<Rightarrow> station" where
  "sta_queue f sd = sd\<lparr>sd_work := f (sd_work sd)\<rparr>"

section \<open>Sending\<close>

definition ieee80211_sta_ps_send_null_frame :: "bool \<Rightarrow> bool \<Rightarrow> station \<Rightarrow> station option" where
  "ieee80211_sta_ps_send_null_frame al pwr sd =
     (if al then map_option (\<lambda>skb. sta_put (Ps_Xmit skb) sd) (ieee80211_null_func pwr sd) else Some sd)"

definition ieee80211_sta_wakeup :: "bool \<Rightarrow> bool \<Rightarrow> station \<Rightarrow> station option" where
  "ieee80211_sta_wakeup al nl sd =
     (if sd_sta_sleep sd = 0 then if nl then ieee80211_sta_ps_send_null_frame al False sd else Some sd
      else
        let sd = (if sd_sta_sleep sd = 1 then sta_queue (wk_hw_wakeup_update (\<lambda>_. True)) sd else sd);
            sd = sd\<lparr>sd_sta_sleep := 0\<rparr>
        in if nl then ieee80211_sta_ps_send_null_frame al False sd else Some sd)"

text \<open>
  The part of \<open>softmac_mgmt_xmit\<close> that belongs to the station; what the transmit queue does with
  the frame is \<open>softmac_mgmt_xmit\<close> of the theory on the queue.
\<close>

definition sta_mgmt_xmit :: "sk_buff \<Rightarrow> station \<Rightarrow> station option" where
  "sta_mgmt_xmit skb sd = map_option (sta_put (Mgmt_Xmit skb)) (ieee80211_sta_wakeup True False sd)"

definition ieee80211_send_beacon :: "bool \<Rightarrow> station \<Rightarrow> station option" where
  "ieee80211_send_beacon al sd = do {
     sd \<leftarrow> (if al then do {
         (skb, sd) \<leftarrow> get_beacon_frame sd;
         sd \<leftarrow> sta_mgmt_xmit skb sd;
         Some (sta_stat (ss_tx_beacons_update (\<lambda>n. n + 1)) sd)
       } else Some sd);
     Some (if sd_beacon_txing sd then sta_queue (wk_beacon_timer_update (\<lambda>_. True)) sd else sd)
   }"

definition ieee80211_send_probe :: "bool \<Rightarrow> station \<Rightarrow> station option" where
  "ieee80211_send_probe al sd =
     (if al then do {
        skb \<leftarrow> ieee80211_probe_req sd;
        sd \<leftarrow> sta_mgmt_xmit skb sd;
        Some (sta_stat (ss_tx_probe_rq_update (\<lambda>n. n + 1)) sd)
      } else Some sd)"

definition ieee80211_send_probe_requests :: "bool \<Rightarrow> station \<Rightarrow> station option" where
  "ieee80211_send_probe_requests al sd =
     (if sd_active_scan sd then ieee80211_send_probe al sd \<bind> ieee80211_send_probe al else Some sd)"

definition ieee80211_resp_to_assoc_rq :: "bool \<Rightarrow> bytes \<Rightarrow> station \<Rightarrow> station option" where
  "ieee80211_resp_to_assoc_rq al dest sd =
     (if al then do { (skb, sd) \<leftarrow> ieee80211_assoc_resp dest sd; sta_mgmt_xmit skb sd } else Some sd)"

definition ieee80211_resp_to_auth :: "bool \<Rightarrow> u16 \<Rightarrow> bytes \<Rightarrow> station \<Rightarrow> station option" where
  "ieee80211_resp_to_auth al s dest sd =
     (if al then do { skb \<leftarrow> ieee80211_auth_resp s dest sd; sta_mgmt_xmit skb sd } else Some sd)"

definition ieee80211_resp_to_probe :: "bool \<Rightarrow> bytes \<Rightarrow> station \<Rightarrow> station option" where
  "ieee80211_resp_to_probe al dest sd =
     (if al then do { (skb, sd) \<leftarrow> ieee80211_probe_resp dest sd; sta_mgmt_xmit skb sd } else Some sd)"

definition notify_wx_assoc_event :: "station \<Rightarrow> station" where
  "notify_wx_assoc_event sd =
     sta_put (Wx_Assoc_Event (if sd_state sd = LINKED then nw_bssid (sd_network sd) else replicate 6 0)) sd"

section \<open>Scanning\<close>

text \<open>
  The loop of the background scan: the next channel modulo 161, until the map allows it or the watchdog
  has counted past 161.  The flag says whether a channel was found.
\<close>

function scan_next :: "station \<Rightarrow> bool \<times> station" where
  "scan_next sd =
     (let channel = word_of_nat ((unat (nw_channel (sd_network sd)) + 1) mod 161) :: u8;
          watchdog = sd_scan_watchdog sd;
          sd' = sd\<lparr>sd_network := (sd_network sd)\<lparr>nw_channel := channel\<rparr>, sd_scan_watchdog := watchdog + 1\<rparr>
      in if watchdog > 161 then (False, sd')
         else if sd_channel_map sd ! unat channel then (True, sd')
         else scan_next sd')"
  by pat_completeness auto
termination by (relation "measure (\<lambda>sd. nat (162 - sd_scan_watchdog sd))") (auto simp: Let_def)

declare scan_next.simps [simp del]

definition ieee80211_softmac_scan_wq :: "bool \<Rightarrow> station \<Rightarrow> station option" where
  "ieee80211_softmac_scan_wq al sd = do {
     sd \<leftarrow> (if sd_scanning sd = 0 then Some sd
       else case scan_next sd of (found, sd) \<Rightarrow>
         if \<not> found then Some sd
         else do {
           let sd = sta_put (Set_Chan (nw_channel (sd_network sd))) sd;
           sd \<leftarrow> ieee80211_send_probe_requests al sd;
           Some (sta_queue (wk_softmac_scan_update (\<lambda>_. True)) sd)
         });
     Some (sd\<lparr>sd_actscanning := False, sd_scan_watchdog := 0\<rparr>)
   }"

definition ieee80211_stop_scan :: "station \<Rightarrow> station" where
  "ieee80211_stop_scan sd =
     (if sd_scanning sd = 1
      then sta_queue (wk_softmac_scan_update (\<lambda>_. False)) (sd\<lparr>sd_scanning := 0, sd_scan_watchdog := 0\<rparr>) else sd)"

definition ieee80211_start_scan :: "station \<Rightarrow> station" where
  "ieee80211_start_scan sd =
     (if sd_scanning sd = 0 then sta_queue (wk_softmac_scan_update (\<lambda>_. True)) (sd\<lparr>sd_scanning := 1\<rparr>) else sd)"

text \<open>
  The scan that keeps its caller waiting, over the channels 1 to 161.  While it sleeps on a channel, other
  steps run: \<open>meanwhile ch\<close> is what they do to the station.
\<close>

fun scan_syncro_loop :: "bool \<Rightarrow> (u8 \<Rightarrow> station \<Rightarrow> station option) \<Rightarrow> nat list \<Rightarrow> station \<Rightarrow> station option" where
  "scan_syncro_loop al meanwhile [] sd = Some sd"
| "scan_syncro_loop al meanwhile (ch # chs) sd =
     (if \<not> sd_channel_map sd ! ch then scan_syncro_loop al meanwhile chs sd
      else if sd_state sd = LINKED then Some sd
      else do {
        sd \<leftarrow> ieee80211_send_probe_requests al (sta_put (Set_Chan (word_of_nat ch)) sd);
        if sd_sync_scan_hurryup sd then Some sd
        else do { sd \<leftarrow> meanwhile (word_of_nat ch) sd; scan_syncro_loop al meanwhile chs sd }
      })"

definition ieee80211_softmac_scan_syncro :: "bool \<Rightarrow> (u8 \<Rightarrow> station \<Rightarrow> station option) \<Rightarrow> station \<Rightarrow> station option" where
  "ieee80211_softmac_scan_syncro al meanwhile sd =
     map_option (\<lambda>sd. sd\<lparr>sd_sync_scan_hurryup := False\<rparr>) (scan_syncro_loop al meanwhile [1..<162] sd)"

definition ieee80211_start_scan_syncro :: "bool \<Rightarrow> (u8 \<Rightarrow> station \<Rightarrow> station option) \<Rightarrow> station \<Rightarrow> station option" where
  "ieee80211_start_scan_syncro al meanwhile sd =
     ieee80211_softmac_scan_syncro al meanwhile (sd\<lparr>sd_sync_scan_hurryup := False\<rparr>)"

section \<open>Beacons\<close>

definition ieee80211_start_send_beacons :: "bool \<Rightarrow> station \<Rightarrow> station option" where
  "ieee80211_start_send_beacons al sd = ieee80211_send_beacon al (sd\<lparr>sd_beacon_txing := True\<rparr>)"

definition ieee80211_stop_send_beacons :: "station \<Rightarrow> station" where
  "ieee80211_stop_send_beacons sd = sta_queue (wk_beacon_timer_update (\<lambda>_. False)) (sd\<lparr>sd_beacon_txing := False\<rparr>)"

section \<open>Authentication and association\<close>

definition ieee80211_associate_abort :: "station \<Rightarrow> station" where
  "ieee80211_associate_abort sd =
     (let sd = sd\<lparr>sd_associate_seq := sd_associate_seq sd + 1\<rparr>;
          sd = (if sd_state sd = ASSOCIATING_AUTHENTICATING then sta_stat (ss_no_auth_rs_update (\<lambda>n. n + 1)) sd
                else sta_stat (ss_no_ass_rs_update (\<lambda>n. n + 1)) sd)
      in sta_queue (wk_associate_retry_update (\<lambda>_. True)) (sd\<lparr>sd_state := ASSOCIATING_RETRY\<rparr>))"

definition ieee80211_associate_step1 :: "bool \<Rightarrow> station \<Rightarrow> station option" where
  "ieee80211_associate_step1 al sd =
     (let sd = sta_stat (ss_tx_auth_rq_update (\<lambda>n. n + 1)) sd
      in if \<not> al then Some (ieee80211_associate_abort sd)
         else do {
           (skb, sd) \<leftarrow> ieee80211_authentication_req (sd_network sd) 0 sd;
           sd \<leftarrow> sta_mgmt_xmit skb (sd\<lparr>sd_state := ASSOCIATING_AUTHENTICATING\<rparr>);
           Some (sta_queue (wk_associate_timer_update (\<lambda>_. True)) sd)
         })"

text \<open>\<open>seal\<close> is what \<open>ieee80211_encrypt_fragment\<close> leaves of the frame.\<close>

definition ieee80211_auth_challenge :: "(sk_buff \<Rightarrow> sk_buff option) \<Rightarrow> bool \<Rightarrow> bytes \<Rightarrow> station \<Rightarrow> station option" where
  "ieee80211_auth_challenge seal al challenge sd =
     (let sd = sd\<lparr>sd_associate_seq := sd_associate_seq sd + 1\<rparr>;
          sd = sta_stat (ss_tx_auth_rq_update (\<lambda>n. n + 1)) sd
      in if \<not> al then Some (ieee80211_associate_abort sd)
         else do {
           (skb, sd) \<leftarrow> ieee80211_authentication_req (sd_network sd) (length challenge + 2) sd;
           skb \<leftarrow> skb_put_data ([16, word_of_nat (length challenge)] @ challenge) skb;
           skb \<leftarrow> seal skb;
           sd \<leftarrow> sta_mgmt_xmit skb sd;
           Some (sta_queue (wk_associate_timer_update (\<lambda>_. True)) sd)
         })"

definition ieee80211_associate_step2 :: "bool \<Rightarrow> station \<Rightarrow> station option" where
  "ieee80211_associate_step2 al sd =
     (let sd = sta_queue (wk_associate_timer_update (\<lambda>_. False)) sd;
          sd = sta_stat (ss_tx_ass_rq_update (\<lambda>n. n + 1)) sd
      in if \<not> al then Some (ieee80211_associate_abort sd)
         else do {
           (skb, sd) \<leftarrow> ieee80211_association_req (sd_network sd) sd;
           sd \<leftarrow> sta_mgmt_xmit skb sd;
           Some (sta_queue (wk_associate_timer_update (\<lambda>_. True)) sd)
         })"

definition sta_link_rate :: "station \<Rightarrow> int" where
  "sta_link_rate sd = (if ieee80211_is_54g (sd_network sd) \<and> sd_modulation sd AND OFDM_MODULATION \<noteq> 0 then 540 else 110)"

definition ieee80211_associate_complete_wq :: "station \<Rightarrow> station" where
  "ieee80211_associate_complete_wq sd =
     (let sd = sd\<lparr>sd_rate := sta_link_rate sd\<rparr>;
          sd = notify_wx_assoc_event (sta_put Link_Change sd)
      in sta_put (Carrier True) (sta_put Data_Hard_Resume sd))"

definition ieee80211_associate_complete :: "station \<Rightarrow> station" where
  "ieee80211_associate_complete sd =
     (let sd = sta_put Reset_Seq_Ctrl (sta_queue (wk_associate_timer_update (\<lambda>_. False)) sd)
      in sta_queue (wk_associate_complete_update (\<lambda>_. True)) (sd\<lparr>sd_state := LINKED\<rparr>))"

definition ieee80211_associate_procedure_wq :: "bool \<Rightarrow> station \<Rightarrow> station option" where
  "ieee80211_associate_procedure_wq al sd =
     (let sd = sta_put Data_Hard_Stop (sd\<lparr>sd_sync_scan_hurryup := True\<rparr>);
          sd = ieee80211_stop_scan sd;
          sd = sta_put (Set_Chan (nw_channel (sd_network sd))) sd
      in ieee80211_associate_step1 al (sd\<lparr>sd_associate_seq := 1\<rparr>))"

section \<open>Choosing a network\<close>

text \<open>\<open>strncpy(dst, src, n)\<close> on arrays of at least \<open>n\<close> bytes: up to the first zero byte, then zeros.\<close>

definition str_ncopy :: "nat \<Rightarrow> bytes \<Rightarrow> bytes \<Rightarrow> bytes" where
  "str_ncopy n src dst = (let s = takeWhile (\<lambda>b. b \<noteq> 0) (take n src) in s @ replicate (n - length s) 0 @ drop n dst)"

definition net_wanted :: "station \<Rightarrow> ieee80211_network \<Rightarrow> bool" where
  "net_wanted sd net =
     (let apset = sd_wap_set sd; ssidset = sd_ssid_set sd;
          ssidbroad = \<not> (nw_ssid_len net = 0 \<or> nw_ssid net ! 0 = 0);
          apmatch = (nw_bssid (sd_network sd) = nw_bssid net);
          ssidmatch = strncmp_eq (unat (nw_ssid_len net)) (nw_ssid (sd_network sd)) (nw_ssid net)
      in (apset \<and> apmatch \<and> ((ssidset \<and> ssidbroad \<and> ssidmatch) \<or> (ssidbroad \<and> \<not> ssidset) \<or> (\<not> ssidbroad \<and> ssidset))) \<or>
         (\<not> apset \<and> ssidset \<and> ssidbroad \<and> ssidmatch))"

definition ieee80211_softmac_new_net :: "ieee80211_network \<Rightarrow> station \<Rightarrow> station" where
  "ieee80211_softmac_new_net net sd =
     (if sd_state sd \<noteq> NOLINK then sd
      else if sd_iw_mode sd = IW_MODE_INFRA \<and> nw_capability net AND CAPABILITY_BSS = 0 then sd
      else if sd_iw_mode sd = IW_MODE_ADHOC \<and> nw_capability net AND CAPABILITY_IBSS = 0 then sd
      else if (sd_iw_mode sd = IW_MODE_INFRA \<or> sd_iw_mode sd = IW_MODE_ADHOC) \<and> net_wanted sd net then
        let ssidbroad = \<not> (nw_ssid_len net = 0 \<or> nw_ssid net ! 0 = 0);
            new = (if ssidbroad then net
                   else net\<lparr>nw_ssid := str_ncopy 32 (str_ncopy 32 (nw_ssid (sd_network sd)) (replicate 33 0)) (nw_ssid net),
                        nw_ssid_len := nw_ssid_len (sd_network sd)\<rparr>);
            sd = sd\<lparr>sd_network := new\<rparr>
        in if sd_iw_mode sd = IW_MODE_INFRA
           then sta_queue (wk_associate_procedure_update (\<lambda>_. True)) (sd\<lparr>sd_state := ASSOCIATING, sd_beinretry := False\<rparr>)
           else sd\<lparr>sd_rate := sta_link_rate sd, sd_state := LINKED, sd_beinretry := False\<rparr>
      else sd)"

fun check_nets_loop :: "ieee80211_network list \<Rightarrow> station \<Rightarrow> station" where
  "check_nets_loop [] sd = sd"
| "check_nets_loop (target # nets) sd =
     (if sd_state sd \<noteq> NOLINK then sd else check_nets_loop nets (ieee80211_softmac_new_net target sd))"

definition ieee80211_softmac_check_all_nets :: "station \<Rightarrow> station" where
  "ieee80211_softmac_check_all_nets sd = check_nets_loop (sd_nets sd) sd"

section \<open>Starting and stopping\<close>

definition default_essid :: bytes where "default_essid = [0x50, 0x65, 0x6e, 0x67, 0x75, 0x69, 0x6e]"

definition sta_default_essid :: "station \<Rightarrow> station" where
  "sta_default_essid sd =
     (if nw_ssid_len (sd_network sd) = 0
      then sd\<lparr>sd_network := (sd_network sd)\<lparr>nw_ssid := str_ncopy 32 (default_essid @ [0]) (nw_ssid (sd_network sd)), nw_ssid_len := 7\<rparr>,
              sd_ssid_set := True\<rparr>
      else sd)"

definition ieee80211_start_master_bss :: "station \<Rightarrow> station" where
  "ieee80211_start_master_bss sd =
     (let sd = sta_default_essid (sd\<lparr>sd_assoc_id := 1\<rparr>);
          sd = sd\<lparr>sd_network := (sd_network sd)\<lparr>nw_bssid := sd_dev_addr sd\<rparr>\<rparr>;
          sd = (sta_put (Set_Chan (nw_channel (sd_network sd))) sd)\<lparr>sd_state := LINKED\<rparr>;
          sd = notify_wx_assoc_event (sta_put Link_Change sd)
      in sta_put (Carrier True) (sta_put Data_Hard_Resume sd))"

definition ieee80211_start_monitor_mode :: "station \<Rightarrow> station" where
  "ieee80211_start_monitor_mode sd =
     (if sd_raw_tx sd then sta_put (Carrier True) (sta_put Data_Hard_Resume sd) else sd)"

text \<open>\<open>rnd\<close> are the bytes of \<open>get_random_bytes\<close>.\<close>

definition ieee80211_randomize_cell :: "bytes \<Rightarrow> ieee80211_network \<Rightarrow> ieee80211_network" where
  "ieee80211_randomize_cell rnd net = net\<lparr>nw_bssid := ((hd rnd AND NOT 0x01) OR 0x02) # tl rnd\<rparr>"

definition ibss_new_cell :: "bytes \<Rightarrow> station \<Rightarrow> station" where
  "ibss_new_cell rnd sd =
     (let net = (if sd_wap_set sd then sd_network sd else ieee80211_randomize_cell rnd (sd_network sd));
          net = (if sd_modulation sd AND CCK_MODULATION \<noteq> 0
                 then net\<lparr>nw_rates_len := 4, nw_rates := [0x82, 0x84, 0x8B, 0x96] @ drop 4 (nw_rates net)\<rparr>
                 else net\<lparr>nw_rates_len := 0\<rparr>);
          net = (if sd_modulation sd AND OFDM_MODULATION \<noteq> 0
                 then net\<lparr>nw_rates_ex_len := 8,
                        nw_rates_ex := [0x8C, 0x92, 0x98, 0xA4, 0xB0, 0xC8, 0xE0, 0xEC] @ drop 8 (nw_rates_ex net)\<rparr>
                 else net\<lparr>nw_rates_ex_len := 0\<rparr>);
          net = net\<lparr>nw_atim_window := 0,
                  nw_capability := CAPABILITY_IBSS OR (if sd_short_slot sd then CAPABILITY_SHORT_SLOT else 0)\<rparr>
      in sd\<lparr>sd_network := net, sd_rate := (if sd_modulation sd AND OFDM_MODULATION \<noteq> 0 then 540 else 110)\<rparr>)"

text \<open>
  The default name is copied with \<open>strcpy\<close> here, eight bytes with the terminator.
\<close>

definition ieee80211_start_ibss_wq :: "bytes \<Rightarrow> bool \<Rightarrow> (u8 \<Rightarrow> station \<Rightarrow> station option) \<Rightarrow> station \<Rightarrow> station option" where
  "ieee80211_start_ibss_wq rnd al meanwhile sd = do {
     let net = sd_network sd;
     let sd = (if nw_ssid_len net = 0
               then sd\<lparr>sd_network := net\<lparr>nw_ssid := default_essid @ [0] @ drop 8 (nw_ssid net), nw_ssid_len := 7\<rparr>, sd_ssid_set := True\<rparr>
               else sd);
     let sd = ieee80211_softmac_check_all_nets sd;
     sd \<leftarrow> (if sd_state sd = NOLINK then ieee80211_start_scan_syncro al meanwhile sd else Some sd);
     let sd = (if sd_state sd = NOLINK then ibss_new_cell rnd sd else sd);
     let sd = sd\<lparr>sd_state := LINKED\<rparr>;
     let sd = sta_put Link_Change (sta_put (Set_Chan (nw_channel (sd_network sd))) sd);
     let sd = notify_wx_assoc_event sd;
     sd \<leftarrow> ieee80211_start_send_beacons al sd;
     Some (sta_put (Carrier True) (sta_put Data_Hard_Resume sd))
   }"

definition ieee80211_start_ibss :: "station \<Rightarrow> station" where
  "ieee80211_start_ibss sd = sta_queue (wk_start_ibss_update (\<lambda>_. True)) sd"

definition ieee80211_start_bss :: "station \<Rightarrow> station" where
  "ieee80211_start_bss sd =
     (let sd = ieee80211_softmac_check_all_nets sd
      in if sd_state sd = NOLINK then ieee80211_start_scan sd else sd)"

definition ieee80211_disassociate :: "station \<Rightarrow> station" where
  "ieee80211_disassociate sd =
     (let sd = sta_put Data_Hard_Stop (sta_put Reset_Queue (sta_put (Carrier False) sd))
      in notify_wx_assoc_event (sd\<lparr>sd_state := NOLINK, sd_wap_set := False, sd_ssid_set := False\<rparr>))"

definition ieee80211_associate_retry_wq :: "station \<Rightarrow> station" where
  "ieee80211_associate_retry_wq sd =
     (if \<not> sd_proto_started sd then sd
      else if sd_state sd \<noteq> ASSOCIATING_RETRY then sd
      else
        let sd = ieee80211_softmac_check_all_nets (sd\<lparr>sd_state := NOLINK, sd_beinretry := True\<rparr>)
        in if sd_state sd = NOLINK then ieee80211_start_scan (sd\<lparr>sd_beinretry := False, sd_actscanning := True\<rparr>) else sd)"

definition ieee80211_stop_protocol :: "station \<Rightarrow> station" where
  "ieee80211_stop_protocol sd =
     (if \<not> sd_proto_started sd then sd
      else
        let sd = ieee80211_stop_send_beacons (sd\<lparr>sd_proto_started := False\<rparr>);
            sd = sta_queue (\<lambda>w. w\<lparr>wk_associate_timer := False, wk_associate_retry := False, wk_start_ibss := False\<rparr>) sd;
            sd = ieee80211_disassociate (ieee80211_stop_scan sd)
        in sd\<lparr>sd_network := (sd_network sd)\<lparr>nw_bssid := replicate 6 0x22\<rparr>\<rparr>)"

definition ieee80211_softmac_stop_protocol :: "station \<Rightarrow> station" where
  "ieee80211_softmac_stop_protocol sd = ieee80211_stop_protocol (sd\<lparr>sd_sync_scan_hurryup := True\<rparr>)"

text \<open>The first channel from 1 on that the map allows.\<close>

definition first_channel :: "bool list \<Rightarrow> nat option" where
  "first_channel chmap = find (\<lambda>ch. chmap ! ch) [1..<162]"

definition start_mode :: "station \<Rightarrow> station" where
  "start_mode sd =
     (if sd_iw_mode sd = IW_MODE_INFRA then ieee80211_start_bss sd
      else if sd_iw_mode sd = IW_MODE_ADHOC then ieee80211_start_ibss sd
      else if sd_iw_mode sd = IW_MODE_MASTER then ieee80211_start_master_bss sd
      else if sd_iw_mode sd = IW_MODE_MONITOR then ieee80211_start_monitor_mode sd
      else sd)"

definition start_with_channel :: "station \<Rightarrow> station" where
  "start_with_channel sd =
     (let net = sd_network sd;
          net = (if nw_beacon_interval net = 0 then net\<lparr>nw_beacon_interval := 100\<rparr> else net)
      in start_mode (sta_put Reset_Rx_Seq (sta_put (Set_Chan (nw_channel net)) (sd\<lparr>sd_network := net\<rparr>))))"

definition ieee80211_start_protocol :: "station \<Rightarrow> station" where
  "ieee80211_start_protocol sd =
     (if sd_proto_started sd then sd
      else
        let sd = sd\<lparr>sd_proto_started := True\<rparr>
        in if nw_channel (sd_network sd) = 0
           then (case first_channel (sd_channel_map sd) of
               None \<Rightarrow> sd
             | Some ch \<Rightarrow> start_with_channel (sd\<lparr>sd_network := (sd_network sd)\<lparr>nw_channel := word_of_nat ch\<rparr>\<rparr>))
           else start_with_channel sd)"

definition ieee80211_softmac_start_protocol :: "station \<Rightarrow> station" where
  "ieee80211_softmac_start_protocol sd = ieee80211_start_protocol (sd\<lparr>sd_sync_scan_hurryup := False\<rparr>)"

text \<open>The fields of the station that \<open>ieee80211_softmac_init\<close> sets; \<open>current_network\<close> is cleared.\<close>

definition ieee80211_softmac_init :: "station \<Rightarrow> station" where
  "ieee80211_softmac_init sd =
     sd\<lparr>sd_network := network_blank\<lparr>nw_stats := (stats_example 0)\<lparr>rs_mac_time := (0, 0), rs_signalstrength := 0, rs_rate := 0,
          rs_received_channel := 0, rs_freq := 0\<rparr>\<rparr>,
        sd_state := NOLINK, sd_sync_scan_hurryup := False, sd_assoc_id := 0, sd_scanning := 0, sd_scan_watchdog := 0,
        sd_wap_set := False, sd_ssid_set := False, sd_proto_started := False, sd_rate := 3, sd_ps := 0, sd_sta_sleep := 0,
        sd_actscanning := False, sd_beinretry := False, sd_work := sta_work_none, sd_out := sd_out sd @ [Reset_Seq_Ctrl]\<rparr>"

definition ieee80211_softmac_free :: "station \<Rightarrow> station" where
  "ieee80211_softmac_free sd = sta_queue (\<lambda>w. w\<lparr>wk_associate_timer := False, wk_associate_retry := False\<rparr>) sd"

section \<open>Receiving\<close>

definition ieee80211_rx_probe_rq :: "bool \<Rightarrow> sk_buff \<Rightarrow> station \<Rightarrow> station option" where
  "ieee80211_rx_probe_rq al skb sd = do {
     let sd = sta_stat (ss_rx_probe_rq_update (\<lambda>n. n + 1)) sd;
     (r, dest) \<leftarrow> probe_rq_parse sd skb;
     if r \<noteq> 0 then ieee80211_resp_to_probe al dest (sta_stat (ss_tx_probe_rs_update (\<lambda>n. n + 1)) sd) else Some sd
   }"

definition ieee80211_rx_auth_rq :: "bool \<Rightarrow> sk_buff \<Rightarrow> station \<Rightarrow> station option" where
  "ieee80211_rx_auth_rq al skb sd = do {
     let sd = sta_stat (ss_rx_auth_rq_update (\<lambda>n. n + 1)) sd;
     r \<leftarrow> auth_rq_parse skb;
     case r of None \<Rightarrow> Some sd | Some (status, dest) \<Rightarrow> ieee80211_resp_to_auth al status dest sd
   }"

definition ieee80211_rx_assoc_rq :: "bool \<Rightarrow> sk_buff \<Rightarrow> station \<Rightarrow> station option" where
  "ieee80211_rx_assoc_rq al skb sd = do {
     let sd = sta_stat (ss_rx_ass_rq_update (\<lambda>n. n + 1)) sd;
     r \<leftarrow> assoc_rq_parse skb;
     case r of None \<Rightarrow> Some sd | Some dest \<Rightarrow> ieee80211_resp_to_assoc_rq al dest sd
   }"

definition rx_assoc_resp :: "sk_buff \<Rightarrow> station \<Rightarrow> station option" where
  "rx_assoc_resp skb sd =
     (if sd_state sd = ASSOCIATING_AUTHENTICATED \<and> sd_iw_mode sd = IW_MODE_INFRA then do {
        (errcode, aid) \<leftarrow> assoc_parse skb;
        if errcode = 0 then
          Some (ieee80211_associate_complete
            (sta_stat (ss_rx_ass_ok_update (\<lambda>n. n + 1)) (sd\<lparr>sd_state := LINKED, sd_assoc_id := aid\<rparr>)))
        else Some (ieee80211_associate_abort (sta_stat (ss_rx_ass_err_update (\<lambda>n. n + 1)) sd))
      } else Some sd)"

definition rx_auth :: "(sk_buff \<Rightarrow> sk_buff option) \<Rightarrow> bool \<Rightarrow> sk_buff \<Rightarrow> station \<Rightarrow> station option" where
  "rx_auth seal al skb sd =
     (if sd_state sd = ASSOCIATING_AUTHENTICATING \<and> sd_iw_mode sd = IW_MODE_INFRA then do {
        (errcode, challenge) \<leftarrow> auth_parse skb;
        if errcode = 0 then
          (case challenge of
             Some c \<Rightarrow> if sd_open_wep sd
               then ieee80211_associate_step2 al
                 (sta_stat (ss_rx_auth_rs_ok_update (\<lambda>n. n + 1)) (sd\<lparr>sd_state := ASSOCIATING_AUTHENTICATED\<rparr>))
               else ieee80211_auth_challenge seal al c sd
           | None \<Rightarrow> ieee80211_associate_step2 al
               (sta_stat (ss_rx_auth_rs_ok_update (\<lambda>n. n + 1)) (sd\<lparr>sd_state := ASSOCIATING_AUTHENTICATED\<rparr>)))
        else Some (ieee80211_associate_abort (sta_stat (ss_rx_auth_rs_err_update (\<lambda>n. n + 1)) sd))
      }
      else if sd_iw_mode sd = IW_MODE_MASTER then ieee80211_rx_auth_rq al skb sd
      else Some sd)"

definition rx_disassoc :: "station \<Rightarrow> station" where
  "rx_disassoc sd =
     (if sd_state sd = LINKED \<and> sd_iw_mode sd = IW_MODE_INFRA
      then sta_queue (wk_associate_procedure_update (\<lambda>_. True))
        (notify_wx_assoc_event (sta_stat (ss_reassoc_update (\<lambda>n. n + 1)) (sd\<lparr>sd_state := ASSOCIATING\<rparr>)))
      else sd)"

text \<open>The result of the function is 0, or -1 for a frame nobody handles.\<close>

definition ieee80211_rx_frame_softmac ::
  "(sk_buff \<Rightarrow> sk_buff option) \<Rightarrow> u64 \<Rightarrow> bool \<Rightarrow> sk_buff \<Rightarrow> station \<Rightarrow> (int \<times> station) option" where
  "ieee80211_rx_frame_softmac seal jiffies al skb sd =
     (if \<not> sd_proto_started sd then Some (0, sd)
      else do {
        fc \<leftarrow> hdr_frame_ctl (skb_data skb);
        let stype = WLAN_FC_GET_STYPE fc;
        let sd = (if sd_sta_sleep sd \<noteq> 0 \<or> (sd_ps sd \<noteq> 0 \<and> sd_iw_mode sd = IW_MODE_INFRA \<and> sd_state sd = LINKED)
                  then sta_queue (wk_ps_task_update (\<lambda>_. True)) sd else sd);
        let sd = (if stype \<noteq> 0x0050 \<and> stype \<noteq> 0x0080 then sd\<lparr>sd_last_rx_ps_time := jiffies\<rparr> else sd);
        if stype = 0x0010 \<or> stype = 0x0030 then map_option (Pair 0) (rx_assoc_resp skb sd)
        else if stype = 0x0000 \<or> stype = 0x0020 then
          map_option (Pair 0) (if sd_iw_mode sd = IW_MODE_MASTER then ieee80211_rx_assoc_rq al skb sd else Some sd)
        else if stype = 0x00B0 then map_option (Pair 0) (rx_auth seal al skb sd)
        else if stype = 0x0040 then
          map_option (Pair 0) (if (sd_iw_mode sd = IW_MODE_ADHOC \<or> sd_iw_mode sd = IW_MODE_MASTER) \<and> sd_state sd = LINKED
                               then ieee80211_rx_probe_rq al skb sd else Some sd)
        else if stype = 0x00A0 \<or> stype = 0x00C0 then Some (0, rx_disassoc sd)
        else Some (- 1, sd)
      })"

text \<open>
  A beacon or probe response: the table of known networks is entered, and a network that is new or
  comes back may be joined.
\<close>

definition sta_table :: "station \<Rightarrow> bss_table" where
  "sta_table sd = \<lparr>bt_list = sd_nets sd, bt_free = sd_net_free sd, bt_current = sd_network sd, bt_state = sd_state sd,
     bt_assoc_id = sd_assoc_id sd, bt_iw_mode = sd_iw_mode sd, bt_scan_age = sd_scan_age sd, bt_associate = True\<rparr>"

definition sta_rx_mgt :: "u64 \<Rightarrow> ieee80211_network \<Rightarrow> bytes \<Rightarrow> ieee80211_rx_stats \<Rightarrow> station \<Rightarrow> station option" where
  "sta_rx_mgt jiffies stack beacon stats sd = do {
     (bt, r) \<leftarrow> ieee80211_rx_mgt jiffies stack beacon stats (sta_table sd);
     let sd = sd\<lparr>sd_nets := bt_list bt, sd_net_free := bt_free bt, sd_network := bt_current bt\<rparr>;
     Some (case r of None \<Rightarrow> sd | Some net \<Rightarrow> ieee80211_softmac_new_net net sd)
   }"

end
