(* ===== verification/Softmac_Wx.thy ===== *)
theory Softmac_Wx
  imports Softmac_Link
begin

text \<open>
  The handlers of the wireless extensions in \<open>ieee80211/ieee80211_softmac_wx.c\<close>: the requests of the
  user that change the cell, the operating mode, the rate and the power saving, and their
  counterparts that report them.  A handler returns its error number and the station.
\<close>

abbreviation EOPNOTSUPP :: int where "EOPNOTSUPP \<equiv> 95"
abbreviation EINVAL :: int where "EINVAL \<equiv> 22"
abbreviation E2BIG :: int where "E2BIG \<equiv> 7"

section \<open>Channel\<close>

definition ieee80211_wlan_frequencies :: "int list" where
  "ieee80211_wlan_frequencies = [2412, 2417, 2422, 2427, 2432, 2437, 2442, 2447, 2452, 2457, 2462, 2467, 2472, 2484]"

text \<open>The loop over the frequencies: the index of the one given, or 14.\<close>

definition freq_index :: "int \<Rightarrow> nat" where
  "freq_index f = length (takeWhile (\<lambda>x. f \<noteq> x) ieee80211_wlan_frequencies)"

definition set_freq_channel :: "int \<Rightarrow> int \<Rightarrow> int \<times> int" where
  "set_freq_channel m e =
     (if e = 1 \<and> m \<ge> 241200000 \<and> m \<le> 248700000 then (int (freq_index (m div 100000)) + 1, 0) else (m, e))"

definition ieee80211_wx_set_freq :: "bool \<Rightarrow> int \<Rightarrow> int \<Rightarrow> station \<Rightarrow> (int \<times> station) option" where
  "ieee80211_wx_set_freq al m e sd =
     (if sd_iw_mode sd = IW_MODE_INFRA then Some (- EOPNOTSUPP, sd)
      else case set_freq_channel m e of (m, e) \<Rightarrow>
        if e > 0 \<or> m > 14 \<or> m < 1 then Some (- EOPNOTSUPP, sd)
        else
          let sd = sd\<lparr>sd_network := (sd_network sd)\<lparr>nw_channel := word_of_int m\<rparr>\<rparr>;
              sd = sta_put (Set_Chan (nw_channel (sd_network sd))) sd
          in if (sd_iw_mode sd = IW_MODE_ADHOC \<or> sd_iw_mode sd = IW_MODE_MASTER) \<and> sd_state sd = LINKED
             then map_option (Pair 0) (ieee80211_start_send_beacons al (ieee80211_stop_send_beacons sd))
             else Some (0, sd))"

definition ieee80211_wx_get_freq :: "station \<Rightarrow> int \<times> (int \<times> int) option" where
  "ieee80211_wx_get_freq sd =
     (if nw_channel (sd_network sd) = 0 then (- 1, None) else (0, Some (uint (nw_channel (sd_network sd)), 0)))"

section \<open>Cell and name\<close>

definition ieee80211_wx_get_wap :: "station \<Rightarrow> int \<times> bytes option" where
  "ieee80211_wx_get_wap sd =
     (if sd_iw_mode sd = IW_MODE_MONITOR then (- 1, None)
      else if sd_state sd \<noteq> LINKED \<and> sd_state sd \<noteq> LINKED_SCANNING \<and> \<not> sd_wap_set sd then (0, Some (replicate 6 0))
      else (0, Some (nw_bssid (sd_network sd))))"

text \<open>\<open>ether\<close> says that the address is of family \<open>ARPHRD_ETHER\<close>; \<open>addr\<close> are its six bytes.\<close>

definition wap_written :: "bytes \<Rightarrow> station \<Rightarrow> station" where
  "wap_written addr sd = sd\<lparr>sd_network := (sd_network sd)\<lparr>nw_bssid := addr\<rparr>, sd_wap_set := (addr \<noteq> replicate 6 0)\<rparr>"

definition ieee80211_wx_set_wap :: "bool \<Rightarrow> bytes \<Rightarrow> station \<Rightarrow> int \<times> station" where
  "ieee80211_wx_set_wap ether addr sd =
     (let ifup = sd_proto_started sd;
          sd = sd\<lparr>sd_sync_scan_hurryup := True\<rparr>
      in if sd_iw_mode sd = IW_MODE_MASTER then (- 1, sd)
         else if \<not> ether then (- EINVAL, sd)
         else (0, if ifup then ieee80211_start_protocol (wap_written addr (ieee80211_stop_protocol sd)) else wap_written addr sd))"

definition ieee80211_wx_get_essid :: "station \<Rightarrow> int \<times> bytes option" where
  "ieee80211_wx_get_essid sd =
     (let net = sd_network sd
      in if sd_iw_mode sd = IW_MODE_MONITOR then (- 1, None)
         else if nw_ssid net ! 0 = 0 \<or> nw_ssid_len net = 0 then (- 1, None)
         else if sd_state sd \<noteq> LINKED \<and> sd_state sd \<noteq> LINKED_SCANNING \<and> \<not> sd_ssid_set sd then (- 1, None)
         else (0, Some (str_ncopy (unat (nw_ssid_len net)) (nw_ssid net) [])))"

text \<open>The part of \<open>ieee80211_wx_set_essid\<close> under the lock; \<open>on\<close> is the request's flag, the name's length
  is \<open>length extra\<close>.\<close>

definition essid_written :: "bool \<Rightarrow> bytes \<Rightarrow> station \<Rightarrow> station" where
  "essid_written on extra sd =
     (let net = sd_network sd
      in if on \<and> extra \<noteq> [] then
           let len = length extra; ssid = replicate (unat (nw_ssid_len net)) 0 @ drop (unat (nw_ssid_len net)) (nw_ssid net)
           in sd\<lparr>sd_network := net\<lparr>nw_ssid := str_ncopy len extra ssid, nw_ssid_len := word_of_nat len\<rparr>, sd_ssid_set := True\<rparr>
         else sd\<lparr>sd_ssid_set := False, sd_network := net\<lparr>nw_ssid := (nw_ssid net)[0 := 0], nw_ssid_len := 0\<rparr>\<rparr>)"

definition ieee80211_wx_set_essid :: "bool \<Rightarrow> bytes \<Rightarrow> station \<Rightarrow> int \<times> station" where
  "ieee80211_wx_set_essid on extra sd =
     (let sd = sd\<lparr>sd_sync_scan_hurryup := True\<rparr>
      in if length extra > 32 then (- E2BIG, sd)
         else if sd_iw_mode sd = IW_MODE_MONITOR then (- 1, sd)
         else (0, if sd_proto_started sd then ieee80211_start_protocol (essid_written on extra (ieee80211_stop_protocol sd))
                  else essid_written on extra sd))"

section \<open>Rate, mode and scan\<close>

definition ieee80211_wx_set_rate :: "u32 \<Rightarrow> station \<Rightarrow> int \<times> station" where
  "ieee80211_wx_set_rate target_rate sd = (0, sd\<lparr>sd_rate := uint (target_rate div 100000)\<rparr>)"

text \<open>The product is an \<open>int\<close> of 32 bits.\<close>

definition ieee80211_wx_get_rate :: "station \<Rightarrow> int" where
  "ieee80211_wx_get_rate sd = sint (word_of_int (sd_rate sd * 100000) :: u32)"

definition ieee80211_wx_set_mode :: "iw_mode \<Rightarrow> station \<Rightarrow> station" where
  "ieee80211_wx_set_mode mode sd =
     (let sd = sd\<lparr>sd_sync_scan_hurryup := True\<rparr>
      in if mode = sd_iw_mode sd then sd
         else if \<not> sd_proto_started sd then sd\<lparr>sd_iw_mode := mode\<rparr>
         else ieee80211_start_protocol ((ieee80211_stop_protocol sd)\<lparr>sd_iw_mode := mode\<rparr>))"

definition ieee80211_wx_sync_scan_wq :: "bool \<Rightarrow> (u8 \<Rightarrow> station \<Rightarrow> station option) \<Rightarrow> station \<Rightarrow> station option" where
  "ieee80211_wx_sync_scan_wq al meanwhile sd = do {
     let chan = nw_channel (sd_network sd);
     let sd = ieee80211_stop_send_beacons (sta_put Data_Hard_Stop (sta_put (Carrier False) sd));
     let sd = sta_put Link_Change (sd\<lparr>sd_state := LINKED_SCANNING\<rparr>);
     sd \<leftarrow> ieee80211_start_scan_syncro al meanwhile sd;
     let sd = (sta_put (Set_Chan chan) sd)\<lparr>sd_state := LINKED\<rparr>;
     let sd = sta_put Data_Hard_Resume (sta_put Link_Change sd);
     sd \<leftarrow> (if sd_iw_mode sd = IW_MODE_ADHOC \<or> sd_iw_mode sd = IW_MODE_MASTER
           then ieee80211_start_send_beacons al sd else Some sd);
     Some (sta_put (Carrier True) sd)
   }"

text \<open>When the scan is queued the semaphore stays down until the work has run.\<close>

definition ieee80211_wx_set_scan :: "station \<Rightarrow> int \<times> station" where
  "ieee80211_wx_set_scan sd =
     (if sd_iw_mode sd = IW_MODE_MONITOR \<or> \<not> sd_proto_started sd then (- 1, sd)
      else if sd_state sd = LINKED then
        if \<not> wk_wx_sync_scan (sd_work sd)
        then (0, sta_queue (wk_wx_sync_scan_update (\<lambda>_. True)) (sd\<lparr>sd_actscanning := True\<rparr>))
        else (0, sd)
      else (0, sd))"

definition ieee80211_wx_get_mode :: "station \<Rightarrow> iw_mode" where
  "ieee80211_wx_get_mode sd = sd_iw_mode sd"

definition ieee80211_wx_set_rawtx :: "int \<Rightarrow> station \<Rightarrow> station" where
  "ieee80211_wx_set_rawtx parm sd =
     (let prev = sd_raw_tx sd;
          sd = sd\<lparr>sd_raw_tx := (parm > 0)\<rparr>
      in if sd_iw_mode sd = IW_MODE_MONITOR then
           let sd = (if \<not> prev \<and> sd_raw_tx sd then sta_put (Carrier True) (sta_put Data_Hard_Resume sd) else sd)
           in if prev \<and> sd_raw_tx sd then sta_put (Carrier False) sd else sd
         else sd)"

definition ieee80211_wx_get_name :: "station \<Rightarrow> string" where
  "ieee80211_wx_get_name sd =
     ''802.11'' @
     (if sd_modulation sd AND CCK_MODULATION \<noteq> 0
      then ''b'' @ (if sd_modulation sd AND OFDM_MODULATION \<noteq> 0 then ''g'' else '''')
      else if sd_modulation sd AND OFDM_MODULATION \<noteq> 0 then ''g'' else '''')"

section \<open>Power saving\<close>

abbreviation IW_POWER_ON :: u16 where "IW_POWER_ON \<equiv> 0x0000"
abbreviation IW_POWER_UNICAST_R :: u16 where "IW_POWER_UNICAST_R \<equiv> 0x0100"
abbreviation IW_POWER_ALL_R :: u16 where "IW_POWER_ALL_R \<equiv> 0x0300"
abbreviation IW_POWER_MODE :: u16 where "IW_POWER_MODE \<equiv> 0x0F00"
abbreviation IW_POWER_PERIOD :: u16 where "IW_POWER_PERIOD \<equiv> 0x1000"
abbreviation IW_POWER_TIMEOUT :: u16 where "IW_POWER_TIMEOUT \<equiv> 0x2000"

definition ieee80211_wx_set_power :: "bool \<Rightarrow> u16 \<Rightarrow> int \<Rightarrow> station \<Rightarrow> int \<times> station" where
  "ieee80211_wx_set_power disabled flags val sd =
     (if disabled then (0, sd\<lparr>sd_ps := 0\<rparr>)
      else
        let mode = flags AND IW_POWER_MODE;
            rest = (\<lambda>sd. (if flags AND IW_POWER_PERIOD \<noteq> 0 then - EOPNOTSUPP else 0,
              if flags AND IW_POWER_TIMEOUT \<noteq> 0 then sd\<lparr>sd_ps_timeout := (if val \<ge> 0 then val div 1000 else - ((- val) div 1000))\<rparr> else sd))
        in if mode = IW_POWER_UNICAST_R then rest (sd\<lparr>sd_ps := 2\<rparr>)
           else if mode = IW_POWER_ALL_R then rest (sd\<lparr>sd_ps := 2 OR 4\<rparr>)
           else if mode = IW_POWER_ON then rest (sd\<lparr>sd_ps := 0\<rparr>)
           else (- EINVAL, sd))"

text \<open>Disabled, or the flags and the value.\<close>

definition ieee80211_wx_get_power :: "station \<Rightarrow> (u16 \<times> int) option" where
  "ieee80211_wx_get_power sd =
     (if sd_ps sd = 0 then None
      else Some (IW_POWER_TIMEOUT OR (if sd_ps sd AND 4 \<noteq> 0 then IW_POWER_ALL_R else IW_POWER_UNICAST_R), sd_ps_timeout sd * 1000))"

end
