(* ===== verification/Softmac_Ps.thy ===== *)
theory Softmac_Ps
  imports Softmac_Link
begin

text \<open>
  Power saving: the tasklet \<open>ieee80211_sta_ps\<close> of \<open>ieee80211/ieee80211_softmac.c\<close>, which puts a linked
  station to sleep between two beacons, the acknowledgement of its announcement, and the works of
  \<open>rtl8187/r8187_core.c\<close> that switch the radio.  \<open>sd_sta_sleep\<close> is 0 awake, 1 asleep, 2 while
  the announcement is on its way.
\<close>

section \<open>The decision\<close>

text \<open>What the tasklet reads outside of the station: the clock, the time of the last transmission, and the queues.\<close>

record ps_env =
  pe_jiffies :: u64
  pe_trans_start :: u64
  pe_mgmt_empty :: bool
  pe_tx_empty :: bool

text \<open>
  \<open>msecs\<close> is the kernel's \<open>msecs_to_jiffies\<close>.  The result is 0 to do nothing, 1 to sleep, 2 to wake up; the
  time of the next wanted beacon goes to \<open>ps_th\<close> and \<open>ps_tl\<close>.
\<close>

definition ieee80211_sta_ps_sleep :: "(int \<Rightarrow> u64) \<Rightarrow> ps_env \<Rightarrow> station \<Rightarrow> nat \<times> station" where
  "ieee80211_sta_ps_sleep msecs env sd =
     (let timeout = sd_ps_timeout sd; net = sd_network sd; dtim = nw_dtim_data net
      in if dtim AND 1 = 0 then (0, sd)
         else
           let sd = sd\<lparr>sd_network := net\<lparr>nw_dtim_data := 0\<rparr>\<rparr>
           in if ucast dtim AND ((2 OR 4) AND sd_ps sd) \<noteq> 0 then (2, sd)
              else if \<not> time_after (pe_jiffies env) (pe_trans_start env + msecs timeout) then (0, sd)
              else if \<not> time_after (pe_jiffies env) (sd_last_rx_ps_time sd + msecs timeout) then (0, sd)
              else if \<not> pe_mgmt_empty env then (0, sd)
              else
                let last = nw_last_dtim_sta_time net;
                    tl = fst last + ucast (nw_beacon_interval net) * ucast (nw_dtim_period net) * 1000;
                    th = snd last + (if tl < fst last then 1 else 0)
                in (1, sd\<lparr>sd_ps_th := th, sd_ps_tl := tl\<rparr>))"

section \<open>The tasklet\<close>

text \<open>
  The function takes \<open>ieee->lock\<close>.  \<open>held\<close> says that its caller has the lock already: on a machine with more than one
  processor (\<open>smp\<close>) a spin lock taken twice is never got, and the processor hangs with its interrupts off (\<open>None\<close>); with one processor
  the lock is nothing but the interrupts.
\<close>

definition ieee80211_ps_tx_ack :: "bool \<Rightarrow> bool \<Rightarrow> bool \<Rightarrow> bool \<Rightarrow> station \<Rightarrow> station option" where
  "ieee80211_ps_tx_ack smp held al success sd =
     (if smp \<and> held then None
      else if sd_sta_sleep sd = 2 then
        Some (if success then sta_queue (wk_hw_sleep_update (\<lambda>_. True)) (sd\<lparr>sd_sta_sleep := 1\<rparr>) else sd)
      else if sd_sta_sleep sd = 0 \<and> \<not> success then ieee80211_sta_ps_send_null_frame al False sd
      else Some sd)"

text \<open>
  The tasklet runs with \<open>ieee->lock\<close> held.  Sending the null frame sets \<open>trans_start\<close>, which the decision then reads.
\<close>

definition ieee80211_sta_ps :: "bool \<Rightarrow> (int \<Rightarrow> u64) \<Rightarrow> bool \<Rightarrow> ps_env \<Rightarrow> station \<Rightarrow> station option" where
  "ieee80211_sta_ps smp msecs al env sd = do {
     let up = (sd_ps sd = 0 \<or> sd_iw_mode sd \<noteq> IW_MODE_INFRA \<or> sd_state sd \<noteq> LINKED);
     sd \<leftarrow> (if up then ieee80211_sta_wakeup al True sd else Some sd);
     let env = (if up \<and> al then env\<lparr>pe_trans_start := pe_jiffies env\<rparr> else env);
     let (sleep, sd) = ieee80211_sta_ps_sleep msecs env sd;
     if sleep = 0 then Some sd
     else if sleep = 1 then
       if sd_sta_sleep sd = 1 then Some (sta_queue (wk_hw_sleep_update (\<lambda>_. True)) sd)
       else if sd_sta_sleep sd = 0 then
         if pe_tx_empty env then do {
           sd \<leftarrow> ieee80211_sta_ps_send_null_frame al True (sd\<lparr>sd_sta_sleep := 2\<rparr>);
           sd \<leftarrow> ieee80211_sta_ps_send_null_frame al True sd;
           ieee80211_ps_tx_ack smp True al True sd
         } else Some sd
       else Some sd
     else ieee80211_sta_wakeup al True sd
   }"

section \<open>The radio\<close>

text \<open>
  \<open>ps_sleep_finish\<close> and the wake-up timer with its expiry; what the callbacks \<open>rf_sleep\<close> and \<open>rf_wakeup\<close>
  are asked for is logged.  The work that the timer schedules, \<open>rtl8180_hw_wakeup_wq\<close> of
  the driver's own structure, is not the one of the soft MAC, and nothing initialises it.
\<close>

datatype rf_call = Rf_Sleep | Rf_Wakeup

record ps_radio =
  pr_sleep_finish :: bool
  pr_timer :: "u64 option"
  pr_log :: "rf_call list"

definition rtl8180_hw_wakeup :: "ps_radio \<Rightarrow> ps_radio" where
  "rtl8180_hw_wakeup pr =
     (if \<not> pr_sleep_finish pr then pr else pr\<lparr>pr_log := pr_log pr @ [Rf_Wakeup], pr_sleep_finish := False\<rparr>)"

abbreviation MIN_SLEEP_TIME :: u32 where "MIN_SLEEP_TIME \<equiv> 50000"
abbreviation MAX_SLEEP_TIME :: u32 where "MAX_SLEEP_TIME \<equiv> 10000000"

text \<open>\<open>rb\<close> is the low word of the device's timer.\<close>

definition rtl8180_hw_sleep :: "u32 \<Rightarrow> u64 \<Rightarrow> station \<Rightarrow> ps_radio \<Rightarrow> ps_radio" where
  "rtl8180_hw_sleep rb jiffies sd pr =
     (if pr_sleep_finish pr then pr
      else
        let tl = sd_ps_tl sd - 5 * 1000;
            tl = (if tl = 0 then 1 else tl)
        in if (rb < tl \<and> tl - rb < MIN_SLEEP_TIME) \<or> (rb > tl \<and> rb - tl < MIN_SLEEP_TIME) then pr
           else if (tl > rb \<and> tl - rb > MAX_SLEEP_TIME) \<or> (tl < rb \<and> rb - tl > MAX_SLEEP_TIME) then pr
           else
             let timeout = (if rb > tl then drop_bit 10 (rb - tl) else drop_bit 10 (tl - rb))
             in pr\<lparr>pr_timer := Some (jiffies + ucast timeout), pr_log := pr_log pr @ [Rf_Sleep], pr_sleep_finish := True\<rparr>)"

section \<open>What the decision rests on\<close>

text \<open>The conditions under which a linked station that saves power goes to sleep.\<close>

definition ps_buffered :: "station \<Rightarrow> bool" where
  "ps_buffered sd \<longleftrightarrow> ucast (nw_dtim_data (sd_network sd)) AND (6 AND sd_ps sd) \<noteq> 0"

definition ps_quiet :: "(int \<Rightarrow> u64) \<Rightarrow> ps_env \<Rightarrow> station \<Rightarrow> bool" where
  "ps_quiet msecs env sd \<longleftrightarrow>
     time_after (pe_jiffies env) (pe_trans_start env + msecs (sd_ps_timeout sd)) \<and>
     time_after (pe_jiffies env) (sd_last_rx_ps_time sd + msecs (sd_ps_timeout sd)) \<and> pe_mgmt_empty env"

lemma ps_sleep_result:
  "fst (ieee80211_sta_ps_sleep msecs env sd) =
     (if nw_dtim_data (sd_network sd) AND 1 = 0 then 0 else if ps_buffered sd then 2 else if ps_quiet msecs env sd then 1 else 0)"
  by (simp add: ieee80211_sta_ps_sleep_def ps_buffered_def ps_quiet_def Let_def)

lemma ps_sleep_keeps:
  "sd_sta_sleep (snd (ieee80211_sta_ps_sleep msecs env sd)) = sd_sta_sleep sd"
  "sd_out (snd (ieee80211_sta_ps_sleep msecs env sd)) = sd_out sd"
  "sd_dev_addr (snd (ieee80211_sta_ps_sleep msecs env sd)) = sd_dev_addr sd"
  "nw_bssid (sd_network (snd (ieee80211_sta_ps_sleep msecs env sd))) = nw_bssid (sd_network sd)"
  "sd_work (snd (ieee80211_sta_ps_sleep msecs env sd)) = sd_work sd"
  by (simp_all add: ieee80211_sta_ps_sleep_def Let_def)

definition null_frame :: "bool \<Rightarrow> station \<Rightarrow> bytes" where
  "null_frame pwr sd = mgmt_header (if pwr then 0x1148 else 0x0148) 0 (nw_bssid (sd_network sd)) (sd_dev_addr sd) (nw_bssid (sd_network sd))"

text \<open>The null frames a step has sent.\<close>

definition sent_null :: "bool \<Rightarrow> bytes \<Rightarrow> nat \<Rightarrow> sta_output list \<Rightarrow> bool" where
  "sent_null al d n out \<longleftrightarrow> (if al then \<exists>f. skb_data f = d \<and> out = replicate n (Ps_Xmit f) else out = [])"

lemma null_func_eq:
  assumes "length (sd_dev_addr sd) = 6" and "length (nw_bssid (sd_network sd)) = 6"
  shows "ieee80211_null_func pwr sd = Some \<lparr>skb_head = replicate 16 0, skb_data = null_frame pwr sd, skb_room = []\<rparr>"
  using assms by (cases pwr) (simp_all add: ieee80211_null_func_def null_frame_def put_data_iff dev_alloc_skb_def skb_tailroom_def length_mgmt_header)


lemma send_null:
  assumes "length (sd_dev_addr sd) = 6" and "length (nw_bssid (sd_network sd)) = 6"
  shows "\<exists>out. ieee80211_sta_ps_send_null_frame al pwr sd = Some (sd\<lparr>sd_out := sd_out sd @ out\<rparr>) \<and> sent_null al (null_frame pwr sd) 1 out"
proof (cases al)
  case True
  let ?f = "\<lparr>skb_head = replicate 16 0, skb_data = null_frame pwr sd, skb_room = []\<rparr>"
  have "ieee80211_null_func pwr sd = Some ?f" by (rule null_func_eq [OF assms])
  then show ?thesis
    using True by (intro exI [of _ "[Ps_Xmit ?f]"]) (simp add: ieee80211_sta_ps_send_null_frame_def sta_put_def sent_null_def)
qed (simp add: ieee80211_sta_ps_send_null_frame_def sent_null_def)

lemma send_null_twice:
  assumes "length (sd_dev_addr sd) = 6" and "length (nw_bssid (sd_network sd)) = 6"
  shows "\<exists>out. (ieee80211_sta_ps_send_null_frame al pwr sd \<bind> ieee80211_sta_ps_send_null_frame al pwr) =
      Some (sd\<lparr>sd_out := sd_out sd @ out\<rparr>) \<and> sent_null al (null_frame pwr sd) 2 out"
proof (cases al)
  case True
  let ?f = "\<lparr>skb_head = replicate 16 0, skb_data = null_frame pwr sd, skb_room = []\<rparr>"
  have "null_frame pwr (sta_put x sd) = null_frame pwr sd" for x by (simp add: null_frame_def sta_put_def)
  moreover have "ieee80211_null_func pwr sd = Some ?f" using null_func_eq [OF assms] by simp
  moreover have "ieee80211_null_func pwr (sta_put x sd) = Some \<lparr>skb_head = replicate 16 0, skb_data = null_frame pwr (sta_put x sd), skb_room = []\<rparr>" for x
    by (rule null_func_eq) (simp_all add: sta_put_def assms)
  ultimately show ?thesis
    using True by (intro exI [of _ "[Ps_Xmit ?f, Ps_Xmit ?f]"])
      (simp add: ieee80211_sta_ps_send_null_frame_def sent_null_def sta_put_def numeral_2_eq_2)
qed (simp add: ieee80211_sta_ps_send_null_frame_def sent_null_def)

section \<open>Properties\<close>



text \<open>With power saving off, in another mode or without a link the tasklet always leaves the station awake: it wakes it up,
  and because the null frame that says so counts as a transmission, the decision that follows
  does not put it back to sleep.\<close>

theorem ps_off_awake:
  assumes "length (sd_dev_addr sd) = 6" and "length (nw_bssid (sd_network sd)) = 6"
    and "sd_ps sd = 0 \<or> sd_iw_mode sd \<noteq> IW_MODE_INFRA \<or> sd_state sd \<noteq> LINKED" and "0 \<le> sint (msecs (sd_ps_timeout sd))"
  shows "\<exists>sd'. ieee80211_sta_ps smp msecs True env sd = Some sd' \<and> sd_sta_sleep sd' = 0"
proof -
  let ?w = "(if sd_sta_sleep sd = 1 then sta_queue (wk_hw_wakeup_update (\<lambda>_. True)) sd else sd)\<lparr>sd_sta_sleep := 0\<rparr>"
  have lw: "length (sd_dev_addr ?w) = 6" "length (nw_bssid (sd_network ?w)) = 6" using assms by (simp_all add: sta_queue_def)
  obtain out where "ieee80211_sta_ps_send_null_frame True False ?w = Some (?w\<lparr>sd_out := sd_out ?w @ out\<rparr>)" using send_null [OF lw] by blast
  moreover have "sd_sta_sleep sd = 0 \<Longrightarrow> ?w = sd" by simp
  ultimately have up: "ieee80211_sta_wakeup True True sd = Some (?w\<lparr>sd_out := sd_out ?w @ out\<rparr>)"
  proof (cases "sd_sta_sleep sd = 0")
    case True
    then have w: "?w = sd" by simp
    show ?thesis using \<open>ieee80211_sta_ps_send_null_frame True False ?w = _\<close> True unfolding w by (simp add: ieee80211_sta_wakeup_def)
  qed (simp only: ieee80211_sta_wakeup_def Let_def if_False if_True)
  let ?u = "?w\<lparr>sd_out := sd_out ?w @ out\<rparr>" and ?env = "env\<lparr>pe_trans_start := pe_jiffies env\<rparr>"
  obtain n s where ns: "ieee80211_sta_ps_sleep msecs ?env ?u = (n, s)" by fastforce
  note k = ps_sleep_keeps [of msecs ?env ?u, unfolded ns snd_conv]
  have "sd_ps_timeout ?u = sd_ps_timeout sd" by (simp add: sta_queue_def)
  then have "\<not> ps_quiet msecs ?env ?u" using assms(4) by (simp add: ps_quiet_def time_after_def)
  then have n: "n = 0 \<or> n = 2" using ps_sleep_result [of msecs ?env ?u] unfolding ns by (simp split: if_split_asm)
  have "sd_sta_sleep s = 0" using k by simp
  have ls: "length (sd_dev_addr s) = 6" "length (nw_bssid (sd_network s)) = 6" using k lw by simp_all
  obtain o2 where "ieee80211_sta_ps_send_null_frame True False s = Some (s\<lparr>sd_out := sd_out s @ o2\<rparr>)" using send_null [OF ls] by blast
  then have "ieee80211_sta_wakeup True True s = Some (s\<lparr>sd_out := sd_out s @ o2\<rparr>)"
    using \<open>sd_sta_sleep s = 0\<close> by (simp add: ieee80211_sta_wakeup_def)
  moreover have "ieee80211_sta_ps smp msecs True env sd = (if n = 0 then Some s else ieee80211_sta_wakeup True True s)"
    using assms(3) n ns by (auto simp: ieee80211_sta_ps_def up simp del: if_cancel)
  ultimately show ?thesis using \<open>sd_sta_sleep s = 0\<close> by simp
qed

theorem ps_off_awake_witness:
  "\<exists>sd'. ieee80211_sta_ps True (\<lambda>t. word_of_int t) True \<lparr>pe_jiffies = 500, pe_trans_start = 100, pe_mgmt_empty = True, pe_tx_empty = True\<rparr>
       (sta_example\<lparr>sd_sta_sleep := 1, sd_network := cell_example\<lparr>nw_dtim_data := 1\<rparr>\<rparr>) = Some sd' \<and> sd_sta_sleep sd' = 0"
  by (rule ps_off_awake) (simp_all add: sta_example_def cell_example_def)

text \<open>When the radio is switched off it is for at most 9765 jiffies (the ten seconds of \<open>MAX_SLEEP_TIME\<close>, in units of 1024
  microseconds), with the wake-up timer set; never for a time shorter than 48 of them, unless the
  device's timer shows exactly the time of the beacon.\<close>

theorem hw_sleep_time:
  "rtl8180_hw_sleep rb jiffies sd pr = pr \<or>
   (\<exists>d. (d = 0 \<or> 48 \<le> d) \<and> d \<le> 9765 \<and> rtl8180_hw_sleep rb jiffies sd pr =
      pr\<lparr>pr_timer := Some (jiffies + word_of_nat d), pr_log := pr_log pr @ [Rf_Sleep], pr_sleep_finish := True\<rparr>)"
proof (cases "rtl8180_hw_sleep rb jiffies sd pr = pr")
  case False
  define tl where "tl = (let t = sd_ps_tl sd - 5 * 1000 in if t = 0 then 1 else t)"
  define x where "x = (if rb > tl then rb - tl else tl - rb)"
  have c: "\<not> pr_sleep_finish pr" "\<not> (rb < tl \<and> tl - rb < MIN_SLEEP_TIME \<or> rb > tl \<and> rb - tl < MIN_SLEEP_TIME)"
    "\<not> (tl > rb \<and> tl - rb > MAX_SLEEP_TIME \<or> tl < rb \<and> rb - tl > MAX_SLEEP_TIME)"
    using False unfolding rtl8180_hw_sleep_def Let_def tl_def by (auto split: if_split_asm)
  have e: "rtl8180_hw_sleep rb jiffies sd pr = pr\<lparr>pr_timer := Some (jiffies + ucast (drop_bit 10 x)), pr_log := pr_log pr @ [Rf_Sleep], pr_sleep_finish := True\<rparr>"
    unfolding rtl8180_hw_sleep_def Let_def tl_def [unfolded Let_def, symmetric]
    using c by (auto simp: x_def)
  have x: "x = 0 \<or> (50000 \<le> x \<and> x \<le> 10000000)" using c(2,3) by (auto simp: x_def not_less)
  let ?d = "unat x div 1024"
  have "unat x = 0 \<or> 50000 \<le> unat x \<and> unat x \<le> 10000000" using x by (auto simp: word_le_nat_alt)
  then have d: "?d = 0 \<or> 48 \<le> ?d" "?d \<le> 9765" by auto
  have "unat (drop_bit 10 x) = ?d" using unat_drop_bit_eq [of 10 x] by (simp only: drop_bit_eq_div) simp
  then have "ucast (drop_bit 10 x) = (word_of_nat ?d :: u64)" by (metis of_nat_unat)
  with e d show ?thesis by (intro disjI2 exI [of _ ?d]) simp
qed simp
end
