(* ===== verification/Softmac_Inv.thy ===== *)
theory Softmac_Inv
  imports Softmac_Wx Softmac_Ps
begin

text \<open>
  The station as a transition system: every handler of the soft MAC as an event, the invariant that
  all of them keep, and what follows for the life of an association.
\<close>

section \<open>What a parsed network brings\<close>

definition cell_wf :: "ieee80211_network \<Rightarrow> bool" where
  "cell_wf n \<longleftrightarrow> network_wf n \<and> length (nw_bssid n) = 6"

lemma ie_tim_bssid:
  assumes "ie_tim st aid mt buf pos len n = Some n'"
  shows "nw_bssid n' = nw_bssid n"
proof (cases "len < 4")
  case False
  then obtain d where d: "buf_read (pos + 2) 3 buf = Some d"
    using assms by (auto simp: ie_tim_def bind_eq_Some_conv)
  show ?thesis
  proof (cases "st = LINKED \<and> d ! 0 = 0")
    case True
    then have s: "st = LINKED" "d ! 0 = 0" by simp_all
    let ?off = "uint (drop_bit 1 (d ! 2)) * 2"
    show ?thesis
    proof (cases "uint aid < 8 * ?off \<or> uint aid > 8 * (?off + uint len - 3)")
      case in_range: False
      then obtain b where "buf_byte (pos + 2 + (3 + nat (uint aid div 8 - ?off))) buf = Some b"
        using assms False d s unfolding ie_tim_def Let_def by (auto simp: bind_eq_Some_conv)
      then show ?thesis using assms False d s in_range unfolding ie_tim_def Let_def
        by (cases "d ! 2 AND 1 = 0"; cases "b AND push_bit (nat (uint aid mod 8)) 1 = 0") auto
    qed (use assms False d s in \<open>cases "d ! 2 AND 1 = 0"; auto simp: ie_tim_def Let_def\<close>)
  qed (use assms False d in \<open>auto simp: ie_tim_def Let_def split: if_split_asm\<close>)
qed (use assms in \<open>simp add: ie_tim_def\<close>)

lemma ie_step_bssid:
  assumes "ie_step en buf pos eid len n = Some n'"
  shows "nw_bssid n' = nw_bssid n"
proof (cases "eid = 5")
  case True
  then show ?thesis using assms ie_tim_bssid [of "en_state en" "en_assoc_id en" "rs_mac_time (en_stats en)" buf pos len n n']
    by (auto simp: ie_step_def)
next
  case False
  then show ?thesis using assms
    unfolding ie_step_def ie_ssid_def ie_rates_def ie_rates_ex_def ie_ds_set_def ie_generic_def ie_rsn_def Let_def
    by (auto simp: bind_eq_Some_conv split: if_split_asm)
qed

lemma ie_loop_bssid: "ie_loop en buf left pos n = Some (b, n') \<Longrightarrow> nw_bssid n' = nw_bssid n"
proof (induction en buf left pos n rule: ie_loop.induct)
  case (1 en buf left pos n)
  show ?case
  proof (cases "left < 2")
    case False
    then obtain h where h: "buf_read pos 2 buf = Some h" using 1(2) by (subst (asm) ie_loop.simps) (auto split: option.split_asm)
    show ?thesis
    proof (cases "2 + unat (h ! 1) > left")
      case True
      then show ?thesis using 1(2) False h by (subst (asm) ie_loop.simps) (simp add: Let_def)
    next
      case fits: False
      then obtain m where m: "ie_step en buf pos (h ! 0) (h ! 1) n = Some m"
        using 1(2) False h by (subst (asm) ie_loop.simps) (auto simp: Let_def split: option.split_asm)
      have "ie_loop en buf (left - (2 + unat (h ! 1))) (pos + (2 + unat (h ! 1))) m = Some (b, n')"
        using 1(2) False h fits m by (subst (asm) ie_loop.simps) (simp add: Let_def)
      from 1(1) [OF False h refl refl fits m this] show ?thesis using ie_step_bssid [OF m] by simp
    qed
  qed (use 1(2) in \<open>simp add: ie_loop.simps\<close>)
qed

lemma network_init_cell:
  assumes "ieee80211_network_init j en beacon stack = Some (0, n)" and "network_arrays stack"
  shows "cell_wf n"
proof -
  obtain n1 b n2 where n1: "network_fixed j (en_stats en) beacon stack = Some n1"
    and n2: "ie_loop en beacon (unat (rs_len (en_stats en) - 36)) 36 n1 = Some (b, n2)" and e: "nw_bssid n = nw_bssid n2"
    using assms(1) unfolding ieee80211_network_init_def Let_def
    by (auto simp: bind_eq_Some_conv split: if_split_asm)
  have "length (nw_bssid n1) = 6"
    using n1 unfolding network_fixed_def Let_def
    by (auto simp: bind_eq_Some_conv hdr_addr3_def dest: buf_read_len split: if_split_asm)
  then show ?thesis using network_init_wf [OF assms] ie_loop_bssid [OF n2] e by (simp add: cell_wf_def network_wf_def)
qed

lemma cell_wf_flags [simp]: "cell_wf (n\<lparr>nw_flags := f\<rparr>) = cell_wf n"
  by (simp add: cell_wf_def)

lemma cell_wf_update: "\<lbrakk>cell_wf dst; cell_wf src\<rbrakk> \<Longrightarrow> cell_wf (update_network j dst src)"
  by (simp add: cell_wf_def update_network_wf) (simp add: update_network_def Let_def)

text \<open>Entering a network keeps well-formed entries; nothing is asked of their keys, since a change of
  the operating mode also changes what a key is.\<close>

definition nets_wf :: "bss_table \<Rightarrow> bool" where
  "nets_wf bt \<longleftrightarrow> length (bt_list bt) + bt_free bt = 128 \<and> (\<forall>n \<in> set (bt_list bt). cell_wf n) \<and> cell_wf (bt_current bt)"

lemma bss_enter_cells:
  assumes inv: "nets_wf bt" and n: "cell_wf network"
  shows "\<exists>bt' r. bss_enter j is_beacon network bt = Some (bt', r) \<and> nets_wf bt' \<and> (\<forall>m. r = Some m \<longrightarrow> cell_wf m)"
proof -
  let ?n = "bss_incoming is_beacon network bt"
  let ?cur = "bss_current j is_beacon network bt"
  have wf: "cell_wf ?n" "cell_wf ?cur"
    using n inv by (simp_all add: bss_incoming_def bss_current_def nets_wf_def cell_wf_update)
  show ?thesis
  proof (cases "\<exists>t \<in> set (bt_list bt). bss_key (bt_iw_mode bt) t = bss_key (bt_iw_mode bt) network")
    case True
    then have "\<exists>t \<in> set (bt_list bt). bss_key (bt_iw_mode bt) t = bss_key (bt_iw_mode bt) ?n" by simp
    from bss_search_some [OF this, of 0 None]
    obtain i o' where s: "bss_search (bt_iw_mode bt) ?n 0 None (bt_list bt) = (Some i, o')" by (metis prod.collapse)
    then have i: "i < length (bt_list bt)" using bss_search_found [of "bt_iw_mode bt" ?n 0 None "bt_list bt" i] by simp
    let ?m = "?n\<lparr>nw_flags := probe_flags is_beacon (nw_flags (bt_list bt ! i)) (nw_flags ?n)\<rparr>"
    have "bss_enter j is_beacon network bt =
      Some (bt\<lparr>bt_current := ?cur, bt_list := (bt_list bt)[i := update_network j (bt_list bt ! i) ?m]\<rparr>,
        if bss_renew j (bt\<lparr>bt_current := ?cur\<rparr>) (bt_list bt ! i) ?m \<and> bt_associate bt then Some ?m else None)"
      using s unfolding bss_enter_def Let_def bss_current_def bss_incoming_def by (auto split: if_split_asm)
    moreover have "cell_wf (update_network j (bt_list bt ! i) ?m)"
      using inv i wf by (intro cell_wf_update) (simp_all add: nets_wf_def)
    then have "nets_wf (bt\<lparr>bt_current := ?cur, bt_list := (bt_list bt)[i := update_network j (bt_list bt ! i) ?m]\<rparr>)"
      using inv wf by (auto simp: nets_wf_def dest: set_update_subset_insert [THEN subsetD])
    ultimately show ?thesis using wf by auto
  next
    case False
    then have new: "\<forall>t \<in> set (bt_list bt). bss_key (bt_iw_mode bt) t \<noteq> bss_key (bt_iw_mode bt) network" by blast
    show ?thesis
    proof (cases "bt_free bt = 0")
      case True
      then have "bt_list bt \<noteq> []" using inv by (auto simp: nets_wf_def)
      from bss_enter_evict [OF new True this, of j is_beacon]
      obtain k where k: "least_recent k (bt_list bt)"
        and e: "bss_enter j is_beacon network bt = Some (bt\<lparr>bt_current := ?cur, bt_list := list_del k (bt_list bt) @ [?n]\<rparr>,
          if bt_associate bt then Some ?n else None)" by blast
      have "k < length (bt_list bt)" using k by (simp add: least_recent_def)
      then have "length (list_del k (bt_list bt)) = 127" using inv True by (simp add: nets_wf_def length_list_del)
      then show ?thesis using e inv wf True set_list_del [of k "bt_list bt"] by (auto simp: nets_wf_def)
    next
      case False
      then have "bt_free bt > 0" by simp
      from bss_enter_new [OF new this, of j is_beacon] show ?thesis using inv wf False by (auto simp: nets_wf_def)
    qed
  qed
qed

lemma rx_mgt_cells:
  assumes inv: "nets_wf bt" and stack: "network_arrays stack"
    and len: "36 \<le> unat (rs_len stats)" "unat (rs_len stats) < length beacon"
  shows "\<exists>bt' r. ieee80211_rx_mgt j stack beacon stats bt = Some (bt', r) \<and> nets_wf bt' \<and> (\<forall>m. r = Some m \<longrightarrow> cell_wf m)"
proof -
  let ?en = "\<lparr>en_state = bt_state bt, en_assoc_id = bt_assoc_id bt, en_stats = stats\<rparr>"
  obtain fc where fc: "hdr_frame_ctl beacon = Some fc" using len hdr_fields_Some(1) [of beacon] by auto
  obtain r n where i: "ieee80211_network_init j ?en beacon stack = Some (r, n)"
    using network_init_safe [of ?en beacon j stack] len by auto
  show ?thesis
  proof (cases "r = 0 \<and> (WLAN_FC_GET_STYPE fc = 0x0080 \<or> WLAN_FC_GET_STYPE fc = 0x0050)")
    case True
    then have "cell_wf n" using network_init_cell [of j ?en beacon stack n] i stack by simp
    from bss_enter_cells [OF inv this, of j "WLAN_FC_GET_STYPE fc = 0x0080"] show ?thesis
      using True fc i by (auto simp: ieee80211_rx_mgt_def ieee80211_process_probe_response_def)
  qed (use fc i inv in \<open>auto simp: ieee80211_rx_mgt_def ieee80211_process_probe_response_def\<close>)
qed


section \<open>The invariant\<close>

definition sta_wf :: "station \<Rightarrow> bool" where
  "sta_wf sd \<longleftrightarrow> length (sd_dev_addr sd) = 6 \<and> cell_wf (sd_network sd) \<and> (\<forall>n \<in> set (sd_nets sd). cell_wf n) \<and>
     length (sd_nets sd) + sd_net_free sd = 128 \<and> length (sd_channel_map sd) = 162 \<and> sd_wpa_ie sd = []"

text \<open>
  While a managed station is up, an association on its way always has something pending that will move it
  on; in every other case nothing of an association is left.  The work that starts an ad hoc cell is
  only pending in that mode.
\<close>

definition sta_live :: "station \<Rightarrow> bool" where
  "sta_live sd \<longleftrightarrow>
     (if sd_proto_started sd \<and> sd_iw_mode sd = IW_MODE_INFRA then
        (sd_state sd = ASSOCIATING \<longrightarrow> wk_associate_procedure (sd_work sd)) \<and>
        (sd_state sd \<in> {ASSOCIATING_AUTHENTICATING, ASSOCIATING_AUTHENTICATED} \<longrightarrow> wk_associate_timer (sd_work sd)) \<and>
        (sd_state sd = ASSOCIATING_RETRY \<longrightarrow> wk_associate_retry (sd_work sd))
      else sd_state sd \<in> {NOLINK, LINKED, LINKED_SCANNING} \<and> \<not> wk_associate_procedure (sd_work sd) \<and>
        \<not> wk_associate_timer (sd_work sd) \<and> \<not> wk_associate_retry (sd_work sd)) \<and>
     (wk_start_ibss (sd_work sd) \<longrightarrow> sd_proto_started sd \<and> sd_iw_mode sd = IW_MODE_ADHOC)"

definition sta_inv :: "station \<Rightarrow> bool" where
  "sta_inv sd \<longleftrightarrow> sta_wf sd \<and> sta_live sd"

text \<open>What the invariant looks at; steps that only talk to the outside leave it alone.\<close>

definition sta_core where
  "sta_core sd = (sd_dev_addr sd, sd_network sd, sd_nets sd, sd_net_free sd, sd_channel_map sd, sd_wpa_ie sd, sd_state sd,
     sd_iw_mode sd, sd_proto_started sd, wk_associate_procedure (sd_work sd), wk_associate_timer (sd_work sd),
     wk_associate_retry (sd_work sd), wk_start_ibss (sd_work sd))"

lemma sta_core_inv: "sta_core a = sta_core b \<Longrightarrow> sta_wf a = sta_wf b \<and> sta_live a = sta_live b \<and> sta_inv a = sta_inv b"
  by (simp add: sta_core_def sta_wf_def sta_live_def sta_inv_def)

lemma sta_put_simps [simp]:
  "sta_core (sta_put x sd) = sta_core sd" "sta_core (sta_stat f sd) = sta_core sd"
  "sd_state (sta_put x sd) = sd_state sd" "sd_network (sta_put x sd) = sd_network sd" "sd_iw_mode (sta_put x sd) = sd_iw_mode sd"
  "sd_proto_started (sta_put x sd) = sd_proto_started sd" "sd_work (sta_put x sd) = sd_work sd" "sd_nets (sta_put x sd) = sd_nets sd"
  "sd_state (sta_stat f sd) = sd_state sd" "sd_network (sta_stat f sd) = sd_network sd" "sd_iw_mode (sta_stat f sd) = sd_iw_mode sd"
  "sd_proto_started (sta_stat f sd) = sd_proto_started sd" "sd_work (sta_stat f sd) = sd_work sd" "sd_nets (sta_stat f sd) = sd_nets sd"
  "sd_state (sta_queue g sd) = sd_state sd" "sd_network (sta_queue g sd) = sd_network sd" "sd_iw_mode (sta_queue g sd) = sd_iw_mode sd"
  "sd_proto_started (sta_queue g sd) = sd_proto_started sd" "sd_work (sta_queue g sd) = g (sd_work sd)" "sd_nets (sta_queue g sd) = sd_nets sd"
  by (simp_all add: sta_put_def sta_stat_def sta_queue_def sta_core_def)

lemma sta_wf_simps [simp]:
  "sta_wf (sta_put x sd) = sta_wf sd" "sta_wf (sta_stat f sd) = sta_wf sd" "sta_wf (sta_queue g sd) = sta_wf sd"
  "sta_wf (sd\<lparr>sd_state := st\<rparr>) = sta_wf sd" "sta_wf (sd\<lparr>sd_proto_started := b\<rparr>) = sta_wf sd" "sta_wf (sd\<lparr>sd_iw_mode := m\<rparr>) = sta_wf sd"
  "sta_wf (sd\<lparr>sd_associate_seq := n\<rparr>) = sta_wf sd" "sta_wf (sd\<lparr>sd_assoc_id := n\<rparr>) = sta_wf sd"
  "sta_wf (sd\<lparr>sd_scanning := i\<rparr>) = sta_wf sd" "sta_wf (sd\<lparr>sd_scan_watchdog := i\<rparr>) = sta_wf sd"
  "sta_wf (sd\<lparr>sd_actscanning := b\<rparr>) = sta_wf sd" "sta_wf (sd\<lparr>sd_beinretry := b\<rparr>) = sta_wf sd"
  "sta_wf (sd\<lparr>sd_sync_scan_hurryup := b\<rparr>) = sta_wf sd" "sta_wf (sd\<lparr>sd_beacon_txing := b\<rparr>) = sta_wf sd"
  "sta_wf (sd\<lparr>sd_wap_set := b\<rparr>) = sta_wf sd" "sta_wf (sd\<lparr>sd_ssid_set := b\<rparr>) = sta_wf sd" "sta_wf (sd\<lparr>sd_rate := i\<rparr>) = sta_wf sd"
  "sta_wf (sd\<lparr>sd_ap_mac_addr := a\<rparr>) = sta_wf sd" "sta_wf (sd\<lparr>sd_last_rx_ps_time := t\<rparr>) = sta_wf sd"
  "sta_wf (sd\<lparr>sd_sta_sleep := i\<rparr>) = sta_wf sd" "sta_wf (sd\<lparr>sd_raw_tx := b\<rparr>) = sta_wf sd"
  by (simp_all add: sta_wf_def sta_put_def sta_stat_def sta_queue_def)

lemma sta_wf_network: "sta_wf sd \<Longrightarrow> cell_wf n \<Longrightarrow> sta_wf (sd\<lparr>sd_network := n\<rparr>)"
  by (simp add: sta_wf_def)

lemma sta_wf_addrs: "sta_wf sd \<Longrightarrow> station_addrs sd"
  by (simp add: sta_wf_def station_addrs_def cell_wf_def network_wf_def)

lemma cell_wf_updates [simp]:
  "cell_wf (n\<lparr>nw_channel := c\<rparr>) = cell_wf n" "cell_wf (n\<lparr>nw_capability := cap\<rparr>) = cell_wf n"
  "cell_wf (n\<lparr>nw_beacon_interval := i\<rparr>) = cell_wf n" "cell_wf (n\<lparr>nw_atim_window := i\<rparr>) = cell_wf n"
  by (simp_all add: cell_wf_def network_wf_def network_arrays_def network_lengths_def)

lemma cell_wf_bssid: "\<lbrakk>cell_wf n; length b = 6\<rbrakk> \<Longrightarrow> cell_wf (n\<lparr>nw_bssid := b\<rparr>)"
  by (simp add: cell_wf_def network_wf_def network_arrays_def network_lengths_def)

lemma cell_wf_ssid: "\<lbrakk>cell_wf n; length s = 33; l \<le> 32\<rbrakk> \<Longrightarrow> cell_wf (n\<lparr>nw_ssid := s, nw_ssid_len := l\<rparr>)"
  by (simp add: cell_wf_def network_wf_def network_arrays_def network_lengths_def)

lemma length_str_ncopy: "n \<le> length dst \<Longrightarrow> length (str_ncopy n src dst) = length dst"
proof -
  assume n: "n \<le> length dst"
  have "length (takeWhile (\<lambda>b. b \<noteq> 0) (take n src)) \<le> n"
    using length_takeWhile_le [of "\<lambda>b. b \<noteq> 0" "take n src"] by simp
  with n show ?thesis by (simp add: str_ncopy_def Let_def)
qed

section \<open>Sending never fails\<close>

lemma null_frame_ok:
  assumes "sta_wf sd"
  shows "\<exists>sd'. ieee80211_sta_ps_send_null_frame al pwr sd = Some sd' \<and> sta_core sd' = sta_core sd"
proof -
  note a = sta_wf_addrs [OF assms, unfolded station_addrs_def]
  have l: "length (mgmt_header fc 0 (nw_bssid (sd_network sd)) (sd_dev_addr sd) (nw_bssid (sd_network sd))) = 24" for fc
    using a by (simp add: length_mgmt_header)
  have "\<exists>skb. ieee80211_null_func pwr sd = Some skb"
    unfolding ieee80211_null_func_def put_data_iff by (simp add: dev_alloc_skb_def skb_tailroom_def l)
  then show ?thesis by (auto simp: ieee80211_sta_ps_send_null_frame_def)
qed

lemma sta_wakeup_ok:
  assumes "sta_wf sd"
  shows "\<exists>sd'. ieee80211_sta_wakeup al nl sd = Some sd' \<and> sta_core sd' = sta_core sd"
proof -
  let ?awake = "(if sd_sta_sleep sd = 1 then sta_queue (wk_hw_wakeup_update (\<lambda>_. True)) sd else sd)\<lparr>sd_sta_sleep := 0\<rparr>"
  have c: "sta_core ?awake = sta_core sd" by (simp add: sta_core_def sta_queue_def)
  have "sta_wf ?awake" using assms by simp
  from null_frame_ok [OF this, of al False] null_frame_ok [OF assms, of al False] c show ?thesis
    unfolding ieee80211_sta_wakeup_def Let_def by auto
qed

lemma mgmt_xmit_ok: "sta_wf sd \<Longrightarrow> \<exists>sd'. sta_mgmt_xmit skb sd = Some sd' \<and> sta_core sd' = sta_core sd"
  using sta_wakeup_ok [of sd True False] by (auto simp: sta_mgmt_xmit_def)

lemma probe_wpa_none: "sd_wpa_ie sd = [] \<Longrightarrow> probe_wpa_ie sd = Some (concat (map ie_bytes []))"
  by (simp add: probe_wpa_ie_def)

lemma sta_wf_no_ie: "sta_wf sd \<Longrightarrow> sd_wpa_ie sd = []" by (simp add: sta_wf_def)

lemma send_beacon_ok:
  assumes "sta_wf sd"
  shows "\<exists>sd'. ieee80211_send_beacon al sd = Some sd' \<and> sta_core sd' = sta_core sd"
proof -
  obtain skb where b: "get_beacon_frame sd = Some (skb, sd\<lparr>sd_wpa_ie := []\<rparr>)"
    using get_beacon_frame_eq [OF sta_wf_addrs [OF assms] probe_wpa_none [OF sta_wf_no_ie [OF assms]]] by auto
  have wf: "sta_wf (sd\<lparr>sd_wpa_ie := []\<rparr>)" and c: "sta_core (sd\<lparr>sd_wpa_ie := []\<rparr>) = sta_core sd"
    using assms by (simp_all add: sta_wf_def sta_core_def)
  from mgmt_xmit_ok [OF wf, of skb] obtain sd1 where "sta_mgmt_xmit skb (sd\<lparr>sd_wpa_ie := []\<rparr>) = Some sd1" "sta_core sd1 = sta_core sd"
    using c by auto
  moreover have "sta_core (sta_queue (wk_beacon_timer_update (\<lambda>_. True)) x) = sta_core x" for x
    by (simp add: sta_core_def sta_queue_def)
  ultimately show ?thesis using b by (cases al) (auto simp: ieee80211_send_beacon_def)
qed

lemma send_probe_ok:
  assumes "sta_wf sd"
  shows "\<exists>sd'. ieee80211_send_probe al sd = Some sd' \<and> sta_core sd' = sta_core sd"
proof -
  note a = sta_wf_addrs [OF assms]
  note r = station_reads(1,4) [OF a]
  have l: "length (mgmt_header fc 0 broadcast_addr (sd_dev_addr sd) broadcast_addr) = 24" for fc
    using a by (simp add: length_mgmt_header broadcast_addr_def station_addrs_def)
  have "\<exists>skb. ieee80211_probe_req sd = Some skb"
    unfolding ieee80211_probe_req_def Let_def put_data_iff r(1) length_MFIE [symmetric]
    using r(2) by (auto simp add: dev_alloc_skb_def skb_tailroom_def l)
  then obtain skb where "ieee80211_probe_req sd = Some skb" ..
  with mgmt_xmit_ok [OF assms, of skb] show ?thesis by (auto simp: ieee80211_send_probe_def)
qed

lemma send_probes_ok:
  assumes "sta_wf sd"
  shows "\<exists>sd'. ieee80211_send_probe_requests al sd = Some sd' \<and> sta_core sd' = sta_core sd"
proof -
  obtain s1 where s1: "ieee80211_send_probe al sd = Some s1" "sta_core s1 = sta_core sd" using send_probe_ok [OF assms] by blast
  then have "sta_wf s1" using assms sta_core_inv by blast
  with send_probe_ok [of s1 al] s1 show ?thesis by (auto simp: ieee80211_send_probe_requests_def)
qed


lemma sta_coreD:
  assumes "sta_core a = sta_core b"
  shows "sd_state a = sd_state b" "sd_network a = sd_network b" "sd_iw_mode a = sd_iw_mode b" "sd_proto_started a = sd_proto_started b"
    "sd_nets a = sd_nets b" "sta_wf a = sta_wf b" "sta_live a = sta_live b" "sta_inv a = sta_inv b"
    "wk_associate_procedure (sd_work a) = wk_associate_procedure (sd_work b)"
    "wk_associate_timer (sd_work a) = wk_associate_timer (sd_work b)"
    "wk_associate_retry (sd_work a) = wk_associate_retry (sd_work b)" "wk_start_ibss (sd_work a) = wk_start_ibss (sd_work b)"
  using assms sta_core_inv [OF assms] by (simp_all add: sta_core_def)

section \<open>The handlers keep the invariant\<close>

text \<open>A managed station that is up.\<close>

definition sta_managed :: "station \<Rightarrow> bool" where
  "sta_managed sd \<longleftrightarrow> sd_proto_started sd \<and> sd_iw_mode sd = IW_MODE_INFRA \<and> \<not> wk_start_ibss (sd_work sd)"

lemma sta_managedI: "\<lbrakk>sta_inv sd; sd_proto_started sd; sd_iw_mode sd = IW_MODE_INFRA\<rbrakk> \<Longrightarrow> sta_managed sd \<and> sta_wf sd"
  by (auto simp: sta_managed_def sta_inv_def sta_live_def)

lemma sta_managed_inv:
  "\<lbrakk>sta_managed sd; sta_wf sd; sd_state sd = ASSOCIATING \<longrightarrow> wk_associate_procedure (sd_work sd);
    sd_state sd \<in> {ASSOCIATING_AUTHENTICATING, ASSOCIATING_AUTHENTICATED} \<longrightarrow> wk_associate_timer (sd_work sd);
    sd_state sd = ASSOCIATING_RETRY \<longrightarrow> wk_associate_retry (sd_work sd)\<rbrakk> \<Longrightarrow> sta_inv sd"
  by (simp add: sta_managed_def sta_inv_def sta_live_def)

lemma abort_inv: "\<lbrakk>sta_managed sd; sta_wf sd\<rbrakk> \<Longrightarrow> sta_inv (ieee80211_associate_abort sd)"
  by (rule sta_managed_inv) (auto simp: ieee80211_associate_abort_def sta_managed_def Let_def)

text \<open>Sending a frame and arming the timer.\<close>

lemma xmit_timer_inv:
  assumes "sta_managed sd" and "sta_wf sd" and "sd_state sd \<in> {ASSOCIATING_AUTHENTICATING, ASSOCIATING_AUTHENTICATED}"
  shows "\<exists>sd'. sta_mgmt_xmit skb sd = Some sd' \<and> sta_inv (sta_queue (wk_associate_timer_update (\<lambda>_. True)) sd') \<and>
    sd_state sd' = sd_state sd"
proof -
  from mgmt_xmit_ok [OF assms(2)] obtain sd' where "sta_mgmt_xmit skb sd = Some sd'" and c: "sta_core sd' = sta_core sd" by blast
  moreover have "sta_inv (sta_queue (wk_associate_timer_update (\<lambda>_. True)) sd')"
    using assms sta_coreD [OF c] by (intro sta_managed_inv) (auto simp: sta_managed_def)
  ultimately show ?thesis using sta_coreD [OF c] by blast
qed

lemma authentication_req_ok:
  assumes "sta_wf sd"
  shows "\<exists>skb. ieee80211_authentication_req (sd_network sd) n sd = Some (skb, sd\<lparr>sd_associate_seq := sd_associate_seq sd + 1\<rparr>) \<and>
    skb_tailroom skb = n + 8"
proof -
  note a = sta_wf_addrs [OF assms, unfolded station_addrs_def]
  have l: "length (mgmt_header fc 0x013a (nw_bssid (sd_network sd)) (sd_dev_addr sd) (nw_bssid (sd_network sd))) = 24" for fc
    using a by (simp add: length_mgmt_header)
  show ?thesis
    unfolding ieee80211_authentication_req_def Let_def put_data_iff by (simp add: dev_alloc_skb_def skb_tailroom_def l)
qed

lemma step1_inv:
  assumes "sta_managed sd" and "sta_wf sd"
  shows "\<exists>sd'. ieee80211_associate_step1 al sd = Some sd' \<and> sta_inv sd'"
proof -
  let ?s = "sta_stat (ss_tx_auth_rq_update (\<lambda>n. n + 1)) sd"
  have wf: "sta_wf ?s" and m: "sta_managed ?s" using assms by (simp_all add: sta_managed_def)
  obtain skb where r: "ieee80211_authentication_req (sd_network ?s) 0 ?s = Some (skb, ?s\<lparr>sd_associate_seq := sd_associate_seq ?s + 1\<rparr>)"
    using authentication_req_ok [OF wf, of 0] by blast
  let ?t = "?s\<lparr>sd_associate_seq := sd_associate_seq ?s + 1, sd_state := ASSOCIATING_AUTHENTICATING\<rparr>"
  have "sta_managed ?t" "sta_wf ?t" using m wf by (simp_all add: sta_managed_def)
  from xmit_timer_inv [OF this, of skb]
  obtain sd' where "sta_mgmt_xmit skb ?t = Some sd'" "sta_inv (sta_queue (wk_associate_timer_update (\<lambda>_. True)) sd')" by auto
  then show ?thesis using r abort_inv [OF m wf] unfolding ieee80211_associate_step1_def Let_def by (cases al) auto
qed

lemma step2_inv:
  assumes "sta_managed sd" and "sta_wf sd" and "sd_state sd = ASSOCIATING_AUTHENTICATED"
  shows "\<exists>sd'. ieee80211_associate_step2 al sd = Some sd' \<and> sta_inv sd'"
proof -
  let ?s = "sta_stat (ss_tx_ass_rq_update (\<lambda>n. n + 1)) (sta_queue (wk_associate_timer_update (\<lambda>_. False)) sd)"
  have wf: "sta_wf ?s" and m: "sta_managed ?s" using assms by (simp_all add: sta_managed_def)
  have "length (sd_dev_addr ?s) = 6" "length (nw_bssid (sd_network ?s)) = 6" "network_arrays (sd_network ?s)"
    "network_lengths (sd_network ?s)" using sta_wf_addrs [OF wf] by (simp_all add: station_addrs_def)
  from association_req_eq [OF this]
  obtain skb where r: "ieee80211_association_req (sd_network ?s) ?s = Some (skb, ?s\<lparr>sd_ap_mac_addr := nw_bssid (sd_network ?s)\<rparr>)"
    using sta_wf_no_ie [OF wf] by simp
  let ?t = "?s\<lparr>sd_ap_mac_addr := nw_bssid (sd_network ?s)\<rparr>"
  have "sta_managed ?t" "sta_wf ?t" "sd_state ?t = ASSOCIATING_AUTHENTICATED" using m wf assms(3) by (simp_all add: sta_managed_def)
  from xmit_timer_inv [OF this(1,2), of skb] this(3)
  obtain sd' where "sta_mgmt_xmit skb ?t = Some sd'" "sta_inv (sta_queue (wk_associate_timer_update (\<lambda>_. True)) sd')" by auto
  then show ?thesis using r abort_inv [OF m wf] unfolding ieee80211_associate_step2_def Let_def by (cases al) auto
qed

lemma auth_challenge_inv:
  assumes "sta_managed sd" and "sta_wf sd" and "sd_state sd = ASSOCIATING_AUTHENTICATING" and "\<forall>f. \<exists>g. seal f = Some g"
  shows "\<exists>sd'. ieee80211_auth_challenge seal al challenge sd = Some sd' \<and> sta_inv sd'"
proof -
  let ?s = "sta_stat (ss_tx_auth_rq_update (\<lambda>n. n + 1)) (sd\<lparr>sd_associate_seq := sd_associate_seq sd + 1\<rparr>)"
  have wf: "sta_wf ?s" and m: "sta_managed ?s" using assms by (simp_all add: sta_managed_def)
  obtain skb where r: "ieee80211_authentication_req (sd_network ?s) (length challenge + 2) ?s =
      Some (skb, ?s\<lparr>sd_associate_seq := sd_associate_seq ?s + 1\<rparr>)" and t: "skb_tailroom skb = length challenge + 2 + 8"
    using authentication_req_ok [OF wf, of "length challenge + 2"] by blast
  obtain skb' where p: "skb_put_data ([16, word_of_nat (length challenge)] @ challenge) skb = Some skb'"
    unfolding put_data_iff t by simp
  obtain g where g: "seal skb' = Some g" using assms(4) by blast
  let ?t = "?s\<lparr>sd_associate_seq := sd_associate_seq ?s + 1\<rparr>"
  have "sta_managed ?t" "sta_wf ?t" "sd_state ?t = ASSOCIATING_AUTHENTICATING" using m wf assms(3) by (simp_all add: sta_managed_def)
  from xmit_timer_inv [OF this(1,2), of g] this(3)
  obtain sd' where "sta_mgmt_xmit g ?t = Some sd'" "sta_inv (sta_queue (wk_associate_timer_update (\<lambda>_. True)) sd')" by auto
  then show ?thesis using r p g abort_inv [OF m wf] unfolding ieee80211_auth_challenge_def Let_def by (cases al) auto
qed

lemma stop_scan_core [simp]: "sta_core (ieee80211_stop_scan sd) = sta_core sd" "sta_core (ieee80211_start_scan sd) = sta_core sd"
  by (simp_all add: ieee80211_stop_scan_def ieee80211_start_scan_def sta_core_def sta_queue_def)

lemma procedure_inv:
  assumes "sta_managed sd" and "sta_wf sd"
  shows "\<exists>sd'. ieee80211_associate_procedure_wq al sd = Some sd' \<and> sta_inv sd'"
proof -
  have c: "sta_core (ieee80211_stop_scan (sta_put Data_Hard_Stop (sd\<lparr>sd_sync_scan_hurryup := True\<rparr>))) = sta_core sd"
    by (simp add: sta_core_def [of "sd\<lparr>sd_sync_scan_hurryup := True\<rparr>"] sta_core_def [of sd])
  note d = sta_coreD [OF c]
  show ?thesis unfolding ieee80211_associate_procedure_wq_def Let_def
    by (rule step1_inv) (use assms d in \<open>simp_all add: sta_managed_def\<close>)
qed

lemma complete_inv:
  "\<lbrakk>sta_managed sd; sta_wf sd\<rbrakk> \<Longrightarrow> sta_inv (ieee80211_associate_complete sd)"
  by (rule sta_managed_inv) (auto simp: ieee80211_associate_complete_def sta_managed_def Let_def)

lemma complete_wq_inv: "sta_inv sd \<Longrightarrow> sta_inv (ieee80211_associate_complete_wq sd)"
proof -
  have "sta_core (sd\<lparr>sd_rate := r\<rparr>) = sta_core sd" for r by (simp add: sta_core_def)
  then have "sta_core (ieee80211_associate_complete_wq sd) = sta_core sd"
    by (simp add: ieee80211_associate_complete_wq_def notify_wx_assoc_event_def Let_def)
  then show "sta_inv sd \<Longrightarrow> ?thesis" by (rule sta_coreD(8) [THEN iffD2])
qed

subsection \<open>Joining networks\<close>

lemma hidden_name_wf:
  assumes "cell_wf net" and "cell_wf cur"
  shows "cell_wf (net\<lparr>nw_ssid := str_ncopy 32 (str_ncopy 32 (nw_ssid cur) (replicate 33 0)) (nw_ssid net), nw_ssid_len := nw_ssid_len cur\<rparr>)"
  using assms by (intro cell_wf_ssid) (simp_all add: length_str_ncopy cell_wf_def network_wf_def network_arrays_def network_lengths_def)

lemma new_net_inv:
  assumes inv: "sta_inv sd" and up: "sd_proto_started sd" and net: "cell_wf net"
  shows "sta_inv (ieee80211_softmac_new_net net sd)"
    and "sd_proto_started (ieee80211_softmac_new_net net sd) \<and> sd_iw_mode (ieee80211_softmac_new_net net sd) = sd_iw_mode sd \<and>
      sd_nets (ieee80211_softmac_new_net net sd) = sd_nets sd"
proof -
  show "sd_proto_started (ieee80211_softmac_new_net net sd) \<and> sd_iw_mode (ieee80211_softmac_new_net net sd) = sd_iw_mode sd \<and>
      sd_nets (ieee80211_softmac_new_net net sd) = sd_nets sd"
    using up by (simp add: ieee80211_softmac_new_net_def Let_def)
  have wf: "sta_wf sd" and live: "sta_live sd" using inv by (simp_all add: sta_inv_def)
  have cw: "cell_wf (sd_network sd)" using wf by (simp add: sta_wf_def)
  have w: "sta_wf (sd\<lparr>sd_network := net\<rparr>)" "sta_wf (sd\<lparr>sd_network := net\<lparr>nw_ssid := str_ncopy 32 (str_ncopy 32
      (nw_ssid (sd_network sd)) (replicate 33 0)) (nw_ssid net), nw_ssid_len := nw_ssid_len (sd_network sd)\<rparr>\<rparr>)"
    using sta_wf_network [OF wf net] sta_wf_network [OF wf hidden_name_wf [OF net cw]] by simp_all
  show "sta_inv (ieee80211_softmac_new_net net sd)"
    using inv up live w
    by (simp add: ieee80211_softmac_new_net_def Let_def sta_inv_def) (auto simp: sta_live_def)
qed

lemma check_nets_inv:
  assumes "sta_inv sd" and "sd_proto_started sd" and "\<forall>n \<in> set nets. cell_wf n"
  shows "sta_inv (check_nets_loop nets sd) \<and> sd_proto_started (check_nets_loop nets sd) \<and>
    sd_iw_mode (check_nets_loop nets sd) = sd_iw_mode sd"
  using assms
proof (induction nets arbitrary: sd)
  case (Cons n nets)
  then have n: "cell_wf n" by simp
  note m = new_net_inv [OF Cons.prems(1,2) n]
  from Cons.IH [OF m(1)] m(2) Cons.prems show ?case by simp
qed simp

lemma check_all_nets_inv:
  assumes "sta_inv sd" and "sd_proto_started sd"
  shows "sta_inv (ieee80211_softmac_check_all_nets sd) \<and> sd_proto_started (ieee80211_softmac_check_all_nets sd) \<and>
    sd_iw_mode (ieee80211_softmac_check_all_nets sd) = sd_iw_mode sd"
  using check_nets_inv [OF assms, of "sd_nets sd"] assms(1)
  by (simp add: ieee80211_softmac_check_all_nets_def sta_inv_def sta_wf_def)

lemma retry_inv:
  assumes "sta_managed sd" and "sta_wf sd"
  shows "sd_state sd = ASSOCIATING_RETRY \<Longrightarrow> sta_inv (ieee80211_associate_retry_wq sd)"
proof -
  let ?s = "sd\<lparr>sd_state := NOLINK, sd_beinretry := True\<rparr>"
  have i: "sta_inv ?s" and p: "sd_proto_started ?s" "sd_proto_started sd"
    using assms by (simp_all add: sta_inv_def) (simp_all add: sta_live_def sta_managed_def)
  note c = check_all_nets_inv [OF i p(1)]
  have "sta_core (x\<lparr>sd_beinretry := False, sd_actscanning := True\<rparr>) = sta_core x" for x by (simp add: sta_core_def)
  then have "sta_core (ieee80211_start_scan (x\<lparr>sd_beinretry := False, sd_actscanning := True\<rparr>)) = sta_core x" for x by simp
  from sta_coreD(8) [OF this] show "sd_state sd = ASSOCIATING_RETRY \<Longrightarrow> ?thesis"
    using c p by (simp add: ieee80211_associate_retry_wq_def Let_def)
qed


subsection \<open>Scans and ad hoc cells\<close>

lemma scan_next_facts:
  "sd_state (snd (scan_next sd)) = sd_state sd \<and> sd_work (snd (scan_next sd)) = sd_work sd \<and>
   sd_iw_mode (snd (scan_next sd)) = sd_iw_mode sd \<and> sd_proto_started (snd (scan_next sd)) = sd_proto_started sd \<and>
   sta_wf (snd (scan_next sd)) = sta_wf sd"
proof (induction sd rule: scan_next.induct)
  case (1 sd)
  note IH = 1
  let ?c = "word_of_nat ((unat (nw_channel (sd_network sd)) + 1) mod 161) :: u8"
  let ?s = "sd\<lparr>sd_network := (sd_network sd)\<lparr>nw_channel := ?c\<rparr>, sd_scan_watchdog := sd_scan_watchdog sd + 1\<rparr>"
  have wf: "sta_wf (sd\<lparr>sd_network := (sd_network sd)\<lparr>nw_channel := c\<rparr>\<rparr>) = sta_wf sd" for c by (simp add: sta_wf_def)
  consider "sd_scan_watchdog sd > 161" | "\<not> sd_scan_watchdog sd > 161" "sd_channel_map sd ! unat ?c"
    | "\<not> sd_scan_watchdog sd > 161" "\<not> sd_channel_map sd ! unat ?c" by blast
  then show ?case
  proof cases
    case 1
    have e: "scan_next sd = (False, ?s)" using 1 by (subst scan_next.simps) (simp add: Let_def)
    show ?thesis unfolding e using wf by simp
  next
    case 2
    have e: "scan_next sd = (True, ?s)" using 2 by (subst scan_next.simps) (simp add: Let_def)
    show ?thesis unfolding e using wf by simp
  next
    case 3
    have e: "scan_next sd = scan_next ?s" using 3 by (subst scan_next.simps) (simp add: Let_def)
    show ?thesis unfolding e using IH [OF refl refl refl 3] wf by simp
  qed
qed

lemma sta_inv_same:
  "\<lbrakk>sta_inv sd; sta_wf sd'; sd_state sd' = sd_state sd; sd_iw_mode sd' = sd_iw_mode sd; sd_proto_started sd' = sd_proto_started sd;
    wk_associate_procedure (sd_work sd') = wk_associate_procedure (sd_work sd); wk_associate_timer (sd_work sd') = wk_associate_timer (sd_work sd);
    wk_associate_retry (sd_work sd') = wk_associate_retry (sd_work sd); wk_start_ibss (sd_work sd') = wk_start_ibss (sd_work sd)\<rbrakk> \<Longrightarrow> sta_inv sd'"
  by (clarsimp simp only: sta_inv_def sta_live_def simp_thms)

lemma scan_wq_inv:
  assumes inv: "sta_inv sd"
  shows "\<exists>sd'. ieee80211_softmac_scan_wq al sd = Some sd' \<and> sta_inv sd'"
proof -
  have fin: "sta_inv (x\<lparr>sd_actscanning := False, sd_scan_watchdog := 0\<rparr>) = sta_inv x" for x
    by (rule sta_coreD) (simp add: sta_core_def)
  obtain f s where fs: "scan_next sd = (f, s)" by (cases "scan_next sd")
  have wf: "sta_wf s" using scan_next_facts [of sd] fs inv by (simp add: sta_inv_def)
  have i: "sta_inv s" using scan_next_facts [of sd] fs by (intro sta_inv_same [OF inv wf]) simp_all
  have "sta_wf (sta_put (Set_Chan (nw_channel (sd_network s))) s)" using wf by simp
  from send_probes_ok [OF this, of al] obtain t
    where t: "ieee80211_send_probe_requests al (sta_put (Set_Chan (nw_channel (sd_network s))) s) = Some t" "sta_core t = sta_core s" by auto
  have "sta_inv (sta_queue (wk_softmac_scan_update (\<lambda>_. True)) t) = sta_inv t"
    by (rule sta_coreD) (simp add: sta_core_def sta_queue_def)
  then show ?thesis
    using inv i t sta_coreD(8) [OF t(2)] fs fin by (cases f) (auto simp: ieee80211_softmac_scan_wq_def)
qed

text \<open>Other steps may run during a waiting scan; they keep the invariant, the mode and the interface up.\<close>

definition meanwhile_ok :: "(u8 \<Rightarrow> station \<Rightarrow> station option) \<Rightarrow> bool" where
  "meanwhile_ok meanwhile \<longleftrightarrow> (\<forall>ch sd. sta_inv sd \<and> sd_proto_started sd \<longrightarrow> (\<exists>sd'. meanwhile ch sd = Some sd' \<and> sta_inv sd' \<and>
     sd_proto_started sd' \<and> sd_iw_mode sd' = sd_iw_mode sd))"

lemma scan_syncro_loop_inv:
  assumes "meanwhile_ok meanwhile" and "sta_inv sd" and "sd_proto_started sd"
  shows "\<exists>sd'. scan_syncro_loop al meanwhile chs sd = Some sd' \<and> sta_inv sd' \<and> sd_proto_started sd' \<and> sd_iw_mode sd' = sd_iw_mode sd"
  using assms(2,3)
proof (induction chs arbitrary: sd)
  case (Cons ch chs)
  let ?s = "sta_put (Set_Chan (word_of_nat ch)) sd"
  have "sta_wf ?s" using Cons.prems(1) by (simp add: sta_inv_def)
  from send_probes_ok [OF this, of al] obtain t
    where t: "ieee80211_send_probe_requests al ?s = Some t" and c: "sta_core t = sta_core sd" by auto
  have ti: "sta_inv t" "sd_proto_started t" "sd_iw_mode t = sd_iw_mode sd" using sta_coreD [OF c] Cons.prems by simp_all
  obtain u where u: "meanwhile (word_of_nat ch) t = Some u" "sta_inv u" "sd_proto_started u" "sd_iw_mode u = sd_iw_mode sd"
    using assms(1) ti unfolding meanwhile_ok_def by metis
  show ?case using Cons.IH [OF Cons.prems] Cons.IH [OF u(2,3)] Cons.prems t ti u by auto
qed simp

lemma start_scan_syncro_inv:
  assumes "meanwhile_ok meanwhile" and "sta_inv sd" and "sd_proto_started sd"
  shows "\<exists>sd'. ieee80211_start_scan_syncro al meanwhile sd = Some sd' \<and> sta_inv sd' \<and> sd_proto_started sd' \<and> sd_iw_mode sd' = sd_iw_mode sd"
proof -
  have c: "sta_core (x\<lparr>sd_sync_scan_hurryup := b\<rparr>) = sta_core x" for x b by (simp add: sta_core_def)
  have "sta_inv (sd\<lparr>sd_sync_scan_hurryup := False\<rparr>)" using sta_coreD(8) [OF c] assms(2) by blast
  from scan_syncro_loop_inv [OF assms(1) this, of al "[1..<162]"] assms(3)
  obtain s where "scan_syncro_loop al meanwhile [1..<162] (sd\<lparr>sd_sync_scan_hurryup := False\<rparr>) = Some s" "sta_inv s"
    "sd_proto_started s" "sd_iw_mode s = sd_iw_mode sd" by auto
  then show ?thesis using sta_coreD(8) [OF c, of False s]
    by (simp add: ieee80211_start_scan_syncro_def ieee80211_softmac_scan_syncro_def)
qed

lemma default_essid_wf:
  assumes "cell_wf n"
  shows "cell_wf (n\<lparr>nw_ssid := default_essid @ [0] @ drop 8 (nw_ssid n), nw_ssid_len := 7\<rparr>)"
    and "cell_wf (n\<lparr>nw_ssid := str_ncopy 32 (default_essid @ [0]) (nw_ssid n), nw_ssid_len := 7\<rparr>)"
  using assms by (simp_all add: cell_wf_ssid length_str_ncopy default_essid_def cell_wf_def network_wf_def network_arrays_def network_lengths_def)

lemma ibss_new_cell_facts:
  assumes "sta_wf sd" and "length rnd = 6"
  shows "sta_wf (ibss_new_cell rnd sd)" and "sd_work (ibss_new_cell rnd sd) = sd_work sd"
    and "sd_iw_mode (ibss_new_cell rnd sd) = sd_iw_mode sd" and "sd_proto_started (ibss_new_cell rnd sd) = sd_proto_started sd"
proof -
  show "sd_work (ibss_new_cell rnd sd) = sd_work sd" "sd_iw_mode (ibss_new_cell rnd sd) = sd_iw_mode sd"
    "sd_proto_started (ibss_new_cell rnd sd) = sd_proto_started sd" by (simp_all add: ibss_new_cell_def Let_def)
  have c: "cell_wf (sd_network sd)" using assms(1) by (simp add: sta_wf_def)
  define n0 where "n0 = (if sd_wap_set sd then sd_network sd else ieee80211_randomize_cell rnd (sd_network sd))"
  define n1 where "n1 = (if sd_modulation sd AND CCK_MODULATION \<noteq> 0
    then n0\<lparr>nw_rates_len := 4, nw_rates := [0x82, 0x84, 0x8B, 0x96] @ drop 4 (nw_rates n0)\<rparr> else n0\<lparr>nw_rates_len := 0\<rparr>)"
  define n2 where "n2 = (if sd_modulation sd AND OFDM_MODULATION \<noteq> 0
    then n1\<lparr>nw_rates_ex_len := 8, nw_rates_ex := [0x8C, 0x92, 0x98, 0xA4, 0xB0, 0xC8, 0xE0, 0xEC] @ drop 8 (nw_rates_ex n1)\<rparr>
    else n1\<lparr>nw_rates_ex_len := 0\<rparr>)"
  have "cell_wf n0"
    using c assms(2) cell_wf_bssid [OF c, of "((hd rnd AND NOT 0x01) OR 0x02) # tl rnd"]
    by (simp add: n0_def ieee80211_randomize_cell_def)
  then have "cell_wf n1" by (simp add: n1_def cell_wf_def network_wf_def network_arrays_def network_lengths_def)
  then have "cell_wf n2" by (simp add: n2_def cell_wf_def network_wf_def network_arrays_def network_lengths_def)
  then show "sta_wf (ibss_new_cell rnd sd)"
    using assms(1) unfolding ibss_new_cell_def Let_def n0_def [symmetric] n1_def [symmetric] n2_def [symmetric]
    by (simp add: sta_wf_network)
qed

lemma ibss_wq_inv:
  assumes m: "meanwhile_ok meanwhile" and inv: "sta_inv sd" and up: "sd_proto_started sd" and mode: "sd_iw_mode sd = IW_MODE_ADHOC"
    and rnd: "length rnd = 6"
  shows "\<exists>sd'. ieee80211_start_ibss_wq rnd al meanwhile sd = Some sd' \<and> sta_inv sd'"
proof -
  let ?net = "sd_network sd"
  define s0 where "s0 = (if nw_ssid_len ?net = 0
    then sd\<lparr>sd_network := ?net\<lparr>nw_ssid := default_essid @ [0] @ drop 8 (nw_ssid ?net), nw_ssid_len := 7\<rparr>, sd_ssid_set := True\<rparr> else sd)"
  have wf: "sta_wf sd" using inv by (simp add: sta_inv_def)
  then have "cell_wf ?net" by (simp add: sta_wf_def)
  from sta_wf_network [OF wf default_essid_wf(1) [OF this]] have "sta_wf s0" using wf by (simp add: s0_def)
  then have i0: "sta_inv s0" by (rule sta_inv_same [OF inv]) (simp_all add: s0_def)
  have p0: "sd_proto_started s0" "sd_iw_mode s0 = IW_MODE_ADHOC" using up mode by (simp_all add: s0_def)
  let ?s1 = "ieee80211_softmac_check_all_nets s0"
  have i1: "sta_inv ?s1" "sd_proto_started ?s1" "sd_iw_mode ?s1 = IW_MODE_ADHOC" using check_all_nets_inv [OF i0 p0(1)] p0(2) by simp_all
  have "\<exists>s2. (if sd_state ?s1 = NOLINK then ieee80211_start_scan_syncro al meanwhile ?s1 else Some ?s1) = Some s2 \<and>
      sta_inv s2 \<and> sd_proto_started s2 \<and> sd_iw_mode s2 = IW_MODE_ADHOC"
    using start_scan_syncro_inv [OF m i1(1,2), of al] i1 by auto
  then obtain s2 where s2: "(if sd_state ?s1 = NOLINK then ieee80211_start_scan_syncro al meanwhile ?s1 else Some ?s1) = Some s2"
    "sta_inv s2" "sd_proto_started s2" "sd_iw_mode s2 = IW_MODE_ADHOC" by blast
  define s3 where "s3 = (if sd_state s2 = NOLINK then ibss_new_cell rnd s2 else s2)"
  have w2: "sta_wf s2" using s2(2) by (simp add: sta_inv_def)
  note f = ibss_new_cell_facts [OF w2 rnd]
  have s3: "sta_wf s3" "sd_proto_started s3" "sd_iw_mode s3 = IW_MODE_ADHOC" "sd_work s3 = sd_work s2"
    using f s2 w2 by (simp_all add: s3_def)
  have l2: "sta_live s2" using s2(2) by (simp add: sta_inv_def)
  define s4 where "s4 = notify_wx_assoc_event (sta_put Link_Change (sta_put (Set_Chan (nw_channel (sd_network (s3\<lparr>sd_state := LINKED\<rparr>))))
     (s3\<lparr>sd_state := LINKED\<rparr>)))"
  have s4: "sta_inv s4"
    using s3 l2 s2(4) unfolding s4_def sta_inv_def notify_wx_assoc_event_def by (simp add: sta_live_def)
  have c: "sta_core (s4\<lparr>sd_beacon_txing := True\<rparr>) = sta_core s4" by (simp add: sta_core_def)
  then have "sta_wf (s4\<lparr>sd_beacon_txing := True\<rparr>)" using s4 by (simp add: sta_inv_def)
  from send_beacon_ok [OF this, of al] c obtain s5 where s5: "ieee80211_start_send_beacons al s4 = Some s5" "sta_core s5 = sta_core s4"
    by (auto simp: ieee80211_start_send_beacons_def)
  have "sta_inv (sta_put (Carrier True) (sta_put Data_Hard_Resume s5)) = sta_inv s4"
    by (rule sta_coreD) (simp add: s5(2))
  then show ?thesis
    using s2(1) s4 s5(1) unfolding ieee80211_start_ibss_wq_def Let_def s0_def [symmetric] s4_def s3_def by simp
qed


subsection \<open>Starting and stopping\<close>

lemma start_bss_inv:
  assumes "sta_inv sd" and "sd_proto_started sd"
  shows "sta_inv (ieee80211_start_bss sd)"
  using check_all_nets_inv [OF assms] sta_coreD(8) [OF stop_scan_core(2)]
  by (simp add: ieee80211_start_bss_def Let_def)

lemma start_master_inv:
  assumes "sta_inv sd" and "sd_proto_started sd" and "sd_iw_mode sd = IW_MODE_MASTER"
  shows "sta_inv (ieee80211_start_master_bss sd)"
proof -
  have wf: "sta_wf sd" using assms(1) by (simp add: sta_inv_def)
  then have c: "cell_wf (sd_network sd)" "length (sd_dev_addr sd) = 6" by (simp_all add: sta_wf_def)
  define s1 where "s1 = sta_default_essid (sd\<lparr>sd_assoc_id := 1\<rparr>)"
  have s1: "sta_wf s1" "sd_dev_addr s1 = sd_dev_addr sd" "sd_iw_mode s1 = IW_MODE_MASTER" "sd_work s1 = sd_work sd" "sd_proto_started s1"
    using sta_wf_network [OF wf default_essid_wf(2) [OF c(1)]] wf assms
    by (simp_all add: s1_def sta_default_essid_def)
      (simp add: sta_wf_def)
  have "cell_wf (sd_network s1)" using s1(1) by (simp add: sta_wf_def)
  from cell_wf_bssid [OF this, of "sd_dev_addr s1"] s1(2) c(2) have "sta_wf (s1\<lparr>sd_network := (sd_network s1)\<lparr>nw_bssid := sd_dev_addr s1\<rparr>\<rparr>)"
    using s1(1) by (simp add: sta_wf_network)
  then show ?thesis
    using s1 assms(1) unfolding ieee80211_start_master_bss_def Let_def s1_def [symmetric] notify_wx_assoc_event_def sta_inv_def
    by (simp add: sta_live_def assms(3))
qed

lemma start_mode_inv:
  assumes "sta_inv sd" and "sd_proto_started sd"
  shows "sta_inv (start_mode sd)"
proof -
  have "sta_inv (ieee80211_start_ibss sd)" if "sd_iw_mode sd = IW_MODE_ADHOC"
    using that assms by (simp add: ieee80211_start_ibss_def sta_inv_def) (simp add: sta_live_def)
  moreover have "sta_inv (ieee80211_start_monitor_mode sd)"
    using sta_coreD(8) [of "ieee80211_start_monitor_mode sd" sd] assms(1) by (simp add: ieee80211_start_monitor_mode_def)
  ultimately show ?thesis using start_bss_inv [OF assms] start_master_inv [OF assms] assms(1) by (simp add: start_mode_def)
qed

lemma start_with_channel_inv:
  assumes "sta_inv sd" and "sd_proto_started sd"
  shows "sta_inv (start_with_channel sd)"
proof -
  define n where "n = (let net = sd_network sd in if nw_beacon_interval net = 0 then net\<lparr>nw_beacon_interval := 100\<rparr> else net)"
  define s where "s = sta_put Reset_Rx_Seq (sta_put (Set_Chan (nw_channel n)) (sd\<lparr>sd_network := n\<rparr>))"
  have "cell_wf n" using assms(1) by (simp add: n_def sta_inv_def sta_wf_def Let_def)
  then have "sta_wf s" using assms(1) by (simp add: s_def sta_wf_network sta_inv_def)
  then have "sta_inv s" by (rule sta_inv_same [OF assms(1)]) (simp_all add: s_def)
  from start_mode_inv [OF this] assms(2) show ?thesis
    unfolding start_with_channel_def Let_def s_def n_def by simp
qed

lemma start_protocol_inv:
  assumes "sta_inv sd"
  shows "sta_inv (ieee80211_start_protocol sd)"
proof (cases "sd_proto_started sd")
  case False
  let ?s = "sd\<lparr>sd_proto_started := True\<rparr>"
  have up: "sta_inv ?s" using assms False by (auto simp: sta_inv_def sta_live_def)
  have "sta_inv (?s\<lparr>sd_network := (sd_network ?s)\<lparr>nw_channel := c\<rparr>\<rparr>)" for c
    using up by (intro sta_inv_same [OF up]) (simp_all add: sta_wf_network sta_inv_def sta_wf_def)
  from start_with_channel_inv [OF this] start_with_channel_inv [OF up] up show ?thesis
    using False unfolding ieee80211_start_protocol_def Let_def by (auto split: option.split)
qed (use assms in \<open>simp add: ieee80211_start_protocol_def\<close>)

lemma disassociate_inv: "sta_inv sd \<Longrightarrow> sta_inv (ieee80211_disassociate sd)"
  by (simp add: ieee80211_disassociate_def notify_wx_assoc_event_def Let_def sta_inv_def) (auto simp: sta_live_def)

text \<open>
  The work that starts an association is the one thing that stopping does not take back.
\<close>

lemma stop_protocol_inv:
  assumes inv: "sta_inv sd" and quiet: "\<not> wk_associate_procedure (sd_work sd)"
  shows "sta_inv (ieee80211_stop_protocol sd) \<and> \<not> wk_associate_procedure (sd_work (ieee80211_stop_protocol sd)) \<and>
    sd_iw_mode (ieee80211_stop_protocol sd) = sd_iw_mode sd \<and> (sd_proto_started sd \<longrightarrow> sd_state (ieee80211_stop_protocol sd) = NOLINK) \<and>
    \<not> sd_proto_started (ieee80211_stop_protocol sd)"
proof (cases "sd_proto_started sd")
  case True
  define s where "s = sta_queue (\<lambda>w. w\<lparr>wk_associate_timer := False, wk_associate_retry := False, wk_start_ibss := False\<rparr>)
    (ieee80211_stop_send_beacons (sd\<lparr>sd_proto_started := False\<rparr>))"
  have w: "sta_wf s" "sd_iw_mode s = sd_iw_mode sd" "\<not> sd_proto_started s" "\<not> wk_associate_procedure (sd_work s)"
    "\<not> wk_associate_timer (sd_work s)" "\<not> wk_associate_retry (sd_work s)" "\<not> wk_start_ibss (sd_work s)"
    using inv quiet by (simp_all add: s_def ieee80211_stop_send_beacons_def sta_inv_def)
  let ?t = "ieee80211_stop_scan s"
  have c: "sta_core ?t = sta_core s" by simp
  note d = sta_coreD [OF c]
  have cw: "cell_wf (sd_network ?t)" using d w by (simp add: sta_wf_def)
  have wf: "sta_wf ((ieee80211_disassociate ?t)\<lparr>sd_network := (sd_network (ieee80211_disassociate ?t))\<lparr>nw_bssid := replicate 6 0x22\<rparr>\<rparr>)"
    using w d cell_wf_bssid [OF cw, of "replicate 6 0x22"]
    by (intro sta_wf_network) (simp_all add: ieee80211_disassociate_def notify_wx_assoc_event_def Let_def)
  show ?thesis
    using True w d wf unfolding ieee80211_stop_protocol_def Let_def s_def [symmetric] sta_inv_def
    by (simp add: sta_live_def ieee80211_disassociate_def notify_wx_assoc_event_def Let_def)
qed (use assms in \<open>simp add: ieee80211_stop_protocol_def\<close>)

subsection \<open>Requests of the user\<close>

lemma beacons_restart_inv:
  assumes "sta_inv sd"
  shows "\<exists>sd'. ieee80211_start_send_beacons al sd = Some sd' \<and> sta_core sd' = sta_core sd" and "sta_core (ieee80211_stop_send_beacons sd) = sta_core sd"
proof -
  have c: "sta_core (sd\<lparr>sd_beacon_txing := True\<rparr>) = sta_core sd" by (simp add: sta_core_def)
  have "sta_wf (sd\<lparr>sd_beacon_txing := True\<rparr>)" using assms by (simp add: sta_inv_def)
  from send_beacon_ok [OF this, of al] c show "\<exists>sd'. ieee80211_start_send_beacons al sd = Some sd' \<and> sta_core sd' = sta_core sd"
    by (auto simp: ieee80211_start_send_beacons_def)
  show "sta_core (ieee80211_stop_send_beacons sd) = sta_core sd"
    by (simp add: ieee80211_stop_send_beacons_def sta_core_def sta_queue_def)
qed

lemma set_freq_inv:
  assumes inv: "sta_inv sd"
  shows "\<exists>r sd'. ieee80211_wx_set_freq al m e sd = Some (r, sd') \<and> sta_inv sd'"
proof -
  obtain m' e' where me: "set_freq_channel m e = (m', e')" by (cases "set_freq_channel m e")
  define s where "s = sta_put (Set_Chan (word_of_int m')) (sd\<lparr>sd_network := (sd_network sd)\<lparr>nw_channel := word_of_int m'\<rparr>\<rparr>)"
  have "sta_wf (sd\<lparr>sd_network := (sd_network sd)\<lparr>nw_channel := word_of_int m'\<rparr>\<rparr>)" using inv by (simp add: sta_inv_def sta_wf_def)
  then have "sta_wf s" by (simp add: s_def)
  then have s: "sta_inv s" by (rule sta_inv_same [OF inv]) (simp_all add: s_def)
  have t: "sta_inv (ieee80211_stop_send_beacons s)" using sta_coreD(8) [OF beacons_restart_inv(2) [OF s]] s by blast
  from beacons_restart_inv(1) [OF t, of al] obtain u where u: "ieee80211_start_send_beacons al (ieee80211_stop_send_beacons s) = Some u" "sta_inv u"
    using t sta_coreD(8) by blast
  show ?thesis
    using inv s u unfolding ieee80211_wx_set_freq_def me Let_def by (simp add: s_def)
qed

lemma stop_start_inv:
  assumes inv: "sta_inv sd" and quiet: "\<not> wk_associate_procedure (sd_work sd)" and wf: "\<And>s. sta_wf s \<Longrightarrow> sta_wf (f s)"
    and same: "\<And>s. sd_state (f s) = sd_state s \<and> sd_proto_started (f s) = sd_proto_started s \<and> sd_work (f s) = sd_work s"
  shows "sta_inv (if sd_proto_started sd then ieee80211_start_protocol (f (ieee80211_stop_protocol sd)) else f sd)"
proof -
  have f: "sta_inv (f s)" if "sta_inv s" "\<not> sd_proto_started s" for s
    using that wf [of s] same [of s] unfolding sta_inv_def sta_live_def by (simp only: simp_thms if_False)
  show ?thesis
    using start_protocol_inv [OF f] f [OF inv] stop_protocol_inv [OF inv quiet] by (cases "sd_proto_started sd") simp_all
qed

lemma hurry_inv: "sta_inv sd \<Longrightarrow> sta_inv (sd\<lparr>sd_sync_scan_hurryup := b\<rparr>)"
  by (rule sta_inv_same) (simp_all add: sta_inv_def)

lemma set_wap_inv:
  assumes inv: "sta_inv sd" and quiet: "\<not> wk_associate_procedure (sd_work sd)" and addr: "length addr = 6"
  shows "sta_inv (snd (ieee80211_wx_set_wap ether addr sd))"
proof -
  note i = hurry_inv [OF inv, of True]
  have "sta_wf (wap_written addr s)" if "sta_wf s" for s
    using sta_wf_network [OF that cell_wf_bssid [OF _ addr]] that by (simp add: wap_written_def sta_wf_def)
  from stop_start_inv [OF i, where f = "wap_written addr", OF _ this] quiet i show ?thesis
    unfolding ieee80211_wx_set_wap_def Let_def by (simp add: wap_written_def split: if_split_asm)
qed

lemma essid_written_wf:
  assumes wf: "sta_wf sd" and l: "length extra \<le> 32"
  shows "sta_wf (essid_written on extra sd)"
proof -
  let ?net = "sd_network sd"
  have c: "cell_wf ?net" "length (nw_ssid ?net) = 33" "unat (nw_ssid_len ?net) \<le> 32"
    using wf by (simp_all add: sta_wf_def cell_wf_def network_wf_def network_arrays_def network_lengths_def word_le_nat_alt)
  have len: "(word_of_nat (length extra) :: u8) \<le> 32"
    using l by (simp add: word_le_nat_alt unat_of_nat)
  have "length (str_ncopy (length extra) extra (replicate (unat (nw_ssid_len ?net)) 0 @ drop (unat (nw_ssid_len ?net)) (nw_ssid ?net))) = 33"
    using c l by (subst length_str_ncopy) simp_all
  from cell_wf_ssid [OF c(1) this len] cell_wf_ssid [OF c(1), of "(nw_ssid ?net)[0 := 0]" 0] c show ?thesis
    using wf sta_wf_network [OF wf] unfolding essid_written_def Let_def by (simp add: sta_wf_def)
qed

lemma set_essid_inv:
  assumes inv: "sta_inv sd" and quiet: "\<not> wk_associate_procedure (sd_work sd)"
  shows "sta_inv (snd (ieee80211_wx_set_essid on extra sd))"
proof (cases "length extra \<le> 32")
  case True
  note i = hurry_inv [OF inv, of True]
  have same: "sd_state (essid_written on extra s) = sd_state s \<and> sd_proto_started (essid_written on extra s) = sd_proto_started s \<and>
    sd_work (essid_written on extra s) = sd_work s" for s by (simp add: essid_written_def Let_def)
  from stop_start_inv [OF i _ essid_written_wf [OF _ True] same] quiet i show ?thesis
    unfolding ieee80211_wx_set_essid_def Let_def by (simp split: if_split_asm)
qed (use hurry_inv [OF inv] in \<open>simp add: ieee80211_wx_set_essid_def Let_def\<close>)

lemma set_mode_inv:
  assumes inv: "sta_inv sd" and quiet: "\<not> wk_associate_procedure (sd_work sd)"
  shows "sta_inv (ieee80211_wx_set_mode mode sd)"
proof -
  note i = hurry_inv [OF inv, of True]
  from stop_start_inv [OF i, where f = "\<lambda>s. s\<lparr>sd_iw_mode := mode\<rparr>"] quiet i show ?thesis
    unfolding ieee80211_wx_set_mode_def Let_def by (simp split: if_split_asm)
qed


lemma set_scan_inv: "sta_inv sd \<Longrightarrow> sta_inv (snd (ieee80211_wx_set_scan sd))"
  by (auto simp: ieee80211_wx_set_scan_def sta_inv_def) (simp_all add: sta_live_def)

lemma set_rawtx_inv: "sta_inv sd \<Longrightarrow> sta_inv (ieee80211_wx_set_rawtx parm sd)"
proof -
  have "sta_core (sd\<lparr>sd_raw_tx := b\<rparr>) = sta_core sd" for b by (simp add: sta_core_def)
  then have "sta_core (ieee80211_wx_set_rawtx parm sd) = sta_core sd" by (simp add: ieee80211_wx_set_rawtx_def Let_def)
  then show "sta_inv sd \<Longrightarrow> ?thesis" by (rule sta_coreD(8) [THEN iffD2])
qed

lemma set_power_inv: "sta_inv sd \<Longrightarrow> sta_inv (snd (ieee80211_wx_set_power disabled flags val sd))"
proof -
  have c: "sta_core (sd\<lparr>sd_ps := a\<rparr>) = sta_core sd" "sta_core (sd\<lparr>sd_ps := a, sd_ps_timeout := t\<rparr>) = sta_core sd" for a t
    by (simp_all add: sta_core_def)
  have "sta_core (snd (ieee80211_wx_set_power disabled flags val sd)) = sta_core sd"
    unfolding ieee80211_wx_set_power_def Let_def by (simp add: c)
  then show "sta_inv sd \<Longrightarrow> ?thesis" by (rule sta_coreD(8) [THEN iffD2])
qed

lemma sync_scan_inv:
  assumes m: "meanwhile_ok meanwhile" and inv: "sta_inv sd" and up: "sd_proto_started sd"
  shows "\<exists>sd'. ieee80211_wx_sync_scan_wq al meanwhile sd = Some sd' \<and> sta_inv sd'"
proof -
  let ?s0 = "sta_put Data_Hard_Stop (sta_put (Carrier False) sd)"
  have c0: "sta_core (ieee80211_stop_send_beacons ?s0) = sta_core sd" by (simp add: ieee80211_stop_send_beacons_def sta_core_def sta_queue_def sta_put_def)
  define s1 where "s1 = sta_put Link_Change ((ieee80211_stop_send_beacons ?s0)\<lparr>sd_state := LINKED_SCANNING\<rparr>)"
  have i1: "sta_inv s1" "sd_proto_started s1" "sd_iw_mode s1 = sd_iw_mode sd"
    using inv up sta_coreD [OF c0] unfolding s1_def sta_inv_def by (auto simp: sta_live_def)
  from start_scan_syncro_inv [OF m i1(1,2), of al] obtain s2
    where s2: "ieee80211_start_scan_syncro al meanwhile s1 = Some s2" "sta_inv s2" "sd_proto_started s2" by blast
  define s3 where "s3 = sta_put Data_Hard_Resume (sta_put Link_Change ((sta_put (Set_Chan (nw_channel (sd_network sd))) s2)\<lparr>sd_state := LINKED\<rparr>))"
  have i3: "sta_inv s3" using s2 unfolding s3_def sta_inv_def by (auto simp: sta_live_def)
  from beacons_restart_inv(1) [OF i3, of al] obtain s4 where s4: "ieee80211_start_send_beacons al s3 = Some s4" "sta_core s4 = sta_core s3" by blast
  have "sta_inv (sta_put (Carrier True) s4)" "sta_inv (sta_put (Carrier True) s3)"
    using i3 sta_coreD(8) [OF s4(2)] sta_coreD(8) [OF sta_put_simps(1)] by blast+
  then show ?thesis
    using s2(1) s4(1) unfolding ieee80211_wx_sync_scan_wq_def Let_def s1_def [symmetric] by (simp add: s3_def)
qed

subsection \<open>Received frames\<close>

text \<open>
  The buffer of a received frame reaches far enough behind it, and the station's own name ends with a zero
  byte: the parsers look a little past what they check.
\<close>

definition frame_ok :: "sk_buff \<Rightarrow> station \<Rightarrow> bool" where
  "frame_ok skb sd \<longleftrightarrow> 24 \<le> skb_len skb \<and> 288 \<le> skb_tailroom skb \<and> 0 \<in> set (nw_ssid (sd_network sd))"

lemma probe_loop_pos: "probe_rq_loop n skb tag = Some (pos, l) \<Longrightarrow> pos \<le> skb_len skb"
  by (induction n skb tag rule: probe_rq_loop.induct) (auto simp: Let_def split: if_split_asm)

lemma strncmp_mem_Some: "\<lbrakk>0 \<in> set b; length b \<le> length a\<rbrakk> \<Longrightarrow> \<exists>r. strncmp_mem n a b = Some r"
  by (induction n a b rule: strncmp_mem.induct) auto

lemma auth_parse_Some: "frame_ok skb sd \<Longrightarrow> \<exists>r. auth_parse skb = Some r"
proof -
  assume f: "frame_ok skb sd"
  have pk: "\<exists>b. skb_peek off n skb = Some b \<and> length b = n" if "off + n \<le> skb_len skb + 288" for off n
    by (rule skb_peek_Some) (use that f in \<open>simp add: frame_ok_def\<close>)
  have u: "unat (l :: u8) < 256" for l using unsigned_less [of l, where ?'a = nat] by simp
  show ?thesis
  proof (cases "skb_len skb < AUTH_SIZE - 2")
    case False
    then have big: "28 \<le> skb_len skb" by simp
    obtain st where st: "skb_peek 28 2 skb = Some st" using pk [of 28 2] big by auto
    obtain t where t: "skb_peek AUTH_SIZE 1 skb = Some t" using pk [of 30 1] big by auto
    obtain l where l: "skb_peek (AUTH_SIZE + 1) 1 skb = Some l" using pk [of 31 1] big by auto
    obtain c where c: "skb_peek (AUTH_SIZE + 2) (unat (l ! 0)) skb = Some c"
      using pk [of 32 "unat (l ! 0)"] big u [of "l ! 0"] by auto
    show ?thesis using False st t l c by (simp add: auth_parse_def)
  qed (simp add: auth_parse_def)
qed

lemma peek_in_frame: "off + n \<le> skb_len skb \<Longrightarrow> \<exists>b. skb_peek off n skb = Some b \<and> length b = n"
  using skb_peek_Some [of off n skb] by auto

lemma probe_rq_parse_Some: "\<lbrakk>frame_ok skb sd; sta_wf sd\<rbrakk> \<Longrightarrow> \<exists>r d. probe_rq_parse sd skb = Some (r, d) \<and> (r \<noteq> - 1 \<longrightarrow> length d = 6) \<and> (r = - 1 \<longrightarrow> False)"
proof -
  assume f: "frame_ok skb sd" and wf: "sta_wf sd"
  have big: "24 \<le> skb_len skb" "288 \<le> length (skb_room skb)" using f by (simp_all add: frame_ok_def skb_tailroom_def)
  obtain src where src: "skb_peek 10 6 skb = Some src" "length src = 6" using peek_in_frame [of 10 6 skb] big by auto
  have ssid: "length (nw_ssid (sd_network sd)) = 33" "0 \<in> set (nw_ssid (sd_network sd))"
    using f wf by (simp_all add: frame_ok_def sta_wf_def cell_wf_def network_wf_def network_arrays_def)
  show ?thesis
  proof (cases "probe_rq_loop (skb_len skb) skb 24")
    case (Some p)
    obtain pos l where p: "p = (pos, l)" by (cases p)
    have "pos \<le> skb_len skb" using probe_loop_pos [of _ skb 24 pos l] Some p by blast
    then have "33 \<le> length (drop pos (skb_data skb @ skb_room skb))" using big by (simp add: skb_len_def)
    then obtain r where "strncmp_mem (unat l) (drop pos (skb_data skb @ skb_room skb)) (nw_ssid (sd_network sd)) = Some r"
      using strncmp_mem_Some [OF ssid(2)] ssid(1) by fastforce
    then show ?thesis using big src Some p by (auto simp: probe_rq_parse_def)
  qed (use big src in \<open>simp add: probe_rq_parse_def\<close>)
qed

lemma resp_xmit_inv:
  assumes "sta_inv sd" and "sta_core s = sta_core sd"
  shows "\<exists>sd'. sta_mgmt_xmit skb s = Some sd' \<and> sta_inv sd'"
proof -
  have "sta_wf s" using assms(1) sta_coreD(6) [OF assms(2)] by (simp add: sta_inv_def)
  from mgmt_xmit_ok [OF this, of skb] obtain sd' where x: "sta_mgmt_xmit skb s = Some sd'" "sta_core sd' = sta_core s" by blast
  then have "sta_core sd' = sta_core sd" using assms(2) by simp
  from sta_coreD(8) [OF this] x(1) assms(1) show ?thesis by blast
qed

lemma rx_probe_inv:
  assumes inv: "sta_inv sd" and f: "frame_ok skb sd"
  shows "\<exists>sd'. ieee80211_rx_probe_rq al skb sd = Some sd' \<and> sta_inv sd'"
proof -
  let ?s = "sta_stat (ss_rx_probe_rq_update (\<lambda>n. n + 1)) sd"
  let ?t = "sta_stat (ss_tx_probe_rs_update (\<lambda>n. n + 1)) ?s"
  have wf: "sta_wf sd" "sta_wf ?s" "sta_wf ?t" using inv by (simp_all add: sta_inv_def)
  have "frame_ok skb ?s" using f by (simp add: frame_ok_def)
  from probe_rq_parse_Some [OF this wf(2)] obtain r d where p: "probe_rq_parse ?s skb = Some (r, d)" "length d = 6" by auto
  from probe_resp_frame [OF sta_wf_addrs [OF wf(3)] p(2) probe_wpa_none [OF sta_wf_no_ie [OF wf(3)]]]
  obtain b where b: "ieee80211_probe_resp d ?t = Some (b, ?t\<lparr>sd_wpa_ie := []\<rparr>)" by auto
  have "sta_core (?t\<lparr>sd_wpa_ie := []\<rparr>) = sta_core sd" using wf(1) by (simp add: sta_core_def sta_stat_def sta_wf_no_ie)
  from resp_xmit_inv [OF inv this, of b] obtain u where "sta_mgmt_xmit b (?t\<lparr>sd_wpa_ie := []\<rparr>) = Some u" "sta_inv u" by blast
  moreover have "sta_inv ?s" "sta_inv ?t" using inv sta_coreD(8) [OF sta_put_simps(2)] by blast+
  ultimately show ?thesis using p b by (auto simp: ieee80211_rx_probe_rq_def ieee80211_resp_to_probe_def Let_def)
qed

lemma rx_auth_rq_inv:
  assumes inv: "sta_inv sd" and f: "frame_ok skb sd"
  shows "\<exists>sd'. ieee80211_rx_auth_rq al skb sd = Some sd' \<and> sta_inv sd'"
proof -
  let ?s = "sta_stat (ss_rx_auth_rq_update (\<lambda>n. n + 1)) sd"
  have i: "sta_inv ?s" using inv sta_coreD(8) [OF sta_put_simps(2)] by blast
  show ?thesis
  proof (cases "skb_len skb < AUTH_SIZE - 2")
    case False
    obtain src where src: "skb_peek 10 6 skb = Some src" "length src = 6" using peek_in_frame [of 10 6 skb] False by auto
    obtain alg where alg: "skb_peek 24 2 skb = Some alg" using peek_in_frame [of 24 2 skb] False by auto
    have "length (sd_dev_addr ?s) = 6" using i by (simp add: sta_inv_def sta_wf_def)
    from auth_resp_eq [OF src(2) this] obtain b where "\<And>st. \<exists>b. ieee80211_auth_resp st src ?s = Some b" by blast
    then obtain b where b: "ieee80211_auth_resp (if get_le16 (alg ! 0) (alg ! 1) \<noteq> 0 then 13 else 0) src ?s = Some b" by blast
    from resp_xmit_inv [OF inv sta_put_simps(2), of b] show ?thesis
      using False src alg b i unfolding ieee80211_rx_auth_rq_def auth_rq_parse_def Let_def ieee80211_resp_to_auth_def by auto
  qed (use i in \<open>simp add: ieee80211_rx_auth_rq_def auth_rq_parse_def\<close>)
qed

lemma rx_assoc_rq_inv:
  assumes inv: "sta_inv sd"
  shows "\<exists>sd'. ieee80211_rx_assoc_rq al skb sd = Some sd' \<and> sta_inv sd'"
proof -
  let ?s = "sta_stat (ss_rx_ass_rq_update (\<lambda>n. n + 1)) sd"
  have i: "sta_inv ?s" using inv sta_coreD(8) [OF sta_put_simps(2)] by blast
  show ?thesis
  proof (cases "skb_len skb < ASSOC_REQUEST_SIZE - 2")
    case False
    obtain src where src: "skb_peek 10 6 skb = Some src" "length src = 6" using peek_in_frame [of 10 6 skb] False by auto
    have "length (sd_dev_addr ?s) = 6" using i by (simp add: sta_inv_def sta_wf_def)
    from assoc_resp_eq [OF src(2) this] obtain b a where b: "ieee80211_assoc_resp src ?s = Some (b, ?s\<lparr>sd_assoc_id := a\<rparr>)" by blast
    have "sta_core (?s\<lparr>sd_assoc_id := a\<rparr>) = sta_core sd" by (simp add: sta_core_def sta_stat_def)
    from resp_xmit_inv [OF inv this, of b] show ?thesis
      using False src b i by (auto simp: ieee80211_rx_assoc_rq_def assoc_rq_parse_def ieee80211_resp_to_assoc_rq_def Let_def)
  qed (use i in \<open>simp add: ieee80211_rx_assoc_rq_def assoc_rq_parse_def\<close>)
qed


lemma rx_auth_inv:
  assumes inv: "sta_inv sd" and up: "sd_proto_started sd" and f: "frame_ok skb sd" and seal: "\<forall>f. \<exists>g. seal f = Some g"
  shows "\<exists>sd'. rx_auth seal al skb sd = Some sd' \<and> sta_inv sd'"
proof (cases "sd_state sd = ASSOCIATING_AUTHENTICATING \<and> sd_iw_mode sd = IW_MODE_INFRA")
  case True
  then have m: "sta_managed sd" "sta_wf sd" using sta_managedI [OF inv up] by auto
  obtain e c where p: "auth_parse skb = Some (e, c)" using auth_parse_Some [OF f] by auto
  let ?ok = "sta_stat (ss_rx_auth_rs_ok_update (\<lambda>n. n + 1)) (sd\<lparr>sd_state := ASSOCIATING_AUTHENTICATED\<rparr>)"
  let ?bad = "sta_stat (ss_rx_auth_rs_err_update (\<lambda>n. n + 1)) sd"
  have "sta_managed ?ok" "sta_wf ?ok" "sta_managed ?bad" "sta_wf ?bad" using m by (simp_all add: sta_managed_def)
  note r = step2_inv [OF this(1,2), of al] abort_inv [OF this(3,4)]
  show ?thesis
    using True p r(1) r(2) auth_challenge_inv [OF m _ seal, of al]
    by (cases "e = 0"; cases c; cases "sd_open_wep sd") (simp_all add: rx_auth_def)
next
  case False
  then show ?thesis using rx_auth_rq_inv [OF inv f] inv by (auto simp: rx_auth_def)
qed

lemma rx_assoc_resp_inv:
  assumes inv: "sta_inv sd" and up: "sd_proto_started sd"
  shows "\<exists>sd'. rx_assoc_resp skb sd = Some sd' \<and> sta_inv sd'"
proof (cases "sd_state sd = ASSOCIATING_AUTHENTICATED \<and> sd_iw_mode sd = IW_MODE_INFRA")
  case True
  then have m: "sta_managed sd" "sta_wf sd" using sta_managedI [OF inv up] by auto
  have "\<exists>e aid. assoc_parse skb = Some (e, aid)"
  proof (cases "skb_len skb < ASSOC_RESPONSE_SIZE")
    case False
    then show ?thesis using peek_in_frame [of 26 2 skb] peek_in_frame [of 28 2 skb] by (auto simp: assoc_parse_def)
  qed (simp add: assoc_parse_def)
  then obtain e aid where p: "assoc_parse skb = Some (e, aid)" by blast
  let ?ok = "sta_stat (ss_rx_ass_ok_update (\<lambda>n. n + 1)) (sd\<lparr>sd_state := LINKED, sd_assoc_id := aid\<rparr>)"
  let ?bad = "sta_stat (ss_rx_ass_err_update (\<lambda>n. n + 1)) sd"
  have "sta_managed ?ok" "sta_wf ?ok" "sta_managed ?bad" "sta_wf ?bad" using m by (simp_all add: sta_managed_def)
  from complete_inv [OF this(1,2)] abort_inv [OF this(3,4)] show ?thesis
    using True p by (simp add: rx_assoc_resp_def)
qed (use inv in \<open>auto simp: rx_assoc_resp_def\<close>)

lemma rx_disassoc_inv:
  assumes inv: "sta_inv sd" and up: "sd_proto_started sd"
  shows "sta_inv (rx_disassoc sd)"
proof (cases "sd_state sd = LINKED \<and> sd_iw_mode sd = IW_MODE_INFRA")
  case True
  then have m: "sta_managed sd" "sta_wf sd" using sta_managedI [OF inv up] by auto
  show ?thesis
    by (rule sta_managed_inv) (use True m in \<open>auto simp: rx_disassoc_def notify_wx_assoc_event_def sta_managed_def\<close>)
qed (use inv in \<open>auto simp: rx_disassoc_def\<close>)

lemma rx_frame_inv:
  assumes inv: "sta_inv sd" and f: "frame_ok skb sd" and seal: "\<forall>f. \<exists>g. seal f = Some g"
  shows "\<exists>r sd'. ieee80211_rx_frame_softmac seal jiffies al skb sd = Some (r, sd') \<and> sta_inv sd'"
proof (cases "sd_proto_started sd")
  case True
  obtain fc where fc: "hdr_frame_ctl (skb_data skb) = Some fc"
    using hdr_fields_Some(1) [of "skb_data skb"] f by (auto simp: frame_ok_def skb_len_def)
  define s1 where "s1 = (if sd_sta_sleep sd \<noteq> 0 \<or> (sd_ps sd \<noteq> 0 \<and> sd_iw_mode sd = IW_MODE_INFRA \<and> sd_state sd = LINKED)
    then sta_queue (wk_ps_task_update (\<lambda>_. True)) sd else sd)"
  define s2 where "s2 = (if WLAN_FC_GET_STYPE fc \<noteq> 0x0050 \<and> WLAN_FC_GET_STYPE fc \<noteq> 0x0080 then s1\<lparr>sd_last_rx_ps_time := jiffies\<rparr> else s1)"
  have c: "sta_core s2 = sta_core sd" by (simp add: s2_def s1_def sta_core_def sta_queue_def)
  have i: "sta_inv s2" and up: "sd_proto_started s2" and f2: "frame_ok skb s2"
    using sta_coreD [OF c] inv True f by (simp_all add: frame_ok_def)
  note all = rx_assoc_resp_inv [OF i up, of skb] rx_assoc_rq_inv [OF i, of al skb] rx_auth_inv [where al = al, OF i up f2 seal]
    rx_probe_inv [OF i f2, of al] rx_disassoc_inv [OF i up] i
  show ?thesis
    using True all unfolding ieee80211_rx_frame_softmac_def fc Option.bind.bind_lunit Let_def s1_def [symmetric] s2_def [symmetric]
    by auto
qed (use inv in \<open>simp add: ieee80211_rx_frame_softmac_def\<close>)

lemma rx_mgt_inv:
  assumes inv: "sta_inv sd" and up: "sd_proto_started sd" and stack: "network_arrays stack"
    and len: "36 \<le> unat (rs_len stats)" "unat (rs_len stats) < length beacon"
  shows "\<exists>sd'. sta_rx_mgt j stack beacon stats sd = Some sd' \<and> sta_inv sd'"
proof -
  have wf: "sta_wf sd" using inv by (simp add: sta_inv_def)
  have "nets_wf (sta_table sd)" using wf by (simp add: nets_wf_def sta_table_def sta_wf_def)
  from rx_mgt_cells [OF this stack len, of j] obtain bt r
    where r: "ieee80211_rx_mgt j stack beacon stats (sta_table sd) = Some (bt, r)" "nets_wf bt" "\<forall>m. r = Some m \<longrightarrow> cell_wf m" by blast
  let ?s = "sd\<lparr>sd_nets := bt_list bt, sd_net_free := bt_free bt, sd_network := bt_current bt\<rparr>"
  have "sta_wf ?s" using wf r(2) by (simp add: sta_wf_def nets_wf_def)
  then have i: "sta_inv ?s" by (rule sta_inv_same [OF inv]) simp_all
  have "sd_proto_started ?s" using up by simp
  with new_net_inv(1) [OF i this] r i show ?thesis
    by (cases r) (simp_all add: sta_rx_mgt_def)
qed

section \<open>Power saving\<close>

text \<open>The tasklet of power saving.\<close>

definition sta_link where
  "sta_link sd = (sd_state sd, sd_iw_mode sd, sd_proto_started sd, wk_associate_procedure (sd_work sd), wk_associate_timer (sd_work sd),
     wk_associate_retry (sd_work sd), wk_start_ibss (sd_work sd))"

lemma sta_link_inv: "\<lbrakk>sta_inv sd; sta_link sd' = sta_link sd; sta_wf sd'\<rbrakk> \<Longrightarrow> sta_inv sd'"
  by (rule sta_inv_same [of sd]) (simp_all add: sta_link_def)

lemma sta_core_link: "sta_core a = sta_core b \<Longrightarrow> sta_link a = sta_link b \<and> sta_wf a = sta_wf b"
  by (simp add: sta_core_def sta_link_def sta_wf_def)

lemma ps_sleep_ok:
  assumes "sta_wf sd"
  shows "sta_wf (snd (ieee80211_sta_ps_sleep msecs env sd)) \<and> sta_link (snd (ieee80211_sta_ps_sleep msecs env sd)) = sta_link sd"
proof -
  have "cell_wf (sd_network sd\<lparr>nw_dtim_data := 0\<rparr>)"
    using assms by (simp add: sta_wf_def cell_wf_def network_wf_def network_arrays_def network_lengths_def)
  then show ?thesis using assms by (simp add: ieee80211_sta_ps_sleep_def Let_def sta_link_def) (simp add: sta_wf_def)
qed

lemma null_frame_link:
  assumes "sta_wf sd"
  shows "\<exists>sd'. ieee80211_sta_ps_send_null_frame al pwr sd = Some sd' \<and> sta_link sd' = sta_link sd \<and> sta_wf sd'"
proof -
  obtain sd' where "ieee80211_sta_ps_send_null_frame al pwr sd = Some sd'" "sta_core sd' = sta_core sd" using null_frame_ok [OF assms] by blast
  with sta_core_link [of sd' sd] assms show ?thesis by simp
qed

lemma wakeup_link:
  assumes "sta_wf sd"
  shows "\<exists>sd'. ieee80211_sta_wakeup al nl sd = Some sd' \<and> sta_link sd' = sta_link sd \<and> sta_wf sd'"
proof -
  obtain sd' where "ieee80211_sta_wakeup al nl sd = Some sd'" "sta_core sd' = sta_core sd" using sta_wakeup_ok [OF assms] by blast
  with sta_core_link [of sd' sd] assms show ?thesis by simp
qed

lemma ps_tx_ack_inv:
  assumes "sta_wf sd"
  shows "\<exists>sd'. ieee80211_ps_tx_ack smp False al success sd = Some sd' \<and> sta_link sd' = sta_link sd \<and> sta_wf sd'"
proof (cases "sd_sta_sleep sd = 2")
  case True
  then show ?thesis using assms by (simp add: ieee80211_ps_tx_ack_def) (simp add: sta_link_def)
next
  case False
  then show ?thesis using null_frame_link [OF assms, of al False] assms by (simp add: ieee80211_ps_tx_ack_def)
qed

lemma sta_ps_ok:
  assumes wf: "sta_wf sd"
  shows "\<exists>sd'. ieee80211_sta_ps False msecs al env sd = Some sd' \<and> sta_link sd' = sta_link sd \<and> sta_wf sd'"
proof -
  let ?up = "sd_ps sd = 0 \<or> sd_iw_mode sd \<noteq> IW_MODE_INFRA \<or> sd_state sd \<noteq> LINKED"
  obtain u where u: "(if ?up then ieee80211_sta_wakeup al True sd else Some sd) = Some u" "sta_link u = sta_link sd" "sta_wf u"
    using wakeup_link [OF wf, of al True] wf by (cases ?up) auto
  define e where "e = (if ?up \<and> al then env\<lparr>pe_trans_start := pe_jiffies env\<rparr> else env)"
  obtain n s where ns: "ieee80211_sta_ps_sleep msecs e u = (n, s)" by fastforce
  have s: "sta_link s = sta_link sd" "sta_wf s" using ps_sleep_ok [OF u(3), of msecs e] u(2) unfolding ns by simp_all
  let ?t = "s\<lparr>sd_sta_sleep := 2\<rparr>"
  have t: "sta_wf ?t" "sta_link ?t = sta_link sd" using s by (simp_all add: sta_link_def)
  obtain v where v: "ieee80211_sta_ps_send_null_frame al True ?t = Some v" "sta_link v = sta_link sd" "sta_wf v"
    using null_frame_link [OF t(1), of al True] unfolding t(2) by blast
  obtain w where w: "ieee80211_sta_ps_send_null_frame al True v = Some w" "sta_link w = sta_link sd" "sta_wf w"
    using null_frame_link [OF v(3), of al True] unfolding v(2) by blast
  have "ieee80211_ps_tx_ack False True al True w = ieee80211_ps_tx_ack False False al True w" by (simp add: ieee80211_ps_tx_ack_def)
  then obtain x where x: "ieee80211_ps_tx_ack False True al True w = Some x" "sta_link x = sta_link sd" "sta_wf x"
    using ps_tx_ack_inv [OF w(3), of False al True] unfolding w(2) by auto
  obtain y where y: "ieee80211_sta_wakeup al True s = Some y" "sta_link y = sta_link sd" "sta_wf y"
    using wakeup_link [OF s(2), of al True] unfolding s(1) by blast
  have q: "sta_link (sta_queue (wk_hw_sleep_update (\<lambda>_. True)) s) = sta_link sd" using s by (simp add: sta_link_def)
  show ?thesis
    unfolding ieee80211_sta_ps_def Let_def u(1) Option.bind.bind_lunit e_def [symmetric] ns prod.case
    using s v w x y q by simp
qed
section \<open>The station as a transition system\<close>

text \<open>
  Works and timers that fire, what is received, and what the user asks for.  Requests of the user
  are handled one after the other (\<open>wx_sem\<close>).
\<close>

datatype sta_event =
    Scan_Work bool
  | Ibss_Work bytes bool "u8 \<Rightarrow> station \<Rightarrow> station option"
  | Sync_Scan_Work bool "u8 \<Rightarrow> station \<Rightarrow> station option"
  | Retry_Work
  | Complete_Work
  | Procedure_Work bool
  | Assoc_Timer
  | Beacon_Timer bool
  | Rx_Frame u64 bool sk_buff
  | Rx_Beacon u64 ieee80211_network bytes ieee80211_rx_stats
  | Start_Protocol
  | Stop_Protocol
  | User_Disassociate
  | Set_Freq bool int int
  | Set_Wap bool bytes
  | Set_Essid bool bytes
  | Set_Mode iw_mode
  | Set_Scan
  | Set_Rawtx int
  | Set_Power bool u16 int
  | Ps_Task bool "int \<Rightarrow> u64" bool ps_env
  | Ps_Ack bool bool bool

fun sta_step :: "(sk_buff \<Rightarrow> sk_buff option) \<Rightarrow> sta_event \<Rightarrow> station \<Rightarrow> station option" where
  "sta_step seal (Scan_Work al) sd = ieee80211_softmac_scan_wq al (sta_queue (wk_softmac_scan_update (\<lambda>_. False)) sd)"
| "sta_step seal (Ibss_Work rnd al meanwhile) sd = ieee80211_start_ibss_wq rnd al meanwhile (sta_queue (wk_start_ibss_update (\<lambda>_. False)) sd)"
| "sta_step seal (Sync_Scan_Work al meanwhile) sd = ieee80211_wx_sync_scan_wq al meanwhile (sta_queue (wk_wx_sync_scan_update (\<lambda>_. False)) sd)"
| "sta_step seal Retry_Work sd = Some (ieee80211_associate_retry_wq (sta_queue (wk_associate_retry_update (\<lambda>_. False)) sd))"
| "sta_step seal Complete_Work sd = Some (ieee80211_associate_complete_wq (sta_queue (wk_associate_complete_update (\<lambda>_. False)) sd))"
| "sta_step seal (Procedure_Work al) sd = ieee80211_associate_procedure_wq al (sta_queue (wk_associate_procedure_update (\<lambda>_. False)) sd)"
| "sta_step seal Assoc_Timer sd = Some (ieee80211_associate_abort (sta_queue (wk_associate_timer_update (\<lambda>_. False)) sd))"
| "sta_step seal (Beacon_Timer al) sd = ieee80211_send_beacon al (sta_queue (wk_beacon_timer_update (\<lambda>_. False)) sd)"
| "sta_step seal (Rx_Frame jiffies al skb) sd = map_option snd (ieee80211_rx_frame_softmac seal jiffies al skb sd)"
| "sta_step seal (Rx_Beacon jiffies stack beacon stats) sd = sta_rx_mgt jiffies stack beacon stats sd"
| "sta_step seal Start_Protocol sd = Some (ieee80211_softmac_start_protocol sd)"
| "sta_step seal Stop_Protocol sd = Some (ieee80211_softmac_stop_protocol sd)"
| "sta_step seal User_Disassociate sd = Some (ieee80211_disassociate sd)"
| "sta_step seal (Set_Freq al m e) sd = map_option snd (ieee80211_wx_set_freq al m e sd)"
| "sta_step seal (Set_Wap ether addr) sd = Some (snd (ieee80211_wx_set_wap ether addr sd))"
| "sta_step seal (Set_Essid on extra) sd = Some (snd (ieee80211_wx_set_essid on extra sd))"
| "sta_step seal (Set_Mode mode) sd = Some (ieee80211_wx_set_mode mode sd)"
| "sta_step seal Set_Scan sd = Some (snd (ieee80211_wx_set_scan sd))"
| "sta_step seal (Set_Rawtx parm) sd = Some (ieee80211_wx_set_rawtx parm sd)"
| "sta_step seal (Set_Power disabled flags val) sd = Some (snd (ieee80211_wx_set_power disabled flags val sd))"
| "sta_step seal (Ps_Task smp msecs al env) sd = ieee80211_sta_ps smp msecs al env (sta_queue (wk_ps_task_update (\<lambda>_. False)) sd)"
| "sta_step seal (Ps_Ack smp al success) sd = ieee80211_ps_tx_ack smp False al success sd"

text \<open>Works and timers run when they are pending; frames come in while the interface is up.\<close>

fun sta_enabled :: "sta_event \<Rightarrow> station \<Rightarrow> bool" where
  "sta_enabled (Scan_Work al) sd = wk_softmac_scan (sd_work sd)"
| "sta_enabled (Ibss_Work rnd al meanwhile) sd = wk_start_ibss (sd_work sd)"
| "sta_enabled (Sync_Scan_Work al meanwhile) sd = (wk_wx_sync_scan (sd_work sd) \<and> sd_proto_started sd)"
| "sta_enabled Retry_Work sd = wk_associate_retry (sd_work sd)"
| "sta_enabled Complete_Work sd = wk_associate_complete (sd_work sd)"
| "sta_enabled (Procedure_Work al) sd = wk_associate_procedure (sd_work sd)"
| "sta_enabled Assoc_Timer sd = wk_associate_timer (sd_work sd)"
| "sta_enabled (Beacon_Timer al) sd = wk_beacon_timer (sd_work sd)"
| "sta_enabled (Ps_Task smp msecs al env) sd = wk_ps_task (sd_work sd)"
| "sta_enabled (Rx_Beacon jiffies stack beacon stats) sd = sd_proto_started sd"
| "sta_enabled _ sd = True"

text \<open>What the environment must respect: buffers as the driver allocates them, addresses of six bytes, no
  request that stops the protocol while the work that starts an association is still pending, and the tasklet of power saving on
  a machine with one processor only (on others it may hang; it is only ever queued for a station that saves power).\<close>

fun sta_event_ok :: "sta_event \<Rightarrow> station \<Rightarrow> bool" where
  "sta_event_ok (Ibss_Work rnd al meanwhile) sd = (length rnd = 6 \<and> meanwhile_ok meanwhile)"
| "sta_event_ok (Sync_Scan_Work al meanwhile) sd = meanwhile_ok meanwhile"
| "sta_event_ok (Rx_Frame jiffies al skb) sd = frame_ok skb sd"
| "sta_event_ok (Rx_Beacon jiffies stack beacon stats) sd =
     (network_arrays stack \<and> 36 \<le> unat (rs_len stats) \<and> unat (rs_len stats) < length beacon)"
| "sta_event_ok Stop_Protocol sd = (\<not> wk_associate_procedure (sd_work sd))"
| "sta_event_ok (Set_Wap ether addr) sd = (length addr = 6 \<and> \<not> wk_associate_procedure (sd_work sd))"
| "sta_event_ok (Set_Essid on extra) sd = (\<not> wk_associate_procedure (sd_work sd))"
| "sta_event_ok (Set_Mode mode) sd = (\<not> wk_associate_procedure (sd_work sd))"
| "sta_event_ok (Ps_Task smp msecs al env) sd = (\<not> smp)"
| "sta_event_ok _ sd = True"

lemma sta_step_inv:
  assumes inv: "sta_inv sd" and en: "sta_enabled ev sd" and ok: "sta_event_ok ev sd" and seal: "\<forall>f. \<exists>g. seal f = Some g"
  shows "\<exists>sd'. sta_step seal ev sd = Some sd' \<and> sta_inv sd'"
proof -
  have wf: "sta_wf sd" and live: "sta_live sd" using inv by (simp_all add: sta_inv_def)
  have q: "sta_inv (sta_queue (wk_softmac_scan_update (\<lambda>_. False)) sd)" "sta_inv (sta_queue (wk_beacon_timer_update (\<lambda>_. False)) sd)"
    "sta_inv (sta_queue (wk_associate_complete_update (\<lambda>_. False)) sd)" "sta_inv (sta_queue (wk_wx_sync_scan_update (\<lambda>_. False)) sd)"
    by (rule sta_inv_same [OF inv]; simp add: wf)+
  have m: "sta_managed sd" if "wk_associate_procedure (sd_work sd) \<or> wk_associate_timer (sd_work sd) \<or> wk_associate_retry (sd_work sd)"
    using live that by (auto simp: sta_live_def sta_managed_def split: if_split_asm)
  have mq: "sta_managed (sta_queue f sd)" if "sta_managed sd" "wk_start_ibss (f (sd_work sd)) = wk_start_ibss (sd_work sd)" for f
    using that by (simp add: sta_managed_def)
  show ?thesis
  proof (cases ev)
    case (Ibss_Work rnd al meanwhile)
    then have p: "wk_start_ibss (sd_work sd)" using en by simp
    have i: "sta_inv (sta_queue (wk_start_ibss_update (\<lambda>_. False)) sd)" using inv by (auto simp: sta_inv_def sta_live_def)
    have "sd_proto_started sd" "sd_iw_mode sd = IW_MODE_ADHOC" using live p by (auto simp: sta_live_def)
    then show ?thesis using ibss_wq_inv [OF _ i] ok Ibss_Work by simp
  next
    case Retry_Work
    then have mm: "sta_managed sd" using en m by simp
    show ?thesis
    proof (cases "sd_state sd = ASSOCIATING_RETRY")
      case True
      then show ?thesis using retry_inv [OF mq [OF mm]] wf Retry_Work by simp
    next
      case False
      have "sta_inv (sta_queue (wk_associate_retry_update (\<lambda>_. False)) sd)"
        using inv False mm by (simp add: sta_inv_def) (simp add: sta_live_def sta_managed_def)
      then show ?thesis using False Retry_Work by (simp add: ieee80211_associate_retry_wq_def)
    qed
  next
    case (Procedure_Work al)
    then have "sta_managed sd" using en m by simp
    then show ?thesis using procedure_inv [OF mq] wf Procedure_Work by simp
  next
    case Assoc_Timer
    then have "sta_managed sd" using en m by simp
    then show ?thesis using abort_inv [OF mq] wf Assoc_Timer by simp
  next
    case (Beacon_Timer al)
    have "sta_wf (sta_queue (wk_beacon_timer_update (\<lambda>_. False)) sd)" using wf by simp
    from send_beacon_ok [OF this, of al] obtain sd' where x: "sta_step seal ev sd = Some sd'"
      "sta_core sd' = sta_core (sta_queue (wk_beacon_timer_update (\<lambda>_. False)) sd)" using Beacon_Timer by auto
    from sta_coreD(8) [OF x(2)] q(2) x(1) show ?thesis by blast
  next
    case Start_Protocol
    then show ?thesis using start_protocol_inv [OF hurry_inv [OF inv]] by (simp add: ieee80211_softmac_start_protocol_def)
  next
    case Stop_Protocol
    then show ?thesis using stop_protocol_inv [OF hurry_inv [OF inv]] ok by (simp add: ieee80211_softmac_stop_protocol_def)
  next
    case (Sync_Scan_Work al meanwhile)
    then show ?thesis using sync_scan_inv [OF _ q(4)] en ok by simp
  next
    case (Rx_Frame j al skb)
    then show ?thesis using rx_frame_inv [OF inv _ seal, of skb j al] ok by fastforce
  next
    case (Ps_Task smp msecs al env)
    have w: "sta_wf (sta_queue (wk_ps_task_update (\<lambda>_. False)) sd)" using wf by simp
    have "sta_link (sta_queue (wk_ps_task_update (\<lambda>_. False)) sd) = sta_link sd" by (simp add: sta_link_def)
    with sta_ps_ok [OF w, of msecs al env] show ?thesis using sta_link_inv [OF inv] Ps_Task ok by auto
  next
    case (Ps_Ack smp al success)
    then show ?thesis using ps_tx_ack_inv [OF wf, of smp al success] sta_link_inv [OF inv] by auto
  next
    case (Set_Freq al m e)
    then show ?thesis using set_freq_inv [OF inv, of al m e] by fastforce
  qed (use en ok in \<open>simp_all add: scan_wq_inv [OF q(1)] complete_wq_inv [OF q(3)] rx_mgt_inv [OF inv] disassociate_inv [OF inv]
      set_wap_inv [OF inv] set_essid_inv [OF inv] set_mode_inv [OF inv] set_scan_inv [OF inv] set_rawtx_inv [OF inv] set_power_inv [OF inv]\<close>)
qed

end
