(* ===== verification/Softmac_Meet.thy ===== *)
theory Softmac_Meet
  imports Softmac_Inv
begin

text \<open>
  Two stations that run this code: what one of them sends, the other one receives.
\<close>

section \<open>What a receiver reads\<close>

text \<open>On its way a frame gets a sequence number and a new buffer.\<close>

definition on_air :: "(sk_buff \<Rightarrow> sk_buff) \<Rightarrow> bool" where
  "on_air air \<longleftrightarrow> (\<forall>f. \<exists>sq. length sq = 2 \<and> skb_data (air f) = take 22 (skb_data f) @ sq @ drop 24 (skb_data f))"

lemma air_frame:
  assumes "on_air air" and "skb_data f = mgmt_header fc d a1 a2 a3 @ body" and "length a1 = 6" "length a2 = 6" "length a3 = 6"
  shows "\<exists>sq. length sq = 2 \<and> skb_data (air f) = le16 fc @ le16 d @ a1 @ a2 @ a3 @ sq @ body"
proof -
  obtain sq where "length sq = 2" "skb_data (air f) = take 22 (skb_data f) @ sq @ drop 24 (skb_data f)"
    using assms(1) unfolding on_air_def by blast
  then show ?thesis using assms(2-5) by (intro exI [of _ sq]) (simp add: mgmt_header_def)
qed

lemma frame_fc: "skb_data g = le16 fc @ rest \<Longrightarrow> hdr_frame_ctl (skb_data g) = Some fc"
  by (simp add: hdr_frame_ctl_def buf_le16_def buf_read_def le16_def get_le16_bytes)

lemma frame_src:
  "\<lbrakk>skb_data g = le16 fc @ le16 d @ a1 @ a2 @ a3 @ sq @ body; length a1 = 6; length a2 = 6\<rbrakk> \<Longrightarrow> skb_peek 10 6 g = Some a2"
  by (rule peek_at [of g "le16 fc @ le16 d @ a1" _ "a3 @ sq @ body"]) simp_all

lemma frame_body:
  "\<lbrakk>skb_data g = le16 fc @ le16 d @ a1 @ a2 @ a3 @ sq @ b1 @ b2 @ b3; length a1 = 6; length a2 = 6; length a3 = 6; length sq = 2;
    length b1 = n; length b2 = m\<rbrakk> \<Longrightarrow> skb_peek (24 + n) m g = Some b2"
  by (rule peek_at [of g "le16 fc @ le16 d @ a1 @ a2 @ a3 @ sq @ b1" _ b3]) simp_all

text \<open>Without power saving: frames are handed on at once, and reception only notes the time.\<close>

definition sta_awake :: "station \<Rightarrow> bool" where
  "sta_awake sd \<longleftrightarrow> sd_ps sd = 0 \<and> sd_sta_sleep sd = 0 \<and> sd_proto_started sd"

lemma mgmt_xmit_awake: "sd_sta_sleep sd = 0 \<Longrightarrow> sta_mgmt_xmit skb sd = Some (sta_put (Mgmt_Xmit skb) sd)"
  by (simp add: sta_mgmt_xmit_def ieee80211_sta_wakeup_def)

lemma rx_awake:
  fixes jiffies :: u64
  assumes "sta_awake sd" and "hdr_frame_ctl (skb_data skb) = Some fc"
  defines "s \<equiv> sd\<lparr>sd_last_rx_ps_time := jiffies\<rparr>"
  shows "WLAN_FC_GET_STYPE fc = 0x00B0 \<Longrightarrow> ieee80211_rx_frame_softmac seal jiffies al skb sd = map_option (Pair 0) (rx_auth seal al skb s)"
    and "WLAN_FC_GET_STYPE fc = 0x0010 \<Longrightarrow> ieee80211_rx_frame_softmac seal jiffies al skb sd = map_option (Pair 0) (rx_assoc_resp skb s)"
    and "\<lbrakk>WLAN_FC_GET_STYPE fc = 0; sd_iw_mode sd = IW_MODE_MASTER\<rbrakk> \<Longrightarrow>
      ieee80211_rx_frame_softmac seal jiffies al skb sd = map_option (Pair 0) (ieee80211_rx_assoc_rq al skb s)"
  using assms by (simp_all add: ieee80211_rx_frame_softmac_def sta_awake_def Let_def)

section \<open>The handshake, step by step\<close>

text \<open>What stays the same during an association.\<close>

definition sta_self where
  "sta_self sd = (sd_dev_addr sd, sd_network sd, sd_iw_mode sd, sd_open_wep sd, sd_ps sd, sd_sta_sleep sd, sd_proto_started sd, sta_wf sd)"

lemma sta_self_simps [simp]:
  "sta_self (sta_put x sd) = sta_self sd" "sta_self (sta_stat f sd) = sta_self sd" "sta_self (sta_queue g sd) = sta_self sd"
  "sta_self (sd\<lparr>sd_state := st\<rparr>) = sta_self sd" "sta_self (sd\<lparr>sd_associate_seq := n\<rparr>) = sta_self sd"
  "sta_self (sd\<lparr>sd_assoc_id := m\<rparr>) = sta_self sd" "sta_self (sd\<lparr>sd_last_rx_ps_time := t\<rparr>) = sta_self sd"
  "sta_self (sd\<lparr>sd_ap_mac_addr := a\<rparr>) = sta_self sd" "sta_self (sd\<lparr>sd_sync_scan_hurryup := b\<rparr>) = sta_self sd"
  "sta_self (ieee80211_stop_scan sd) = sta_self sd"
  by (simp_all add: sta_self_def) (simp_all add: sta_put_def sta_stat_def sta_queue_def ieee80211_stop_scan_def sta_wf_def)

lemma sta_selfD:
  assumes "sta_self a = sta_self b"
  shows "sd_dev_addr a = sd_dev_addr b" "sd_network a = sd_network b" "sd_iw_mode a = sd_iw_mode b" "sd_open_wep a = sd_open_wep b"
    "sd_ps a = sd_ps b" "sd_sta_sleep a = sd_sta_sleep b" "sd_proto_started a = sd_proto_started b" "sta_wf a = sta_wf b"
    "sta_awake a = sta_awake b"
  using assms by (simp_all add: sta_self_def sta_awake_def)

lemma sta_wf_lengths: "sta_wf sd \<Longrightarrow> length (sd_dev_addr sd) = 6 \<and> length (nw_bssid (sd_network sd)) = 6"
  using sta_wf_addrs [of sd] by (simp add: station_addrs_def)

definition auth_alg :: "station \<Rightarrow> u16" where "auth_alg sd = (if sd_open_wep sd then 0 else 1)"

lemma ask_auth:
  assumes wf: "sta_wf a" and aw: "sta_awake a" and p: "wk_associate_procedure (sd_work a)"
  shows "\<exists>a' f out. sta_step Some (Procedure_Work True) a = Some a' \<and> sd_out a' = out @ [Mgmt_Xmit f] \<and>
    skb_data f = mgmt_header 0x00B0 0x013a (nw_bssid (sd_network a)) (sd_dev_addr a) (nw_bssid (sd_network a)) @
      le16 (auth_alg a) @ le16 1 @ le16 0 \<and> sd_state a' = ASSOCIATING_AUTHENTICATING \<and> sta_self a' = sta_self a \<and>
    Set_Chan (nw_channel (sd_network a)) \<in> set (sd_out a')"
proof -
  let ?q = "ieee80211_stop_scan (sta_put Data_Hard_Stop ((sta_queue (wk_associate_procedure_update (\<lambda>_. False)) a)\<lparr>sd_sync_scan_hurryup := True\<rparr>))"
  let ?t = "sta_stat (ss_tx_auth_rq_update (\<lambda>n. n + 1)) ((sta_put (Set_Chan (nw_channel (sd_network ?q))) ?q)\<lparr>sd_associate_seq := 1\<rparr>)"
  have self: "sta_self ?t = sta_self a" by simp
  note d = sta_selfD [OF self]
  have seq: "sd_associate_seq ?t = 1" by (simp add: sta_stat_def)
  have l: "length (mgmt_header 0x00B0 0x013a (nw_bssid (sd_network a)) (sd_dev_addr a) (nw_bssid (sd_network a))) = 24"
    using sta_wf_lengths [OF wf] by (simp add: length_mgmt_header)
  obtain f where f: "ieee80211_authentication_req (sd_network ?t) 0 ?t = Some (f, ?t\<lparr>sd_associate_seq := sd_associate_seq ?t + 1\<rparr>)"
    "skb_data f = mgmt_header 0x00B0 0x013a (nw_bssid (sd_network a)) (sd_dev_addr a) (nw_bssid (sd_network a)) @
      le16 (auth_alg a) @ le16 1 @ le16 0"
    unfolding ieee80211_authentication_req_def Let_def put_data_iff d seq using aw l
    by (simp add: dev_alloc_skb_def skb_tailroom_def sta_awake_def auth_alg_def)
  let ?u = "?t\<lparr>sd_associate_seq := sd_associate_seq ?t + 1, sd_state := ASSOCIATING_AUTHENTICATING\<rparr>"
  have "sd_sta_sleep ?u = 0" using aw d by (simp add: sta_awake_def)
  from mgmt_xmit_awake [OF this]
  have "sta_step Some (Procedure_Work True) a = Some (sta_queue (wk_associate_timer_update (\<lambda>_. True)) (sta_put (Mgmt_Xmit f) ?u))"
    using f(1) by (simp add: ieee80211_associate_procedure_wq_def ieee80211_associate_step1_def Let_def)
  moreover have "sd_out (sta_queue g (sta_put (Mgmt_Xmit f) ?u)) = sd_out ?u @ [Mgmt_Xmit f]" for g
    by (simp add: sta_queue_def sta_put_def)
  moreover have "sta_self (sta_queue g (sta_put (Mgmt_Xmit f) ?u)) = sta_self a" for g using self by simp
  moreover have "Set_Chan (nw_channel (sd_network a)) \<in> set (sd_out ?u)"
    by (simp add: sta_put_def sta_stat_def ieee80211_stop_scan_def sta_queue_def)
  ultimately show ?thesis using f(2) by (intro exI conjI) (assumption | simp)+
qed


lemma stype_simps: "WLAN_FC_GET_STYPE 0x00B0 = 0x00B0" "WLAN_FC_GET_STYPE 0x0010 = 0x0010" "WLAN_FC_GET_STYPE 0 = 0"
  by (simp_all add: WLAN_FC_GET_STYPE_def)

lemma answer_auth:
  assumes wf: "sta_wf m" and aw: "sta_awake m" and mode: "sd_iw_mode m = IW_MODE_MASTER"
    and g: "skb_data g = le16 0x00B0 @ le16 d @ a1 @ src @ a3 @ sq @ le16 alg @ rest"
    and l: "length a1 = 6" "length src = 6" "length a3 = 6" "length sq = 2" "4 \<le> length rest"
  shows "\<exists>m' f out. ieee80211_rx_frame_softmac Some jiffies True g m = Some (0, m') \<and> sd_out m' = out @ [Mgmt_Xmit f] \<and>
    skb_data f = mgmt_header 0x00B0 0 src (sd_dev_addr m) (sd_dev_addr m) @ le16 0 @ le16 2 @ le16 (if alg \<noteq> 0 then 13 else 0) \<and>
    sta_self m' = sta_self m \<and> sd_state m' = sd_state m \<and> sd_assoc_id m' = sd_assoc_id m"
proof -
  let ?s = "sta_stat (ss_rx_auth_rq_update (\<lambda>n. n + 1)) (m\<lparr>sd_last_rx_ps_time := jiffies\<rparr>)"
  have self: "sta_self ?s = sta_self m" by simp
  note d = sta_selfD [OF self]
  have fc: "hdr_frame_ctl (skb_data g) = Some 0x00B0" by (rule frame_fc [OF g])
  have "skb_peek 10 6 g = Some src" by (rule frame_src [OF g l(1,2)])
  moreover have "skb_peek 24 2 g = Some (le16 alg)"
    using frame_body [of g "0x00B0" d a1 src a3 sq "[]" "le16 alg" rest 0 2] g l by simp
  moreover have "\<not> skb_len g < AUTH_SIZE - 2" using l by (simp add: skb_len_def g)
  ultimately have p: "auth_rq_parse g = Some (Some (if alg \<noteq> 0 then 13 else 0, src))"
    by (simp add: auth_rq_parse_def get_le16_le16)
  have dl: "length (sd_dev_addr ?s) = 6" using sta_wf_lengths wf d(8) by blast
  note r = auth_resp_eq [OF l(2) dl, of "if alg \<noteq> 0 then 13 else 0"]
  have "sd_sta_sleep ?s = 0" using aw d by (simp add: sta_awake_def)
  note x = mgmt_xmit_awake [OF this]
  have a: "rx_auth Some True g (m\<lparr>sd_last_rx_ps_time := jiffies\<rparr>) = ieee80211_rx_auth_rq True g (m\<lparr>sd_last_rx_ps_time := jiffies\<rparr>)"
    using mode by (simp add: rx_auth_def)
  show ?thesis
    unfolding rx_awake(1) [OF aw fc stype_simps(1)] a ieee80211_rx_auth_rq_def Let_def p ieee80211_resp_to_auth_def
    using d(1) by (simp add: r x del: if_not_P if_P) (simp add: sta_put_def sta_stat_def)
qed

lemma take_auth:
  assumes wf: "sta_wf a" and aw: "sta_awake a" and mode: "sd_iw_mode a = IW_MODE_INFRA" and st: "sd_state a = ASSOCIATING_AUTHENTICATING"
    and g: "skb_data g = le16 0x00B0 @ le16 d @ a1 @ a2 @ a3 @ sq @ le16 0 @ le16 2 @ le16 status"
    and l: "length a1 = 6" "length a2 = 6" "length a3 = 6" "length sq = 2"
  shows "\<exists>a' f out. ieee80211_rx_frame_softmac Some jiffies True g a = Some (0, a') \<and> sta_self a' = sta_self a \<and>
    (if status = 0 then sd_state a' = ASSOCIATING_AUTHENTICATED \<and> sd_out a' = out @ [Mgmt_Xmit f] \<and>
       skb_data f = assoc_req_frame (sd_network a) a
     else sd_state a' = ASSOCIATING_RETRY \<and> wk_associate_retry (sd_work a'))"
proof -
  let ?s = "a\<lparr>sd_last_rx_ps_time := jiffies\<rparr>"
  have fc: "hdr_frame_ctl (skb_data g) = Some 0x00B0" by (rule frame_fc [OF g])
  have "skb_peek 28 2 g = Some (le16 status)"
    using frame_body [of g "0x00B0" d a1 a2 a3 sq "le16 0 @ le16 2" "le16 status" "[]" 4 2] g l by simp
  moreover have "skb_len g = 30" using l by (simp add: skb_len_def g)
  ultimately have p: "auth_parse g = Some (status, None)" by (simp add: auth_parse_def get_le16_le16)
  have e: "rx_auth Some True g ?s = (if status = 0
      then ieee80211_associate_step2 True (sta_stat (ss_rx_auth_rs_ok_update (\<lambda>n. n + 1)) (?s\<lparr>sd_state := ASSOCIATING_AUTHENTICATED\<rparr>))
      else Some (ieee80211_associate_abort (sta_stat (ss_rx_auth_rs_err_update (\<lambda>n. n + 1)) ?s)))"
    using mode st p by (simp add: rx_auth_def)
  show ?thesis
  proof (cases "status = 0")
    case True
    let ?t = "sta_stat (ss_tx_ass_rq_update (\<lambda>n. n + 1)) (sta_queue (wk_associate_timer_update (\<lambda>_. False))
      (sta_stat (ss_rx_auth_rs_ok_update (\<lambda>n. n + 1)) (?s\<lparr>sd_state := ASSOCIATING_AUTHENTICATED\<rparr>)))"
    have self: "sta_self ?t = sta_self a" by simp
    note d = sta_selfD [OF self]
    have w: "sta_wf ?t" using wf d by simp
    have "length (sd_dev_addr ?t) = 6" "length (nw_bssid (sd_network ?t)) = 6" "network_arrays (sd_network ?t)" "network_lengths (sd_network ?t)"
      using sta_wf_addrs [OF w] by (simp_all add: station_addrs_def)
    note r = association_req_eq [OF this]
    obtain f where f: "ieee80211_association_req (sd_network ?t) ?t = Some (f, ?t\<lparr>sd_ap_mac_addr := nw_bssid (sd_network ?t)\<rparr>)"
      "skb_data f = assoc_req_frame (sd_network ?t) ?t" using sta_wf_no_ie [OF w] r by auto
    have fr: "assoc_req_frame (sd_network ?t) ?t = assoc_req_frame (sd_network a) a"
      by (simp add: assoc_req_frame_def) (simp add: sta_stat_def sta_queue_def)
    let ?u = "?t\<lparr>sd_ap_mac_addr := nw_bssid (sd_network ?t)\<rparr>"
    have "sd_sta_sleep ?u = 0" using aw d by (simp add: sta_awake_def)
    from mgmt_xmit_awake [OF this, of f]
    have "rx_auth Some True g ?s = Some (sta_queue (wk_associate_timer_update (\<lambda>_. True)) (sta_put (Mgmt_Xmit f) ?u))"
      using True e f(1) by (simp add: ieee80211_associate_step2_def Let_def)
    moreover have "sd_out (sta_queue q (sta_put (Mgmt_Xmit f) ?u)) = sd_out ?u @ [Mgmt_Xmit f]" for q by (simp add: sta_queue_def sta_put_def)
    ultimately show ?thesis
      unfolding rx_awake(1) [OF aw fc stype_simps(1)] using True f(2) fr
      by (intro exI [of _ "sta_queue (wk_associate_timer_update (\<lambda>_. True)) (sta_put (Mgmt_Xmit f) ?u)"] exI [of _ f] exI [of _ "sd_out ?u"]) simp
  next
    case False
    then show ?thesis
      unfolding rx_awake(1) [OF aw fc stype_simps(1)] e by (simp add: ieee80211_associate_abort_def Let_def)
  qed
qed

lemma answer_assoc:
  assumes wf: "sta_wf m" and aw: "sta_awake m" and mode: "sd_iw_mode m = IW_MODE_MASTER"
    and g: "skb_data g = le16 0 @ le16 d @ a1 @ src @ a3 @ sq @ rest"
    and l: "length a1 = 6" "length src = 6" "length a3 = 6" "length sq = 2" "4 \<le> length rest"
  shows "\<exists>m' f out. ieee80211_rx_frame_softmac Some jiffies True g m = Some (0, m') \<and> sd_out m' = out @ [Mgmt_Xmit f] \<and>
    (\<exists>cap b. skb_data f = mgmt_header 0x0010 0 src (sd_dev_addr m) (sd_dev_addr m) @ le16 cap @ le16 0 @ le16 (sd_assoc_id m) @ [0, 0] @ b) \<and>
    sta_self m' = sta_self m \<and> sd_state m' = sd_state m \<and>
    sd_assoc_id m' = (if sd_assoc_id m = 0x2007 then 0 else sd_assoc_id m + 1)"
proof -
  let ?s = "sta_stat (ss_rx_ass_rq_update (\<lambda>n. n + 1)) (m\<lparr>sd_last_rx_ps_time := jiffies\<rparr>)"
  have self: "sta_self ?s = sta_self m" by simp
  note d = sta_selfD [OF self]
  have id: "sd_assoc_id ?s = sd_assoc_id m" by (simp add: sta_stat_def)
  have fc: "hdr_frame_ctl (skb_data g) = Some 0" by (rule frame_fc [OF g])
  have "skb_peek 10 6 g = Some src" by (rule frame_src [OF g l(1,2)])
  moreover have "\<not> skb_len g < ASSOC_REQUEST_SIZE - 2" using l by (simp add: skb_len_def g)
  ultimately have p: "assoc_rq_parse g = Some (Some src)" by (simp add: assoc_rq_parse_def)
  have dl: "length (sd_dev_addr ?s) = 6" using sta_wf_lengths wf d(8) by blast
  let ?next = "if sd_assoc_id m = 0x2007 then 0 else sd_assoc_id m + 1"
  obtain f where f: "ieee80211_assoc_resp src ?s = Some (f, ?s\<lparr>sd_assoc_id := ?next\<rparr>)"
    "\<exists>cap b. skb_data f = mgmt_header 0x0010 0 src (sd_dev_addr m) (sd_dev_addr m) @ le16 cap @ le16 0 @ le16 (sd_assoc_id m) @ [0, 0] @ b"
    using assoc_resp_eq [OF l(2) dl] unfolding id d(1) by blast
  have "sd_sta_sleep (?s\<lparr>sd_assoc_id := ?next\<rparr>) = 0" using aw d by (simp add: sta_awake_def)
  from mgmt_xmit_awake [OF this, of f]
  have "ieee80211_rx_assoc_rq True g (m\<lparr>sd_last_rx_ps_time := jiffies\<rparr>) = Some (sta_put (Mgmt_Xmit f) (?s\<lparr>sd_assoc_id := ?next\<rparr>))"
    using f(1) p by (simp add: ieee80211_rx_assoc_rq_def ieee80211_resp_to_assoc_rq_def Let_def)
  moreover have "sd_out (sta_put (Mgmt_Xmit f) (?s\<lparr>sd_assoc_id := ?next\<rparr>)) = sd_out m @ [Mgmt_Xmit f]" by (simp add: sta_put_def sta_stat_def)
  moreover have "sd_assoc_id (sta_put (Mgmt_Xmit f) (?s\<lparr>sd_assoc_id := ?next\<rparr>)) = ?next" by (simp add: sta_put_def)
  ultimately show ?thesis
    unfolding rx_awake(3) [OF aw fc stype_simps(3) mode] using f(2)
    by (intro exI [of _ "sta_put (Mgmt_Xmit f) (?s\<lparr>sd_assoc_id := ?next\<rparr>)"] exI [of _ f] exI [of _ "sd_out m"] conjI) simp_all
qed

lemma take_assoc:
  assumes aw: "sta_awake a" and mode: "sd_iw_mode a = IW_MODE_INFRA" and st: "sd_state a = ASSOCIATING_AUTHENTICATED"
    and g: "skb_data g = le16 0x0010 @ le16 d @ a1 @ a2 @ a3 @ sq @ le16 cap @ le16 0 @ le16 aid @ [0, 0] @ b"
    and l: "length a1 = 6" "length a2 = 6" "length a3 = 6" "length sq = 2"
  shows "\<exists>a'. ieee80211_rx_frame_softmac Some jiffies True g a = Some (0, a') \<and> sd_state a' = LINKED \<and>
    sd_assoc_id a' = aid AND 0x3fff \<and> wk_associate_complete (sd_work a') \<and> \<not> wk_associate_timer (sd_work a')"
proof -
  have fc: "hdr_frame_ctl (skb_data g) = Some 0x0010" by (rule frame_fc [OF g])
  have "skb_peek 26 2 g = Some (le16 0)"
    using frame_body [of g "0x0010" d a1 a2 a3 sq "le16 cap" "le16 0" "le16 aid @ [0, 0] @ b" 2 2] g l by simp
  moreover have "skb_peek 28 2 g = Some (le16 aid)"
    using frame_body [of g "0x0010" d a1 a2 a3 sq "le16 cap @ le16 0" "le16 aid" "[0, 0] @ b" 4 2] g l by simp
  moreover have "\<not> skb_len g < ASSOC_RESPONSE_SIZE" using l by (simp add: skb_len_def g)
  ultimately have p: "assoc_parse g = Some (0, aid AND 0x3fff)" by (simp add: assoc_parse_def get_le16_le16)
  show ?thesis
    unfolding rx_awake(2) [OF aw fc stype_simps(2)]
    using mode st p by (simp add: rx_assoc_resp_def ieee80211_associate_complete_def Let_def) (simp add: sta_queue_def sta_put_def sta_stat_def)
qed


section \<open>A station and an access point\<close>

text \<open>The last frame one station has sent arrives at the other one.\<close>

definition heard :: "(sk_buff \<Rightarrow> sk_buff) \<Rightarrow> u64 \<Rightarrow> station \<Rightarrow> station \<Rightarrow> station option" where
  "heard air jiffies sender receiver =
     (if sd_out sender = [] then None
      else case last (sd_out sender) of
        Mgmt_Xmit f \<Rightarrow> map_option snd (ieee80211_rx_frame_softmac Some jiffies True (air f) receiver)
      | _ \<Rightarrow> None)"

lemma heard_last: "sd_out s = out @ [Mgmt_Xmit f] \<Longrightarrow>
    heard air j s r = map_option snd (ieee80211_rx_frame_softmac Some j True (air f) r)"
  by (simp add: heard_def)

text \<open>Authentication: the request, the answer, and what the station makes of it.\<close>

lemma handshake_auth:
  assumes A: "sta_wf a" "sta_awake a" "sd_iw_mode a = IW_MODE_INFRA" "wk_associate_procedure (sd_work a)"
    and M: "sta_wf m" "sta_awake m" "sd_iw_mode m = IW_MODE_MASTER" and air: "on_air air"
  shows "\<exists>a1 m1 a2 f out. sta_step Some (Procedure_Work True) a = Some a1 \<and> heard air j a1 m = Some m1 \<and> heard air j m1 a1 = Some a2 \<and>
    sta_self m1 = sta_self m \<and> sd_assoc_id m1 = sd_assoc_id m \<and> sta_self a2 = sta_self a \<and>
    (if sd_open_wep a then sd_state a2 = ASSOCIATING_AUTHENTICATED \<and> sd_out a2 = out @ [Mgmt_Xmit f] \<and>
       (\<exists>rest. skb_data f = mgmt_header 0 37 (nw_bssid (sd_network a)) (sd_dev_addr a) (nw_bssid (sd_network a)) @ rest \<and> 4 \<le> length rest)
     else sd_state a2 = ASSOCIATING_RETRY \<and> wk_associate_retry (sd_work a2))"
proof -
  let ?b = "nw_bssid (sd_network a)"
  have la: "length (sd_dev_addr a) = 6" "length ?b = 6" and lm: "length (sd_dev_addr m) = 6"
    using sta_wf_lengths A(1) M(1) by blast+
  obtain a1 f1 o1 where a1: "sta_step Some (Procedure_Work True) a = Some a1" "sd_out a1 = o1 @ [Mgmt_Xmit f1]"
    "skb_data f1 = mgmt_header 0x00B0 0x013a ?b (sd_dev_addr a) ?b @ le16 (auth_alg a) @ le16 1 @ le16 0"
    "sd_state a1 = ASSOCIATING_AUTHENTICATING" "sta_self a1 = sta_self a" using ask_auth [OF A(1,2,4)] by blast
  obtain s1 where s1: "length s1 = 2" "skb_data (air f1) = le16 0x00B0 @ le16 0x013a @ ?b @ sd_dev_addr a @ ?b @ s1 @
      le16 (auth_alg a) @ le16 1 @ le16 0" using air_frame [OF air a1(3)] la by blast
  have "4 \<le> length (le16 1 @ le16 0)" by simp
  from answer_auth [OF M s1(2) la(2,1,2) s1(1) this, of j] obtain m1 f2 o2
    where m1: "ieee80211_rx_frame_softmac Some j True (air f1) m = Some (0, m1)" "sd_out m1 = o2 @ [Mgmt_Xmit f2]"
      "skb_data f2 = mgmt_header 0x00B0 0 (sd_dev_addr a) (sd_dev_addr m) (sd_dev_addr m) @ le16 0 @ le16 2 @
        le16 (if auth_alg a \<noteq> 0 then 13 else 0)" "sta_self m1 = sta_self m" "sd_assoc_id m1 = sd_assoc_id m" by blast
  obtain s2 where s2: "length s2 = 2" "skb_data (air f2) = le16 0x00B0 @ le16 0 @ sd_dev_addr a @ sd_dev_addr m @ sd_dev_addr m @ s2 @
      le16 0 @ le16 2 @ le16 (if auth_alg a \<noteq> 0 then 13 else 0)" using air_frame [OF air m1(3)] la lm by blast
  have A1: "sta_wf a1" "sta_awake a1" "sd_iw_mode a1 = IW_MODE_INFRA" using A sta_selfD [OF a1(5)] by simp_all
  have afr: "assoc_req_frame (sd_network a1) a1 = mgmt_header 0 37 ?b (sd_dev_addr a) ?b @ drop 24 (assoc_req_frame (sd_network a1) a1)"
    "4 \<le> length (drop 24 (assoc_req_frame (sd_network a1) a1))"
    using la sta_selfD(1,2) [OF a1(5)] by (simp_all add: assoc_req_frame_def length_mgmt_header)
  have z: "(if auth_alg a \<noteq> 0 then 13 else 0) = (0 :: u16) \<longleftrightarrow> sd_open_wep a" by (simp add: auth_alg_def)
  from take_auth [OF A1 a1(4) s2(2) la(1) lm lm s2(1), of j, unfolded z] obtain a2 f3 o3
    where a2: "ieee80211_rx_frame_softmac Some j True (air f2) a1 = Some (0, a2)" "sta_self a2 = sta_self a1"
      "if sd_open_wep a then sd_state a2 = ASSOCIATING_AUTHENTICATED \<and> sd_out a2 = o3 @ [Mgmt_Xmit f3] \<and> skb_data f3 = assoc_req_frame (sd_network a1) a1
       else sd_state a2 = ASSOCIATING_RETRY \<and> wk_associate_retry (sd_work a2)" by blast
  have "heard air j a1 m = Some m1" "heard air j m1 a1 = Some a2" using m1(1) a2(1) heard_last [OF a1(2)] heard_last [OF m1(2)] by simp_all
  with a1 m1 a2 afr show ?thesis by (intro exI [of _ a1] exI [of _ m1] exI [of _ a2] exI [of _ f3] exI [of _ o3]) auto
qed


definition ap_example :: station where
  "ap_example = ieee80211_softmac_start_protocol (sta_example\<lparr>sd_iw_mode := IW_MODE_MASTER, sd_dev_addr := [2, 9, 9, 9, 9, 9]\<rparr>)"

definition sta_client :: station where
  "sta_client = sta_example\<lparr>sd_iw_mode := IW_MODE_INFRA, sd_proto_started := True, sd_state := ASSOCIATING,
     sd_work := sta_work_none\<lparr>wk_associate_procedure := True\<rparr>\<rparr>"

definition sta_looking :: station where
  "sta_looking = sta_example\<lparr>sd_iw_mode := IW_MODE_INFRA, sd_proto_started := True, sd_state := NOLINK\<rparr>"

lemma probe_elements_length:
  assumes "station_addrs sd"
  shows "length (concat (map ie_bytes (probe_elements (sd_network sd) []))) \<le> 100"
proof -
  have l: "unat (nw_ssid_len (sd_network sd)) \<le> 32" "unat (nw_rates_len (sd_network sd)) \<le> 12" "unat (nw_rates_ex_len (sd_network sd)) \<le> 16"
    using assms by (simp_all add: station_addrs_def network_lengths_def word_le_nat_alt)
  have "min x (unat (nw_ssid_len (sd_network sd))) + (min y (unat (nw_rates_len (sd_network sd))) + min z (unat (nw_rates_ex_len (sd_network sd)))) \<le> 60"
    "min x (unat (nw_ssid_len (sd_network sd))) + min y (unat (nw_rates_len (sd_network sd))) \<le> 44" for x y z
    using l by (simp_all add: min_def)
  from this(1) [of "length (nw_ssid (sd_network sd))" "length (nw_rates (sd_network sd))" "length (nw_rates_ex (sd_network sd))"]
    this(2) [of "length (nw_ssid (sd_network sd))" "length (nw_rates (sd_network sd))"]
  show ?thesis by (simp add: probe_elements_def ie_bytes_def)
qed

definition air_example :: "sk_buff \<Rightarrow> sk_buff" where
  "air_example f = \<lparr>skb_head = [], skb_data = take 22 (skb_data f) @ [0x50, 0] @ drop 24 (skb_data f), skb_room = replicate 300 0\<rparr>"

lemma ap_example_facts: "sta_wf ap_example \<and> sta_awake ap_example \<and> sd_iw_mode ap_example = IW_MODE_MASTER \<and> sd_assoc_id ap_example = 1"
proof -
  have i: "sta_inv (sta_example\<lparr>sd_iw_mode := IW_MODE_MASTER, sd_dev_addr := [2, 9, 9, 9, 9, 9]\<rparr>)"
    by (simp add: sta_inv_def sta_live_def sta_wf_def sta_example_def cell_example_def cell_wf_def network_wf_def
      network_arrays_def network_lengths_def network_blank_def sta_work_none_def)
  have "sta_wf ap_example"
    using start_protocol_inv [OF hurry_inv [OF i]] by (simp add: ap_example_def ieee80211_softmac_start_protocol_def sta_inv_def)
  moreover have "sta_awake ap_example" "sd_iw_mode ap_example = IW_MODE_MASTER" "sd_assoc_id ap_example = 1"
    by (simp_all add: ap_example_def ieee80211_softmac_start_protocol_def ieee80211_start_protocol_def start_with_channel_def start_mode_def
        ieee80211_start_master_bss_def sta_default_essid_def notify_wx_assoc_event_def sta_put_def Let_def sta_awake_def
        sta_example_def cell_example_def)
  ultimately show ?thesis by simp
qed


section \<open>An access point's beacon\<close>

lemma no_bss_and: "(w AND 2) AND 1 = (0 :: u16)"
proof -
  have "2 AND 1 = (0 :: u16)" by simp
  then show ?thesis unfolding word_bw_assocs by (simp only: and_zero_eq)
qed
lemma probe_capability_no_bss: "probe_capability m AND CAPABILITY_BSS = 0"
proof -
  have "(w OR (if p then 0x400 else 0) OR (if q then 0x10 else 0)) AND 1 = w AND 1" for w :: u16 and p q
    by (simp add: word_ao_dist)
  then show ?thesis unfolding probe_capability_def Let_def by (simp only: no_bss_and)
qed
lemma bss_enter_reported: "bss_enter j is_beacon n bt = Some (bt', Some net) \<Longrightarrow> nw_capability net = nw_capability n"
  by (auto simp: bss_enter_def Let_def split: option.splits if_splits prod.splits)

lemma fold_ie_capability: "nw_capability (fold (ie_apply en) es n) = nw_capability n"
proof (induction es arbitrary: n)
  case (Cons e es)
  have "nw_capability (ie_apply en e n) = nw_capability n" by (cases e) (simp add: ie_apply_def Let_def)
  then show ?case using Cons.IH by simp
qed simp

lemma network_end_capability:
  "nw_capability (network_end stats (fold (ie_apply en) es (network_begin j stats bssid ts interval capability stack))) = capability"
  by (simp add: network_end_def fold_ie_capability) (simp add: network_begin_def Let_def)

lemma master_net_ignored:
  assumes "nw_capability n = probe_capability m" and "sd_iw_mode sd = IW_MODE_INFRA"
  shows "ieee80211_softmac_new_net n sd = sd"
  using assms probe_capability_no_bss [of m] by (simp add: ieee80211_softmac_new_net_def)

lemma get_beacon_eq:
  assumes sd: "station_addrs sd" and wpa: "sd_wpa_ie sd = []"
  shows "ieee80211_get_beacon seq sd = Some (\<lparr>skb_head = replicate 16 0,
      skb_data = beacon_bytes 0x0080 broadcast_addr (sd_dev_addr sd) (nw_bssid (sd_network sd)) (le16 (push_bit 4 seq)) (0, 0)
        (nw_beacon_interval (sd_network sd)) (probe_capability sd) (probe_elements (sd_network sd) []), skb_room = []\<rparr>,
      if seq = 0xFFF then 0 else seq + 1, sd)"
proof -
  have p: "probe_wpa_ie sd = Some (concat (map ie_bytes []))" using wpa by (simp add: probe_wpa_ie_def)
  have s: "sd\<lparr>sd_wpa_ie := []\<rparr> = sd" using wpa by simp
  have "length broadcast_addr = 6" "length (sd_dev_addr sd) = 6" "length (nw_bssid (sd_network sd)) = 6"
    using sd by (simp_all add: station_addrs_def broadcast_addr_def)
  then show ?thesis
    using get_beacon_frame_eq [OF sd p] s
    by (simp add: ieee80211_get_beacon_def skb_store_def buf_write_def probe_frame_def beacon_bytes_def le16_def)
qed

text \<open>What the station's table makes of a beacon of this code.\<close>

lemma own_beacon_read:
  assumes m: "station_addrs m" "sd_wpa_ie m = []" and g: "ieee80211_get_beacon seq m = Some (skb, seq', m')"
    and len: "unat (rs_len (en_stats en)) = skb_len skb" and stack: "network_arrays stack"
  shows "hdr_frame_ctl (skb_data skb @ tail) = Some 0x0080"
    and "\<exists>n. ieee80211_network_init j en (skb_data skb @ tail) stack = Some (0, n) \<and> nw_capability n = probe_capability m \<and>
      n = network_end (en_stats en) (fold (ie_apply en) (probe_elements (sd_network m) [])
        (network_begin j (en_stats en) (nw_bssid (sd_network m)) (0, 0) (nw_beacon_interval (sd_network m)) (probe_capability m) stack))"
proof -
  let ?f = "beacon_bytes 0x0080 broadcast_addr (sd_dev_addr m) (nw_bssid (sd_network m)) (le16 (push_bit 4 seq)) (0, 0)
     (nw_beacon_interval (sd_network m)) (probe_capability m) (probe_elements (sd_network m) [])"
  have f: "skb_data skb = ?f" using get_beacon_eq [OF m, of seq] g by auto
  show "hdr_frame_ctl (skb_data skb @ tail) = Some 0x0080"
    by (simp add: f beacon_bytes_def hdr_frame_ctl_def buf_le16_def buf_read_def get_le16_def)
  have k: "key_elements []" by (simp add: key_elements_def)
  have a: "length broadcast_addr = 6" "length (sd_dev_addr m) = 6" "length (nw_bssid (sd_network m)) = 6"
    using m(1) by (simp_all add: station_addrs_def broadcast_addr_def)
  from network_init_spec [OF a _ probe_elements_ok [OF m(1) k], of "le16 (push_bit 4 seq)" en] len stack
  show "\<exists>n. ieee80211_network_init j en (skb_data skb @ tail) stack = Some (0, n) \<and> nw_capability n = probe_capability m \<and>
      n = network_end (en_stats en) (fold (ie_apply en) (probe_elements (sd_network m) [])
        (network_begin j (en_stats en) (nw_bssid (sd_network m)) (0, 0) (nw_beacon_interval (sd_network m)) (probe_capability m) stack))"
    by (simp add: network_end_capability skb_len_def f)
qed

text \<open>C0: An access point that runs this code is never found by a managed station that does: \<open>ieee80211_probe_resp\<close> keeps only the ad hoc bit of the cell's capabilities, so
  its beacon never has the bit of an access point set, and a managed station only joins networks that
  have it.  Whatever the state of the station, the beacon is entered in its table, and neither its state nor its pending work changes.  (No key management element is set at the sender.)\<close>

theorem master_beacon_ignored:
  assumes "sta_wf m" and "ieee80211_get_beacon seq m = Some (skb, seq', m')"
    and "sta_wf b" and "sd_iw_mode b = IW_MODE_INFRA"
    and "unat (rs_len stats) = skb_len skb" and "network_arrays stack"
  shows "\<exists>b'. sta_rx_mgt j stack (skb_data skb @ tail) stats b = Some b' \<and> sd_state b' = sd_state b \<and> sd_work b' = sd_work b \<and> sd_out b' = sd_out b"
proof -
  let ?en = "\<lparr>en_state = sd_state b, en_assoc_id = sd_assoc_id b, en_stats = stats\<rparr>" and ?f = "skb_data skb @ tail"
  have l: "unat (rs_len (en_stats ?en)) = skb_len skb" using assms(5) by simp
  note o = own_beacon_read [OF sta_wf_addrs [OF assms(1)] sta_wf_no_ie [OF assms(1)] assms(2) l assms(6)]
  obtain n where n: "ieee80211_network_init j ?en ?f stack = Some (0, n)" "nw_capability n = probe_capability m" using o(2) by blast
  have c: "cell_wf n" using network_init_cell [OF n(1) assms(6)] .
  have "nets_wf (sta_table b)" using assms(3) by (simp add: nets_wf_def sta_table_def sta_wf_def)
  from bss_enter_cells [OF this c, of j True] obtain bt r where e: "bss_enter j True n (sta_table b) = Some (bt, r)" by blast
  have "ieee80211_rx_mgt j stack ?f stats (sta_table b) = Some (bt, r)"
    using o(1) n(1) e by (simp add: ieee80211_rx_mgt_def ieee80211_process_probe_response_def WLAN_FC_GET_STYPE_def sta_table_def)
  moreover have "ieee80211_softmac_new_net net s = s" if "r = Some net" "sd_iw_mode s = IW_MODE_INFRA" for net s
    using master_net_ignored [of net m s] bss_enter_reported [of j True n "sta_table b" bt net] e n(2) that by simp
  ultimately show ?thesis using assms(4) by (cases r) (simp_all add: sta_rx_mgt_def Let_def)
qed

theorem master_beacon_ignored_witness:
  "\<exists>skb b'. ieee80211_get_beacon 5 ap_example = Some (skb, 6, ap_example) \<and>
    sta_rx_mgt 9 network_blank (skb_data skb @ []) ((stats_example 67)\<lparr>rs_len := word_of_nat (skb_len skb)\<rparr>) sta_looking = Some b' \<and> sd_state b' = NOLINK"
proof -
  have w: "sta_wf ap_example" using ap_example_facts by simp
  obtain skb where g: "ieee80211_get_beacon 5 ap_example = Some (skb, 6, ap_example)"
    using get_beacon_eq [OF sta_wf_addrs [OF w] sta_wf_no_ie [OF w], of 5] by simp
  have d: "skb_data skb = beacon_bytes 0x0080 broadcast_addr (sd_dev_addr ap_example) (nw_bssid (sd_network ap_example)) (le16 (push_bit 4 5)) (0, 0)
        (nw_beacon_interval (sd_network ap_example)) (probe_capability ap_example) (probe_elements (sd_network ap_example) [])"
    using get_beacon_eq [OF sta_wf_addrs [OF w] sta_wf_no_ie [OF w], of 5] g by auto
  have "skb_len skb < 2 ^ 16"
    using probe_elements_length [OF sta_wf_addrs [OF w]] sta_wf_addrs [OF w]
    by (simp add: skb_len_def d beacon_bytes_def broadcast_addr_def station_addrs_def)
  then have len: "unat (rs_len ((stats_example 67)\<lparr>rs_len := word_of_nat (skb_len skb)\<rparr>)) = skb_len skb"
    by (simp add: unat_of_nat take_bit_nat_eq_self)
  have b: "sta_wf sta_looking" "sd_iw_mode sta_looking = IW_MODE_INFRA" "sd_state sta_looking = NOLINK"
    by (simp_all add: sta_wf_def sta_looking_def sta_example_def cell_example_def cell_wf_def network_wf_def network_arrays_def
        network_lengths_def network_blank_def)
  have "network_arrays network_blank" by (simp add: network_blank_def network_arrays_def)
  from master_beacon_ignored [OF w g b(1,2) len this, of 9 "[]"] b(3) g show ?thesis by auto
qed

section \<open>Two ad hoc stations\<close>

lemma strncmp_eq_take: "take n a = take n b \<Longrightarrow> strncmp_eq n a b"
proof (induction n arbitrary: a b)
  case (Suc n)
  then show ?case by (cases a; cases b) auto
qed simp

lemma new_cell_announced:
  assumes "station_addrs a" and "length rnd = 6"
  defines "s \<equiv> ibss_new_cell rnd a"
  shows "station_addrs s" and "nw_ssid (sd_network s) = nw_ssid (sd_network a)" and "nw_ssid_len (sd_network s) = nw_ssid_len (sd_network a)"
    and "sd_wpa_ie s = sd_wpa_ie a" and "probe_capability s AND CAPABILITY_IBSS \<noteq> 0"
  using assms(1,2)
  by (auto simp: s_def ibss_new_cell_def Let_def station_addrs_def network_arrays_def network_lengths_def
      ieee80211_randomize_cell_def probe_capability_def)

text \<open>A station that is looking for an ad hoc cell, takes the first new one it hears.\<close>

lemma bss_enter_fresh:
  assumes "\<forall>t \<in> set (bt_list bt). nw_bssid t \<noteq> nw_bssid n" and "bt_free bt > 0 \<or> bt_list bt \<noteq> []" and "bt_associate bt" and "bt_state bt \<noteq> LINKED"
  shows "\<exists>bt'. bss_enter j is_beacon n bt = Some (bt', Some (bss_incoming is_beacon n bt)) \<and> bt_current bt' = bt_current bt"
proof -
  have c: "bss_current j is_beacon n bt = bt_current bt" using assms(4) by (simp add: bss_current_def)
  have k: "\<forall>t \<in> set (bt_list bt). bss_key (bt_iw_mode bt) t \<noteq> bss_key (bt_iw_mode bt) n" using assms(1) by (auto simp: bss_key_def)
  show ?thesis
  proof (cases "bt_free bt = 0")
    case True
    then have "bt_list bt \<noteq> []" using assms(2) by simp
    then show ?thesis by (rule bss_enter_evict [OF k True, of j is_beacon]) (use assms(3) c in simp)
  next
    case False
    then show ?thesis using bss_enter_new [OF k, of j is_beacon] assms(3) c by simp
  qed
qed

lemma first_beacon_joins:
  assumes b: "sd_state b = NOLINK" "sd_iw_mode b = IW_MODE_ADHOC" "\<not> sd_wap_set b" "sd_ssid_set b" 
      "\<forall>t \<in> set (sd_nets b). nw_bssid t \<noteq> nw_bssid n" "sd_net_free b > 0 \<or> sd_nets b \<noteq> []"
    and p: "ieee80211_network_init j \<lparr>en_state = NOLINK, en_assoc_id = sd_assoc_id b, en_stats = stats\<rparr> beacon stack = Some (0, n)"
    and fc: "hdr_frame_ctl beacon = Some 0x0080" and cap: "nw_capability n AND CAPABILITY_IBSS \<noteq> 0"
    and name: "strncmp_eq (unat (nw_ssid_len n)) (nw_ssid (sd_network b)) (nw_ssid n)" "nw_ssid_len n \<noteq> 0" "nw_ssid n ! 0 \<noteq> 0"
  shows "\<exists>b'. sta_rx_mgt j stack beacon stats b = Some b' \<and> sd_state b' = LINKED \<and>
    sd_network b' = bss_incoming True n (sta_table b)"
proof -
  let ?t = "sta_table b" and ?n = "bss_incoming True n (sta_table b)"
  from bss_enter_fresh [of ?t n j True] obtain bt where "bss_enter j True n ?t = Some (bt, Some ?n)" and cur: "bt_current bt = sd_network b" using b by (auto simp: sta_table_def)
  then have "ieee80211_rx_mgt j stack beacon stats ?t = Some (bt, Some ?n)"
    using b p by (simp add: ieee80211_rx_mgt_def ieee80211_process_probe_response_def fc WLAN_FC_GET_STYPE_def sta_table_def)
  moreover have "nw_ssid ?n = nw_ssid n" "nw_ssid_len ?n = nw_ssid_len n" "nw_capability ?n = nw_capability n"
    by (simp_all add: bss_incoming_def)
  ultimately show ?thesis
    using b cap name cur by (simp add: sta_rx_mgt_def ieee80211_softmac_new_net_def net_wanted_def Let_def)
qed

text \<open>C29: Two stations that look for the same ad hoc network meet: when one of them has found nobody and makes a cell of
  its own, the beacon that it then sends is understood by the other one, which links to
  that very cell: same cell address, channel, name, rates and beacon interval.  The same name has been set at both by the user, and is a
  visible one; the sender has no key management element; the listener has no link, no cell set by hand, and no network with the new cell's
  random address in its table, which may be full.\<close>

theorem ibss_join:
  assumes "station_addrs a" and "sd_wpa_ie a = []" and "length rnd = 6"
    and "\<not> essid_hidden (take (unat (nw_ssid_len (sd_network a))) (nw_ssid (sd_network a)))" and "nw_ssid (sd_network a) ! 0 \<noteq> 0"
    and "sd_state b = NOLINK" "sd_iw_mode b = IW_MODE_ADHOC" "\<not> sd_wap_set b" "sd_ssid_set b"
    and "\<forall>t \<in> set (sd_nets b). nw_bssid t \<noteq> nw_bssid (sd_network (ibss_new_cell rnd a))" "sd_net_free b > 0 \<or> sd_nets b \<noteq> []"
    and "take (unat (nw_ssid_len (sd_network a))) (nw_ssid (sd_network b)) = take (unat (nw_ssid_len (sd_network a))) (nw_ssid (sd_network a))"
    and "ieee80211_get_beacon seq (ibss_new_cell rnd a) = Some (skb, seq', a')"
    and "rs_freq stats = BAND_24GHZ" and "unat (rs_len stats) = skb_len skb" and "network_arrays stack"
  shows "\<exists>b'. sta_rx_mgt j stack (skb_data skb @ tail) stats b = Some b' \<and> sd_state b' = LINKED \<and>
    same_cell (sd_network b') (sd_network (ibss_new_cell rnd a))"
proof -
  let ?s = "ibss_new_cell rnd a"
  let ?net = "sd_network ?s" and ?en = "\<lparr>en_state = NOLINK, en_assoc_id = sd_assoc_id b, en_stats = stats\<rparr>"
  note f = new_cell_announced [OF assms(1,3)]
  have wpa: "sd_wpa_ie ?s = []" using f(4) assms(2) by simp
  have k: "key_elements []" by (simp add: key_elements_def)
  have l: "unat (rs_len (en_stats ?en)) = skb_len skb" using assms(15) by simp
  note o = own_beacon_read [OF f(1) wpa assms(13) l assms(16)]
  obtain n where n: "ieee80211_network_init j ?en (skb_data skb @ tail) stack = Some (0, n)" "nw_capability n = probe_capability ?s"
    and e: "n = network_end stats (fold (ie_apply ?en) (probe_elements ?net [])
     (network_begin j stats (nw_bssid ?net) (0, 0) (nw_beacon_interval ?net) (probe_capability ?s) stack))" using o(2) [of j tail] by auto
  have vis: "\<not> essid_hidden (take (unat (nw_ssid_len ?net)) (nw_ssid ?net))" using assms(4) by (simp add: f(2,3))
  have cell: "same_cell n ?net" using beacon_elements_cell [OF f(1) k _ vis assms(16), of ?en j] assms(14) by (simp add: e)
  have len: "nw_ssid_len n = nw_ssid_len ?net" "nw_bssid n = nw_bssid ?net" using cell by (simp_all add: same_cell_def)
  have nz: "nw_ssid_len ?net \<noteq> 0" using vis by (auto simp: essid_hidden_def)
  have name: "take (unat (nw_ssid_len ?net)) (nw_ssid (sd_network b)) = take (unat (nw_ssid_len ?net)) (nw_ssid n)"
    using cell assms(12) by (simp add: same_cell_def f(2,3))
  have "nw_ssid n ! 0 \<noteq> 0"
    using cell assms(5) nz nth_take [of 0 "unat (nw_ssid_len ?net)" "nw_ssid n"]
      nth_take [of 0 "unat (nw_ssid_len ?net)" "nw_ssid ?net"] by (simp add: same_cell_def f(2,3) unat_gt_0)
  moreover have "\<forall>t \<in> set (sd_nets b). nw_bssid t \<noteq> nw_bssid n" using assms(10) len(2) by simp
  ultimately obtain b' where "sta_rx_mgt j stack (skb_data skb @ tail) stats b = Some b'" "sd_state b' = LINKED"
      "sd_network b' = bss_incoming True n (sta_table b)"
    using first_beacon_joins [OF assms(6-9) _ assms(11), of n j stats "skb_data skb @ tail" stack] n o(1) f(5) nz
      strncmp_eq_take [OF name] unfolding len by auto
  moreover have "same_cell (bss_incoming True n t) ?net" for t using cell by (simp add: same_cell_def bss_incoming_def)
  ultimately show ?thesis by auto
qed



definition sta_seeker :: station where
  "sta_seeker = sta_example\<lparr>sd_dev_addr := [2, 0, 0, 0, 0, 2], sd_network := cell_example\<lparr>nw_bssid := replicate 6 0\<rparr>, sd_ssid_set := True\<rparr>"

theorem ibss_join_witness:
  "\<exists>skb b'. ieee80211_get_beacon 5 (ibss_new_cell [1, 2, 3, 4, 5, 6] sta_example) = Some (skb, 6, ibss_new_cell [1, 2, 3, 4, 5, 6] sta_example) \<and>
    sta_rx_mgt 9 network_blank (skb_data skb @ []) (stats_example 67) sta_seeker = Some b' \<and> sd_state b' = LINKED \<and>
    same_cell (sd_network b') (sd_network (ibss_new_cell [1, 2, 3, 4, 5, 6] sta_example))"
proof -
  let ?s = "ibss_new_cell [1, 2, 3, 4, 5, 6] sta_example"
  have s: "station_addrs ?s" by (rule new_cell_announced) (simp_all add: station_addrs_example)
  have w: "sd_wpa_ie ?s = []" by (simp add: ibss_new_cell_def Let_def sta_example_def)
  obtain skb where g: "ieee80211_get_beacon 5 ?s = Some (skb, 6, ?s)"
    and d: "skb_data skb = beacon_bytes 0x0080 broadcast_addr (sd_dev_addr ?s) (nw_bssid (sd_network ?s)) (le16 (push_bit 4 5)) (0, 0)
        (nw_beacon_interval (sd_network ?s)) (probe_capability ?s) (probe_elements (sd_network ?s) [])"
    using get_beacon_eq [OF s w, of 5] by simp
  let ?n = "sd_network ?s"
  have n: "nw_ssid_len ?n = 3" "nw_rates_len ?n = 4" "nw_rates_ex_len ?n = 8" "nw_capability ?n AND CAPABILITY_IBSS \<noteq> 0"
    by (simp_all add: ibss_new_cell_def Let_def sta_example_def cell_example_def ieee80211_randomize_cell_def)
  have r: "length (nw_ssid ?n) = 33" "length (nw_rates ?n) = 12" "length (nw_rates_ex ?n) = 16" "length (nw_bssid ?n) = 6" "length (sd_dev_addr ?s) = 6"
    by (simp_all add: ibss_new_cell_def Let_def sta_example_def cell_example_def network_blank_def ieee80211_randomize_cell_def)
  have o: "ieee80211_is_54g ?n" using n by (simp add: ieee80211_is_54g_def)
  have "length (concat (map ie_bytes (probe_elements ?n []))) = 31" by (simp add: probe_elements_def n r o ie_bytes_def)
  then have len: "unat (rs_len (stats_example 67)) = skb_len skb"
    by (simp add: skb_len_def d beacon_bytes_def broadcast_addr_def r stats_example_def)
  have "\<exists>b'. sta_rx_mgt 9 network_blank (skb_data skb @ []) (stats_example 67) sta_seeker = Some b' \<and> sd_state b' = LINKED \<and>
      same_cell (sd_network b') (sd_network ?s)"
    by (rule ibss_join [OF station_addrs_example _ _ _ _ _ _ _ _ _ _ _ g _ len])
       (simp_all add: sta_example_def sta_seeker_def cell_example_def network_blank_def essid_hidden_def stats_example_def network_arrays_def)
  with g show ?thesis by blast
qed

end
