(* ===== verification/Softmac_Spec.thy ===== *)
theory Softmac_Spec
  imports Softmac_Meet
begin

text \<open>
  What the link promises: it never fails and keeps its invariant, an attempt to associate comes to an end, and the
  one work that is not cancelled when the protocol stops.
\<close>

section \<open>Runs\<close>

text \<open>A run takes enabled events only; it fails where a step does.\<close>

fun sta_run :: "(sk_buff \<Rightarrow> sk_buff option) \<Rightarrow> sta_event list \<Rightarrow> station \<Rightarrow> station option" where
  "sta_run seal [] sd = Some sd"
| "sta_run seal (ev # evs) sd = (if sta_enabled ev sd then sta_step seal ev sd \<bind> sta_run seal evs else None)"

inductive sta_reach :: "(sk_buff \<Rightarrow> sk_buff option) \<Rightarrow> station \<Rightarrow> station \<Rightarrow> bool" for seal where
  reach_refl: "sta_reach seal sd sd"
| reach_step: "\<lbrakk>sta_reach seal sd sd1; sta_enabled ev sd1; sta_event_ok ev sd1; sta_step seal ev sd1 = Some sd2\<rbrakk> \<Longrightarrow> sta_reach seal sd sd2"

lemma sta_reach_inv:
  assumes "sta_reach seal sd sd'" and "sta_inv sd" and "\<forall>f. \<exists>g. seal f = Some g"
  shows "sta_inv sd'"
  using assms
proof (induction rule: sta_reach.induct)
  case (reach_step sd sd1 ev sd2)
  from sta_step_inv [of sd1 ev seal] reach_step show ?case by auto
qed

text \<open>A fresh station: whatever it was before, after \<open>ieee80211_softmac_init\<close> it satisfies the invariant.\<close>

lemma softmac_init_inv:
  assumes "length (sd_dev_addr sd) = 6" and "length (sd_channel_map sd) = 162" and "sd_wpa_ie sd = []" and "sd_nets sd = []"
    and "sd_net_free sd = 128"
  shows "sta_inv (ieee80211_softmac_init sd)"
  using assms by (simp add: sta_inv_def sta_live_def sta_wf_def ieee80211_softmac_init_def cell_wf_def network_wf_def network_arrays_def
      network_lengths_def network_blank_def sta_work_none_def)


definition sta_new :: station where
  "sta_new = ieee80211_softmac_init sta_example"

lemma sta_new_reach:
  "sta_reach Some sta_new (ieee80211_softmac_start_protocol (snd (ieee80211_wx_set_essid True [110, 101, 116] sta_new)))"
  by (rule reach_step [of _ _ "snd (ieee80211_wx_set_essid True [110, 101, 116] sta_new)" Start_Protocol,
        OF reach_step [of _ _ sta_new "Set_Essid True [110, 101, 116]", OF reach_refl]])
     (simp_all add: sta_new_def ieee80211_softmac_init_def sta_work_none_def)


section \<open>The end of an attempt\<close>

lemma step1_core:
  assumes "sta_wf sd"
  shows "\<exists>sd'. ieee80211_associate_step1 True sd = Some sd' \<and> sta_core sd' =
    sta_core (sta_queue (wk_associate_timer_update (\<lambda>_. True)) (sd\<lparr>sd_state := ASSOCIATING_AUTHENTICATING\<rparr>))"
proof -
  let ?s = "sta_stat (ss_tx_auth_rq_update (\<lambda>n. n + 1)) sd"
  have w: "sta_wf ?s" using assms by simp
  obtain skb where r: "ieee80211_authentication_req (sd_network ?s) 0 ?s = Some (skb, ?s\<lparr>sd_associate_seq := sd_associate_seq ?s + 1\<rparr>)"
    using authentication_req_ok [OF w, of 0] by blast
  let ?t = "?s\<lparr>sd_associate_seq := sd_associate_seq ?s + 1, sd_state := ASSOCIATING_AUTHENTICATING\<rparr>"
  have "sta_wf ?t" using assms by simp
  from mgmt_xmit_ok [OF this, of skb] obtain u where u: "sta_mgmt_xmit skb ?t = Some u" "sta_core u = sta_core ?t" by blast
  then have "ieee80211_associate_step1 True sd = Some (sta_queue (wk_associate_timer_update (\<lambda>_. True)) u)"
    using r unfolding ieee80211_associate_step1_def Let_def by simp
  moreover have "sta_core (sta_queue (wk_associate_timer_update (\<lambda>_. True)) u) =
    sta_core (sta_queue (wk_associate_timer_update (\<lambda>_. True)) (sd\<lparr>sd_state := ASSOCIATING_AUTHENTICATING\<rparr>))"
    using u(2) by (simp add: sta_core_def sta_queue_def sta_stat_def)
  ultimately show ?thesis by blast
qed

lemma procedure_core:
  assumes "sta_wf sd"
  shows "\<exists>sd'. ieee80211_associate_procedure_wq True sd = Some sd' \<and> sta_core sd' =
    sta_core (sta_queue (wk_associate_timer_update (\<lambda>_. True)) (sd\<lparr>sd_state := ASSOCIATING_AUTHENTICATING\<rparr>))"
proof -
  let ?q = "ieee80211_stop_scan (sta_put Data_Hard_Stop (sd\<lparr>sd_sync_scan_hurryup := True\<rparr>))"
  let ?t = "(sta_put (Set_Chan (nw_channel (sd_network ?q))) ?q)\<lparr>sd_associate_seq := 1\<rparr>"
  have q: "sta_core ?q = sta_core sd" by simp (simp add: sta_core_def)
  have "sta_wf ?t" using assms sta_coreD(6) [OF q] by simp
  from step1_core [OF this] obtain sd' where "ieee80211_associate_step1 True ?t = Some sd'"
    and c: "sta_core sd' = sta_core (sta_queue (wk_associate_timer_update (\<lambda>_. True)) (?t\<lparr>sd_state := ASSOCIATING_AUTHENTICATING\<rparr>))" by blast
  moreover have "sta_core (sta_queue (wk_associate_timer_update (\<lambda>_. True)) (?t\<lparr>sd_state := ASSOCIATING_AUTHENTICATING\<rparr>)) =
    sta_core (sta_queue (wk_associate_timer_update (\<lambda>_. True)) (sd\<lparr>sd_state := ASSOCIATING_AUTHENTICATING\<rparr>))"
    using q by (simp add: sta_core_def sta_queue_def sta_put_def)
  ultimately show ?thesis by (simp add: ieee80211_associate_procedure_wq_def Let_def)
qed

lemma new_net_scanning: "sd_scanning (ieee80211_softmac_new_net n sd) = sd_scanning sd"
  by (simp add: ieee80211_softmac_new_net_def sta_queue_def Let_def)

lemma new_net_state:
  assumes "sd_iw_mode sd = IW_MODE_INFRA" and "sd_state sd = NOLINK"
  shows "sd_state (ieee80211_softmac_new_net n sd) \<in> {NOLINK, ASSOCIATING} \<and> sd_iw_mode (ieee80211_softmac_new_net n sd) = IW_MODE_INFRA"
  using assms by (auto simp: ieee80211_softmac_new_net_def Let_def)

lemma check_nets_state:
  assumes "sd_iw_mode sd = IW_MODE_INFRA" and "sd_state sd \<in> {NOLINK, ASSOCIATING}"
  shows "sd_state (check_nets_loop nets sd) \<in> {NOLINK, ASSOCIATING}"
  using assms
proof (induction nets arbitrary: sd)
  case (Cons n nets)
  show ?case
  proof (cases "sd_state sd = NOLINK")
    case True
    then show ?thesis using Cons.IH new_net_state [OF Cons.prems(1) True, of n] by simp
  qed (use Cons.prems in simp)
qed simp

lemma step1_state: "ieee80211_associate_step1 True sd = Some sd' \<Longrightarrow> sta_wf sd \<Longrightarrow> sd_state sd' = ASSOCIATING_AUTHENTICATING \<and>
    sd_iw_mode sd' = sd_iw_mode sd \<and> sd_proto_started sd' = sd_proto_started sd"
proof -
  assume e: "ieee80211_associate_step1 True sd = Some sd'" and wf: "sta_wf sd"
  let ?s = "sta_stat (ss_tx_auth_rq_update (\<lambda>n. n + 1)) sd"
  have w: "sta_wf ?s" using wf by simp
  obtain skb where r: "ieee80211_authentication_req (sd_network ?s) 0 ?s = Some (skb, ?s\<lparr>sd_associate_seq := sd_associate_seq ?s + 1\<rparr>)"
    using authentication_req_ok [OF w, of 0] by blast
  let ?t = "?s\<lparr>sd_associate_seq := sd_associate_seq ?s + 1, sd_state := ASSOCIATING_AUTHENTICATING\<rparr>"
  have "sta_wf ?t" using wf by simp
  from mgmt_xmit_ok [OF this, of skb] obtain u where u: "sta_mgmt_xmit skb ?t = Some u" "sta_core u = sta_core ?t" by blast
  then have "sd' = sta_queue (wk_associate_timer_update (\<lambda>_. True)) u"
    using e r unfolding ieee80211_associate_step1_def Let_def by simp
  then show ?thesis using sta_coreD(1,3,4) [OF u(2)] by simp
qed

text \<open>Given up and scanning, or at the start of another attempt.\<close>

definition attempt_over :: "station \<Rightarrow> bool" where
  "attempt_over sd \<longleftrightarrow> sta_inv sd \<and>
     (sd_state sd = NOLINK \<and> sd_scanning sd \<noteq> 0 \<or> sd_state sd = ASSOCIATING \<and> wk_associate_procedure (sd_work sd))"

lemma some_seal: "\<forall>f. \<exists>g. Some f = Some (g :: sk_buff)" by simp

lemma retry_run:
  assumes i: "sta_inv s" "sd_proto_started s" "sd_iw_mode s = IW_MODE_INFRA" "sd_state s = ASSOCIATING_RETRY"
  shows "\<exists>sd'. sta_run Some [Retry_Work] s = Some sd' \<and> attempt_over sd'"
proof -
  have en: "sta_enabled Retry_Work s" using i by (simp add: sta_inv_def sta_live_def)
  obtain s' where s': "sta_step Some Retry_Work s = Some s'" "sta_inv s'" using sta_step_inv [OF i(1) en _ some_seal] by auto
  let ?q = "(sta_queue (wk_associate_retry_update (\<lambda>_. False)) s)\<lparr>sd_state := NOLINK, sd_beinretry := True\<rparr>"
  have st: "sd_state (ieee80211_softmac_check_all_nets ?q) \<in> {NOLINK, ASSOCIATING}"
    unfolding ieee80211_softmac_check_all_nets_def by (rule check_nets_state) (use i in simp_all)
  have e: "s' = (if sd_state (ieee80211_softmac_check_all_nets ?q) = NOLINK
      then ieee80211_start_scan ((ieee80211_softmac_check_all_nets ?q)\<lparr>sd_beinretry := False, sd_actscanning := True\<rparr>)
      else ieee80211_softmac_check_all_nets ?q)"
    using s'(1) i by (simp add: ieee80211_associate_retry_wq_def Let_def)
  have scan: "sd_scanning (ieee80211_start_scan x) \<noteq> 0 \<and> sd_state (ieee80211_start_scan x) = sd_state x" for x
    by (simp add: ieee80211_start_scan_def) (simp add: sta_queue_def)
  have "attempt_over s'"
  proof (cases "sd_state (ieee80211_softmac_check_all_nets ?q) = NOLINK")
    case True
    then show ?thesis
      using s'(2) scan [of "(ieee80211_softmac_check_all_nets ?q)\<lparr>sd_beinretry := False, sd_actscanning := True\<rparr>"]
      unfolding e attempt_over_def by simp
  next
    case False
    then have a: "sd_state s' = ASSOCIATING" using e st by simp
    then have "wk_associate_procedure (sd_work s')" using s'(2) by (auto simp: sta_inv_def sta_live_def split: if_split_asm)
    then show ?thesis using a s'(2) by (simp add: attempt_over_def)
  qed
  then show ?thesis using en s' by simp
qed

lemma timer_run:
  assumes i: "sta_inv s" "sd_proto_started s" "sd_iw_mode s = IW_MODE_INFRA"
    "sd_state s \<in> {ASSOCIATING_AUTHENTICATING, ASSOCIATING_AUTHENTICATED}"
  shows "\<exists>sd'. sta_run Some [Assoc_Timer, Retry_Work] s = Some sd' \<and> attempt_over sd'"
proof -
  have en: "sta_enabled Assoc_Timer s" using i by (auto simp: sta_inv_def sta_live_def)
  obtain s' where s': "sta_step Some Assoc_Timer s = Some s'" "sta_inv s'" using sta_step_inv [OF i(1) en _ some_seal] by auto
  then have "sd_state s' = ASSOCIATING_RETRY" "sd_proto_started s'" "sd_iw_mode s' = IW_MODE_INFRA"
    using i by (auto simp: ieee80211_associate_abort_def Let_def)
  from retry_run [OF s'(2) this(2,3,1)] show ?thesis using en s'(1) by simp
qed

lemma procedure_run:
  assumes i: "sta_inv s" "sd_proto_started s" "sd_iw_mode s = IW_MODE_INFRA" "sd_state s = ASSOCIATING"
  shows "\<exists>sd'. sta_run Some [Procedure_Work True, Assoc_Timer, Retry_Work] s = Some sd' \<and> attempt_over sd'"
proof -
  have en: "sta_enabled (Procedure_Work True) s" using i by (simp add: sta_inv_def sta_live_def)
  obtain s' where s': "sta_step Some (Procedure_Work True) s = Some s'" "sta_inv s'"
    using sta_step_inv [OF i(1) en _ some_seal] by auto
  let ?q = "sta_put Data_Hard_Stop ((sta_queue (wk_associate_procedure_update (\<lambda>_. False)) s)\<lparr>sd_sync_scan_hurryup := True\<rparr>)"
  have c: "sta_core (ieee80211_stop_scan ?q) = sta_core ?q" by simp
  have "sta_wf ?q" using i(1) by (simp add: sta_inv_def)
  then have "sd_state s' = ASSOCIATING_AUTHENTICATING \<and> sd_iw_mode s' = IW_MODE_INFRA \<and> sd_proto_started s'"
    using s'(1) step1_state [of "(sta_put (Set_Chan (nw_channel (sd_network (ieee80211_stop_scan ?q)))) (ieee80211_stop_scan ?q))\<lparr>sd_associate_seq := 1\<rparr>" s']
      i sta_coreD [OF c] by (simp add: ieee80211_associate_procedure_wq_def Let_def)
  with timer_run [OF s'(2)] show ?thesis using en s'(1) by simp
qed

text \<open>The events of an attempt nobody answers.\<close>

fun attempt_event :: "sta_event \<Rightarrow> bool" where
  "attempt_event (Procedure_Work al) = True"
| "attempt_event Assoc_Timer = True"
| "attempt_event Retry_Work = True"
| "attempt_event _ = False"

definition attempting :: "station \<Rightarrow> bool" where
  "attempting sd \<longleftrightarrow> sta_inv sd \<and> sd_proto_started sd \<and> sd_iw_mode sd = IW_MODE_INFRA \<and>
     sd_state sd \<in> {ASSOCIATING, ASSOCIATING_AUTHENTICATING, ASSOCIATING_AUTHENTICATED, ASSOCIATING_RETRY}"

text \<open>What is pending, in the number of events it can still cause.\<close>

definition attempt_left :: "station \<Rightarrow> nat" where
  "attempt_left sd = (if wk_associate_procedure (sd_work sd) then 3 else 0) + (if wk_associate_timer (sd_work sd) then 2 else 0) +
     (if wk_associate_retry (sd_work sd) then 1 else 0)"

lemma attempt_left_le: "attempt_left sd \<le> 6"
  by (simp add: attempt_left_def)

lemma attempting_enabled:
  assumes "attempting sd"
  shows "\<exists>ev sd'. attempt_event ev \<and> sta_enabled ev sd \<and> sta_step Some ev sd = Some sd'" "0 < attempt_left sd"
proof -
  have i: "sta_inv sd" and p: "wk_associate_procedure (sd_work sd) \<or> wk_associate_timer (sd_work sd) \<or> wk_associate_retry (sd_work sd)"
    using assms by (auto simp: attempting_def sta_inv_def sta_live_def)
  then show "0 < attempt_left sd" by (auto simp: attempt_left_def)
  from p have "\<exists>ev. attempt_event ev \<and> sta_enabled ev sd \<and> sta_event_ok ev sd"
    by (auto intro: exI [of _ "Procedure_Work True"] exI [of _ Assoc_Timer] exI [of _ Retry_Work])
  then show "\<exists>ev sd'. attempt_event ev \<and> sta_enabled ev sd \<and> sta_step Some ev sd = Some sd'" using sta_step_inv [OF i _ _ some_seal] by blast
qed

lemma procedure_fails:
  assumes "ieee80211_associate_procedure_wq False sd = Some sd'"
  shows "sd_state sd' = ASSOCIATING_RETRY" "sd_iw_mode sd' = sd_iw_mode sd" "sd_proto_started sd' = sd_proto_started sd"
    "wk_associate_retry (sd_work sd')" "wk_associate_timer (sd_work sd') = wk_associate_timer (sd_work sd)"
    "wk_associate_procedure (sd_work sd') = wk_associate_procedure (sd_work sd)"
proof -
  let ?q = "ieee80211_stop_scan (sta_put Data_Hard_Stop (sd\<lparr>sd_sync_scan_hurryup := True\<rparr>))"
  let ?t = "(sta_put (Set_Chan (nw_channel (sd_network ?q))) ?q)\<lparr>sd_associate_seq := 1\<rparr>"
  have e: "sd' = ieee80211_associate_abort (sta_stat (ss_tx_auth_rq_update (\<lambda>n. n + 1)) ?t)"
    using assms unfolding ieee80211_associate_procedure_wq_def ieee80211_associate_step1_def Let_def by simp
  have q: "sta_core ?q = sta_core sd" by simp (simp add: sta_core_def)
  note d = sta_coreD [OF q]
  show "sd_state sd' = ASSOCIATING_RETRY" "sd_iw_mode sd' = sd_iw_mode sd" "sd_proto_started sd' = sd_proto_started sd"
    "wk_associate_retry (sd_work sd')" "wk_associate_timer (sd_work sd') = wk_associate_timer (sd_work sd)"
    "wk_associate_procedure (sd_work sd') = wk_associate_procedure (sd_work sd)"
    using d by (simp_all add: e ieee80211_associate_abort_def Let_def)
qed

text \<open>Each of these events uses something up, until the retry that ends the attempt.\<close>

lemma attempt_step:
  assumes a: "attempting sd" and ev: "attempt_event ev" "sta_enabled ev sd" "sta_step Some ev sd = Some sd'"
  shows "(ev = Retry_Work \<and> sd_state sd = ASSOCIATING_RETRY \<and> attempt_over sd') \<or> (attempting sd' \<and> attempt_left sd' < attempt_left sd)"
proof -
  have i: "sta_inv sd" "sd_proto_started sd" "sd_iw_mode sd = IW_MODE_INFRA" using a by (simp_all add: attempting_def)
  have "sta_event_ok ev sd" using ev(1) by (cases ev) simp_all
  from sta_step_inv [OF i(1) ev(2) this some_seal] ev(3) have i': "sta_inv sd'" by simp
  show ?thesis
  proof (cases ev)
    case (Procedure_Work al)
    let ?p = "sta_queue (wk_associate_procedure_update (\<lambda>_. False)) sd"
    have p: "ieee80211_associate_procedure_wq al ?p = Some sd'" "wk_associate_procedure (sd_work sd)" using ev Procedure_Work by simp_all
    have "sta_wf ?p" using i(1) by (simp add: sta_inv_def)
    from procedure_core [OF this] p(1) have c: "al \<Longrightarrow> sta_core sd' = sta_core (sta_queue (wk_associate_timer_update (\<lambda>_. True)) (?p\<lparr>sd_state := ASSOCIATING_AUTHENTICATING\<rparr>))"
      by auto
    show ?thesis
    proof (cases al)
      case True
      from sta_coreD [OF c [OF True]] i i' p(2) show ?thesis by (simp add: attempting_def attempt_left_def)
    next
      case False
      with p(1) have "ieee80211_associate_procedure_wq False ?p = Some sd'" by simp
      from procedure_fails [OF this] i i' p(2) show ?thesis by (simp add: attempting_def attempt_left_def)
    qed
  next
    case Assoc_Timer
    then have "wk_associate_timer (sd_work sd)" "sd' = ieee80211_associate_abort (sta_queue (wk_associate_timer_update (\<lambda>_. False)) sd)"
      using ev by simp_all
    then show ?thesis using i i' by (simp add: attempting_def attempt_left_def ieee80211_associate_abort_def Let_def)
  next
    case Retry_Work
    show ?thesis
    proof (cases "sd_state sd = ASSOCIATING_RETRY")
      case True
      from retry_run [OF i True] ev Retry_Work show ?thesis using True by simp
    next
      case False
      then have "sd' = sta_queue (wk_associate_retry_update (\<lambda>_. False)) sd" "wk_associate_retry (sd_work sd)"
        using ev Retry_Work i(2) by (simp_all add: ieee80211_associate_retry_wq_def sta_queue_def)
      then show ?thesis using a i' by (auto simp: attempting_def attempt_left_def)
    qed
  qed (use ev in simp_all)
qed

lemma attempt_run:
  assumes "attempting sd" "list_all attempt_event evs" "sta_run Some evs sd = Some sd'"
  shows "(\<exists>n s s'. n < length evs \<and> n < attempt_left sd \<and> sta_run Some (take n evs) sd = Some s \<and> sd_state s = ASSOCIATING_RETRY \<and>
      evs ! n = Retry_Work \<and> sta_run Some (take (Suc n) evs) sd = Some s' \<and> attempt_over s') \<or>
    (attempting sd' \<and> length evs + attempt_left sd' \<le> attempt_left sd)"
  using assms
proof (induction evs arbitrary: sd)
  case Nil
  then show ?case by simp
next
  case (Cons ev evs)
  then obtain q where q: "sta_enabled ev sd" "sta_step Some ev sd = Some q" "sta_run Some evs q = Some sd'"
    by (auto simp: bind_eq_Some_conv split: if_splits)
  have "attempt_event ev" using Cons.prems(2) by simp
  from attempt_step [OF Cons.prems(1) this q(1,2)] show ?case
  proof
    assume o: "ev = Retry_Work \<and> sd_state sd = ASSOCIATING_RETRY \<and> attempt_over q"
    have "0 < attempt_left sd" by (rule attempting_enabled(2) [OF Cons.prems(1)])
    with o q show ?thesis by (intro disjI1 exI [of _ 0] exI [of _ sd] exI [of _ q]) simp
  next
    assume g: "attempting q \<and> attempt_left q < attempt_left sd"
    from Cons.IH [of q] g Cons.prems(2) q(3)
    consider n s s' where "n < length evs" "n < attempt_left q" "sta_run Some (take n evs) q = Some s" "sd_state s = ASSOCIATING_RETRY"
        "evs ! n = Retry_Work" "sta_run Some (take (Suc n) evs) q = Some s'" "attempt_over s'"
      | "attempting sd'" "length evs + attempt_left sd' \<le> attempt_left q" by auto
    then show ?thesis
    proof cases
      case 1
      then show ?thesis using g q by (intro disjI1 exI [of _ "Suc n"] exI [of _ s] exI [of _ s']) simp
    next
      case 2
      then show ?thesis using g by simp
    qed
  qed
qed


text \<open>A managed station that has just chosen the cell of the example.\<close>

definition sta_joining :: station where
  "sta_joining = sta_example\<lparr>sd_iw_mode := IW_MODE_INFRA, sd_proto_started := True, sd_state := ASSOCIATING,
     sd_work := sta_work_none\<lparr>wk_associate_procedure := True\<rparr>\<rparr>"

lemma sta_joining_inv: "sta_inv sta_joining"
  by (simp add: sta_inv_def sta_live_def sta_wf_def sta_joining_def sta_example_def cell_example_def cell_wf_def network_wf_def
      network_arrays_def network_lengths_def network_blank_def sta_work_none_def)


section \<open>A work that comes too late\<close>

lemma stop_start_facts:
  assumes "sd_proto_started sd"
  shows "sd_state (ieee80211_softmac_stop_protocol sd) = NOLINK" and "\<not> sd_proto_started (ieee80211_softmac_stop_protocol sd)"
    and "sd_iw_mode (ieee80211_softmac_stop_protocol sd) = sd_iw_mode sd"
    and "wk_associate_procedure (sd_work (ieee80211_softmac_stop_protocol sd)) = wk_associate_procedure (sd_work sd)"
    and "\<not> wk_associate_retry (sd_work (ieee80211_softmac_stop_protocol sd))"
    and "sta_wf sd \<Longrightarrow> sta_wf (ieee80211_softmac_stop_protocol sd)"
proof -
  let ?s = "sta_queue (\<lambda>w. w\<lparr>wk_associate_timer := False, wk_associate_retry := False, wk_start_ibss := False\<rparr>)
    (ieee80211_stop_send_beacons (sd\<lparr>sd_sync_scan_hurryup := True, sd_proto_started := False\<rparr>))"
  have c: "sta_core (ieee80211_stop_scan ?s) = sta_core ?s" by simp
  note d = sta_coreD [OF c]
  have cw: "cell_wf (sd_network (ieee80211_stop_scan ?s))" if "sta_wf sd"
    using that d(2) by (simp add: sta_wf_def ieee80211_stop_send_beacons_def)
  show "sd_state (ieee80211_softmac_stop_protocol sd) = NOLINK" "\<not> sd_proto_started (ieee80211_softmac_stop_protocol sd)"
    "sd_iw_mode (ieee80211_softmac_stop_protocol sd) = sd_iw_mode sd"
    "wk_associate_procedure (sd_work (ieee80211_softmac_stop_protocol sd)) = wk_associate_procedure (sd_work sd)"
    "\<not> wk_associate_retry (sd_work (ieee80211_softmac_stop_protocol sd))"
    using assms d by (simp_all add: ieee80211_softmac_stop_protocol_def ieee80211_stop_protocol_def ieee80211_disassociate_def
        notify_wx_assoc_event_def Let_def ieee80211_stop_send_beacons_def)
  show "sta_wf (ieee80211_softmac_stop_protocol sd)" if "sta_wf sd"
    using that assms d(6) cell_wf_bssid [OF cw [OF that], of "replicate 6 0x22"]
    by (auto intro!: sta_wf_network simp: ieee80211_softmac_stop_protocol_def ieee80211_stop_protocol_def ieee80211_disassociate_def
        notify_wx_assoc_event_def Let_def ieee80211_stop_send_beacons_def)
qed


lemma stop_scanning:
  assumes "sd_proto_started sd" and "sd_scanning sd \<in> {0, 1}"
  shows "sd_scanning (ieee80211_softmac_stop_protocol sd) = 0"
  using assms by (auto simp: ieee80211_softmac_stop_protocol_def ieee80211_stop_protocol_def ieee80211_disassociate_def
      notify_wx_assoc_event_def Let_def ieee80211_stop_send_beacons_def ieee80211_stop_scan_def sta_put_def sta_queue_def)

text \<open>A managed station that waits for a retry nobody will start.\<close>

definition wedged :: "station \<Rightarrow> bool" where
  "wedged sd \<longleftrightarrow> sta_wf sd \<and> sd_proto_started sd \<and> sd_iw_mode sd = IW_MODE_INFRA \<and> sd_state sd = ASSOCIATING_RETRY \<and>
     \<not> wk_associate_procedure (sd_work sd) \<and> \<not> wk_associate_timer (sd_work sd) \<and> \<not> wk_associate_retry (sd_work sd) \<and>
     \<not> wk_start_ibss (sd_work sd)"

text \<open>And no scan is under way.\<close>

definition stuck :: "station \<Rightarrow> bool" where
  "stuck sd \<longleftrightarrow> wedged sd \<and> sd_scanning sd = 0"

lemma wedged_core:
  assumes "sta_core a = sta_core b"
  shows "wedged a = wedged b"
  unfolding wedged_def sta_coreD [OF assms] ..

fun network_event :: "sta_event \<Rightarrow> bool" where
  "network_event (Scan_Work al) = True"
| "network_event Retry_Work = True"
| "network_event Complete_Work = True"
| "network_event (Procedure_Work al) = True"
| "network_event Assoc_Timer = True"
| "network_event (Beacon_Timer al) = True"
| "network_event (Ibss_Work rnd al meanwhile) = True"
| "network_event (Rx_Frame jiffies al skb) = True"
| "network_event (Rx_Beacon jiffies stack beacon stats) = True"
| "network_event _ = False"

lemma wedged_rx_eq:
  assumes w: "wedged sd" and e: "ieee80211_rx_frame_softmac seal jiffies al skb sd = Some (r, sd')"
  shows "sd_scanning sd' = sd_scanning sd \<and> sta_core sd' = sta_core sd"
proof -
  have up: "sd_proto_started sd" using w by (simp add: wedged_def)
  have "hdr_frame_ctl (skb_data skb) = None \<Longrightarrow> ieee80211_rx_frame_softmac seal jiffies al skb sd = None"
    unfolding ieee80211_rx_frame_softmac_def using up by simp
  then obtain fc where fc: "hdr_frame_ctl (skb_data skb) = Some fc" using e by fastforce
  define s1 where "s1 = (if sd_sta_sleep sd \<noteq> 0 \<or> (sd_ps sd \<noteq> 0 \<and> sd_iw_mode sd = IW_MODE_INFRA \<and> sd_state sd = LINKED)
    then sta_queue (wk_ps_task_update (\<lambda>_. True)) sd else sd)"
  define s2 where "s2 = (if WLAN_FC_GET_STYPE fc \<noteq> 0x0050 \<and> WLAN_FC_GET_STYPE fc \<noteq> 0x0080 then s1\<lparr>sd_last_rx_ps_time := jiffies\<rparr> else s1)"
  have c: "sta_core s2 = sta_core sd" by (simp add: s2_def s1_def sta_core_def sta_queue_def)
  have w2: "wedged s2" using w wedged_core [OF c] by simp
  then have f: "rx_assoc_resp skb s2 = Some s2" "rx_auth seal al skb s2 = Some s2" "rx_disassoc s2 = s2" "sd_iw_mode s2 = IW_MODE_INFRA"
    by (simp_all add: wedged_def rx_assoc_resp_def rx_auth_def rx_disassoc_def)
  have "ieee80211_rx_frame_softmac seal jiffies al skb sd = Some (0, s2) \<or> ieee80211_rx_frame_softmac seal jiffies al skb sd = Some (- 1, s2)"
    using up f unfolding ieee80211_rx_frame_softmac_def fc Option.bind.bind_lunit Let_def s1_def [symmetric] s2_def [symmetric]
    by simp
  then have "sd' = s2" using e by auto
  moreover have "sd_scanning s2 = sd_scanning sd" by (simp add: s2_def s1_def sta_queue_def)
  ultimately show ?thesis using c by simp
qed

lemma wedged_rx: "wedged sd \<Longrightarrow> ieee80211_rx_frame_softmac seal jiffies al skb sd = Some (r, sd') \<Longrightarrow> wedged sd'"
  using wedged_rx_eq wedged_core by blast

lemma wedged_rx_scanning:
  assumes w: "wedged sd" and e: "ieee80211_rx_frame_softmac seal jiffies al skb sd = Some (r, sd')"
  shows "sd_scanning sd' = sd_scanning sd"
  using wedged_rx_eq [OF w e] by simp

lemma wedged_stays:
  assumes w: "wedged sd" and n: "network_event ev" and en: "sta_enabled ev sd" and ok: "sta_event_ok ev sd"
    and st: "sta_step Some ev sd = Some sd'"
  shows "wedged sd'"
proof (cases ev)
  case (Scan_Work al)
  obtain f t where ft: "scan_next (sta_queue (wk_softmac_scan_update (\<lambda>_. False)) sd) = (f, t)"
    by (cases "scan_next (sta_queue (wk_softmac_scan_update (\<lambda>_. False)) sd)")
  have t: "wedged t" using w scan_next_facts [of "sta_queue (wk_softmac_scan_update (\<lambda>_. False)) sd"] ft by (simp add: wedged_def)
  have fin: "wedged (x\<lparr>sd_actscanning := False, sd_scan_watchdog := 0\<rparr>) = wedged x" for x by (rule wedged_core) (simp add: sta_core_def)
  have q: "wedged (sta_queue (wk_softmac_scan_update (\<lambda>_. b)) x) = wedged x" for x b by (rule wedged_core) (simp add: sta_core_def sta_queue_def)
  have "sta_wf (sta_put (Set_Chan (nw_channel (sd_network t))) t)" using t by (simp add: wedged_def)
  from send_probes_ok [OF this, of al] obtain u
    where u: "ieee80211_send_probe_requests al (sta_put (Set_Chan (nw_channel (sd_network t))) t) = Some u" "sta_core u = sta_core t" by auto
  have "wedged u" using t wedged_core [OF u(2)] by simp
  then show ?thesis using st Scan_Work w t ft u(1)
    by (cases f; cases "sd_scanning (sta_queue (wk_softmac_scan_update (\<lambda>_. False)) sd) = 0") (auto simp: ieee80211_softmac_scan_wq_def fin q)
next
  case Complete_Work
  have "sta_core (x\<lparr>sd_rate := a\<rparr>) = sta_core x" for x a by (simp add: sta_core_def)
  then have "sta_core (ieee80211_associate_complete_wq x) = sta_core x" for x
    by (simp add: ieee80211_associate_complete_wq_def notify_wx_assoc_event_def Let_def)
  moreover have "sta_core (sta_queue (wk_associate_complete_update (\<lambda>_. False)) sd) = sta_core sd" by (simp add: sta_core_def sta_queue_def)
  ultimately show ?thesis using st Complete_Work w by (auto dest: wedged_core)
next
  case (Beacon_Timer al)
  have c: "sta_core (sta_queue (wk_beacon_timer_update (\<lambda>_. False)) sd) = sta_core sd" by (simp add: sta_core_def sta_queue_def)
  have "sta_wf (sta_queue (wk_beacon_timer_update (\<lambda>_. False)) sd)" using w by (simp add: wedged_def)
  from send_beacon_ok [OF this, of al] have "sta_core sd' = sta_core sd" using st Beacon_Timer c by auto
  then show ?thesis using w wedged_core by blast
next
  case (Rx_Frame j al skb)
  then show ?thesis using st wedged_rx [OF w] by fastforce
next
  case (Rx_Beacon j stack beacon stats)
  then have o: "network_arrays stack" "36 \<le> unat (rs_len stats)" "unat (rs_len stats) < length beacon" using ok by simp_all
  have wf: "sta_wf sd" using w by (simp add: wedged_def)
  have "nets_wf (sta_table sd)" using wf by (simp add: nets_wf_def sta_table_def sta_wf_def)
  from rx_mgt_cells [OF this o, of j] obtain bt r
    where r: "ieee80211_rx_mgt j stack beacon stats (sta_table sd) = Some (bt, r)" "nets_wf bt" by blast
  let ?s = "sd\<lparr>sd_nets := bt_list bt, sd_net_free := bt_free bt, sd_network := bt_current bt\<rparr>"
  have "sta_wf ?s" using wf r(2) by (simp add: sta_wf_def nets_wf_def)
  moreover have "sd' = ?s" using st Rx_Beacon r(1) w
    by (cases r) (simp_all add: sta_rx_mgt_def wedged_def ieee80211_softmac_new_net_def Let_def)
  ultimately show ?thesis using w by (simp add: wedged_def)
qed (use w n en in \<open>simp_all add: wedged_def\<close>)

lemma start_wedged:
  assumes "sta_wf sd" and "sd_state sd = ASSOCIATING_RETRY" and "sd_iw_mode sd = IW_MODE_INFRA" and "\<not> sd_proto_started sd"
    and "\<not> wk_associate_procedure (sd_work sd)" and "\<not> wk_associate_timer (sd_work sd)" and "\<not> wk_associate_retry (sd_work sd)"
    and "\<not> wk_start_ibss (sd_work sd)"
  shows "wedged (ieee80211_softmac_start_protocol sd)"
proof -
  have same: "ieee80211_softmac_check_all_nets s = s" if "sd_state s = ASSOCIATING_RETRY" for s
    using that by (cases "sd_nets s") (simp_all add: ieee80211_softmac_check_all_nets_def)
  have c: "cell_wf (sd_network sd)" using assms(1) by (simp add: sta_wf_def)
  have ch: "wedged (start_with_channel s)" if "sta_wf s" "sd_state s = ASSOCIATING_RETRY" "sd_iw_mode s = IW_MODE_INFRA" "sd_proto_started s"
    "sd_work s = sd_work sd" for s
  proof -
    have "cell_wf (sd_network s)" using that(1) by (simp add: sta_wf_def)
    then have "cell_wf (if nw_beacon_interval (sd_network s) = 0 then (sd_network s)\<lparr>nw_beacon_interval := 100\<rparr> else sd_network s)" by simp
    from sta_wf_network [OF that(1) this] show ?thesis
      using that assms unfolding start_with_channel_def Let_def start_mode_def ieee80211_start_bss_def wedged_def
      by (simp add: same)
  qed
  let ?up = "sd\<lparr>sd_sync_scan_hurryup := False, sd_proto_started := True\<rparr>"
  have "sta_wf (?up\<lparr>sd_network := (sd_network sd)\<lparr>nw_channel := a\<rparr>\<rparr>)" for a using assms(1) by (simp add: sta_wf_def)
  then have on: "wedged (start_with_channel (?up\<lparr>sd_network := (sd_network sd)\<lparr>nw_channel := a\<rparr>\<rparr>))" for a
    using ch [of "?up\<lparr>sd_network := (sd_network sd)\<lparr>nw_channel := a\<rparr>\<rparr>"] assms by simp
  have "wedged (start_with_channel ?up)" using ch [of ?up] assms by simp
  moreover have "wedged ?up" using assms by (simp add: wedged_def)
  ultimately show ?thesis
    using on assms(4) unfolding ieee80211_softmac_start_protocol_def ieee80211_start_protocol_def Let_def
    by (simp split: option.split)
qed

text \<open>What arrives and fires does not start a scan either.\<close>

lemma mgmt_xmit_scanning: "sta_mgmt_xmit skb sd = Some sd' \<Longrightarrow> sd_scanning sd' = sd_scanning sd"
  by (auto simp: sta_mgmt_xmit_def ieee80211_sta_wakeup_def sta_queue_def sta_put_def Let_def split: if_splits)

lemma probe_resp_scanning: "ieee80211_probe_resp dest sd = Some (skb, sd') \<Longrightarrow> sd_scanning sd' = sd_scanning sd"
  unfolding ieee80211_probe_resp_def Let_def bind_eq_Some_conv by clarsimp

lemma get_beacon_scanning: "get_beacon_frame sd = Some (skb, sd') \<Longrightarrow> sd_scanning sd' = sd_scanning sd"
  unfolding get_beacon_frame_def by (auto simp: bind_eq_Some_conv probe_resp_scanning)

lemma send_beacon_scanning: "ieee80211_send_beacon al sd = Some sd' \<Longrightarrow> sd_scanning sd' = sd_scanning sd"
  unfolding ieee80211_send_beacon_def bind_eq_Some_conv
  by (auto simp: bind_eq_Some_conv sta_queue_def sta_stat_def dest!: mgmt_xmit_scanning get_beacon_scanning split: if_splits)

lemma stuck_stays:
  assumes w: "stuck sd" and n: "network_event ev" and en: "sta_enabled ev sd" and ok: "sta_event_ok ev sd"
    and st: "sta_step Some ev sd = Some sd'"
  shows "stuck sd'"
proof -
  have w': "wedged sd" "sd_scanning sd = 0" using w by (simp_all add: stuck_def)
  have "sd_scanning sd' = 0"
  proof (cases ev)
    case (Scan_Work al)
    then show ?thesis using st w' by (auto simp: ieee80211_softmac_scan_wq_def sta_queue_def)
  next
    case Complete_Work
    then show ?thesis using st w' by (auto simp: ieee80211_associate_complete_wq_def notify_wx_assoc_event_def sta_queue_def sta_put_def Let_def)
  next
    case (Beacon_Timer al)
    then have "ieee80211_send_beacon al (sta_queue (wk_beacon_timer_update (\<lambda>_. False)) sd) = Some sd'" using st by simp
    from send_beacon_scanning [OF this] w'(2) show ?thesis by (simp add: sta_queue_def)
  next
    case (Rx_Frame j al skb)
    then obtain r where "ieee80211_rx_frame_softmac Some j al skb sd = Some (r, sd')" using st by auto
    from wedged_rx_scanning [OF w'(1) this] w'(2) show ?thesis by simp
  next
    case (Rx_Beacon j stack beacon stats)
    have "sd_state sd = ASSOCIATING_RETRY" using w'(1) by (simp add: wedged_def)
    then show ?thesis using st w'(2) Rx_Beacon
      by (auto simp: sta_rx_mgt_def bind_eq_Some_conv ieee80211_softmac_new_net_def Let_def split: option.splits)
  qed (use w' n en in \<open>simp_all add: wedged_def\<close>)
  then show ?thesis using wedged_stays [OF w'(1) n en ok st] by (simp add: stuck_def)
qed

inductive network_reach :: "station \<Rightarrow> station \<Rightarrow> bool" for sd where
  network_refl: "network_reach sd sd"
| network_step: "\<lbrakk>network_reach sd sd1; network_event ev; sta_enabled ev sd1; sta_event_ok ev sd1; sta_step Some ev sd1 = Some sd2\<rbrakk> \<Longrightarrow>
    network_reach sd sd2"

lemma network_reach_stuck: "network_reach sd sd' \<Longrightarrow> stuck sd \<Longrightarrow> stuck sd'"
  by (induction rule: network_reach.induct) (auto dest: stuck_stays)

lemma start_scanning:
  assumes "sd_state sd = ASSOCIATING_RETRY" and "sd_iw_mode sd = IW_MODE_INFRA"
  shows "sd_scanning (ieee80211_softmac_start_protocol sd) = sd_scanning sd"
proof -
  have same: "ieee80211_softmac_check_all_nets s = s" if "sd_state s = ASSOCIATING_RETRY" for s
    using that by (cases "sd_nets s") (simp_all add: ieee80211_softmac_check_all_nets_def)
  show ?thesis
    using assms unfolding ieee80211_softmac_start_protocol_def ieee80211_start_protocol_def start_with_channel_def start_mode_def
      ieee80211_start_bss_def Let_def
    by (simp add: same sta_put_def split: option.split)
qed

lemma procedure_scanning:
  assumes "ieee80211_associate_procedure_wq True sd = Some sd'" "sd_scanning sd = 0" "sta_wf sd"
  shows "sd_scanning sd' = 0"
proof -
  let ?q = "ieee80211_stop_scan (sta_put Data_Hard_Stop (sd\<lparr>sd_sync_scan_hurryup := True\<rparr>))"
  let ?t = "sta_stat (ss_tx_auth_rq_update (\<lambda>n. n + 1)) ((sta_put (Set_Chan (nw_channel (sd_network ?q))) ?q)\<lparr>sd_associate_seq := 1\<rparr>)"
  have q: "sta_core ?q = sta_core sd" by simp (simp add: sta_core_def)
  have "sta_wf ?t" using assms(3) sta_coreD(6) [OF q] by simp
  from authentication_req_ok [OF this, of 0] obtain skb
    where "ieee80211_authentication_req (sd_network ?t) 0 ?t = Some (skb, ?t\<lparr>sd_associate_seq := sd_associate_seq ?t + 1\<rparr>)" by blast
  moreover have "sd_scanning (?t\<lparr>sd_associate_seq := n, sd_state := st\<rparr>) = 0" for n st
    using assms(2) by (simp add: sta_stat_def sta_put_def ieee80211_stop_scan_def)
  ultimately show ?thesis
    using assms(1) mgmt_xmit_scanning [of skb]
    by (auto simp: ieee80211_associate_procedure_wq_def ieee80211_associate_step1_def Let_def bind_eq_Some_conv sta_queue_def)
qed



end
