(* ===== verification/Softmac_Scan.thy ===== *)
theory Softmac_Scan
  imports Softmac_Inv
begin

text \<open>
  The background scan of \<open>ieee80211_softmac_scan_wq\<close>: what one run does, and how far a sequence of runs gets.
\<close>

section \<open>The background scan visits every channel\<close>

definition scan_at :: "nat \<Rightarrow> nat \<Rightarrow> station \<Rightarrow> station" where
  "scan_at ch n sd = sd\<lparr>sd_network := (sd_network sd)\<lparr>nw_channel := word_of_nat ch\<rparr>, sd_scan_watchdog := sd_scan_watchdog sd + int n\<rparr>"

definition chan_of :: "station \<Rightarrow> nat" where
  "chan_of sd = unat (nw_channel (sd_network sd))"

lemma chan_of_scan_at: "ch < 256 \<Longrightarrow> chan_of (scan_at ch n sd) = ch"
  by (simp add: chan_of_def scan_at_def unat_of_nat)

text \<open>The loop stops at the first allowed channel, \<open>d\<close> channels on, if the watchdog lets it go that far.\<close>

lemma scan_next_first:
  assumes "sd_scan_watchdog sd + int d \<le> 161" and "sd_channel_map sd ! ((chan_of sd + Suc d) mod 161)"
    and "\<forall>i < d. \<not> sd_channel_map sd ! ((chan_of sd + Suc i) mod 161)"
  shows "scan_next sd = (True, scan_at ((chan_of sd + Suc d) mod 161) (Suc d) sd)"
  using assms
proof (induction d arbitrary: sd)
  case 0
  have "((chan_of sd + 1) mod 161) < 256" by (rule less_trans [OF mod_less_divisor]) simp_all
  then have u: "unat (word_of_nat ((chan_of sd + 1) mod 161) :: u8) = (chan_of sd + 1) mod 161" by (simp add: unat_of_nat)
  show ?case
    using 0 u by (subst scan_next.simps) (simp add: Let_def chan_of_def scan_at_def)
next
  case (Suc d)
  let ?s = "scan_at ((chan_of sd + 1) mod 161) 1 sd"
  have lt: "((chan_of sd + 1) mod 161) < 256" by (rule less_trans [OF mod_less_divisor]) simp_all
  then have u: "unat (word_of_nat ((chan_of sd + 1) mod 161) :: u8) = (chan_of sd + 1) mod 161" by (simp add: unat_of_nat)
  have ch: "chan_of ?s = (chan_of sd + 1) mod 161" using lt by (rule chan_of_scan_at)
  have m: "(chan_of ?s + Suc i) mod 161 = (chan_of sd + Suc (Suc i)) mod 161" for i
    unfolding ch by (simp only: mod_add_left_eq) simp
  have "\<not> sd_channel_map sd ! ((chan_of sd + 1) mod 161)" using Suc.prems(3) [rule_format, of 0] by simp
  then have "scan_next sd = scan_next ?s"
    using Suc.prems(1) u by (subst scan_next.simps) (simp add: Let_def chan_of_def scan_at_def)
  also have "\<dots> = (True, scan_at ((chan_of ?s + Suc d) mod 161) (Suc d) ?s)"
  proof (rule Suc.IH)
    show "sd_scan_watchdog ?s + int d \<le> 161" using Suc.prems(1) by (simp add: scan_at_def)
    show "sd_channel_map ?s ! ((chan_of ?s + Suc d) mod 161)" using Suc.prems(2) unfolding m by (simp add: scan_at_def)
    show "\<forall>i < d. \<not> sd_channel_map ?s ! ((chan_of ?s + Suc i) mod 161)" using Suc.prems(3) unfolding m by (auto simp: scan_at_def)
  qed
  also have "scan_at ((chan_of ?s + Suc d) mod 161) (Suc d) ?s = scan_at ((chan_of sd + Suc (Suc d)) mod 161) (Suc (Suc d)) sd"
    unfolding m by (simp add: scan_at_def)
  finally show ?case .
qed

fun scan_runs :: "bool \<Rightarrow> nat \<Rightarrow> station \<Rightarrow> station option" where
  "scan_runs al 0 sd = Some sd"
| "scan_runs al (Suc k) sd = ieee80211_softmac_scan_wq al (sta_queue (wk_softmac_scan_update (\<lambda>_. False)) sd) \<bind> scan_runs al k"

lemma mgmt_xmit_out:
  "sta_mgmt_xmit skb sd = Some sd' \<Longrightarrow> sd_out sd' = sd_out sd @ [Mgmt_Xmit skb] \<and> sd_scanning sd' = sd_scanning sd"
  by (auto simp: sta_mgmt_xmit_def ieee80211_sta_wakeup_def sta_put_def sta_queue_def Let_def split: if_split_asm)

lemma send_probe_out:
  "ieee80211_send_probe al sd = Some sd' \<Longrightarrow> (\<exists>xs. sd_out sd' = sd_out sd @ xs) \<and> sd_scanning sd' = sd_scanning sd"
  by (cases al) (auto simp: ieee80211_send_probe_def bind_eq_Some_conv sta_stat_def dest!: mgmt_xmit_out)

lemma send_probes_out:
  assumes "ieee80211_send_probe_requests al sd = Some sd'"
  shows "(\<exists>xs. sd_out sd' = sd_out sd @ xs) \<and> sd_scanning sd' = sd_scanning sd"
proof (cases "sd_active_scan sd")
  case True
  then obtain s where "ieee80211_send_probe al sd = Some s" "ieee80211_send_probe al s = Some sd'"
    using assms by (auto simp: ieee80211_send_probe_requests_def bind_eq_Some_conv)
  from this [THEN send_probe_out] show ?thesis by auto
qed (use assms in \<open>simp add: ieee80211_send_probe_requests_def\<close>)

text \<open>One run of the work: the next allowed channel is set and probed, and the work is queued again.\<close>

lemma scan_wq_run:
  assumes wf: "sta_wf sd" and on: "sd_scanning sd \<noteq> 0" and w: "sd_scan_watchdog sd = 0" and d: "d \<le> 160"
    and m: "sd_channel_map sd ! ((chan_of sd + Suc d) mod 161)" "\<forall>i < d. \<not> sd_channel_map sd ! ((chan_of sd + Suc i) mod 161)"
  shows "\<exists>sd' xs. ieee80211_softmac_scan_wq al (sta_queue (wk_softmac_scan_update (\<lambda>_. False)) sd) = Some sd' \<and>
    chan_of sd' = (chan_of sd + Suc d) mod 161 \<and> sd_scanning sd' = sd_scanning sd \<and> sd_scan_watchdog sd' = 0 \<and> sta_wf sd' \<and>
    sd_channel_map sd' = sd_channel_map sd \<and> wk_softmac_scan (sd_work sd') \<and>
    sd_out sd' = sd_out sd @ Set_Chan (word_of_nat ((chan_of sd + Suc d) mod 161)) # xs"
proof -
  let ?q = "sta_queue (wk_softmac_scan_update (\<lambda>_. False)) sd"
  let ?c = "(chan_of sd + Suc d) mod 161"
  have lt: "?c < 256" by (rule less_trans [OF mod_less_divisor]) simp_all
  have q: "chan_of ?q = chan_of sd" "sd_channel_map ?q = sd_channel_map sd" "sd_scan_watchdog ?q = 0" "sd_scanning ?q = sd_scanning sd"
    "sd_out ?q = sd_out sd" using w by (simp_all add: chan_of_def sta_queue_def)
  let ?s = "scan_at ?c (Suc d) ?q"
  have n: "scan_next ?q = (True, ?s)"
    using scan_next_first [of ?q d] d m unfolding q by simp
  have wfs: "sta_wf ?s" using scan_next_facts [of ?q] wf n by simp
  have s: "nw_channel (sd_network ?s) = word_of_nat ?c" "sd_channel_map ?s = sd_channel_map sd" "sd_scanning ?s = sd_scanning sd"
    "sd_out ?s = sd_out sd" by (simp_all add: scan_at_def sta_queue_def)
  let ?p = "sta_put (Set_Chan (word_of_nat ?c)) ?s"
  have "sta_wf ?p" using wfs by simp
  from send_probes_ok [OF this, of al] obtain t where t: "ieee80211_send_probe_requests al ?p = Some t" "sta_core t = sta_core ?s" by auto
  obtain xs where o: "sd_out t = sd_out ?p @ xs" "sd_scanning t = sd_scanning ?s"
    using send_probes_out [OF t(1)] by (auto simp: sta_put_def)
  have map: "sd_channel_map t = sd_channel_map sd" using t(2) s(2) by (simp add: sta_core_def)
  have ch: "chan_of t = ?c" using sta_coreD(2) [OF t(2)] s(1) lt by (simp add: chan_of_def unat_of_nat)
  let ?e = "(sta_queue (wk_softmac_scan_update (\<lambda>_. True)) t)\<lparr>sd_actscanning := False, sd_scan_watchdog := 0\<rparr>"
  have run: "ieee80211_softmac_scan_wq al ?q = Some ?e"
    using on n t(1) q(4) s(1) by (simp add: ieee80211_softmac_scan_wq_def)
  have e: "chan_of ?e = ?c" "sd_scanning ?e = sd_scanning sd" "sd_scan_watchdog ?e = 0" "sd_channel_map ?e = sd_channel_map sd"
    "wk_softmac_scan (sd_work ?e)" "sd_out ?e = sd_out sd @ Set_Chan (word_of_nat ?c) # xs"
    using ch o s map by (simp_all add: chan_of_def sta_queue_def) (simp add: sta_put_def)
  have "sta_wf ?e" using wfs sta_coreD(6) [OF t(2)] by simp
  with run e show ?thesis by (intro exI conjI)
qed

lemma scan_reaches:
  assumes "sta_wf sd" and "sd_scanning sd \<noteq> 0" and "sd_scan_watchdog sd = 0" and "n \<le> 160" and "(chan_of sd + Suc n) mod 161 = c"
    and "sd_channel_map sd ! c"
  shows "\<exists>k sd' xs. 1 \<le> k \<and> k \<le> Suc n \<and> scan_runs al k sd = Some sd' \<and> chan_of sd' = c \<and> wk_softmac_scan (sd_work sd') \<and>
    sd_out sd' = sd_out sd @ xs \<and> Set_Chan (word_of_nat c) \<in> set xs"
  using assms
proof (induction n arbitrary: sd rule: less_induct)
  case (less n)
  define d where "d = (LEAST i. sd_channel_map sd ! ((chan_of sd + Suc i) mod 161))"
  have hit: "sd_channel_map sd ! ((chan_of sd + Suc n) mod 161)" using less.prems(5,6) by simp
  have d: "sd_channel_map sd ! ((chan_of sd + Suc d) mod 161)" "d \<le> n" "\<forall>i < d. \<not> sd_channel_map sd ! ((chan_of sd + Suc i) mod 161)"
    unfolding d_def using LeastI [where P = "\<lambda>i. sd_channel_map sd ! ((chan_of sd + Suc i) mod 161)", OF hit]
      Least_le [where P = "\<lambda>i. sd_channel_map sd ! ((chan_of sd + Suc i) mod 161)", OF hit] not_less_Least by auto
  from scan_wq_run [OF less.prems(1-3) _ d(1,3), of al] d(2) less.prems(4) obtain s xs
    where s: "ieee80211_softmac_scan_wq al (sta_queue (wk_softmac_scan_update (\<lambda>_. False)) sd) = Some s"
      "chan_of s = (chan_of sd + Suc d) mod 161" "sd_scanning s = sd_scanning sd" "sd_scan_watchdog s = 0" "sta_wf s"
      "sd_channel_map s = sd_channel_map sd" "wk_softmac_scan (sd_work s)"
      "sd_out s = sd_out sd @ Set_Chan (word_of_nat ((chan_of sd + Suc d) mod 161)) # xs" by auto
  show ?case
  proof (cases "d = n")
    case True
    have "scan_runs al 1 sd = Some s" using s(1) by simp
    then show ?thesis using s True less.prems(5) by (intro exI [of _ 1] exI [of _ s]) auto
  next
    case False
    define n' where "n' = n - Suc d"
    have n': "n = d + Suc n'" "n' < n" using d(2) False by (simp_all add: n'_def)
    have c: "(chan_of s + Suc n') mod 161 = c"
      unfolding s(2) mod_add_left_eq using less.prems(5) n'(1) by (simp add: ac_simps)
    from less.IH [OF n'(2) s(5) _ s(4) _ c] s less.prems n' obtain k sd' ys
      where k: "1 \<le> k" "k \<le> Suc n'" "scan_runs al k s = Some sd'" "chan_of sd' = c" "wk_softmac_scan (sd_work sd')"
        "sd_out sd' = sd_out s @ ys" "Set_Chan (word_of_nat c) \<in> set ys" by auto
    have "scan_runs al (Suc k) sd = Some sd'" using s(1) k(3) by simp
    moreover have "Suc k \<le> Suc n" using k(2) n'(1) by simp
    moreover have "sd_out sd' = sd_out sd @ (Set_Chan (word_of_nat ((chan_of sd + Suc d) mod 161)) # xs @ ys)" using k(6) s(8) by simp
    ultimately show ?thesis using k by (intro exI [of _ "Suc k"] exI [of _ sd']) auto
  qed
qed

lemma scan_visits:
  assumes "sta_wf sd" and "sd_scanning sd \<noteq> 0" and "sd_scan_watchdog sd = 0" and "c \<le> 160" and "sd_channel_map sd ! c"
  shows "\<exists>k sd' xs. k \<le> 161 \<and> scan_runs al k sd = Some sd' \<and> nw_channel (sd_network sd') = word_of_nat c \<and>
    wk_softmac_scan (sd_work sd') \<and> sd_out sd' = sd_out sd @ xs \<and> Set_Chan (word_of_nat c) \<in> set xs"
proof -
  define n where "n = (c + 160 - chan_of sd mod 161) mod 161"
  have lt: "n < 161" "chan_of sd mod 161 < 161" by (simp_all add: n_def)
  have "(chan_of sd + Suc n) mod 161 = (chan_of sd mod 161 + 1 + n) mod 161"
    using mod_add_left_eq [of "chan_of sd" 161 "1 + n"] by simp
  also have "\<dots> = (chan_of sd mod 161 + 1 + (c + 160 - chan_of sd mod 161)) mod 161" unfolding n_def by (rule mod_add_right_eq)
  also have "chan_of sd mod 161 + 1 + (c + 160 - chan_of sd mod 161) = c + 161" using lt(2) by simp
  finally have "(chan_of sd + Suc n) mod 161 = c" using assms(4) by simp
  from scan_reaches [OF assms(1-3) _ this assms(5), of al] lt obtain k sd' xs
    where k: "1 \<le> k" "k \<le> Suc n" "scan_runs al k sd = Some sd'" "chan_of sd' = c" "wk_softmac_scan (sd_work sd')"
      "sd_out sd' = sd_out sd @ xs" "Set_Chan (word_of_nat c) \<in> set xs" by auto
  have "nw_channel (sd_network sd') = word_of_nat c" using k(4) by (auto simp: chan_of_def)
  with k lt show ?thesis by (intro exI [of _ k] exI [of _ sd'] exI [of _ xs]) simp
qed

text \<open>C27: The background scan leaves no channel out: from any channel, within 161 runs of its work, every allowed
  channel from 0 to 160 is set and probed, and the work has queued itself again.  (Channel 161, the last entry of the
  map, is never reached: the scan counts modulo \<open>MAX_CHANNEL_NUMBER\<close>.)\<close>

theorem scan_covers:
  assumes "sta_wf sd" and "sd_scanning sd \<noteq> 0" and "sd_scan_watchdog sd = 0" and "c \<le> 160" and "sd_channel_map sd ! c"
  shows "\<exists>k sd' xs. k \<le> 161 \<and> scan_runs al k sd = Some sd' \<and> nw_channel (sd_network sd') = word_of_nat c \<and>
    wk_softmac_scan (sd_work sd') \<and> sd_out sd' = sd_out sd @ xs \<and> Set_Chan (word_of_nat c) \<in> set xs"
  using assms by (rule scan_visits)

theorem scan_covers_witness:
  "\<exists>k sd' xs. k \<le> 161 \<and> scan_runs True k (sta_example\<lparr>sd_scanning := 1\<rparr>) = Some sd' \<and> nw_channel (sd_network sd') = word_of_nat 11 \<and>
    wk_softmac_scan (sd_work sd') \<and> sd_out sd' = sd_out (sta_example\<lparr>sd_scanning := 1\<rparr>) @ xs \<and> Set_Chan (word_of_nat 11) \<in> set xs"
  by (rule scan_covers)
     (simp_all add: sta_example_def sta_wf_def cell_example_def cell_wf_def network_wf_def network_arrays_def network_lengths_def
       network_blank_def)

end
