(* ===== verification/Rx_Driver.thy ===== *)
theory Rx_Driver
  imports Rx Softmac_Inv
begin

text \<open>
  Reception in \<open>rtl8187/r8187_core.c\<close>: the tasklet that takes a received USB block apart, from the
  descriptor behind the frame to the call of \<open>ieee80211_rx\<close>, and \<open>ieee80211_rx_frame_mgmt\<close> of
  \<open>ieee80211/ieee80211_rx.c\<close>, which gives management frames to the table of networks and to the soft MAC.  This
  is where the models of reception, of the table and of the link come together.
\<close>

section \<open>The descriptor\<close>

text \<open>The fields of \<open>struct rx_desc_rtl8187\<close> that are read.\<close>

record rx_desc =
  rxd_rxlen :: nat
  rxd_rxrate :: u16
  rxd_sq :: u8
  rxd_rssi :: u8
  rxd_agc :: u8
  rxd_tsftl :: u32
  rxd_tsfth :: u32

definition rx_desc_of :: "bytes \<Rightarrow> rx_desc" where
  "rx_desc_of d =
     (let w = get_le32 (d ! 0) (d ! 1) (d ! 2) (d ! 3)
      in \<lparr>rxd_rxlen = unat (w AND 0xfff), rxd_rxrate = ucast (drop_bit 20 w AND 0xf), rxd_sq = d ! 4, rxd_rssi = d ! 5 AND 0x7f,
          rxd_agc = d ! 6, rxd_tsftl = get_le32 (d ! 8) (d ! 9) (d ! 10) (d ! 11), rxd_tsfth = get_le32 (d ! 12) (d ! 13) (d ! 14) (d ! 15)\<rparr>)"

section \<open>Signal strength\<close>

definition rx_agc :: "u8 \<Rightarrow> nat" where
  "rx_agc agc = unat (drop_bit 1 (agc AND 0xfe))"

definition rx_is_cck :: "u16 \<Rightarrow> bool" where
  "rx_is_cck rate \<longleftrightarrow> (rate \<le> 22 \<and> rate \<noteq> 12 \<and> rate \<noteq> 18) \<or> rate = 44"

definition clamp :: "nat \<Rightarrow> nat \<Rightarrow> nat \<Rightarrow> nat" where
  "clamp lo hi x = (if x > hi then hi else if x < lo then lo else x)"

definition rx_signal_strength :: "u16 \<Rightarrow> u8 \<Rightarrow> nat" where
  "rx_signal_strength rate agc =
     (let s = (if \<not> rx_is_cck rate then (90 - clamp 25 90 (rx_agc agc)) * 100 div 65
               else (95 - clamp 30 95 (rx_agc agc)) * 100 div 65)
      in s * 75 div 100 + 25)"

text \<open>The running average; the division of C rounds towards zero.\<close>

definition rx_signal_power :: "int \<Rightarrow> u8 \<Rightarrow> int" where
  "rx_signal_power avg agc = (avg * 5 + int (rx_agc agc) - 1) sdiv 6"

section \<open>The host\<close>

text \<open>
  What an event brings along: the clock, the outcome of the allocations, the uninitialised local
  network, the kernel's \<open>struct skb_shared_info\<close>, which lies right behind every buffer, the encryption of
  the answer to a challenge, and whether the bus takes the block back.
\<close>

record rx_env =
  xe_HZ :: u64
  xe_jiffies :: u64
  xe_dup_alloc :: bool
  xe_frag_alloc :: bool
  xe_skb_alloc :: bool
  xe_mgmt_alloc :: bool
  xe_stack :: ieee80211_network
  xe_shinfo :: bytes
  xe_seal :: "sk_buff \<Rightarrow> sk_buff option"
  xe_submit :: bool

text \<open>The receive path's and the soft MAC's parts of the device, the driver's counters, whether the
  block is with the bus, and what became of the frames.\<close>

record 'p rx_host =
  rh_dev :: "'p rx_device"
  rh_sta :: station
  rh_rxok :: u64
  rh_rxurberr :: u64
  rh_rxstaterr :: u64
  rh_rx_errors :: u64
  rh_RecvSignalPower :: int
  rh_submitted :: bool
  rh_log :: "rx_outcome list"

section \<open>Handing a frame up\<close>

text \<open>A frame for another address, a broadcast one included, only reaches the table of networks.\<close>

definition ieee80211_rx_frame_mgmt :: "rx_env \<Rightarrow> ieee80211_rx_stats \<Rightarrow> sk_buff \<Rightarrow> station \<Rightarrow> station option" where
  "ieee80211_rx_frame_mgmt env stats skb sd = do {
     let stats = stats\<lparr>rs_len := word_of_nat (skb_len skb)\<rparr>;
     sd \<leftarrow> sta_rx_mgt (xe_jiffies env) (xe_stack env) (skb_data skb @ skb_room skb) stats sd;
     addr1 \<leftarrow> skb_peek 4 6 skb;
     if addr1 \<noteq> sd_dev_addr sd then Some sd
     else map_option snd (ieee80211_rx_frame_softmac (xe_seal env) (xe_jiffies env) (xe_mgmt_alloc env) skb sd)
   }"

text \<open>The cell, the mode and the time of the last data frame are one field for both parts.\<close>

definition rx_view :: "'p rx_host \<Rightarrow> 'p rx_device" where
  "rx_view h = (rh_dev h)\<lparr>rd_iw_mode := sd_iw_mode (rh_sta h), rd_bssid := nw_bssid (sd_network (rh_sta h)),
     rd_dev_addr := sd_dev_addr (rh_sta h), rd_last_rx_ps_time := sd_last_rx_ps_time (rh_sta h)\<rparr>"

definition rx_deliver :: "rx_env \<Rightarrow> ieee80211_rx_stats \<Rightarrow> sk_buff \<Rightarrow> 'p rx_host \<Rightarrow> 'p rx_host option" where
  "rx_deliver env stats skb h = do {
     (r, dev) \<leftarrow> ieee80211_rx (xe_HZ env) (xe_jiffies env) (xe_dup_alloc env) (xe_frag_alloc env) (rx_view h) skb;
     let sd = (rh_sta h)\<lparr>sd_last_rx_ps_time := rd_last_rx_ps_time dev\<rparr>;
     sd \<leftarrow> (case r of Rx_Mgmt skb \<Rightarrow> ieee80211_rx_frame_mgmt env stats skb sd | _ \<Rightarrow> Some sd);
     Some (h\<lparr>rh_dev := dev, rh_sta := sd, rh_log := rh_log h @ [r]\<rparr>)
   }"

definition rx_stats_of :: "rx_desc \<Rightarrow> ieee80211_rx_stats" where
  "rx_stats_of desc = \<lparr>rs_mac_time = (rxd_tsftl desc, rxd_tsfth desc),
     rs_signalstrength = word_of_nat (rx_signal_strength (rxd_rxrate desc) (rxd_agc desc)),
     rs_rssi = 0, rs_signal = rxd_rssi desc, rs_noise = rxd_sq desc, rs_rate = rxd_rxrate desc, rs_received_channel = 0,
     rs_control = 0, rs_mask = 0, rs_freq = BAND_24GHZ, rs_len = 0, rs_nic_type = 0\<rparr>"

abbreviation ENOENT :: int where "ENOENT \<equiv> 2"

text \<open>
  A completed block: its status, the number of bytes that arrived, and the buffer.  With less than the sixteen
  bytes of a descriptor the descriptor is read in front of the buffer; with a length below four the size of the
  copy is negative.
\<close>

definition rtl8180_irq_rx_tasklet :: "rx_env \<Rightarrow> int \<Rightarrow> nat \<Rightarrow> bytes \<Rightarrow> 'p rx_host \<Rightarrow> 'p rx_host option" where
  "rtl8180_irq_rx_tasklet env status actual buf h = do {
     h \<leftarrow> (if status \<noteq> 0 then Some (h\<lparr>rh_rxstaterr := rh_rxstaterr h + 1, rh_rx_errors := rh_rx_errors h + 1\<rparr>)
          else if actual < 16 then None
          else do {
            d \<leftarrow> buf_read (actual - 16) 16 buf;
            let desc = rx_desc_of d;
            let flen = rxd_rxlen desc;
            if flen \<le> actual then do {
              let h = h\<lparr>rh_RecvSignalPower := rx_signal_power (rh_RecvSignalPower h) (rxd_agc desc)\<rparr>;
              if \<not> xe_skb_alloc env then Some h
              else if flen < 4 then None
              else do {
                data \<leftarrow> buf_read 0 (flen - 4) buf;
                rx_deliver env (rx_stats_of desc) \<lparr>skb_head = replicate 16 0, skb_data = data, skb_room = xe_shinfo env\<rparr>
                  (h\<lparr>rh_rxok := rh_rxok h + 1\<rparr>)
              }
            } else Some (h\<lparr>rh_rxurberr := rh_rxurberr h + 1\<rparr>)
          });
     Some (h\<lparr>rh_submitted := (status \<noteq> - ENOENT \<and> xe_submit env)\<rparr>)
   }"

section \<open>Bounds\<close>

lemma rx_agc_less: "rx_agc agc < 128"
proof -
  have "unat (agc AND 0xfe) < 256" using unsigned_less [of "agc AND 0xfe", where ?'a = nat] by simp
  moreover have "rx_agc agc = unat (agc AND 0xfe) div 2"
    using unat_drop_bit_eq [of 1 "agc AND 0xfe"] by (simp only: rx_agc_def drop_bit_eq_div) simp
  ultimately show ?thesis by linarith
qed

lemma clamp_bounds: "lo \<le> hi \<Longrightarrow> lo \<le> clamp lo hi x \<and> clamp lo hi x \<le> hi"
  by (simp add: clamp_def)

lemma signal_strength_bounds: "25 \<le> rx_signal_strength rate agc \<and> rx_signal_strength rate agc \<le> 100"
proof -
  have "90 - clamp 25 90 (rx_agc agc) \<le> 65" "95 - clamp 30 95 (rx_agc agc) \<le> 65"
    using clamp_bounds [of 25 90 "rx_agc agc"] clamp_bounds [of 30 95 "rx_agc agc"] by linarith+
  moreover have "x * 100 div 65 * 75 div 100 \<le> 75" if "x \<le> 65" for x :: nat
  proof -
    have "x * 100 div 65 \<le> 100" using div_le_mono [of "x * 100" 6500 65] that by simp
    then show ?thesis using div_le_mono [of "x * 100 div 65 * 75" 7500 100] by simp
  qed
  ultimately show ?thesis unfolding rx_signal_strength_def Let_def by (simp del: mult.commute)
qed

section \<open>Management frames\<close>

text \<open>What a frame must not be: the parsers of beacons do not check that the fixed part is there.\<close>

definition rx_frame_fine :: "bytes \<Rightarrow> bool" where
  "rx_frame_fine f \<longleftrightarrow> 24 \<le> length f \<and>
     (case (hdr_frame_ctl f, hdr_seq_ctl f) of
        (Some fc, Some sc) \<Rightarrow> fc AND FCTL_MOREFRAGS = 0 \<and> WLAN_GET_SEQ_FRAG sc = 0 \<and>
          (WLAN_FC_GET_TYPE fc = 0 \<and> WLAN_FC_GET_STYPE fc \<in> {0x0050, 0x0080} \<longrightarrow> 36 \<le> length f)
      | _ \<Rightarrow> False)"

lemma rx_softmac_beacon:
  assumes inv: "sta_inv sd" and fc: "hdr_frame_ctl (skb_data skb) = Some fc" "WLAN_FC_GET_STYPE fc \<in> {0x0050, 0x0080}"
  shows "\<exists>r sd'. ieee80211_rx_frame_softmac seal j al skb sd = Some (r, sd') \<and> sta_inv sd'"
proof -
  have "sta_inv (sta_queue (wk_ps_task_update (\<lambda>_. True)) sd)"
    using inv by (rule sta_inv_same) (use inv in \<open>simp_all add: sta_inv_def\<close>)
  then show ?thesis using inv fc by (auto simp: ieee80211_rx_frame_softmac_def Let_def)
qed

lemma rx_mgt_other:
  assumes "hdr_frame_ctl beacon = Some fc" and "WLAN_FC_GET_STYPE fc \<notin> {0x0050, 0x0080}"
  shows "sta_rx_mgt j stack beacon stats sd = Some sd"
  using assms by (simp add: sta_rx_mgt_def ieee80211_rx_mgt_def sta_table_def)

lemma rx_frame_mgmt_inv:
  assumes inv: "sta_inv sd" "sd_proto_started sd" "0 \<in> set (nw_ssid (sd_network sd))"
    and env: "network_arrays (xe_stack env)" "\<forall>f. \<exists>g. xe_seal env f = Some g" and room: "288 \<le> skb_tailroom skb"
    and f: "rx_frame_fine (skb_data skb)" "skb_len skb < 65536" and fc: "hdr_frame_ctl (skb_data skb) = Some fc" "WLAN_FC_GET_TYPE fc = 0"
  shows "\<exists>sd'. ieee80211_rx_frame_mgmt env stats skb sd = Some sd' \<and> sta_inv sd'"
proof -
  let ?mem = "skb_data skb @ skb_room skb" and ?stats = "stats\<lparr>rs_len := word_of_nat (skb_len skb)\<rparr>"
  have l: "24 \<le> skb_len skb" using f by (simp add: rx_frame_fine_def skb_len_def)
  obtain a where a: "skb_peek 4 6 skb = Some a" using skb_peek_Some [of 4 6 skb] l by auto
  have fcm: "hdr_frame_ctl ?mem = Some fc" using fc hdr_fields_prefix by (simp add: hdr_frame_ctl_def buf_le16_def buf_read_def split: if_split_asm)
  show ?thesis
  proof (cases "WLAN_FC_GET_STYPE fc \<in> {0x0050, 0x0080}")
    case True
    then have "36 \<le> skb_len skb" using f(1) fc by (auto simp: rx_frame_fine_def skb_len_def split: option.split_asm)
    moreover have n: "unat (rs_len ?stats) = skb_len skb" using f(2) by (simp add: unat_of_nat)
    moreover have "skb_len skb < length ?mem" using room by (simp add: skb_len_def skb_tailroom_def flip: length_greater_0_conv)
    ultimately obtain sd1 where s: "sta_rx_mgt (xe_jiffies env) (xe_stack env) ?mem ?stats sd = Some sd1" "sta_inv sd1"
      using rx_mgt_inv [OF inv(1,2) env(1), of ?stats ?mem "xe_jiffies env"] by metis
    show ?thesis
      using a s rx_softmac_beacon [OF s(2) fc(1) True, of "xe_seal env" "xe_jiffies env" "xe_mgmt_alloc env"]
      unfolding ieee80211_rx_frame_mgmt_def Let_def by auto
  next
    case False
    have "frame_ok skb sd" using inv(3) l room by (simp add: frame_ok_def)
    from rx_frame_inv [OF inv(1) this env(2), of "xe_jiffies env" "xe_mgmt_alloc env"] a rx_mgt_other [OF fcm False] inv(1)
    show ?thesis unfolding ieee80211_rx_frame_mgmt_def Let_def by auto
  qed
qed

section \<open>The whole path\<close>

lemma rx_deliver_inv:
  assumes inv: "sta_inv (rh_sta h)" "sd_proto_started (rh_sta h)" "0 \<in> set (nw_ssid (sd_network (rh_sta h)))" and slots: "slots_safe (rh_dev h)"
    and env: "network_arrays (xe_stack env)" "\<forall>f. \<exists>g. xe_seal env f = Some g" and room: "288 \<le> skb_tailroom skb"
    and f: "rx_frame_fine (skb_data skb)" "skb_len skb < 65536"
  shows "\<exists>h'. rx_deliver env stats skb h = Some h' \<and> sta_inv (rh_sta h')"
proof -
  obtain fc sc where fc: "hdr_frame_ctl (skb_data skb) = Some fc" "fc AND FCTL_MOREFRAGS = 0"
    and sc: "hdr_seq_ctl (skb_data skb) = Some sc" "WLAN_GET_SEQ_FRAG sc = 0"
    using f(1) by (auto simp: rx_frame_fine_def split: option.split_asm)
  have "slots_safe (rx_view h)" using slots by (simp add: slots_safe_def rx_view_def)
  moreover have "14 \<le> skb_tailroom skb" using room by simp
  ultimately obtain r dev where x: "ieee80211_rx (xe_HZ env) (xe_jiffies env) (xe_dup_alloc env) (xe_frag_alloc env) (rx_view h) skb = Some (r, dev)"
    using ieee80211_rx_total [of skb "rx_view h" fc sc] fc hdr_fields_prefix(5) [OF sc(1)] sc(2) by fastforce
  let ?sd = "(rh_sta h)\<lparr>sd_last_rx_ps_time := rd_last_rx_ps_time dev\<rparr>"
  have s: "sta_inv ?sd" "sd_proto_started ?sd" "0 \<in> set (nw_ssid (sd_network ?sd))"
    using inv sta_core_inv [of ?sd "rh_sta h"] by (simp_all add: sta_core_def)
  show ?thesis
  proof (cases "\<exists>t. r = Rx_Mgmt t")
    case True
    then obtain t where t: "r = Rx_Mgmt t" by blast
    have "t = skb" "WLAN_FC_GET_TYPE fc = 0" using rx_mgmt_outcome [OF x [unfolded t] fc(1)] by simp_all
    then show ?thesis using x t rx_frame_mgmt_inv [OF s env room f fc(1), of stats] by (auto simp: rx_deliver_def Let_def)
  next
    case False
    then have "(case r of Rx_Mgmt skb \<Rightarrow> ieee80211_rx_frame_mgmt env stats skb ?sd | _ \<Rightarrow> Some ?sd) = Some ?sd" by (cases r) auto
    then show ?thesis using x s(1) by (simp add: rx_deliver_def)
  qed
qed

text \<open>What a completed block must be: long enough for its descriptor, and the frame it announces, if it fits, one that
  the parsers are up to.\<close>

definition urb_fine :: "int \<Rightarrow> nat \<Rightarrow> bytes \<Rightarrow> bool" where
  "urb_fine status actual buf \<longleftrightarrow> (status = 0 \<longrightarrow> 16 \<le> actual \<and> actual \<le> length buf \<and>
     (let n = rxd_rxlen (rx_desc_of (take 16 (drop (actual - 16) buf)))
      in n \<le> actual \<longrightarrow> 4 \<le> n \<and> rx_frame_fine (take (n - 4) buf)))"

lemma rxlen_less: "rxd_rxlen (rx_desc_of d) < 4096"
proof -
  have "w AND 0xfff < 0x1000" for w :: u32 by (rule le_less_trans [OF word_and_le1]) simp
  then show ?thesis by (simp add: rx_desc_of_def Let_def word_less_nat_alt)
qed

text \<open>C31: The whole receive path, from the completed USB block over the descriptor, the decryption and the parsers to the table
  of networks and the link, survives every block whose frame is complete and not a fragment: no access leaves a
  buffer, the invariant of the soft MAC holds afterwards, and the block goes back to the bus
  unless the device was unplugged.\<close>

theorem rx_path_safe:
  assumes "sta_inv (rh_sta h)" and "sd_proto_started (rh_sta h)" and "0 \<in> set (nw_ssid (sd_network (rh_sta h)))"
    and "slots_safe (rh_dev h)" and "network_arrays (xe_stack env)" and "\<forall>f. \<exists>g. xe_seal env f = Some g"
    and "288 \<le> length (xe_shinfo env)" and "urb_fine status actual buf"
  shows "\<exists>h'. rtl8180_irq_rx_tasklet env status actual buf h = Some h' \<and> sta_inv (rh_sta h') \<and>
    rh_submitted h' = (status \<noteq> - ENOENT \<and> xe_submit env)"
proof (cases "status = 0")
  case True
  let ?d = "take 16 (drop (actual - 16) buf)"
  let ?n = "rxd_rxlen (rx_desc_of ?d)"
  have a: "16 \<le> actual" "actual \<le> length buf" using assms(8) True by (simp_all add: urb_fine_def)
  then have d: "buf_read (actual - 16) 16 buf = Some ?d" by (simp add: buf_read_def)
  let ?h = "h\<lparr>rh_RecvSignalPower := rx_signal_power (rh_RecvSignalPower h) (rxd_agc (rx_desc_of ?d))\<rparr>"
  show ?thesis
  proof (cases "?n \<le> actual \<and> xe_skb_alloc env")
    case ok: True
    then have f: "4 \<le> ?n" "rx_frame_fine (take (?n - 4) buf)" using assms(8) True by (simp_all add: urb_fine_def Let_def)
    have b: "buf_read 0 (?n - 4) buf = Some (take (?n - 4) buf)" using ok a by (auto simp: buf_read_def)
    let ?skb = "\<lparr>skb_head = replicate 16 0, skb_data = take (?n - 4) buf, skb_room = xe_shinfo env\<rparr>" and ?h2 = "?h\<lparr>rh_rxok := rh_rxok ?h + 1\<rparr>"
    have "\<exists>h'. rx_deliver env (rx_stats_of (rx_desc_of ?d)) ?skb ?h2 = Some h' \<and> sta_inv (rh_sta h')"
      using assms f rxlen_less [of ?d] by (intro rx_deliver_inv) (simp_all add: skb_tailroom_def skb_len_def)
    then show ?thesis
      using True a d ok f(1) b unfolding rtl8180_irq_rx_tasklet_def Let_def by auto
  next
    case False
    then show ?thesis using True a d assms(1) unfolding rtl8180_irq_rx_tasklet_def Let_def by auto
  qed
qed (use assms(1) in \<open>simp add: rtl8180_irq_rx_tasklet_def\<close>)


definition rx_block_example :: bytes where
  "rx_block_example = mgmt_header 0x0040 0 (sd_dev_addr sta_example) [2, 9, 9, 9, 9, 9] [2, 9, 9, 9, 9, 9] @ [1, 2, 3, 4] @ [28] @ replicate 15 0"

definition rx_env_example :: rx_env where
  "rx_env_example = \<lparr>xe_HZ = 100, xe_jiffies = 9, xe_dup_alloc = True, xe_frag_alloc = True, xe_skb_alloc = True, xe_mgmt_alloc = True,
     xe_stack = network_blank, xe_shinfo = replicate 320 0, xe_seal = Some, xe_submit = True\<rparr>"

definition rx_host_example :: "prism2_wep_data rx_host" where
  "rx_host_example = \<lparr>rh_dev = rx_example (replicate 4 None), rh_sta = sta_example\<lparr>sd_proto_started := True\<rparr>, rh_rxok = 0, rh_rxurberr = 0,
     rh_rxstaterr = 0, rh_rx_errors = 0, rh_RecvSignalPower = 0, rh_submitted = False, rh_log = []\<rparr>"

lemma rx_host_example_fine:
  "sta_inv (rh_sta rx_host_example)" "sd_proto_started (rh_sta rx_host_example)" "0 \<in> set (nw_ssid (sd_network (rh_sta rx_host_example)))"
  "slots_safe (rh_dev rx_host_example)"
  by (simp_all add: rx_host_example_def sta_inv_def sta_live_def sta_wf_def sta_example_def cell_example_def cell_wf_def network_wf_def
      network_arrays_def network_lengths_def network_blank_def sta_work_none_def)
     (auto simp: slots_safe_def rx_example_def)

lemma rx_block_example_fine: "urb_fine 0 44 rx_block_example"
proof -
  have d: "take 16 (drop (44 - 16) rx_block_example) = 28 # replicate 15 0"
    by (simp add: rx_block_example_def mgmt_header_def le16_def sta_example_def)
  have n: "rxd_rxlen (rx_desc_of (28 # replicate 15 0)) = 28" by (simp add: rx_desc_of_def Let_def get_le32_def)
  have t: "take 24 rx_block_example = mgmt_header 0x0040 0 (sd_dev_addr sta_example) [2, 9, 9, 9, 9, 9] [2, 9, 9, 9, 9, 9]"
    by (simp add: rx_block_example_def mgmt_header_def le16_def sta_example_def)
  have "rx_frame_fine (take 24 rx_block_example)"
    unfolding t by (simp add: rx_frame_fine_def mgmt_header_def le16_def sta_example_def hdr_field_defs buf_read_def get_le16_def
        WLAN_GET_SEQ_FRAG_def WLAN_FC_GET_TYPE_def WLAN_FC_GET_STYPE_def)
  then show ?thesis unfolding urb_fine_def Let_def d n by (simp add: rx_block_example_def mgmt_header_def le16_def sta_example_def)
qed

theorem rx_path_safe_witness:
  "\<exists>h'. rtl8180_irq_rx_tasklet rx_env_example 0 44 rx_block_example rx_host_example = Some h' \<and> sta_inv (rh_sta h') \<and>
    rh_submitted h' = (0 \<noteq> - ENOENT \<and> xe_submit rx_env_example)"
  by (rule rx_path_safe [OF rx_host_example_fine _ _ _ rx_block_example_fine])
     (simp_all add: rx_env_example_def network_blank_def network_arrays_def)

end
