(* ===== verification/Nic.thy ===== *)
theory Nic
  imports Prelude "HOL-Library.State_Monad"
begin

unbundle bit_operations_syntax

text \<open>
  The registers of the device in \<open>rtl8187/r8187_core.c\<close>: every access is a control transfer of USB, so the
  device is a log of the transfers and an answer to each read, which may depend on everything that went before.
  The operations are programs of the state monad over it.  The delays between the transfers are not modelled.
\<close>

section \<open>Transfers\<close>

text \<open>A write or a read of a register (\<open>wValue\<close>, size in bytes, data), or a write to the radio behind it.\<close>

datatype nic_op =
  Nic_Write u16 nat u32
| Nic_Read u16 nat
| Rf_Write u16 u16
| Rx_Submit

text \<open>The log has the latest transfer first.  A transfer that fails leaves the data undefined, which is an
  answer like any other.\<close>

record nic =
  nic_log :: "nic_op list"
  nic_answer :: "nic_op list \<Rightarrow> u16 \<Rightarrow> nat \<Rightarrow> u32"

text \<open>A program runs on any state that contains the device.\<close>

type_synonym ('z, 'a) nic_prog = "('z nic_scheme, 'a) state"

definition nic_do :: "nic_op \<Rightarrow> ('z, unit) nic_prog" where
  "nic_do x = State (\<lambda>n. ((), n\<lparr>nic_log := x # nic_log n\<rparr>))"

definition nic_ask :: "u16 \<Rightarrow> nat \<Rightarrow> ('z, u32) nic_prog" where
  "nic_ask a len = State (\<lambda>n. (nic_answer n (nic_log n) a len, n\<lparr>nic_log := Nic_Read a len # nic_log n\<rparr>))"

lemma run_nic_do [simp]: "run_state (nic_do x) n = ((), n\<lparr>nic_log := x # nic_log n\<rparr>)"
  by (simp add: nic_do_def)

lemma run_nic_ask [simp]:
  "run_state (nic_ask a len) n = (nic_answer n (nic_log n) a len, n\<lparr>nic_log := Nic_Read a len # nic_log n\<rparr>)"
  by (simp add: nic_ask_def)

section \<open>Registers\<close>

definition write_nic_byte_E :: "u16 \<Rightarrow> u8 \<Rightarrow> ('z, unit) nic_prog" where
  "write_nic_byte_E indx data = nic_do (Nic_Write (indx OR 0xfe00) 1 (ucast data))"

definition write_nic_byte :: "u16 \<Rightarrow> u8 \<Rightarrow> ('z, unit) nic_prog" where
  "write_nic_byte indx data = nic_do (Nic_Write (indx OR 0xff00) 1 (ucast data))"

definition write_nic_word :: "u16 \<Rightarrow> u16 \<Rightarrow> ('z, unit) nic_prog" where
  "write_nic_word indx data = nic_do (Nic_Write (indx OR 0xff00) 2 (ucast data))"

definition write_nic_dword :: "u16 \<Rightarrow> u32 \<Rightarrow> ('z, unit) nic_prog" where
  "write_nic_dword indx data = nic_do (Nic_Write (indx OR 0xff00) 4 data)"

definition read_nic_byte :: "u16 \<Rightarrow> ('z, u8) nic_prog" where
  "read_nic_byte indx = do { v \<leftarrow> nic_ask (indx OR 0xff00) 1; State_Monad.return (ucast v) }"

definition read_nic_byte_E :: "u16 \<Rightarrow> ('z, u8) nic_prog" where
  "read_nic_byte_E indx = do { v \<leftarrow> nic_ask (indx OR 0xfe00) 1; State_Monad.return (ucast v) }"

definition read_nic_word :: "u16 \<Rightarrow> ('z, u16) nic_prog" where
  "read_nic_word indx = do { v \<leftarrow> nic_ask (indx OR 0xff00) 2; State_Monad.return (ucast v) }"

definition read_nic_dword :: "u16 \<Rightarrow> ('z, u32) nic_prog" where
  "read_nic_dword indx = nic_ask (indx OR 0xff00) 4"

text \<open>The state after a program.\<close>

definition exec :: "('z, 'a) nic_prog \<Rightarrow> 'z nic_scheme \<Rightarrow> 'z nic_scheme" where
  "exec m n = snd (run_state m n)"

text \<open>The result and the state of a sequence, one after the other.\<close>

lemma exec_bind: "exec (State_Monad.bind m f) n = exec (f (fst (run_state m n))) (exec m n)"
  by (simp add: exec_def split: prod.splits)

lemma result_bind: "fst (run_state (State_Monad.bind m f) n) = fst (run_state (f (fst (run_state m n))) (exec m n))"
  by (simp add: exec_def split: prod.splits)

lemma exec_return: "exec (State_Monad.return x) n = n"
  by (simp add: exec_def)

lemma result_return: "fst (run_state (State_Monad.return x) n) = x"
  by simp

lemmas prog_steps = exec_bind result_bind exec_return result_return

lemmas nic_access_defs = write_nic_byte_E_def write_nic_byte_def write_nic_word_def write_nic_dword_def
  read_nic_byte_def read_nic_byte_E_def read_nic_word_def read_nic_dword_def

text \<open>A loop of the code that does the same for each element.\<close>

primrec each :: "('a \<Rightarrow> ('z, unit) nic_prog) \<Rightarrow> 'a list \<Rightarrow> ('z, unit) nic_prog" where
  "each f [] = State_Monad.return ()"
| "each f (x # xs) = do { f x; each f xs }"

section \<open>Programs that only touch the device\<close>

text \<open>Such a program changes nothing but the log, which it extends.\<close>

definition nic_keeps :: "('z, 'a) nic_prog \<Rightarrow> bool" where
  "nic_keeps m \<longleftrightarrow> (\<forall>n. \<exists>xs. exec m n = n\<lparr>nic_log := xs @ nic_log n\<rparr>)"

named_theorems keeps "programs that only extend the log of the device"

lemma nic_keepsE:
  assumes "nic_keeps m"
  obtains xs where "exec m n = n\<lparr>nic_log := xs @ nic_log n\<rparr>"
  using assms unfolding nic_keeps_def by blast

lemma nic_keeps_answer: "nic_keeps m \<Longrightarrow> nic_answer (exec m n) = nic_answer n"
  by (erule nic_keepsE [of _ n]) simp

lemma keeps_do [keeps]: "nic_keeps (nic_do x)"
  unfolding nic_keeps_def by (intro allI exI [of _ "[x]"]) (simp add: exec_def)

lemma keeps_ask [keeps]: "nic_keeps (nic_ask a len)"
  unfolding nic_keeps_def by (intro allI exI [of _ "[Nic_Read a len]"]) (simp add: exec_def)

lemma keeps_return [keeps]: "nic_keeps (State_Monad.return x)"
  unfolding nic_keeps_def by (intro allI exI [of _ "[]"]) (simp add: exec_def)

lemma keeps_get [keeps]: "nic_keeps State_Monad.get"
  unfolding nic_keeps_def by (intro allI exI [of _ "[]"]) (simp add: exec_def)

lemma keeps_bind [keeps]:
  assumes "nic_keeps m" "\<And>x. nic_keeps (f x)"
  shows "nic_keeps (State_Monad.bind m f)"
  unfolding nic_keeps_def
proof
  fix n
  obtain xs where x: "exec m n = n\<lparr>nic_log := xs @ nic_log n\<rparr>" by (rule nic_keepsE [OF assms(1)])
  obtain ys where "exec (f (fst (run_state m n))) (exec m n) = (exec m n)\<lparr>nic_log := ys @ nic_log (exec m n)\<rparr>"
    by (rule nic_keepsE [OF assms(2)])
  then have "exec (State_Monad.bind m f) n = n\<lparr>nic_log := (ys @ xs) @ nic_log n\<rparr>" by (simp add: exec_bind x)
  then show "\<exists>xs. exec (State_Monad.bind m f) n = n\<lparr>nic_log := xs @ nic_log n\<rparr>" by blast
qed

lemma keeps_if [keeps]: "nic_keeps a \<Longrightarrow> nic_keeps b \<Longrightarrow> nic_keeps (if c then a else b)"
  by simp

lemma keeps_each [keeps]:
  assumes "\<And>x. nic_keeps (f x)"
  shows "nic_keeps (each f xs)"
proof (induction xs)
  case Nil
  then show ?case by (simp add: keeps_return)
next
  case (Cons x xs)
  then show ?case using assms by (simp add: keeps_bind)
qed

lemma keeps_each_pair [keeps]:
  assumes "\<And>a b. nic_keeps (f a b)"
  shows "nic_keeps (each (\<lambda>(a, b). f a b) xs)"
  using assms by (intro keeps_each) (simp add: split_beta)

lemma keeps_access [keeps]:
  "nic_keeps (write_nic_byte_E a d)" "nic_keeps (write_nic_byte a d)" "nic_keeps (write_nic_word a w)"
  "nic_keeps (write_nic_dword a l)" "nic_keeps (read_nic_byte a)" "nic_keeps (read_nic_byte_E a)"
  "nic_keeps (read_nic_word a)" "nic_keeps (read_nic_dword a)"
  unfolding nic_access_defs by (intro keeps)+
end
