(* ===== verification/Eeprom.thy ===== *)
theory Eeprom
  imports Nic
begin

text \<open>
  The configuration memory in \<open>rtl8187/r8180_93cx6.c\<close>: a 93C46 or 93C56 on three wires, which the driver drives
  by the bits of one register.  \<open>eprom_reads_word\<close> puts the driver and the chip of the data sheet together.
\<close>

section \<open>The driver\<close>

datatype eprom_type = EPROM_93c46 | EPROM_93c56

abbreviation EPROM_CMD :: u16 where "EPROM_CMD \<equiv> 0x50"
abbreviation EPROM_CS :: u8 where "EPROM_CS \<equiv> 8"
abbreviation EPROM_CK :: u8 where "EPROM_CK \<equiv> 4"
abbreviation EPROM_W :: u8 where "EPROM_W \<equiv> 2"
abbreviation EPROM_R :: u8 where "EPROM_R \<equiv> 1"

definition eprom_cs :: "bool \<Rightarrow> ('z, unit) nic_prog" where
  "eprom_cs b =
     (if b then do { r \<leftarrow> read_nic_byte EPROM_CMD; write_nic_byte EPROM_CMD (EPROM_CS OR r) }
      else do { r \<leftarrow> read_nic_byte EPROM_CMD; write_nic_byte EPROM_CMD (r AND NOT EPROM_CS) })"

definition eprom_ck_cycle :: "('z, unit) nic_prog" where
  "eprom_ck_cycle = do {
     r \<leftarrow> read_nic_byte EPROM_CMD;
     write_nic_byte EPROM_CMD (EPROM_CK OR r);
     r \<leftarrow> read_nic_byte EPROM_CMD;
     write_nic_byte EPROM_CMD (r AND NOT EPROM_CK)
   }"

definition eprom_w :: "u16 \<Rightarrow> ('z, unit) nic_prog" where
  "eprom_w b =
     (if b \<noteq> 0 then do { r \<leftarrow> read_nic_byte EPROM_CMD; write_nic_byte EPROM_CMD (EPROM_W OR r) }
      else do { r \<leftarrow> read_nic_byte EPROM_CMD; write_nic_byte EPROM_CMD (r AND NOT EPROM_W) })"

definition eprom_r :: "('z, u32) nic_prog" where
  "eprom_r = do {
     r \<leftarrow> read_nic_byte EPROM_CMD;
     State_Monad.return (if r AND EPROM_R \<noteq> 0 then 1 else 0)
   }"

primrec eprom_send_bits_string :: "u16 list \<Rightarrow> ('z, unit) nic_prog" where
  "eprom_send_bits_string [] = State_Monad.return ()"
| "eprom_send_bits_string (b # bs) = do { eprom_w b; eprom_ck_cycle; eprom_send_bits_string bs }"

text \<open>The loop over the sixteen bits of the word; the argument is \<open>16 - i\<close>.\<close>

primrec eprom_read_bits :: "nat \<Rightarrow> u32 \<Rightarrow> ('z, u32) nic_prog" where
  "eprom_read_bits 0 ret = State_Monad.return ret"
| "eprom_read_bits (Suc k) ret = do {
     eprom_ck_cycle;
     b \<leftarrow> eprom_r;
     eprom_read_bits k (ret OR push_bit k b)
   }"

definition addr_str :: "eprom_type \<Rightarrow> u32 \<Rightarrow> u16 list" where
  "addr_str type addr =
     (case type of
        EPROM_93c56 \<Rightarrow> map (\<lambda>i. ucast (addr AND push_bit i 1)) [7, 6, 5, 4, 3, 2, 1, 0]
      | EPROM_93c46 \<Rightarrow> map (\<lambda>i. ucast (addr AND push_bit i 1)) [5, 4, 3, 2, 1, 0])"

abbreviation EPROM_CMD_PROGRAM :: u8 where "EPROM_CMD_PROGRAM \<equiv> 2"
abbreviation EPROM_CMD_NORMAL :: u8 where "EPROM_CMD_NORMAL \<equiv> 0"
abbreviation EPROM_CMD_CONFIG :: u8 where "EPROM_CMD_CONFIG \<equiv> 3"
abbreviation EPROM_CMD_LOAD :: u8 where "EPROM_CMD_LOAD \<equiv> 1"

definition eprom_read :: "eprom_type \<Rightarrow> u32 \<Rightarrow> ('z, u32) nic_prog" where
  "eprom_read type addr = do {
     write_nic_byte EPROM_CMD (push_bit 6 EPROM_CMD_PROGRAM);
     eprom_cs True;
     eprom_ck_cycle;
     eprom_send_bits_string [1, 1, 0];
     eprom_send_bits_string (addr_str type addr);
     eprom_w 0;
     ret \<leftarrow> eprom_read_bits 16 0;
     eprom_cs False;
     eprom_ck_cycle;
     write_nic_byte EPROM_CMD (push_bit 6 EPROM_CMD_NORMAL);
     State_Monad.return ret
   }"

section \<open>The chip\<close>

text \<open>
  The serial memory of its data sheet: while it is selected, each rising edge of the clock shifts one bit of the
  data line in.  The first one is the start bit; two bits of opcode and the address follow.  After the last
  address bit of a READ the chip drives a zero, and each further edge puts out one bit of the word, the
  most significant one first.  Deselecting it forgets all.
\<close>

record chip =
  ch_cs :: bool
  ch_ck :: bool
  ch_di :: bool
  ch_in :: "bool list"
  ch_out :: "bool list"
  ch_do :: bool

definition bits_of_word :: "u16 \<Rightarrow> bool list" where
  "bits_of_word w = map (bit w) (rev [0..<16])"

definition nat_of_bits :: "bool list \<Rightarrow> nat" where
  "nat_of_bits bs = horner_sum of_bool 2 (rev bs)"

definition chip_edge :: "nat \<Rightarrow> (nat \<Rightarrow> u16) \<Rightarrow> chip \<Rightarrow> chip" where
  "chip_edge alen mem c =
     (if ch_in c = [] \<and> \<not> ch_di c then c
      else if length (ch_in c) < 3 + alen then
        (let bs = ch_in c @ [ch_di c]
         in if length bs = 3 + alen \<and> take 3 bs = [True, True, False]
            then c\<lparr>ch_in := bs, ch_out := bits_of_word (mem (nat_of_bits (drop 3 bs))), ch_do := False\<rparr>
            else c\<lparr>ch_in := bs\<rparr>)
      else case ch_out c of [] \<Rightarrow> c | b # bs \<Rightarrow> c\<lparr>ch_out := bs, ch_do := b\<rparr>)"

text \<open>The lines as the register of the device sets them; outside the programming mode the chip is not selected.\<close>

definition chip_write :: "nat \<Rightarrow> (nat \<Rightarrow> u16) \<Rightarrow> u8 \<Rightarrow> chip \<Rightarrow> chip" where
  "chip_write alen mem v c =
     (let cs = (bit v 3 \<and> bit v 7 \<and> \<not> bit v 6);
          c' = c\<lparr>ch_cs := cs, ch_ck := bit v 2, ch_di := bit v 1\<rparr>
      in if \<not> cs then c'\<lparr>ch_in := [], ch_out := [], ch_do := True\<rparr>
         else if \<not> ch_ck c \<and> bit v 2 then chip_edge alen mem c' else c')"

definition chip_reset :: chip where
  "chip_reset = \<lparr>ch_cs = False, ch_ck = False, ch_di = False, ch_in = [], ch_out = [], ch_do = True\<rparr>"

text \<open>What the register holds, and where the chip is, after the transfers of a log.\<close>

fun eprom_reg :: "nic_op list \<Rightarrow> u8" where
  "eprom_reg [] = 0"
| "eprom_reg (Nic_Write a len v # xs) = (if a = 0xff50 \<and> len = 1 then ucast v else eprom_reg xs)"
| "eprom_reg (_ # xs) = eprom_reg xs"

fun chip_after :: "nat \<Rightarrow> (nat \<Rightarrow> u16) \<Rightarrow> nic_op list \<Rightarrow> chip" where
  "chip_after alen mem [] = chip_reset"
| "chip_after alen mem (Nic_Write a len v # xs) =
     (if a = 0xff50 \<and> len = 1 then chip_write alen mem (ucast v) (chip_after alen mem xs) else chip_after alen mem xs)"
| "chip_after alen mem (_ # xs) = chip_after alen mem xs"

text \<open>A device with such a chip: its register reads back what was written, with the chip's line in bit zero.\<close>

definition chip_answer :: "nat \<Rightarrow> (nat \<Rightarrow> u16) \<Rightarrow> nic_op list \<Rightarrow> u32" where
  "chip_answer alen mem xs =
     (ucast (eprom_reg xs) AND NOT 1) OR of_bool (ch_do (chip_after alen mem xs))"

definition eprom_wired :: "nat \<Rightarrow> (nat \<Rightarrow> u16) \<Rightarrow> 'z nic_scheme \<Rightarrow> bool" where
  "eprom_wired alen mem n \<longleftrightarrow> (\<forall>xs. nic_answer n xs 0xff50 1 = chip_answer alen mem xs)"

definition eprom_addr_len :: "eprom_type \<Rightarrow> nat" where
  "eprom_addr_len type = (case type of EPROM_93c46 \<Rightarrow> 6 | EPROM_93c56 \<Rightarrow> 8)"

section \<open>The driver and the chip together\<close>

lemma eprom_wired_keeps: "nic_keeps m \<Longrightarrow> eprom_wired alen mem (exec m n) \<longleftrightarrow> eprom_wired alen mem n"
  by (simp add: nic_keeps_answer eprom_wired_def)

lemma eprom_cmd [simp]: "EPROM_CMD OR 0xff00 = 0xff50"
  by simp

lemma run_write_cmd [simp]:
  "run_state (write_nic_byte EPROM_CMD v) n = ((), n\<lparr>nic_log := Nic_Write 0xff50 1 (ucast v) # nic_log n\<rparr>)"
  by (simp add: write_nic_byte_def)

text \<open>The value a read of the register gives: what was written, with the chip's line in bit zero.\<close>

definition cmd_read :: "nat \<Rightarrow> (nat \<Rightarrow> u16) \<Rightarrow> nic_op list \<Rightarrow> u8" where
  "cmd_read alen mem xs = ucast (chip_answer alen mem xs)"

lemma cmd_read_bits:
  "bit (cmd_read alen mem xs) i \<longleftrightarrow> (if i = 0 then ch_do (chip_after alen mem xs) else bit (eprom_reg xs) i)"
proof -
  have z: "bit (of_bool b :: u32) i \<longleftrightarrow> b \<and> i = 0" for b by (cases b) (simp_all add: bit_1_iff)
  have one: "bit (NOT 1 :: u32) i \<longleftrightarrow> i < 32 \<and> i \<noteq> 0" by (simp add: bit_not_iff bit_1_iff possible_bit_word conj_commute)
  have "i < 8" if "bit (eprom_reg xs) i" using bit_imp_le_length [OF that] by simp
  then show ?thesis
    unfolding cmd_read_def chip_answer_def unsigned_or_eq unsigned_and_eq bit_or_iff bit_and_iff bit_unsigned_iff possible_bit_word z one
    by auto
qed

lemma run_read_wired:
  assumes "eprom_wired alen mem n"
  shows "run_state (read_nic_byte EPROM_CMD) n =
     (cmd_read alen mem (nic_log n), n\<lparr>nic_log := Nic_Read 0xff50 1 # nic_log n\<rparr>)"
  using assms by (simp add: read_nic_byte_def eprom_wired_def cmd_read_def del: One_nat_def)

lemma eprom_wired_log [simp]: "eprom_wired alen mem (n\<lparr>nic_log := xs\<rparr>) \<longleftrightarrow> eprom_wired alen mem n"
  by (simp add: eprom_wired_def)

lemma cmd_bits:
  fixes v :: u8
  shows "bit (8 OR v) i \<longleftrightarrow> i = 3 \<or> bit v i" "bit (4 OR v) i \<longleftrightarrow> i = 2 \<or> bit v i" "bit (2 OR v) i \<longleftrightarrow> i = 1 \<or> bit v i"
    "bit (v AND - 9) i \<longleftrightarrow> i \<noteq> 3 \<and> bit v i" "bit (v AND - 5) i \<longleftrightarrow> i \<noteq> 2 \<and> bit v i" "bit (v AND - 3) i \<longleftrightarrow> i \<noteq> 1 \<and> bit v i"
proof -
  have p: "bit (push_bit k (1 :: u8)) i \<longleftrightarrow> i = k" if "k < 8" for k
    using that unfolding bit_push_bit_iff bit_1_iff possible_bit_word by auto
  have m: "bit (8 :: u8) i \<longleftrightarrow> i = 3" "bit (4 :: u8) i \<longleftrightarrow> i = 2" "bit (2 :: u8) i \<longleftrightarrow> i = 1"
    using p [of 3] p [of 2] p [of 1] by simp_all
  show "bit (8 OR v) i \<longleftrightarrow> i = 3 \<or> bit v i" "bit (4 OR v) i \<longleftrightarrow> i = 2 \<or> bit v i" "bit (2 OR v) i \<longleftrightarrow> i = 1 \<or> bit v i"
    by (simp_all only: bit_or_iff m)
  have n: "- 9 = NOT (8 :: u8)" "- 5 = NOT (4 :: u8)" "- 3 = NOT (2 :: u8)" by simp_all
  show "bit (v AND - 9) i \<longleftrightarrow> i \<noteq> 3 \<and> bit v i" "bit (v AND - 5) i \<longleftrightarrow> i \<noteq> 2 \<and> bit v i" "bit (v AND - 3) i \<longleftrightarrow> i \<noteq> 1 \<and> bit v i"
    unfolding n bit_and_iff bit_not_iff m using bit_imp_le_length [of v i] by auto
qed

text \<open>In the middle of a command: selected, the clock low, and the data line at \<open>d\<close>.\<close>

definition eprom_selected :: "nat \<Rightarrow> (nat \<Rightarrow> u16) \<Rightarrow> chip \<Rightarrow> 'z nic_scheme \<Rightarrow> bool" where
  "eprom_selected alen mem c n \<longleftrightarrow> eprom_wired alen mem n \<and> chip_after alen mem (nic_log n) = c \<and>
     ch_cs c \<and> \<not> ch_ck c \<and>
     (let v = eprom_reg (nic_log n) in bit v 7 \<and> \<not> bit v 6 \<and> bit v 3 \<and> \<not> bit v 2 \<and> bit v 1 = ch_di c)"

lemma ucast_ucast_u8 [simp]: "ucast (ucast (v :: u8) :: u32) = v"
  by (rule bit_word_eqI) (simp add: bit_simps)

lemma chip_edge_lines [simp]:
  "ch_cs (chip_edge alen mem c) = ch_cs c" "ch_ck (chip_edge alen mem c) = ch_ck c" "ch_di (chip_edge alen mem c) = ch_di c"
  by (simp_all add: chip_edge_def Let_def split: list.split)

lemma chip_same: "ch_cs c = x \<Longrightarrow> c\<lparr>ch_cs := x\<rparr> = c" "ch_di c = d \<Longrightarrow> c\<lparr>ch_di := d\<rparr> = c"
  by simp_all

lemma eprom_w_selected:
  assumes "eprom_selected alen mem c n"
  shows "eprom_selected alen mem (c\<lparr>ch_di := (x \<noteq> 0)\<rparr>) (exec (eprom_w x) n)"
  using assms
  by (simp add: eprom_selected_def eprom_w_def exec_def run_read_wired [of alen mem] cmd_read_bits cmd_bits chip_write_def Let_def)

lemma eprom_ck_selected:
  assumes "eprom_selected alen mem c n"
  shows "eprom_selected alen mem (chip_edge alen mem (c\<lparr>ch_ck := True\<rparr>)\<lparr>ch_ck := False\<rparr>) (exec eprom_ck_cycle n)"
  using assms
  by (simp add: eprom_selected_def eprom_ck_cycle_def exec_def run_read_wired [of alen mem] cmd_read_bits cmd_bits chip_write_def Let_def chip_same)

text \<open>One bit into the chip.\<close>

definition chip_shift :: "nat \<Rightarrow> (nat \<Rightarrow> u16) \<Rightarrow> bool \<Rightarrow> chip \<Rightarrow> chip" where
  "chip_shift alen mem d c = chip_edge alen mem (c\<lparr>ch_di := d, ch_ck := True\<rparr>)\<lparr>ch_ck := False\<rparr>"

lemma eprom_clock_in:
  assumes "eprom_selected alen mem c n"
  shows "eprom_selected alen mem (chip_shift alen mem (x \<noteq> 0) c) (exec (do { eprom_w x; eprom_ck_cycle }) n)"
  using eprom_ck_selected [OF eprom_w_selected [OF assms, of x]]
  by (simp add: chip_shift_def prog_steps)

lemma eprom_send_selected:
  "eprom_selected alen mem c n \<Longrightarrow>
     eprom_selected alen mem (fold (\<lambda>x. chip_shift alen mem (x \<noteq> 0)) bs c) (exec (eprom_send_bits_string bs) n)"
proof (induction bs arbitrary: c n)
  case Nil
  then show ?case by (simp add: prog_steps)
next
  case (Cons b bs)
  from Cons.IH [OF eprom_clock_in [OF Cons.prems]] show ?case by (simp add: prog_steps)
qed

lemma and_one_bit: "(r :: u8) AND 1 \<noteq> 0 \<longleftrightarrow> bit r 0"
  by (simp add: and_one_eq bit_0 odd_iff_mod_2_eq_one)

lemma eprom_r_selected:
  assumes "eprom_selected alen mem c n"
  shows "fst (run_state eprom_r n) = of_bool (ch_do c)" "eprom_selected alen mem c (exec eprom_r n)"
  using assms
  by (simp_all add: eprom_selected_def eprom_r_def exec_def run_read_wired [of alen mem] and_one_bit cmd_read_bits del: bit_0)

text \<open>While the word goes out, the chip holds the bits that are left.\<close>

lemma eprom_bits_selected:
  assumes "eprom_selected alen mem c n" "length (ch_in c) = 3 + alen" "ch_out c = map (bit w) (rev [0..<k])" "k \<le> 16"
  shows "fst (run_state (eprom_read_bits k ret) n) = ret OR ucast (take_bit k (w :: u16)) \<and>
    (\<exists>c. eprom_selected alen mem c (exec (eprom_read_bits k ret) n))"
  using assms
proof (induction k arbitrary: n c ret)
  case 0
  then show ?case by (auto simp: prog_steps)
next
  case (Suc k)
  let ?c = "chip_edge alen mem (c\<lparr>ch_ck := True\<rparr>)\<lparr>ch_ck := False\<rparr>"
  let ?n1 = "exec eprom_ck_cycle n"
  let ?n2 = "exec eprom_r ?n1"
  have s1: "eprom_selected alen mem ?c ?n1" by (rule eprom_ck_selected [OF Suc.prems(1)])
  have c: "length (ch_in ?c) = 3 + alen" "ch_out ?c = map (bit w) (rev [0..<k])" "ch_do ?c = bit w k"
    using Suc.prems(2,3) by (auto simp: chip_edge_def)
  have r: "fst (run_state eprom_r ?n1) = of_bool (bit w k)" "eprom_selected alen mem ?c ?n2"
    using eprom_r_selected [OF s1] c(3) by simp_all
  have run: "run_state (eprom_read_bits (Suc k) ret) n = run_state (eprom_read_bits k (ret OR push_bit k (of_bool (bit w k)))) ?n2"
    using r(1) by (simp add: exec_def split: prod.splits) force
  have "ret OR push_bit k (of_bool (bit w k)) OR ucast (take_bit k w) = ret OR ucast (take_bit (Suc k) w)"
    by (rule bit_eqI) (use Suc.prems(4) in \<open>auto simp: bit_simps less_Suc_eq\<close>)
  then show ?case
    using Suc.IH [OF r(2) c(1,2), of "ret OR push_bit k (of_bool (bit w k))"] Suc.prems(4)
    unfolding exec_def run by (simp add: or.assoc)
qed

lemma addr_bit: "i < 16 \<Longrightarrow> (ucast (addr AND push_bit i 1) :: u16) \<noteq> 0 \<longleftrightarrow> bit (addr :: u32) i"
proof -
  assume i: "i < 16"
  have "bit (ucast (addr AND push_bit i 1) :: u16) j \<longleftrightarrow> j = i \<and> bit addr i" for j
    using i unfolding bit_unsigned_iff bit_and_iff bit_push_bit_iff bit_1_iff possible_bit_word by auto
  then show ?thesis by (metis bit_0_eq bit_word_eqI bot_apply bot_bool_def)
qed

lemma nat_of_addr:
  assumes "unat addr < 2 ^ k"
  shows "nat_of_bits (map (bit (addr :: u32)) (rev [0..<k])) = unat addr"
proof -
  have "map (bit addr) [0..<k] = map (bit (unat addr)) [0..<k]"
    by (rule map_cong) (auto simp: bit_unsigned_iff dest: bit_imp_le_length)
  then have "nat_of_bits (map (bit addr) (rev [0..<k])) = take_bit k (unat addr)"
    by (simp only: nat_of_bits_def rev_map rev_rev_ident horner_sum_bit_eq_take_bit)
  then show ?thesis using assms by (simp add: take_bit_nat_eq_self)
qed

definition chip_ready :: "bool \<Rightarrow> bool list \<Rightarrow> chip" where
  "chip_ready d ins = \<lparr>ch_cs = True, ch_ck = False, ch_di = d, ch_in = ins, ch_out = [], ch_do = True\<rparr>"

text \<open>The whole command, bit by bit.\<close>

lemma chip_command:
  "ins \<noteq> [] \<Longrightarrow> length ins + length ds < 3 + alen \<Longrightarrow>
     fold (chip_shift alen mem) ds (chip_ready d ins) = chip_ready (last (d # ds)) (ins @ ds)"
  by (induction ds arbitrary: ins d) (auto simp: chip_shift_def chip_edge_def chip_ready_def Let_def)

lemma chip_command_end:
  assumes "ds \<noteq> []" "length ds = alen"
  shows "let c = fold (chip_shift alen mem) ds (chip_ready d [True, True, False])
         in ch_in c = [True, True, False] @ ds \<and> ch_out c = bits_of_word (mem (nat_of_bits ds))"
proof -
  obtain ds' e where ds: "ds = ds' @ [e]" using assms(1) by (metis append_butlast_last_id)
  have "fold (chip_shift alen mem) ds' (chip_ready d [True, True, False]) =
      chip_ready (last (d # ds')) ([True, True, False] @ ds')"
    by (rule chip_command) (use assms(2) ds in auto)
  then show ?thesis
    using assms(2) unfolding ds by (simp add: chip_shift_def chip_edge_def chip_ready_def Let_def)
qed

lemma addr_str_bits:
  "map (\<lambda>x. x \<noteq> 0) (addr_str type addr) = map (bit addr) (rev [0..<eprom_addr_len type])"
proof -
  have "rev [0..<6] = [5, 4, 3, 2, 1, 0 :: nat]" "rev [0..<8] = [7, 6, 5, 4, 3, 2, 1, 0 :: nat]" by (simp_all add: upt_rec)
  then have "addr_str type addr = map (\<lambda>i. ucast (addr AND push_bit i 1)) (rev [0..<eprom_addr_len type])"
    by (cases type) (simp_all only: addr_str_def eprom_addr_len_def eprom_type.case)
  moreover have "eprom_addr_len type \<le> 8" by (cases type) (simp_all add: eprom_addr_len_def)
  moreover have "(ucast (addr AND push_bit i 1) :: u16) \<noteq> 0 \<longleftrightarrow> bit addr i" if "i < eprom_addr_len type" for i
    by (rule addr_bit) (use that \<open>eprom_addr_len type \<le> 8\<close> in linarith)
  ultimately show ?thesis by (simp only: map_map comp_def) (auto intro: map_cong)
qed

lemma eprom_start:
  assumes "eprom_wired alen mem n"
  shows "eprom_selected alen mem (chip_ready False [])
    (exec (do { write_nic_byte EPROM_CMD (push_bit 6 EPROM_CMD_PROGRAM); eprom_cs True; eprom_ck_cycle }) n)"
proof -
  let ?n = "exec (eprom_cs True) (exec (write_nic_byte EPROM_CMD (push_bit 6 EPROM_CMD_PROGRAM)) n)"
  have "eprom_selected alen mem (chip_ready False []) ?n"
    using assms
    by (simp add: eprom_selected_def eprom_cs_def exec_def write_nic_byte_def run_read_wired [of alen mem] cmd_read_bits cmd_bits
        chip_write_def chip_ready_def Let_def)
  from eprom_ck_selected [OF this] show ?thesis
    by (simp add: prog_steps chip_edge_def chip_ready_def)
qed

lemma eprom_released:
  "\<not> ch_cs (chip_after alen mem (nic_log (exec (write_nic_byte EPROM_CMD (push_bit 6 EPROM_CMD_NORMAL)) n)))"
  by (simp add: exec_def write_nic_byte_def chip_write_def Let_def)

lemma eprom_read_word:
  assumes wired: "eprom_wired (eprom_addr_len type) mem n" and addr: "unat addr < 2 ^ eprom_addr_len type"
  shows "fst (run_state (eprom_read type addr) n) = ucast (mem (unat addr)) \<and>
    \<not> ch_cs (chip_after (eprom_addr_len type) mem (nic_log (exec (eprom_read type addr) n)))"
proof -
  let ?k = "eprom_addr_len type"
  let ?bs = "map (bit addr) (rev [0..<?k])"
  let ?n1 = "exec (do { write_nic_byte EPROM_CMD (push_bit 6 EPROM_CMD_PROGRAM); eprom_cs True; eprom_ck_cycle }) n"
  let ?n2 = "exec (eprom_send_bits_string (addr_str type addr)) (exec (eprom_send_bits_string [1, 1, 0]) ?n1)"
  let ?c2 = "fold (chip_shift ?k mem) ?bs (chip_ready False [True, True, False])"
  have k: "?k > 0" by (cases type) (simp_all add: eprom_addr_len_def)
  have bits: "fold (\<lambda>x. chip_shift ?k mem (x \<noteq> 0)) (addr_str type addr) c = fold (chip_shift ?k mem) ?bs c" for c
    unfolding addr_str_bits [symmetric] by (simp add: fold_map comp_def)
  have cmd: "fold (\<lambda>x. chip_shift ?k mem (x \<noteq> 0)) [1, 1, 0 :: u16] (chip_ready False []) = chip_ready False [True, True, False]"
    using k by (simp add: chip_shift_def chip_edge_def chip_ready_def Let_def)
  have "eprom_selected ?k mem ?c2 ?n2"
    using eprom_send_selected [OF eprom_send_selected [OF eprom_start [OF wired], of "[1, 1, 0]"], of "addr_str type addr"]
    unfolding bits cmd .
  from eprom_w_selected [OF this, of 0]
  have sel: "eprom_selected ?k mem (?c2\<lparr>ch_di := False\<rparr>) (exec (eprom_w 0) ?n2)" by simp
  have c2: "length (ch_in ?c2) = 3 + ?k" "ch_out ?c2 = map (bit (mem (unat addr))) (rev [0..<16])"
    using chip_command_end [of ?bs ?k mem False] k nat_of_addr [OF addr] unfolding Let_def bits_of_word_def by simp_all
  have "fst (run_state (eprom_read_bits 16 0) (exec (eprom_w 0) ?n2)) = ucast (mem (unat addr))"
    using eprom_bits_selected [OF sel, of "mem (unat addr)" 16 0, THEN conjunct1] c2
    by (simp only: chip.simps or.left_neutral order_refl take_bit_word_eq_self size_word.rep_eq len_num1 len_bit0) simp
  then have "fst (run_state (eprom_read type addr) n) = ucast (mem (unat addr))"
    unfolding eprom_read_def prog_steps by (simp only: prog_steps)
  moreover have "\<not> ch_cs (chip_after ?k mem (nic_log (exec (eprom_read type addr) n)))"
    unfolding eprom_read_def prog_steps by (rule eprom_released)
  ultimately show ?thesis by simp
qed

text \<open>C6: For every content of the configuration memory, either size of chip, every address it has and whatever was
  transferred before, \<open>eprom_read\<close> returns the word the chip holds at that address, and leaves the chip
  deselected.  The device is a parameter; the hypothesis is the data sheet of the chip behind it.\<close>

theorem eprom_reads_word:
  assumes wired: "eprom_wired (eprom_addr_len type) mem n" and addr: "unat addr < 2 ^ eprom_addr_len type"
  shows "fst (run_state (eprom_read type addr) n) = ucast (mem (unat addr)) \<and>
    \<not> ch_cs (chip_after (eprom_addr_len type) mem (nic_log (exec (eprom_read type addr) n)))"
  using assms by (rule eprom_read_word)

text \<open>A memory whose words are their own addresses, complemented.\<close>

definition eprom_example :: nic where
  "eprom_example = \<lparr>nic_log = [Nic_Write 0xff50 1 0x4c],
     nic_answer = (\<lambda>xs a len. if a = 0xff50 \<and> len = 1 then chip_answer 6 (\<lambda>i. NOT (word_of_nat i)) xs else 0)\<rparr>"

lemma eprom_example_wired: "eprom_wired (eprom_addr_len EPROM_93c46) (\<lambda>i. NOT (word_of_nat i)) eprom_example"
  by (simp add: eprom_wired_def eprom_example_def eprom_addr_len_def)

theorem eprom_reads_word_witness:
  "fst (run_state (eprom_read EPROM_93c46 0x16) eprom_example) = 0xffe9 \<and>
   \<not> ch_cs (chip_after (eprom_addr_len EPROM_93c46) (\<lambda>i. NOT (word_of_nat i)) (nic_log (exec (eprom_read EPROM_93c46 0x16) eprom_example)))"
  using eprom_reads_word [OF eprom_example_wired, where addr = "0x16"] by (simp add: eprom_addr_len_def)
end
