(* ===== verification/Hw.thy ===== *)
theory Hw
  imports Eeprom Softmac_Frames Tx_Urb
begin

text \<open>
  The hardware part of \<open>rtl8187/r8187_core.c\<close>: the fields of \<open>struct r8180_priv\<close> that drive the device, and
  the operations on the registers of the MAC: operating mode, link state, filters, transmitter and receiver, reset.
\<close>

section \<open>The private data\<close>

datatype card_type = PCI | MINIPCI | CARDBUS | USB

text \<open>The calls \<open>rf_init\<close>, \<open>rf_set_chan\<close> and \<open>rf_set_sens\<close> are those of one of the two radios.\<close>

datatype rf_calls = RF_CALLS_8225 | RF_CALLS_8225Z2

record r8187 = nic +
  pr_card_type :: card_type
  pr_epromtype :: eprom_type
  pr_irq_mask :: u16
  pr_chan :: int
  pr_sens :: int
  pr_chtxpwr :: "u8 list"
  pr_chtxpwr_ofdm :: "u8 list"
  pr_cck_txpwr_base :: u8
  pr_ofdm_txpwr_base :: u8
  pr_crcmon :: bool
  pr_rf_chip :: nat
  pr_rf_calls :: rf_calls
  pr_retry_data :: u8
  pr_retry_rts :: u8
  pr_tx_urb_index :: int
  pr_InitialGain :: u8
  pr_StageCCKTh :: u8

section \<open>Registers of the MAC\<close>

abbreviation CMD :: u16 where "CMD \<equiv> 0x37"
abbreviation INTA_MASK :: u16 where "INTA_MASK \<equiv> 0x3c"
abbreviation TX_CONF :: u16 where "TX_CONF \<equiv> 0x40"
abbreviation RX_CONF :: u16 where "RX_CONF \<equiv> 0x44"
abbreviation ANAPARAM :: u16 where "ANAPARAM \<equiv> 0x54"
abbreviation MSR :: u16 where "MSR \<equiv> 0x58"
abbreviation CONFIG3 :: u16 where "CONFIG3 \<equiv> 0x59"
abbreviation ANAPARAM2 :: u16 where "ANAPARAM2 \<equiv> 0x60"
abbreviation RFPinsOutput :: u16 where "RFPinsOutput \<equiv> 0x80"
abbreviation RFPinsEnable :: u16 where "RFPinsEnable \<equiv> 0x82"
abbreviation RFPinsSelect :: u16 where "RFPinsSelect \<equiv> 0x84"
abbreviation RFPinsInput :: u16 where "RFPinsInput \<equiv> 0x86"
abbreviation TX_AGC_CTL :: u16 where "TX_AGC_CTL \<equiv> 0x9c"
abbreviation TX_ANTENNA :: u16 where "TX_ANTENNA \<equiv> 0x9f"
abbreviation CW_CONF :: u16 where "CW_CONF \<equiv> 0xbc"
abbreviation BRSR :: u16 where "BRSR \<equiv> 0x2c"
abbreviation RESP_RATE :: u16 where "RESP_RATE \<equiv> 0x34"

abbreviation RTL8225_ANAPARAM_ON :: u32 where "RTL8225_ANAPARAM_ON \<equiv> 0xa0000a59"
abbreviation RTL8225_ANAPARAM_OFF :: u32 where "RTL8225_ANAPARAM_OFF \<equiv> 0xa00beb59"
abbreviation RTL8225_ANAPARAM2_ON :: u32 where "RTL8225_ANAPARAM2_ON \<equiv> 0x860c7312"
abbreviation RTL8225_ANAPARAM2_OFF :: u32 where "RTL8225_ANAPARAM2_OFF \<equiv> 0x840dec11"

definition rtl8180_irq_enable :: "('z r8187_scheme, unit) state" where
  "rtl8180_irq_enable = do { priv \<leftarrow> State_Monad.get; write_nic_word INTA_MASK (pr_irq_mask priv) }"

definition rtl8180_irq_disable :: "('z, unit) nic_prog" where
  "rtl8180_irq_disable = write_nic_word INTA_MASK 0"

text \<open>The operating mode is in the two top bits of the register that also drives the configuration memory.\<close>

definition rtl8180_set_mode :: "u8 \<Rightarrow> ('z, unit) nic_prog" where
  "rtl8180_set_mode mode = do {
     ecmd \<leftarrow> read_nic_byte EPROM_CMD;
     let ecmd = ecmd AND NOT 0xc0;
     let ecmd = ecmd OR push_bit 6 mode;
     let ecmd = ecmd AND NOT EPROM_CS;
     let ecmd = ecmd AND NOT EPROM_CK;
     write_nic_byte EPROM_CMD ecmd
   }"

abbreviation MSR_LINK_MASK :: u8 where "MSR_LINK_MASK \<equiv> 0x0c"

definition msr_link :: "ieee80211_state \<Rightarrow> iw_mode \<Rightarrow> u8" where
  "msr_link st mode =
     (if st = LINKED
      then (if mode = IW_MODE_INFRA then push_bit 2 2
            else if mode = IW_MODE_ADHOC then push_bit 2 1
            else if mode = IW_MODE_MASTER then push_bit 2 3 else 0)
      else push_bit 2 0)"

definition rtl8180_update_msr :: "station \<Rightarrow> ('z, unit) nic_prog" where
  "rtl8180_update_msr sd = do {
     msr \<leftarrow> read_nic_byte MSR;
     let msr = msr AND NOT MSR_LINK_MASK;
     write_nic_byte MSR (msr OR msr_link (sd_state sd) (sd_iw_mode sd))
   }"

definition rtl8180_set_anaparam :: "u32 \<Rightarrow> ('z, unit) nic_prog" where
  "rtl8180_set_anaparam a = do {
     rtl8180_set_mode EPROM_CMD_CONFIG;
     conf3 \<leftarrow> read_nic_byte CONFIG3;
     write_nic_byte CONFIG3 (conf3 OR push_bit 6 1);
     write_nic_dword ANAPARAM a;
     conf3 \<leftarrow> read_nic_byte CONFIG3;
     write_nic_byte CONFIG3 (conf3 AND NOT (push_bit 6 1));
     rtl8180_set_mode EPROM_CMD_NORMAL
   }"

definition rtl8185_set_anaparam2 :: "u32 \<Rightarrow> ('z, unit) nic_prog" where
  "rtl8185_set_anaparam2 a = do {
     rtl8180_set_mode EPROM_CMD_CONFIG;
     conf3 \<leftarrow> read_nic_byte CONFIG3;
     write_nic_byte CONFIG3 (conf3 OR push_bit 6 1);
     write_nic_dword ANAPARAM2 a;
     conf3 \<leftarrow> read_nic_byte CONFIG3;
     write_nic_byte CONFIG3 (conf3 AND NOT (push_bit 6 1));
     rtl8180_set_mode EPROM_CMD_NORMAL
   }"

definition rtl8185_rf_pins_enable :: "('z, unit) nic_prog" where
  "rtl8185_rf_pins_enable = write_nic_word RFPinsEnable 0x1ff7"

definition rtl8185_tx_antenna :: "u8 \<Rightarrow> ('z, unit) nic_prog" where
  "rtl8185_tx_antenna ant = write_nic_byte TX_ANTENNA ant"

section \<open>Registers of the baseband\<close>

text \<open>Four byte writes, the one with the address and the write bit last.\<close>

definition rtl8187_write_phy :: "u8 \<Rightarrow> u32 \<Rightarrow> ('z, unit) nic_prog" where
  "rtl8187_write_phy adr data =
     (let adr = adr OR 0x80;
          phyw = push_bit 8 data OR ucast adr
      in do {
        write_nic_byte 0x7f (ucast (drop_bit 24 (phyw AND 0xff000000)));
        write_nic_byte 0x7e (ucast (drop_bit 16 (phyw AND 0x00ff0000)));
        write_nic_byte 0x7d (ucast (drop_bit 8 (phyw AND 0x0000ff00)));
        write_nic_byte 0x7c (ucast (phyw AND 0x000000ff))
      })"

definition write_phy_ofdm :: "u8 \<Rightarrow> u32 \<Rightarrow> ('z, unit) nic_prog" where
  "write_phy_ofdm adr data = (let data = data AND 0xff in rtl8187_write_phy adr data)"

definition write_phy_cck :: "u8 \<Rightarrow> u32 \<Rightarrow> ('z, unit) nic_prog" where
  "write_phy_cck adr data = (let data = data AND 0xff in rtl8187_write_phy adr (data OR 0x10000))"

section \<open>The receiver\<close>

abbreviation (input) BIT :: "nat \<Rightarrow> u32" where "BIT n \<equiv> push_bit n 1"

abbreviation MAC_FILTER_MASK :: u32 where "MAC_FILTER_MASK \<equiv> 0x00fc102f"
abbreviation RX_FIFO_THRESHOLD_MASK :: u32 where "RX_FIFO_THRESHOLD_MASK \<equiv> 0xe000"
abbreviation MAX_RX_DMA_MASK :: u32 where "MAX_RX_DMA_MASK \<equiv> 0x700"

definition rxconf_value :: "iw_mode \<Rightarrow> bool \<Rightarrow> bool \<Rightarrow> u32 \<Rightarrow> u32" where
  "rxconf_value mode promisc crcmon rxconf =
     (let rxconf = rxconf AND NOT MAC_FILTER_MASK;
          rxconf = rxconf OR BIT 20;
          rxconf = rxconf OR BIT 18;
          rxconf = rxconf OR BIT 3;
          rxconf = rxconf OR BIT 2;
          rxconf = rxconf OR BIT 19;
          rxconf = (if mode = IW_MODE_MONITOR \<or> promisc then rxconf OR BIT 0 else rxconf OR BIT 1 OR BIT 23);
          rxconf = (if mode = IW_MODE_MONITOR then rxconf OR BIT 12 OR BIT 22 else rxconf);
          rxconf = (if crcmon \<and> mode = IW_MODE_MONITOR then rxconf OR BIT 5 else rxconf);
          rxconf = rxconf AND NOT RX_FIFO_THRESHOLD_MASK;
          rxconf = rxconf OR push_bit 13 7;
          rxconf = rxconf OR BIT 28;
          rxconf = rxconf AND NOT MAX_RX_DMA_MASK;
          rxconf = rxconf OR push_bit 10 7
      in rxconf OR BIT 31)"

definition rtl8187_set_rxconf :: "bool \<Rightarrow> station \<Rightarrow> ('z r8187_scheme, unit) state" where
  "rtl8187_set_rxconf promisc sd = do {
     priv \<leftarrow> State_Monad.get;
     rxconf \<leftarrow> read_nic_dword RX_CONF;
     write_nic_dword RX_CONF (rxconf_value (sd_iw_mode sd) promisc (pr_crcmon priv) rxconf)
   }"

definition rtl8187_rx_urbsubmit :: "('z, unit) nic_prog" where
  "rtl8187_rx_urbsubmit = nic_do Rx_Submit"

text \<open>There is one receive block.\<close>

definition rtl8187_rx_initiate :: "('z r8187_scheme, unit) state" where
  "rtl8187_rx_initiate = do {
     rtl8187_rx_urbsubmit;
     State_Monad.update (\<lambda>priv. priv\<lparr>pr_tx_urb_index := 0\<rparr>)
   }"

definition rtl8180_rx_enable :: "bool \<Rightarrow> station \<Rightarrow> ('z r8187_scheme, unit) state" where
  "rtl8180_rx_enable promisc sd = do {
     rtl8187_rx_initiate;
     rtl8187_set_rxconf promisc sd;
     cmd \<leftarrow> read_nic_byte CMD;
     write_nic_byte CMD (cmd OR push_bit 3 1)
   }"

section \<open>The transmitter\<close>

abbreviation TX_LOOPBACK_MASK :: u32 where "TX_LOOPBACK_MASK \<equiv> 0x60000"
abbreviation TCR_DPRETRY_MASK :: u32 where "TCR_DPRETRY_MASK \<equiv> 0xff00"
abbreviation TCR_RTSRETRY_MASK :: u32 where "TCR_RTSRETRY_MASK \<equiv> 0x00ff"
abbreviation TCR_MXDMA_MASK :: u32 where "TCR_MXDMA_MASK \<equiv> 0xe00000"

definition txconf_value :: "u8 \<Rightarrow> u8 \<Rightarrow> u32 \<Rightarrow> u32" where
  "txconf_value retry_data retry_rts txconf =
     (let txconf = txconf AND NOT TX_LOOPBACK_MASK;
          txconf = txconf OR push_bit 17 0;
          txconf = txconf AND NOT TCR_DPRETRY_MASK;
          txconf = txconf AND NOT TCR_RTSRETRY_MASK;
          txconf = txconf OR ucast retry_data;
          txconf = txconf OR push_bit 8 (ucast retry_rts);
          txconf = txconf AND NOT (BIT 16);
          txconf = txconf AND NOT TCR_MXDMA_MASK;
          txconf = txconf OR push_bit 21 7;
          txconf = txconf OR BIT 31;
          txconf = txconf OR BIT 20;
          txconf = txconf AND NOT (BIT 24)
      in txconf OR BIT 19)"

definition rtl8180_tx_enable :: "('z r8187_scheme, unit) state" where
  "rtl8180_tx_enable = do {
     priv \<leftarrow> State_Monad.get;
     byte \<leftarrow> read_nic_byte CW_CONF;
     let byte = byte AND NOT 1;
     let byte = byte AND NOT 2;
     write_nic_byte CW_CONF byte;
     byte \<leftarrow> read_nic_byte TX_AGC_CTL;
     let byte = byte AND NOT 1;
     let byte = byte AND NOT 2;
     let byte = byte AND NOT 4;
     write_nic_byte TX_AGC_CTL byte;
     txconf \<leftarrow> read_nic_dword TX_CONF;
     write_nic_dword TX_CONF (txconf_value (pr_retry_data priv) (pr_retry_rts priv) txconf);
     cmd \<leftarrow> read_nic_byte CMD;
     write_nic_byte CMD (cmd OR push_bit 2 1)
   }"

definition rtl8180_rtx_disable :: "('z, unit) nic_prog" where
  "rtl8180_rtx_disable = do {
     cmd \<leftarrow> read_nic_byte CMD;
     write_nic_byte CMD (cmd AND NOT (push_bit 3 1 OR push_bit 2 1))
   }"

section \<open>Reset and rates\<close>

definition rtl8180_reset :: "('z, unit) nic_prog" where
  "rtl8180_reset = do {
     rtl8180_set_anaparam RTL8225_ANAPARAM_ON;
     rtl8185_set_anaparam2 RTL8225_ANAPARAM2_ON;
     rtl8180_irq_disable;
     write_nic_byte_E 0x18 0x10;
     write_nic_byte_E 0x18 0x11;
     write_nic_byte_E 0x18 0x00;
     cr \<leftarrow> read_nic_byte CMD;
     let cr = cr AND 2;
     let cr = cr OR push_bit 4 1;
     write_nic_byte CMD cr;
     cr \<leftarrow> read_nic_byte CMD;
     rtl8180_set_mode EPROM_CMD_LOAD;
     rtl8180_set_anaparam RTL8225_ANAPARAM_ON;
     rtl8185_set_anaparam2 RTL8225_ANAPARAM2_ON
   }"

text \<open>Responses go out at 6 to 24 Mb/s; the basic rates are the nine lowest ones.\<close>

definition rtl8187_set_rate :: "('z, unit) nic_prog" where
  "rtl8187_set_rate =
     (let basic_rate = unat (ieeerate2rtlrate 240);
          min_rr_rate = ieeerate2rtlrate 60;
          max_rr_rate = ieeerate2rtlrate 240
      in do {
        write_nic_byte RESP_RATE (ucast (push_bit 4 max_rr_rate OR min_rr_rate));
        word \<leftarrow> read_nic_word BRSR;
        let word = word AND NOT 0x0fff;
        write_nic_word BRSR (fold (\<lambda>i w. w OR push_bit i 1) [0..<Suc basic_rate] word)
      })"

section \<open>Programs that only touch the device\<close>

lemma keeps_hw [keeps]:
  "nic_keeps (rtl8180_set_mode mode)" "nic_keeps (rtl8180_update_msr sd)" "nic_keeps (rtl8180_set_anaparam a)"
  "nic_keeps (rtl8185_set_anaparam2 a)" "nic_keeps rtl8185_rf_pins_enable" "nic_keeps (rtl8185_tx_antenna ant)"
  "nic_keeps (rtl8187_write_phy adr d)" "nic_keeps (write_phy_ofdm adr d)" "nic_keeps (write_phy_cck adr d)"
  "nic_keeps (rtl8187_set_rxconf promisc sd)" "nic_keeps rtl8180_tx_enable" "nic_keeps rtl8180_rtx_disable"
  "nic_keeps rtl8180_irq_enable" "nic_keeps rtl8180_irq_disable" "nic_keeps rtl8180_reset" "nic_keeps rtl8187_set_rate"
  unfolding rtl8180_set_mode_def rtl8180_update_msr_def rtl8180_set_anaparam_def rtl8185_set_anaparam2_def
    rtl8185_rf_pins_enable_def rtl8185_tx_antenna_def rtl8187_write_phy_def write_phy_ofdm_def write_phy_cck_def
    rtl8187_set_rxconf_def rtl8180_tx_enable_def rtl8180_rtx_disable_def rtl8180_irq_enable_def rtl8180_irq_disable_def
    rtl8180_reset_def rtl8187_set_rate_def Let_def
  by (intro keeps)+

section \<open>What the registers get\<close>

text \<open>A baseband write: address with the write bit, one byte of data, and the bank (zero for OFDM, one for CCK).\<close>

definition phy_ops :: "u8 \<Rightarrow> u8 \<Rightarrow> u8 \<Rightarrow> nic_op list" where
  "phy_ops bank adr data = [Nic_Write 0xff7c 1 (ucast (adr OR 0x80)), Nic_Write 0xff7d 1 (ucast data),
     Nic_Write 0xff7e 1 0, Nic_Write 0xff7f 1 (ucast bank)]"

lemma phy_masks:
  fixes w :: u32
  shows "ucast (w AND 0xff) = (ucast w :: u8)" "ucast (drop_bit 8 (w AND 0xff00)) = (ucast (drop_bit 8 w) :: u8)"
    "ucast (drop_bit 16 (w AND 0xff0000)) = (ucast (drop_bit 16 w) :: u8)"
    "ucast (drop_bit 24 (w AND 0xff000000)) = (ucast (drop_bit 24 w) :: u8)"
proof -
  have m: "(0xff :: u32) = mask 8" "(0xff00 :: u32) = push_bit 8 (mask 8)" "(0xff0000 :: u32) = push_bit 16 (mask 8)"
    "(0xff000000 :: u32) = push_bit 24 (mask 8)" by (simp_all add: mask_eq_exp_minus_1)
  show "ucast (w AND 0xff) = (ucast w :: u8)" "ucast (drop_bit 8 (w AND 0xff00)) = (ucast (drop_bit 8 w) :: u8)"
    "ucast (drop_bit 16 (w AND 0xff0000)) = (ucast (drop_bit 16 w) :: u8)"
    "ucast (drop_bit 24 (w AND 0xff000000)) = (ucast (drop_bit 24 w) :: u8)"
    unfolding m by (rule bit_word_eqI; simp only: bit_unsigned_iff bit_drop_bit_eq bit_and_iff bit_push_bit_iff bit_mask_iff possible_bit_word comp_def; auto)+
qed

lemma phy_bytes:
  fixes d :: u32 and a :: u8
  assumes b: "bk = 0 \<or> bk = (0x10000 :: u32)"
  defines "w \<equiv> push_bit 8 (d AND 0xff OR bk) OR ucast a"
  shows "(ucast w :: u8) = a" "(ucast (drop_bit 8 w) :: u8) = ucast d"
    "(ucast (drop_bit 16 w) :: u8) = 0" "(ucast (drop_bit 24 w) :: u8) = ucast (drop_bit 16 bk)"
proof -
  have k: "bit bk i \<longleftrightarrow> i = 16 \<and> bk \<noteq> 0" for i
  proof -
    have "bit (push_bit 16 1 :: u32) i \<longleftrightarrow> i = 16" unfolding bit_push_bit_iff bit_1_iff possible_bit_word by auto
    then show ?thesis using b by (auto simp: push_bit_eq_mult)
  qed
  have m: "(0xff :: u32) = mask 8" by (simp add: mask_eq_exp_minus_1)
  have a: "i < 8" if "bit a i" for i using bit_imp_le_length [OF that] by simp
  have w: "bit w i \<longleftrightarrow> i < 32 \<and> (bit a i \<or> (8 \<le> i \<and> i < 16 \<and> bit d (i - 8)) \<or> (i = 24 \<and> bk \<noteq> 0))" for i
    unfolding w_def m bit_or_iff bit_push_bit_iff bit_and_iff bit_mask_iff bit_unsigned_iff possible_bit_word k by (auto dest: a)
  show "(ucast w :: u8) = a" "(ucast (drop_bit 8 w) :: u8) = ucast d"
    "(ucast (drop_bit 16 w) :: u8) = 0" "(ucast (drop_bit 24 w) :: u8) = ucast (drop_bit 16 bk)"
    by (rule bit_word_eqI; auto simp: bit_unsigned_iff bit_drop_bit_eq w k dest: a)+
qed

lemma exec_write_byte: "exec (write_nic_byte a v) n = n\<lparr>nic_log := Nic_Write (a OR 0xff00) 1 (ucast v) # nic_log n\<rparr>"
  "exec (write_nic_word a w) n = n\<lparr>nic_log := Nic_Write (a OR 0xff00) 2 (ucast w) # nic_log n\<rparr>"
  "exec (write_nic_dword a l) n = n\<lparr>nic_log := Nic_Write (a OR 0xff00) 4 l # nic_log n\<rparr>"
  by (simp_all add: exec_def nic_access_defs)

lemma exec_write_phy:
  assumes "bk = 0 \<or> bk = (0x10000 :: u32)"
  shows "exec (rtl8187_write_phy adr (d AND 0xff OR bk)) n =
    n\<lparr>nic_log := phy_ops (ucast (drop_bit 16 bk)) adr (ucast d) @ nic_log n\<rparr>"
  unfolding rtl8187_write_phy_def Let_def phy_masks phy_bytes [OF assms] prog_steps exec_write_byte
  by (simp add: phy_ops_def)

lemma exec_phy:
  "exec (write_phy_ofdm adr d) n = n\<lparr>nic_log := phy_ops 0 adr (ucast d) @ nic_log n\<rparr>"
  "exec (write_phy_cck adr d) n = n\<lparr>nic_log := phy_ops 1 adr (ucast d) @ nic_log n\<rparr>"
  using exec_write_phy [of 0 adr d n] exec_write_phy [of "0x10000" adr d n]
  unfolding write_phy_ofdm_def write_phy_cck_def Let_def by simp_all

lemma rxconf_bits:
  shows "bit (rxconf_value mode promisc crcmon v) 20" "bit (rxconf_value mode promisc crcmon v) 19"
    "bit (rxconf_value mode promisc crcmon v) 18" "bit (rxconf_value mode promisc crcmon v) 2"
    "bit (rxconf_value mode promisc crcmon v) 3" "bit (rxconf_value mode promisc crcmon v) 12"
    "bit (rxconf_value mode promisc crcmon v) 0 \<longleftrightarrow> mode = IW_MODE_MONITOR \<or> promisc"
    "bit (rxconf_value mode promisc crcmon v) 1 \<longleftrightarrow> \<not> (mode = IW_MODE_MONITOR \<or> promisc)"
    "bit (rxconf_value mode promisc crcmon v) 23 \<longleftrightarrow> \<not> (mode = IW_MODE_MONITOR \<or> promisc)"
    "bit (rxconf_value mode promisc crcmon v) 22 \<longleftrightarrow> mode = IW_MODE_MONITOR"
    "bit (rxconf_value mode promisc crcmon v) 5 \<longleftrightarrow> crcmon \<and> mode = IW_MODE_MONITOR"
  by (cases "mode = IW_MODE_MONITOR"; cases promisc; cases crcmon; simp add: rxconf_value_def bit_simps)+

text \<open>C32: What the receiver lets through after \<open>rtl8187_set_rxconf\<close>, whatever the register held: management,
  control, data, multicast and broadcast frames always; all addresses in monitor or promiscuous mode, otherwise
  the own address with the check of the cell; frames with a wrong CRC only in monitor mode with
  \<open>crcmon\<close>.  Frames with a wrong ICV are let through in every mode: the size of the DMA bursts is shifted by ten
  and not by eight, and its top bit falls on that filter.\<close>

theorem rxconf_filter:
  fixes n :: "'z r8187_scheme"
  shows "\<exists>v. nic_log (exec (rtl8187_set_rxconf promisc sd) n) = Nic_Write 0xff44 4 v # Nic_Read 0xff44 4 # nic_log n \<and>
     bit v 20 \<and> bit v 19 \<and> bit v 18 \<and> bit v 2 \<and> bit v 3 \<and>
     (bit v 0 \<longleftrightarrow> sd_iw_mode sd = IW_MODE_MONITOR \<or> promisc) \<and>
     (bit v 1 \<longleftrightarrow> \<not> (sd_iw_mode sd = IW_MODE_MONITOR \<or> promisc)) \<and>
     (bit v 23 \<longleftrightarrow> \<not> (sd_iw_mode sd = IW_MODE_MONITOR \<or> promisc)) \<and>
     (bit v 22 \<longleftrightarrow> sd_iw_mode sd = IW_MODE_MONITOR) \<and>
     (bit v 5 \<longleftrightarrow> pr_crcmon n \<and> sd_iw_mode sd = IW_MODE_MONITOR) \<and> bit v 12"
proof -
  define old where "old = nic_answer n (nic_log n) 0xff44 4"
  define v where "v = rxconf_value (sd_iw_mode sd) promisc (pr_crcmon n) old"
  have log: "nic_log (exec (rtl8187_set_rxconf promisc sd) n) = Nic_Write 0xff44 4 v # Nic_Read 0xff44 4 # nic_log n"
    by (simp add: rtl8187_set_rxconf_def exec_def read_nic_dword_def write_nic_dword_def v_def old_def)
  show ?thesis
    using log rxconf_bits [of "sd_iw_mode sd" promisc "pr_crcmon n" old, folded v_def] by blast
qed
end
