(* ===== verification/Rf8225.thy ===== *)
theory Rf8225
  imports Hw
begin

text \<open>
  The first radio, \<open>rtl8187/r8180_rtl8225.c\<close>: its tables, the serial write, gain, sensitivity, transmit power,
  channel and start-up.  An index outside a table is \<open>None\<close>.
\<close>

section \<open>Tables\<close>

definition rtl8225_threshold :: "u8 list" where
  "rtl8225_threshold = [
    0x8d, 0x8d, 0x8d, 0x8d, 0x9d, 0xad, 0xbd]"

definition rtl8225_gain :: "u8 list" where
  "rtl8225_gain = [
    0x23, 0x88, 0x7c, 0xa5, 0x23, 0x88, 0x7c, 0xb5, 0x23, 0x88, 0x7c, 0xc5, 0x33, 0x80, 0x79, 0xc5, 0x43, 0x78, 0x76,
    0xc5, 0x53, 0x60, 0x73, 0xc5, 0x63, 0x58, 0x70, 0xc5]"

definition rtl8225bcd_rxgain :: "u16 list" where
  "rtl8225bcd_rxgain = [
    0x0400, 0x0401, 0x0402, 0x0403, 0x0404, 0x0405, 0x0408, 0x0409, 0x040a, 0x040b, 0x0502, 0x0503, 0x0504, 0x0505,
    0x0540, 0x0541, 0x0542, 0x0543, 0x0544, 0x0545, 0x0580, 0x0581, 0x0582, 0x0583, 0x0584, 0x0585, 0x0588, 0x0589,
    0x058a, 0x058b, 0x0643, 0x0644, 0x0645, 0x0680, 0x0681, 0x0682, 0x0683, 0x0684, 0x0685, 0x0688, 0x0689, 0x068a,
    0x068b, 0x068c, 0x0742, 0x0743, 0x0744, 0x0745, 0x0780, 0x0781, 0x0782, 0x0783, 0x0784, 0x0785, 0x0788, 0x0789,
    0x078a, 0x078b, 0x078c, 0x078d, 0x0790, 0x0791, 0x0792, 0x0793, 0x0794, 0x0795, 0x0798, 0x0799, 0x079a, 0x079b,
    0x079c, 0x079d, 0x07a0, 0x07a1, 0x07a2, 0x07a3, 0x07a4, 0x07a5, 0x07a8, 0x07a9, 0x07aa, 0x07ab, 0x07ac, 0x07ad,
    0x07b0, 0x07b1, 0x07b2, 0x07b3, 0x07b4, 0x07b5, 0x07b8, 0x07b9, 0x07ba, 0x07bb, 0x07bb]"

definition rtl8225_tx_gain_cck_ofdm :: "u8 list" where
  "rtl8225_tx_gain_cck_ofdm = [
    0x02, 0x06, 0x0e, 0x1e, 0x3e, 0x7e]"

definition rtl8225_tx_power_ofdm :: "u8 list" where
  "rtl8225_tx_power_ofdm = [
    0x80, 0x90, 0xa2, 0xb5, 0xcb, 0xe4]"

definition rtl8225_tx_power_cck_ch14 :: "u8 list" where
  "rtl8225_tx_power_cck_ch14 = [
    0x18, 0x17, 0x15, 0x0c, 0x00, 0x00, 0x00, 0x00, 0x1b, 0x1a, 0x17, 0x0e, 0x00, 0x00, 0x00, 0x00, 0x1f, 0x1e, 0x1a,
    0x0f, 0x00, 0x00, 0x00, 0x00, 0x22, 0x21, 0x1d, 0x11, 0x00, 0x00, 0x00, 0x00, 0x26, 0x25, 0x21, 0x13, 0x00, 0x00,
    0x00, 0x00, 0x2b, 0x2a, 0x25, 0x15, 0x00, 0x00, 0x00, 0x00]"

definition rtl8225_tx_power_cck :: "u8 list" where
  "rtl8225_tx_power_cck = [
    0x18, 0x17, 0x15, 0x11, 0x0c, 0x08, 0x04, 0x02, 0x1b, 0x1a, 0x17, 0x13, 0x0e, 0x09, 0x04, 0x02, 0x1f, 0x1e, 0x1a,
    0x15, 0x10, 0x0a, 0x05, 0x02, 0x22, 0x21, 0x1d, 0x18, 0x11, 0x0b, 0x06, 0x02, 0x26, 0x25, 0x21, 0x1b, 0x14, 0x0d,
    0x06, 0x03, 0x2b, 0x2a, 0x25, 0x1e, 0x16, 0x0e, 0x07, 0x03]"

definition rtl8225_agc :: "u8 list" where
  "rtl8225_agc = [
    0x9e, 0x9e, 0x9e, 0x9e, 0x9e, 0x9e, 0x9e, 0x9e, 0x9d, 0x9c, 0x9b, 0x9a, 0x99, 0x98, 0x97, 0x96, 0x95, 0x94, 0x93,
    0x92, 0x91, 0x90, 0x8f, 0x8e, 0x8d, 0x8c, 0x8b, 0x8a, 0x89, 0x88, 0x87, 0x86, 0x85, 0x84, 0x83, 0x82, 0x81, 0x80,
    0x3f, 0x3e, 0x3d, 0x3c, 0x3b, 0x3a, 0x39, 0x38, 0x37, 0x36, 0x35, 0x34, 0x33, 0x32, 0x31, 0x30, 0x2f, 0x2e, 0x2d,
    0x2c, 0x2b, 0x2a, 0x29, 0x28, 0x27, 0x26, 0x25, 0x24, 0x23, 0x22, 0x21, 0x20, 0x1f, 0x1e, 0x1d, 0x1c, 0x1b, 0x1a,
    0x19, 0x18, 0x17, 0x16, 0x15, 0x14, 0x13, 0x12, 0x11, 0x10, 0x0f, 0x0e, 0x0d, 0x0c, 0x0b, 0x0a, 0x09, 0x08, 0x07,
    0x06, 0x05, 0x04, 0x03, 0x02, 0x01, 0x01, 0x01, 0x01, 0x01, 0x01, 0x01, 0x01, 0x01, 0x01, 0x01, 0x01, 0x01, 0x01,
    0x01, 0x01, 0x01, 0x01, 0x01, 0x01, 0x01, 0x01, 0x01, 0x01, 0x01, 0x01, 0x01, 0x01]"

definition rtl8225_chan :: "u32 list" where
  "rtl8225_chan = [
    0, 0x085c, 0x08dc, 0x095c, 0x09dc, 0x0a5c, 0x0adc, 0x0b5c, 0x0bdc, 0x0c5c, 0x0cdc, 0x0d5c, 0x0ddc, 0x0e5c, 0x0f72]"

text \<open>A table at an index; C reads outside of the table otherwise.\<close>

definition tab :: "'a list \<Rightarrow> int \<Rightarrow> 'a option" where
  "tab xs i = (if 0 \<le> i \<and> i < int (length xs) then Some (xs ! nat i) else None)"

lemma tab_Some: "0 \<le> i \<Longrightarrow> i < int (length xs) \<Longrightarrow> tab xs i = Some (xs ! nat i)"
  by (simp add: tab_def)

lemma tab_None_iff: "tab xs i = None \<longleftrightarrow> i < 0 \<or> int (length xs) \<le> i"
  by (auto simp: tab_def)

section \<open>The serial write\<close>

abbreviation BB_HOST_BANG_EN :: u16 where "BB_HOST_BANG_EN \<equiv> 4"
abbreviation BB_HOST_BANG_CLK :: u16 where "BB_HOST_BANG_CLK \<equiv> 2"
abbreviation BB_HOST_BANG_RW :: u16 where "BB_HOST_BANG_RW \<equiv> 8"

definition write_rtl8225 :: "u8 \<Rightarrow> u16 \<Rightarrow> ('z r8187_scheme, unit) state" where
  "write_rtl8225 adr data = do {
     priv \<leftarrow> State_Monad.get;
     wReg80 \<leftarrow> read_nic_word 0x80;
     let wReg80 = wReg80 AND 0xfff3;
     wReg82 \<leftarrow> read_nic_word 0x82;
     wReg84 \<leftarrow> read_nic_word 0x84;
     let wReg84 = wReg84 AND 0xfff0;
     write_nic_word 0x82 (wReg82 OR 0x0007);
     write_nic_word 0x84 (wReg84 OR 0x0007);
     write_nic_word 0x80 (BB_HOST_BANG_EN OR wReg80);
     write_nic_word 0x80 wReg80;
     nic_do (Rf_Write (ucast adr) data);
     write_nic_word 0x80 (BB_HOST_BANG_EN OR wReg80);
     write_nic_word 0x80 (wReg80 OR 0x0004);
     write_nic_word 0x84 (wReg84 OR 0x0000);
     if pr_card_type priv = USB then State_Monad.return () else rtl8185_rf_pins_enable
   }"

definition rtl8225_rf_close :: "('z r8187_scheme, unit) state" where
  "rtl8225_rf_close = do {
     write_rtl8225 0x4 0x1f;
     rtl8180_set_anaparam RTL8225_ANAPARAM_OFF;
     rtl8185_set_anaparam2 RTL8225_ANAPARAM2_OFF
   }"

section \<open>Gain and sensitivity\<close>

definition rtl8225_set_gain :: "int \<Rightarrow> 'z r8187_scheme \<Rightarrow> 'z r8187_scheme option" where
  "rtl8225_set_gain gain priv = do {
     g0 \<leftarrow> tab rtl8225_gain (gain * 4);
     g2 \<leftarrow> tab rtl8225_gain (gain * 4 + 2);
     g3 \<leftarrow> tab rtl8225_gain (gain * 4 + 3);
     g1 \<leftarrow> tab rtl8225_gain (gain * 4 + 1);
     Some (exec (do {
       write_phy_ofdm 0x0d (ucast g0);
       write_phy_ofdm 0x1b (ucast g2);
       write_phy_ofdm 0x1d (ucast g3);
       write_phy_ofdm 0x23 (ucast g1)
     }) priv)
   }"

definition rtl8225_rf_set_sens :: "int \<Rightarrow> 'z r8187_scheme \<Rightarrow> (int \<times> 'z r8187_scheme) option" where
  "rtl8225_rf_set_sens sens priv =
     (if sens < 0 \<or> sens > 6 then Some (- 1, priv)
      else do {
        let priv = exec (write_rtl8225 0x0c (if sens > 4 then 0x850 else 0x50)) priv;
        let sens = 6 - sens;
        priv \<leftarrow> rtl8225_set_gain sens priv;
        th \<leftarrow> tab rtl8225_threshold sens;
        Some (0, exec (write_phy_cck 0x41 (ucast th)) priv)
      })"

section \<open>Transmit power and channel\<close>

abbreviation TX_GAIN_CCK :: u16 where "TX_GAIN_CCK \<equiv> 0x9d"
abbreviation TX_GAIN_OFDM :: u16 where "TX_GAIN_OFDM \<equiv> 0x9e"

definition ofdm_level :: "u8 \<Rightarrow> u8 \<Rightarrow> u8 \<Rightarrow> u8" where
  "ofdm_level level hi lo =
     (let level = (if int (unat level) > int (unat hi) - int (unat lo) then hi else level + lo)
      in if level > 35 then 35 else level)"

definition rtl8225_SetTXPowerLevel :: "int \<Rightarrow> 'z r8187_scheme \<Rightarrow> 'z r8187_scheme option" where
  "rtl8225_SetTXPowerLevel ch priv = do {
     cck_power_level \<leftarrow> tab (pr_chtxpwr priv) ch;
     ofdm_power_level \<leftarrow> tab (pr_chtxpwr_ofdm priv) ch;
     let (max_cck, max_ofdm, min_ofdm) = (if pr_card_type priv = USB then (11, 25, 10) else (35, 35, 0));
     let cck_power_level = (if cck_power_level > max_cck then max_cck else cck_power_level);
     let GainIdx = uint (cck_power_level mod 6);
     let GainSetting = uint (cck_power_level div 6);
     let cck_power_table = (if ch = 14 then rtl8225_tx_power_cck_ch14 else rtl8225_tx_power_cck);
     gain \<leftarrow> tab rtl8225_tx_gain_cck_ofdm GainSetting;
     powers \<leftarrow> those (map (\<lambda>i. tab cck_power_table (GainIdx * 8 + int i)) [0..<8]);
     let priv = exec (do {
       write_nic_byte TX_GAIN_CCK (drop_bit 1 gain);
       each (\<lambda>(i, power). write_phy_cck (0x44 + i) (ucast power)) (zip [0, 1, 2, 3, 4, 5, 6, 7] powers)
     }) priv;
     let ofdm_power_level = ofdm_level ofdm_power_level max_ofdm min_ofdm;
     gain \<leftarrow> tab rtl8225_tx_gain_cck_ofdm (uint (ofdm_power_level div 6));
     power \<leftarrow> tab rtl8225_tx_power_ofdm (uint (ofdm_power_level mod 6));
     Some (exec (do {
       rtl8185_set_anaparam2 RTL8225_ANAPARAM2_ON;
       write_phy_ofdm 2 0x42;
       write_phy_ofdm 6 0;
       write_phy_ofdm 8 0;
       write_nic_byte TX_GAIN_OFDM (drop_bit 1 gain);
       write_phy_ofdm 0x5 (ucast power);
       write_phy_ofdm 0x7 (ucast power)
     }) priv)
   }"

definition rf_gset :: "station \<Rightarrow> bool" where
  "rf_gset sd \<longleftrightarrow> (sd_state sd = LINKED \<and> ieee80211_is_54g (sd_network sd)) \<or> sd_iw_mode sd = IW_MODE_MONITOR"

definition ieee80211_is_shortslot :: "ieee80211_network \<Rightarrow> bool" where
  "ieee80211_is_shortslot net \<longleftrightarrow> nw_capability net AND CAPABILITY_SHORT_SLOT \<noteq> 0"

text \<open>The spacing registers, alike for both radios.\<close>

definition rf_spacing :: "station \<Rightarrow> ('z, unit) nic_prog" where
  "rf_spacing sd = do {
     write_nic_byte 0xb4 0x22;
     (if rf_gset sd then write_nic_byte 0xb5 20 else write_nic_byte 0xb5 0x24);
     (if sd_state sd = LINKED \<and> ieee80211_is_shortslot (sd_network sd) then write_nic_byte 0xb6 0x9
      else write_nic_byte 0xb6 0x14);
     (if rf_gset sd then do { write_nic_byte 0x35 (91 - 20); write_nic_byte 0xbd 0x73 }
      else do { write_nic_byte 0x35 (91 - 0x24); write_nic_byte 0xbd 0xa5 })
   }"

definition rtl8225_rf_set_chan :: "station \<Rightarrow> int \<Rightarrow> 'z r8187_scheme \<Rightarrow> 'z r8187_scheme option" where
  "rtl8225_rf_set_chan sd ch priv = do {
     priv \<leftarrow> rtl8225_SetTXPowerLevel ch priv;
     c \<leftarrow> tab rtl8225_chan ch;
     Some (exec (do { write_rtl8225 0x7 (ucast c); rf_spacing sd }) priv)
   }"

section \<open>Start-up\<close>

abbreviation GP_ENABLE :: u16 where "GP_ENABLE \<equiv> 0x90"
abbreviation GPIO :: u16 where "GPIO \<equiv> 0x91"
abbreviation RF_TIMING :: u16 where "RF_TIMING \<equiv> 0x8c"
abbreviation RF_PARA :: u16 where "RF_PARA \<equiv> 0x88"

definition rtl8225_host_pci_init :: "('z, unit) nic_prog" where
  "rtl8225_host_pci_init = do {
     write_nic_word RFPinsOutput 0x480;
     rtl8185_rf_pins_enable;
     write_nic_word RFPinsSelect (0x88 OR 0x400);
     write_nic_byte GP_ENABLE 0;
     write_nic_word GP_ENABLE (0xff AND NOT (push_bit 6 1))
   }"

definition rtl8225_host_usb_init :: "('z, unit) nic_prog" where
  "rtl8225_host_usb_init = do {
     write_nic_byte (RFPinsSelect + 1) 0;
     write_nic_byte GPIO 0;
     v \<leftarrow> read_nic_byte_E 0x53;
     write_nic_byte_E 0x53 (v OR push_bit 7 1);
     write_nic_byte (RFPinsSelect + 1) 4;
     write_nic_byte GPIO 0x20;
     write_nic_byte GP_ENABLE 0;
     write_nic_word RFPinsOutput 0x80;
     write_nic_word RFPinsSelect 0x80;
     write_nic_word RFPinsEnable 0x80
   }"

definition rf_init_mac :: "card_type \<Rightarrow> ('z, unit) nic_prog" where
  "rf_init_mac ct = do {
     rtl8180_set_anaparam RTL8225_ANAPARAM_ON;
     (if ct = USB then rtl8225_host_usb_init else rtl8225_host_pci_init);
     write_nic_dword RF_TIMING 0x000a8008;
     brsr \<leftarrow> read_nic_word BRSR;
     write_nic_word BRSR 0xffff;
     write_nic_dword RF_PARA 0x100044;
     rtl8180_set_mode EPROM_CMD_CONFIG;
     write_nic_byte CONFIG3 0x44;
     rtl8180_set_mode EPROM_CMD_NORMAL
   }"

text \<open>A loop over a table reads its first \<open>n\<close> entries; one read outside is a fault.\<close>

definition read_table :: "'a list \<Rightarrow> nat \<Rightarrow> (nat \<times> 'a) list option" where
  "read_table xs n = map_option (zip [0..<n]) (those (map (\<lambda>i. tab xs (int i)) [0..<n]))"

definition rf_init_radio :: "card_type \<Rightarrow> ('z r8187_scheme, unit) state option" where
  "rf_init_radio ct = do {
   chan1 \<leftarrow> tab rtl8225_chan 1;
   rxgain \<leftarrow> read_table rtl8225bcd_rxgain 95;
   agc \<leftarrow> read_table rtl8225_agc 128;
   Some (do {
     (if ct = USB then rtl8185_rf_pins_enable else State_Monad.return ());
     each (\<lambda>(a, d). write_rtl8225 a d) [(0x0, 0x67), (0x1, 0xfe0), (0x2, 0x44d), (0x3, 0x441),
       (0x4, if ct = USB then 0x486 else 0x8be),
       (0x5, if ct = USB then 0xbc0 else if ct = MINIPCI then 0xbc0 + 3 + push_bit 3 6 else 0xbc0 + push_bit 3 6),
       (0x6, 0xae6), (0x7, if ct = USB then 0x82a else ucast chan1), (0x8, 0x1f), (0x9, 0x334), (0xa, 0xfd4),
       (0xb, 0x391), (0xc, 0x50), (0xd, 0x6db), (0xe, 0x29), (0xf, 0x914), (0x2, 0xc4d)];
     (if ct = USB then write_rtl8225 0x2 0x44d else State_Monad.return ());
     write_rtl8225 0x0 0x127;
     each (\<lambda>(i, g). do { write_rtl8225 0x1 (word_of_nat (i + 1)); write_rtl8225 0x2 g }) rxgain;
     write_rtl8225 0x0 0x27;
     write_rtl8225 0x0 0x22f;
     (if ct = USB then State_Monad.return () else rtl8185_rf_pins_enable);
     each (\<lambda>(i, a). do { write_phy_ofdm 0xb (ucast a); write_phy_ofdm 0xa (word_of_nat i + 0x80) }) agc;
     each (\<lambda>(a, d). write_phy_ofdm a d) [
       (0x0, 0x1), (0x1, 0x2), (0x2, if ct = USB then 0x42 else 0x62), (0x3, 0x0), (0x4, 0x0), (0x5, 0x0),
       (0x6, 0x40), (0x7, 0x0), (0x8, 0x40), (0x9, 0xfe), (0xa, 0x9), (0xb, 0x80), (0xc, 0x1), (0xe, 0xd3),
       (0xf, 0x38), (0x10, 0x84), (0x11, 0x06), (0x12, 0x20), (0x13, 0x20), (0x14, 0x0), (0x15, 0x40), (0x16, 0x0),
       (0x17, 0x40), (0x18, 0xef), (0x19, 0x19), (0x1a, 0x20), (0x1b, 0x76), (0x1c, 0x4), (0x1e, 0x95),
       (0x1f, 0x75), (0x20, 0x1f), (0x21, 0x27), (0x22, 0x16), (0x24, 0x46), (0x25, 0x20), (0x26, 0x90),
       (0x27, 0x88)]
   })}"

definition rf_init_cck :: "card_type \<Rightarrow> ('z, unit) nic_prog" where
  "rf_init_cck ct = do {
     each (\<lambda>(a, d). write_phy_cck a d) [
       (0x0, 0x98), (0x3, 0x20), (0x4, 0x7e), (0x5, 0x12), (0x6, 0xfc), (0x7, 0x78), (0x8, 0x2e),
       (0x10, if ct = USB then 0x9b else 0x93), (0x11, 0x88), (0x12, 0x47), (0x13, 0xd0), (0x19, 0x0),
       (0x1a, 0xa0), (0x1b, 0x8), (0x40, 0x86), (0x41, 0x8d), (0x42, 0x15), (0x43, 0x18), (0x44, 0x1f),
       (0x45, 0x1e), (0x46, 0x1a), (0x47, 0x15), (0x48, 0x10), (0x49, 0xa), (0x4a, 0x5), (0x4b, 0x2), (0x4c, 0x5)];
     write_nic_byte 0x5b 0x0d
   }"

text \<open>The end of the start-up, after the transmit power of channel one.\<close>

definition rf_init_end :: "card_type \<Rightarrow> ('z, unit) nic_prog" where
  "rf_init_end ct = do {
     write_phy_cck 0x10 0x9b;
     write_phy_ofdm 0x26 0x90;
     rtl8185_tx_antenna 0x3;
     (if ct = USB then write_nic_dword 0x94 0x3dc00002
      else do { write_nic_dword 0x94 0x15c00002; rtl8185_rf_pins_enable })
   }"

definition rtl8225_rf_init :: "station \<Rightarrow> 'z r8187_scheme \<Rightarrow> 'z r8187_scheme option" where
  "rtl8225_rf_init sd priv = do {
     let channel = 1;
     let priv = priv\<lparr>pr_chan := channel\<rparr>;
     let ct = pr_card_type priv;
     radio \<leftarrow> rf_init_radio ct;
     let priv = exec (do { rf_init_mac ct; radio }) priv;
     priv \<leftarrow> rtl8225_set_gain 4 priv;
     let priv = exec (rf_init_cck ct) priv;
     priv \<leftarrow> rtl8225_SetTXPowerLevel channel priv;
     let priv = exec (rf_init_end ct) priv;
     rtl8225_rf_set_chan sd (pr_chan priv) priv
   }"

section \<open>Every index is inside its table\<close>

lemma table_lengths:
  "length rtl8225_threshold = 7" "length rtl8225_gain = 28" "length rtl8225bcd_rxgain = 95"
  "length rtl8225_tx_gain_cck_ofdm = 6" "length rtl8225_tx_power_ofdm = 6" "length rtl8225_tx_power_cck_ch14 = 48"
  "length rtl8225_tx_power_cck = 48" "length rtl8225_agc = 128" "length rtl8225_chan = 15"
  by (simp_all add: rtl8225_threshold_def rtl8225_gain_def rtl8225bcd_rxgain_def rtl8225_tx_gain_cck_ofdm_def
      rtl8225_tx_power_ofdm_def rtl8225_tx_power_cck_ch14_def rtl8225_tx_power_cck_def rtl8225_agc_def rtl8225_chan_def)

lemma level_index:
  assumes "(x :: u8) \<le> 35"
  shows "uint (x div 6) < 6" "uint (x mod 6) < 6"
proof -
  have "uint x \<le> 35" using assms by (simp add: word_le_def)
  then show "uint (x div 6) < 6" "uint (x mod 6) < 6" by (simp_all add: uint_div uint_mod)
qed

lemma tab_in: "int (length xs) = k \<Longrightarrow> 0 \<le> i \<Longrightarrow> i < k \<Longrightarrow> \<exists>y. tab xs i = Some y"
  by (simp add: tab_def)

lemma those_tab:
  assumes "\<And>i. i \<in> set is \<Longrightarrow> \<exists>y. f i = Some y"
  shows "\<exists>ys. those (map f is) = Some ys"
  using assms by (induction "is") (force simp: option.map_sel split: option.split)+

lemma ofdm_level_le: "ofdm_level level hi lo \<le> 35"
  by (simp add: ofdm_level_def Let_def not_less)

text \<open>The state a program on the device leaves: only the log is longer.\<close>

definition log_ext :: "'z nic_scheme \<Rightarrow> 'z nic_scheme \<Rightarrow> bool" where
  "log_ext n n' \<longleftrightarrow> (\<exists>xs. n' = n\<lparr>nic_log := xs @ nic_log n\<rparr>)"

lemma log_ext_trans: "log_ext n n' \<Longrightarrow> log_ext n' n'' \<Longrightarrow> log_ext n n''"
  unfolding log_ext_def by (auto intro: exI [of _ "ys @ xs" for ys xs])

lemma log_ext_keeps: "nic_keeps m \<Longrightarrow> log_ext n (exec m n)"
  unfolding log_ext_def nic_keeps_def by blast

lemma log_ext_same:
  assumes "log_ext (n :: 'z r8187_scheme) n'"
  shows "pr_card_type n' = pr_card_type n" "pr_chtxpwr n' = pr_chtxpwr n" "pr_chtxpwr_ofdm n' = pr_chtxpwr_ofdm n"
    "pr_chan n' = pr_chan n" "pr_rf_calls n' = pr_rf_calls n" "pr_rf_chip n' = pr_rf_chip n" "pr_InitialGain n' = pr_InitialGain n"
    "pr_StageCCKTh n' = pr_StageCCKTh n" "pr_cck_txpwr_base n' = pr_cck_txpwr_base n" "pr_ofdm_txpwr_base n' = pr_ofdm_txpwr_base n"
    "nic_answer n' = nic_answer n"
  using assms unfolding log_ext_def by auto

lemma keeps_rf [keeps]:
  "nic_keeps (write_rtl8225 adr d)" "nic_keeps (rf_spacing sd)" "nic_keeps rtl8225_rf_close" "nic_keeps rtl8225_host_pci_init"
  "nic_keeps rtl8225_host_usb_init" "nic_keeps (rf_init_mac ct)" "nic_keeps (rf_init_cck ct)" "nic_keeps (rf_init_end ct)"
  unfolding write_rtl8225_def rf_spacing_def rtl8225_rf_close_def rtl8225_host_pci_init_def rtl8225_host_usb_init_def
    rf_init_mac_def rf_init_cck_def rf_init_end_def Let_def split_beta
  by (intro keeps)+

lemma read_table_total: "n \<le> length xs \<Longrightarrow> \<exists>ys. read_table xs n = Some ys"
  using those_tab [of "[0..<n]" "\<lambda>i. tab xs (int i)"] tab_in [of xs "int (length xs)"] by (auto simp: read_table_def)

lemma rf_init_radio_total: "\<exists>m. rf_init_radio ct = Some m \<and> nic_keeps m"
proof -
  obtain c where c: "tab rtl8225_chan 1 = Some c" using tab_in [of rtl8225_chan 15 1] table_lengths(9) by auto
  obtain g where g: "read_table rtl8225bcd_rxgain 95 = Some g" using read_table_total [of 95 rtl8225bcd_rxgain] table_lengths(3) by auto
  obtain a where a: "read_table rtl8225_agc 128 = Some a" using read_table_total [of 128 rtl8225_agc] table_lengths(8) by auto
  show ?thesis
    unfolding rf_init_radio_def c g a Option.bind.bind_lunit split_beta by (intro exI conjI, rule refl) (intro keeps)+
qed

definition power_tables :: "'z r8187_scheme \<Rightarrow> bool" where
  "power_tables priv \<longleftrightarrow> length (pr_chtxpwr priv) = 15 \<and> length (pr_chtxpwr_ofdm priv) = 15"

lemma SetTXPowerLevel_total:
  assumes "power_tables priv" "0 \<le> ch" "ch \<le> 14"
  shows "\<exists>priv'. rtl8225_SetTXPowerLevel ch priv = Some priv' \<and> log_ext priv priv'"
proof -
  obtain cck ofdm where p: "tab (pr_chtxpwr priv) ch = Some cck" "tab (pr_chtxpwr_ofdm priv) ch = Some ofdm"
    using assms by (simp add: power_tables_def tab_def)
  obtain mc mo lo where m: "(if pr_card_type priv = USB then (11, 25, 10) else (35, 35, 0)) = (mc, mo :: u8, lo :: u8)" "mc \<le> (35 :: u8)"
    by (cases "pr_card_type priv = USB") auto
  define c where "c = (if cck > mc then mc else cck)"
  have "c \<le> 35" using m(2) by (auto simp: c_def not_less intro: order_trans)
  note c = level_index [OF this]
  have tl: "length (if ch = 14 then rtl8225_tx_power_cck_ch14 else rtl8225_tx_power_cck) = 48" by (simp add: table_lengths)
  obtain g1 where g1: "tab rtl8225_tx_gain_cck_ofdm (uint (c div 6)) = Some g1"
    using tab_in [OF _ _ c(1), of rtl8225_tx_gain_cck_ofdm] table_lengths(4) by auto
  obtain ps where ps: "those (map (\<lambda>i. tab (if ch = 14 then rtl8225_tx_power_cck_ch14 else rtl8225_tx_power_cck)
      (uint (c mod 6) * 8 + int i)) [0..<8]) = Some ps"
    using those_tab [of "[0..<8]" "\<lambda>i. tab (if ch = 14 then rtl8225_tx_power_cck_ch14 else rtl8225_tx_power_cck)
      (uint (c mod 6) * 8 + int i)"] tab_in [of _ 48] c(2) tl by force
  note o = level_index [OF ofdm_level_le [of ofdm mo lo]]
  obtain g2 q where g2: "tab rtl8225_tx_gain_cck_ofdm (uint (ofdm_level ofdm mo lo div 6)) = Some g2"
      "tab rtl8225_tx_power_ofdm (uint (ofdm_level ofdm mo lo mod 6)) = Some q"
    using tab_in [OF _ _ o(1)] tab_in [OF _ _ o(2)] by (metis table_lengths(4,5) of_nat_numeral uint_ge_0)
  show ?thesis
    unfolding rtl8225_SetTXPowerLevel_def Let_def p m Option.bind.bind_lunit prod.case c_def [symmetric] g1 ps g2
    by (rule exI, rule conjI, rule refl, rule log_ext_trans [OF log_ext_keeps log_ext_keeps]; intro keeps)
qed

lemma SetTXPowerLevel_outside:
  assumes "power_tables priv" "ch < 0 \<or> ch > 14"
  shows "rtl8225_SetTXPowerLevel ch priv = None"
proof -
  have "tab (pr_chtxpwr priv) ch = None" using assms by (auto simp: power_tables_def tab_def)
  then show ?thesis by (simp add: rtl8225_SetTXPowerLevel_def)
qed

lemma set_gain_total: "0 \<le> gain \<Longrightarrow> gain \<le> 6 \<Longrightarrow> \<exists>priv'. rtl8225_set_gain gain priv = Some priv' \<and> log_ext priv priv'"
  by (auto simp: rtl8225_set_gain_def tab_def table_lengths intro!: log_ext_keeps keeps)

lemma rf_set_sens_total: "\<exists>r priv'. rtl8225_rf_set_sens sens priv = Some (r, priv') \<and> log_ext priv priv'"
proof (cases "sens < 0 \<or> sens > 6")
  case True
  then show ?thesis by (auto simp: rtl8225_rf_set_sens_def log_ext_def intro: exI [of _ "[]"])
next
  case False
  let ?p = "exec (write_rtl8225 0x0c (if sens > 4 then 0x850 else 0x50)) priv"
  have 1: "log_ext priv ?p" by (intro log_ext_keeps keeps)
  obtain q where q: "rtl8225_set_gain (6 - sens) ?p = Some q" "log_ext ?p q"
    using set_gain_total [of "6 - sens" ?p] False by auto
  obtain th where th: "tab rtl8225_threshold (6 - sens) = Some th" using tab_in [of rtl8225_threshold 7 "6 - sens"] table_lengths(1) False by auto
  have 2: "log_ext q (exec (write_phy_cck 0x41 (ucast th)) q)" by (intro log_ext_keeps keeps)
  show ?thesis
    using False th log_ext_trans [OF log_ext_trans [OF 1 q(2)] 2]
    unfolding rtl8225_rf_set_sens_def Let_def q(1) Option.bind.bind_lunit by auto
qed

lemma set_chan_total:
  assumes "power_tables priv" "0 \<le> ch" "ch \<le> 14"
  shows "\<exists>priv'. rtl8225_rf_set_chan sd ch priv = Some priv' \<and> log_ext priv priv'"
proof -
  obtain p where p: "rtl8225_SetTXPowerLevel ch priv = Some p" "log_ext priv p" using SetTXPowerLevel_total [OF assms] by blast
  obtain c where c: "tab rtl8225_chan ch = Some c" using tab_in [of rtl8225_chan 15 ch] table_lengths(9) assms by auto
  have "log_ext p (exec (do { write_rtl8225 0x7 (ucast c); rf_spacing sd }) p)" by (intro log_ext_keeps keeps)
  from log_ext_trans [OF p(2) this] show ?thesis
    unfolding rtl8225_rf_set_chan_def p(1) c Option.bind.bind_lunit by blast
qed

lemma set_chan_outside:
  assumes "power_tables priv" "ch < 0 \<or> ch > 14"
  shows "rtl8225_rf_set_chan sd ch priv = None"
  using SetTXPowerLevel_outside [OF assms] by (simp add: rtl8225_rf_set_chan_def)

lemma power_tables_ext: "log_ext priv priv' \<Longrightarrow> power_tables priv' \<longleftrightarrow> power_tables priv"
  by (simp add: power_tables_def log_ext_same)

text \<open>The start-up succeeds and leaves the device on channel one.\<close>

lemma rf_init_total:
  assumes "power_tables priv"
  shows "\<exists>priv'. rtl8225_rf_init sd priv = Some priv' \<and> log_ext (priv\<lparr>pr_chan := 1\<rparr>) priv'"
proof -
  let ?p0 = "priv\<lparr>pr_chan := 1\<rparr>"
  let ?ct = "pr_card_type ?p0"
  obtain radio :: "('a r8187_scheme, unit) state" where r: "rf_init_radio ?ct = Some radio" "nic_keeps radio" using rf_init_radio_total by blast
  let ?p1 = "exec (do { rf_init_mac ?ct; radio }) ?p0"
  have 1: "log_ext ?p0 ?p1" by (intro log_ext_keeps keeps r(2))
  obtain p2 where 2: "rtl8225_set_gain 4 ?p1 = Some p2" "log_ext ?p1 p2" using set_gain_total [of 4 ?p1] by auto
  let ?p3 = "exec (rf_init_cck ?ct) p2"
  have 3: "log_ext ?p0 ?p3" by (intro log_ext_trans [OF log_ext_trans [OF 1 2(2)]] log_ext_keeps keeps)
  have "power_tables ?p3" using assms power_tables_ext [OF 3] by (simp add: power_tables_def)
  from SetTXPowerLevel_total [OF this, of 1] obtain p4 where 4: "rtl8225_SetTXPowerLevel 1 ?p3 = Some p4" "log_ext ?p3 p4" by auto
  let ?p5 = "exec (rf_init_end ?ct) p4"
  have 5: "log_ext ?p0 ?p5" by (intro log_ext_trans [OF log_ext_trans [OF 3 4(2)]] log_ext_keeps keeps)
  have "power_tables ?p5" using assms power_tables_ext [OF 5] by (simp add: power_tables_def)
  from set_chan_total [OF this, of 1] obtain p6 where 6: "rtl8225_rf_set_chan sd 1 ?p5 = Some p6" "log_ext ?p5 p6" by auto
  have chan: "pr_chan ?p5 = 1" using log_ext_same(4) [OF 5] by simp
  show ?thesis
    unfolding rtl8225_rf_init_def Let_def r(1) 2(1) 4(1) Option.bind.bind_lunit chan using 6(1) log_ext_trans [OF 5 6(2)] by blast
qed
end
