(* ===== verification/Rf8225z2.thy ===== *)
theory Rf8225z2
  imports Rf8225
begin

text \<open>
  The second radio, \<open>rtl8187/r8180_rtl8225z2.c\<close>: tables, the serial read that also tells the two radios apart,
  gain, transmit power, channel and start-up; and the two settings of the baseband that the dynamic mechanisms use.
\<close>

section \<open>Tables\<close>

definition rtl8225z2_gain_bg :: "u8 list" where
  "rtl8225z2_gain_bg = [
    0x23, 0x15, 0xa5, 0x23, 0x15, 0xb5, 0x23, 0x15, 0xc5, 0x33, 0x15, 0xc5, 0x43, 0x15, 0xc5, 0x53, 0x15, 0xc5, 0x63,
    0x15, 0xc5]"

definition rtl8225z2_gain_a :: "u8 list" where
  "rtl8225z2_gain_a = [
    0x13, 0x27, 0x5a, 0x23, 0x23, 0x58, 0x33, 0x1f, 0x56, 0x43, 0x1b, 0x54, 0x53, 0x17, 0x51, 0x63, 0x24, 0x4f, 0x73,
    0x0f, 0x4c]"

definition rtl8225z2_rxgain :: "u16 list" where
  "rtl8225z2_rxgain = [
    0x0000, 0x0001, 0x0002, 0x0003, 0x0004, 0x0005, 0x0008, 0x0009, 0x000a, 0x000b, 0x0102, 0x0103, 0x0104, 0x0105,
    0x0140, 0x0141, 0x0142, 0x0143, 0x0144, 0x0145, 0x0180, 0x0181, 0x0182, 0x0183, 0x0184, 0x0185, 0x0188, 0x0189,
    0x018a, 0x018b, 0x0243, 0x0244, 0x0245, 0x0280, 0x0281, 0x0282, 0x0283, 0x0284, 0x0285, 0x0288, 0x0289, 0x028a,
    0x028b, 0x028c, 0x0342, 0x0343, 0x0344, 0x0345, 0x0380, 0x0381, 0x0382, 0x0383, 0x0384, 0x0385, 0x0388, 0x0389,
    0x038a, 0x038b, 0x038c, 0x038d, 0x0390, 0x0391, 0x0392, 0x0393, 0x0394, 0x0395, 0x0398, 0x0399, 0x039a, 0x039b,
    0x039c, 0x039d, 0x03a0, 0x03a1, 0x03a2, 0x03a3, 0x03a4, 0x03a5, 0x03a8, 0x03a9, 0x03aa, 0x03ab, 0x03ac, 0x03ad,
    0x03b0, 0x03b1, 0x03b2, 0x03b3, 0x03b4, 0x03b5, 0x03b8, 0x03b9, 0x03ba, 0x03bb, 0x03bb]"

definition ZEBRA2_CCK_OFDM_GAIN_SETTING :: "u8 list" where
  "ZEBRA2_CCK_OFDM_GAIN_SETTING = [
    0x00, 0x01, 0x02, 0x03, 0x04, 0x05, 0x06, 0x07, 0x08, 0x09, 0x0a, 0x0b, 0x0c, 0x0d, 0x0e, 0x0f, 0x10, 0x11, 0x12,
    0x13, 0x14, 0x15, 0x16, 0x17, 0x18, 0x19, 0x1a, 0x1b, 0x1c, 0x1d, 0x1e, 0x1f, 0x20, 0x21, 0x22, 0x23]"

definition rtl8225z2_tx_power_ofdm :: "u8 list" where
  "rtl8225z2_tx_power_ofdm = [
    0x42, 0x00, 0x40, 0x00, 0x40]"

definition rtl8225z2_tx_power_cck_ch14 :: "u8 list" where
  "rtl8225z2_tx_power_cck_ch14 = [
    0x36, 0x35, 0x2e, 0x1b, 0x00, 0x00, 0x00, 0x00]"

definition rtl8225z2_tx_power_cck :: "u8 list" where
  "rtl8225z2_tx_power_cck = [
    0x36, 0x35, 0x2e, 0x25, 0x1c, 0x12, 0x09, 0x04]"

section \<open>The serial read\<close>

text \<open>
  Five bits of address on the data line, the most significant one first, the line turned round within the
  fifth, and twelve bits back.  The first loop has the number of rounds left, in each of which two bits go out,
  except for the last.
\<close>

definition pins :: "u16 \<Rightarrow> ('z, unit) nic_prog" where
  "pins v = write_nic_word RFPinsOutput v"

definition mask_bit :: "u32 \<Rightarrow> u32 \<Rightarrow> u16" where
  "mask_bit data msk = (if data AND msk \<noteq> 0 then 1 else 0)"

primrec read_rtl8225_addr :: "u16 \<Rightarrow> u32 \<Rightarrow> u32 \<Rightarrow> nat \<Rightarrow> ('z, unit) nic_prog" where
  "read_rtl8225_addr oval data2Write msk 0 = State_Monad.return ()"
| "read_rtl8225_addr oval data2Write msk (Suc k) =
     (let b = mask_bit data2Write msk
      in do {
        pins (b OR oval);
        pins (b OR oval OR BB_HOST_BANG_CLK);
        pins (b OR oval OR BB_HOST_BANG_CLK);
        let msk = drop_bit 1 msk;
        if k = 0 then do {
          pins (b OR oval OR BB_HOST_BANG_CLK OR BB_HOST_BANG_RW);
          pins (b OR oval OR BB_HOST_BANG_RW)
        } else do {
          let b = mask_bit data2Write msk;
          pins (oval OR b OR BB_HOST_BANG_CLK);
          pins (oval OR b OR BB_HOST_BANG_CLK);
          pins (oval OR b);
          read_rtl8225_addr oval data2Write (drop_bit 1 msk) k
        }
      })"

primrec read_rtl8225_data :: "u16 \<Rightarrow> u32 \<Rightarrow> u32 \<Rightarrow> nat \<Rightarrow> ('z, u32) nic_prog" where
  "read_rtl8225_data oval msk dataRead 0 = State_Monad.return dataRead"
| "read_rtl8225_data oval msk dataRead (Suc k) = do {
     pins (BB_HOST_BANG_RW OR oval);
     pins (BB_HOST_BANG_RW OR oval OR BB_HOST_BANG_CLK);
     pins (BB_HOST_BANG_RW OR oval OR BB_HOST_BANG_CLK);
     pins (BB_HOST_BANG_RW OR oval OR BB_HOST_BANG_CLK);
     tmp \<leftarrow> read_nic_word RFPinsInput;
     let dataRead = dataRead OR (if tmp AND BB_HOST_BANG_CLK \<noteq> 0 then msk else 0);
     pins (BB_HOST_BANG_RW OR oval);
     read_rtl8225_data oval (drop_bit 1 msk) dataRead k
   }"

definition read_rtl8225 :: "u8 \<Rightarrow> ('z, u32) nic_prog" where
  "read_rtl8225 adr = do {
     let data2Write = push_bit 27 (ucast (adr AND 0x1f));
     oval \<leftarrow> read_nic_word RFPinsOutput;
     oval2 \<leftarrow> read_nic_word RFPinsEnable;
     oval3 \<leftarrow> read_nic_word RFPinsSelect;
     write_nic_word RFPinsEnable (oval2 OR 0xf);
     write_nic_word RFPinsSelect (oval3 OR 0xf);
     let oval = oval AND NOT 0xf;
     pins (oval OR BB_HOST_BANG_EN);
     pins oval;
     read_rtl8225_addr oval data2Write (push_bit 31 1) 3;
     pins (BB_HOST_BANG_RW OR oval);
     dataRead \<leftarrow> read_rtl8225_data oval (push_bit 11 1) 0 12;
     pins (BB_HOST_BANG_EN OR BB_HOST_BANG_RW OR oval);
     write_nic_word RFPinsEnable oval2;
     write_nic_word RFPinsSelect oval3;
     pins 0x3a0;
     State_Monad.return dataRead
   }"

definition rtl8225_is_V_z2 :: "('z r8187_scheme, bool) state" where
  "rtl8225_is_V_z2 = do {
     write_nic_word RFPinsOutput 0x0080;
     write_nic_word RFPinsSelect 0x0080;
     write_nic_word RFPinsEnable 0x0080;
     write_rtl8225 0 0x1b7;
     r8 \<leftarrow> read_rtl8225 8;
     vz2 \<leftarrow> (if r8 \<noteq> 0x588 then State_Monad.return False
       else do { r9 \<leftarrow> read_rtl8225 9; State_Monad.return (r9 = 0x700) });
     write_rtl8225 0 0xb7;
     State_Monad.return vz2
   }"

section \<open>Gain, power and channel\<close>

text \<open>The mode is the wireless mode of \<open>struct ieee80211_device\<close>: bit one for 802.11b, bit two for 802.11g.\<close>

definition rtl8225z2_set_gain :: "u8 \<Rightarrow> int \<Rightarrow> 'z r8187_scheme \<Rightarrow> 'z r8187_scheme option" where
  "rtl8225z2_set_gain mode gain priv = do {
     let gains = (if mode AND 2 = 2 \<or> mode AND 4 = 4 then rtl8225z2_gain_bg else rtl8225z2_gain_a);
     g0 \<leftarrow> tab gains (gain * 3);
     g1 \<leftarrow> tab gains (gain * 3 + 1);
     g2 \<leftarrow> tab gains (gain * 3 + 2);
     Some (exec (do {
       write_phy_ofdm 0x0d (ucast g0);
       write_phy_ofdm 0x1b (ucast g1);
       write_phy_ofdm 0x1d (ucast g2);
       write_phy_ofdm 0x21 0x17
     }) priv)
   }"

definition rtl8225z2_SetTXPowerLevel :: "int \<Rightarrow> 'z r8187_scheme \<Rightarrow> 'z r8187_scheme option" where
  "rtl8225z2_SetTXPowerLevel ch priv = do {
     cck_power_level \<leftarrow> tab (pr_chtxpwr priv) ch;
     ofdm_power_level \<leftarrow> tab (pr_chtxpwr_ofdm priv) ch;
     let cck_power_level = (if cck_power_level > 15 then 15 else cck_power_level);
     let cck_power_level = cck_power_level + pr_cck_txpwr_base priv;
     let cck_power_level = (if cck_power_level > 35 then 35 else cck_power_level);
     let cck_power_table = (if ch = 14 then rtl8225z2_tx_power_cck_ch14 else rtl8225z2_tx_power_cck);
     powers \<leftarrow> those (map (\<lambda>i. tab cck_power_table (int i)) [0..<8]);
     gain \<leftarrow> tab ZEBRA2_CCK_OFDM_GAIN_SETTING (uint cck_power_level);
     let priv = exec (do {
       each (\<lambda>(i, power). write_phy_cck (0x44 + i) (ucast power)) (zip [0, 1, 2, 3, 4, 5, 6, 7] powers);
       write_nic_byte TX_GAIN_CCK gain
     }) priv;
     let ofdm_power_level = (if int (unat ofdm_power_level) > 25 - 10 then 25 else ofdm_power_level + 10);
     let ofdm_power_level = ofdm_power_level + pr_ofdm_txpwr_base priv;
     let ofdm_power_level = (if ofdm_power_level > 35 then 35 else ofdm_power_level);
     gain \<leftarrow> tab ZEBRA2_CCK_OFDM_GAIN_SETTING (uint ofdm_power_level);
     Some (exec (do {
       rtl8185_set_anaparam2 RTL8225_ANAPARAM2_ON;
       write_phy_ofdm 2 0x42;
       write_phy_ofdm 5 0;
       write_phy_ofdm 6 0x40;
       write_phy_ofdm 7 0;
       write_phy_ofdm 8 0x40;
       write_nic_byte TX_GAIN_OFDM gain
     }) priv)
   }"

definition rtl8225z2_rf_set_chan :: "station \<Rightarrow> int \<Rightarrow> 'z r8187_scheme \<Rightarrow> 'z r8187_scheme option" where
  "rtl8225z2_rf_set_chan sd ch priv = do {
     priv \<leftarrow> rtl8225z2_SetTXPowerLevel ch priv;
     c \<leftarrow> tab rtl8225_chan ch;
     Some (exec (do { write_rtl8225 0x7 (ucast c); rf_spacing sd }) priv)
   }"

section \<open>Settings of the baseband\<close>

definition UpdateCCKThreshold :: "('z r8187_scheme, unit) state" where
  "UpdateCCKThreshold = do {
     priv \<leftarrow> State_Monad.get;
     if pr_StageCCKTh priv = 0 then write_phy_cck 0xc1 0x88
     else if pr_StageCCKTh priv = 1 then write_phy_cck 0xc1 0x98
     else if pr_StageCCKTh priv = 2 then write_phy_cck 0xc1 0xC8
     else if pr_StageCCKTh priv = 3 then write_phy_cck 0xc1 0xD8
     else State_Monad.return ()
   }"

definition initial_gain_regs :: "u8 \<Rightarrow> u32 \<times> u32 \<times> u32" where
  "initial_gain_regs gain =
     (if gain = 1 then (0x26, 0x86, 0xfa) else if gain = 2 then (0x36, 0x86, 0xfa)
      else if gain = 3 then (0x36, 0x86, 0xfb) else if gain = 4 then (0x46, 0x86, 0xfb)
      else if gain = 5 then (0x46, 0x96, 0xfb) else if gain = 6 then (0x56, 0x96, 0xfc)
      else if gain = 7 then (0x56, 0xa6, 0xfc) else if gain = 8 then (0x66, 0xb6, 0xfc)
      else (0x26, 0x86, 0xfa))"

abbreviation RF_ZEBRA :: nat where "RF_ZEBRA \<equiv> 5"
abbreviation RF_ZEBRA2 :: nat where "RF_ZEBRA2 \<equiv> 6"

definition UpdateInitialGain :: "('z r8187_scheme, unit) state" where
  "UpdateInitialGain = do {
     priv \<leftarrow> State_Monad.get;
     if pr_rf_chip priv = RF_ZEBRA \<or> pr_rf_chip priv = RF_ZEBRA2
     then (let (a, b, c) = initial_gain_regs (pr_InitialGain priv)
           in do { write_phy_ofdm 0x97 a; write_phy_ofdm 0xa4 b; write_phy_ofdm 0x85 c })
     else State_Monad.return ()
   }"

section \<open>Start-up\<close>

definition rf_z2_calibrate :: "('z r8187_scheme, unit) state" where
  "rf_z2_calibrate = do {
     data \<leftarrow> read_rtl8225 6;
     if data AND 0x00000080 = 0 then do {
       write_rtl8225 0x02 0x0c4d;
       write_rtl8225 0x02 0x044d;
       data \<leftarrow> read_rtl8225 6;
       State_Monad.return ()
     } else State_Monad.return ()
   }"

definition rf_z2_init_radio :: "card_type \<Rightarrow> ('z r8187_scheme, unit) state option" where
  "rf_z2_init_radio ct = do {
   chan1 \<leftarrow> tab rtl8225_chan 1;
   rxgain \<leftarrow> read_table rtl8225z2_rxgain 95;
   agc \<leftarrow> read_table rtl8225_agc 128;
   Some (do {
     rtl8185_rf_pins_enable;
     each (\<lambda>(a, d). write_rtl8225 a d) [(0x0, 0x2bf), (0x1, 0xee0), (0x2, 0x44d), (0x3, 0x441), (0x4, 0x8c3), (0x5, 0xc72),
       (0x6, 0xe6), (0x7, if ct = USB then 0x82a else ucast chan1), (0x8, 0x3f), (0x9, 0x335), (0xa, 0x9d4),
       (0xb, 0x7bb), (0xc, 0x850), (0xd, 0xcdf), (0xe, 0x2b), (0xf, 0x114), (0x0, 0x1b7)];
     each (\<lambda>(i, g). do { write_rtl8225 0x1 (word_of_nat (i + 1)); write_rtl8225 0x2 g }) rxgain;
     each (\<lambda>(a, d). write_rtl8225 a d) [(0x3, 0x2), (0x5, 0x4), (0x0, 0xb7), (0x2, 0xc4d)];
     (if ct = USB then write_rtl8225 0x2 0x44d else State_Monad.return ());
     rf_z2_calibrate;
     write_rtl8225 0x0 0x2bf;
     (if ct = USB then State_Monad.return () else rtl8185_rf_pins_enable);
     each (\<lambda>(i, a). do { write_phy_ofdm 0xb (ucast a); write_phy_ofdm 0xa (word_of_nat (i + 0x80)) }) agc;
     each (\<lambda>(a, d). write_phy_ofdm a d) [
       (0x0, 0x1), (0x1, 0x2), (0x2, if ct = USB then 0x42 else 0x62), (0x3, 0x0), (0x4, 0x0), (0x5, 0x0),
       (0x6, 0x40), (0x7, 0x0), (0x8, 0x40), (0x9, 0xfe), (0xa, 0x8), (0xb, 0x80), (0xc, 0x1), (0xd, 0x43),
       (0xe, 0xd3), (0xf, 0x38), (0x10, 0x84), (0x11, 0x07), (0x12, 0x20), (0x13, 0x20), (0x14, 0x0), (0x15, 0x40),
       (0x16, 0x0), (0x17, 0x40), (0x18, 0xef), (0x19, 0x19), (0x1a, 0x20), (0x1b, 0x15), (0x1c, 0x4),
       (0x1d, 0xc5), (0x1e, 0x95), (0x1f, 0x75), (0x20, 0x1f), (0x21, 0x17), (0x22, 0x16), (0x23, 0x80),
       (0x24, 0x46), (0x25, 0x00), (0x26, 0x90), (0x27, 0x88)]
   })}"

definition rf_z2_init_cck :: "card_type \<Rightarrow> ('z, unit) nic_prog" where
  "rf_z2_init_cck ct = do {
     each (\<lambda>(a, d). write_phy_cck a d) [
       (0x0, 0x98), (0x3, 0x20), (0x4, 0x7e), (0x5, 0x12), (0x6, 0xfc), (0x7, 0x78), (0x8, 0x2e), (0x9, 0x11),
       (0xa, 0x17), (0xb, 0x11), (0x10, if ct = USB then 0x9b else 0x93), (0x11, 0x88), (0x12, 0x47),
       (0x13, 0xd0), (0x19, 0x0), (0x1a, 0xa0), (0x1b, 0x8), (0x1d, 0x0), (0x40, 0x86), (0x41, 0x9d), (0x42, 0x15),
       (0x43, 0x18), (0x44, 0x36), (0x45, 0x35), (0x46, 0x2e), (0x47, 0x25), (0x48, 0x1c), (0x49, 0x12),
       (0x4a, 0x09), (0x4b, 0x04), (0x4c, 0x5)];
     write_nic_byte 0x5b 0x0d
   }"

text \<open>The last step sets the channel with the operation of the first radio.\<close>

definition rtl8225z2_rf_init :: "u8 \<Rightarrow> station \<Rightarrow> 'z r8187_scheme \<Rightarrow> 'z r8187_scheme option" where
  "rtl8225z2_rf_init mode sd priv = do {
     let channel = 1;
     let priv = priv\<lparr>pr_chan := channel\<rparr>;
     let ct = pr_card_type priv;
     radio \<leftarrow> rf_z2_init_radio ct;
     let priv = exec (do { rf_init_mac ct; radio }) priv;
     priv \<leftarrow> rtl8225z2_set_gain mode 4 priv;
     let priv = exec (rf_z2_init_cck ct) priv;
     priv \<leftarrow> rtl8225z2_SetTXPowerLevel channel priv;
     let priv = exec (rf_init_end ct) priv;
     rtl8225_rf_set_chan sd (pr_chan priv) priv
   }"

definition rtl8225z2_rf_set_mode :: "u8 \<Rightarrow> 'z r8187_scheme \<Rightarrow> 'z r8187_scheme option" where
  "rtl8225z2_rf_set_mode mode priv =
     (let a = (mode = 1);
          priv = exec (do {
            write_rtl8225 0x5 (if a then 0x1865 else 0x1864);
            write_nic_dword RF_PARA (if a then 0x10084 else 0x10044);
            write_nic_dword RF_TIMING 0xa8008;
            write_phy_ofdm 0x0 (if a then 0x0 else 0x1);
            each (\<lambda>(a, d). write_phy_ofdm a d) [(0xa, 0x6), (0xb, 0x99), (0xf, 0x20), (0x11, 0x7)]
          }) priv
      in do {
        priv \<leftarrow> rtl8225z2_set_gain mode 4 priv;
        Some (exec (do {
          write_phy_ofdm 0x15 0x40;
          write_phy_ofdm 0x17 0x40;
          write_nic_dword 0x94 (if a then 0x10000000 else 0x04000002)
        }) priv)
      })"

section \<open>Every index is inside its table\<close>

lemma table_z2_lengths:
  "length rtl8225z2_gain_bg = 21" "length rtl8225z2_gain_a = 21" "length rtl8225z2_rxgain = 95"
  "length ZEBRA2_CCK_OFDM_GAIN_SETTING = 36" "length rtl8225z2_tx_power_cck_ch14 = 8" "length rtl8225z2_tx_power_cck = 8"
  by (simp_all add: rtl8225z2_gain_bg_def rtl8225z2_gain_a_def rtl8225z2_rxgain_def ZEBRA2_CCK_OFDM_GAIN_SETTING_def
      rtl8225z2_tx_power_cck_ch14_def rtl8225z2_tx_power_cck_def)

lemma keeps_read_addr [keeps]: "nic_keeps (read_rtl8225_addr oval d msk k)"
proof (induction k arbitrary: msk)
  case 0
  then show ?case by (simp add: keeps)
next
  case (Suc k)
  then show ?case unfolding read_rtl8225_addr.simps pins_def Let_def by (intro keeps)
qed

lemma keeps_read_data [keeps]: "nic_keeps (read_rtl8225_data oval msk d k)"
proof (induction k arbitrary: msk d)
  case 0
  then show ?case by (simp add: keeps)
next
  case (Suc k)
  then show ?case unfolding read_rtl8225_data.simps pins_def Let_def by (intro keeps)
qed

lemma keeps_z2 [keeps]:
  "nic_keeps (read_rtl8225 adr)" "nic_keeps rtl8225_is_V_z2" "nic_keeps rf_z2_calibrate" "nic_keeps (rf_z2_init_cck ct)"
  "nic_keeps UpdateCCKThreshold"
  unfolding rtl8225_is_V_z2_def rf_z2_calibrate_def rf_z2_init_cck_def UpdateCCKThreshold_def read_rtl8225_def pins_def Let_def
  by (intro keeps)+

lemma keeps_UpdateInitialGain [keeps]: "nic_keeps UpdateInitialGain"
  unfolding UpdateInitialGain_def Let_def split_beta by (intro keeps)

lemma rf_z2_init_radio_total: "\<exists>m. rf_z2_init_radio ct = Some m \<and> nic_keeps m"
proof -
  obtain c where c: "tab rtl8225_chan 1 = Some c" using tab_in [of rtl8225_chan 15 1] table_lengths(9) by auto
  obtain g where g: "read_table rtl8225z2_rxgain 95 = Some g" using read_table_total [of 95 rtl8225z2_rxgain] table_z2_lengths(3) by auto
  obtain a where a: "read_table rtl8225_agc 128 = Some a" using read_table_total [of 128 rtl8225_agc] table_lengths(8) by auto
  show ?thesis
    unfolding rf_z2_init_radio_def c g a Option.bind.bind_lunit split_beta by (intro exI conjI, rule refl) (intro keeps)+
qed

lemma byte_cap: "uint (if (x :: u8) > 35 then 35 else x) < 36"
proof -
  have "(if x > 35 then 35 else x) \<le> 35" by (simp add: not_less)
  then have "uint (if x > 35 then 35 else x) \<le> 35" unfolding word_le_def by simp
  then show ?thesis by linarith
qed

lemma z2_SetTXPowerLevel_total:
  assumes "power_tables priv" "0 \<le> ch" "ch \<le> 14"
  shows "\<exists>priv'. rtl8225z2_SetTXPowerLevel ch priv = Some priv' \<and> log_ext priv priv'"
proof -
  obtain cck ofdm where p: "tab (pr_chtxpwr priv) ch = Some cck" "tab (pr_chtxpwr_ofdm priv) ch = Some ofdm"
    using assms by (simp add: power_tables_def tab_def)
  have tl: "length (if ch = 14 then rtl8225z2_tx_power_cck_ch14 else rtl8225z2_tx_power_cck) = 8" by (simp add: table_z2_lengths)
  obtain ps where ps: "those (map (\<lambda>i. tab (if ch = 14 then rtl8225z2_tx_power_cck_ch14 else rtl8225z2_tx_power_cck) (int i)) [0..<8]) = Some ps"
    using those_tab [of "[0..<8]" "\<lambda>i. tab (if ch = 14 then rtl8225z2_tx_power_cck_ch14 else rtl8225z2_tx_power_cck) (int i)"]
      tab_in [of _ 8] tl by force
  have g: "\<exists>g. tab ZEBRA2_CCK_OFDM_GAIN_SETTING (uint (if (x :: u8) > 35 then 35 else x)) = Some g" for x
    using tab_in [OF _ _ byte_cap [of x], of ZEBRA2_CCK_OFDM_GAIN_SETTING] table_z2_lengths(4) by auto
  define c where "c = (if cck > 15 then 15 else cck) + pr_cck_txpwr_base priv"
  obtain g1 where g1: "tab ZEBRA2_CCK_OFDM_GAIN_SETTING (uint (if c > 35 then 35 else c)) = Some g1" using g by blast
  define m :: "('a r8187_scheme, unit) state" where
    "m = do { each (\<lambda>(i, power). write_phy_cck (0x44 + i) (ucast power)) (zip [0, 1, 2, 3, 4, 5, 6, 7] ps); write_nic_byte TX_GAIN_CCK g1 }"
  have m: "log_ext priv (exec m priv)" unfolding m_def by (intro log_ext_keeps keeps)
  define o' where "o' = (if int (unat ofdm) > 25 - 10 then 25 else ofdm + 10) + pr_ofdm_txpwr_base priv"
  obtain g2 where g2: "tab ZEBRA2_CCK_OFDM_GAIN_SETTING (uint (if o' > 35 then 35 else o')) = Some g2" using g by blast
  show ?thesis
    unfolding rtl8225z2_SetTXPowerLevel_def Let_def p Option.bind.bind_lunit c_def [symmetric] ps g1 m_def [symmetric]
      log_ext_same(10) [OF m] o'_def [symmetric] g2
    by (rule exI, rule conjI, rule refl, rule log_ext_trans [OF m log_ext_keeps], intro keeps)
qed

lemma z2_set_chan_total:
  assumes "power_tables priv" "0 \<le> ch" "ch \<le> 14"
  shows "\<exists>priv'. rtl8225z2_rf_set_chan sd ch priv = Some priv' \<and> log_ext priv priv'"
proof -
  obtain p where p: "rtl8225z2_SetTXPowerLevel ch priv = Some p" "log_ext priv p" using z2_SetTXPowerLevel_total [OF assms] by blast
  obtain c where c: "tab rtl8225_chan ch = Some c" using tab_in [of rtl8225_chan 15 ch] table_lengths(9) assms by auto
  have "log_ext p (exec (do { write_rtl8225 0x7 (ucast c); rf_spacing sd }) p)" by (intro log_ext_keeps keeps)
  from log_ext_trans [OF p(2) this] show ?thesis
    unfolding rtl8225z2_rf_set_chan_def p(1) c Option.bind.bind_lunit by blast
qed

lemma z2_set_chan_outside:
  assumes "power_tables priv" "ch < 0 \<or> ch > 14"
  shows "rtl8225z2_rf_set_chan sd ch priv = None"
proof -
  have "tab (pr_chtxpwr priv) ch = None" using assms by (auto simp: power_tables_def tab_def)
  then show ?thesis by (simp add: rtl8225z2_rf_set_chan_def rtl8225z2_SetTXPowerLevel_def)
qed

lemma z2_set_gain_total: "0 \<le> gain \<Longrightarrow> gain \<le> 6 \<Longrightarrow> \<exists>priv'. rtl8225z2_set_gain mode gain priv = Some priv' \<and> log_ext priv priv'"
  by (auto simp: rtl8225z2_set_gain_def tab_def table_z2_lengths Let_def intro!: log_ext_keeps keeps)

lemma z2_rf_init_total:
  assumes "power_tables priv"
  shows "\<exists>priv'. rtl8225z2_rf_init mode sd priv = Some priv' \<and> log_ext (priv\<lparr>pr_chan := 1\<rparr>) priv'"
proof -
  let ?p0 = "priv\<lparr>pr_chan := 1\<rparr>"
  let ?ct = "pr_card_type ?p0"
  obtain radio :: "('a r8187_scheme, unit) state" where r: "rf_z2_init_radio ?ct = Some radio" "nic_keeps radio" using rf_z2_init_radio_total by blast
  let ?p1 = "exec (do { rf_init_mac ?ct; radio }) ?p0"
  have 1: "log_ext ?p0 ?p1" by (intro log_ext_keeps keeps r(2))
  obtain p2 where 2: "rtl8225z2_set_gain mode 4 ?p1 = Some p2" "log_ext ?p1 p2" using z2_set_gain_total [of 4 mode ?p1] by auto
  let ?p3 = "exec (rf_z2_init_cck ?ct) p2"
  have 3: "log_ext ?p0 ?p3" by (intro log_ext_trans [OF log_ext_trans [OF 1 2(2)]] log_ext_keeps keeps)
  have "power_tables ?p3" using assms power_tables_ext [OF 3] by (simp add: power_tables_def)
  from z2_SetTXPowerLevel_total [OF this, of 1] obtain p4 where 4: "rtl8225z2_SetTXPowerLevel 1 ?p3 = Some p4" "log_ext ?p3 p4" by auto
  let ?p5 = "exec (rf_init_end ?ct) p4"
  have 5: "log_ext ?p0 ?p5" by (intro log_ext_trans [OF log_ext_trans [OF 3 4(2)]] log_ext_keeps keeps)
  have "power_tables ?p5" using assms power_tables_ext [OF 5] by (simp add: power_tables_def)
  from set_chan_total [OF this, of 1] obtain p6 where 6: "rtl8225_rf_set_chan sd 1 ?p5 = Some p6" "log_ext ?p5 p6" by auto
  have chan: "pr_chan ?p5 = 1" using log_ext_same(4) [OF 5] by simp
  show ?thesis
    unfolding rtl8225z2_rf_init_def Let_def r(1) 2(1) 4(1) Option.bind.bind_lunit chan using 6(1) log_ext_trans [OF 5 6(2)] by blast
qed
end
