(* ===== verification/Adapter.thy ===== *)
theory Adapter
  imports Rf8225z2 Softmac_Meet
begin

text \<open>
  The operations of \<open>rtl8187/r8187_core.c\<close> that bring the registers and the radio together: setting the channel,
  following the link, reading the configuration memory, and starting the adapter; and where they meet
  the soft MAC, which hands over the channel it has read from a beacon.
\<close>

section \<open>Channel and link\<close>

definition rf_set_chan :: "station \<Rightarrow> int \<Rightarrow> 'z r8187_scheme \<Rightarrow> 'z r8187_scheme option" where
  "rf_set_chan sd ch priv =
     (case pr_rf_calls priv of RF_CALLS_8225 \<Rightarrow> rtl8225_rf_set_chan sd ch priv
      | RF_CALLS_8225Z2 \<Rightarrow> rtl8225z2_rf_set_chan sd ch priv)"

definition rtl8180_set_chan :: "station \<Rightarrow> int \<Rightarrow> 'z r8187_scheme \<Rightarrow> 'z r8187_scheme option" where
  "rtl8180_set_chan sd ch priv = do {
     let priv = priv\<lparr>pr_chan := ch\<rparr>;
     let (tx, priv) = run_state (read_nic_dword TX_CONF) priv;
     let tx = tx AND NOT TX_LOOPBACK_MASK;
     let priv = exec (write_nic_dword TX_CONF (tx OR push_bit 17 1)) priv;
     priv \<leftarrow> rf_set_chan sd (pr_chan priv) priv;
     Some (exec (write_nic_dword TX_CONF (tx OR push_bit 17 0)) priv)
   }"

definition rtl8187_net_update :: "station \<Rightarrow> ('z, unit) nic_prog" where
  "rtl8187_net_update sd =
     (let bssid = nw_bssid (sd_network sd)
      in do {
        write_nic_dword 0x2e (get_le32 (bssid ! 0) (bssid ! 1) (bssid ! 2) (bssid ! 3));
        write_nic_word (0x2e + 4) (get_le16 (bssid ! 4) (bssid ! 5));
        rtl8180_update_msr sd;
        write_nic_word 0x72 2;
        write_nic_word 0x76 100;
        write_nic_word 0x70 (nw_beacon_interval (sd_network sd));
        write_nic_word 0x74 100
      })"

definition rtl8187_link_change :: "bool \<Rightarrow> station \<Rightarrow> 'z r8187_scheme \<Rightarrow> 'z r8187_scheme option" where
  "rtl8187_link_change promisc sd priv = do {
     let priv = exec (rtl8187_net_update sd) priv;
     priv \<leftarrow> rtl8180_set_chan sd (pr_chan priv) priv;
     Some (exec (rtl8187_set_rxconf promisc sd) priv)
   }"

section \<open>Starting the adapter\<close>

definition rf_init :: "u8 \<Rightarrow> station \<Rightarrow> 'z r8187_scheme \<Rightarrow> 'z r8187_scheme option" where
  "rf_init mode sd priv =
     (case pr_rf_calls priv of RF_CALLS_8225 \<Rightarrow> rtl8225_rf_init sd priv
      | RF_CALLS_8225Z2 \<Rightarrow> rtl8225z2_rf_init mode sd priv)"

text \<open>The second radio has no \<open>rf_set_sens\<close>.\<close>

definition rf_set_sens :: "'z r8187_scheme \<Rightarrow> 'z r8187_scheme option" where
  "rf_set_sens priv =
     (case pr_rf_calls priv of RF_CALLS_8225 \<Rightarrow> map_option snd (rtl8225_rf_set_sens (pr_sens priv) priv)
      | RF_CALLS_8225Z2 \<Rightarrow> Some priv)"

definition adapter_mac :: "station \<Rightarrow> ('z r8187_scheme, unit) state" where
  "adapter_mac sd = do {
     rtl8180_reset;
     write_nic_byte 0x85 0;
     write_nic_byte 0x91 0;
     write_nic_byte 0x85 4;
     State_Monad.update (\<lambda>priv. priv\<lparr>pr_irq_mask := 0xffff\<rparr>);
     rtl8180_set_mode EPROM_CMD_CONFIG;
     let adr = sd_dev_addr sd;
     write_nic_dword 0 (get_le32 (adr ! 0) (adr ! 1) (adr ! 2) (adr ! 3));
     write_nic_word 4 (get_le16 (adr ! 4) (adr ! 5));
     rtl8180_set_mode EPROM_CMD_NORMAL;
     rtl8180_update_msr sd;
     write_nic_dword 0x48 0;
     write_nic_byte 0xb0 0;
     write_nic_byte 0xbe 0x81;
     rtl8187_set_rate
   }"

definition adapter_end :: "('z r8187_scheme, unit) state" where
  "adapter_end = do {
     write_nic_word 0x5e 1;
     write_nic_word 0xfe 0x10;
     write_nic_byte 0xfc 0x80;
     write_nic_byte 0xff 0x60;
     write_nic_word 0x5e 0;
     write_nic_byte 0x85 4;
     rtl8180_irq_enable
   }"

definition rtl8180_adapter_start :: "u8 \<Rightarrow> station \<Rightarrow> 'z r8187_scheme \<Rightarrow> 'z r8187_scheme option" where
  "rtl8180_adapter_start mode sd priv = do {
     priv \<leftarrow> rf_init mode sd (exec (adapter_mac sd) priv);
     priv \<leftarrow> rf_set_sens priv;
     Some (exec adapter_end priv)
   }"

section \<open>Which channels are safe\<close>

lemma keeps_same:
  assumes "nic_keeps m"
  shows "pr_chtxpwr (exec m priv) = pr_chtxpwr (priv :: 'z r8187_scheme)" "pr_chtxpwr_ofdm (exec m priv) = pr_chtxpwr_ofdm priv"
    "pr_rf_calls (exec m priv) = pr_rf_calls priv" "pr_chan (exec m priv) = pr_chan priv"
  using log_ext_same [OF log_ext_keeps [OF assms]] by blast+

lemma exec_update: "exec (State_Monad.update f) n = f n"
  by (simp add: exec_def State_Monad.update_def)

lemma keeps_net_update [keeps]: "nic_keeps (rtl8187_net_update sd)"
  unfolding rtl8187_net_update_def Let_def by (intro keeps)

lemma keeps_adapter_end [keeps]: "nic_keeps adapter_end"
  unfolding adapter_end_def by (intro keeps)

lemma adapter_mac_same:
  "pr_chtxpwr (exec (adapter_mac sd) priv) = pr_chtxpwr priv" "pr_chtxpwr_ofdm (exec (adapter_mac sd) priv) = pr_chtxpwr_ofdm priv"
  "pr_rf_calls (exec (adapter_mac sd) priv) = pr_rf_calls priv"
  unfolding adapter_mac_def Let_def prog_steps by (simp_all add: keeps_same keeps exec_update)

lemma rf_set_chan_total:
  assumes "power_tables priv" "0 \<le> ch" "ch \<le> 14"
  shows "\<exists>priv'. rf_set_chan sd ch priv = Some priv' \<and> log_ext priv priv'"
  using set_chan_total [OF assms] z2_set_chan_total [OF assms] by (cases "pr_rf_calls priv") (simp_all add: rf_set_chan_def)

lemma rf_set_chan_outside: "power_tables priv \<Longrightarrow> ch < 0 \<or> ch > 14 \<Longrightarrow> rf_set_chan sd ch priv = None"
  using set_chan_outside [of priv ch sd] z2_set_chan_outside [of priv ch sd] by (cases "pr_rf_calls priv") (simp_all add: rf_set_chan_def)

lemma rtl8180_set_chan_total:
  assumes "power_tables priv" "0 \<le> ch" "ch \<le> 14"
  shows "\<exists>priv'. rtl8180_set_chan sd ch priv = Some priv' \<and> log_ext (priv\<lparr>pr_chan := ch\<rparr>) priv'"
proof -
  let ?p0 = "priv\<lparr>pr_chan := ch\<rparr>"
  let ?tx = "fst (run_state (read_nic_dword TX_CONF) ?p0) AND NOT TX_LOOPBACK_MASK"
  let ?p1 = "exec (write_nic_dword TX_CONF (?tx OR push_bit 17 1)) (exec (read_nic_dword TX_CONF) ?p0)"
  have 1: "log_ext ?p0 ?p1" by (intro log_ext_trans [OF log_ext_keeps log_ext_keeps] keeps)
  have chan: "pr_chan ?p1 = ch" using log_ext_same(4) [OF 1] by simp
  have "power_tables ?p1" using assms(1) power_tables_ext [OF 1] by (simp add: power_tables_def)
  from rf_set_chan_total [OF this assms(2,3)] obtain p2 where 2: "rf_set_chan sd ch ?p1 = Some p2" "log_ext ?p1 p2" by blast
  have 3: "log_ext p2 (exec (write_nic_dword TX_CONF v) p2)" for v by (intro log_ext_keeps keeps)
  have "rtl8180_set_chan sd ch priv = Some (exec (write_nic_dword TX_CONF (?tx OR push_bit 17 0)) p2)"
    unfolding rtl8180_set_chan_def Let_def split_beta exec_def [symmetric] chan 2(1) by simp
  with log_ext_trans [OF log_ext_trans [OF 1 2(2)] 3] show ?thesis by blast
qed

lemma rtl8180_set_chan_outside:
  assumes "power_tables priv" "ch < 0 \<or> ch > 14"
  shows "rtl8180_set_chan sd ch priv = None"
proof -
  let ?p0 = "priv\<lparr>pr_chan := ch\<rparr>"
  have "power_tables (exec (write_nic_dword TX_CONF v) (exec (read_nic_dword TX_CONF) ?p0))" for v
    using assms(1) by (simp add: power_tables_def keeps_same keeps)
  note n = rf_set_chan_outside [OF this assms(2)]
  have chan: "pr_chan (exec (write_nic_dword TX_CONF v) (exec (read_nic_dword TX_CONF) ?p0)) = ch" for v by (simp add: keeps_same keeps)
  show ?thesis unfolding rtl8180_set_chan_def Let_def split_beta exec_def [symmetric] chan n by simp
qed

text \<open>The start-up needs nothing but tables of the right size.\<close>

lemma adapter_start_ext:
  assumes "power_tables priv"
  shows "\<exists>priv'. rtl8180_adapter_start mode sd priv = Some priv' \<and> log_ext ((exec (adapter_mac sd) priv)\<lparr>pr_chan := 1\<rparr>) priv'"
proof -
  let ?p1 = "exec (adapter_mac sd) priv"
  have "power_tables ?p1" using assms by (simp add: power_tables_def adapter_mac_same)
  with rf_init_total [of ?p1 sd] z2_rf_init_total [of ?p1 mode sd] obtain p2
    where 2: "rf_init mode sd ?p1 = Some p2" "log_ext (?p1\<lparr>pr_chan := 1\<rparr>) p2"
    unfolding rf_init_def by (cases "pr_rf_calls ?p1") auto
  have "log_ext p2 p2" by (auto simp: log_ext_def intro: exI [of _ "[]"])
  then obtain p3 where 3: "rf_set_sens p2 = Some p3" "log_ext p2 p3"
    using rf_set_sens_total [of "pr_sens p2" p2] unfolding rf_set_sens_def by (cases "pr_rf_calls p2") auto
  have e: "log_ext (?p1\<lparr>pr_chan := 1\<rparr>) (exec adapter_end p3)"
    by (intro log_ext_trans [OF log_ext_trans [OF 2(2) 3(2)]] log_ext_keeps keeps)
  have "rtl8180_adapter_start mode sd priv = Some (exec adapter_end p3)" by (simp add: rtl8180_adapter_start_def 2(1) 3(1))
  then show ?thesis using e by blast
qed

lemma adapter_start_total:
  assumes "power_tables priv"
  shows "\<exists>priv'. rtl8180_adapter_start mode sd priv = Some priv' \<and> power_tables priv' \<and> pr_chan priv' = 1 \<and> pr_rf_calls priv' = pr_rf_calls priv"
  using adapter_start_ext [OF assms, of mode sd] log_ext_same [of "(exec (adapter_mac sd) priv)\<lparr>pr_chan := 1\<rparr>"] assms
  by (auto simp: power_tables_def adapter_mac_same)

end
