(* ===== verification/Endpoints.thy ===== *)
theory Endpoints
  imports Prelude
begin

text \<open>
  The transfer blocks of the device (\<open>rtl8187_usb_initendpoints\<close> and \<open>rtl8187_usb_deleteendpoints\<close> in
  \<open>rtl8187/r8187_core.c\<close>): every allocation may fail, and the labels at the end of the function give back what was taken.  The
  allocator is the oracle \<open>al\<close>: the answer to each request, by its number.  Freeing what is not allocated and
  an access outside of an array are faults (\<open>None\<close>).
\<close>

section \<open>State\<close>

abbreviation MAX_TX_URB :: nat where "MAX_TX_URB \<equiv> 16"
abbreviation MAX_RX_URB :: nat where "MAX_RX_URB \<equiv> 1"

type_synonym ptr = "nat option"

text \<open>A block and its buffer; \<open>rx_urb\<close> is a pointer to an array of such, \<open>tx_context\<close> the array itself.\<close>

record endpoints =
  ep_asked :: nat
  ep_live :: "nat set"
  ep_rx_array :: ptr
  ep_rx_urb :: "(ptr \<times> ptr) list"
  ep_tx_context :: "(ptr \<times> ptr) list"

definition ep_alloc :: "(nat \<Rightarrow> bool) \<Rightarrow> endpoints \<Rightarrow> ptr \<times> endpoints" where
  "ep_alloc al e =
     (if al (ep_asked e) then (Some (ep_asked e), e\<lparr>ep_asked := Suc (ep_asked e), ep_live := insert (ep_asked e) (ep_live e)\<rparr>)
      else (None, e\<lparr>ep_asked := Suc (ep_asked e)\<rparr>))"

text \<open>Both \<open>kfree\<close> and \<open>usb_free_urb\<close> accept NULL.\<close>

definition ep_free :: "ptr \<Rightarrow> endpoints \<Rightarrow> endpoints option" where
  "ep_free p e = (case p of None \<Rightarrow> Some e
     | Some x \<Rightarrow> if x \<in> ep_live e then Some (e\<lparr>ep_live := ep_live e - {x}\<rparr>) else None)"

text \<open>An entry of the array of receive blocks, through its pointer.\<close>

definition rx_at :: "nat \<Rightarrow> endpoints \<Rightarrow> (ptr \<times> ptr) option" where
  "rx_at i e = (if ep_rx_array e = None \<or> length (ep_rx_urb e) \<le> i then None else Some (ep_rx_urb e ! i))"

definition rx_put :: "nat \<Rightarrow> ptr \<times> ptr \<Rightarrow> endpoints \<Rightarrow> endpoints option" where
  "rx_put i x e = (if ep_rx_array e = None \<or> length (ep_rx_urb e) \<le> i then None else Some (e\<lparr>ep_rx_urb := (ep_rx_urb e)[i := x]\<rparr>))"

section \<open>Operations\<close>

text \<open>How a loop is left.\<close>

datatype ep_exit = EP_DONE | EP_DESTROY | EP_DESTROY1

fun init_rx :: "(nat \<Rightarrow> bool) \<Rightarrow> nat \<Rightarrow> nat \<Rightarrow> endpoints \<Rightarrow> (ep_exit \<times> nat \<times> endpoints) option" where
  "init_rx al 0 i e = Some (EP_DONE, i, e)"
| "init_rx al (Suc k) i e = do {
     let (urb, e) = ep_alloc al e;
     e \<leftarrow> rx_put i (urb, None) e;
     if urb = None then Some (EP_DESTROY, i, e)
     else do {
       let (buf, e) = ep_alloc al e;
       e \<leftarrow> rx_put i (urb, buf) e;
       if buf = None then Some (EP_DESTROY1, i, e) else init_rx al k (Suc i) e
     }
   }"

fun init_tx :: "(nat \<Rightarrow> bool) \<Rightarrow> nat \<Rightarrow> nat \<Rightarrow> endpoints \<Rightarrow> ep_exit \<times> nat \<times> endpoints" where
  "init_tx al 0 j e = (EP_DONE, j, e)"
| "init_tx al (Suc k) j e =
     (let (urb, e) = ep_alloc al e;
          e = e\<lparr>ep_tx_context := (ep_tx_context e)[j := (urb, snd (ep_tx_context e ! j))]\<rparr>
      in if urb = None then (EP_DESTROY, j, e)
         else (let (buf, e) = ep_alloc al e;
                   e = e\<lparr>ep_tx_context := (ep_tx_context e)[j := (urb, buf)]\<rparr>
               in if buf = None then (EP_DESTROY1, j, e) else init_tx al k (Suc j) e))"

primrec destroy_tx :: "nat \<Rightarrow> endpoints \<Rightarrow> endpoints option" where
  "destroy_tx 0 e = Some e"
| "destroy_tx (Suc j) e = do {
     e \<leftarrow> ep_free (snd (ep_tx_context e ! j)) e;
     e \<leftarrow> ep_free (fst (ep_tx_context e ! j)) e;
     destroy_tx j e
   }"

primrec destroy_rx :: "nat \<Rightarrow> endpoints \<Rightarrow> endpoints option" where
  "destroy_rx 0 e = Some e"
| "destroy_rx (Suc i) e = do {
     (urb, buf) \<leftarrow> rx_at i e;
     e \<leftarrow> ep_free buf e;
     e \<leftarrow> ep_free urb e;
     destroy_rx i e
   }"

definition destroy :: "nat \<Rightarrow> endpoints \<Rightarrow> (int \<times> endpoints) option" where
  "destroy i e = do {
     e \<leftarrow> destroy_rx i e;
     e \<leftarrow> ep_free (ep_rx_array e) e;
     Some (- 12, e\<lparr>ep_rx_array := None, ep_rx_urb := []\<rparr>)
   }"

definition destroy1 :: "nat \<Rightarrow> endpoints \<Rightarrow> (int \<times> endpoints) option" where
  "destroy1 i e = do { (urb, buf) \<leftarrow> rx_at i e; e \<leftarrow> ep_free urb e; destroy i e }"

text \<open>A failure of the second loop falls through the labels of the first, with its counter \<open>i\<close> one past the end.\<close>

definition rtl8187_usb_initendpoints :: "(nat \<Rightarrow> bool) \<Rightarrow> endpoints \<Rightarrow> (int \<times> endpoints) option" where
  "rtl8187_usb_initendpoints al e = do {
     let (arr, e) = ep_alloc al e;
     let e = e\<lparr>ep_rx_array := arr, ep_rx_urb := replicate MAX_RX_URB (None, None)\<rparr>;
     (x, i, e) \<leftarrow> init_rx al MAX_RX_URB 0 e;
     case x of EP_DESTROY \<Rightarrow> destroy i e | EP_DESTROY1 \<Rightarrow> destroy1 i e
     | EP_DONE \<Rightarrow> (let (y, j, e) = init_tx al MAX_TX_URB 0 e
         in case y of EP_DONE \<Rightarrow> Some (0, e)
            | EP_DESTROY1 \<Rightarrow> do { e \<leftarrow> ep_free (fst (ep_tx_context e ! j)) e; e \<leftarrow> destroy_tx j e; destroy1 i e }
            | EP_DESTROY \<Rightarrow> do { e \<leftarrow> destroy_tx j e; destroy1 i e })
   }"

primrec delete_rx :: "nat \<Rightarrow> nat \<Rightarrow> endpoints \<Rightarrow> endpoints option" where
  "delete_rx 0 i e = Some e"
| "delete_rx (Suc k) i e = do {
     (urb, buf) \<leftarrow> rx_at i e;
     e \<leftarrow> ep_free buf e;
     e \<leftarrow> ep_free urb e;
     delete_rx k (Suc i) e
   }"

primrec delete_tx :: "nat \<Rightarrow> nat \<Rightarrow> endpoints \<Rightarrow> endpoints option" where
  "delete_tx 0 j e = Some e"
| "delete_tx (Suc k) j e = do {
     e \<leftarrow> ep_free (snd (ep_tx_context e ! j)) e;
     e \<leftarrow> ep_free (fst (ep_tx_context e ! j)) e;
     delete_tx k (Suc j) (e\<lparr>ep_tx_context := (ep_tx_context e)[j := (None, None)]\<rparr>)
   }"

definition rtl8187_usb_deleteendpoints :: "endpoints \<Rightarrow> endpoints option" where
  "rtl8187_usb_deleteendpoints e = do {
     e \<leftarrow> (if ep_rx_array e = None then Some e
       else do {
         e \<leftarrow> delete_rx MAX_RX_URB 0 e;
         e \<leftarrow> ep_free (ep_rx_array e) e;
         Some (e\<lparr>ep_rx_array := None, ep_rx_urb := []\<rparr>)
       });
     delete_tx MAX_TX_URB 0 e
   }"

section \<open>The second loop\<close>

text \<open>What it leaves when every request is granted.\<close>

definition tx_filled :: "nat \<Rightarrow> nat \<Rightarrow> (ptr \<times> ptr) list" where
  "tx_filled a k = map (\<lambda>i. (Some (a + 2 * i), Some (a + 2 * i + 1))) [0..<k]"

lemma tx_filled_Suc: "tx_filled a (Suc k) = (Some a, Some (a + 1)) # tx_filled (a + 2) k"
  by (rule nth_equalityI) (auto simp: tx_filled_def nth_Cons split: nat.split simp del: upt_Suc)

lemma init_tx_done:
  assumes "\<forall>m < 2 * k. al (ep_asked e + m)" "j + k = length (ep_tx_context e)"
  shows "init_tx al k j e = (EP_DONE, j + k, e\<lparr>ep_asked := ep_asked e + 2 * k,
    ep_live := ep_live e \<union> {ep_asked e..<ep_asked e + 2 * k}, ep_tx_context := take j (ep_tx_context e) @ tx_filled (ep_asked e) k\<rparr>)"
  using assms
proof (induction k arbitrary: j e)
  case 0
  then show ?case by (simp add: tx_filled_def)
next
  case (Suc k)
  let ?a = "ep_asked e"
  let ?e = "e\<lparr>ep_asked := ?a + 2, ep_live := insert (Suc ?a) (insert ?a (ep_live e)),
    ep_tx_context := (ep_tx_context e)[j := (Some ?a, Some (Suc ?a))]\<rparr>"
  have al: "al ?a" "al (Suc ?a)" using Suc.prems(1) [THEN spec, of 0] Suc.prems(1) [THEN spec, of 1] by simp_all
  have "\<forall>m < 2 * k. al (ep_asked ?e + m)"
  proof (intro allI impI)
    fix m assume "m < 2 * k"
    then show "al (ep_asked ?e + m)" using Suc.prems(1) [THEN spec, of "m + 2"] by (simp add: add.commute add.left_commute)
  qed
  from Suc.IH [OF this, of "Suc j"] Suc.prems(2)
  have IH: "init_tx al k (Suc j) ?e = (EP_DONE, j + Suc k, ?e\<lparr>ep_asked := ?a + 2 + 2 * k,
    ep_live := ep_live ?e \<union> {?a + 2..<?a + 2 + 2 * k}, ep_tx_context := take (Suc j) (ep_tx_context ?e) @ tx_filled (?a + 2) k\<rparr>)" by simp
  have l: "insert (Suc ?a) (insert ?a (ep_live e)) \<union> {?a + 2..<?a + 2 + 2 * k} = ep_live e \<union> {?a..<?a + 2 * Suc k}" by auto
  have t: "take (Suc j) (ep_tx_context ?e) @ tx_filled (?a + 2) k = take j (ep_tx_context e) @ tx_filled ?a (Suc k)"
    using Suc.prems(2) by (simp add: tx_filled_Suc take_Suc_conv_app_nth)
  have "init_tx al (Suc k) j e = init_tx al k (Suc j) ?e" using al by (simp add: ep_alloc_def)
  also have "\<dots> = (EP_DONE, j + Suc k, e\<lparr>ep_asked := ?a + 2 * Suc k,
      ep_live := ep_live e \<union> {?a..<?a + 2 * Suc k}, ep_tx_context := take j (ep_tx_context e) @ tx_filled ?a (Suc k)\<rparr>)"
    unfolding IH t [symmetric] l [symmetric] by simp
  finally show ?case .
qed

lemma init_tx_fails:
  assumes "m < 2 * k" "\<not> al (ep_asked e + m)"
  shows "fst (init_tx al k j e) \<noteq> EP_DONE"
  using assms
proof (induction k arbitrary: j e m)
  case (Suc k)
  show ?case
  proof (cases "al (ep_asked e) \<and> al (Suc (ep_asked e))")
    case True
    then obtain i where m: "m = Suc (Suc i)" using Suc.prems(2) by (cases m; cases "m - 1") auto
    let ?e = "e\<lparr>ep_asked := ep_asked e + 2, ep_live := insert (Suc (ep_asked e)) (insert (ep_asked e) (ep_live e)),
      ep_tx_context := (ep_tx_context e)[j := (Some (ep_asked e), Some (Suc (ep_asked e)))]\<rparr>"
    have "init_tx al (Suc k) j e = init_tx al k (Suc j) ?e" using True by (simp add: ep_alloc_def)
    moreover have "i < 2 * k" "\<not> al (ep_asked ?e + i)" using Suc.prems m by simp_all
    ultimately show ?thesis using Suc.IH by metis
  next
    case False
    then show ?thesis by (auto simp: ep_alloc_def)
  qed
qed simp

lemma init_tx_array: "ep_rx_array (snd (snd (init_tx al k j e))) = ep_rx_array e \<and> ep_rx_urb (snd (snd (init_tx al k j e))) = ep_rx_urb e"
  by (induction k arbitrary: j e) (auto simp: ep_alloc_def Let_def)

lemma ep_free_array: "ep_free p e = Some e' \<Longrightarrow> ep_rx_urb e' = ep_rx_urb e"
  by (auto simp: ep_free_def split: option.splits if_splits)

lemma destroy_tx_array: "destroy_tx j e = Some e' \<Longrightarrow> ep_rx_urb e' = ep_rx_urb e"
  by (induction j arbitrary: e) (auto simp: bind_eq_Some_conv, metis ep_free_array)

text \<open>Past the end of the array of receive blocks.\<close>

lemma destroy1_outside: "length (ep_rx_urb e) \<le> i \<Longrightarrow> destroy1 i e = None"
  by (simp add: destroy1_def rx_at_def)

lemma destroy_outside: "length (ep_rx_urb e) \<le> i \<Longrightarrow> Option.bind (destroy_tx j e) (destroy1 i) = None"
  by (cases "destroy_tx j e") (simp_all add: destroy1_outside destroy_tx_array)

lemma free_outside:
  "length (ep_rx_urb e) \<le> i \<Longrightarrow> Option.bind (ep_free p e) (\<lambda>f. Option.bind (destroy_tx j f) (destroy1 i)) = None"
  by (cases "ep_free p e") (simp_all add: destroy_outside ep_free_array)

section \<open>Giving everything back\<close>

lemma delete_tx_frees:
  assumes "drop j (ep_tx_context e) = tx_filled a k" "j + k = length (ep_tx_context e)" "{a..<a + 2 * k} \<subseteq> ep_live e"
  shows "\<exists>c. delete_tx k j e = Some (e\<lparr>ep_live := ep_live e - {a..<a + 2 * k}, ep_tx_context := c\<rparr>)"
  using assms
proof (induction k arbitrary: j e a)
  case 0
  have "e = e\<lparr>ep_live := ep_live e, ep_tx_context := ep_tx_context e\<rparr>" by simp
  then show ?case by (auto intro: exI [of _ "ep_tx_context e"])
next
  case (Suc k)
  have j: "j < length (ep_tx_context e)" using Suc.prems(2) by simp
  have n: "ep_tx_context e ! j = (Some a, Some (a + 1))"
    using Suc.prems(1) j by (simp add: tx_filled_Suc Cons_nth_drop_Suc [symmetric])
  let ?e = "e\<lparr>ep_live := ep_live e - {Suc a} - {a}, ep_tx_context := (ep_tx_context e)[j := (None, None)]\<rparr>"
  have "delete_tx (Suc k) j e = delete_tx k (Suc j) ?e"
  proof -
    have "a \<in> ep_live e" "Suc a \<in> ep_live e" using Suc.prems(3) by (auto simp: subset_iff)
    then show ?thesis by (simp add: n ep_free_def)
  qed
  moreover have "\<exists>c. delete_tx k (Suc j) ?e = Some (?e\<lparr>ep_live := ep_live ?e - {a + 2..<a + 2 + 2 * k}, ep_tx_context := c\<rparr>)"
  proof (rule Suc.IH)
    show "drop (Suc j) (ep_tx_context ?e) = tx_filled (a + 2) k"
      using Suc.prems(1) j by (simp add: tx_filled_Suc Cons_nth_drop_Suc [symmetric])
    show "Suc j + k = length (ep_tx_context ?e)" using Suc.prems(2) by simp
    show "{a + 2..<a + 2 + 2 * k} \<subseteq> ep_live ?e" using Suc.prems(3) by auto
  qed
  moreover have "ep_live e - {Suc a} - {a} - {a + 2..<a + 2 + 2 * k} = ep_live e - {a..<a + 2 * Suc k}" by auto
  ultimately show ?case by auto
qed

section \<open>Outcomes\<close>

text \<open>A device that was not probed before: no blocks, nothing asked for.\<close>

definition endpoints_none :: endpoints where
  "endpoints_none = \<lparr>ep_asked = 0, ep_live = {}, ep_rx_array = None, ep_rx_urb = [], ep_tx_context = replicate MAX_TX_URB (None, None)\<rparr>"

lemma initendpoints_ok:
  assumes "\<forall>m < 35. al m"
  shows "rtl8187_usb_initendpoints al endpoints_none = Some (0, \<lparr>ep_asked = 35, ep_live = {0..<35}, ep_rx_array = Some 0,
    ep_rx_urb = [(Some 1, Some 2)], ep_tx_context = tx_filled 3 16\<rparr>)"
proof -
  let ?e = "\<lparr>ep_asked = 3, ep_live = {0, 1, 2}, ep_rx_array = Some 0, ep_rx_urb = [(Some 1, Some 2)],
    ep_tx_context = replicate 16 (None, None)\<rparr> :: endpoints"
  have "init_tx al 16 0 ?e = (EP_DONE, 0 + 16, ?e\<lparr>ep_asked := ep_asked ?e + 2 * 16,
    ep_live := ep_live ?e \<union> {ep_asked ?e..<ep_asked ?e + 2 * 16}, ep_tx_context := take 0 (ep_tx_context ?e) @ tx_filled (ep_asked ?e) 16\<rparr>)"
    by (rule init_tx_done) (use assms in simp_all)
  moreover have "{0, 1, 2} \<union> {3..<35} = {0..<35 :: nat}" by auto
  ultimately have t: "init_tx al 16 0 ?e = (EP_DONE, 16, \<lparr>ep_asked = 35, ep_live = {0..<35}, ep_rx_array = Some 0,
    ep_rx_urb = [(Some 1, Some 2)], ep_tx_context = tx_filled 3 16\<rparr>)" by simp
  have al: "al 0" "al (Suc 0)" "al (Suc (Suc 0))" using assms by simp_all
  have l: "insert (Suc (Suc 0)) (insert (Suc 0) (insert 0 {})) = {0, 1, 2 :: nat}" "Suc (Suc (Suc 0)) = 3" by auto
  show ?thesis
    using al t unfolding rtl8187_usb_initendpoints_def endpoints_none_def
    by (simp add: ep_alloc_def rx_put_def l numeral_2_eq_2 [symmetric] insert_commute)
qed

text \<open>C0: The outcomes of the allocation of the transfer blocks, by the first request that is refused.  When none of the 35 is, all are
  live, and \<open>rtl8187_usb_deleteendpoints\<close> gives each of them back once and leaves none.  When the block or the buffer of the receive
  side is refused, -12 is returned and nothing stays allocated.  When the array of receive blocks is refused, it is written through
  NULL all the same; and when any of the 32 requests of the transmit side is refused, the clean-up falls through to the
  label of the receive side with its counter one past the end, and frees what it finds there.\<close>

theorem endpoints_outcome:
  assumes "\<forall>m < n. al m" and "n < 35 \<longrightarrow> \<not> al n"
  defines "r \<equiv> rtl8187_usb_initendpoints al endpoints_none"
  shows "(n \<ge> 35 \<longrightarrow> (\<exists>e. r = Some (0, e) \<and> card (ep_live e) = 35 \<and> map_option ep_live (rtl8187_usb_deleteendpoints e) = Some {})) \<and>
    (n = 1 \<or> n = 2 \<longrightarrow> (\<exists>e. r = Some (- 12, e) \<and> ep_live e = {} \<and> ep_rx_array e = None)) \<and>
    (n = 0 \<or> 3 \<le> n \<and> n < 35 \<longrightarrow> r = None)"
proof (intro conjI impI)
  assume n: "n \<ge> 35"
  let ?e = "\<lparr>ep_asked = 35, ep_live = {0..<35}, ep_rx_array = Some 0, ep_rx_urb = [(Some 1, Some 2)], ep_tx_context = tx_filled 3 16\<rparr> :: endpoints"
  let ?f = "\<lparr>ep_asked = 35, ep_live = {0..<35} - {2} - {1} - {0}, ep_rx_array = None, ep_rx_urb = [], ep_tx_context = tx_filled 3 16\<rparr> :: endpoints"
  have r: "r = Some (0, ?e)" unfolding r_def by (rule initendpoints_ok) (use assms(1) n in auto)
  have "\<exists>c. delete_tx 16 0 ?f = Some (?f\<lparr>ep_live := ep_live ?f - {3..<3 + 2 * 16}, ep_tx_context := c\<rparr>)"
    by (rule delete_tx_frees) (auto simp: tx_filled_def)
  moreover have "{0..<35} - {2} - {1} - {0} - {3..<35 :: nat} = {}" by auto
  moreover have "rtl8187_usb_deleteendpoints ?e = delete_tx 16 0 ?f"
    by (simp add: rtl8187_usb_deleteendpoints_def rx_at_def ep_free_def)
  ultimately have "map_option ep_live (rtl8187_usb_deleteendpoints ?e) = Some {}" by auto
  then show "\<exists>e. r = Some (0, e) \<and> card (ep_live e) = 35 \<and> map_option ep_live (rtl8187_usb_deleteendpoints e) = Some {}" using r by auto
next
  assume n: "n = 1 \<or> n = 2"
  have a: "al 0" using assms(1) n by auto
  from n show "\<exists>e. r = Some (- 12, e) \<and> ep_live e = {} \<and> ep_rx_array e = None"
  proof
    assume "n = 1"
    then have "\<not> al (Suc 0)" using assms(2) by simp
    then show ?thesis unfolding r_def using a
      by (simp add: rtl8187_usb_initendpoints_def endpoints_none_def ep_alloc_def rx_put_def destroy_def ep_free_def)
  next
    assume "n = 2"
    then have "al (Suc 0)" "\<not> al (Suc (Suc 0))" using assms by (simp_all add: numeral_2_eq_2)
    then show ?thesis unfolding r_def using a
      by (simp add: rtl8187_usb_initendpoints_def endpoints_none_def ep_alloc_def rx_put_def destroy_def destroy1_def rx_at_def ep_free_def)
  qed
next
  assume n: "n = 0 \<or> 3 \<le> n \<and> n < 35"
  then show "r = None"
  proof
    assume "n = 0"
    then have "\<not> al 0" using assms(2) by simp
    then show ?thesis unfolding r_def by (simp add: rtl8187_usb_initendpoints_def endpoints_none_def ep_alloc_def rx_put_def Let_def)
  next
    assume n: "3 \<le> n \<and> n < 35"
    then have al: "al 0" "al (Suc 0)" "al (Suc (Suc 0))" "\<not> al n" using assms by simp_all
    obtain i where i: "n = Suc (Suc (Suc i))" "i < 32" using n by (cases n; cases "n - 1"; cases "n - 2") auto
    define e where "e = \<lparr>ep_asked = Suc (Suc (Suc 0)), ep_live = {Suc (Suc 0), Suc 0, 0}, ep_rx_array = Some 0,
      ep_rx_urb = [(Some (Suc 0), Some (Suc (Suc 0)))], ep_tx_context = replicate 16 (None, None)\<rparr>"
    obtain y j e' where t: "init_tx al 16 0 e = (y, j, e')" by (metis prod_cases3)
    have "fst (init_tx al 16 0 e) \<noteq> EP_DONE" by (rule init_tx_fails [of i]) (use i al in \<open>simp_all add: e_def\<close>)
    then have y: "y \<noteq> EP_DONE" using t by simp
    have "length (ep_rx_urb e') \<le> Suc 0" using init_tx_array [of al 16 0 e] t by (simp add: e_def)
    note d = destroy_outside [OF this] free_outside [OF this]
    have "r = (case y of EP_DONE \<Rightarrow> Some (0, e')
            | EP_DESTROY1 \<Rightarrow> do { f \<leftarrow> ep_free (fst (ep_tx_context e' ! j)) e'; f \<leftarrow> destroy_tx j f; destroy1 (Suc 0) f }
            | EP_DESTROY \<Rightarrow> do { f \<leftarrow> destroy_tx j e'; destroy1 (Suc 0) f })"
      unfolding r_def rtl8187_usb_initendpoints_def endpoints_none_def
      using al(1-3) t [unfolded e_def] by (simp add: ep_alloc_def rx_put_def)
    then show ?thesis using y d by (cases y) simp_all
  qed
qed

theorem endpoints_outcome_witness:
  "(\<exists>e. rtl8187_usb_initendpoints (\<lambda>_. True) endpoints_none = Some (0, e) \<and> card (ep_live e) = 35) \<and>
   rtl8187_usb_initendpoints (\<lambda>m. m < 20) endpoints_none = None"
  using endpoints_outcome [of 35 "\<lambda>_. True"] endpoints_outcome [of 20 "\<lambda>m. m < 20"] by auto

end
