(* ===== verification/Probe.thy ===== *)
theory Probe
  imports Adapter Endpoints
begin

text \<open>
  \<open>rtl8180_init\<close> of \<open>rtl8187/r8187_core.c\<close>: what it takes from the configuration memory (regulatory domain, address,
  transmit power) and from the radio, and its errors.  The fields of rate adaptation and gain it sets are in \<open>Dm\<close>, the diodes in \<open>Led\<close>.
\<close>

section \<open>Channel plans\<close>

definition DefaultChannelPlan :: "nat list list" where
  "DefaultChannelPlan = [
     [1, 2, 3, 4, 5, 6, 7, 8, 9, 10, 11, 36, 40, 44, 48, 52, 56, 60, 64, 149, 153, 157, 161, 165],
     [1, 2, 3, 4, 5, 6, 7, 8, 9, 10, 11],
     [1, 2, 3, 4, 5, 6, 7, 8, 9, 10, 11, 12, 13, 36, 40, 44, 48, 52, 56, 60, 64],
     [1, 2, 3, 4, 5, 6, 7, 8, 9, 10, 11, 12, 13],
     [1, 2, 3, 4, 5, 6, 7, 8, 9, 10, 11, 12, 13],
     [1, 2, 3, 4, 5, 6, 7, 8, 9, 10, 11, 12, 13, 14, 36, 40, 44, 48, 52, 56, 60, 64],
     [1, 2, 3, 4, 5, 6, 7, 8, 9, 10, 11, 12, 13, 14, 36, 40, 44, 48, 52, 56, 60, 64],
     [1, 2, 3, 4, 5, 6, 7, 8, 9, 10, 11, 12, 13],
     [1, 2, 3, 4, 5, 6, 7, 8, 9, 10, 11, 12, 13, 14, 36, 40, 44, 48, 52, 56, 60, 64]]"

text \<open>The loop over the channels of a plan; a channel beyond the map is written outside of it.\<close>

primrec allow_channels :: "nat list \<Rightarrow> bool list \<Rightarrow> bool list option" where
  "allow_channels [] cm = Some cm"
| "allow_channels (c # cs) cm = (if c < length cm then allow_channels cs (cm[c := True]) else None)"

primrec channel_bits :: "nat list \<Rightarrow> int \<Rightarrow> bool list \<Rightarrow> bool list" where
  "channel_bits [] ch cm = cm"
| "channel_bits (i # is) ch cm = channel_bits is (ch div 2) (cm[i := odd ch])"

text \<open>The length of the plan is read before the index is compared with the size of the table.\<close>

definition init_channel_map :: "int \<Rightarrow> u8 \<Rightarrow> bool list \<Rightarrow> (int \<times> bool list) option" where
  "init_channel_map channels chan_plan_index cm =
     (if chan_plan_index AND 0x80 \<noteq> 0
      then do {
        plan \<leftarrow> tab DefaultChannelPlan (uint (chan_plan_index AND 0x7f));
        if length plan \<noteq> 0 then map_option (Pair 0) (allow_channels plan cm) else Some (- 1, cm)
      }
      else if channels = 0 then Some (- 1, cm)
      else Some (0, channel_bits [1..<15] channels cm))"

section \<open>The configuration memory\<close>

definition priv_eprom_read :: "u32 \<Rightarrow> ('z r8187_scheme, u32) state" where
  "priv_eprom_read addr = do { priv \<leftarrow> State_Monad.get; eprom_read (pr_epromtype priv) addr }"

definition read_epromtype :: "('z r8187_scheme, unit) state" where
  "read_epromtype = do {
     rcr \<leftarrow> read_nic_dword RX_CONF;
     State_Monad.update (\<lambda>priv. priv\<lparr>pr_epromtype := (if 0x40 AND rcr \<noteq> 0 then EPROM_93c56 else EPROM_93c46)\<rparr>)
   }"

definition read_dev_addr :: "('z r8187_scheme, bytes) state" where
  "read_dev_addr = do {
     w0 \<leftarrow> priv_eprom_read 7;
     w1 \<leftarrow> priv_eprom_read 7;
     w2 \<leftarrow> priv_eprom_read (7 + 1);
     w3 \<leftarrow> priv_eprom_read (7 + 1);
     w4 \<leftarrow> priv_eprom_read (7 + 2);
     w5 \<leftarrow> priv_eprom_read (7 + 2);
     State_Monad.return [ucast (w0 AND 0xff), ucast (drop_bit 8 (w1 AND 0xff00)), ucast (w2 AND 0xff), ucast (drop_bit 8 (w3 AND 0xff00)),
       ucast (w4 AND 0xff), ucast (drop_bit 8 (w5 AND 0xff00) + 1)]
   }"

text \<open>One word holds the powers of two channels, \<open>c\<close> and \<open>c + 1\<close>.\<close>

definition put_txpw :: "nat \<Rightarrow> u16 \<Rightarrow> 'z r8187_scheme \<Rightarrow> 'z r8187_scheme" where
  "put_txpw c word priv = priv\<lparr>
     pr_chtxpwr := (pr_chtxpwr priv)[c := ucast (word AND 0xf), c + 1 := ucast (drop_bit 8 (word AND 0xf00))],
     pr_chtxpwr_ofdm := (pr_chtxpwr_ofdm priv)[c := ucast (drop_bit 4 (word AND 0xf0)), c + 1 := ucast (drop_bit 12 (word AND 0xf000))]\<rparr>"

primrec read_txpw :: "(nat \<times> u32) list \<Rightarrow> ('z r8187_scheme, unit) state" where
  "read_txpw [] = State_Monad.return ()"
| "read_txpw (x # xs) = do {
     word \<leftarrow> priv_eprom_read (snd x);
     State_Monad.update (put_txpw (fst x) (ucast word));
     read_txpw xs
   }"

text \<open>The three loops: first channel and address of each word.\<close>

definition txpw_words :: "(nat \<times> u32) list" where
  "txpw_words = [(1, 0x16), (3, 0x16 + 1), (5, 0x16 + 2), (7, 0x3d), (9, 0x3d + 1), (11, 0x1b), (13, 0x1b + 1)]"

definition init_plan :: "('z r8187_scheme, u8) state" where
  "init_plan = do {
     read_epromtype;
     plan \<leftarrow> priv_eprom_read 3;
     State_Monad.return (ucast (plan AND 0xff))
   }"

definition init_addr_power :: "('z r8187_scheme, bytes) state" where
  "init_addr_power = do {
     adr \<leftarrow> read_dev_addr;
     read_txpw txpw_words;
     chip \<leftarrow> priv_eprom_read 6;
     State_Monad.update (\<lambda>priv. priv\<lparr>pr_rf_chip := unat (0xff AND chip)\<rparr>);
     base \<leftarrow> priv_eprom_read 5;
     State_Monad.update (\<lambda>priv. priv\<lparr>pr_cck_txpwr_base := ucast (base AND 0xf), pr_ofdm_txpwr_base := ucast (drop_bit 4 base AND 0xf)\<rparr>);
     State_Monad.return adr
   }"

section \<open>The whole\<close>

text \<open>The radio is told apart; only this one chip is known.\<close>

definition rtl8180_init_radio :: "('z r8187_scheme, int) state" where
  "rtl8180_init_radio = do {
     priv \<leftarrow> State_Monad.get;
     if pr_rf_chip priv = 5 then do {
       vz2 \<leftarrow> rtl8225_is_V_z2;
       State_Monad.update (\<lambda>priv. priv\<lparr>pr_rf_calls := (if vz2 then RF_CALLS_8225Z2 else RF_CALLS_8225),
         pr_rf_chip := (if vz2 then RF_ZEBRA2 else RF_ZEBRA), pr_sens := 4\<rparr>);
       State_Monad.return 0
     } else State_Monad.return (- 1)
   }"

abbreviation CONFIG2 :: u16 where "CONFIG2 \<equiv> 0x53"

definition init_defaults :: "station \<Rightarrow> station" where
  "init_defaults sd = sd\<lparr>sd_iw_mode := IW_MODE_INFRA, sd_rate := 110, sd_short_slot := True, sd_active_scan := True,
     sd_modulation := CCK_MODULATION OR OFDM_MODULATION, sd_host_encrypt := True,
     sd_network := (sd_network sd)\<lparr>nw_beacon_interval := 0x64\<rparr>\<rparr>"

text \<open>The version of the chip is read before the memory; \<open>al\<close> is the allocator of the transfer blocks.\<close>

definition rtl8180_init :: "(nat \<Rightarrow> bool) \<Rightarrow> int \<Rightarrow> station \<Rightarrow> 'z r8187_scheme \<Rightarrow> (int \<times> station \<times> 'z r8187_scheme) option" where
  "rtl8180_init al channels sd priv = do {
     let priv = priv\<lparr>pr_retry_rts := 7, pr_retry_data := 7, pr_InitialGain := 0, pr_StageCCKTh := 0, pr_card_type := USB\<rparr>;
     let sd = init_defaults sd;
     let (hw_version, priv) = run_state (read_nic_dword TX_CONF) priv;
     let (plan, priv) = run_state init_plan priv;
     (r, cm) \<leftarrow> init_channel_map channels plan (sd_channel_map sd);
     let sd = sd\<lparr>sd_channel_map := cm\<rparr>;
     if r \<noteq> 0 then Some (r, sd, priv)
     else do {
       let (adr, priv) = run_state init_addr_power priv;
       let sd = sd\<lparr>sd_dev_addr := adr\<rparr>;
       let (r, priv) = run_state rtl8180_init_radio priv;
       if r \<noteq> 0 then Some (r, sd, priv)
       else do {
         let (pape, priv) = run_state (read_nic_byte CONFIG2) priv;
         (r, ep) \<leftarrow> rtl8187_usb_initendpoints al endpoints_none;
         Some (r, sd, priv)
       }
     }
   }"

section \<open>What the memory gives\<close>

lemma keeps_eprom_send [keeps]: "nic_keeps (eprom_send_bits_string bs)"
  by (induction bs) (simp_all add: eprom_w_def eprom_ck_cycle_def keeps)

lemma keeps_eprom_bits [keeps]: "nic_keeps (eprom_read_bits k ret)"
  by (induction k arbitrary: ret) (simp_all add: eprom_r_def eprom_ck_cycle_def keeps)

lemma keeps_eprom_read [keeps]: "nic_keeps (eprom_read type addr)"
  unfolding eprom_read_def eprom_cs_def eprom_w_def eprom_ck_cycle_def by (intro keeps)

lemma keeps_priv_eprom_read [keeps]: "nic_keeps (priv_eprom_read addr)"
  unfolding priv_eprom_read_def by (intro keeps)

text \<open>A device with a memory behind it, whose kind the driver knows.\<close>

definition mem_ready :: "eprom_type \<Rightarrow> (nat \<Rightarrow> u16) \<Rightarrow> 'z r8187_scheme \<Rightarrow> bool" where
  "mem_ready type mem priv \<longleftrightarrow> eprom_wired (eprom_addr_len type) mem priv \<and> pr_epromtype priv = type"

lemma priv_log_ext: "log_ext (priv :: 'z r8187_scheme) priv' \<Longrightarrow> pr_epromtype priv' = pr_epromtype priv"
  by (auto simp: log_ext_def)

lemma mem_ready_ext: "log_ext priv priv' \<Longrightarrow> mem_ready type mem priv' \<longleftrightarrow> mem_ready type mem priv"
  by (simp add: mem_ready_def eprom_wired_def log_ext_same(11) priv_log_ext)

lemma mem_ready_read: "mem_ready type mem priv \<Longrightarrow> mem_ready type mem (exec (priv_eprom_read addr) priv)"
  by (simp add: mem_ready_ext [OF log_ext_keeps [OF keeps_priv_eprom_read]])

lemma eprom_word:
  assumes "eprom_wired (eprom_addr_len type) mem n" "unat addr < 2 ^ eprom_addr_len type"
  shows "fst (run_state (eprom_read type addr) n) = ucast (mem (unat addr))"
  using eprom_read_word [OF assms] by simp

lemma priv_eprom_word:
  assumes "mem_ready type mem priv" "unat addr < 64"
  shows "fst (run_state (priv_eprom_read addr) priv) = ucast (mem (unat addr))"
proof -
  have "unat addr < 2 ^ eprom_addr_len type" using assms(2) by (cases type) (simp_all add: eprom_addr_len_def)
  moreover have "eprom_wired (eprom_addr_len type) mem priv" "pr_epromtype priv = type" using assms(1) by (simp_all add: mem_ready_def)
  ultimately show ?thesis by (simp add: priv_eprom_read_def eprom_word)
qed

lemma read_dev_addr_mem:
  assumes "mem_ready type mem priv"
  shows "fst (run_state read_dev_addr priv) = [ucast (mem 7), ucast (drop_bit 8 (mem 7)), ucast (mem 8), ucast (drop_bit 8 (mem 8)),
      ucast (mem 9), ucast (drop_bit 8 (mem 9)) + 1]"
    "log_ext priv (exec read_dev_addr priv)"
proof -
  show "log_ext priv (exec read_dev_addr priv)" unfolding read_dev_addr_def by (intro log_ext_keeps keeps)
  have plus: "(ucast (x + 1 :: u32) :: u8) = ucast x + 1" for x
  proof -
    have "(y + 1) mod 4294967296 mod 256 = (y mod 4294967296 + 1) mod (256 :: int)" for y
    proof -
      have "(y + 1) mod 4294967296 mod 256 = (y + 1) mod (256 :: int)" by (rule mod_mod_cancel) simp
      also have "\<dots> = (y mod 256 + 1) mod 256" by (rule mod_add_left_eq [symmetric])
      also have "y mod 256 = y mod 4294967296 mod (256 :: int)" by (rule mod_mod_cancel [symmetric]) simp
      also have "(y mod 4294967296 mod 256 + 1) mod 256 = (y mod 4294967296 + 1) mod (256 :: int)" by (rule mod_add_left_eq)
      finally show ?thesis .
    qed
    then show ?thesis by transfer (simp add: take_bit_eq_mod)
  qed
  have w: "ucast (ucast (w :: u16) AND 0xff :: u32) = (ucast w :: u8)"
    "ucast (drop_bit 8 (ucast w AND 0xff00 :: u32)) = (ucast (drop_bit 8 w) :: u8)"
    "ucast (drop_bit 8 (ucast w AND 0xff00 :: u32) + 1) = (ucast (drop_bit 8 w) + 1 :: u8)" for w
  proof -
    show l: "ucast (ucast w AND 0xff :: u32) = (ucast w :: u8)" unfolding phy_masks by (rule bit_word_eqI) (simp add: bit_simps)
    show h: "ucast (drop_bit 8 (ucast w AND 0xff00 :: u32)) = (ucast (drop_bit 8 w) :: u8)"
      unfolding phy_masks by (rule bit_word_eqI) (simp add: bit_simps)
    show "ucast (drop_bit 8 (ucast w AND 0xff00 :: u32) + 1) = (ucast (drop_bit 8 w) + 1 :: u8)" unfolding plus h ..
  qed
  show "fst (run_state read_dev_addr priv) = [ucast (mem 7), ucast (drop_bit 8 (mem 7)), ucast (mem 8), ucast (drop_bit 8 (mem 8)),
      ucast (mem 9), ucast (drop_bit 8 (mem 9)) + 1]"
    unfolding read_dev_addr_def prog_steps using assms by (simp add: priv_eprom_word [of type mem] mem_ready_read w w [simplified])
qed

text \<open>The powers a word holds for the first and the second of its channels.\<close>

definition word_powers :: "u16 \<Rightarrow> (u8 \<times> u8) \<times> (u8 \<times> u8)" where
  "word_powers w = ((ucast (w AND 0xf), ucast (drop_bit 4 (w AND 0xf0))), (ucast (drop_bit 8 (w AND 0xf00)), ucast (drop_bit 12 (w AND 0xf000))))"

definition channel_powers :: "(nat \<Rightarrow> u16) \<Rightarrow> nat \<Rightarrow> u8 \<times> u8" where
  "channel_powers mem c =
     (let a = (if c \<le> 6 then 0x16 + (c - 1) div 2 else if c \<le> 10 then 0x3d + (c - 7) div 2 else 0x1b + (c - 11) div 2)
      in if odd c then fst (word_powers (mem a)) else snd (word_powers (mem a)))"

definition put_words :: "(nat \<Rightarrow> u16) \<Rightarrow> (nat \<times> u32) list \<Rightarrow> u8 list \<times> u8 list \<Rightarrow> u8 list \<times> u8 list" where
  "put_words mem xs p = fold (\<lambda>(c, a) (cck, ofdm). let ((c1, o1), (c2, o2)) = word_powers (mem (unat a))
     in (cck[c := c1, c + 1 := c2], ofdm[c := o1, c + 1 := o2])) xs p"

lemma read_txpw_mem:
  assumes "mem_ready type mem priv" "\<forall>x \<in> set xs. unat (snd x) < 64"
  shows "(pr_chtxpwr (exec (read_txpw xs) priv), pr_chtxpwr_ofdm (exec (read_txpw xs) priv)) =
      put_words mem xs (pr_chtxpwr priv, pr_chtxpwr_ofdm priv) \<and> mem_ready type mem (exec (read_txpw xs) priv)"
  using assms
proof (induction xs arbitrary: priv)
  case Nil
  then show ?case by (simp add: prog_steps put_words_def)
next
  case (Cons x xs)
  let ?p = "exec (priv_eprom_read (snd x)) priv"
  let ?w = "mem (unat (snd x))"
  have w: "fst (run_state (priv_eprom_read (snd x)) priv) = ucast ?w" by (rule priv_eprom_word) (use Cons.prems in auto)
  have e: "log_ext priv ?p" by (intro log_ext_keeps keeps)
  have u: "ucast (ucast ?w :: u32) = ?w" by (rule bit_word_eqI) (simp add: bit_simps)
  let ?q = "put_txpw (fst x) ?w ?p"
  have "mem_ready type mem ?q" using mem_ready_read [OF Cons.prems(1), of "snd x"] by (simp add: mem_ready_def eprom_wired_def put_txpw_def)
  note IH = Cons.IH [OF this]
  have run: "exec (read_txpw (x # xs)) priv = exec (read_txpw xs) ?q" by (simp add: prog_steps exec_update w u)
  have "put_words mem (x # xs) (pr_chtxpwr priv, pr_chtxpwr_ofdm priv) = put_words mem xs (pr_chtxpwr ?q, pr_chtxpwr_ofdm ?q)"
    by (simp add: put_words_def put_txpw_def word_powers_def log_ext_same [OF e] split_beta)
  then show ?case unfolding run using IH Cons.prems(2) by simp
qed

lemma put_words_channels:
  fixes mem :: "nat \<Rightarrow> u16"
  assumes "length cck = 15" "length ofdm = 15"
  defines "p \<equiv> put_words mem txpw_words (cck, ofdm)"
  shows "length (fst p) = 15 \<and> length (snd p) = 15 \<and> (\<forall>c \<in> {1..14}. (fst p ! c, snd p ! c) = channel_powers mem c)"
proof -
  have "{1..14} = set [1..<15 :: nat]" by auto
  also have "[1..<15] = [1, 2, 3, 4, 5, 6, 7, 8, 9, 10, 11, 12, 13, 14 :: nat]" by (simp add: upt_rec)
  finally show ?thesis
    using assms(1,2) unfolding p_def put_words_def txpw_words_def
    by (simp add: split_beta channel_powers_def Let_def del: One_nat_def)
qed

lemma init_plan_mem:
  assumes "eprom_wired (eprom_addr_len type) mem priv"
    and "bit (nic_answer priv (nic_log priv) 0xff44 4) 6 \<longleftrightarrow> type = EPROM_93c56"
  shows "fst (run_state init_plan priv) = ucast (mem 3)" "mem_ready type mem (exec init_plan priv)"
    "power_tables (exec init_plan priv) \<longleftrightarrow> power_tables priv"
proof -
  let ?p = "exec read_epromtype priv"
  have sel: "0x40 AND r \<noteq> (0 :: u32) \<longleftrightarrow> bit r 6" for r
  proof -
    have "(0x40 :: u32) = push_bit 6 1" by simp
    then show ?thesis unfolding and.commute [of "0x40"] by (simp only: and_exp_eq_0_iff_not_bit push_bit_eq_mult mult_1 not_not)
  qed
  have p: "?p = priv\<lparr>nic_log := Nic_Read 0xff44 4 # nic_log priv, pr_epromtype := type\<rparr>"
    using assms(2) by (cases type) (simp_all add: read_epromtype_def prog_steps read_nic_dword_def exec_def sel State_Monad.update_def)
  have r: "mem_ready type mem ?p" using assms(1) by (simp add: p mem_ready_def eprom_wired_def)
  have e: "log_ext ?p (exec (priv_eprom_read 3) ?p)" by (intro log_ext_keeps keeps)
  have w: "fst (run_state (priv_eprom_read 3) ?p) = ucast (mem 3)" using priv_eprom_word [OF r, of 3] by simp
  show "fst (run_state init_plan priv) = ucast (mem 3)"
    unfolding init_plan_def prog_steps w phy_masks by (rule bit_word_eqI) (simp add: bit_simps)
  show "mem_ready type mem (exec init_plan priv)" "power_tables (exec init_plan priv) \<longleftrightarrow> power_tables priv"
    unfolding init_plan_def prog_steps using mem_ready_read [OF r] power_tables_ext [OF e] by (simp_all add: p power_tables_def)
qed

lemma init_addr_power_mem:
  assumes "mem_ready type mem priv" "power_tables priv"
  defines "priv' \<equiv> exec init_addr_power priv"
  shows "fst (run_state init_addr_power priv) = [ucast (mem 7), ucast (drop_bit 8 (mem 7)), ucast (mem 8), ucast (drop_bit 8 (mem 8)),
      ucast (mem 9), ucast (drop_bit 8 (mem 9)) + 1]"
    and "power_tables priv'" and "\<forall>c \<in> {1..14}. (pr_chtxpwr priv' ! c, pr_chtxpwr_ofdm priv' ! c) = channel_powers mem c"
proof -
  let ?p1 = "exec read_dev_addr priv"
  let ?p2 = "exec (read_txpw txpw_words) ?p1"
  have e: "log_ext priv ?p1" by (rule read_dev_addr_mem(2) [OF assms(1)])
  have m1: "mem_ready type mem ?p1" using assms(1) mem_ready_ext [OF e] by simp
  have "\<forall>x \<in> set txpw_words. unat (snd x) < 64" by (simp add: txpw_words_def)
  from read_txpw_mem [OF m1 this] have p2:
    "(pr_chtxpwr ?p2, pr_chtxpwr_ofdm ?p2) = put_words mem txpw_words (pr_chtxpwr priv, pr_chtxpwr_ofdm priv)"
    by (simp add: log_ext_same [OF e])
  have "length (pr_chtxpwr priv) = 15" "length (pr_chtxpwr_ofdm priv) = 15" using assms(2) by (simp_all add: power_tables_def)
  from put_words_channels [OF this, of mem, folded p2] have t: "power_tables ?p2"
    "\<forall>c \<in> {1..14}. (pr_chtxpwr ?p2 ! c, pr_chtxpwr_ofdm ?p2 ! c) = channel_powers mem c" by (simp_all add: power_tables_def)
  have same: "pr_chtxpwr priv' = pr_chtxpwr ?p2" "pr_chtxpwr_ofdm priv' = pr_chtxpwr_ofdm ?p2"
  proof -
    have k: "log_ext q (exec (priv_eprom_read a) q)" for q :: "'a r8187_scheme" and a by (intro log_ext_keeps keeps)
    show "pr_chtxpwr priv' = pr_chtxpwr ?p2" "pr_chtxpwr_ofdm priv' = pr_chtxpwr_ofdm ?p2"
      unfolding priv'_def init_addr_power_def prog_steps exec_update by (simp_all add: log_ext_same [OF k])
  qed
  show "fst (run_state init_addr_power priv) = [ucast (mem 7), ucast (drop_bit 8 (mem 7)), ucast (mem 8), ucast (drop_bit 8 (mem 8)),
      ucast (mem 9), ucast (drop_bit 8 (mem 9)) + 1]"
    unfolding init_addr_power_def prog_steps by (rule read_dev_addr_mem(1) [OF assms(1)])
  show "power_tables priv'" "\<forall>c \<in> {1..14}. (pr_chtxpwr priv' ! c, pr_chtxpwr_ofdm priv' ! c) = channel_powers mem c"
    using t unfolding power_tables_def same by simp_all
qed

text \<open>The radio's part touches neither.\<close>

lemma init_radio_same:
  "pr_chtxpwr (exec rtl8180_init_radio priv) = pr_chtxpwr priv \<and> pr_chtxpwr_ofdm (exec rtl8180_init_radio priv) = pr_chtxpwr_ofdm priv \<and>
   pr_cck_txpwr_base (exec rtl8180_init_radio priv) = pr_cck_txpwr_base priv \<and> pr_ofdm_txpwr_base (exec rtl8180_init_radio priv) = pr_ofdm_txpwr_base priv"
proof (cases "pr_rf_chip priv = 5")
  case True
  have e: "log_ext priv (exec rtl8225_is_V_z2 priv)" by (intro log_ext_keeps keeps)
  have g: "run_state State_Monad.get priv = (priv, priv)" "exec State_Monad.get priv = priv" by (simp_all add: exec_def)
  show ?thesis using True by (simp add: rtl8180_init_radio_def prog_steps exec_update g log_ext_same [OF e])
next
  case False
  have g: "run_state State_Monad.get priv = (priv, priv)" "exec State_Monad.get priv = priv" by (simp_all add: exec_def)
  show ?thesis using False by (simp add: rtl8180_init_radio_def prog_steps g)
qed

section \<open>Probing\<close>

text \<open>What \<open>rtl8180_init\<close> leaves, whatever the device answers.\<close>

lemma put_txpw_same: "length (pr_chtxpwr (put_txpw c w priv)) = length (pr_chtxpwr priv)"
  "length (pr_chtxpwr_ofdm (put_txpw c w priv)) = length (pr_chtxpwr_ofdm priv)"
  by (simp_all add: put_txpw_def)

lemma read_txpw_tables: "power_tables (exec (read_txpw xs) priv) \<longleftrightarrow> power_tables priv"
proof (induction xs arbitrary: priv)
  case Nil
  then show ?case by (simp add: prog_steps)
next
  case (Cons x xs)
  then show ?case by (simp add: prog_steps exec_update power_tables_def put_txpw_same keeps_same keeps)
qed

lemma keeps_dev_addr [keeps]: "nic_keeps read_dev_addr"
  unfolding read_dev_addr_def by (intro keeps)

lemma init_tables:
  "power_tables (exec init_plan priv) \<longleftrightarrow> power_tables priv"
  "power_tables (exec init_addr_power priv) \<longleftrightarrow> power_tables priv"
  "power_tables (exec rtl8180_init_radio priv) \<longleftrightarrow> power_tables priv"
proof -
  show "power_tables (exec init_plan priv) \<longleftrightarrow> power_tables priv"
    unfolding init_plan_def read_epromtype_def prog_steps exec_update
    by (simp add: power_tables_def keeps_same keeps)
  have "power_tables (exec (read_txpw txpw_words) (exec read_dev_addr priv)) \<longleftrightarrow> power_tables priv"
    by (simp add: read_txpw_tables) (simp add: power_tables_def keeps_same keeps)
  then show "power_tables (exec init_addr_power priv) \<longleftrightarrow> power_tables priv"
    unfolding init_addr_power_def prog_steps exec_update power_tables_def by (simp add: keeps_same keeps)
  show "power_tables (exec rtl8180_init_radio priv) \<longleftrightarrow> power_tables priv"
    using init_radio_same [of priv] by (simp add: power_tables_def)
qed

text \<open>The parts of a successful initialisation.\<close>

lemma rtl8180_init_ok:
  assumes "rtl8180_init al channels sd priv = Some (0, sd', priv')"
  defines "p0 \<equiv> exec (read_nic_dword TX_CONF) (priv\<lparr>pr_retry_rts := 7, pr_retry_data := 7, pr_InitialGain := 0, pr_StageCCKTh := 0, pr_card_type := USB\<rparr>)"
  defines "p1 \<equiv> exec init_plan p0"
  shows "init_channel_map channels (fst (run_state init_plan p0)) (sd_channel_map sd) = Some (0, sd_channel_map sd')"
    and "sd_dev_addr sd' = fst (run_state init_addr_power p1)"
    and "priv' = exec (read_nic_byte CONFIG2) (exec rtl8180_init_radio (exec init_addr_power p1))"
proof -
  note d = assms(1) [unfolded rtl8180_init_def Let_def split_beta exec_def [symmetric] p0_def [symmetric], folded p1_def]
  have m: "sd_channel_map (init_defaults sd) = sd_channel_map sd" by (simp add: init_defaults_def)
  obtain r cm where rc: "init_channel_map channels (fst (run_state init_plan p0)) (sd_channel_map sd) = Some (r, cm)"
    using d unfolding m by (cases "init_channel_map channels (fst (run_state init_plan p0)) (sd_channel_map sd)") auto
  show "init_channel_map channels (fst (run_state init_plan p0)) (sd_channel_map sd) = Some (0, sd_channel_map sd')"
    "sd_dev_addr sd' = fst (run_state init_addr_power p1)"
    "priv' = exec (read_nic_byte CONFIG2) (exec rtl8180_init_radio (exec init_addr_power p1))"
    using d rc unfolding m by (auto split: if_splits bind_splits)
qed

lemma init_start:
  fixes priv :: "'z r8187_scheme"
  defines "p0 \<equiv> exec (read_nic_dword TX_CONF) (priv\<lparr>pr_retry_rts := 7, pr_retry_data := 7, pr_InitialGain := 0, pr_StageCCKTh := 0, pr_card_type := USB\<rparr>)"
  shows "eprom_wired alen mem p0 \<longleftrightarrow> eprom_wired alen mem priv" "power_tables p0 \<longleftrightarrow> power_tables priv" "nic_answer p0 = nic_answer priv"
proof -
  let ?p = "priv\<lparr>pr_retry_rts := 7, pr_retry_data := 7, pr_InitialGain := 0, pr_StageCCKTh := 0, pr_card_type := USB\<rparr>"
  have e: "log_ext ?p p0" unfolding p0_def by (intro log_ext_keeps keeps)
  show "eprom_wired alen mem p0 \<longleftrightarrow> eprom_wired alen mem priv" "nic_answer p0 = nic_answer priv"
    by (simp_all add: eprom_wired_def log_ext_same [OF e])
  show "power_tables p0 \<longleftrightarrow> power_tables priv" unfolding power_tables_ext [OF e] by (simp add: power_tables_def)
qed

lemma init_addr_power_base:
  assumes "mem_ready type mem priv"
  defines "priv' \<equiv> exec init_addr_power priv"
  shows "pr_cck_txpwr_base priv' = ucast (mem 5 AND 0xf)" "pr_ofdm_txpwr_base priv' = ucast (drop_bit 4 (mem 5) AND 0xf)"
proof -
  let ?p2 = "exec (read_txpw txpw_words) (exec read_dev_addr priv)"
  have "mem_ready type mem (exec read_dev_addr priv)" using assms mem_ready_ext [OF read_dev_addr_mem(2) [OF assms(1)]] by simp
  moreover have "\<forall>x \<in> set txpw_words. unat (snd x) < 64" by (simp add: txpw_words_def)
  ultimately have m2: "mem_ready type mem ?p2" using read_txpw_mem by blast
  define p3 where "p3 = (exec (priv_eprom_read 6) ?p2)\<lparr>pr_rf_chip := unat (0xff AND fst (run_state (priv_eprom_read 6) ?p2))\<rparr>"
  have m3: "mem_ready type mem p3" using mem_ready_read [OF m2, of 6] by (simp add: p3_def mem_ready_def eprom_wired_def)
  from priv_eprom_word [OF m3, of 5] have b: "fst (run_state (priv_eprom_read 5) p3) = ucast (mem 5)" by simp
  have w: "(ucast (ucast (w :: u16) AND 0xf :: u32) :: u8) = ucast (w AND 0xf)"
    "(ucast (drop_bit 4 (ucast w :: u32) AND 0xf) :: u8) = ucast (drop_bit 4 w AND 0xf)" for w
    unfolding phy_masks by (rule bit_word_eqI; simp add: bit_simps)+
  have "priv' = (exec (priv_eprom_read 5) p3)\<lparr>pr_cck_txpwr_base := ucast (ucast (mem 5) AND 0xf :: u32),
      pr_ofdm_txpwr_base := ucast (drop_bit 4 (ucast (mem 5) :: u32) AND 0xf)\<rparr>"
    unfolding priv'_def init_addr_power_def prog_steps exec_update p3_def [symmetric] b ..
  then show "pr_cck_txpwr_base priv' = ucast (mem 5 AND 0xf)" "pr_ofdm_txpwr_base priv' = ucast (drop_bit 4 (mem 5) AND 0xf)"
    by (simp_all add: w)
qed

text \<open>C33: Probing reads the configuration memory as it was written, for either chip: the six bytes of the address (with one
  added to the last one), for each of the fourteen channels the two nibbles of its transmit powers, from the
  three places the memory keeps them in, and the base of either power.\<close>

theorem init_reads_memory:
  assumes wired: "eprom_wired (eprom_addr_len type) mem priv" and sel: "\<forall>xs. bit (nic_answer priv xs 0xff44 4) 6 \<longleftrightarrow> type = EPROM_93c56"
    and tables: "power_tables priv" and init: "rtl8180_init al channels sd priv = Some (0, sd', priv')"
  shows "sd_dev_addr sd' = [ucast (mem 7), ucast (drop_bit 8 (mem 7)), ucast (mem 8), ucast (drop_bit 8 (mem 8)),
      ucast (mem 9), ucast (drop_bit 8 (mem 9)) + 1] \<and>
    (\<forall>c \<in> {1..14}. (pr_chtxpwr priv' ! c, pr_chtxpwr_ofdm priv' ! c) = channel_powers mem c) \<and>
    pr_cck_txpwr_base priv' = ucast (mem 5 AND 0xf) \<and> pr_ofdm_txpwr_base priv' = ucast (drop_bit 4 (mem 5) AND 0xf)"
proof -
  let ?p0 = "exec (read_nic_dword TX_CONF) (priv\<lparr>pr_retry_rts := 7, pr_retry_data := 7, pr_InitialGain := 0, pr_StageCCKTh := 0, pr_card_type := USB\<rparr>)"
  note w = init_start [where priv = priv]
  note p = rtl8180_init_ok [OF init]
  have "mem_ready type mem (exec init_plan ?p0)" by (rule init_plan_mem(2)) (use wired sel in \<open>simp_all add: w\<close>)
  note a = init_addr_power_mem [OF this] init_addr_power_base [OF this]
  have e: "log_ext q (exec (read_nic_byte CONFIG2) q)" for q :: "'a r8187_scheme" by (intro log_ext_keeps keeps)
  show ?thesis
    using a tables w(2) init_tables(1) [of ?p0] unfolding p(2,3) by (simp add: log_ext_same [OF e] init_radio_same)
qed

lemma init_addr_power_chip:
  assumes "mem_ready type mem priv"
  shows "pr_rf_chip (exec init_addr_power priv) = unat (0xff AND (ucast (mem 6) :: u32))"
proof -
  let ?p2 = "exec (read_txpw txpw_words) (exec read_dev_addr priv)"
  have "mem_ready type mem (exec read_dev_addr priv)" using assms mem_ready_ext [OF read_dev_addr_mem(2) [OF assms]] by simp
  moreover have "\<forall>x \<in> set txpw_words. unat (snd x) < 64" by (simp add: txpw_words_def)
  ultimately have "mem_ready type mem ?p2" using read_txpw_mem by blast
  from priv_eprom_word [OF this, of 6] have chip: "fst (run_state (priv_eprom_read 6) ?p2) = ucast (mem 6)" by simp
  have k: "pr_rf_chip (exec (priv_eprom_read a) q) = pr_rf_chip q" for a and q :: "'a r8187_scheme"
    by (rule log_ext_same(6) [OF log_ext_keeps [OF keeps_priv_eprom_read]])
  show ?thesis unfolding init_addr_power_def prog_steps exec_update by (simp add: chip k)
qed

text \<open>A board: address, powers and the radio's number in its memory, and no plan of its own.\<close>

definition board_mem :: "nat \<Rightarrow> u16" where
  "board_mem i = (if i = 3 then 0 else if i = 6 then 5 else word_of_nat (0x1100 + i))"

definition board_example :: r8187 where
  "board_example = \<lparr>nic_log = [],
     nic_answer = (\<lambda>xs a len. if a = 0xff50 \<and> len = 1 then chip_answer 6 board_mem xs else 0),
     pr_card_type = PCI, pr_epromtype = EPROM_93c56, pr_irq_mask = 0, pr_chan = 0, pr_sens = 0,
     pr_chtxpwr = replicate 15 0, pr_chtxpwr_ofdm = replicate 15 0, pr_cck_txpwr_base = 0, pr_ofdm_txpwr_base = 0, pr_crcmon = False,
     pr_rf_chip = 0, pr_rf_calls = RF_CALLS_8225, pr_retry_data = 0, pr_retry_rts = 0, pr_tx_urb_index = 0,
     pr_InitialGain = 0, pr_StageCCKTh = 0\<rparr>"

lemma board_example_facts:
  "eprom_wired (eprom_addr_len EPROM_93c46) board_mem board_example"
  "\<forall>xs. bit (nic_answer board_example xs 0xff44 4) 6 \<longleftrightarrow> EPROM_93c46 = EPROM_93c56"
  "power_tables board_example"
  by (simp_all add: board_example_def eprom_wired_def eprom_addr_len_def power_tables_def)

lemma board_example_init: "\<exists>sd' priv'. rtl8180_init (\<lambda>_. True) 0x3fff sta_example board_example = Some (0, sd', priv')"
proof -
  let ?p0 = "exec (read_nic_dword TX_CONF) (board_example\<lparr>pr_retry_rts := 7, pr_retry_data := 7, pr_InitialGain := 0, pr_StageCCKTh := 0, pr_card_type := USB\<rparr>)"
  note w = init_start [where priv = board_example]
  have i: "eprom_wired (eprom_addr_len EPROM_93c46) board_mem ?p0" "bit (nic_answer ?p0 (nic_log ?p0) 0xff44 4) 6 \<longleftrightarrow> EPROM_93c46 = EPROM_93c56"
    using board_example_facts unfolding w by simp_all
  note p = init_plan_mem [OF i]
  have plan: "fst (run_state init_plan ?p0) = 0" unfolding p(1) by (simp add: board_mem_def)
  have chip: "pr_rf_chip (exec init_addr_power (exec init_plan ?p0)) = 5"
    unfolding init_addr_power_chip [OF p(2)] by (simp add: board_mem_def)
  have "fst (run_state rtl8180_init_radio q) = 0" if "pr_rf_chip q = 5" for q :: r8187
    using that by (simp add: rtl8180_init_radio_def split: prod.split)
  note r = this [OF chip]
  have m: "init_channel_map 0x3fff 0 cm = Some (0, channel_bits [1..<15] 0x3fff cm)" for cm by (simp add: init_channel_map_def)
  obtain ep where e: "rtl8187_usb_initendpoints (\<lambda>_. True) endpoints_none = Some (0, ep)" using initendpoints_ok [of "\<lambda>_. True"] by auto
  show ?thesis
    unfolding rtl8180_init_def Let_def split_beta exec_def [symmetric] plan m using r e by simp
qed

theorem init_reads_memory_witness:
  "\<exists>sd' priv'. rtl8180_init (\<lambda>_. True) 0x3fff sta_example board_example = Some (0, sd', priv') \<and>
     sd_dev_addr sd' = [0x07, 0x11, 0x08, 0x11, 0x09, 0x12] \<and> pr_chtxpwr priv' ! 11 = 0xb \<and> pr_chtxpwr_ofdm priv' ! 9 = 3 \<and>
     pr_cck_txpwr_base priv' = 5 \<and> pr_ofdm_txpwr_base priv' = 0"
proof -
  obtain sd' priv' where i: "rtl8180_init (\<lambda>_. True) 0x3fff sta_example board_example = Some (0, sd', priv')" using board_example_init by blast
  from init_reads_memory [OF board_example_facts i] have a:
    "sd_dev_addr sd' = [ucast (board_mem 7), ucast (drop_bit 8 (board_mem 7)), ucast (board_mem 8), ucast (drop_bit 8 (board_mem 8)),
      ucast (board_mem 9), ucast (drop_bit 8 (board_mem 9)) + 1]"
    "(pr_chtxpwr priv' ! 11, pr_chtxpwr_ofdm priv' ! 11) = channel_powers board_mem 11"
    "(pr_chtxpwr priv' ! 9, pr_chtxpwr_ofdm priv' ! 9) = channel_powers board_mem 9"
    "pr_cck_txpwr_base priv' = ucast (board_mem 5 AND 0xf)" "pr_ofdm_txpwr_base priv' = ucast (drop_bit 4 (board_mem 5) AND 0xf)" by simp_all
  from a(4,5) have b: "pr_cck_txpwr_base priv' = 5" "pr_ofdm_txpwr_base priv' = 0" by (simp_all add: board_mem_def)
  from a(2,3) have "pr_chtxpwr priv' ! 11 = 0xb" "pr_chtxpwr_ofdm priv' ! 9 = 3"
    by (simp_all add: channel_powers_def word_powers_def board_mem_def)
  then show ?thesis using i a(1) b by (simp add: board_mem_def)
qed

text \<open>C7: However the device answers, a successful probe leaves the driver able to start: \<open>rtl8180_adapter_start\<close> stays inside
  every table of either radio, with any sensitivity, and ends on channel one.  From then on setting a channel
  is defined exactly for 0 to 14: nothing in the driver checks the number it is given.\<close>

theorem probe_then_start:
  assumes "power_tables priv" and "rtl8180_init al channels sd priv = Some (0, sd', priv')"
  shows "\<exists>priv''. rtl8180_adapter_start mode sd' priv' = Some priv'' \<and> pr_chan priv'' = 1 \<and>
    (\<forall>sd ch. rtl8180_set_chan sd ch priv'' = None \<longleftrightarrow> ch < 0 \<or> ch > 14)"
proof -
  have e: "power_tables (exec (read_nic_byte CONFIG2) q) \<longleftrightarrow> power_tables q" for q :: "'a r8187_scheme"
    by (intro power_tables_ext log_ext_keeps keeps)
  have "power_tables priv'" using assms(1) unfolding rtl8180_init_ok(3) [OF assms(2)] e init_tables init_start(2) .
  from adapter_start_total [OF this, of mode sd'] obtain p where
    p: "rtl8180_adapter_start mode sd' priv' = Some p" "power_tables p" "pr_chan p = 1" by blast
  have "rtl8180_set_chan sd ch p = None \<longleftrightarrow> ch < 0 \<or> ch > 14" for sd ch
  proof (cases "ch < 0 \<or> ch > 14")
    case True
    then show ?thesis using rtl8180_set_chan_outside [OF p(2)] by simp
  next
    case False
    then show ?thesis using rtl8180_set_chan_total [OF p(2), of ch sd] by (auto simp: not_less)
  qed
  with p show ?thesis by blast
qed

theorem probe_then_start_witness:
  "\<exists>sd' priv' priv''. rtl8180_init (\<lambda>_. True) 0x3fff sta_example board_example = Some (0, sd', priv') \<and>
     rtl8180_adapter_start 6 sd' priv' = Some priv'' \<and> rtl8180_set_chan sd' 200 priv'' = None"
proof -
  obtain sd' priv' where i: "rtl8180_init (\<lambda>_. True) 0x3fff sta_example board_example = Some (0, sd', priv')" using board_example_init by blast
  from probe_then_start [OF board_example_facts(3) i, of 6] show ?thesis using i by fastforce
qed
end
