(* ===== verification/Channels.thy ===== *)
theory Channels
  imports Probe Softmac_Scan
begin

text \<open>
  Where channel numbers come from and where they go: the plan of the configuration memory, the scan, the beacon of a
  network, and the tables of the radio that end at channel fourteen.
\<close>

section \<open>The plan\<close>

lemma allow_channels_Some:
  "(\<forall>c \<in> set cs. c < length cm) \<Longrightarrow>
     \<exists>cm'. allow_channels cs cm = Some cm' \<and> length cm' = length cm \<and> (\<forall>c < length cm. cm' ! c \<longleftrightarrow> cm ! c \<or> c \<in> set cs)"
proof (induction cs arbitrary: cm)
  case (Cons c cs)
  have "\<forall>d \<in> set cs. d < length (cm[c := True])" using Cons.prems by simp
  from Cons.IH [OF this] Cons.prems show ?case by (auto simp: nth_list_update)
qed simp

lemma allow_channels_None: "c \<in> set cs \<Longrightarrow> length cm \<le> c \<Longrightarrow> allow_channels cs cm = None"
  by (induction cs arbitrary: cm) auto

lemma plans: "length DefaultChannelPlan = 9" "\<forall>i < 9. DefaultChannelPlan ! i \<noteq> [] \<and> (\<forall>c \<in> set (DefaultChannelPlan ! i). c < 162 \<or> i = 0)"
  "165 \<in> set (DefaultChannelPlan ! 0)" "36 \<in> set (DefaultChannelPlan ! 2)"
proof -
  show "length DefaultChannelPlan = 9" "165 \<in> set (DefaultChannelPlan ! 0)" "36 \<in> set (DefaultChannelPlan ! 2)"
    by (simp_all add: DefaultChannelPlan_def)
  have "[0..<9] = [0, 1, 2, 3, 4, 5, 6, 7, 8 :: nat]" by (simp add: upt_rec)
  then have "\<forall>i \<in> set [0..<9]. DefaultChannelPlan ! i \<noteq> [] \<and> (\<forall>c \<in> set (DefaultChannelPlan ! i). c < 162 \<or> i = 0)"
    by (simp add: DefaultChannelPlan_def del: set_upt)
  then have "\<forall>i \<in> {0..<9}. DefaultChannelPlan ! i \<noteq> [] \<and> (\<forall>c \<in> set (DefaultChannelPlan ! i). c < 162 \<or> i = 0)"
    unfolding set_upt .
  then show "\<forall>i < 9. DefaultChannelPlan ! i \<noteq> [] \<and> (\<forall>c \<in> set (DefaultChannelPlan ! i). c < 162 \<or> i = 0)" by simp
qed

lemma plan_2: "\<forall>c \<in> set (DefaultChannelPlan ! 2). c < 162"
  by (simp add: DefaultChannelPlan_def)

text \<open>C34: The channel plan that the memory names is entered into the map of allowed channels exactly, except that plan 0
  holds channel 165 and writes beyond the map's 162 entries, and that an index from 9 on is looked up in
  the table of nine plans before it is refused.\<close>

theorem channel_plan_written:
  assumes "length cm = 162" and "idx AND 0x80 \<noteq> 0"
  defines "i \<equiv> unat (idx AND 0x7f :: u8)"
  shows "(init_channel_map channels idx cm = None \<longleftrightarrow> i = 0 \<or> 9 \<le> i) \<and>
    (0 < i \<and> i < 9 \<longrightarrow> (\<exists>cm'. init_channel_map channels idx cm = Some (0, cm') \<and> length cm' = 162 \<and>
      (\<forall>c < 162. cm' ! c \<longleftrightarrow> cm ! c \<or> c \<in> set (DefaultChannelPlan ! i))))"
proof -
  have u: "uint (idx AND 0x7f) = int i" by (simp add: i_def)
  have e: "init_channel_map channels idx cm = tab DefaultChannelPlan (int i) \<bind>
      (\<lambda>plan. if length plan \<noteq> 0 then map_option (Pair 0) (allow_channels plan cm) else Some (- 1, cm))"
    using assms(2) u by (simp add: init_channel_map_def)
  consider "i = 0" | "0 < i" "i < 9" | "9 \<le> i" by linarith
  then show ?thesis
  proof cases
    case 1
    have "allow_channels (DefaultChannelPlan ! 0) cm = None" using allow_channels_None [OF plans(3)] assms(1) by simp
    then show ?thesis using 1 plans(2) unfolding e by (simp add: tab_def plans(1))
  next
    case 2
    then have "DefaultChannelPlan ! i \<noteq> []" "\<forall>c \<in> set (DefaultChannelPlan ! i). c < length cm" using plans(2) assms(1) by auto
    with allow_channels_Some [OF this(2)] 2 assms(1) show ?thesis unfolding e by (auto simp: tab_def plans(1))
  next
    case 3
    then show ?thesis unfolding e by (simp add: tab_def plans(1))
  qed
qed

theorem channel_plan_written_witness:
  "init_channel_map 0x3fff 0x80 (replicate 162 False) = None \<and>
   (\<exists>cm'. init_channel_map 0x3fff 0x83 (replicate 162 False) = Some (0, cm') \<and> cm' ! 13 \<and> \<not> cm' ! 14)"
proof -
  have "init_channel_map 0x3fff 0x80 (replicate 162 False) = None"
    using channel_plan_written [of "replicate 162 False" "0x80" "0x3fff"] by simp
  moreover have "\<exists>cm'. init_channel_map 0x3fff 0x83 (replicate 162 False) = Some (0, cm') \<and> cm' ! 13 \<and> \<not> cm' ! 14"
    using channel_plan_written [of "replicate 162 False" "0x83" "0x3fff"] by (auto simp: DefaultChannelPlan_def)
  ultimately show ?thesis by simp
qed

section \<open>From the plan to the radio\<close>

text \<open>With a plan that names channels of the 5 GHz band the driver's own scan leaves the tables of the radio: within
  161 runs of its work the soft MAC sets channel 36, which \<open>rtl8180_set_chan\<close> takes as an index into tables
  of fifteen entries.\<close>

theorem plan_scan_overruns:
  assumes "init_channel_map channels 0x82 cm = Some (0, sd_channel_map sd)" and "length cm = 162"
    and "sta_wf sd" and "sd_scanning sd \<noteq> 0" and "sd_scan_watchdog sd = 0" and "power_tables priv"
  shows "\<exists>k sd'. k \<le> 161 \<and> scan_runs al k sd = Some sd' \<and> Set_Chan 36 \<in> set (sd_out sd') \<and>
    rtl8180_set_chan sd' 36 priv = None"
proof -
  have e: "init_channel_map channels 0x82 cm = map_option (Pair 0) (allow_channels (DefaultChannelPlan ! 2) cm)"
    using plans(2) by (auto simp: init_channel_map_def tab_def plans(1))
  have "\<forall>c \<in> set (DefaultChannelPlan ! 2). c < length cm" using plan_2 assms(2) by simp
  from allow_channels_Some [OF this] have "sd_channel_map sd ! 36" using assms(1,2) plans(4) unfolding e by auto
  from scan_visits [OF assms(3-5) _ this, of al] obtain k sd' xs
    where "k \<le> 161" "scan_runs al k sd = Some sd'" "sd_out sd' = sd_out sd @ xs" "Set_Chan 36 \<in> set xs" by auto
  moreover have "rtl8180_set_chan sd' 36 priv = None" by (rule rtl8180_set_chan_outside [OF assms(6)]) simp
  ultimately show ?thesis by auto
qed

definition sta_world :: station where
  "sta_world = sta_example\<lparr>sd_scanning := 1,
     sd_channel_map := snd (the (init_channel_map 0x3fff 0x82 (replicate 162 False)))\<rparr>"

theorem plan_scan_overruns_witness:
  "\<exists>k sd'. k \<le> 161 \<and> scan_runs True k sta_world = Some sd' \<and> Set_Chan 36 \<in> set (sd_out sd') \<and>
    rtl8180_set_chan sd' 36 board_example = None"
proof -
  let ?cm = "replicate 162 False"
  have e: "init_channel_map 0x3fff 0x82 ?cm = map_option (Pair 0) (allow_channels (DefaultChannelPlan ! 2) ?cm)"
    using plans(2) by (auto simp: init_channel_map_def tab_def plans(1))
  have "\<forall>c \<in> set (DefaultChannelPlan ! 2). c < length ?cm" using plan_2 by simp
  from allow_channels_Some [OF this] obtain cm' where c: "init_channel_map 0x3fff 0x82 ?cm = Some (0, cm')" "length cm' = 162"
    unfolding e by auto
  have s: "sta_wf sta_world" "sd_scanning sta_world \<noteq> 0" "sd_scan_watchdog sta_world = 0"
    "init_channel_map 0x3fff 0x82 ?cm = Some (0, sd_channel_map sta_world)"
    using c by (simp_all add: sta_world_def sta_example_def sta_wf_def cell_example_def cell_wf_def network_wf_def network_arrays_def
        network_lengths_def network_blank_def)
  from plan_scan_overruns [OF s(4) _ s(1-3) board_example_facts(3), of True] show ?thesis by simp
qed

section \<open>From a beacon to the radio\<close>

text \<open>The name and the channel of a beacon, whatever elements follow.\<close>

lemma fold_ie_place:
  assumes "\<forall>e \<in> set es. fst e \<notin> {0, 3}"
  shows "nw_channel (fold (ie_apply en) es n) = nw_channel n" "nw_ssid (fold (ie_apply en) es n) = nw_ssid n"
    "nw_ssid_len (fold (ie_apply en) es n) = nw_ssid_len n" "nw_bssid (fold (ie_apply en) es n) = nw_bssid n"
proof -
  have "nw_channel (fold (ie_apply en) es n) = nw_channel n \<and> nw_ssid (fold (ie_apply en) es n) = nw_ssid n \<and>
    nw_ssid_len (fold (ie_apply en) es n) = nw_ssid_len n \<and> nw_bssid (fold (ie_apply en) es n) = nw_bssid n"
    using assms
  proof (induction es arbitrary: n)
    case (Cons e es)
    obtain i d where e: "e = (i, d)" "i \<noteq> 0" "i \<noteq> 3" using Cons.prems by (cases e) auto
    have "nw_channel (ie_apply en e n) = nw_channel n \<and> nw_ssid (ie_apply en e n) = nw_ssid n \<and>
        nw_ssid_len (ie_apply en e n) = nw_ssid_len n \<and> nw_bssid (ie_apply en e n) = nw_bssid n"
      using e by (simp add: ie_apply_def Let_def)
    then show ?case using Cons by simp
  qed simp
  then show "nw_channel (fold (ie_apply en) es n) = nw_channel n" "nw_ssid (fold (ie_apply en) es n) = nw_ssid n"
    "nw_ssid_len (fold (ie_apply en) es n) = nw_ssid_len n" "nw_bssid (fold (ie_apply en) es n) = nw_bssid n" by simp_all
qed

lemma named_beacon_read:
  assumes addr: "length da = 6" "length sa = 6" "length bssid = 6" "length seq = 2" and stack: "network_arrays stack"
    and name: "\<not> essid_hidden name" "length name \<le> 32" and es: "\<forall>e \<in> set es. fst e \<notin> {0, 3} \<and> ie_ok (unat (en_assoc_id en)) e"
    and f: "f = beacon_bytes 0x0080 da sa bssid seq ts interval capability ((0, name) # (3, [ch]) # es)"
    and len: "unat (rs_len (en_stats en)) = length f" "rs_freq (en_stats en) = BAND_24GHZ"
  shows "\<exists>n. ieee80211_network_init j en (f @ tail) stack = Some (0, n) \<and> nw_capability n = capability \<and> nw_channel n = ch \<and> nw_bssid n = bssid \<and>
    unat (nw_ssid_len n) = length name \<and> take (length name) (nw_ssid n) = name"
proof -
  let ?b = "network_begin j (en_stats en) bssid ts interval capability stack"
  let ?n = "network_end (en_stats en) (fold (ie_apply en) ((0, name) # (3, [ch]) # es) ?b)"
  have ok: "\<forall>e \<in> set ((0, name) # (3, [ch]) # es). ie_ok (unat (en_assoc_id en)) e" using name(2) es by (simp add: ie_ok_def)
  have "ieee80211_network_init j en (f @ tail) stack = Some (0, ?n)"
    using network_init_spec [OF addr ok _ stack] len(1) unfolding f by blast
  moreover have "nw_capability ?n = capability" by (rule network_end_capability)
  moreover have p: "\<forall>e \<in> set es. fst e \<notin> {0, 3}" using es by blast
  have v: "nw_channel ?n = ch" "nw_bssid ?n = bssid" "nw_ssid_len ?n = word_of_nat (length name)"
    "nw_ssid ?n = take 32 (name @ replicate 32 0) @ drop 32 (nw_ssid ?b)"
    using name len(2) by (simp_all add: network_end_def fold_ie_place [OF p]) (simp_all add: ie_apply_def network_begin_def Let_def)
  moreover have "unat (nw_ssid_len ?n) = length name"
    unfolding v(3) using name(2) by (simp add: unat_of_nat take_bit_nat_eq_self)
  moreover have "take (length name) (nw_ssid ?n) = name" unfolding v(4) using name(2) by simp
  ultimately show ?thesis by blast
qed

text \<open>A managed station without a link takes over the network it was told to look for.\<close>

lemma managed_takes:
  assumes sd: "sta_inv sd" "sd_proto_started sd" "sd_state sd = NOLINK" "sd_iw_mode sd = IW_MODE_INFRA" "sd_ssid_set sd" "\<not> sd_wap_set sd"
      "\<forall>t \<in> set (sd_nets sd). nw_bssid t \<noteq> nw_bssid n"
    and p: "ieee80211_network_init j \<lparr>en_state = NOLINK, en_assoc_id = sd_assoc_id sd, en_stats = stats\<rparr> f stack = Some (0, n)"
    and fc: "hdr_frame_ctl f = Some 0x0080" and stack: "network_arrays stack" and cap: "nw_capability n AND CAPABILITY_BSS \<noteq> 0"
    and name: "strncmp_eq (unat (nw_ssid_len n)) (nw_ssid (sd_network sd)) (nw_ssid n)" "nw_ssid_len n \<noteq> 0" "nw_ssid n ! 0 \<noteq> 0"
  shows "\<exists>s. sta_rx_mgt j stack f stats sd = Some s \<and> sta_wf s \<and> wk_associate_procedure (sd_work s) \<and> nw_channel (sd_network s) = nw_channel n \<and>
    sd_ps s = sd_ps sd \<and> sd_sta_sleep s = sd_sta_sleep sd \<and> sd_proto_started s"
proof -
  let ?t = "sta_table sd" and ?n = "bss_incoming True n (sta_table sd)"
  have wf: "sta_wf sd" using sd(1) by (simp add: sta_inv_def)
  then have t: "bt_free ?t > 0 \<or> bt_list ?t \<noteq> []" by (cases "sd_nets sd") (simp_all add: sta_wf_def sta_table_def)
  have c: "cell_wf n" by (rule network_init_cell [OF p stack])
  have "nets_wf ?t" using wf by (simp add: nets_wf_def sta_table_def sta_wf_def)
  note k = bss_enter_cells [OF this c, of j True]
  from bss_enter_fresh [OF _ t, of n j True] sd obtain bt where bt: "bss_enter j True n ?t = Some (bt, Some ?n)" "bt_current bt = sd_network sd"
    by (auto simp: sta_table_def)
  then have w: "nets_wf bt" "cell_wf ?n" using k by auto
  have "ieee80211_rx_mgt j stack f stats ?t = Some (bt, Some ?n)"
    using bt(1) sd(3) p by (simp add: ieee80211_rx_mgt_def ieee80211_process_probe_response_def fc WLAN_FC_GET_STYPE_def sta_table_def)
  then have r: "sta_rx_mgt j stack f stats sd =
      Some (ieee80211_softmac_new_net ?n (sd\<lparr>sd_nets := bt_list bt, sd_net_free := bt_free bt, sd_network := bt_current bt\<rparr>))"
    (is "_ = Some (ieee80211_softmac_new_net _ ?s)") by (simp add: sta_rx_mgt_def)
  have i: "nw_ssid ?n = nw_ssid n" "nw_ssid_len ?n = nw_ssid_len n" "nw_capability ?n = nw_capability n" "nw_channel ?n = nw_channel n"
    by (simp_all add: bss_incoming_def)
  have "sta_inv ?s" using sd(1,3) wf w(1) bt(2) by (simp add: sta_inv_def sta_live_def sta_wf_def nets_wf_def)
  from new_net_inv(1) [OF this _ w(2)] have "sta_wf (ieee80211_softmac_new_net ?n ?s)" using sd(2) by (simp add: sta_inv_def)
  moreover have "net_wanted ?s ?n" using sd(5,6) bt(2) name i by (simp add: net_wanted_def)
  then have "ieee80211_softmac_new_net ?n ?s = sta_queue (wk_associate_procedure_update (\<lambda>_. True))
      (?s\<lparr>sd_network := ?n, sd_state := ASSOCIATING, sd_beinretry := False\<rparr>)"
    using sd(3,4) cap name i by (simp add: ieee80211_softmac_new_net_def)
  ultimately show ?thesis using sd(2) i(4) unfolding r by (simp add: sta_queue_def)
qed

text \<open>C35: The channel in a beacon is not checked on its way to the radio: a managed station without a link that receives the beacon of an access point under
  the name the user has set takes the network over, and the association it starts sets the channel that the beacon's DS element named.  For any number
  above 14 that is a read outside of the driver's tables.  (The name is visible; no cell is set by hand; the beacon is the first of its cell; power saving is off.)\<close>

theorem beacon_channel_overruns:
  assumes "sta_inv sd" and "sta_awake sd" and "sd_state sd = NOLINK" and "sd_iw_mode sd = IW_MODE_INFRA" and "sd_ssid_set sd" and "\<not> sd_wap_set sd"
    and "\<forall>t \<in> set (sd_nets sd). nw_bssid t \<noteq> bssid" and "take (length name) (nw_ssid (sd_network sd)) = name"
    and "\<not> essid_hidden name" and "name ! 0 \<noteq> 0" and "length name \<le> 32"
    and "f = beacon_bytes 0x0080 da sa bssid seq ts interval capability ((0, name) # (3, [ch]) # es)"
    and "\<forall>e \<in> set es. fst e \<notin> {0, 3} \<and> ie_ok (unat (sd_assoc_id sd)) e"
    and "length da = 6" "length sa = 6" "length bssid = 6" "length seq = 2" and "capability AND CAPABILITY_BSS \<noteq> 0" and "14 < ch"
    and "unat (rs_len stats) = length f" and "rs_freq stats = BAND_24GHZ" and "network_arrays stack" and "power_tables priv"
  shows "\<exists>s sd'. sta_rx_mgt j stack (f @ tail) stats sd = Some s \<and> sta_step Some (Procedure_Work True) s = Some sd' \<and>
    Set_Chan ch \<in> set (sd_out sd') \<and> rtl8180_set_chan sd' (uint ch) priv = None"
proof -
  let ?en = "\<lparr>en_state = NOLINK, en_assoc_id = sd_assoc_id sd, en_stats = stats\<rparr>"
  have up: "sd_proto_started sd" using assms(2) by (simp add: sta_awake_def)
  obtain n where n: "ieee80211_network_init j ?en (f @ tail) stack = Some (0, n)" "nw_capability n = capability" "nw_channel n = ch"
      "nw_bssid n = bssid" "unat (nw_ssid_len n) = length name" "take (length name) (nw_ssid n) = name"
    using named_beacon_read [OF assms(14-17,22,9,11) _ assms(12), of ?en j tail] assms(13,20,21) by auto
  have l: "0 < length name" using assms(9) by (auto simp: essid_hidden_def)
  have "nw_ssid_len n \<noteq> 0" using n(5) l by auto
  moreover have "nw_ssid n ! 0 \<noteq> 0" using n(6) l assms(10) nth_take [of 0 "length name" "nw_ssid n"] by simp
  moreover have "strncmp_eq (unat (nw_ssid_len n)) (nw_ssid (sd_network sd)) (nw_ssid n)"
    using assms(8) n(5,6) by (intro strncmp_eq_take) simp
  moreover have "hdr_frame_ctl (f @ tail) = Some 0x0080"
    by (simp add: assms(12) beacon_bytes_def hdr_frame_ctl_def buf_le16_def buf_read_def get_le16_def)
  ultimately obtain s where s: "sta_rx_mgt j stack (f @ tail) stats sd = Some s" "sta_wf s" "wk_associate_procedure (sd_work s)"
      "nw_channel (sd_network s) = ch" "sta_awake s"
    using managed_takes [OF assms(1) up assms(3-6) _ n(1) _ assms(22)] assms(2,7,18) n by (auto simp: sta_awake_def)
  from ask_auth [OF s(2,5,3)] obtain sd' where
    q: "sta_step Some (Procedure_Work True) s = Some sd'" "Set_Chan ch \<in> set (sd_out sd')" unfolding s(4) by blast
  have "14 < uint ch" using assms(19) by (simp add: word_less_def)
  then have "rtl8180_set_chan sd' (uint ch) priv = None" by (intro rtl8180_set_chan_outside [OF assms(23)]) simp
  with s q show ?thesis by blast
qed

definition sta_idle :: station where
  "sta_idle = sta_example\<lparr>sd_iw_mode := IW_MODE_INFRA, sd_proto_started := True, sd_ssid_set := True\<rparr>"

definition beacon_200 :: bytes where
  "beacon_200 = beacon_bytes 0x0080 broadcast_addr [2, 0, 0, 0, 0, 9] [2, 0, 0, 0, 0, 9] [0, 0] (0, 0) 100 CAPABILITY_BSS
     [(0, take 3 (nw_ssid cell_example)), (3, [200]), (1, [0x82, 0x84])]"

theorem beacon_channel_overruns_witness:
  "\<exists>s sd'. sta_rx_mgt 9 network_blank (beacon_200 @ []) (stats_example 48) sta_idle = Some s \<and> sta_step Some (Procedure_Work True) s = Some sd' \<and>
    Set_Chan 200 \<in> set (sd_out sd') \<and> rtl8180_set_chan sd' 200 board_example = None"
proof -
  let ?name = "take 3 (nw_ssid cell_example)"
  have n: "?name = [0x6e, 0x65, 0x74]" "take (Suc (Suc (Suc 0))) (nw_ssid cell_example) = [0x6e, 0x65, 0x74]"
    by (simp_all add: cell_example_def)
  have s: "sta_inv sta_idle" "sta_awake sta_idle" "sd_state sta_idle = NOLINK" "sd_iw_mode sta_idle = IW_MODE_INFRA" "sd_ssid_set sta_idle"
    "\<not> sd_wap_set sta_idle" "sd_nets sta_idle = []" "nw_ssid (sd_network sta_idle) = nw_ssid cell_example"
    by (simp_all add: sta_idle_def sta_inv_def sta_live_def sta_wf_def sta_example_def cell_example_def cell_wf_def network_wf_def
        network_arrays_def network_lengths_def network_blank_def sta_work_none_def sta_awake_def)
  have l: "unat (rs_len (stats_example 48)) = length beacon_200"
    by (simp add: stats_example_def beacon_200_def beacon_bytes_def broadcast_addr_def ie_bytes_def n)
  have "\<exists>s sd'. sta_rx_mgt 9 network_blank (beacon_200 @ []) (stats_example 48) sta_idle = Some s \<and>
    sta_step Some (Procedure_Work True) s = Some sd' \<and> Set_Chan 200 \<in> set (sd_out sd') \<and> rtl8180_set_chan sd' (uint (200 :: u8)) board_example = None"
    by (rule beacon_channel_overruns [OF s(1-6) _ _ _ _ _ beacon_200_def _ _ _ _ _ _ _ l _ _ board_example_facts(3)])
       (simp_all add: s n ie_ok_def broadcast_addr_def stats_example_def network_blank_def network_arrays_def essid_hidden_def)
  then show ?thesis by simp
qed
end
