(* ===== verification/Dm.thy ===== *)
theory Dm
  imports Channels Softmac_Wx
begin

unbundle bit_operations_syntax

text \<open>
  The mechanisms that follow the air: rate adaptation (\<open>sta_rateadaptive8187\<close> and its timer in
  \<open>rtl8187/r8187_core.c\<close>), and the dynamic gain, threshold and transmit power of \<open>rtl8187/r8180_dm.c\<close> with the
  watch dog that starts them.  The counters of \<open>struct Stats\<close> are what the receive and transmit paths leave behind.
\<close>

section \<open>State\<close>

datatype nic_t = NIC_8187 | NIC_8187B

datatype VERSION_8187 = VERSION_8187_B | VERSION_8187_D | VERSION_8187B_B | VERSION_8187B_D | VERSION_8187B_E

datatype TR_SWITCH_STATE = TR_HW_CONTROLLED | TR_SW_TX

record r8187_dm = r8187 +
  st_txbeaconokint :: u64
  st_txnpokint :: u64
  st_txhpokint :: u64
  st_txlpokint :: u64
  st_rxok :: u64
  ra_CurrentOperaRate :: u8
  ra_CurrRetryCnt :: u16
  ra_LastRetryCnt :: u16
  ra_LastRetryRate :: u16
  ra_LastTxokCnt :: u64
  ra_LastRxokCnt :: u64
  ra_ScanAllowedNow :: bool
  ra_bTryuping :: bool
  ra_CurrTxRate :: u8
  ra_CurrRetryRate :: u16
  ra_TryupingCount :: u16
  ra_TryDownCountLowData :: u8
  ra_TryupingCountNoData :: u8
  dm_card_8187 :: nic_t
  dm_card_8187_Bversion :: VERSION_8187
  dm_bDigMechanism :: bool
  dm_bCCKThMechanism :: bool
  dm_RegBModeGainStage :: u8
  dm_RegDigOfdmFaUpTh :: u8
  dm_DIG_NumberFallbackVote :: u8
  dm_DIG_NumberUpgradeVote :: u8
  dm_CCKUpperTh :: u16
  dm_CCKLowerTh :: u16
  dm_FalseAlarmRegValue :: u32
  dm_UndecoratedSmoothedSS :: int
  dm_bRegHighPowerMechanism :: bool
  dm_bToUpdateTxPwr :: bool
  dm_Z2HiPwrUpperTh :: u8
  dm_Z2HiPwrLowerTh :: u8
  dm_Z2RSSIHiPwrUpperTh :: u8
  dm_Z2RSSIHiPwrLowerTh :: u8
  dm_CurCCKRSSI :: u8
  dm_bCurCCKPkt :: bool
  dm_wMacRegRfPinsOutput :: u32
  dm_wMacRegRfPinsSelect :: u32
  dm_TrSwitchState :: TR_SWITCH_STATE

text \<open>What \<open>rtl8180_init\<close> gives these fields; the memory of the device is zero before.\<close>

definition dm_defaults :: "u8 \<Rightarrow> 'z r8187_dm_scheme \<Rightarrow> 'z r8187_dm_scheme" where
  "dm_defaults hw_version priv = priv\<lparr>
     st_txbeaconokint := 0, st_txnpokint := 0, st_txhpokint := 0, st_txlpokint := 0, st_rxok := 0,
     ra_CurrentOperaRate := 22, ra_CurrRetryCnt := 0, ra_LastRetryCnt := 0, ra_LastTxokCnt := 0, ra_LastRxokCnt := 0,
     ra_LastRetryRate := 0, ra_ScanAllowedNow := True, ra_bTryuping := False, ra_CurrTxRate := 0, ra_CurrRetryRate := 0,
     ra_TryupingCount := 0, ra_TryupingCountNoData := 0, ra_TryDownCountLowData := 0,
     dm_bDigMechanism := True, dm_bCCKThMechanism := False, pr_InitialGain := 0, pr_StageCCKTh := 0,
     dm_RegDigOfdmFaUpTh := 0x0c, dm_RegBModeGainStage := 2, dm_DIG_NumberFallbackVote := 0, dm_DIG_NumberUpgradeVote := 0,
     dm_CCKUpperTh := 0x100, dm_CCKLowerTh := 0x20, dm_bRegHighPowerMechanism := True, dm_bToUpdateTxPwr := False,
     dm_Z2HiPwrUpperTh := 77, dm_Z2HiPwrLowerTh := 75, dm_Z2RSSIHiPwrUpperTh := 70, dm_Z2RSSIHiPwrLowerTh := 20,
     dm_wMacRegRfPinsOutput := 0x0480, dm_wMacRegRfPinsSelect := 0x2488, dm_TrSwitchState := TR_HW_CONTROLLED,
     dm_card_8187 := NIC_8187,
     dm_card_8187_Bversion := (if hw_version = 6 then dm_card_8187_Bversion priv else if hw_version = 5 then VERSION_8187_D
       else VERSION_8187_B)\<rparr>"

section \<open>Rate adaptation\<close>

text \<open>The frames sent since the start, and the figures of a period: frames sent and retries in percent of them.\<close>

definition st_txok :: "'z r8187_dm_scheme \<Rightarrow> u64" where
  "st_txok priv = st_txbeaconokint priv + st_txnpokint priv + st_txhpokint priv + st_txlpokint priv"

definition rate_measure :: "station \<Rightarrow> 'z r8187_dm_scheme \<Rightarrow> u8 \<times> u16 \<times> 'z r8187_dm_scheme" where
  "rate_measure sd priv =
     (let (cnt, priv) = run_state (read_nic_word 0xfffa) priv;
          CurrRetryCnt = cnt - ra_LastRetryCnt priv;
          CurrTxokCnt = ucast (st_txok priv - ra_LastTxokCnt priv);
          CurrRxokCnt = ucast (st_rxok priv - ra_LastRxokCnt priv);
          CurrRetryRate = (if CurrTxokCnt > 0 then word_of_nat (unat CurrRetryCnt * 100 div unat (CurrTxokCnt :: u8)) else 0)
      in (CurrTxokCnt, CurrRetryRate, priv\<lparr>
            ra_CurrentOperaRate := word_of_int (sd_rate sd sdiv 5),
            ra_ScanAllowedNow := \<not> (CurrTxokCnt > 50 \<or> (CurrRxokCnt :: u8) > 50),
            ra_LastRetryCnt := cnt, ra_LastTxokCnt := st_txok priv, ra_LastRxokCnt := st_rxok priv, ra_CurrRetryCnt := 0\<rparr>))"

definition rate_up :: "u8 \<Rightarrow> u8" where
  "rate_up r = (if r = 96 then 108 else if r = 72 then 96 else if r = 48 then 72 else if r = 36 then 48 else if r = 22 then 36
     else if r = 11 then 22 else if r = 4 then 11 else if r = 2 then 4 else r)"

definition rate_down :: "u8 \<Rightarrow> u8" where
  "rate_down r = (if r = 108 then 96 else if r = 96 then 72 else if r = 72 then 48 else if r = 48 then 36 else if r = 36 then 24
     else if r = 24 then 22 else 22)"

text \<open>A period without frames or without a retry.\<close>

definition rate_idle :: "'z r8187_dm_scheme \<Rightarrow> 'z r8187_dm_scheme" where
  "rate_idle priv =
     (let n = ra_TryupingCountNoData priv + 1
      in if n > 10 then priv\<lparr>ra_TryupingCountNoData := 0, ra_CurrentOperaRate := rate_up (ra_CurrentOperaRate priv)\<rparr>
         else priv\<lparr>ra_TryupingCountNoData := n\<rparr>)"

definition gain_to :: "u8 \<Rightarrow> 'z r8187_scheme \<Rightarrow> 'z r8187_scheme" where
  "gain_to g priv = (if pr_InitialGain priv \<noteq> g then exec UpdateInitialGain (priv\<lparr>pr_InitialGain := g\<rparr>) else priv)"

text \<open>A rate is tried after twenty-one good periods.\<close>

definition rate_try :: "u16 \<Rightarrow> u8 \<Rightarrow> 'z r8187_dm_scheme \<Rightarrow> 'z r8187_dm_scheme" where
  "rate_try retry r priv =
     (let n = ra_TryupingCount priv + 1
      in if \<not> ra_bTryuping priv \<and> n > 20
         then priv\<lparr>ra_TryupingCount := 0, ra_bTryuping := True, ra_CurrTxRate := ra_CurrentOperaRate priv,
           ra_CurrRetryRate := retry, ra_CurrentOperaRate := r\<rparr>
         else priv\<lparr>ra_TryupingCount := n\<rparr>)"

text \<open>A low rate is left after four bad periods.\<close>

definition rate_drop :: "u8 \<Rightarrow> 'z r8187_dm_scheme \<Rightarrow> 'z r8187_dm_scheme" where
  "rate_drop r priv =
     (let n = ra_TryDownCountLowData priv + 1
      in if n > 3 then gain_to 3 (priv\<lparr>ra_TryDownCountLowData := 0, ra_CurrentOperaRate := r\<rparr>)
         else priv\<lparr>ra_TryDownCountLowData := n\<rparr>)"

definition rate_by_current :: "u16 \<Rightarrow> 'z r8187_dm_scheme \<Rightarrow> 'z r8187_dm_scheme" where
  "rate_by_current retry priv =
     (let rate = ra_CurrentOperaRate priv; last = ra_LastRetryRate priv
      in if rate = 108 then
           (if retry > 40 \<and> last > 40 then priv\<lparr>ra_CurrentOperaRate := 96\<rparr> else priv)
         else if rate = 96 then
           (if retry > 40 \<and> last > 40 then priv\<lparr>ra_CurrentOperaRate := 72\<rparr>
            else if retry < 15 \<and> last < 15 then priv\<lparr>ra_CurrentOperaRate := 108\<rparr> else priv)
         else if rate = 72 then
           (if retry > 99 \<and> last > 99 then priv\<lparr>ra_CurrentOperaRate := 48\<rparr>
            else if retry < 15 then rate_try retry 96 priv else priv)
         else if rate = 48 then
           (if retry > 99 \<and> last > 99 then gain_to 4 (priv\<lparr>ra_CurrentOperaRate := 36\<rparr>)
            else if retry < 15 \<and> last < 15 then priv\<lparr>ra_CurrentOperaRate := 72\<rparr> else priv)
         else if rate = 36 then
           (if retry > 99 \<and> last > 99 then gain_to 4 (priv\<lparr>ra_CurrentOperaRate := 22\<rparr>)
            else if retry < 15 \<and> last < 15 then gain_to 5 (priv\<lparr>ra_CurrentOperaRate := 48\<rparr>) else priv)
         else if rate = 22 then
           (if retry > 299 then rate_drop 11 priv
            else if retry < 45 then rate_try retry 36 (priv\<lparr>ra_TryDownCountLowData := 0\<rparr>) else priv)
         else if rate = 11 then
           (if retry > 199 then rate_drop 4 priv
            else if retry < 30 \<and> last < 30 then gain_to 4 (priv\<lparr>ra_TryDownCountLowData := 0, ra_CurrentOperaRate := 22\<rparr>)
            else priv)
         else if rate = 4 then
           (if retry > 99 \<and> last > 99 then
              (let n = ra_TryDownCountLowData priv + 1
               in if n > 3 then gain_to 3 (priv\<lparr>ra_TryDownCountLowData := n, ra_CurrentOperaRate := 2\<rparr>)
                  else priv\<lparr>ra_TryDownCountLowData := n\<rparr>)
            else if retry < 50 \<and> last < 50 then priv\<lparr>ra_TryDownCountLowData := 0, ra_CurrentOperaRate := 11\<rparr> else priv)
         else if rate = 2 then
           (if retry < 50 \<and> last < 50 then priv\<lparr>ra_CurrentOperaRate := 4\<rparr> else priv)
         else priv)"

definition rate_busy :: "u8 \<Rightarrow> u16 \<Rightarrow> 'z r8187_dm_scheme \<Rightarrow> 'z r8187_dm_scheme" where
  "rate_busy tx retry priv =
     (let back = ra_bTryuping priv \<and> retry > 15 \<and> ra_CurrRetryRate priv < retry;
          priv = (if ra_bTryuping priv then priv\<lparr>ra_bTryuping := False, ra_TryupingCount := 0\<rparr> else priv)
      in if back then priv\<lparr>ra_CurrentOperaRate := ra_CurrTxRate priv\<rparr>
         else if tx < 1 \<and> retry > 100 then priv\<lparr>ra_CurrentOperaRate := rate_down (ra_CurrentOperaRate priv)\<rparr>
         else rate_by_current retry priv)"

definition sta_rateadaptive8187 :: "station \<Rightarrow> 'z r8187_dm_scheme \<Rightarrow> station \<times> 'z r8187_dm_scheme" where
  "sta_rateadaptive8187 sd priv =
     (let (tx, retry, priv) = rate_measure sd priv;
          priv = (if rs_signalstrength (nw_stats (sd_network sd)) > 85 then priv\<lparr>ra_CurrentOperaRate := 108\<rparr> else priv);
          priv = (if tx = 0 \<or> retry = 0 then rate_idle priv
            else rate_busy tx retry (priv\<lparr>ra_TryupingCountNoData := 0\<rparr>));
          priv = priv\<lparr>ra_LastRetryRate := retry\<rparr>
      in (sd\<lparr>sd_rate := uint (ra_CurrentOperaRate priv) * 5\<rparr>, priv))"

section \<open>Dynamic initial gain\<close>

definition CheckDig :: "station \<Rightarrow> 'z r8187_dm_scheme \<Rightarrow> bool" where
  "CheckDig sd priv \<longleftrightarrow>
     sd_state sd = LINKED \<and>
     (if dm_card_8187 priv = NIC_8187B
      then (dm_bDigMechanism priv \<or> dm_bCCKThMechanism priv) \<and> ra_CurrentOperaRate priv \<ge> 36
      else dm_bDigMechanism priv \<and> ra_CurrentOperaRate priv \<ge> 48)"

text \<open>False alarms of OFDM and the two limits they are compared with.\<close>

definition dig_alarms :: "'z r8187_dm_scheme \<Rightarrow> u16 \<times> u16 \<times> u16" where
  "dig_alarms priv =
     (let b = (dm_card_8187_Bversion priv = VERSION_8187B_B);
          alarm = (if b then ucast (dm_FalseAlarmRegValue priv) else ucast (drop_bit 16 (dm_FalseAlarmRegValue priv) AND 0xffff));
          fa1 = (if dm_card_8187 priv = NIC_8187B \<and> \<not> b then 0x20 else if b then 0x01 else 0x15);
          fa2 = (if b then ucast (dm_RegDigOfdmFaUpTh priv) else push_bit 8 (ucast (dm_RegDigOfdmFaUpTh priv)))
      in (alarm, fa1, fa2))"

definition dig_first_gain :: "'z r8187_dm_scheme \<Rightarrow> 'z r8187_dm_scheme" where
  "dig_first_gain priv =
     (if dm_card_8187 priv = NIC_8187 then
        (let priv = (if pr_InitialGain priv = 0
           then priv\<lparr>pr_InitialGain := (if pr_rf_chip priv = RF_ZEBRA2 then 4 else 5)\<rparr> else priv)
         in if pr_InitialGain priv > 7 then priv\<lparr>pr_InitialGain := 5\<rparr> else priv)
      else if pr_InitialGain priv = 0 then priv\<lparr>pr_InitialGain := 4\<rparr> else priv)"

definition dig_noisy :: "u8 \<Rightarrow> 'z r8187_dm_scheme \<Rightarrow> 'z r8187_dm_scheme" where
  "dig_noisy InitialGainStep priv =
     (let priv = priv\<lparr>dm_DIG_NumberFallbackVote := dm_DIG_NumberFallbackVote priv + 1\<rparr>
      in if dm_DIG_NumberFallbackVote priv > 1
         then (let priv = (if pr_InitialGain priv < InitialGainStep
                 then exec UpdateInitialGain (priv\<lparr>pr_InitialGain := pr_InitialGain priv + 1\<rparr>) else priv)
               in priv\<lparr>dm_DIG_NumberFallbackVote := 0, dm_DIG_NumberUpgradeVote := 0\<rparr>)
         else priv)"

definition dig_less :: "'z r8187_dm_scheme \<Rightarrow> 'z r8187_dm_scheme" where
  "dig_less priv =
     (if dm_DIG_NumberFallbackVote priv \<noteq> 0 then priv\<lparr>dm_DIG_NumberFallbackVote := dm_DIG_NumberFallbackVote priv - 1\<rparr> else priv)"

definition dig_quiet :: "u8 \<Rightarrow> 'z r8187_dm_scheme \<Rightarrow> 'z r8187_dm_scheme" where
  "dig_quiet LowestGainStage priv =
     (let priv = dig_less priv;
          priv = priv\<lparr>dm_DIG_NumberUpgradeVote := dm_DIG_NumberUpgradeVote priv + 1\<rparr>
      in if dm_DIG_NumberUpgradeVote priv > 9
         then (let priv = (if pr_InitialGain priv > LowestGainStage
                 then exec UpdateInitialGain (priv\<lparr>pr_InitialGain := pr_InitialGain priv - 1\<rparr>) else priv)
               in priv\<lparr>dm_DIG_NumberFallbackVote := 0, dm_DIG_NumberUpgradeVote := 0\<rparr>)
         else priv)"

definition DIG_Zebra :: "'z r8187_dm_scheme \<Rightarrow> 'z r8187_dm_scheme" where
  "DIG_Zebra priv =
     (let (OFDMFalseAlarm, OfdmFA1, OfdmFA2) = dig_alarms priv;
          priv = dig_first_gain priv;
          step = (if dm_card_8187 priv = NIC_8187 then 7 else 8);
          low = (if dm_card_8187 priv = NIC_8187 then 4 else dm_RegBModeGainStage priv)
      in if OFDMFalseAlarm > OfdmFA1
         then (let priv = (if OFDMFalseAlarm > OfdmFA2 then dig_noisy step priv else dig_less priv)
               in priv\<lparr>dm_DIG_NumberUpgradeVote := 0\<rparr>)
         else dig_quiet low priv)"

definition DynamicInitGain :: "'z r8187_dm_scheme \<Rightarrow> 'z r8187_dm_scheme" where
  "DynamicInitGain priv = (if pr_rf_chip priv = RF_ZEBRA \<or> pr_rf_chip priv = RF_ZEBRA2 then DIG_Zebra priv else priv)"

definition DynamicCCKThreshold :: "'z r8187_dm_scheme \<Rightarrow> 'z r8187_dm_scheme" where
  "DynamicCCKThreshold priv =
     (let CCKFalseAlarm = ucast (drop_bit 8 (dm_FalseAlarmRegValue priv AND 0x0000ffff))
      in if pr_StageCCKTh priv < 3 \<and> CCKFalseAlarm \<ge> dm_CCKUpperTh priv
         then exec UpdateCCKThreshold (priv\<lparr>pr_StageCCKTh := pr_StageCCKTh priv + 1\<rparr>)
         else if pr_StageCCKTh priv > 0 \<and> CCKFalseAlarm \<le> dm_CCKLowerTh priv
         then exec UpdateCCKThreshold (priv\<lparr>pr_StageCCKTh := pr_StageCCKTh priv - 1\<rparr>)
         else priv)"

definition false_alarms :: "('z r8187_dm_scheme, u32) state" where
  "false_alarms = do {
     priv \<leftarrow> State_Monad.get;
     if dm_card_8187_Bversion priv = VERSION_8187B_B
     then do { v \<leftarrow> read_nic_byte (0xd2 + 1); State_Monad.return (ucast v) }
     else read_nic_dword 0xd0
   }"

definition rtl8180_hw_dig_wq :: "'z r8187_dm_scheme \<Rightarrow> 'z r8187_dm_scheme" where
  "rtl8180_hw_dig_wq priv =
     (let (v, priv) = run_state false_alarms priv;
          priv = priv\<lparr>dm_FalseAlarmRegValue := v\<rparr>;
          priv = (if dm_bDigMechanism priv then DynamicInitGain priv else priv)
      in if dm_card_8187 priv = NIC_8187B \<and> dm_bCCKThMechanism priv then DynamicCCKThreshold priv else priv)"

section \<open>High power\<close>

definition SetTxPowerLevel8187 :: "int \<Rightarrow> 'z r8187_scheme \<Rightarrow> 'z r8187_scheme option" where
  "SetTxPowerLevel8187 chan priv =
     (if pr_rf_chip priv = RF_ZEBRA then rtl8225_SetTXPowerLevel chan priv
      else if pr_rf_chip priv = RF_ZEBRA2 then rtl8225z2_SetTXPowerLevel chan priv
      else Some priv)"

text \<open>The transmit/receive switch is taken from the hardware, and given back.\<close>

definition tr_to_software :: "'z r8187_dm_scheme \<Rightarrow> 'z r8187_dm_scheme" where
  "tr_to_software priv =
     (let priv = exec (do {
            write_nic_byte RFPinsSelect (ucast (dm_wMacRegRfPinsSelect priv OR (BIT 5 OR BIT 6)));
            write_nic_byte RFPinsOutput (ucast ((dm_wMacRegRfPinsOutput priv AND NOT (BIT 5 OR BIT 6)) OR BIT 5))
          }) priv
      in priv\<lparr>dm_TrSwitchState := TR_SW_TX, dm_bToUpdateTxPwr := True\<rparr>)"

definition tr_to_hardware :: "'z r8187_dm_scheme \<Rightarrow> 'z r8187_dm_scheme" where
  "tr_to_hardware priv =
     (let priv = exec (do {
            write_nic_byte RFPinsOutput (ucast (dm_wMacRegRfPinsOutput priv));
            write_nic_byte RFPinsSelect (ucast (dm_wMacRegRfPinsSelect priv))
          }) priv
      in priv\<lparr>dm_TrSwitchState := TR_HW_CONTROLLED, dm_bToUpdateTxPwr := True\<rparr>)"

text \<open>Upper and lower limit of the smoothed signal, and of the strength of CCK frames.\<close>

definition hipwr_limits :: "'z r8187_dm_scheme \<Rightarrow> (int \<times> int \<times> u16 \<times> u16) option" where
  "hipwr_limits priv =
     (if pr_rf_chip priv = RF_ZEBRA then Some (99, 70, 0, 0)
      else if pr_rf_chip priv = RF_ZEBRA2 then
        Some (if dm_card_8187 priv = NIC_8187 then (99, 90, 0, 0)
              else (int (unat (dm_Z2HiPwrUpperTh priv)) * 10, int (unat (dm_Z2HiPwrLowerTh priv)) * 10,
                ucast (dm_Z2RSSIHiPwrUpperTh priv), ucast (dm_Z2RSSIHiPwrLowerTh priv)))
      else None)"

definition DoRxHighPower :: "'z r8187_dm_scheme \<Rightarrow> 'z r8187_dm_scheme" where
  "DoRxHighPower priv =
     (case hipwr_limits priv of None \<Rightarrow> priv
      | Some (upper, lower, rssi_upper, rssi_lower) \<Rightarrow>
          let ss = dm_UndecoratedSmoothedSS priv; rssi = ucast (dm_CurCCKRSSI priv)
          in if dm_card_8187 priv = NIC_8187 then
               (if ss > upper then (if dm_TrSwitchState priv = TR_HW_CONTROLLED then tr_to_software priv else priv)
                else if ss < lower then (if dm_TrSwitchState priv = TR_SW_TX then tr_to_hardware priv else priv)
                else priv)
             else if dm_TrSwitchState priv = TR_HW_CONTROLLED then
               (if ss > upper \<or> (dm_bCurCCKPkt priv \<and> rssi > rssi_upper) then tr_to_software priv else priv)
             else (if ss < lower \<and> (\<not> dm_bCurCCKPkt priv \<or> rssi < rssi_lower) then tr_to_hardware priv else priv))"

definition rtl8180_tx_pw_wq :: "'z r8187_dm_scheme \<Rightarrow> 'z r8187_dm_scheme option" where
  "rtl8180_tx_pw_wq priv = do {
     priv \<leftarrow> (if dm_bToUpdateTxPwr priv then SetTxPowerLevel8187 (pr_chan priv) (priv\<lparr>dm_bToUpdateTxPwr := False\<rparr>) else Some priv);
     Some (DoRxHighPower priv)
   }"

definition CheckHighPower :: "station \<Rightarrow> 'z r8187_dm_scheme \<Rightarrow> bool" where
  "CheckHighPower sd priv \<longleftrightarrow> dm_bRegHighPowerMechanism priv \<and> sd_state sd \<noteq> LINKED_SCANNING"

section \<open>Timers and works\<close>

text \<open>
  The driver with the timers and the queued works of these mechanisms.  Everything else the host does is an event of
  its environment: counters of sent and received frames move, the user sets a rate, the soft MAC changes the station.
  By itself the soft MAC gives the rate two values only, 110 and 540 (\<open>ieee80211_softmac_new_net\<close>,
  \<open>ieee80211_associate_procedure_wq\<close>, \<open>ieee80211_start_ibss_wq\<close>, \<open>ieee80211_start_master_bss\<close>); the user's request gives it any.
\<close>

record 'p dm_host =
  dh_priv :: 'p
  dh_sd :: station
  dh_up :: bool
  dh_rate_adapter_wq :: bool
  dh_tx_pw_wq :: bool
  dh_hw_dig_wq :: bool
  dh_rateadapter_timer :: bool
  dh_watch_dog_timer :: bool

definition timer_rate_adaptive :: "u8 \<Rightarrow> ('z r8187_dm_scheme, 'h) dm_host_scheme \<Rightarrow> ('z r8187_dm_scheme, 'h) dm_host_scheme" where
  "timer_rate_adaptive mode h =
     (if \<not> dh_up h then h
      else (let h = (if mode \<noteq> 2 \<and> sd_iw_mode (dh_sd h) \<noteq> IW_MODE_MASTER \<and> sd_state (dh_sd h) = LINKED
              then h\<lparr>dh_rate_adapter_wq := True\<rparr> else h)
            in h\<lparr>dh_rateadapter_timer := True\<rparr>))"

definition watch_dog_adaptive :: "('z r8187_dm_scheme, 'h) dm_host_scheme \<Rightarrow> ('z r8187_dm_scheme, 'h) dm_host_scheme" where
  "watch_dog_adaptive h =
     (if \<not> dh_up h then h
      else (let h = (if CheckHighPower (dh_sd h) (dh_priv h) then h\<lparr>dh_tx_pw_wq := True\<rparr> else h);
                h = (if CheckDig (dh_sd h) (dh_priv h) then h\<lparr>dh_hw_dig_wq := True\<rparr> else h)
            in h\<lparr>dh_watch_dog_timer := True\<rparr>))"

definition rtl8180_rate_adapter :: "('z r8187_dm_scheme, 'h) dm_host_scheme \<Rightarrow> ('z r8187_dm_scheme, 'h) dm_host_scheme" where
  "rtl8180_rate_adapter h =
     (let (sd, priv) = sta_rateadaptive8187 (dh_sd h) (dh_priv h) in h\<lparr>dh_sd := sd, dh_priv := priv\<rparr>)"

text \<open>A frame was sent or received: the handlers of the transfers count it.\<close>

definition dm_count :: "u64 \<Rightarrow> u64 \<Rightarrow> u64 \<Rightarrow> 'z r8187_dm_scheme \<Rightarrow> 'z r8187_dm_scheme" where
  "dm_count np lp rx priv = priv\<lparr>st_txnpokint := st_txnpokint priv + np, st_txlpokint := st_txlpokint priv + lp,
     st_rxok := st_rxok priv + rx\<rparr>"

datatype dm_event = Rate_Timer | Watch_Dog | Rate_Work | Dig_Work | Tx_Pw_Work | Traffic | Channel | Soft_Mac | Set_Rate u32

inductive dm_step :: "u8 \<Rightarrow> dm_event \<Rightarrow> ('z r8187_dm_scheme, 'h) dm_host_scheme \<Rightarrow> ('z r8187_dm_scheme, 'h) dm_host_scheme \<Rightarrow> bool" for mode where
  rate_timer: "dh_rateadapter_timer h \<Longrightarrow> dm_step mode Rate_Timer h (timer_rate_adaptive mode (h\<lparr>dh_rateadapter_timer := False\<rparr>))"
| watch_dog: "dh_watch_dog_timer h \<Longrightarrow> dm_step mode Watch_Dog h (watch_dog_adaptive (h\<lparr>dh_watch_dog_timer := False\<rparr>))"
| rate_work: "dh_rate_adapter_wq h \<Longrightarrow> dm_step mode Rate_Work h (rtl8180_rate_adapter (h\<lparr>dh_rate_adapter_wq := False\<rparr>))"
| dig_work: "dh_hw_dig_wq h \<Longrightarrow> dm_step mode Dig_Work h (h\<lparr>dh_hw_dig_wq := False, dh_priv := rtl8180_hw_dig_wq (dh_priv h)\<rparr>)"
| tx_pw_work: "dh_tx_pw_wq h \<Longrightarrow> rtl8180_tx_pw_wq (dh_priv h) = Some priv \<Longrightarrow>
    dm_step mode Tx_Pw_Work h (h\<lparr>dh_tx_pw_wq := False, dh_priv := priv\<rparr>)"
| traffic: "dm_step mode Traffic h (h\<lparr>dh_priv := dm_count np lp rx (dh_priv h)\<rparr>)"
| channel: "rtl8180_set_chan (dh_sd h) ch (dh_priv h) = Some priv \<Longrightarrow> dm_step mode Channel h (h\<lparr>dh_priv := priv\<rparr>)"
| soft_mac: "sd_rate sd \<in> {sd_rate (dh_sd h), 110, 540} \<Longrightarrow> dm_step mode Soft_Mac h (h\<lparr>dh_sd := sd\<rparr>)"
| user_rate: "dm_step mode (Set_Rate v) h (h\<lparr>dh_sd := snd (ieee80211_wx_set_rate v (dh_sd h))\<rparr>)"

inductive_cases dm_stepE: "dm_step mode ev h h'"

text \<open>The rates the user asks for, in units of 100 kb/s, are the parameter \<open>U\<close> of what is reached.\<close>

definition dm_event_ok :: "int set \<Rightarrow> dm_event \<Rightarrow> bool" where
  "dm_event_ok U ev \<longleftrightarrow> (case ev of Set_Rate v \<Rightarrow> uint (v div 100000) \<in> U | _ \<Rightarrow> True)"

inductive dm_reach :: "u8 \<Rightarrow> int set \<Rightarrow> ('z r8187_dm_scheme, 'h) dm_host_scheme \<Rightarrow> ('z r8187_dm_scheme, 'h) dm_host_scheme \<Rightarrow> bool" for mode U h where
  dm_start: "dm_reach mode U h h"
| dm_next: "dm_reach mode U h h' \<Longrightarrow> dm_event_ok U ev \<Longrightarrow> dm_step mode ev h' h'' \<Longrightarrow> dm_reach mode U h h''"

text \<open>After \<open>rtl8180_init\<close>: the rate is 11 Mb/s, the two timers run.\<close>

definition dm_init :: "u8 \<Rightarrow> ('z r8187_dm_scheme, 'h) dm_host_scheme \<Rightarrow> ('z r8187_dm_scheme, 'h) dm_host_scheme" where
  "dm_init hw_version h = h\<lparr>dh_priv := dm_defaults hw_version (dh_priv h), dh_sd := (dh_sd h)\<lparr>sd_rate := 110\<rparr>,
     dh_rate_adapter_wq := False, dh_tx_pw_wq := False, dh_hw_dig_wq := False\<rparr>"

section \<open>What works on the device leaves alone\<close>

lemma exec_keeps: "nic_keeps m \<Longrightarrow> \<exists>xs. exec m p = p\<lparr>nic_log := xs @ nic_log p\<rparr>"
  by (auto simp: nic_keeps_def)

lemma gain_to_obtain:
  obtains xs where "gain_to g p = p\<lparr>pr_InitialGain := g, nic_log := xs\<rparr>"
proof (cases "pr_InitialGain p = g")
  case True
  then have "gain_to g p = p\<lparr>pr_InitialGain := g, nic_log := nic_log p\<rparr>" by (simp add: gain_to_def)
  then show thesis by (rule that)
next
  case False
  obtain xs where "exec UpdateInitialGain (p\<lparr>pr_InitialGain := g\<rparr>) = p\<lparr>pr_InitialGain := g, nic_log := xs\<rparr>"
    using exec_keeps [OF keeps_UpdateInitialGain, of "p\<lparr>pr_InitialGain := g\<rparr>"] by auto
  with False that show thesis by (simp add: gain_to_def)
qed

section \<open>The rates\<close>

text \<open>The rates of the ladder, in units of 500 kb/s, and those the user has set.\<close>

definition opera_rate :: "int set \<Rightarrow> u8 \<Rightarrow> bool" where
  "opera_rate U r \<longleftrightarrow> r = 2 \<or> r = 4 \<or> r = 11 \<or> r = 22 \<or> r = 36 \<or> r = 48 \<or> r = 72 \<or> r = 96 \<or> r = 108 \<or>
     (\<exists>x\<in>U. r = word_of_int (x sdiv 5))"

definition gain_stage :: "u8 \<Rightarrow> bool" where
  "gain_stage g \<longleftrightarrow> g = 0 \<or> g = 3 \<or> g = 4 \<or> g = 5 \<or> g = 6 \<or> g = 7"

definition rate_ok :: "int set \<Rightarrow> 'z r8187_dm_scheme \<Rightarrow> bool" where
  "rate_ok U priv \<longleftrightarrow> opera_rate U (ra_CurrentOperaRate priv) \<and> (ra_bTryuping priv \<longrightarrow> opera_rate U (ra_CurrTxRate priv)) \<and>
     ra_TryupingCountNoData priv \<le> 10 \<and> ra_TryupingCount priv \<le> 20 \<and> gain_stage (pr_InitialGain priv)"

lemma opera_rates [simp]: "opera_rate U 2" "opera_rate U 4" "opera_rate U 11" "opera_rate U 22" "opera_rate U 36" "opera_rate U 48" "opera_rate U 72"
    "opera_rate U 96" "opera_rate U 108" "gain_stage 0" "gain_stage 3" "gain_stage 4" "gain_stage 5" "gain_stage 6" "gain_stage 7"
  by (simp_all add: opera_rate_def gain_stage_def)

lemma rate_ok_gain_to: "rate_ok U p \<Longrightarrow> gain_stage g \<Longrightarrow> rate_ok U (gain_to g p)"
  by (rule gain_to_obtain [of g p]) (simp add: rate_ok_def)

lemma rate_ok_rate: "rate_ok U p \<Longrightarrow> opera_rate U r \<Longrightarrow> rate_ok U (p\<lparr>ra_CurrentOperaRate := r\<rparr>)"
  "rate_ok U (p\<lparr>ra_TryDownCountLowData := n\<rparr>) = rate_ok U p" "rate_ok U (p\<lparr>ra_LastRetryRate := l\<rparr>) = rate_ok U p"
  "rate_ok U p \<Longrightarrow> rate_ok U (p\<lparr>ra_TryupingCountNoData := 0\<rparr>)"
  "rate_ok U p \<Longrightarrow> rate_ok U (p\<lparr>ra_bTryuping := False, ra_TryupingCount := 0\<rparr>)"
  by (simp_all add: rate_ok_def)

lemma rate_ok_try: "rate_ok U p \<Longrightarrow> \<not> ra_bTryuping p \<Longrightarrow> opera_rate U r \<Longrightarrow> rate_ok U (rate_try retry r p)"
  by (auto simp: rate_ok_def rate_try_def Let_def not_less)

lemma rate_ok_drop: "rate_ok U p \<Longrightarrow> opera_rate U r \<Longrightarrow> rate_ok U (rate_drop r p)"
  by (auto simp: rate_drop_def Let_def rate_ok_rate intro!: rate_ok_gain_to)

lemma rate_ok_if: "rate_ok U p \<Longrightarrow> rate_ok U q \<Longrightarrow> rate_ok U (if c then p else q)"
  by simp

lemma rate_ok_down: "rate_ok U p \<Longrightarrow> rate_ok U (p\<lparr>ra_TryDownCountLowData := n\<rparr>)"
  by (simp add: rate_ok_rate)

lemmas rate_ok_steps = rate_ok_if rate_ok_gain_to rate_ok_try rate_ok_drop rate_ok_rate(1,4,5) rate_ok_down opera_rates

lemma rate_ok_by_current:
  assumes "rate_ok U p" "\<not> ra_bTryuping p"
  shows "rate_ok U (rate_by_current retry p)"
proof -
  have "\<not> ra_bTryuping (p\<lparr>ra_TryDownCountLowData := 0\<rparr>)" using assms(2) by simp
  then show ?thesis unfolding rate_by_current_def Let_def by (intro rate_ok_steps assms)
qed

lemma rate_ok_busy:
  assumes "rate_ok U p" "tx \<noteq> 0"
  shows "rate_ok U (rate_busy tx retry p)"
proof (cases "ra_bTryuping p")
  case True
  let ?q = "p\<lparr>ra_bTryuping := False, ra_TryupingCount := 0\<rparr>"
  have q: "rate_ok U ?q" by (rule rate_ok_rate(5) [OF assms(1)])
  have "opera_rate U (ra_CurrTxRate p)" using assms(1) True by (simp add: rate_ok_def)
  from rate_ok_rate(1) [OF q this] have b: "rate_ok U (?q\<lparr>ra_CurrentOperaRate := ra_CurrTxRate ?q\<rparr>)" by simp
  have "rate_ok U (rate_by_current retry ?q)" by (rule rate_ok_by_current [OF q]) simp
  with b assms(2) True show ?thesis unfolding rate_busy_def Let_def by (simp add: word_less_1)
next
  case False
  with rate_ok_by_current [OF assms(1) False] assms(2) show ?thesis unfolding rate_busy_def Let_def by (simp add: word_less_1)
qed

lemma opera_rate_up: "opera_rate U r \<Longrightarrow> opera_rate U (rate_up r)"
  by (auto simp: opera_rate_def rate_up_def)

lemma rate_ok_idle: "rate_ok U p \<Longrightarrow> rate_ok U (rate_idle p)"
  by (auto simp: rate_ok_def rate_idle_def Let_def opera_rate_up not_less)

text \<open>Measuring reads one register and takes the rate over from the soft MAC.\<close>

lemma rate_measure_eq:
  assumes "rate_measure sd p = (tx, retry, q)"
  shows "ra_CurrentOperaRate q = word_of_int (sd_rate sd sdiv 5)" "ra_bTryuping q = ra_bTryuping p" "ra_CurrTxRate q = ra_CurrTxRate p"
    "ra_TryupingCountNoData q = ra_TryupingCountNoData p" "ra_TryupingCount q = ra_TryupingCount p"
    "ra_LastRetryRate q = ra_LastRetryRate p" "pr_InitialGain q = pr_InitialGain p"
    "tx = ucast (st_txok p - ra_LastTxokCnt p)" "tx = 0 \<Longrightarrow> retry = 0"
proof -
  have k: "nic_keeps (read_nic_word 0xfffa)" unfolding read_nic_word_def by (intro keeps)
  obtain xs where x: "exec (read_nic_word 0xfffa) p = p\<lparr>nic_log := xs @ nic_log p\<rparr>" using exec_keeps [OF k] by blast
  show "ra_CurrentOperaRate q = word_of_int (sd_rate sd sdiv 5)" "ra_bTryuping q = ra_bTryuping p" "ra_CurrTxRate q = ra_CurrTxRate p"
    "ra_TryupingCountNoData q = ra_TryupingCountNoData p" "ra_TryupingCount q = ra_TryupingCount p"
    "ra_LastRetryRate q = ra_LastRetryRate p" "pr_InitialGain q = pr_InitialGain p"
    "tx = ucast (st_txok p - ra_LastTxokCnt p)" "tx = 0 \<Longrightarrow> retry = 0"
    using assms x unfolding rate_measure_def Let_def split_beta exec_def [symmetric] by (auto simp: st_txok_def)
qed


definition rate_ladder :: "int set" where
  "rate_ladder = {10, 20, 55, 110, 180, 240, 360, 480, 540}"

definition rate_valid :: "int set \<Rightarrow> int \<Rightarrow> bool" where
  "rate_valid U r \<longleftrightarrow> r \<in> rate_ladder \<or> r \<in> U \<or> (\<exists>x\<in>U. r = uint (word_of_int (x sdiv 5) :: u8) * 5)"

lemma rate_back: "uint (r :: u8) * 5 sdiv 5 = uint r"
proof (cases "uint r = 0")
  case False
  then have "0 < uint r" using uint_ge_0 [of r] by linarith
  then show ?thesis by (auto simp: signed_divide_int_def sgn_mult)
qed (simp add: signed_divide_int_def)

lemma rate_valid_opera: "rate_valid U r \<Longrightarrow> opera_rate U (word_of_int (r sdiv 5))"
  unfolding rate_valid_def
proof (elim disjE bexE)
  assume "r \<in> rate_ladder"
  then show ?thesis by (auto simp: rate_ladder_def opera_rate_def signed_divide_int_def)
next
  assume "r \<in> U"
  then show ?thesis by (auto simp: opera_rate_def)
next
  fix x assume x: "x \<in> U" "r = uint (word_of_int (x sdiv 5) :: u8) * 5"
  then have "(word_of_int (r sdiv 5) :: u8) = word_of_int (x sdiv 5)" by (simp add: rate_back)
  with x(1) show ?thesis by (auto simp: opera_rate_def)
qed

lemma opera_rate_valid: "opera_rate U r \<Longrightarrow> rate_valid U (uint r * 5)"
  by (auto simp: rate_valid_def opera_rate_def rate_ladder_def)

text \<open>A run, taken apart: the figures of the period, the state \<open>q\<close> they are applied to, and the outcome.\<close>

lemma rate_adapt_cases:
  assumes "sta_rateadaptive8187 sd p = (sd', p')"
  obtains tx retry q where "tx = ucast (st_txok p - ra_LastTxokCnt p)" "tx = 0 \<Longrightarrow> retry = 0"
    "retry = fst (snd (rate_measure sd p))"
    "ra_CurrentOperaRate q = (if rs_signalstrength (nw_stats (sd_network sd)) > 85 then 108 else word_of_int (sd_rate sd sdiv 5))"
    "ra_bTryuping q = ra_bTryuping p" "ra_CurrTxRate q = ra_CurrTxRate p" "ra_TryupingCountNoData q = ra_TryupingCountNoData p"
    "ra_TryupingCount q = ra_TryupingCount p" "pr_InitialGain q = pr_InitialGain p"
    "p' = (if retry = 0 then rate_idle q else rate_busy tx retry (q\<lparr>ra_TryupingCountNoData := 0\<rparr>))\<lparr>ra_LastRetryRate := retry\<rparr>"
    "sd' = sd\<lparr>sd_rate := uint (ra_CurrentOperaRate p') * 5\<rparr>"
proof -
  obtain tx retry q where m: "rate_measure sd p = (tx, retry, q)" by (metis prod_cases3)
  note e = rate_measure_eq [OF m]
  let ?q = "if rs_signalstrength (nw_stats (sd_network sd)) > 85 then q\<lparr>ra_CurrentOperaRate := 108\<rparr> else q"
  have "(tx = 0 \<or> retry = 0) = (retry = 0)" using e(9) by blast
  then have "p' = (if retry = 0 then rate_idle ?q else rate_busy tx retry (?q\<lparr>ra_TryupingCountNoData := 0\<rparr>))\<lparr>ra_LastRetryRate := retry\<rparr>"
    "sd' = sd\<lparr>sd_rate := uint (ra_CurrentOperaRate p') * 5\<rparr>"
    using assms unfolding sta_rateadaptive8187_def Let_def m prod.case by auto
  then show thesis by (intro that [of tx retry ?q]) (simp_all add: e m)
qed

lemma rate_adapt_ok:
  assumes "rate_valid U (sd_rate sd)" "rate_ok U p" "sta_rateadaptive8187 sd p = (sd', p')"
  shows "rate_ok U p'" "rate_valid U (sd_rate sd')"
proof -
  show p: "rate_ok U p'"
  proof (rule rate_adapt_cases [OF assms(3)])
    fix tx retry q
    assume e: "tx = 0 \<Longrightarrow> retry = 0"
      "ra_CurrentOperaRate q = (if rs_signalstrength (nw_stats (sd_network sd)) > 85 then 108 else word_of_int (sd_rate sd sdiv 5))"
      "ra_bTryuping q = ra_bTryuping p" "ra_CurrTxRate q = ra_CurrTxRate p" "ra_TryupingCountNoData q = ra_TryupingCountNoData p"
      "ra_TryupingCount q = ra_TryupingCount p" "pr_InitialGain q = pr_InitialGain p"
      and p': "p' = (if retry = 0 then rate_idle q else rate_busy tx retry (q\<lparr>ra_TryupingCountNoData := 0\<rparr>))\<lparr>ra_LastRetryRate := retry\<rparr>"
    have "rate_ok U q" using assms(1,2) rate_valid_opera unfolding rate_ok_def e(2-) by simp
    then show "rate_ok U p'" unfolding p' using e(1) by (auto simp: rate_ok_rate intro!: rate_ok_idle rate_ok_busy)
  qed
  show "rate_valid U (sd_rate sd')"
    by (rule rate_adapt_cases [OF assms(3)]) (use p in \<open>simp add: opera_rate_valid rate_ok_def\<close>)
qed

section \<open>Recovery\<close>

text \<open>The place of a rate in the ladder, and how far an idle station is from the top of it.\<close>

definition rate_rank :: "u8 \<Rightarrow> nat" where
  "rate_rank r = (if r = 2 then 0 else if r = 4 then 1 else if r = 11 then 2 else if r = 22 then 3 else if r = 36 then 4
     else if r = 48 then 5 else if r = 72 then 6 else if r = 96 then 7 else 8)"

definition rate_distance :: "u8 \<Rightarrow> u8 \<Rightarrow> nat" where
  "rate_distance r n = (8 - rate_rank r) * 11 - unat n"

lemma rate_rank_up: "opera_rate {} r \<Longrightarrow> r \<noteq> 108 \<Longrightarrow> rate_rank (rate_up r) = Suc (rate_rank r) \<and> rate_rank r < 8"
  by (auto simp: opera_rate_def rate_rank_def rate_up_def)

text \<open>A period is quiet when no frame was sent or none was repeated.\<close>

definition rate_quiet :: "station \<Rightarrow> 'z r8187_dm_scheme \<Rightarrow> bool" where
  "rate_quiet sd priv \<longleftrightarrow> (case rate_measure sd priv of (tx, retry, _) \<Rightarrow> tx = 0 \<or> retry = 0)"

text \<open>What a quiet period does to the rate, and to the count of quiet periods.\<close>

lemma rate_quiet_eq:
  fixes sd :: station and p :: "'z r8187_dm_scheme"
  assumes "rate_quiet sd p" "sta_rateadaptive8187 sd p = (sd', p')"
  defines "r \<equiv> if rs_signalstrength (nw_stats (sd_network sd)) > 85 then 108 else word_of_int (sd_rate sd sdiv 5)"
    and "n \<equiv> ra_TryupingCountNoData p + 1"
  shows "sd_rate sd' = uint (if n > 10 then rate_up r else r) * 5" "ra_TryupingCountNoData p' = (if n > 10 then 0 else n)"
proof -
  have "sd_rate sd' = uint (if n > 10 then rate_up r else r) * 5 \<and> ra_TryupingCountNoData p' = (if n > 10 then 0 else n)"
  proof (rule rate_adapt_cases [OF assms(2)])
    fix tx retry q
    assume retry: "retry = fst (snd (rate_measure sd p))"
      and q: "ra_CurrentOperaRate q = (if rs_signalstrength (nw_stats (sd_network sd)) > 85 then 108 else word_of_int (sd_rate sd sdiv 5))"
        "ra_TryupingCountNoData q = ra_TryupingCountNoData p"
      and p': "p' = (if retry = 0 then rate_idle q else rate_busy tx retry (q\<lparr>ra_TryupingCountNoData := 0\<rparr>))\<lparr>ra_LastRetryRate := retry\<rparr>"
      and sd': "sd' = sd\<lparr>sd_rate := uint (ra_CurrentOperaRate p') * 5\<rparr>"
    obtain t v w where m: "rate_measure sd p = (t, v, w)" by (metis prod_cases3)
    have "retry = 0" using assms(1) rate_measure_eq(9) [OF m] retry unfolding rate_quiet_def m by auto
    then have p: "p' = (rate_idle q)\<lparr>ra_LastRetryRate := retry\<rparr>" using p' by simp
    have "ra_CurrentOperaRate q = r" unfolding q(1) r_def ..
    then have "rate_idle q = (if n > 10 then q\<lparr>ra_TryupingCountNoData := 0, ra_CurrentOperaRate := rate_up r\<rparr>
        else q\<lparr>ra_TryupingCountNoData := n\<rparr>)" "ra_CurrentOperaRate q = r"
      unfolding rate_idle_def Let_def n_def q(2) by simp_all
    then show ?thesis unfolding p sd' by simp
  qed
  then show "sd_rate sd' = uint (if n > 10 then rate_up r else r) * 5" "ra_TryupingCountNoData p' = (if n > 10 then 0 else n)"
    by simp_all
qed

lemma ladder_opera: "r \<in> rate_ladder \<Longrightarrow> opera_rate {} (word_of_int (r sdiv 5)) \<and> uint (word_of_int (r sdiv 5) :: u8) * 5 = r"
  by (auto simp: rate_ladder_def opera_rate_def signed_divide_int_def)

lemma opera_ladder: "opera_rate {} r \<Longrightarrow> uint r * 5 \<in> rate_ladder"
  by (auto simp: rate_ladder_def opera_rate_def)

lemma rate_quiet_step:
  assumes "sd_rate sd \<in> rate_ladder" "rate_ok U p" "rate_quiet sd p" "sta_rateadaptive8187 sd p = (sd', p')"
  defines "d \<equiv> \<lambda>sd p. rate_distance (word_of_int (sd_rate sd sdiv 5)) (ra_TryupingCountNoData p)"
  shows "sd_rate sd' \<in> rate_ladder \<and> (sd_rate sd' = 540 \<or> (sd_rate sd \<noteq> 540 \<and> d sd' p' < d sd p))"
proof -
  let ?r = "word_of_int (sd_rate sd sdiv 5) :: u8" and ?n = "ra_TryupingCountNoData p"
  define r where "r = (if rs_signalstrength (nw_stats (sd_network sd)) > 85 then 108 else ?r)"
  define q where "q = (if ?n + 1 > 10 then rate_up r else r)"
  have e: "sd_rate sd' = uint q * 5" "ra_TryupingCountNoData p' = (if ?n + 1 > 10 then 0 else ?n + 1)"
    using rate_quiet_eq [OF assms(3,4)] unfolding q_def r_def by simp_all
  have o: "opera_rate {} ?r" "opera_rate {} r" "uint ?r * 5 = sd_rate sd" using ladder_opera [OF assms(1)] unfolding r_def by simp_all
  then have l: "sd_rate sd' \<in> rate_ladder" unfolding e(1) q_def using opera_ladder opera_rate_up by simp
  have n: "unat ?n \<le> 10" using assms(2) by (simp add: rate_ok_def word_le_nat_alt)
  then have s: "unat (?n + 1) = unat ?n + 1" by (simp add: unat_word_ariths)
  have d': "d sd' p' = rate_distance q (ra_TryupingCountNoData p')" unfolding d_def e(1) by (simp add: rate_back)
  show ?thesis
  proof (cases "r = 108")
    case True
    then have "q = 108" by (simp add: q_def rate_up_def)
    then show ?thesis using l e(1) by simp
  next
    case False
    then have r: "r = ?r" "?r \<noteq> 108" unfolding r_def by (simp_all split: if_splits)
    then have x: "sd_rate sd \<noteq> 540" by (auto simp: signed_divide_int_def)
    have k: "rate_rank (rate_up ?r) = Suc (rate_rank ?r)" "rate_rank ?r < 8" using rate_rank_up [OF o(1) r(2)] by simp_all
    have "d sd' p' < d sd p"
    proof (cases "?n + 1 > 10")
      case True
      then have "q = rate_up ?r" "ra_TryupingCountNoData p' = 0" unfolding e(2) q_def r(1) by simp_all
      moreover have "(8 - rate_rank ?r) * 11 = (8 - Suc (rate_rank ?r)) * 11 + 11" using k(2) by simp
      ultimately show ?thesis unfolding d' unfolding d_def rate_distance_def using n k(1) by (simp del: mult_Suc)
    next
      case False
      then have "q = ?r" "ra_TryupingCountNoData p' = ?n + 1" unfolding e(2) q_def by (simp_all add: r(1))
      moreover have "unat ?n + 1 \<le> 10" using False s by (simp add: word_less_nat_alt)
      moreover have "11 \<le> (8 - rate_rank ?r) * 11" using k(2) by simp
      ultimately show ?thesis unfolding d' unfolding d_def rate_distance_def using s by simp
    qed
    then show ?thesis using l x by blast
  qed
qed

text \<open>6, 9 and 12 Mb/s are on no branch of the way up: a quiet period leaves them as they are, unless the signal is strong.\<close>

lemma rate_quiet_stays:
  assumes "sd_rate sd \<in> {60, 90, 120}" "rate_quiet sd p" "sta_rateadaptive8187 sd p = (sd', p')"
  shows "sd_rate sd' = (if rs_signalstrength (nw_stats (sd_network sd)) > 85 then 540 else sd_rate sd)"
  using rate_quiet_eq(1) [OF assms(2,3)] assms(1) by (auto simp: rate_up_def signed_divide_int_def)

section \<open>The invariant\<close>

definition dm_inv :: "int set \<Rightarrow> ('z r8187_dm_scheme, 'h) dm_host_scheme \<Rightarrow> bool" where
  "dm_inv U h \<longleftrightarrow> rate_valid U (sd_rate (dh_sd h)) \<and> rate_ok U (dh_priv h) \<and> power_tables (dh_priv h) \<and>
     dm_card_8187 (dh_priv h) = NIC_8187 \<and> dm_UndecoratedSmoothedSS (dh_priv h) = 0 \<and>
     dm_TrSwitchState (dh_priv h) = TR_HW_CONTROLLED \<and> \<not> dm_bToUpdateTxPwr (dh_priv h) \<and> pr_StageCCKTh (dh_priv h) = 0 \<and>
     dm_DIG_NumberFallbackVote (dh_priv h) \<le> 1 \<and> dm_DIG_NumberUpgradeVote (dh_priv h) \<le> 9"

lemma exec_gain_obtain:
  obtains xs where "exec UpdateInitialGain (p\<lparr>pr_InitialGain := g\<rparr>) = p\<lparr>pr_InitialGain := g, nic_log := xs\<rparr>"
  using exec_keeps [OF keeps_UpdateInitialGain, of "p\<lparr>pr_InitialGain := g\<rparr>"] by auto

text \<open>A change of the gain within the stages, of the votes within their limits, and of nothing else.\<close>

definition dig_moves :: "'z r8187_dm_scheme \<Rightarrow> 'z r8187_dm_scheme \<Rightarrow> bool" where
  "dig_moves p q \<longleftrightarrow> (\<exists>g a b xs. q = p\<lparr>pr_InitialGain := g, dm_DIG_NumberFallbackVote := a, dm_DIG_NumberUpgradeVote := b, nic_log := xs\<rparr> \<and>
     gain_stage g \<and> a \<le> 1 \<and> b \<le> 9)"

lemma dig_first_gain_eq:
  assumes "dm_card_8187 p = NIC_8187" "gain_stage (pr_InitialGain p)"
  shows "dig_first_gain p = p\<lparr>pr_InitialGain := (if pr_InitialGain p = 0 then if pr_rf_chip p = RF_ZEBRA2 then 4 else 5 else pr_InitialGain p)\<rparr>"
proof -
  have "\<not> pr_InitialGain p > 7" using assms(2) by (auto simp: gain_stage_def)
  then show ?thesis using assms(1) by (simp add: dig_first_gain_def Let_def)
qed

lemma byte_le_1: "(a :: u8) \<le> 1 \<Longrightarrow> a = 0 \<or> a = 1"
proof -
  assume "a \<le> 1"
  then have "unat a = 0 \<or> unat a = 1" by (auto simp: word_le_nat_alt)
  then show ?thesis by (simp add: word_unat_eq_iff)
qed

lemma gain_stage_up: "gain_stage g \<Longrightarrow> g \<noteq> 0 \<Longrightarrow> g < 7 \<Longrightarrow> gain_stage (g + 1)"
  by (auto simp: gain_stage_def)

lemma gain_stage_down: "gain_stage g \<Longrightarrow> g > 4 \<Longrightarrow> gain_stage (g - 1)"
  by (auto simp: gain_stage_def)

definition votes_ok :: "'z r8187_dm_scheme \<Rightarrow> bool" where
  "votes_ok p \<longleftrightarrow> gain_stage (pr_InitialGain p) \<and> dm_DIG_NumberFallbackVote p \<le> 1 \<and> dm_DIG_NumberUpgradeVote p \<le> 9"

lemma dig_movesI: "q = p\<lparr>pr_InitialGain := g, dm_DIG_NumberFallbackVote := a, dm_DIG_NumberUpgradeVote := b, nic_log := xs\<rparr> \<Longrightarrow>
     gain_stage g \<Longrightarrow> a \<le> 1 \<Longrightarrow> b \<le> 9 \<Longrightarrow> dig_moves p q"
  unfolding dig_moves_def by blast

lemma dig_noisy_moves:
  assumes "votes_ok p" "pr_InitialGain p \<noteq> 0"
  shows "dig_moves p (dig_noisy 7 p)"
proof -
  let ?q = "p\<lparr>dm_DIG_NumberFallbackVote := dm_DIG_NumberFallbackVote p + 1\<rparr>"
  obtain xs where x: "exec UpdateInitialGain (?q\<lparr>pr_InitialGain := pr_InitialGain p + 1\<rparr>) = ?q\<lparr>pr_InitialGain := pr_InitialGain p + 1, nic_log := xs\<rparr>"
    by (rule exec_gain_obtain [of "pr_InitialGain p + 1" ?q]) auto
  have v: "gain_stage (pr_InitialGain p)" "dm_DIG_NumberFallbackVote p = 0 \<or> dm_DIG_NumberFallbackVote p = 1" "dm_DIG_NumberUpgradeVote p \<le> 9"
    using assms(1) byte_le_1 by (simp_all add: votes_ok_def)
  show ?thesis
  proof (cases "dm_DIG_NumberFallbackVote p = 1")
    case True
    show ?thesis
    proof (cases "pr_InitialGain p < 7")
      case lt: True
      show ?thesis
        by (rule dig_movesI [where g = "pr_InitialGain p + 1" and a = 0 and b = 0 and xs = xs]) (use True lt x v gain_stage_up assms(2) in \<open>simp_all add: dig_noisy_def Let_def\<close>)
    next
      case ge: False
      show ?thesis
        by (intro dig_movesI [where g = "pr_InitialGain p" and a = 0 and b = 0 and xs = "nic_log p"]) (use True ge v in \<open>simp_all add: dig_noisy_def Let_def\<close>)
    qed
  next
    case False
    then have "dm_DIG_NumberFallbackVote p = 0" using v(2) by blast
    then show ?thesis
      by (intro dig_movesI [where g = "pr_InitialGain p" and a = 1 and b = "dm_DIG_NumberUpgradeVote p" and xs = "nic_log p"]) (use v in \<open>simp_all add: dig_noisy_def Let_def\<close>)
  qed
qed

lemma dig_less_eq:
  assumes "votes_ok p"
  shows "dig_less p = p\<lparr>dm_DIG_NumberFallbackVote := 0\<rparr>"
  using assms byte_le_1 [of "dm_DIG_NumberFallbackVote p"] by (auto simp: dig_less_def votes_ok_def)

lemma dig_quiet_moves:
  assumes "votes_ok p"
  shows "dig_moves p (dig_quiet 4 p)"
proof -
  let ?q = "p\<lparr>dm_DIG_NumberFallbackVote := 0, dm_DIG_NumberUpgradeVote := dm_DIG_NumberUpgradeVote p + 1\<rparr>"
  obtain xs where x: "exec UpdateInitialGain (?q\<lparr>pr_InitialGain := pr_InitialGain p - 1\<rparr>) = ?q\<lparr>pr_InitialGain := pr_InitialGain p - 1, nic_log := xs\<rparr>"
    by (rule exec_gain_obtain [of "pr_InitialGain p - 1" ?q]) auto
  have v: "gain_stage (pr_InitialGain p)" using assms by (simp add: votes_ok_def)
  show ?thesis
  proof (cases "dm_DIG_NumberUpgradeVote p + 1 > 9")
    case True
    show ?thesis
    proof (cases "pr_InitialGain p > 4")
      case gt: True
      show ?thesis
        by (rule dig_movesI [where g = "pr_InitialGain p - 1" and a = 0 and b = 0 and xs = xs]) (use True gt x v gain_stage_down in \<open>simp_all add: dig_quiet_def dig_less_eq [OF assms] Let_def\<close>)
    next
      case ge: False
      show ?thesis
        by (intro dig_movesI [where g = "pr_InitialGain p" and a = 0 and b = 0 and xs = "nic_log p"]) (use True ge v in \<open>simp_all add: dig_quiet_def dig_less_eq [OF assms] Let_def\<close>)
    qed
  next
    case False
    then show ?thesis
      by (intro dig_movesI [where g = "pr_InitialGain p" and a = 0 and b = "dm_DIG_NumberUpgradeVote p + 1" and xs = "nic_log p"])
        (use v in \<open>simp_all add: dig_quiet_def dig_less_eq [OF assms] Let_def not_less\<close>)
  qed
qed

lemma DIG_Zebra_moves:
  assumes "votes_ok p" "dm_card_8187 p = NIC_8187"
  shows "dig_moves p (DIG_Zebra p)"
proof -
  define g where "g = (if pr_InitialGain p = 0 then if pr_rf_chip p = RF_ZEBRA2 then 4 else 5 else pr_InitialGain p)"
  let ?q = "p\<lparr>pr_InitialGain := g\<rparr>"
  have "gain_stage (pr_InitialGain p)" using assms(1) by (simp add: votes_ok_def)
  from dig_first_gain_eq [OF assms(2) this] have f: "dig_first_gain p = ?q" by (simp add: g_def)
  have q: "votes_ok ?q" "pr_InitialGain ?q \<noteq> 0" using assms(1) by (auto simp: votes_ok_def g_def)
  obtain al f1 f2 where d: "dig_alarms p = (al, f1, f2)" by (metis prod_cases3)
  have m: "dig_moves p r" if "dig_moves ?q r" for r
    using that unfolding dig_moves_def by (elim exE conjE) (rule dig_movesI [unfolded dig_moves_def], simp_all)
  have u: "dig_moves p (r\<lparr>dm_DIG_NumberUpgradeVote := 0\<rparr>)" if moved: "dig_moves p r" for r
  proof -
    obtain g a b xs where r: "r = p\<lparr>pr_InitialGain := g, dm_DIG_NumberFallbackVote := a, dm_DIG_NumberUpgradeVote := b, nic_log := xs\<rparr>"
      "gain_stage g" "a \<le> 1" using moved unfolding dig_moves_def by blast
    have "r\<lparr>dm_DIG_NumberUpgradeVote := 0\<rparr> =
        p\<lparr>pr_InitialGain := g, dm_DIG_NumberFallbackVote := a, dm_DIG_NumberUpgradeVote := 0, nic_log := xs\<rparr>"
      unfolding r(1) by (rule r8187_dm.equality) simp_all
    from dig_movesI [OF this r(2,3)] show ?thesis by simp
  qed
  have l: "dig_moves ?q (dig_less ?q)"
    by (rule dig_movesI [where g = g and a = 0 and b = "dm_DIG_NumberUpgradeVote p" and xs = "nic_log p"]) (use q in \<open>simp_all add: dig_less_eq votes_ok_def\<close>)
  show ?thesis
    unfolding DIG_Zebra_def d f Let_def prod.case using assms(2) m [OF dig_noisy_moves [OF q]] m [OF dig_quiet_moves [OF q(1)]] m [OF l] u by simp
qed

lemma keeps_false_alarms [keeps]: "nic_keeps false_alarms"
  unfolding false_alarms_def by (intro keeps)

text \<open>The work reads the counter, and then only the gain moves: the threshold of CCK frames is for the other chip.\<close>

lemma hw_dig_moves:
  assumes "votes_ok p" "dm_card_8187 p = NIC_8187"
  shows "\<exists>v xs. dig_moves (p\<lparr>dm_FalseAlarmRegValue := v, nic_log := xs\<rparr>) (rtl8180_hw_dig_wq p)"
proof -
  obtain xs where x: "exec false_alarms p = p\<lparr>nic_log := xs @ nic_log p\<rparr>" using exec_keeps [OF keeps_false_alarms] by blast
  let ?q = "p\<lparr>dm_FalseAlarmRegValue := fst (run_state false_alarms p), nic_log := xs @ nic_log p\<rparr>"
  have e: "(exec false_alarms p)\<lparr>dm_FalseAlarmRegValue := fst (run_state false_alarms p)\<rparr> = ?q" unfolding x by simp
  have q: "votes_ok ?q" "dm_card_8187 ?q = NIC_8187" using assms by (simp_all add: votes_ok_def)
  have r: "dig_moves ?q ?q" using q(1)
    by (intro dig_movesI [where g = "pr_InitialGain p" and a = "dm_DIG_NumberFallbackVote p" and b = "dm_DIG_NumberUpgradeVote p" and xs = "xs @ nic_log p"]) (simp_all add: votes_ok_def)
  define r where "r = (if dm_bDigMechanism ?q then DynamicInitGain ?q else ?q)"
  have m: "dig_moves ?q r" using DIG_Zebra_moves [OF q] r unfolding DynamicInitGain_def r_def by simp
  then have "dm_card_8187 r = NIC_8187" unfolding dig_moves_def using q(2) by auto
  then have "rtl8180_hw_dig_wq p = r"
    unfolding rtl8180_hw_dig_wq_def Let_def split_beta exec_def [symmetric] e r_def [symmetric] by simp
  then show ?thesis using m by blast
qed

section \<open>Every event keeps the invariant\<close>

lemma high_power_idle:
  assumes "dm_card_8187 p = NIC_8187" "dm_UndecoratedSmoothedSS p = 0" "dm_TrSwitchState p = TR_HW_CONTROLLED"
    "\<not> dm_bToUpdateTxPwr p"
  shows "rtl8180_tx_pw_wq p = Some p"
  using assms by (auto simp: rtl8180_tx_pw_wq_def DoRxHighPower_def hipwr_limits_def Let_def)

lemma set_chan_moves:
  assumes "power_tables p" "rtl8180_set_chan sd ch p = Some q"
  shows "\<exists>xs. q = p\<lparr>pr_chan := ch, nic_log := xs\<rparr>"
proof -
  have "\<not> (ch < 0 \<or> ch > 14)" using rtl8180_set_chan_outside [OF assms(1), of ch sd] assms(2) by auto
  then obtain q' where "rtl8180_set_chan sd ch p = Some q'" "log_ext (p\<lparr>pr_chan := ch\<rparr>) q'"
    using rtl8180_set_chan_total [OF assms(1), of ch sd] by auto
  then show ?thesis using assms(2) unfolding log_ext_def by auto
qed

definition dm_frame :: "'z r8187_dm_scheme \<Rightarrow> _" where
  "dm_frame p = (pr_chtxpwr p, pr_chtxpwr_ofdm p, dm_card_8187 p, dm_UndecoratedSmoothedSS p, dm_TrSwitchState p,
     dm_bToUpdateTxPwr p, pr_StageCCKTh p, dm_DIG_NumberFallbackVote p, dm_DIG_NumberUpgradeVote p, st_txok p, ra_LastTxokCnt p,
     pr_rf_chip p, r8187_dm.more p)"

lemma dm_frame_updates [simp]:
  "dm_frame (p\<lparr>ra_CurrentOperaRate := r\<rparr>) = dm_frame p" "dm_frame (p\<lparr>ra_TryupingCountNoData := n\<rparr>) = dm_frame p"
  "dm_frame (p\<lparr>ra_TryDownCountLowData := n\<rparr>) = dm_frame p" "dm_frame (p\<lparr>ra_LastRetryRate := l\<rparr>) = dm_frame p"
  "dm_frame (p\<lparr>ra_bTryuping := b\<rparr>) = dm_frame p" "dm_frame (p\<lparr>ra_TryupingCount := t\<rparr>) = dm_frame p"
  "dm_frame (p\<lparr>ra_CurrTxRate := r\<rparr>) = dm_frame p" "dm_frame (p\<lparr>ra_CurrRetryRate := l\<rparr>) = dm_frame p"
  by (simp_all add: dm_frame_def st_txok_def)

lemma dm_frame_gain [simp]: "dm_frame (gain_to g p) = dm_frame p"
  by (rule gain_to_obtain [of g p]) (simp add: dm_frame_def st_txok_def)

lemma dm_frame_if: "dm_frame p = f \<Longrightarrow> dm_frame q = f \<Longrightarrow> dm_frame (if c then p else q) = f"
  by simp

lemma dm_frame_rate [simp]: "dm_frame (rate_try retry r p) = dm_frame p" "dm_frame (rate_drop r p) = dm_frame p" "dm_frame (rate_idle p) = dm_frame p"
  by (simp_all add: rate_try_def rate_drop_def rate_idle_def Let_def)

lemma dm_frame_by_current [simp]: "dm_frame (rate_by_current retry p) = dm_frame p"
  unfolding rate_by_current_def Let_def by (intro dm_frame_if; simp)

lemma dm_frame_busy [simp]: "dm_frame (rate_busy tx retry p) = dm_frame p"
  unfolding rate_busy_def Let_def by (intro dm_frame_if) (simp_all split: if_split)

lemma rate_adapt_frame:
  assumes "sta_rateadaptive8187 sd p = (sd', p')"
  shows "dm_frame p' = dm_frame (p\<lparr>ra_LastTxokCnt := st_txok p\<rparr>)"
proof -
  obtain tx retry q where m: "rate_measure sd p = (tx, retry, q)" by (metis prod_cases3)
  obtain xs where "exec (read_nic_word 0xfffa) p = p\<lparr>nic_log := xs @ nic_log p\<rparr>"
    using exec_keeps [of "read_nic_word 0xfffa"] keeps_access(7) by blast
  then have "dm_frame q = dm_frame (p\<lparr>ra_LastTxokCnt := st_txok p\<rparr>)"
    using m unfolding rate_measure_def Let_def split_beta exec_def [symmetric] by (auto simp: dm_frame_def st_txok_def)
  moreover have "dm_frame p' = dm_frame q"
    using assms unfolding sta_rateadaptive8187_def Let_def m prod.case by (auto split: if_splits)
  ultimately show ?thesis by simp
qed

lemma rate_valid_set: "rate_valid U 110" "rate_valid U 540"
  by (simp_all add: rate_valid_def rate_ladder_def)

lemma dm_step_inv:
  assumes "dm_step mode ev h h'" "dm_event_ok U ev" "dm_inv U h"
  shows "dm_inv U h'"
  using assms(1)
proof cases
  case rate_timer
  then show ?thesis using assms(3) by (simp add: timer_rate_adaptive_def Let_def dm_inv_def)
next
  case watch_dog
  then show ?thesis using assms(3) by (simp add: watch_dog_adaptive_def Let_def dm_inv_def)
next
  case rate_work
  obtain sd p where r: "sta_rateadaptive8187 (dh_sd h) (dh_priv h) = (sd, p)" by (metis surj_pair)
  have "rate_valid U (sd_rate (dh_sd h))" "rate_ok U (dh_priv h)" using assms(3) by (simp_all add: dm_inv_def)
  from rate_adapt_ok [OF this r] rate_adapt_frame [OF r] show ?thesis
    using assms(3) r unfolding rate_work by (simp add: rtl8180_rate_adapter_def dm_inv_def dm_frame_def power_tables_def)
next
  case dig_work
  have "votes_ok (dh_priv h)" "dm_card_8187 (dh_priv h) = NIC_8187" using assms(3) by (simp_all add: dm_inv_def votes_ok_def rate_ok_def)
  from hw_dig_moves [OF this] show ?thesis
    using assms(3) unfolding dig_work dig_moves_def by (auto simp: dm_inv_def rate_ok_def power_tables_def)
next
  case tx_pw_work
  then show ?thesis using assms(3) high_power_idle [of "dh_priv h"] by (simp add: dm_inv_def)
next
  case traffic
  then show ?thesis using assms(3) by (simp add: dm_count_def dm_inv_def rate_ok_def power_tables_def)
next
  case (channel ch p)
  have "power_tables (dh_priv h)" using assms(3) by (simp add: dm_inv_def)
  from set_chan_moves [OF this channel(3)] obtain xs where "p = (dh_priv h)\<lparr>pr_chan := ch, nic_log := xs\<rparr>" by blast
  then show ?thesis using assms(3) channel by (simp add: dm_inv_def rate_ok_def power_tables_def)
next
  case (soft_mac sd)
  have "rate_valid U (sd_rate (dh_sd h))" using assms(3) by (simp add: dm_inv_def)
  then have "rate_valid U (sd_rate sd)" using soft_mac(3) rate_valid_set by auto
  then show ?thesis using assms(3) unfolding soft_mac(2) by (simp add: dm_inv_def)
next
  case (user_rate v)
  then show ?thesis using assms(2,3) by (simp add: dm_event_ok_def dm_inv_def ieee80211_wx_set_rate_def rate_valid_def)
qed

lemma dm_init_inv:
  assumes "power_tables (dh_priv h)" "dm_UndecoratedSmoothedSS (dh_priv h) = 0"
  shows "dm_inv U (dm_init hw_version h)"
  using assms by (simp add: dm_init_def dm_defaults_def dm_inv_def rate_ok_def rate_valid_set power_tables_def)

lemma dm_reach_inv: "dm_reach mode U h h' \<Longrightarrow> dm_inv U h \<Longrightarrow> dm_inv U h'"
  by (induction rule: dm_reach.induct) (auto dest: dm_step_inv)


section \<open>A quiet station returns to the highest rate\<close>

text \<open>Any events, among them \<open>k\<close> runs of the rate adaptation, all of them after a quiet period; the soft MAC does not set the
  rate meanwhile.\<close>

inductive quiet_run :: "u8 \<Rightarrow> ('z r8187_dm_scheme, 'h) dm_host_scheme \<Rightarrow> nat \<Rightarrow> ('z r8187_dm_scheme, 'h) dm_host_scheme \<Rightarrow> bool" for mode h where
  quiet_start: "quiet_run mode h 0 h"
| quiet_rate: "quiet_run mode h k h' \<Longrightarrow> rate_quiet (dh_sd h') (dh_priv h') \<Longrightarrow> dm_step mode Rate_Work h' h'' \<Longrightarrow>
    quiet_run mode h (Suc k) h''"
| quiet_other: "quiet_run mode h k h' \<Longrightarrow> ev \<noteq> Rate_Work \<Longrightarrow> dm_step mode ev h' h'' \<Longrightarrow> sd_rate (dh_sd h'') = sd_rate (dh_sd h') \<Longrightarrow>
    quiet_run mode h k h''"

definition dm_distance :: "('z r8187_dm_scheme, 'h) dm_host_scheme \<Rightarrow> nat" where
  "dm_distance h = rate_distance (word_of_int (sd_rate (dh_sd h) sdiv 5)) (ra_TryupingCountNoData (dh_priv h))"

lemma other_step_count:
  assumes "dm_step mode ev h h'" "ev \<noteq> Rate_Work" "dm_inv U h"
  shows "ra_TryupingCountNoData (dh_priv h') = ra_TryupingCountNoData (dh_priv h)"
  using assms(1)
proof cases
  case rate_timer
  then show ?thesis by (simp add: timer_rate_adaptive_def Let_def)
next
  case watch_dog
  then show ?thesis by (simp add: watch_dog_adaptive_def Let_def)
next
  case dig_work
  have "votes_ok (dh_priv h)" "dm_card_8187 (dh_priv h) = NIC_8187" using assms(3) by (simp_all add: dm_inv_def votes_ok_def rate_ok_def)
  from hw_dig_moves [OF this] show ?thesis unfolding dig_work dig_moves_def by auto
next
  case tx_pw_work
  then show ?thesis using assms(3) high_power_idle [of "dh_priv h"] by (simp add: dm_inv_def)
next
  case traffic
  then show ?thesis by (simp add: dm_count_def)
next
  case (channel ch p)
  have "power_tables (dh_priv h)" using assms(3) by (simp add: dm_inv_def)
  from set_chan_moves [OF this channel(3)] show ?thesis unfolding channel(2) by auto
qed (use assms(2) in simp_all)

lemma dm_inv_UNIV: "dm_inv U h \<Longrightarrow> dm_inv UNIV h"
  by (auto simp: dm_inv_def rate_ok_def rate_valid_def opera_rate_def)

lemma dm_event_ok_UNIV [simp]: "dm_event_ok UNIV ev"
  by (simp add: dm_event_ok_def split: dm_event.split)

lemma rate_work_eq:
  assumes "dm_step mode Rate_Work h h'"
  shows "sta_rateadaptive8187 (dh_sd h) (dh_priv h) = (dh_sd h', dh_priv h')"
  using assms by (auto elim!: dm_stepE simp: rtl8180_rate_adapter_def split: prod.split)

lemma quiet_run_inv:
  assumes "quiet_run mode h k h'" "dm_inv UNIV h"
  shows "dm_inv UNIV h' \<and> (sd_rate (dh_sd h) \<in> rate_ladder \<longrightarrow> sd_rate (dh_sd h') \<in> rate_ladder \<and>
      (sd_rate (dh_sd h') = 540 \<or> dm_distance h' + k \<le> dm_distance h)) \<and>
    (sd_rate (dh_sd h) \<in> {60, 90, 120} \<longrightarrow> sd_rate (dh_sd h') \<in> {sd_rate (dh_sd h), 540})"
  using assms
proof (induction rule: quiet_run.induct)
  case quiet_start
  then show ?case by simp
next
  case (quiet_rate k h' h'')
  let ?r = "sd_rate (dh_sd h)" and ?r' = "sd_rate (dh_sd h')" and ?r'' = "sd_rate (dh_sd h'')"
  note e = rate_work_eq [OF quiet_rate.hyps(3)]
  from quiet_rate.IH quiet_rate.prems have i: "dm_inv UNIV h'"
    and d: "?r \<in> rate_ladder \<Longrightarrow> ?r' \<in> rate_ladder \<and> (?r' = 540 \<or> dm_distance h' + k \<le> dm_distance h)"
    and u: "?r \<in> {60, 90, 120} \<Longrightarrow> ?r' = ?r \<or> ?r' = 540" by simp_all
  have ok: "rate_ok UNIV (dh_priv h')" using i by (simp add: dm_inv_def)
  have "?r'' \<in> rate_ladder \<and> (?r'' = 540 \<or> dm_distance h'' + Suc k \<le> dm_distance h)" if "?r \<in> rate_ladder"
    using rate_quiet_step [OF conjunct1 [OF d [OF that]] ok quiet_rate.hyps(2) e] d [OF that] unfolding dm_distance_def by linarith
  moreover have "?r'' \<in> {?r, 540}" if "?r \<in> {60, 90, 120}"
  proof (cases "?r' = 540")
    case True
    then have "?r' \<in> rate_ladder" by (simp add: rate_ladder_def)
    from rate_quiet_step [OF this ok quiet_rate.hyps(2) e] True show ?thesis by simp
  next
    case False
    then have "?r' = ?r" using u [OF that] by blast
    then show ?thesis using rate_quiet_stays [OF _ quiet_rate.hyps(2) e] that by (simp split: if_splits)
  qed
  ultimately show ?case using dm_step_inv [OF quiet_rate.hyps(3) _ i] by simp
next
  case (quiet_other k h' ev h'')
  from quiet_other.IH quiet_other.prems have i: "dm_inv UNIV h'" by simp
  from dm_step_inv [OF quiet_other.hyps(3) _ i] other_step_count [OF quiet_other.hyps(3,2) i] quiet_other.IH quiet_other.prems
  show ?case unfolding dm_distance_def quiet_other.hyps(4) by simp
qed

lemma rate_distance_le: "dm_distance h \<le> 88"
proof -
  let ?r = "rate_rank (word_of_int (sd_rate (dh_sd h) sdiv 5))"
  have "dm_distance h \<le> (8 - ?r) * 11" unfolding dm_distance_def rate_distance_def by (rule diff_le_self)
  also have "\<dots> \<le> 8 * 11" by (rule mult_le_mono1) simp
  finally show ?thesis by simp
qed

lemma rate_distance_pos:
  assumes "dm_inv U h" "sd_rate (dh_sd h) \<in> rate_ladder" "sd_rate (dh_sd h) \<noteq> 540"
  shows "0 < dm_distance h"
proof -
  have n: "unat (ra_TryupingCountNoData (dh_priv h)) \<le> 10" using assms(1) by (simp add: dm_inv_def rate_ok_def word_le_nat_alt)
  have "rate_rank (word_of_int (sd_rate (dh_sd h) sdiv 5)) \<le> 7"
    using assms(2,3) by (auto simp: rate_ladder_def rate_rank_def signed_divide_int_def)
  then have "11 \<le> (8 - rate_rank (word_of_int (sd_rate (dh_sd h) sdiv 5))) * 11" by simp
  then show ?thesis using n unfolding dm_distance_def rate_distance_def by linarith
qed


text \<open>The frames of a period are counted in one byte.  After exactly 256 of them the period passes for one in which nothing was
  sent: however often the device had to repeat them, the rate is not lowered, and after eleven such periods it is raised.\<close>

theorem rate_count_wraps:
  assumes "rate_valid {} (sd_rate sd)" and "rate_ok {} p" and "st_txok p - ra_LastTxokCnt p = 256" and "sta_rateadaptive8187 sd p = (sd', p')"
  shows "sd_rate sd \<le> sd_rate sd' \<and> (ra_TryupingCountNoData p = 10 \<and> sd_rate sd < 540 \<longrightarrow> sd_rate sd < sd_rate sd')"
proof (rule rate_adapt_cases [OF assms(4)])
  fix tx retry q
  assume tx: "tx = ucast (st_txok p - ra_LastTxokCnt p)" "tx = 0 \<Longrightarrow> retry = 0"
    and q: "ra_CurrentOperaRate q = (if rs_signalstrength (nw_stats (sd_network sd)) > 85 then 108 else word_of_int (sd_rate sd sdiv 5))"
      "ra_TryupingCountNoData q = ra_TryupingCountNoData p"
    and p': "p' = (if retry = 0 then rate_idle q else rate_busy tx retry (q\<lparr>ra_TryupingCountNoData := 0\<rparr>))\<lparr>ra_LastRetryRate := retry\<rparr>"
    and sd': "sd' = sd\<lparr>sd_rate := uint (ra_CurrentOperaRate p') * 5\<rparr>"
  have "retry = 0" using tx unfolding assms(3) by simp
  then have p: "ra_CurrentOperaRate p' = (if ra_TryupingCountNoData p + 1 > 10 then rate_up (ra_CurrentOperaRate q) else ra_CurrentOperaRate q)"
    unfolding p' by (simp add: rate_idle_def Let_def q(2))
  show ?thesis
    using assms(1) unfolding sd' p q(1) rate_valid_def rate_ladder_def
    by (elim disjE insertE) (auto simp: rate_up_def signed_divide_int_def)
qed

text \<open>A station that neither sends nor receives: each round of its timer and its work is a quiet run.\<close>

definition dm_idle :: "('z r8187_dm_scheme, 'h) dm_host_scheme \<Rightarrow> bool" where
  "dm_idle h \<longleftrightarrow> dm_inv UNIV h \<and> dh_up h \<and> dh_rateadapter_timer h \<and> sd_state (dh_sd h) = LINKED \<and> sd_iw_mode (dh_sd h) = IW_MODE_INFRA \<and>
     ra_LastTxokCnt (dh_priv h) = st_txok (dh_priv h)"

lemma dm_idle_round:
  assumes "dm_idle h" "mode \<noteq> 2"
  shows "\<exists>h' h''. dm_step mode Rate_Timer h h' \<and> sd_rate (dh_sd h') = sd_rate (dh_sd h) \<and> rate_quiet (dh_sd h') (dh_priv h') \<and>
    dm_step mode Rate_Work h' h'' \<and> dm_idle h''"
proof -
  define h' where "h' = h\<lparr>dh_rateadapter_timer := True, dh_rate_adapter_wq := True\<rparr>"
  have t: "timer_rate_adaptive mode (h\<lparr>dh_rateadapter_timer := False\<rparr>) = h'"
    using assms by (simp add: timer_rate_adaptive_def dm_idle_def h'_def Let_def)
  have s: "dm_step mode Rate_Timer h h'" using dm_step.rate_timer [of h mode] assms(1) unfolding t by (simp add: dm_idle_def)
  obtain tx retry q where m: "rate_measure (dh_sd h) (dh_priv h) = (tx, retry, q)" by (metis prod_cases3)
  have quiet: "rate_quiet (dh_sd h') (dh_priv h')"
    using rate_measure_eq(8) [OF m] assms(1) m by (simp add: rate_quiet_def h'_def dm_idle_def)
  obtain sd p where r: "sta_rateadaptive8187 (dh_sd h) (dh_priv h) = (sd, p)" by (metis surj_pair)
  define h'' where "h'' = h'\<lparr>dh_rate_adapter_wq := False, dh_sd := sd, dh_priv := p\<rparr>"
  have w: "rtl8180_rate_adapter (h'\<lparr>dh_rate_adapter_wq := False\<rparr>) = h''" using r by (simp add: rtl8180_rate_adapter_def h'_def h''_def)
  have rw: "dm_step mode Rate_Work h' h''" using dm_step.rate_work [of h' mode] unfolding w by (simp add: h'_def)
  have "dm_inv UNIV h'" using assms(1) by (simp add: dm_idle_def dm_inv_def h'_def)
  from dm_step_inv [OF rw _ this] have i: "dm_inv UNIV h''" by simp
  have "sd_state sd = sd_state (dh_sd h) \<and> sd_iw_mode sd = sd_iw_mode (dh_sd h)"
    by (rule rate_adapt_cases [OF r]) simp
  moreover have "ra_LastTxokCnt p = st_txok p" using rate_adapt_frame [OF r] by (simp add: dm_frame_def st_txok_def)
  ultimately have "dm_idle h''" using i assms(1) unfolding dm_idle_def by (simp add: h''_def h'_def)
  with s quiet rw show ?thesis by (intro exI [of _ h'] exI [of _ h'']) (simp add: h'_def)
qed

lemma dm_idle_runs: "dm_idle h \<Longrightarrow> mode \<noteq> 2 \<Longrightarrow> \<exists>h'. quiet_run mode h k h' \<and> dm_idle h'"
proof (induction k)
  case 0
  then show ?case using quiet_start by blast
next
  case (Suc k)
  then obtain h' where h': "quiet_run mode h k h'" "dm_idle h'" by blast
  from dm_idle_round [OF h'(2) Suc.prems(2)] obtain h1 h2 where r: "dm_step mode Rate_Timer h' h1" "sd_rate (dh_sd h1) = sd_rate (dh_sd h')"
    "rate_quiet (dh_sd h1) (dh_priv h1)" "dm_step mode Rate_Work h1 h2" "dm_idle h2" by blast
  have "quiet_run mode h k h1" by (rule quiet_other [OF h'(1) _ r(1,2)]) simp
  from quiet_rate [OF this r(3,4)] r(5) show ?case by blast
qed

definition dm_example :: "r8187_dm dm_host" where
  "dm_example = \<lparr>dh_priv = r8187.extend board_example \<lparr>st_txbeaconokint = 0, st_txnpokint = 0, st_txhpokint = 0, st_txlpokint = 0, st_rxok = 0,
     ra_CurrentOperaRate = 0, ra_CurrRetryCnt = 0, ra_LastRetryCnt = 0, ra_LastRetryRate = 0, ra_LastTxokCnt = 0, ra_LastRxokCnt = 0,
     ra_ScanAllowedNow = False, ra_bTryuping = False, ra_CurrTxRate = 0, ra_CurrRetryRate = 0, ra_TryupingCount = 0,
     ra_TryDownCountLowData = 0, ra_TryupingCountNoData = 0, dm_card_8187 = NIC_8187, dm_card_8187_Bversion = VERSION_8187_B,
     dm_bDigMechanism = False, dm_bCCKThMechanism = False, dm_RegBModeGainStage = 0, dm_RegDigOfdmFaUpTh = 0,
     dm_DIG_NumberFallbackVote = 0, dm_DIG_NumberUpgradeVote = 0, dm_CCKUpperTh = 0, dm_CCKLowerTh = 0, dm_FalseAlarmRegValue = 0,
     dm_UndecoratedSmoothedSS = 0, dm_bRegHighPowerMechanism = False, dm_bToUpdateTxPwr = False, dm_Z2HiPwrUpperTh = 0,
     dm_Z2HiPwrLowerTh = 0, dm_Z2RSSIHiPwrUpperTh = 0, dm_Z2RSSIHiPwrLowerTh = 0, dm_CurCCKRSSI = 0, dm_bCurCCKPkt = False,
     dm_wMacRegRfPinsOutput = 0, dm_wMacRegRfPinsSelect = 0, dm_TrSwitchState = TR_HW_CONTROLLED\<rparr>,
     dh_sd = sta_example\<lparr>sd_state := LINKED, sd_iw_mode := IW_MODE_INFRA\<rparr>, dh_up = True, dh_rate_adapter_wq = False,
     dh_tx_pw_wq = False, dh_hw_dig_wq = False, dh_rateadapter_timer = True, dh_watch_dog_timer = True\<rparr>"

lemma dm_example_tables: "power_tables (dh_priv dm_example)" "dm_UndecoratedSmoothedSS (dh_priv dm_example) = 0"
  using board_example_facts(3) by (simp_all add: dm_example_def power_tables_def r8187.defs)

lemma dm_example_idle: "dm_idle (dm_init 6 dm_example)"
  using dm_init_inv [OF dm_example_tables, of UNIV 6] unfolding dm_idle_def
  by (simp add: dm_init_def dm_defaults_def dm_example_def st_txok_def)

lemma dm_example_user: "dm_reach 6 UNIV (dm_init 6 dm_example) ((dm_init 6 dm_example)\<lparr>dh_sd := (dh_sd (dm_init 6 dm_example))\<lparr>sd_rate := 60\<rparr>\<rparr>)"
proof -
  have "dm_step 6 (Set_Rate 6000000) (dm_init 6 dm_example) ((dm_init 6 dm_example)\<lparr>dh_sd := (dh_sd (dm_init 6 dm_example))\<lparr>sd_rate := 60\<rparr>\<rparr>)"
    using user_rate [of 6 6000000 "dm_init 6 dm_example"] by (simp add: ieee80211_wx_set_rate_def)
  from dm_next [OF dm_start _ this] show ?thesis by simp
qed



theorem rate_count_wraps_witness:
  "sd_rate (fst (sta_rateadaptive8187 (sta_example\<lparr>sd_rate := 55\<rparr>)
     ((dh_priv (dm_init 6 dm_example))\<lparr>st_txnpokint := 256, ra_TryupingCountNoData := 10\<rparr>))) > 55"
proof -
  let ?p = "(dh_priv (dm_init 6 dm_example))\<lparr>st_txnpokint := 256, ra_TryupingCountNoData := 10\<rparr>"
  have "rate_ok {} (dh_priv (dm_init 6 dm_example))" using dm_init_inv [OF dm_example_tables] by (simp add: dm_inv_def)
  then have "rate_ok {} ?p" by (simp add: rate_ok_def)
  moreover have "st_txok ?p - ra_LastTxokCnt ?p = 256" by (simp add: st_txok_def dm_init_def dm_defaults_def)
  moreover have "rate_valid {} (sd_rate (sta_example\<lparr>sd_rate := 55\<rparr>))" by (simp add: rate_valid_def rate_ladder_def)
  moreover obtain sd' p' where r: "sta_rateadaptive8187 (sta_example\<lparr>sd_rate := 55\<rparr>) ?p = (sd', p')" by (metis surj_pair)
  ultimately show ?thesis using rate_count_wraps [OF _ _ _ r] by simp
qed

end
