(* ===== verification/Dig.thy ===== *)
theory Dig
  imports Dm
begin

unbundle bit_operations_syntax

text \<open>
  What the dynamic gain of \<open>rtl8187/r8180_dm.c\<close> does over time: it follows the false alarms of the receiver, one stage
  up after two noisy periods, one stage down after ten quiet ones, and rests in between.
\<close>

section \<open>One period\<close>

text \<open>The mechanism as \<open>rtl8180_init\<close> sets it up, with a gain that has been chosen.\<close>

definition dig_ready :: "'z r8187_dm_scheme \<Rightarrow> bool" where
  "dig_ready p \<longleftrightarrow> dm_card_8187 p = NIC_8187 \<and> dm_card_8187_Bversion p \<noteq> VERSION_8187B_B \<and> dm_bDigMechanism p \<and>
     dm_RegDigOfdmFaUpTh p = 0x0c \<and> (pr_rf_chip p = RF_ZEBRA \<or> pr_rf_chip p = RF_ZEBRA2) \<and>
     votes_ok p \<and> 4 \<le> unat (pr_InitialGain p)"

definition dig_state :: "'z r8187_dm_scheme \<Rightarrow> nat \<times> nat \<times> nat" where
  "dig_state p = (unat (pr_InitialGain p), unat (dm_DIG_NumberFallbackVote p), unat (dm_DIG_NumberUpgradeVote p))"

text \<open>The false alarms the device will answer with.\<close>

definition alarms_are :: "(u32 \<Rightarrow> bool) \<Rightarrow> 'z nic_scheme \<Rightarrow> bool" where
  "alarms_are P n \<longleftrightarrow> (\<forall>log. P (drop_bit 16 (nic_answer n log 0xffd0 4)))"

lemma upper_half:
  fixes v :: u32
  shows "(ucast (drop_bit 16 v AND 0xffff) :: u16) = ucast (drop_bit 16 v)"
    "(k :: u16) < ucast (drop_bit 16 v) \<longleftrightarrow> ucast k < drop_bit 16 v"
proof -
  have m: "(0xffff :: u32) = mask 16" by (simp add: mask_eq_exp_minus_1)
  show "(ucast (drop_bit 16 v AND 0xffff) :: u16) = ucast (drop_bit 16 v)"
    unfolding m by (rule bit_word_eqI) (simp add: bit_unsigned_iff bit_and_iff bit_mask_iff)
  have "unat (drop_bit 16 v) = unat v div 2 ^ 16" by (simp add: drop_bit_eq_div unat_div)
  moreover have "unat v < 2 ^ 32" using unsigned_less [of v] by simp
  ultimately have "unat (drop_bit 16 v) < 2 ^ 16" by (simp add: less_mult_imp_div_less)
  then have "unat (ucast (drop_bit 16 v) :: u16) = unat (drop_bit 16 v)" by (simp add: unsigned_ucast_eq take_bit_eq_mod)
  moreover have "unat k < 2 ^ 16" using unsigned_less [of k] by simp
  then have "unat (ucast k :: u32) = unat k" by (simp add: unsigned_ucast_eq take_bit_eq_mod)
  ultimately show "k < ucast (drop_bit 16 v) \<longleftrightarrow> ucast k < drop_bit 16 v" by (simp add: word_less_nat_alt)
qed

lemma hw_dig_eq:
  assumes "dig_ready p"
  shows "\<exists>v xs. v = drop_bit 16 (nic_answer p (nic_log p) 0xffd0 4) \<and>
    (let q = p\<lparr>nic_log := xs, dm_FalseAlarmRegValue := nic_answer p (nic_log p) 0xffd0 4\<rparr> in
     rtl8180_hw_dig_wq p =
      (if v > 0xc00 then (dig_noisy 7 q)\<lparr>dm_DIG_NumberUpgradeVote := 0\<rparr>
       else if v > 0x15 then (dig_less q)\<lparr>dm_DIG_NumberUpgradeVote := 0\<rparr> else dig_quiet 4 q))"
proof -
  let ?w = "nic_answer p (nic_log p) 0xffd0 4"
  let ?q = "p\<lparr>nic_log := Nic_Read 0xffd0 4 # nic_log p, dm_FalseAlarmRegValue := ?w\<rparr>"
  have r: "run_state false_alarms p = (?w, p\<lparr>nic_log := Nic_Read 0xffd0 4 # nic_log p\<rparr>)"
    using assms by (simp add: false_alarms_def dig_ready_def read_nic_dword_def)
  have g: "pr_InitialGain p \<noteq> 0" "\<not> pr_InitialGain p > 7" using assms by (auto simp: dig_ready_def votes_ok_def gain_stage_def)
  have f: "dig_first_gain ?q = ?q" using assms g by (simp add: dig_first_gain_def dig_ready_def Let_def)
  have d: "dig_alarms ?q = (ucast (drop_bit 16 ?w), 0x15, 0xc00)" using assms by (simp add: dig_alarms_def dig_ready_def upper_half(1))
  have z: "DIG_Zebra ?q =
      (if drop_bit 16 ?w > 0xc00 then (dig_noisy 7 ?q)\<lparr>dm_DIG_NumberUpgradeVote := 0\<rparr>
       else if drop_bit 16 ?w > 0x15 then (dig_less ?q)\<lparr>dm_DIG_NumberUpgradeVote := 0\<rparr> else dig_quiet 4 ?q)"
  proof -
    have "0x15 < (ucast (drop_bit 16 ?w) :: u16) \<longleftrightarrow> 0x15 < drop_bit 16 ?w" "0xc00 < (ucast (drop_bit 16 ?w) :: u16) \<longleftrightarrow> 0xc00 < drop_bit 16 ?w"
      by (simp_all add: upper_half(2))
    moreover have "0xc00 < w \<Longrightarrow> 0x15 < w" for w :: u32 by (simp add: word_less_nat_alt)
    ultimately show ?thesis using assms unfolding DIG_Zebra_def f d Let_def prod.case by (simp add: dig_ready_def)
  qed
  have c: "dm_card_8187 (DIG_Zebra ?q) = NIC_8187"
    using DIG_Zebra_moves [of ?q] assms unfolding dig_moves_def by (force simp: dig_ready_def votes_ok_def)
  have "rtl8180_hw_dig_wq p = DIG_Zebra ?q"
    using assms c unfolding rtl8180_hw_dig_wq_def r Let_def prod.case by (simp add: DynamicInitGain_def dig_ready_def)
  then show ?thesis unfolding z Let_def by (intro exI [of _ "drop_bit 16 ?w"] exI [of _ "Nic_Read 0xffd0 4 # nic_log p"]) simp
qed

lemma update_gain_same:
  fixes p :: "'z r8187_dm_scheme"
  shows "pr_InitialGain (exec UpdateInitialGain p) = pr_InitialGain p"
    "dm_DIG_NumberFallbackVote (exec UpdateInitialGain p) = dm_DIG_NumberFallbackVote p"
    "dm_DIG_NumberUpgradeVote (exec UpdateInitialGain p) = dm_DIG_NumberUpgradeVote p"
  using exec_keeps [OF keeps_UpdateInitialGain, of p] by auto

lemma dig_gains:
  assumes "votes_ok q" "4 \<le> unat (pr_InitialGain q)"
  shows "pr_InitialGain q = 4 \<or> pr_InitialGain q = 5 \<or> pr_InitialGain q = 6 \<or> pr_InitialGain q = 7"
    "dm_DIG_NumberFallbackVote q = 0 \<or> dm_DIG_NumberFallbackVote q = 1"
  using assms byte_le_1 by (auto simp: votes_ok_def gain_stage_def)

lemma dig_noisy_state:
  assumes "votes_ok q" "4 \<le> unat (pr_InitialGain q)" "dig_state q = (g, f, u)"
  shows "dig_state ((dig_noisy 7 q)\<lparr>dm_DIG_NumberUpgradeVote := 0\<rparr>) = (if f = 0 then (g, 1, 0) else (min 7 (g + 1), 0, 0))"
  using dig_gains [OF assms(1,2)] assms(3) by (elim disjE) (auto simp: dig_state_def dig_noisy_def Let_def update_gain_same)

lemma dig_less_state:
  assumes "votes_ok q" "4 \<le> unat (pr_InitialGain q)" "dig_state q = (g, f, u)"
  shows "dig_state ((dig_less q)\<lparr>dm_DIG_NumberUpgradeVote := 0\<rparr>) = (g, 0, 0)"
  using assms(3) by (auto simp: dig_state_def dig_less_eq [OF assms(1)])

lemma dig_quiet_state:
  assumes "votes_ok q" "4 \<le> unat (pr_InitialGain q)" "dig_state q = (g, f, u)"
  shows "dig_state (dig_quiet 4 q) = (if u = 9 then (max 4 (g - 1), 0, 0) else (g, 0, u + 1))"
proof -
  have u: "unat (dm_DIG_NumberUpgradeVote q) = u" "u \<le> 9" using assms(1,3) by (auto simp: dig_state_def votes_ok_def word_le_nat_alt)
  then have "unat (dm_DIG_NumberUpgradeVote q + 1) = u + 1" by (simp add: unat_word_ariths)
  moreover from this u(2) have "dm_DIG_NumberUpgradeVote q + 1 > 9 \<longleftrightarrow> u = 9" by (auto simp: word_less_nat_alt)
  ultimately show ?thesis
    using dig_gains(1) [OF assms(1,2)] assms(3)
    by (elim disjE) (auto simp: dig_state_def dig_quiet_def dig_less_eq [OF assms(1)] Let_def update_gain_same)
qed

lemma dig_step:
  assumes "dig_ready p" "dig_state p = (g, f, u)"
  defines "v \<equiv> drop_bit 16 (nic_answer p (nic_log p) 0xffd0 4)"
  shows "dig_state (rtl8180_hw_dig_wq p) =
      (if v > 0xc00 then if f = 0 then (g, 1, 0) else (min 7 (g + 1), 0, 0)
       else if v > 0x15 then (g, 0, 0) else if u = 9 then (max 4 (g - 1), 0, 0) else (g, 0, u + 1))" (is ?state)
    and "dig_ready (rtl8180_hw_dig_wq p)" and "alarms_are P (rtl8180_hw_dig_wq p) = alarms_are P p"
proof -
  obtain xs where e: "rtl8180_hw_dig_wq p = (let q = p\<lparr>nic_log := xs, dm_FalseAlarmRegValue := nic_answer p (nic_log p) 0xffd0 4\<rparr> in
      (if v > 0xc00 then (dig_noisy 7 q)\<lparr>dm_DIG_NumberUpgradeVote := 0\<rparr>
       else if v > 0x15 then (dig_less q)\<lparr>dm_DIG_NumberUpgradeVote := 0\<rparr> else dig_quiet 4 q))"
    using hw_dig_eq [OF assms(1)] unfolding Let_def v_def by blast
  let ?q = "p\<lparr>nic_log := xs, dm_FalseAlarmRegValue := nic_answer p (nic_log p) 0xffd0 4\<rparr>"
  have q: "votes_ok ?q" "4 \<le> unat (pr_InitialGain ?q)" "dig_state ?q = (g, f, u)"
    using assms(1,2) by (simp_all add: dig_ready_def votes_ok_def dig_state_def)
  show s: ?state unfolding e Let_def using dig_noisy_state [OF q] dig_less_state [OF q] dig_quiet_state [OF q] by simp
  have "votes_ok p" "dm_card_8187 p = NIC_8187" and g: "4 \<le> g" using assms(1,2) by (auto simp: dig_ready_def dig_state_def)
  from hw_dig_moves [OF this(1,2)] obtain w ys where "dig_moves (p\<lparr>dm_FalseAlarmRegValue := w, nic_log := ys\<rparr>) (rtl8180_hw_dig_wq p)" by blast
  then obtain c a b zs where m: "rtl8180_hw_dig_wq p = p\<lparr>dm_FalseAlarmRegValue := w, nic_log := ys,
      pr_InitialGain := c, dm_DIG_NumberFallbackVote := a, dm_DIG_NumberUpgradeVote := b, nic_log := zs\<rparr>"
    "gain_stage c" "a \<le> 1" "b \<le> 9" unfolding dig_moves_def by blast
  show "alarms_are P (rtl8180_hw_dig_wq p) = alarms_are P p" unfolding m(1) by (simp add: alarms_are_def)
  have "4 \<le> unat (pr_InitialGain (rtl8180_hw_dig_wq p))" using s g by (auto simp: dig_state_def split: if_splits)
  then show "dig_ready (rtl8180_hw_dig_wq p)" using assms(1) m(2-) unfolding m(1) by (simp add: dig_ready_def votes_ok_def)
qed

section \<open>Many periods\<close>

lemma dig_noisy_runs:
  assumes "dig_ready p" "dig_state p = (g, 0, u)" "alarms_are (\<lambda>v. v > 0xc00) p" "g \<le> 7"
  shows "dig_ready ((rtl8180_hw_dig_wq ^^ (2 * n)) p) \<and> alarms_are (\<lambda>v. v > 0xc00) ((rtl8180_hw_dig_wq ^^ (2 * n)) p) \<and>
    (\<exists>u. dig_state ((rtl8180_hw_dig_wq ^^ (2 * n)) p) = (min 7 (g + n), 0, u))"
proof (induction n)
  case 0
  then show ?case using assms by simp
next
  case (Suc n)
  let ?p = "(rtl8180_hw_dig_wq ^^ (2 * n)) p"
  obtain u where i: "dig_ready ?p" "alarms_are (\<lambda>v. v > 0xc00) ?p" "dig_state ?p = (min 7 (g + n), 0, u)" using Suc by blast
  from i(2) have v: "drop_bit 16 (nic_answer ?p (nic_log ?p) 0xffd0 4) > 0xc00" by (simp add: alarms_are_def)
  let ?q = "rtl8180_hw_dig_wq ?p"
  have q: "dig_ready ?q" "alarms_are (\<lambda>v. v > 0xc00) ?q" "dig_state ?q = (min 7 (g + n), 1, 0)"
    using dig_step [OF i(1,3)] i(2) v by simp_all
  from q(2) have v: "drop_bit 16 (nic_answer ?q (nic_log ?q) 0xffd0 4) > 0xc00" by (simp add: alarms_are_def)
  have "dig_state (rtl8180_hw_dig_wq ?q) = (min 7 (g + Suc n), 0, 0)" "dig_ready (rtl8180_hw_dig_wq ?q)"
    "alarms_are (\<lambda>v. v > 0xc00) (rtl8180_hw_dig_wq ?q)"
    using dig_step [OF q(1,3)] q(2) v by auto
  then show ?case by simp
qed

lemma dig_quiet_step:
  assumes "dig_ready p" "dig_state p = (g, 0, u)" "alarms_are (\<lambda>v. v \<le> 0x15) p"
  shows "dig_ready (rtl8180_hw_dig_wq p)" "alarms_are (\<lambda>v. v \<le> 0x15) (rtl8180_hw_dig_wq p)"
    "dig_state (rtl8180_hw_dig_wq p) = (if u = 9 then (max 4 (g - 1), 0, 0) else (g, 0, u + 1))"
proof -
  have v: "drop_bit 16 (nic_answer p (nic_log p) 0xffd0 4) \<le> 0x15" using assms(3) by (simp add: alarms_are_def)
  then have "\<not> drop_bit 16 (nic_answer p (nic_log p) 0xffd0 4) > 0xc00" "\<not> drop_bit 16 (nic_answer p (nic_log p) 0xffd0 4) > 0x15"
    by (auto simp: word_le_nat_alt word_less_nat_alt)
  then show "dig_ready (rtl8180_hw_dig_wq p)" "alarms_are (\<lambda>v. v \<le> 0x15) (rtl8180_hw_dig_wq p)"
    "dig_state (rtl8180_hw_dig_wq p) = (if u = 9 then (max 4 (g - 1), 0, 0) else (g, 0, u + 1))"
    using dig_step [OF assms(1,2)] assms(3) by simp_all
qed

lemma dig_quiet_few:
  assumes "dig_ready p" "dig_state p = (g, 0, 0)" "alarms_are (\<lambda>v. v \<le> 0x15) p" "k \<le> 9"
  shows "dig_ready ((rtl8180_hw_dig_wq ^^ k) p) \<and> alarms_are (\<lambda>v. v \<le> 0x15) ((rtl8180_hw_dig_wq ^^ k) p) \<and>
    dig_state ((rtl8180_hw_dig_wq ^^ k) p) = (g, 0, k)"
  using assms(4)
proof (induction k)
  case 0
  then show ?case using assms by simp
next
  case (Suc k)
  let ?p = "(rtl8180_hw_dig_wq ^^ k) p"
  have i: "dig_ready ?p" "alarms_are (\<lambda>v. v \<le> 0x15) ?p" "dig_state ?p = (g, 0, k)" using Suc by simp_all
  from dig_quiet_step [OF i(1,3,2)] Suc.prems show ?case by simp
qed

lemma dig_quiet_runs:
  assumes "dig_ready p" "dig_state p = (g, 0, 0)" "alarms_are (\<lambda>v. v \<le> 0x15) p" "4 \<le> g"
  shows "dig_ready ((rtl8180_hw_dig_wq ^^ (10 * n)) p) \<and> alarms_are (\<lambda>v. v \<le> 0x15) ((rtl8180_hw_dig_wq ^^ (10 * n)) p) \<and>
    dig_state ((rtl8180_hw_dig_wq ^^ (10 * n)) p) = (max 4 (g - n), 0, 0)"
proof (induction n)
  case 0
  then show ?case using assms by simp
next
  case (Suc n)
  let ?p = "(rtl8180_hw_dig_wq ^^ (10 * n)) p" and ?q = "(rtl8180_hw_dig_wq ^^ 9) ((rtl8180_hw_dig_wq ^^ (10 * n)) p)"
  have i: "dig_ready ?p" "alarms_are (\<lambda>v. v \<le> 0x15) ?p" "dig_state ?p = (max 4 (g - n), 0, 0)" using Suc by simp_all
  from dig_quiet_few [OF i(1,3,2), of 9] have q: "dig_ready ?q" "alarms_are (\<lambda>v. v \<le> 0x15) ?q" "dig_state ?q = (max 4 (g - n), 0, 9)" by simp_all
  have e: "(rtl8180_hw_dig_wq ^^ (10 * Suc n)) p = rtl8180_hw_dig_wq ?q"
  proof -
    have "10 * Suc n = Suc (9 + 10 * n)" by simp
    then show ?thesis by (simp only: funpow.simps funpow_add o_apply)
  qed
  from dig_quiet_step [OF q(1,3,2)] show ?case unfolding e by auto
qed

lemma dig_rest_runs:
  assumes "dig_ready p" "dig_state p = (g, f, u)" "alarms_are (\<lambda>v. 0x15 < v \<and> v \<le> 0xc00) p"
  shows "dig_ready ((rtl8180_hw_dig_wq ^^ n) p) \<and> alarms_are (\<lambda>v. 0x15 < v \<and> v \<le> 0xc00) ((rtl8180_hw_dig_wq ^^ n) p) \<and>
    (\<exists>f u. dig_state ((rtl8180_hw_dig_wq ^^ n) p) = (g, f, u))"
proof (induction n)
  case 0
  then show ?case using assms by simp
next
  case (Suc n)
  let ?p = "(rtl8180_hw_dig_wq ^^ n) p"
  obtain f u where i: "dig_ready ?p" "alarms_are (\<lambda>v. 0x15 < v \<and> v \<le> 0xc00) ?p" "dig_state ?p = (g, f, u)" using Suc by blast
  from i(2) have "\<not> drop_bit 16 (nic_answer ?p (nic_log ?p) 0xffd0 4) > 0xc00" "drop_bit 16 (nic_answer ?p (nic_log ?p) 0xffd0 4) > 0x15"
    by (auto simp: alarms_are_def not_less)
  with dig_step [OF i(1,3)] i(2) show ?case by simp
qed

text \<open>C37: The dynamic gain follows the false alarms the receiver counts.  While they stay above the upper limit, it rises by one
  stage every two periods up to stage 7; while they stay below the lower limit, it falls by one stage every ten
  periods down to stage 4; between the limits it does not move.\<close>

theorem dig_follows_alarms:
  assumes "dig_ready p" and "dm_DIG_NumberFallbackVote p = 0" and "dm_DIG_NumberUpgradeVote p = 0"
  defines "g \<equiv> unat (pr_InitialGain p)" and "runs \<equiv> \<lambda>k. unat (pr_InitialGain ((rtl8180_hw_dig_wq ^^ k) p))"
  shows "(alarms_are (\<lambda>v. v > 0xc00) p \<longrightarrow> runs (2 * n) = min 7 (g + n)) \<and>
    (alarms_are (\<lambda>v. v \<le> 0x15) p \<longrightarrow> runs (10 * n) = max 4 (g - n)) \<and>
    (alarms_are (\<lambda>v. 0x15 < v \<and> v \<le> 0xc00) p \<longrightarrow> runs n = g)"
proof -
  have s: "dig_state p = (g, 0, 0)" using assms(2,3) by (simp add: dig_state_def g_def)
  have g: "4 \<le> g" "g \<le> 7" using assms(1) by (auto simp: dig_ready_def votes_ok_def gain_stage_def g_def)
  show ?thesis
    using dig_noisy_runs [OF assms(1) s _ g(2), of n] dig_quiet_runs [OF assms(1) s _ g(1), of n] dig_rest_runs [OF assms(1) s, of n]
    by (auto simp: runs_def dig_state_def)
qed

definition dig_example :: r8187_dm where
  "dig_example = (dh_priv dm_example)\<lparr>nic_answer := \<lambda>_ _ _. 0x0d000000, pr_rf_chip := RF_ZEBRA, pr_InitialGain := 5,
     dm_bDigMechanism := True, dm_RegDigOfdmFaUpTh := 0x0c\<rparr>"

theorem dig_follows_alarms_witness: "unat (pr_InitialGain ((rtl8180_hw_dig_wq ^^ 2) dig_example)) = 6"
proof -
  have "dig_ready dig_example" "dm_DIG_NumberFallbackVote dig_example = 0" "dm_DIG_NumberUpgradeVote dig_example = 0"
    by (simp_all add: dig_example_def dm_example_def dig_ready_def votes_ok_def r8187.defs)
  moreover have "alarms_are (\<lambda>v. v > 0xc00) dig_example" by (simp add: alarms_are_def dig_example_def)
  ultimately show ?thesis using dig_follows_alarms [of dig_example 1] by (simp add: dig_example_def)
qed

end
