(* ===== verification/Led.thy ===== *)
theory Led
  imports Dm
begin

unbundle bit_operations_syntax

text \<open>
  The light emitting diodes of \<open>rtl8187/r8187_led.c\<close>: which strategy the configuration memory asks for, the four
  software strategies, and the blinking, which is a timer that queues a work that switches the diode and sets the timer
  again.  A timer is the delay it was set with; the diodes are the three fields of the private data.
\<close>

section \<open>State\<close>

datatype LED_CTL_MODE = LED_CTL_POWER_ON | LED_CTL_POWER_OFF | LED_CTL_LINK | LED_CTL_NO_LINK | LED_CTL_TX | LED_CTL_RX | LED_CTL_SITE_SURVEY

datatype LED_STATE_8187 = LED_UNKNOWN | LED_ON | LED_OFF | LED_BLINK_NORMAL | LED_BLINK_SLOWLY | LED_POWER_ON_BLINK | LED_SCAN_BLINK
  | LED_NO_LINK_BLINK | LED_BLINK_CM3

datatype RT_CID_TYPE = RT_CID_DEFAULT | RT_CID_8187_ALPHA0 | RT_CID_8187_SERCOMM_PS | RT_CID_8187_HW_LED

datatype LED_STRATEGY_8187 = SW_LED_MODE0 | SW_LED_MODE1 | SW_LED_MODE2 | SW_LED_MODE3 | HW_LED

datatype LED_PIN_8187 = LED_PIN_GPIO0 | LED_PIN_LED0 | LED_PIN_LED1

datatype RT_RF_POWER_STATE = eRfOn | eRfSleep | eRfOff

record LED_8187 =
  led_LedPin :: LED_PIN_8187
  led_CurrLedState :: LED_STATE_8187
  led_bLedOn :: bool
  led_bLedBlinkInProgress :: bool
  led_BlinkTimes :: u32
  led_BlinkingLedState :: LED_STATE_8187
  led_BlinkTimer :: "nat option"

record r8187_led = r8187_dm +
  ld_bEnableLedCtrl :: bool
  ld_PsrValue :: u8
  ld_EEPROMCustomerID :: u8
  ld_CustomerID :: RT_CID_TYPE
  ld_LedStrategy :: LED_STRATEGY_8187
  ld_Gpio0Led :: LED_8187
  ld_SwLed0 :: LED_8187
  ld_SwLed1 :: LED_8187
  ld_Gpio0LedWorkItem :: bool
  ld_SwLed0WorkItem :: bool
  ld_SwLed1WorkItem :: bool
  ld_eRFPowerState :: RT_RF_POWER_STATE
  ld_RfOffReason :: u32

text \<open>A pointer to a diode is the name of its field.\<close>

datatype led_ref = Gpio0Led | SwLed0 | SwLed1

fun led_at :: "led_ref \<Rightarrow> 'z r8187_led_scheme \<Rightarrow> LED_8187" where
  "led_at Gpio0Led priv = ld_Gpio0Led priv"
| "led_at SwLed0 priv = ld_SwLed0 priv"
| "led_at SwLed1 priv = ld_SwLed1 priv"

fun led_map :: "led_ref \<Rightarrow> (LED_8187 \<Rightarrow> LED_8187) \<Rightarrow> 'z r8187_led_scheme \<Rightarrow> 'z r8187_led_scheme" where
  "led_map Gpio0Led f priv = priv\<lparr>ld_Gpio0Led := f (ld_Gpio0Led priv)\<rparr>"
| "led_map SwLed0 f priv = priv\<lparr>ld_SwLed0 := f (ld_SwLed0 priv)\<rparr>"
| "led_map SwLed1 f priv = priv\<lparr>ld_SwLed1 := f (ld_SwLed1 priv)\<rparr>"

section \<open>Switching\<close>

abbreviation PSR :: u16 where "PSR \<equiv> 0x5e"

definition SwLedOn :: "led_ref \<Rightarrow> 'z r8187_led_scheme \<Rightarrow> 'z r8187_led_scheme" where
  "SwLedOn p priv =
     (let priv = (case led_LedPin (led_at p priv) of
            LED_PIN_GPIO0 \<Rightarrow> exec (do { write_nic_byte 0xFF91 0x01; write_nic_byte 0xFF90 0x00 }) priv
          | LED_PIN_LED0 \<Rightarrow> (let psr = ld_PsrValue priv AND NOT 0x10 in exec (write_nic_byte PSR psr) (priv\<lparr>ld_PsrValue := psr\<rparr>))
          | LED_PIN_LED1 \<Rightarrow> (let psr = ld_PsrValue priv AND NOT 0x20 in exec (write_nic_byte PSR psr) (priv\<lparr>ld_PsrValue := psr\<rparr>)))
      in led_map p (\<lambda>l. l\<lparr>led_bLedOn := True\<rparr>) priv)"

definition SwLedOff :: "led_ref \<Rightarrow> 'z r8187_led_scheme \<Rightarrow> 'z r8187_led_scheme" where
  "SwLedOff p priv =
     (let priv = (case led_LedPin (led_at p priv) of
            LED_PIN_GPIO0 \<Rightarrow> exec (do { write_nic_byte 0xFF91 0x01; write_nic_byte 0xFF90 0x01 }) priv
          | LED_PIN_LED0 \<Rightarrow> (let psr = ld_PsrValue priv OR 0x10 in exec (write_nic_byte PSR psr) (priv\<lparr>ld_PsrValue := psr\<rparr>))
          | LED_PIN_LED1 \<Rightarrow> (let psr = ld_PsrValue priv OR 0x20 in exec (write_nic_byte PSR psr) (priv\<lparr>ld_PsrValue := psr\<rparr>)))
      in led_map p (\<lambda>l. l\<lparr>led_bLedOn := False\<rparr>) priv)"

abbreviation LED_BLINK_NORMAL_INTERVAL :: nat where "LED_BLINK_NORMAL_INTERVAL \<equiv> 100"
abbreviation LED_BLINK_SLOWLY_INTERVAL :: nat where "LED_BLINK_SLOWLY_INTERVAL \<equiv> 200"
abbreviation LED_CM2_BLINK_ON_INTERVAL :: nat where "LED_CM2_BLINK_ON_INTERVAL \<equiv> 250"
abbreviation LED_CM2_BLINK_OFF_INTERVAL :: nat where "LED_CM2_BLINK_OFF_INTERVAL \<equiv> 4750"
abbreviation LED_CM3_BLINK_INTERVAL :: nat where "LED_CM3_BLINK_INTERVAL \<equiv> 1500"

text \<open>Start of a blinking: the state, how often, the first position and the timer.\<close>

definition opposite :: "LED_8187 \<Rightarrow> LED_STATE_8187" where
  "opposite l = (if led_bLedOn l then LED_OFF else LED_ON)"

definition blink_start :: "LED_STATE_8187 \<Rightarrow> u32 \<Rightarrow> nat \<Rightarrow> LED_8187 \<Rightarrow> LED_8187" where
  "blink_start s n t l = l\<lparr>led_bLedBlinkInProgress := True, led_CurrLedState := s, led_BlinkTimes := n,
     led_BlinkingLedState := opposite l, led_BlinkTimer := Some t\<rparr>"

abbreviation led_state :: "LED_STATE_8187 \<Rightarrow> LED_8187 \<Rightarrow> LED_8187" where "led_state s l \<equiv> l\<lparr>led_CurrLedState := s\<rparr>"

section \<open>The strategies\<close>

text \<open>
  The parameter \<open>shin\<close> says whether the driver was built with \<open>LED_SHIN\<close>, which both Makefiles leave out.  With it, sending and
  receiving, the scan and a link found ask for the diode (\<open>LED_CTL_TX\<close>, \<open>LED_CTL_RX\<close>, \<open>LED_CTL_SITE_SURVEY\<close>, \<open>LED_CTL_LINK\<close>),
  and strategy 0 ends its power-on flash.  Without it only the two power requests are made.  \<open>LED_CTL_NO_LINK\<close> is never requested.
\<close>

text \<open>Mode 0 chooses a state first and then acts on it.\<close>

definition mode0_choose :: "LED_CTL_MODE \<Rightarrow> LED_8187 \<Rightarrow> LED_8187 option" where
  "mode0_choose a l = (case a of
     LED_CTL_TX \<Rightarrow> if led_bLedBlinkInProgress l then None else Some (l\<lparr>led_CurrLedState := LED_BLINK_NORMAL, led_BlinkTimes := 2\<rparr>)
   | LED_CTL_RX \<Rightarrow> if led_bLedBlinkInProgress l then None else Some (l\<lparr>led_CurrLedState := LED_BLINK_NORMAL, led_BlinkTimes := 2\<rparr>)
   | LED_CTL_SITE_SURVEY \<Rightarrow> if led_bLedBlinkInProgress l then None else Some (led_state LED_BLINK_SLOWLY l)
   | LED_CTL_LINK \<Rightarrow> Some (led_state LED_ON l)
   | LED_CTL_NO_LINK \<Rightarrow> Some (led_state LED_OFF l)
   | LED_CTL_POWER_ON \<Rightarrow> Some (led_state LED_POWER_ON_BLINK l)
   | LED_CTL_POWER_OFF \<Rightarrow> Some (led_state LED_OFF l))"

definition mode0_act :: "bool \<Rightarrow> 'z r8187_led_scheme \<Rightarrow> 'z r8187_led_scheme" where
  "mode0_act shin priv =
     (let l = ld_Gpio0Led priv
      in case led_CurrLedState l of
        LED_ON \<Rightarrow> if led_bLedBlinkInProgress l then priv else SwLedOn Gpio0Led priv
      | LED_OFF \<Rightarrow> SwLedOff Gpio0Led (if led_bLedBlinkInProgress l
          then led_map Gpio0Led (\<lambda>l. l\<lparr>led_BlinkTimer := None, led_bLedBlinkInProgress := False\<rparr>) priv else priv)
      | LED_BLINK_NORMAL \<Rightarrow> if led_bLedBlinkInProgress l then priv
          else led_map Gpio0Led (\<lambda>l. l\<lparr>led_bLedBlinkInProgress := True, led_BlinkingLedState := opposite l,
            led_BlinkTimer := Some LED_BLINK_NORMAL_INTERVAL\<rparr>) priv
      | LED_BLINK_SLOWLY \<Rightarrow> if led_bLedBlinkInProgress l then priv
          else led_map Gpio0Led (\<lambda>l. l\<lparr>led_bLedBlinkInProgress := True, led_BlinkingLedState := LED_OFF,
            led_BlinkTimer := Some LED_BLINK_SLOWLY_INTERVAL\<rparr>) priv
      | LED_POWER_ON_BLINK \<Rightarrow> (let priv = SwLedOn Gpio0Led priv in if shin then SwLedOff Gpio0Led priv else priv)
      | _ \<Rightarrow> priv)"

definition SwLedControlMode0 :: "bool \<Rightarrow> LED_CTL_MODE \<Rightarrow> 'z r8187_led_scheme \<Rightarrow> 'z r8187_led_scheme" where
  "SwLedControlMode0 shin a priv =
     (case mode0_choose a (ld_Gpio0Led priv) of None \<Rightarrow> priv | Some l \<Rightarrow> mode0_act shin (priv\<lparr>ld_Gpio0Led := l\<rparr>))"

definition SwLedControlMode1 :: "LED_CTL_MODE \<Rightarrow> 'z r8187_led_scheme \<Rightarrow> 'z r8187_led_scheme" where
  "SwLedControlMode1 a priv =
     (let busy = led_bLedBlinkInProgress (ld_SwLed0 priv)
      in case a of
        LED_CTL_TX \<Rightarrow> if busy then priv else led_map SwLed0 (blink_start LED_BLINK_NORMAL 2 LED_BLINK_NORMAL_INTERVAL) priv
      | LED_CTL_LINK \<Rightarrow> (let priv = led_map SwLed0 (led_state LED_ON) priv in if busy then priv else SwLedOn SwLed0 priv)
      | LED_CTL_NO_LINK \<Rightarrow> (let priv = led_map SwLed0 (led_state LED_OFF) priv in if busy then priv else SwLedOff SwLed0 priv)
      | LED_CTL_POWER_ON \<Rightarrow> SwLedOn SwLed1 (led_map SwLed1 (led_state LED_ON) (SwLedOff SwLed0 (led_map SwLed0 (led_state LED_OFF) priv)))
      | LED_CTL_POWER_OFF \<Rightarrow> SwLedOff SwLed1 (led_map SwLed1 (led_state LED_OFF) (SwLedOff SwLed0 (led_map SwLed0 (led_state LED_OFF) priv)))
      | LED_CTL_SITE_SURVEY \<Rightarrow> if busy then priv else led_map SwLed0 (blink_start LED_BLINK_SLOWLY 10 LED_BLINK_SLOWLY_INTERVAL) priv
      | LED_CTL_RX \<Rightarrow> priv)"

definition cm2_interval :: "LED_8187 \<Rightarrow> nat" where
  "cm2_interval l = (if led_bLedOn l then LED_CM2_BLINK_ON_INTERVAL else LED_CM2_BLINK_OFF_INTERVAL)"

definition SwLedControlMode2 :: "LED_CTL_MODE \<Rightarrow> 'z r8187_led_scheme \<Rightarrow> 'z r8187_led_scheme" where
  "SwLedControlMode2 a priv =
     (let l = ld_Gpio0Led priv; busy = led_bLedBlinkInProgress l;
          traffic = (if busy then priv else led_map Gpio0Led (blink_start LED_BLINK_NORMAL 2 LED_BLINK_NORMAL_INTERVAL) priv)
      in case a of
        LED_CTL_TX \<Rightarrow> traffic
      | LED_CTL_RX \<Rightarrow> traffic
      | LED_CTL_SITE_SURVEY \<Rightarrow> if \<not> busy then led_map Gpio0Led (blink_start LED_SCAN_BLINK 4 (cm2_interval l)) priv
          else if led_CurrLedState l \<noteq> LED_NO_LINK_BLINK then led_map Gpio0Led (led_state LED_SCAN_BLINK) priv else priv
      | LED_CTL_NO_LINK \<Rightarrow> if \<not> busy then led_map Gpio0Led (blink_start LED_NO_LINK_BLINK 24 (cm2_interval l)) priv
          else led_map Gpio0Led (led_state LED_NO_LINK_BLINK) priv
      | LED_CTL_LINK \<Rightarrow> (let priv = led_map Gpio0Led (led_state LED_ON) priv in if busy then priv else SwLedOn Gpio0Led priv)
      | LED_CTL_POWER_OFF \<Rightarrow> (let priv = led_map Gpio0Led (led_state LED_OFF) priv in if busy then priv else SwLedOff Gpio0Led priv)
      | LED_CTL_POWER_ON \<Rightarrow> priv)"

definition SwLedControlMode3 :: "LED_CTL_MODE \<Rightarrow> 'z r8187_led_scheme \<Rightarrow> 'z r8187_led_scheme" where
  "SwLedControlMode3 a priv =
     (let busy = led_bLedBlinkInProgress (ld_Gpio0Led priv);
          traffic = (if busy then priv else led_map Gpio0Led (blink_start LED_BLINK_CM3 2 LED_CM3_BLINK_INTERVAL) priv);
          off = (let priv = led_map Gpio0Led (led_state LED_OFF) priv in if busy then priv else SwLedOff Gpio0Led priv)
      in case a of
        LED_CTL_TX \<Rightarrow> traffic
      | LED_CTL_RX \<Rightarrow> traffic
      | LED_CTL_SITE_SURVEY \<Rightarrow> if busy then priv else led_map Gpio0Led (blink_start LED_BLINK_CM3 10 LED_CM3_BLINK_INTERVAL) priv
      | LED_CTL_LINK \<Rightarrow> (let priv = led_map Gpio0Led (led_state LED_ON) priv in if busy then priv else SwLedOn Gpio0Led priv)
      | LED_CTL_NO_LINK \<Rightarrow> off
      | LED_CTL_POWER_ON \<Rightarrow> SwLedOff Gpio0Led (SwLedOn Gpio0Led (led_map Gpio0Led (led_state LED_POWER_ON_BLINK) priv))
      | LED_CTL_POWER_OFF \<Rightarrow> off)"

definition LedControl8187 :: "bool \<Rightarrow> LED_CTL_MODE \<Rightarrow> 'z r8187_led_scheme \<Rightarrow> 'z r8187_led_scheme" where
  "LedControl8187 shin a priv =
     (if \<not> ld_bEnableLedCtrl priv then priv
      else case ld_LedStrategy priv of
        SW_LED_MODE0 \<Rightarrow> SwLedControlMode0 shin a priv
      | SW_LED_MODE1 \<Rightarrow> SwLedControlMode1 a priv
      | SW_LED_MODE2 \<Rightarrow> SwLedControlMode2 a priv
      | SW_LED_MODE3 \<Rightarrow> SwLedControlMode3 a priv
      | HW_LED \<Rightarrow> priv)"

section \<open>Blinking\<close>

text \<open>The timer of a diode only queues the work of its pin.\<close>

definition PlatformSwLedBlink :: "led_ref \<Rightarrow> 'z r8187_led_scheme \<Rightarrow> 'z r8187_led_scheme" where
  "PlatformSwLedBlink p priv = (case led_LedPin (led_at p priv) of
     LED_PIN_GPIO0 \<Rightarrow> priv\<lparr>ld_Gpio0LedWorkItem := True\<rparr>
   | LED_PIN_LED0 \<Rightarrow> priv\<lparr>ld_SwLed0WorkItem := True\<rparr>
   | LED_PIN_LED1 \<Rightarrow> priv\<lparr>ld_SwLed1WorkItem := True\<rparr>)"

definition BlinkTimerCallback :: "led_ref \<Rightarrow> 'z r8187_led_scheme \<Rightarrow> 'z r8187_led_scheme" where
  "BlinkTimerCallback p priv = PlatformSwLedBlink p priv"

definition flip :: "LED_STATE_8187 \<Rightarrow> LED_STATE_8187" where
  "flip s = (if s = LED_ON then LED_OFF else LED_ON)"

definition blink_switch :: "led_ref \<Rightarrow> 'z r8187_led_scheme \<Rightarrow> 'z r8187_led_scheme" where
  "blink_switch p priv = (if led_BlinkingLedState (led_at p priv) = LED_ON then SwLedOn p priv else SwLedOff p priv)"

text \<open>The end of a blinking.\<close>

definition blink_stop :: "led_ref \<Rightarrow> 'z r8187_led_scheme \<Rightarrow> 'z r8187_led_scheme" where
  "blink_stop p priv =
     (let l = led_at p priv;
          priv = (if led_CurrLedState l = LED_ON \<and> \<not> led_bLedOn l then SwLedOn p priv
            else if led_CurrLedState l = LED_OFF \<and> led_bLedOn l then SwLedOff p priv else priv)
      in led_map p (\<lambda>l. l\<lparr>led_BlinkTimes := 0, led_bLedBlinkInProgress := False\<rparr>) priv)"

definition blink_again :: "LED_8187 \<Rightarrow> LED_8187" where
  "blink_again l =
     (let l = l\<lparr>led_BlinkingLedState := flip (led_BlinkingLedState l)\<rparr>
      in case led_CurrLedState l of
        LED_BLINK_NORMAL \<Rightarrow> l\<lparr>led_BlinkTimer := Some LED_BLINK_NORMAL_INTERVAL\<rparr>
      | LED_BLINK_SLOWLY \<Rightarrow> (if led_bLedOn l
          then l\<lparr>led_BlinkTimer := Some (LED_BLINK_SLOWLY_INTERVAL + 50), led_BlinkingLedState := LED_OFF\<rparr>
          else l\<lparr>led_BlinkTimer := Some 5000, led_BlinkingLedState := LED_ON\<rparr>)
      | LED_BLINK_CM3 \<Rightarrow> l\<lparr>led_BlinkTimer := Some LED_CM3_BLINK_INTERVAL\<rparr>
      | _ \<Rightarrow> l\<lparr>led_BlinkTimer := Some LED_BLINK_SLOWLY_INTERVAL\<rparr>)"

definition SwLedBlink :: "led_ref \<Rightarrow> 'z r8187_led_scheme \<Rightarrow> 'z r8187_led_scheme" where
  "SwLedBlink p priv =
     (let priv = blink_switch p priv;
          slowly = (led_CurrLedState (led_at p priv) = LED_BLINK_SLOWLY);
          priv = (if slowly then priv else led_map p (\<lambda>l. l\<lparr>led_BlinkTimes := led_BlinkTimes l - 1\<rparr>) priv);
          l = led_at p priv;
          bStopBlinking = (\<not> slowly \<and> (led_BlinkTimes l = 0 \<or>
            (led_CurrLedState l \<noteq> LED_BLINK_NORMAL \<and> led_CurrLedState l \<noteq> LED_BLINK_SLOWLY \<and> led_CurrLedState l \<noteq> LED_BLINK_CM3)))
      in if bStopBlinking then blink_stop p priv else led_map p blink_again priv)"

definition cm2_again :: "LED_8187 \<Rightarrow> LED_8187" where
  "cm2_again l =
     (let l = l\<lparr>led_BlinkingLedState := flip (led_BlinkingLedState l)\<rparr>
      in case led_CurrLedState l of
        LED_BLINK_NORMAL \<Rightarrow> l\<lparr>led_BlinkTimer := Some LED_BLINK_NORMAL_INTERVAL\<rparr>
      | LED_SCAN_BLINK \<Rightarrow> l\<lparr>led_BlinkTimer := Some (cm2_interval l)\<rparr>
      | LED_NO_LINK_BLINK \<Rightarrow> l\<lparr>led_BlinkTimer := Some (cm2_interval l)\<rparr>
      | _ \<Rightarrow> l\<lparr>led_BlinkTimer := Some LED_BLINK_SLOWLY_INTERVAL\<rparr>)"

abbreviation RF_CHANGE_BY_IPS :: u32 where "RF_CHANGE_BY_IPS \<equiv> 0x10000000"

definition SwLedCm2Blink :: "led_ref \<Rightarrow> 'z r8187_led_scheme \<Rightarrow> 'z r8187_led_scheme" where
  "SwLedCm2Blink p priv =
     (if ld_eRFPowerState priv = eRfOff \<and> ld_RfOffReason priv > RF_CHANGE_BY_IPS
      then led_map p (\<lambda>l. l\<lparr>led_BlinkTimer := Some LED_CM2_BLINK_ON_INTERVAL\<rparr>) (SwLedOff p priv)
      else (let priv = blink_switch p priv;
                priv = led_map p (\<lambda>l. if led_BlinkTimes l > 0 then l\<lparr>led_BlinkTimes := led_BlinkTimes l - 1\<rparr> else l) priv;
                l = led_at p priv;
                bStopBlinking = (led_CurrLedState l \<noteq> LED_BLINK_NORMAL \<or> led_BlinkTimes l = 0)
            in if bStopBlinking then led_map p (\<lambda>l. l\<lparr>led_BlinkTimes := 0, led_bLedBlinkInProgress := False\<rparr>) priv
               else led_map p cm2_again priv))"

text \<open>The works: those of the two other pins do nothing.\<close>

definition Gpio0LedWorkItemCallback :: "'z r8187_led_scheme \<Rightarrow> 'z r8187_led_scheme" where
  "Gpio0LedWorkItemCallback priv =
     (case ld_LedStrategy priv of SW_LED_MODE2 \<Rightarrow> SwLedCm2Blink Gpio0Led priv | _ \<Rightarrow> SwLedBlink Gpio0Led priv)"

definition SwLed0WorkItemCallback :: "'z r8187_led_scheme \<Rightarrow> 'z r8187_led_scheme" where
  "SwLed0WorkItemCallback priv = priv"

definition SwLed1WorkItemCallback :: "'z r8187_led_scheme \<Rightarrow> 'z r8187_led_scheme" where
  "SwLed1WorkItemCallback priv = priv"

section \<open>Initialisation\<close>

definition InitLed8187 :: "LED_PIN_8187 \<Rightarrow> LED_8187 \<Rightarrow> LED_8187" where
  "InitLed8187 pin l = l\<lparr>led_LedPin := pin, led_bLedOn := False, led_CurrLedState := LED_OFF, led_bLedBlinkInProgress := False,
     led_BlinkTimes := 0, led_BlinkingLedState := LED_OFF, led_BlinkTimer := None\<rparr>"

definition DeInitLed8187 :: "LED_8187 \<Rightarrow> LED_8187" where
  "DeInitLed8187 l = l\<lparr>led_BlinkTimer := None, led_bLedBlinkInProgress := False\<rparr>"

definition led_customer :: "u8 \<Rightarrow> RT_CID_TYPE" where
  "led_customer cid = (if cid = 0x01 then RT_CID_8187_ALPHA0 else if cid = 0x02 then RT_CID_8187_SERCOMM_PS
     else if cid = 0x03 then RT_CID_8187_HW_LED else RT_CID_DEFAULT)"

definition led_strategy :: "RT_CID_TYPE \<Rightarrow> LED_STRATEGY_8187" where
  "led_strategy c = (case c of RT_CID_DEFAULT \<Rightarrow> SW_LED_MODE0 | RT_CID_8187_ALPHA0 \<Rightarrow> SW_LED_MODE1
     | RT_CID_8187_SERCOMM_PS \<Rightarrow> SW_LED_MODE3 | RT_CID_8187_HW_LED \<Rightarrow> HW_LED)"

definition InitSwLeds :: "'z r8187_led_scheme \<Rightarrow> 'z r8187_led_scheme" where
  "InitSwLeds priv =
     (let (psr, priv) = run_state (read_nic_byte PSR) (priv\<lparr>ld_bEnableLedCtrl := True\<rparr>);
          (usValue, priv) = run_state (priv_eprom_read (0x7e div 2)) priv;
          cid = ucast (usValue AND 0x00ff)
      in priv\<lparr>ld_PsrValue := psr, ld_EEPROMCustomerID := cid, ld_CustomerID := led_customer cid,
           ld_LedStrategy := led_strategy (led_customer cid), ld_Gpio0Led := InitLed8187 LED_PIN_GPIO0 (ld_Gpio0Led priv),
           ld_SwLed0 := InitLed8187 LED_PIN_LED0 (ld_SwLed0 priv), ld_SwLed1 := InitLed8187 LED_PIN_LED1 (ld_SwLed1 priv),
           ld_Gpio0LedWorkItem := False, ld_SwLed0WorkItem := False, ld_SwLed1WorkItem := False\<rparr>)"

definition DeInitSwLeds :: "'z r8187_led_scheme \<Rightarrow> 'z r8187_led_scheme" where
  "DeInitSwLeds priv = led_map SwLed1 DeInitLed8187 (led_map SwLed0 DeInitLed8187 (led_map Gpio0Led DeInitLed8187 priv))"

end
