(* ===== verification/Led_Inv.thy ===== *)
theory Led_Inv
  imports Led
begin

unbundle bit_operations_syntax

text \<open>
  The diodes over time: control calls, timers and works in any order, the invariant of the strategies that blink the
  first pin, the end of every blinking but the slow one, and the diode of strategy 1, which no work ever blinks.
\<close>

section \<open>Events\<close>

datatype led_event = Led_Control LED_CTL_MODE | Led_Timer led_ref | Led_Work led_ref

fun led_pending :: "led_ref \<Rightarrow> 'z r8187_led_scheme \<Rightarrow> bool" where
  "led_pending Gpio0Led priv = ld_Gpio0LedWorkItem priv"
| "led_pending SwLed0 priv = ld_SwLed0WorkItem priv"
| "led_pending SwLed1 priv = ld_SwLed1WorkItem priv"

fun led_work :: "led_ref \<Rightarrow> 'z r8187_led_scheme \<Rightarrow> 'z r8187_led_scheme" where
  "led_work Gpio0Led priv = Gpio0LedWorkItemCallback (priv\<lparr>ld_Gpio0LedWorkItem := False\<rparr>)"
| "led_work SwLed0 priv = SwLed0WorkItemCallback (priv\<lparr>ld_SwLed0WorkItem := False\<rparr>)"
| "led_work SwLed1 priv = SwLed1WorkItemCallback (priv\<lparr>ld_SwLed1WorkItem := False\<rparr>)"

definition led_step :: "bool \<Rightarrow> led_event \<Rightarrow> 'z r8187_led_scheme \<Rightarrow> 'z r8187_led_scheme option" where
  "led_step shin ev priv = (case ev of
     Led_Control a \<Rightarrow> Some (LedControl8187 shin a priv)
   | Led_Timer p \<Rightarrow> (if led_BlinkTimer (led_at p priv) = None then None
       else Some (BlinkTimerCallback p (led_map p (\<lambda>l. l\<lparr>led_BlinkTimer := None\<rparr>) priv)))
   | Led_Work p \<Rightarrow> (if led_pending p priv then Some (led_work p priv) else None))"

primrec led_run :: "bool \<Rightarrow> led_event list \<Rightarrow> 'z r8187_led_scheme \<Rightarrow> 'z r8187_led_scheme option" where
  "led_run shin [] priv = Some priv"
| "led_run shin (ev # evs) priv = Option.bind (led_step shin ev priv) (led_run shin evs)"

section \<open>What switching changes\<close>

lemma led_write:
  fixes priv :: "'z r8187_led_scheme"
  assumes "nic_keeps m"
  shows "\<exists>xs. exec m (priv\<lparr>ld_PsrValue := psr\<rparr>) = priv\<lparr>nic_log := xs @ nic_log priv, ld_PsrValue := psr\<rparr>"
proof -
  obtain xs where x: "exec m (priv\<lparr>ld_PsrValue := psr\<rparr>) = priv\<lparr>ld_PsrValue := psr, nic_log := xs @ nic_log priv\<rparr>"
    using nic_keepsE [OF assms, of "priv\<lparr>ld_PsrValue := psr\<rparr>"] by auto
  have "priv\<lparr>ld_PsrValue := psr, nic_log := xs @ nic_log priv\<rparr> = priv\<lparr>nic_log := xs @ nic_log priv, ld_PsrValue := psr\<rparr>" by (rule r8187_led.equality) simp_all
  then show ?thesis using x by metis
qed

lemma led_write_gpio:
  fixes priv :: "'z r8187_led_scheme"
  assumes "nic_keeps m"
  shows "\<exists>xs psr. exec m priv = priv\<lparr>nic_log := xs @ nic_log priv, ld_PsrValue := psr\<rparr>"
proof -
  obtain xs where "exec m (priv\<lparr>ld_PsrValue := ld_PsrValue priv\<rparr>) = priv\<lparr>nic_log := xs @ nic_log priv, ld_PsrValue := ld_PsrValue priv\<rparr>"
    using led_write [OF assms] by blast
  moreover have "priv\<lparr>ld_PsrValue := ld_PsrValue priv\<rparr> = priv" by simp
  ultimately show ?thesis by metis
qed

lemma SwLed_moves:
  "\<exists>xs psr. SwLedOn p priv = led_map p (\<lambda>l. l\<lparr>led_bLedOn := True\<rparr>) (priv\<lparr>nic_log := xs @ nic_log priv, ld_PsrValue := psr\<rparr>)"
  "\<exists>xs psr. SwLedOff p priv = led_map p (\<lambda>l. l\<lparr>led_bLedOn := False\<rparr>) (priv\<lparr>nic_log := xs @ nic_log priv, ld_PsrValue := psr\<rparr>)"
proof -
  have k: "nic_keeps (do { write_nic_byte a b; write_nic_byte c d })" "nic_keeps (write_nic_byte a b)" for a b c d by (intro keeps)+
  show "\<exists>xs psr. SwLedOn p priv = led_map p (\<lambda>l. l\<lparr>led_bLedOn := True\<rparr>) (priv\<lparr>nic_log := xs @ nic_log priv, ld_PsrValue := psr\<rparr>)"
    unfolding SwLedOn_def Let_def using led_write_gpio [OF k(1) [of "0xFF91" "0x01" "0xFF90" "0x00"], where priv = priv] led_write [OF k(2) [of PSR], where priv = priv]
    by (cases "led_LedPin (led_at p priv)") (simp_all, metis+)
  show "\<exists>xs psr. SwLedOff p priv = led_map p (\<lambda>l. l\<lparr>led_bLedOn := False\<rparr>) (priv\<lparr>nic_log := xs @ nic_log priv, ld_PsrValue := psr\<rparr>)"
    unfolding SwLedOff_def Let_def using led_write_gpio [OF k(1) [of "0xFF91" "0x01" "0xFF90" "0x01"], where priv = priv] led_write [OF k(2) [of PSR], where priv = priv]
    by (cases "led_LedPin (led_at p priv)") (simp_all, metis+)
qed

lemma SwLed_simps [simp]:
  "led_at q (SwLedOn p priv) = (if q = p then (led_at p priv)\<lparr>led_bLedOn := True\<rparr> else led_at q priv)"
  "led_at q (SwLedOff p priv) = (if q = p then (led_at p priv)\<lparr>led_bLedOn := False\<rparr> else led_at q priv)"
  "ld_LedStrategy (SwLedOn p priv) = ld_LedStrategy priv" "ld_LedStrategy (SwLedOff p priv) = ld_LedStrategy priv"
  "ld_bEnableLedCtrl (SwLedOn p priv) = ld_bEnableLedCtrl priv" "ld_bEnableLedCtrl (SwLedOff p priv) = ld_bEnableLedCtrl priv"
  "led_pending q (SwLedOn p priv) = led_pending q priv" "led_pending q (SwLedOff p priv) = led_pending q priv"
proof -
  obtain xs psr where a: "SwLedOn p priv = led_map p (\<lambda>l. l\<lparr>led_bLedOn := True\<rparr>) (priv\<lparr>nic_log := xs @ nic_log priv, ld_PsrValue := psr\<rparr>)"
    using SwLed_moves(1) by blast
  obtain ys pst where b: "SwLedOff p priv = led_map p (\<lambda>l. l\<lparr>led_bLedOn := False\<rparr>) (priv\<lparr>nic_log := ys @ nic_log priv, ld_PsrValue := pst\<rparr>)"
    using SwLed_moves(2) by blast
  show "led_at q (SwLedOn p priv) = (if q = p then (led_at p priv)\<lparr>led_bLedOn := True\<rparr> else led_at q priv)"
    "led_at q (SwLedOff p priv) = (if q = p then (led_at p priv)\<lparr>led_bLedOn := False\<rparr> else led_at q priv)"
    "ld_LedStrategy (SwLedOn p priv) = ld_LedStrategy priv" "ld_LedStrategy (SwLedOff p priv) = ld_LedStrategy priv"
    "ld_bEnableLedCtrl (SwLedOn p priv) = ld_bEnableLedCtrl priv" "ld_bEnableLedCtrl (SwLedOff p priv) = ld_bEnableLedCtrl priv"
    "led_pending q (SwLedOn p priv) = led_pending q priv" "led_pending q (SwLedOff p priv) = led_pending q priv"
    unfolding a b by (cases p; cases q; simp)+
qed

lemma led_map_simps [simp]:
  "led_at q (led_map p f priv) = (if q = p then f (led_at p priv) else led_at q priv)"
  "ld_LedStrategy (led_map p f priv) = ld_LedStrategy priv" "ld_bEnableLedCtrl (led_map p f priv) = ld_bEnableLedCtrl priv"
  "led_pending q (led_map p f priv) = led_pending q priv"
  by (cases p; cases q; simp)+

lemma gpio_simps [simp]:
  "ld_Gpio0Led (SwLedOn Gpio0Led priv) = (ld_Gpio0Led priv)\<lparr>led_bLedOn := True\<rparr>"
  "ld_Gpio0Led (SwLedOff Gpio0Led priv) = (ld_Gpio0Led priv)\<lparr>led_bLedOn := False\<rparr>"
  "ld_Gpio0LedWorkItem (SwLedOn Gpio0Led priv) = ld_Gpio0LedWorkItem priv"
  "ld_Gpio0LedWorkItem (SwLedOff Gpio0Led priv) = ld_Gpio0LedWorkItem priv"
  "ld_SwLed0 (SwLedOn Gpio0Led priv) = ld_SwLed0 priv" "ld_SwLed0 (SwLedOff Gpio0Led priv) = ld_SwLed0 priv"
  "ld_SwLed1 (SwLedOn Gpio0Led priv) = ld_SwLed1 priv" "ld_SwLed1 (SwLedOff Gpio0Led priv) = ld_SwLed1 priv"
  using SwLed_simps(1,2,7,8) [of Gpio0Led Gpio0Led priv] SwLed_simps(1,2) [of SwLed0 Gpio0Led priv] SwLed_simps(1,2) [of SwLed1 Gpio0Led priv]
  by (simp_all del: SwLed_simps)

section \<open>The invariant of strategies 0 and 3\<close>

text \<open>About the first diode and its work: what each state promises.\<close>

definition led_ok :: "LED_8187 \<Rightarrow> bool \<Rightarrow> bool" where
  "led_ok l w \<longleftrightarrow> led_LedPin l = LED_PIN_GPIO0 \<and>
     (led_bLedBlinkInProgress l \<longrightarrow> led_BlinkTimer l \<noteq> None \<or> w) \<and>
     (case led_CurrLedState l of
        LED_ON \<Rightarrow> led_bLedBlinkInProgress l \<or> led_bLedOn l
      | LED_OFF \<Rightarrow> led_bLedBlinkInProgress l \<or> \<not> led_bLedOn l
      | LED_BLINK_SLOWLY \<Rightarrow> led_bLedBlinkInProgress l
      | LED_POWER_ON_BLINK \<Rightarrow> True
      | LED_BLINK_NORMAL \<Rightarrow> (if led_bLedBlinkInProgress l
          then 1 \<le> led_BlinkTimes l \<and> led_BlinkTimes l \<le> 10 \<and> \<not> (led_BlinkTimes l = 1 \<and> led_BlinkTimer l \<noteq> None \<and> w)
          else led_BlinkTimer l = None \<and> \<not> w)
      | LED_BLINK_CM3 \<Rightarrow> (if led_bLedBlinkInProgress l
          then 1 \<le> led_BlinkTimes l \<and> led_BlinkTimes l \<le> 10 \<and> \<not> (led_BlinkTimes l = 1 \<and> led_BlinkTimer l \<noteq> None \<and> w)
          else led_BlinkTimer l = None \<and> \<not> w)
      | _ \<Rightarrow> False)"

definition led_inv :: "'z r8187_led_scheme \<Rightarrow> bool" where
  "led_inv priv \<longleftrightarrow> (ld_LedStrategy priv = SW_LED_MODE0 \<or> ld_LedStrategy priv = SW_LED_MODE3) \<and>
     led_LedPin (ld_SwLed0 priv) = LED_PIN_LED0 \<and> led_LedPin (ld_SwLed1 priv) = LED_PIN_LED1 \<and>
     led_ok (ld_Gpio0Led priv) (ld_Gpio0LedWorkItem priv)"

lemma mode0_frame:
  "ld_LedStrategy (SwLedControlMode0 shin a priv) = ld_LedStrategy priv" "ld_Gpio0LedWorkItem (SwLedControlMode0 shin a priv) = ld_Gpio0LedWorkItem priv"
  "ld_SwLed0 (SwLedControlMode0 shin a priv) = ld_SwLed0 priv" "ld_SwLed1 (SwLedControlMode0 shin a priv) = ld_SwLed1 priv"
  by (auto simp: SwLedControlMode0_def mode0_act_def Let_def split: option.splits LED_STATE_8187.splits)

lemma mode3_frame:
  "ld_LedStrategy (SwLedControlMode3 a priv) = ld_LedStrategy priv" "ld_Gpio0LedWorkItem (SwLedControlMode3 a priv) = ld_Gpio0LedWorkItem priv"
  "ld_SwLed0 (SwLedControlMode3 a priv) = ld_SwLed0 priv" "ld_SwLed1 (SwLedControlMode3 a priv) = ld_SwLed1 priv"
  by (auto simp: SwLedControlMode3_def Let_def split: LED_CTL_MODE.splits)

text \<open>The same on the diode alone.\<close>

lemma mode0_led:
  "ld_Gpio0Led (SwLedControlMode0 shin a priv) =
     (let l = ld_Gpio0Led priv; busy = led_bLedBlinkInProgress l;
          start = (\<lambda>s first t. l\<lparr>led_CurrLedState := s, led_bLedBlinkInProgress := True, led_BlinkingLedState := first, led_BlinkTimer := Some t\<rparr>)
      in case a of
        LED_CTL_TX \<Rightarrow> if busy then l else (start LED_BLINK_NORMAL (opposite l) 100)\<lparr>led_BlinkTimes := 2\<rparr>
      | LED_CTL_RX \<Rightarrow> if busy then l else (start LED_BLINK_NORMAL (opposite l) 100)\<lparr>led_BlinkTimes := 2\<rparr>
      | LED_CTL_SITE_SURVEY \<Rightarrow> if busy then l else start LED_BLINK_SLOWLY LED_OFF 200
      | LED_CTL_LINK \<Rightarrow> if busy then l\<lparr>led_CurrLedState := LED_ON\<rparr> else l\<lparr>led_CurrLedState := LED_ON, led_bLedOn := True\<rparr>
      | LED_CTL_POWER_ON \<Rightarrow> l\<lparr>led_CurrLedState := LED_POWER_ON_BLINK, led_bLedOn := \<not> shin\<rparr>
      | _ \<Rightarrow> (if busy then l\<lparr>led_CurrLedState := LED_OFF, led_BlinkTimer := None, led_bLedBlinkInProgress := False, led_bLedOn := False\<rparr>
         else l\<lparr>led_CurrLedState := LED_OFF, led_bLedOn := False\<rparr>))"
  by (cases a) (auto simp: SwLedControlMode0_def mode0_choose_def mode0_act_def Let_def opposite_def)

text \<open>The changes the strategies make of a diode, each with its reason.\<close>

lemma ok_on: "led_ok l w \<Longrightarrow> led_bLedBlinkInProgress l \<Longrightarrow> led_ok (l\<lparr>led_CurrLedState := LED_ON\<rparr>) w"
  "led_ok l w \<Longrightarrow> \<not> led_bLedBlinkInProgress l \<Longrightarrow> led_ok (l\<lparr>led_CurrLedState := LED_ON, led_bLedOn := True\<rparr>) w"
  by (simp_all add: led_ok_def)

lemma ok_off: "led_ok l w \<Longrightarrow> led_bLedBlinkInProgress l \<Longrightarrow> led_ok (l\<lparr>led_CurrLedState := LED_OFF\<rparr>) w"
  "led_ok l w \<Longrightarrow> \<not> led_bLedBlinkInProgress l \<Longrightarrow> led_ok (l\<lparr>led_CurrLedState := LED_OFF, led_bLedOn := False\<rparr>) w"
  "led_ok l w \<Longrightarrow> led_ok (l\<lparr>led_CurrLedState := LED_OFF, led_BlinkTimer := None, led_bLedBlinkInProgress := False, led_bLedOn := False\<rparr>) w"
  by (simp_all add: led_ok_def)

lemma ok_power: "led_ok l w \<Longrightarrow> led_ok (l\<lparr>led_CurrLedState := LED_POWER_ON_BLINK, led_bLedOn := b\<rparr>) w"
  by (simp add: led_ok_def)

lemma ok_slow: "led_ok l w \<Longrightarrow> led_ok (l\<lparr>led_CurrLedState := LED_BLINK_SLOWLY, led_bLedBlinkInProgress := True, led_BlinkingLedState := f,
    led_BlinkTimer := Some t\<rparr>) w"
  by (simp add: led_ok_def)

lemma ok_start:
  "led_ok l w \<Longrightarrow> s = LED_BLINK_NORMAL \<or> s = LED_BLINK_CM3 \<Longrightarrow> n = 2 \<or> n = 10 \<Longrightarrow> led_ok (blink_start s n t l) w"
  "led_ok l w \<Longrightarrow> led_ok (l\<lparr>led_CurrLedState := LED_BLINK_NORMAL, led_bLedBlinkInProgress := True, led_BlinkingLedState := f,
     led_BlinkTimer := Some t, led_BlinkTimes := 2\<rparr>) w"
  by (auto simp: led_ok_def blink_start_def)

lemma mode0_inv:
  assumes "led_ok (ld_Gpio0Led priv) (ld_Gpio0LedWorkItem priv)"
  shows "led_ok (ld_Gpio0Led (SwLedControlMode0 shin a priv)) (ld_Gpio0LedWorkItem (SwLedControlMode0 shin a priv))"
  using assms ok_on [OF assms] ok_off [OF assms] ok_power [OF assms] ok_slow [OF assms] ok_start [OF assms]
  unfolding mode0_frame mode0_led Let_def
  by (cases a; cases "led_bLedBlinkInProgress (ld_Gpio0Led priv)") simp_all

lemma mode3_inv:
  assumes "led_ok (ld_Gpio0Led priv) (ld_Gpio0LedWorkItem priv)"
  shows "led_ok (ld_Gpio0Led (SwLedControlMode3 a priv)) (ld_Gpio0LedWorkItem (SwLedControlMode3 a priv))"
  using assms ok_on [OF assms] ok_off [OF assms] ok_power [OF assms] ok_slow [OF assms] ok_start [OF assms]
  unfolding mode3_frame SwLedControlMode3_def Let_def
  by (cases a; cases "led_bLedBlinkInProgress (ld_Gpio0Led priv)") simp_all

text \<open>The work of the diode, on the diode alone.\<close>

definition led_blink :: "LED_8187 \<Rightarrow> LED_8187" where
  "led_blink l =
     (let slowly = (led_CurrLedState l = LED_BLINK_SLOWLY);
          l = l\<lparr>led_bLedOn := (led_BlinkingLedState l = LED_ON), led_BlinkTimes := (if slowly then led_BlinkTimes l else led_BlinkTimes l - 1)\<rparr>
      in if \<not> slowly \<and> (led_BlinkTimes l = 0 \<or> (led_CurrLedState l \<noteq> LED_BLINK_NORMAL \<and> led_CurrLedState l \<noteq> LED_BLINK_CM3))
         then l\<lparr>led_bLedOn := (if led_CurrLedState l = LED_ON then True else if led_CurrLedState l = LED_OFF then False else led_bLedOn l),
           led_BlinkTimes := 0, led_bLedBlinkInProgress := False\<rparr>
         else blink_again l)"

lemma SwLedBlink_led:
  "ld_Gpio0Led (SwLedBlink Gpio0Led priv) = led_blink (ld_Gpio0Led priv)"
  "ld_Gpio0LedWorkItem (SwLedBlink Gpio0Led priv) = ld_Gpio0LedWorkItem priv" "ld_LedStrategy (SwLedBlink Gpio0Led priv) = ld_LedStrategy priv"
  "ld_SwLed0 (SwLedBlink Gpio0Led priv) = ld_SwLed0 priv" "ld_SwLed1 (SwLedBlink Gpio0Led priv) = ld_SwLed1 priv"
proof -
  let ?p = "blink_switch Gpio0Led priv"
  have p: "ld_Gpio0Led ?p = (ld_Gpio0Led priv)\<lparr>led_bLedOn := (led_BlinkingLedState (ld_Gpio0Led priv) = LED_ON)\<rparr>"
    "ld_Gpio0LedWorkItem ?p = ld_Gpio0LedWorkItem priv" "ld_LedStrategy ?p = ld_LedStrategy priv"
    "ld_SwLed0 ?p = ld_SwLed0 priv" "ld_SwLed1 ?p = ld_SwLed1 priv"
    by (simp_all add: blink_switch_def)
  show "ld_Gpio0Led (SwLedBlink Gpio0Led priv) = led_blink (ld_Gpio0Led priv)"
    "ld_Gpio0LedWorkItem (SwLedBlink Gpio0Led priv) = ld_Gpio0LedWorkItem priv" "ld_LedStrategy (SwLedBlink Gpio0Led priv) = ld_LedStrategy priv"
    "ld_SwLed0 (SwLedBlink Gpio0Led priv) = ld_SwLed0 priv" "ld_SwLed1 (SwLedBlink Gpio0Led priv) = ld_SwLed1 priv"
    by (auto simp: SwLedBlink_def led_blink_def blink_stop_def Let_def p)
qed

lemma led_blink_ok:
  assumes "led_ok l True"
  shows "led_ok (led_blink l) False"
proof -
  have t: "x - 1 \<noteq> 0 \<Longrightarrow> 1 \<le> x \<Longrightarrow> x \<le> 10 \<Longrightarrow> 1 \<le> x - 1 \<and> x - 1 \<le> 10" for x :: u32
  proof -
    assume x: "x - 1 \<noteq> 0" "1 \<le> x" "x \<le> 10"
    then have "unat (x - 1) = unat x - 1" by (simp add: unat_sub)
    moreover have "unat (x - 1) \<noteq> 0" using x(1) by (simp add: unat_eq_zero)
    ultimately show "1 \<le> x - 1 \<and> x - 1 \<le> 10" using x(3) by (simp add: word_le_nat_alt) arith
  qed
  show ?thesis
    using assms t [of "led_BlinkTimes l"]
    by (cases "led_CurrLedState l"; cases "led_bLedBlinkInProgress l") (auto simp: led_ok_def led_blink_def Let_def blink_again_def)
qed

lemma ok_timer: "led_ok l w \<Longrightarrow> led_ok (l\<lparr>led_BlinkTimer := None\<rparr>) True" if "led_BlinkTimer l \<noteq> None"
  using that by (auto simp: led_ok_def split: LED_STATE_8187.splits if_splits)

lemma led_step_inv:
  assumes "led_inv priv" "led_step shin ev priv = Some priv'"
  shows "led_inv priv'"
proof (cases ev)
  case (Led_Control a)
  then have p': "priv' = LedControl8187 shin a priv" using assms(2) by (simp add: led_step_def)
  show ?thesis
    unfolding p' using assms(1) mode0_inv [of priv shin a] mode3_inv [of priv a]
    by (cases "ld_bEnableLedCtrl priv"; cases "ld_LedStrategy priv") (simp_all add: LedControl8187_def led_inv_def mode0_frame mode3_frame)
next
  case (Led_Timer p)
  have t: "led_BlinkTimer (led_at p priv) \<noteq> None" and p': "priv' = BlinkTimerCallback p (led_map p (\<lambda>l. l\<lparr>led_BlinkTimer := None\<rparr>) priv)"
    using assms(2) Led_Timer by (auto simp: led_step_def split: if_splits)
  show ?thesis
  proof (cases p)
    case Gpio0Led
    have "led_LedPin (ld_Gpio0Led priv) = LED_PIN_GPIO0" using assms(1) by (simp add: led_inv_def led_ok_def)
    then show ?thesis using assms(1) t ok_timer [of "ld_Gpio0Led priv" "ld_Gpio0LedWorkItem priv"] unfolding p' Gpio0Led
      by (simp add: BlinkTimerCallback_def PlatformSwLedBlink_def led_inv_def)
  qed (use assms(1) p' in \<open>simp_all add: BlinkTimerCallback_def PlatformSwLedBlink_def led_inv_def\<close>)
next
  case (Led_Work p)
  have t: "led_pending p priv" and p': "priv' = led_work p priv" using assms(2) Led_Work by (auto simp: led_step_def split: if_splits)
  show ?thesis
  proof (cases p)
    case Gpio0Led
    have "Gpio0LedWorkItemCallback (priv\<lparr>ld_Gpio0LedWorkItem := False\<rparr>) = SwLedBlink Gpio0Led (priv\<lparr>ld_Gpio0LedWorkItem := False\<rparr>)"
      using assms(1) by (auto simp: Gpio0LedWorkItemCallback_def led_inv_def)
    then show ?thesis using assms(1) t led_blink_ok [of "ld_Gpio0Led priv"] unfolding p' Gpio0Led
      by (simp add: led_inv_def SwLedBlink_led)
  qed (use assms(1) p' in \<open>simp_all add: SwLed0WorkItemCallback_def SwLed1WorkItemCallback_def led_inv_def\<close>)
qed

lemma led_run_inv: "led_run shin evs priv = Some priv' \<Longrightarrow> led_inv priv \<Longrightarrow> led_inv priv'"
  by (induction evs arbitrary: priv) (auto simp: bind_eq_Some_conv dest: led_step_inv)

lemma init_leds:
  fixes priv :: "'z r8187_led_scheme"
  defines "p \<equiv> InitSwLeds priv"
  shows "ld_Gpio0LedWorkItem p = False" "ld_SwLed0WorkItem p = False" "ld_bEnableLedCtrl p"
    "led_LedPin (ld_SwLed0 p) = LED_PIN_LED0" "led_LedPin (ld_SwLed1 p) = LED_PIN_LED1" "led_ok (ld_Gpio0Led p) False"
    "\<not> led_bLedBlinkInProgress (ld_SwLed0 p)" "led_BlinkTimer (ld_SwLed0 p) = None" "led_BlinkTimer (ld_SwLed1 p) = None"
proof -
  have k: "nic_keeps (read_nic_byte PSR)" "nic_keeps (priv_eprom_read (0x7e div 2))" by (intro keeps)+
  obtain xs ys where x: "exec (read_nic_byte PSR) (priv\<lparr>ld_bEnableLedCtrl := True\<rparr>) = priv\<lparr>ld_bEnableLedCtrl := True, nic_log := xs\<rparr>"
    "exec (priv_eprom_read (0x7e div 2)) (priv\<lparr>ld_bEnableLedCtrl := True, nic_log := xs\<rparr>) = priv\<lparr>ld_bEnableLedCtrl := True, nic_log := ys\<rparr>"
  proof -
    let ?q = "priv\<lparr>ld_bEnableLedCtrl := True\<rparr>"
    obtain xs where 1: "exec (read_nic_byte PSR) ?q = ?q\<lparr>nic_log := xs\<rparr>" using k(1) unfolding nic_keeps_def by blast
    obtain ys where 2: "exec (priv_eprom_read (0x7e div 2)) (?q\<lparr>nic_log := xs\<rparr>) = ?q\<lparr>nic_log := xs, nic_log := ys\<rparr>"
      using k(2) unfolding nic_keeps_def by blast
    show thesis by (rule that [OF 1]) (use 2 in simp)
  qed
  show "ld_Gpio0LedWorkItem p = False" "ld_SwLed0WorkItem p = False" "ld_bEnableLedCtrl p"
    "led_LedPin (ld_SwLed0 p) = LED_PIN_LED0" "led_LedPin (ld_SwLed1 p) = LED_PIN_LED1" "led_ok (ld_Gpio0Led p) False"
    "\<not> led_bLedBlinkInProgress (ld_SwLed0 p)" "led_BlinkTimer (ld_SwLed0 p) = None" "led_BlinkTimer (ld_SwLed1 p) = None"
    unfolding p_def InitSwLeds_def Let_def split_beta exec_def [symmetric] x by (simp_all add: InitLed8187_def led_ok_def)
qed

section \<open>What the diode shows\<close>

text \<open>The requests that last: a link found lights the diode, a link lost and switching off darken it; of switching on nothing is
  said, its flash may be cut by a blinking in progress.  Traffic and scans come and go.\<close>

definition led_lasting :: "LED_CTL_MODE \<Rightarrow> bool option \<Rightarrow> bool option" where
  "led_lasting a b = (case a of LED_CTL_LINK \<Rightarrow> Some True | LED_CTL_NO_LINK \<Rightarrow> Some False | LED_CTL_POWER_OFF \<Rightarrow> Some False
     | LED_CTL_POWER_ON \<Rightarrow> None | _ \<Rightarrow> b)"

definition led_note :: "led_event \<Rightarrow> bool option \<Rightarrow> bool option" where
  "led_note ev b = (case ev of Led_Control a \<Rightarrow> led_lasting a b | _ \<Rightarrow> b)"

definition led_asked :: "led_event list \<Rightarrow> bool option" where
  "led_asked evs = fold led_note evs (Some False)"

text \<open>A diode that blinks a number of times stands as asked before every even number of changes that are left, and opposite before
  every odd one.\<close>

definition led_shows :: "LED_8187 \<Rightarrow> bool option \<Rightarrow> bool" where
  "led_shows l b \<longleftrightarrow>
     (case led_CurrLedState l of
        LED_ON \<Rightarrow> b = Some True
      | LED_OFF \<Rightarrow> b = Some False
      | LED_POWER_ON_BLINK \<Rightarrow> b = None
      | LED_BLINK_SLOWLY \<Rightarrow> True
      | _ \<Rightarrow> (if led_bLedBlinkInProgress l
          then led_BlinkingLedState l = opposite l \<and> (\<forall>v. b = Some v \<longrightarrow> even (unat (led_BlinkTimes l)) = (led_bLedOn l = v))
          else \<forall>v. b = Some v \<longrightarrow> led_bLedOn l = v))"

lemma shows_rest:
  assumes "led_ok l w" "led_shows l (Some v)" "\<not> led_bLedBlinkInProgress l"
  shows "led_bLedOn l = v"
  using assms by (auto simp: led_ok_def led_shows_def split: LED_STATE_8187.splits)

lemma opposite_update [simp]:
  "opposite (l\<lparr>led_CurrLedState := s\<rparr>) = opposite l" "opposite (l\<lparr>led_bLedBlinkInProgress := p\<rparr>) = opposite l"
  "opposite (l\<lparr>led_BlinkTimes := n\<rparr>) = opposite l" "opposite (l\<lparr>led_BlinkingLedState := f\<rparr>) = opposite l"
  "opposite (l\<lparr>led_BlinkTimer := t\<rparr>) = opposite l"
  by (simp_all add: opposite_def)

lemma mode0_shows:
  assumes "led_ok (ld_Gpio0Led priv) (ld_Gpio0LedWorkItem priv)" "led_shows (ld_Gpio0Led priv) b"
  shows "led_shows (ld_Gpio0Led (SwLedControlMode0 shin a priv)) (led_lasting a b)"
  using assms shows_rest [OF assms(1)]
  by (cases a; cases "led_bLedBlinkInProgress (ld_Gpio0Led priv)") (auto simp: mode0_led Let_def led_lasting_def led_shows_def)

lemma mode3_shows:
  assumes "led_ok (ld_Gpio0Led priv) (ld_Gpio0LedWorkItem priv)" "led_shows (ld_Gpio0Led priv) b"
  shows "led_shows (ld_Gpio0Led (SwLedControlMode3 a priv)) (led_lasting a b)"
  using assms shows_rest [OF assms(1)] unfolding SwLedControlMode3_def Let_def
  by (cases a; cases "led_bLedBlinkInProgress (ld_Gpio0Led priv)") (auto simp: led_lasting_def led_shows_def blink_start_def)

lemma odd_pred: "1 \<le> x \<Longrightarrow> even (unat (x - 1)) = odd (unat x)" for x :: u32
  by (simp add: unat_sub word_le_nat_alt)

lemma blink_shows:
  assumes "led_ok l True" "led_shows l b"
  shows "led_shows (led_blink l) b"
proof -
  have *: "led_shows (led_blink l) b" if s: "led_CurrLedState l = LED_BLINK_NORMAL \<or> led_CurrLedState l = LED_BLINK_CM3"
  proof -
    have busy: "led_bLedBlinkInProgress l" "1 \<le> led_BlinkTimes l" using assms(1) s by (auto simp: led_ok_def split: if_splits)
    have f: "led_BlinkingLedState l = opposite l" "\<And>v. b = Some v \<Longrightarrow> even (unat (led_BlinkTimes l)) = (led_bLedOn l = v)"
      using assms(2) s busy(1) by (auto simp: led_shows_def)
    have o: "(opposite l = LED_ON) = (\<not> led_bLedOn l)" by (simp add: opposite_def)
    have z: "led_BlinkTimes l - 1 = 0 \<Longrightarrow> odd (unat (led_BlinkTimes l))" using odd_pred [OF busy(2)] by simp
    show ?thesis
      using s f(2) z odd_pred [OF busy(2)] busy(1)
      by (auto simp: led_blink_def Let_def led_shows_def blink_again_def f(1) o flip_def opposite_def)
  qed
  show ?thesis
    using assms * by (cases "led_CurrLedState l") (auto simp: led_ok_def led_blink_def Let_def led_shows_def blink_again_def)
qed

definition led_shown :: "bool option \<Rightarrow> 'z r8187_led_scheme \<Rightarrow> bool" where
  "led_shown b priv \<longleftrightarrow> led_inv priv \<and> ld_bEnableLedCtrl priv \<and> led_shows (ld_Gpio0Led priv) b"

lemma mode0_enable: "ld_bEnableLedCtrl (SwLedControlMode0 shin a priv) = ld_bEnableLedCtrl priv"
  by (auto simp: SwLedControlMode0_def mode0_act_def Let_def split: option.splits LED_STATE_8187.splits)

lemma mode3_enable: "ld_bEnableLedCtrl (SwLedControlMode3 a priv) = ld_bEnableLedCtrl priv"
  by (auto simp: SwLedControlMode3_def Let_def split: LED_CTL_MODE.splits)

lemma SwLedBlink_enable: "ld_bEnableLedCtrl (SwLedBlink Gpio0Led priv) = ld_bEnableLedCtrl priv"
  by (simp add: SwLedBlink_def blink_switch_def blink_stop_def Let_def)

lemma led_step_shown:
  assumes "led_shown b priv" "led_step shin ev priv = Some priv'"
  shows "led_shown (led_note ev b) priv'"
proof -
  have i: "led_inv priv" "ld_bEnableLedCtrl priv" "led_shows (ld_Gpio0Led priv) b" using assms(1) by (simp_all add: led_shown_def)
  have ok: "led_ok (ld_Gpio0Led priv) (ld_Gpio0LedWorkItem priv)" using i(1) by (simp add: led_inv_def)
  have "ld_bEnableLedCtrl priv' \<and> led_shows (ld_Gpio0Led priv') (led_note ev b)"
  proof (cases ev)
    case (Led_Control a)
    then have p': "priv' = LedControl8187 shin a priv" using assms(2) by (simp add: led_step_def)
    show ?thesis
      unfolding p' Led_Control using i mode0_shows [OF ok i(3), of shin a] mode3_shows [OF ok i(3), of a]
      by (cases "ld_LedStrategy priv") (simp_all add: LedControl8187_def led_inv_def led_note_def mode0_enable mode3_enable)
  next
    case (Led_Timer p)
    have p': "priv' = BlinkTimerCallback p (led_map p (\<lambda>l. l\<lparr>led_BlinkTimer := None\<rparr>) priv)"
      using assms(2) Led_Timer by (auto simp: led_step_def split: if_splits)
    have "led_shows ((ld_Gpio0Led priv)\<lparr>led_BlinkTimer := None\<rparr>) b" using i(3) by (cases "led_CurrLedState (ld_Gpio0Led priv)") (simp_all add: led_shows_def)
    then show ?thesis using i unfolding p' Led_Timer
      by (cases p) (auto simp: BlinkTimerCallback_def PlatformSwLedBlink_def led_note_def split: LED_PIN_8187.split)
  next
    case (Led_Work p)
    have t: "led_pending p priv" and p': "priv' = led_work p priv" using assms(2) Led_Work by (auto simp: led_step_def split: if_splits)
    show ?thesis
    proof (cases p)
      case Gpio0Led
      have "Gpio0LedWorkItemCallback (priv\<lparr>ld_Gpio0LedWorkItem := False\<rparr>) = SwLedBlink Gpio0Led (priv\<lparr>ld_Gpio0LedWorkItem := False\<rparr>)"
        using i(1) by (auto simp: Gpio0LedWorkItemCallback_def led_inv_def)
      then show ?thesis using t ok i blink_shows [of "ld_Gpio0Led priv" b] unfolding p' Gpio0Led Led_Work
        by (simp add: SwLedBlink_led SwLedBlink_enable led_note_def)
    qed (use i p' Led_Work in \<open>simp_all add: SwLed0WorkItemCallback_def SwLed1WorkItemCallback_def led_note_def\<close>)
  qed
  then show ?thesis using led_step_inv [OF i(1) assms(2)] by (simp add: led_shown_def)
qed

lemma led_run_shown: "led_run shin evs priv = Some priv' \<Longrightarrow> led_shown b priv \<Longrightarrow> led_shown (fold led_note evs b) priv'"
  by (induction evs arbitrary: priv b) (auto simp: bind_eq_Some_conv dest: led_step_shown)

lemma init_leds_shown:
  assumes "ld_LedStrategy (InitSwLeds priv) \<in> {SW_LED_MODE0, SW_LED_MODE3}"
  shows "led_shown (Some False) (InitSwLeds priv)"
proof -
  have "led_CurrLedState (ld_Gpio0Led (InitSwLeds priv)) = LED_OFF"
    by (simp add: InitSwLeds_def InitLed8187_def split_beta Let_def)
  then show ?thesis using assms init_leds [of priv] by (auto simp: led_shown_def led_inv_def led_shows_def)
qed

section \<open>As the Makefiles build it\<close>

definition led_power :: "led_event \<Rightarrow> bool" where
  "led_power ev \<longleftrightarrow> ev = Led_Control LED_CTL_POWER_ON \<or> ev = Led_Control LED_CTL_POWER_OFF"

text \<open>Only power requests: the diode never blinks.\<close>

definition led_still :: "bool \<Rightarrow> bool option \<Rightarrow> 'z r8187_led_scheme \<Rightarrow> bool" where
  "led_still shin b priv \<longleftrightarrow> (let l = ld_Gpio0Led priv in \<not> led_bLedBlinkInProgress l \<and> led_BlinkTimer l = None \<and> \<not> ld_Gpio0LedWorkItem priv \<and>
     led_bLedOn l = (b = None \<and> ld_LedStrategy priv = SW_LED_MODE0 \<and> \<not> shin))"

lemma led_step_still:
  assumes "led_shown b priv" "led_still shin b priv" "led_step shin ev priv = Some priv'" "\<And>a. ev = Led_Control a \<Longrightarrow> led_power ev"
  shows "led_still shin (led_note ev b) priv' \<and> ld_LedStrategy priv' = ld_LedStrategy priv"
proof -
  have i: "led_inv priv" "ld_bEnableLedCtrl priv" using assms(1) by (simp_all add: led_shown_def)
  show ?thesis
  proof (cases ev)
    case (Led_Control a)
    then have p': "priv' = LedControl8187 shin a priv" and a: "a = LED_CTL_POWER_ON \<or> a = LED_CTL_POWER_OFF"
      using assms(3,4) by (simp_all add: led_step_def led_power_def)
    have "ld_LedStrategy priv = SW_LED_MODE0 \<or> ld_LedStrategy priv = SW_LED_MODE3" using i(1) by (simp add: led_inv_def)
    then show ?thesis
      using i a assms(2) unfolding p' Led_Control led_still_def Let_def
      by (elim disjE) (simp_all add: LedControl8187_def led_note_def led_lasting_def mode0_frame mode0_led mode3_frame Let_def,
        simp_all add: SwLedControlMode3_def Let_def)
  next
    case (Led_Timer p)
    then have "p \<noteq> Gpio0Led" using assms(2,3) by (auto simp: led_step_def led_still_def Let_def)
    then show ?thesis using i assms(2,3) Led_Timer
      by (cases p) (auto simp: led_step_def BlinkTimerCallback_def PlatformSwLedBlink_def led_inv_def led_still_def led_note_def Let_def split: if_splits)
  next
    case (Led_Work p)
    then have "p \<noteq> Gpio0Led" using assms(2,3) by (auto simp: led_step_def led_still_def Let_def)
    then show ?thesis using i assms(2,3) Led_Work
      by (cases p) (auto simp: led_step_def SwLed0WorkItemCallback_def SwLed1WorkItemCallback_def led_still_def led_note_def Let_def split: if_splits)
  qed
qed

lemma led_run_still:
  assumes "led_run shin evs priv = Some priv'" "led_shown b priv" "led_still shin b priv" "list_all (\<lambda>ev. led_power ev \<or> (\<forall>a. ev \<noteq> Led_Control a)) evs"
  shows "led_still shin (fold led_note evs b) priv' \<and> ld_LedStrategy priv' = ld_LedStrategy priv"
  using assms
proof (induction evs arbitrary: priv b)
  case Nil
  then show ?case by simp
next
  case (Cons ev evs)
  then obtain q where q: "led_step shin ev priv = Some q" "led_run shin evs q = Some priv'" by (auto simp: bind_eq_Some_conv)
  have s: "led_still shin (led_note ev b) q \<and> ld_LedStrategy q = ld_LedStrategy priv"
    by (rule led_step_still [OF Cons.prems(2,3) q(1)]) (use Cons.prems(4) in auto)
  from Cons.IH [OF q(2) led_step_shown [OF Cons.prems(2) q(1)] conjunct1 [OF s]] s Cons.prems(4) show ?case by simp
qed


section \<open>Every blinking but the slow one ends\<close>

text \<open>Timers and works only.\<close>

definition led_tick :: "led_event \<Rightarrow> bool" where
  "led_tick ev \<longleftrightarrow> ev = Led_Timer Gpio0Led \<or> ev = Led_Work Gpio0Led"

definition led_measure :: "LED_8187 \<Rightarrow> bool \<Rightarrow> nat" where
  "led_measure l w =
     (if (led_CurrLedState l = LED_BLINK_NORMAL \<or> led_CurrLedState l = LED_BLINK_CM3) \<and> led_bLedBlinkInProgress l
      then 3 * unat (led_BlinkTimes l) else 0) + (if led_BlinkTimer l \<noteq> None then 2 else 0) + (if w then 1 else 0)"

lemma led_blink_measure:
  assumes "led_ok l True" "led_CurrLedState l \<noteq> LED_BLINK_SLOWLY"
  shows "led_measure (led_blink l) False < led_measure l True" "led_CurrLedState (led_blink l) = led_CurrLedState l"
proof -
  have "1 \<le> x \<Longrightarrow> unat (x - 1) = unat x - 1 \<and> 1 \<le> unat x" for x :: u32 by (simp add: unat_sub word_le_nat_alt)
  note t = this [of "led_BlinkTimes l"]
  show "led_CurrLedState (led_blink l) = led_CurrLedState l"
    using assms(2) by (auto simp: led_blink_def Let_def blink_again_def split: LED_STATE_8187.splits)
  show "led_measure (led_blink l) False < led_measure l True"
    using assms t by (cases "led_CurrLedState l"; cases "led_bLedBlinkInProgress l") (auto simp: led_ok_def led_blink_def Let_def blink_again_def led_measure_def)
qed

lemma led_tick_measure:
  assumes "led_inv priv" "led_step shin ev priv = Some priv'" "led_tick ev" "led_CurrLedState (ld_Gpio0Led priv) \<noteq> LED_BLINK_SLOWLY"
  shows "led_measure (ld_Gpio0Led priv') (ld_Gpio0LedWorkItem priv') < led_measure (ld_Gpio0Led priv) (ld_Gpio0LedWorkItem priv) \<and>
    led_CurrLedState (ld_Gpio0Led priv') = led_CurrLedState (ld_Gpio0Led priv)"
proof -
  have pin: "led_LedPin (ld_Gpio0Led priv) = LED_PIN_GPIO0" using assms(1) by (simp add: led_inv_def led_ok_def)
  consider "ev = Led_Timer Gpio0Led" | "ev = Led_Work Gpio0Led" using assms(3) by (auto simp: led_tick_def)
  then show ?thesis
  proof cases
    case 1
    then show ?thesis using assms(2) pin
      by (auto simp: led_step_def BlinkTimerCallback_def PlatformSwLedBlink_def led_measure_def split: if_splits)
  next
    case 2
    then have w: "ld_Gpio0LedWorkItem priv" and p': "priv' = led_work Gpio0Led priv" using assms(2) by (auto simp: led_step_def split: if_splits)
    have "Gpio0LedWorkItemCallback (priv\<lparr>ld_Gpio0LedWorkItem := False\<rparr>) = SwLedBlink Gpio0Led (priv\<lparr>ld_Gpio0LedWorkItem := False\<rparr>)"
      using assms(1) by (auto simp: Gpio0LedWorkItemCallback_def led_inv_def)
    moreover have "led_ok (ld_Gpio0Led priv) True" using assms(1) w by (simp add: led_inv_def)
    ultimately show ?thesis using led_blink_measure [OF _ assms(4)] w unfolding p' by (simp add: SwLedBlink_led)
  qed
qed

lemma led_ticks_measure:
  assumes "led_run shin evs priv = Some priv'" "led_inv priv" "list_all led_tick evs" "led_CurrLedState (ld_Gpio0Led priv) \<noteq> LED_BLINK_SLOWLY"
  shows "length evs + led_measure (ld_Gpio0Led priv') (ld_Gpio0LedWorkItem priv') \<le> led_measure (ld_Gpio0Led priv) (ld_Gpio0LedWorkItem priv)"
  using assms
proof (induction evs arbitrary: priv)
  case Nil
  then show ?case by simp
next
  case (Cons ev evs)
  then obtain q where q: "led_step shin ev priv = Some q" "led_run shin evs q = Some priv'" by (auto simp: bind_eq_Some_conv)
  from led_tick_measure [OF Cons.prems(2) q(1) _ Cons.prems(4)] Cons.prems(3)
  have m: "led_measure (ld_Gpio0Led q) (ld_Gpio0LedWorkItem q) < led_measure (ld_Gpio0Led priv) (ld_Gpio0LedWorkItem priv)"
    "led_CurrLedState (ld_Gpio0Led q) \<noteq> LED_BLINK_SLOWLY" using Cons.prems(4) by auto
  from Cons.IH [OF q(2) led_step_inv [OF Cons.prems(2) q(1)] _ m(2)] Cons.prems(3) m(1) show ?case by simp
qed

lemma led_measure_le: "led_ok l w \<Longrightarrow> led_measure l w \<le> 33"
  by (auto simp: led_ok_def led_measure_def word_le_nat_alt split: LED_STATE_8187.splits if_splits)


section \<open>Strategy 1\<close>

lemma mode1_step:
  assumes "ld_LedStrategy priv = SW_LED_MODE1" "led_bLedBlinkInProgress (ld_SwLed0 priv)" "led_step shin ev priv = Some priv'"
  shows "ld_LedStrategy priv' = SW_LED_MODE1 \<and> led_bLedBlinkInProgress (ld_SwLed0 priv') \<and>
    (\<not> led_power ev \<longrightarrow> led_bLedOn (ld_SwLed0 priv') = led_bLedOn (ld_SwLed0 priv))"
proof (cases ev)
  case (Led_Control a)
  then have p': "priv' = LedControl8187 shin a priv" using assms(3) by (simp add: led_step_def)
  have s: "ld_SwLed0 (SwLedOn SwLed1 p) = ld_SwLed0 p" "ld_SwLed0 (SwLedOff SwLed1 p) = ld_SwLed0 p"
    "ld_SwLed0 (SwLedOff SwLed0 p) = (ld_SwLed0 p)\<lparr>led_bLedOn := False\<rparr>" for p :: "'a r8187_led_scheme"
    using SwLed_simps(1,2) [of SwLed0 SwLed1 p] SwLed_simps(2) [of SwLed0 SwLed0 p] by (simp_all del: SwLed_simps)
  show ?thesis
    unfolding p' LedControl8187_def using assms(1,2) Led_Control
    by (cases "ld_bEnableLedCtrl priv"; cases a) (simp_all add: SwLedControlMode1_def s led_power_def Let_def)
next
  case (Led_Timer p)
  have q: "ld_SwLed0 (PlatformSwLedBlink p q) = ld_SwLed0 q" "ld_LedStrategy (PlatformSwLedBlink p q) = ld_LedStrategy q" for p and q :: "'a r8187_led_scheme"
    by (simp_all add: PlatformSwLedBlink_def split: LED_PIN_8187.splits)
  show ?thesis
    using assms Led_Timer by (cases p) (auto simp: led_step_def BlinkTimerCallback_def q led_power_def split: if_splits)
next
  case (Led_Work p)
  then have "priv' = led_work p priv" using assms(3) by (auto simp: led_step_def split: if_splits)
  then show ?thesis
    using assms(1,2) Led_Work
    by (cases p) (simp_all add: Gpio0LedWorkItemCallback_def SwLed0WorkItemCallback_def SwLed1WorkItemCallback_def SwLedBlink_led led_power_def)
qed

lemma mode1_run:
  "led_run shin evs priv = Some priv' \<Longrightarrow> ld_LedStrategy priv = SW_LED_MODE1 \<Longrightarrow> led_bLedBlinkInProgress (ld_SwLed0 priv) \<Longrightarrow>
     led_bLedBlinkInProgress (ld_SwLed0 priv') \<and>
     (list_all (\<lambda>ev. \<not> led_power ev) evs \<longrightarrow> led_bLedOn (ld_SwLed0 priv') = led_bLedOn (ld_SwLed0 priv))"
proof (induction evs arbitrary: priv)
  case Nil
  then show ?case by simp
next
  case (Cons ev evs)
  then obtain q where q: "led_step shin ev priv = Some q" "led_run shin evs q = Some priv'" by (auto simp: bind_eq_Some_conv)
  from mode1_step [OF Cons.prems(2,3) q(1)] Cons.IH [OF q(2)] show ?case by auto
qed


section \<open>From the memory to the strategy\<close>

lemma init_leds_strategy:
  assumes "mem_ready type mem priv"
  shows "ld_LedStrategy (InitSwLeds priv) = led_strategy (led_customer (ucast (mem 63)))"
proof -
  let ?p = "exec (read_nic_byte PSR) (priv\<lparr>ld_bEnableLedCtrl := True\<rparr>)"
  have "mem_ready type mem (priv\<lparr>ld_bEnableLedCtrl := True\<rparr>)" using assms by (simp add: mem_ready_def eprom_wired_def)
  moreover have "log_ext (priv\<lparr>ld_bEnableLedCtrl := True\<rparr>) ?p" by (intro log_ext_keeps keeps)
  ultimately have "mem_ready type mem ?p" by (simp add: mem_ready_ext)
  from priv_eprom_word [OF this, of 63] have w: "fst (run_state (priv_eprom_read 63) ?p) = ucast (mem 63)" by simp
  have b: "(ucast (ucast (mem 63) AND 0xff :: u32) :: u8) = ucast (mem 63)"
    unfolding phy_masks by (rule bit_word_eqI) (simp add: bit_simps)
  have "(0x7e div 2 :: u32) = 63" by simp
  then show ?thesis unfolding InitSwLeds_def Let_def split_beta exec_def [symmetric] by (simp add: w b)
qed

section \<open>Examples\<close>

definition led_blank :: LED_8187 where
  "led_blank = \<lparr>led_LedPin = LED_PIN_GPIO0, led_CurrLedState = LED_UNKNOWN, led_bLedOn = False, led_bLedBlinkInProgress = False,
     led_BlinkTimes = 0, led_BlinkingLedState = LED_UNKNOWN, led_BlinkTimer = None\<rparr>"

definition led_example :: r8187_led where
  "led_example = r8187_dm.extend ((dh_priv dm_example)\<lparr>pr_epromtype := EPROM_93c46\<rparr>) \<lparr>ld_bEnableLedCtrl = False, ld_PsrValue = 0, ld_EEPROMCustomerID = 0,
     ld_CustomerID = RT_CID_DEFAULT, ld_LedStrategy = SW_LED_MODE0, ld_Gpio0Led = led_blank, ld_SwLed0 = led_blank, ld_SwLed1 = led_blank,
     ld_Gpio0LedWorkItem = False, ld_SwLed0WorkItem = False, ld_SwLed1WorkItem = False, ld_eRFPowerState = eRfOff, ld_RfOffReason = 0\<rparr>"

lemma led_example_strategy: "ld_LedStrategy (InitSwLeds led_example) = SW_LED_MODE0"
proof -
  have "mem_ready EPROM_93c46 board_mem led_example"
    using board_example_facts(1) by (simp add: mem_ready_def eprom_wired_def led_example_def dm_example_def r8187.defs r8187_dm.defs)
  from init_leds_strategy [OF this] show ?thesis by (simp add: board_mem_def led_customer_def led_strategy_def)
qed

text \<open>A frame is sent, the timer and the work run, and then the link is found while the diode blinks.\<close>

definition led_story :: "led_event list" where
  "led_story = [Led_Control LED_CTL_TX, Led_Timer Gpio0Led, Led_Work Gpio0Led, Led_Control LED_CTL_LINK, Led_Timer Gpio0Led, Led_Work Gpio0Led]"

definition led_view :: "'z r8187_led_scheme \<Rightarrow> LED_STRATEGY_8187 \<times> bool \<times> LED_8187 \<times> bool" where
  "led_view p = (ld_LedStrategy p, ld_bEnableLedCtrl p, ld_Gpio0Led p, ld_Gpio0LedWorkItem p)"

lemma view_control:
  assumes "led_view p = (SW_LED_MODE0, True, l, w)"
  shows "\<exists>q. led_step shin (Led_Control a) p = Some q \<and> led_view q = (SW_LED_MODE0, True, ld_Gpio0Led (SwLedControlMode0 shin a p), w)"
  using assms by (simp add: led_view_def led_step_def LedControl8187_def mode0_frame mode0_enable)

lemma view_timer:
  assumes "led_view p = (s, e, l, w)" "led_BlinkTimer l \<noteq> None" "led_LedPin l = LED_PIN_GPIO0"
  shows "\<exists>q. led_step shin (Led_Timer Gpio0Led) p = Some q \<and> led_view q = (s, e, l\<lparr>led_BlinkTimer := None\<rparr>, True)"
  using assms by (auto simp: led_view_def led_step_def BlinkTimerCallback_def PlatformSwLedBlink_def)

lemma view_work:
  assumes "led_view p = (SW_LED_MODE0, e, l, True)"
  shows "\<exists>q. led_step shin (Led_Work Gpio0Led) p = Some q \<and> led_view q = (SW_LED_MODE0, e, led_blink l, False)"
proof -
  show ?thesis using assms by (simp add: led_view_def led_step_def Gpio0LedWorkItemCallback_def SwLedBlink_led SwLedBlink_enable)
qed

lemma led_example_run:
  "\<exists>q r. led_run True (take 4 led_story) (InitSwLeds led_example) = Some q \<and> led_CurrLedState (ld_Gpio0Led q) = LED_ON \<and>
     led_run True (drop 4 led_story) q = Some r \<and> led_run True led_story (InitSwLeds led_example) = Some r \<and>
     led_CurrLedState (ld_Gpio0Led r) = LED_ON \<and> \<not> led_bLedBlinkInProgress (ld_Gpio0Led r)"
proof -
  let ?p = "InitSwLeds led_example"
  have "ld_Gpio0Led ?p = led_blank\<lparr>led_CurrLedState := LED_OFF, led_BlinkingLedState := LED_OFF\<rparr>"
    by (simp add: InitSwLeds_def InitLed8187_def split_beta Let_def led_blank_def)
  then have p: "led_view ?p = (SW_LED_MODE0, True, led_blank\<lparr>led_CurrLedState := LED_OFF, led_BlinkingLedState := LED_OFF\<rparr>, False)"
    using init_leds(1,3) [of led_example] by (simp add: led_view_def led_example_strategy)
  from view_control [OF p, of True LED_CTL_TX] p obtain a where a: "led_step True (Led_Control LED_CTL_TX) ?p = Some a"
    "led_view a = (SW_LED_MODE0, True, led_blank\<lparr>led_CurrLedState := LED_BLINK_NORMAL, led_bLedBlinkInProgress := True,
       led_BlinkingLedState := LED_ON, led_BlinkTimer := Some 100, led_BlinkTimes := 2\<rparr>, False)"
    by (auto simp: mode0_led led_view_def led_blank_def opposite_def)
  from view_timer [OF a(2)] obtain b where b: "led_step True (Led_Timer Gpio0Led) a = Some b"
    "led_view b = (SW_LED_MODE0, True, led_blank\<lparr>led_CurrLedState := LED_BLINK_NORMAL, led_bLedBlinkInProgress := True,
       led_BlinkingLedState := LED_ON, led_BlinkTimer := None, led_BlinkTimes := 2\<rparr>, True)" by (auto simp: led_blank_def)
  from view_work [OF b(2)] obtain c where c: "led_step True (Led_Work Gpio0Led) b = Some c"
    "led_view c = (SW_LED_MODE0, True, led_blank\<lparr>led_CurrLedState := LED_BLINK_NORMAL, led_bLedOn := True, led_bLedBlinkInProgress := True,
       led_BlinkingLedState := LED_OFF, led_BlinkTimer := Some 100, led_BlinkTimes := 1\<rparr>, False)"
    by (auto simp: led_blank_def led_blink_def blink_again_def flip_def Let_def)
  from view_control [OF c(2), of True LED_CTL_LINK] c(2) obtain d where d: "led_step True (Led_Control LED_CTL_LINK) c = Some d"
    "led_view d = (SW_LED_MODE0, True, led_blank\<lparr>led_CurrLedState := LED_ON, led_bLedOn := True, led_bLedBlinkInProgress := True,
       led_BlinkingLedState := LED_OFF, led_BlinkTimer := Some 100, led_BlinkTimes := 1\<rparr>, False)"
    by (auto simp: mode0_led led_view_def led_blank_def)
  from view_timer [OF d(2)] obtain e where e: "led_step True (Led_Timer Gpio0Led) d = Some e"
    "led_view e = (SW_LED_MODE0, True, led_blank\<lparr>led_CurrLedState := LED_ON, led_bLedOn := True, led_bLedBlinkInProgress := True,
       led_BlinkingLedState := LED_OFF, led_BlinkTimer := None, led_BlinkTimes := 1\<rparr>, True)" by (auto simp: led_blank_def)
  from view_work [OF e(2)] obtain f where f: "led_step True (Led_Work Gpio0Led) e = Some f"
    "led_view f = (SW_LED_MODE0, True, led_blank\<lparr>led_CurrLedState := LED_ON, led_bLedOn := True, led_BlinkingLedState := LED_OFF\<rparr>, False)"
    by (auto simp: led_blank_def led_blink_def Let_def)
  show ?thesis
    by (rule exI [of _ d], rule exI [of _ f]) (use a b c d e f in \<open>simp add: led_story_def led_view_def led_blank_def\<close>)
qed




end
