(* ===== verification/Spec2Isabelle.thy ===== *)
theory Spec2Isabelle
  imports Crypt Bss_Table Link Tx_Driver Softmac_Spec Softmac_Scan Softmac_Meet Rx_Driver Dig Led_Inv
begin

text \<open>
  Verification library of the Realtek RTL8187L Linux driver.
\<close>

end
